(* ===== verification/Prelude.thy ===== *)
theory Prelude
  imports Main "HOL-Library.Word" "HOL-Library.AList"
begin

text \<open>
  What every component of the development shares: bytes and Node buffers, ordered
  JavaScript maps as association lists, and the collections of simplification rules
  that the component proofs use.

  A \<open>Buffer\<close> of the source is a list of 8-bit words. \<open>buf[i]\<close> is \<open>undefined\<close> out of
  range, so \<open>idx\<close> returns an option. A \<open>Map\<close> keeps the order of first insertion:
  \<open>AList.update\<close> overwrites in place and appends a new key at the end, which is what
  \<open>Map.prototype.set\<close> does, and \<open>AList.delete\<close> is \<open>Map.prototype.delete\<close>.
\<close>

unbundle bit_operations_syntax

type_synonym byte = "8 word"
type_synonym buffer = "byte list"

named_theorems js_simps \<open>evaluation rules for the JavaScript values and containers\<close>
named_theorems frame_simps \<open>fields an operation leaves alone\<close>

subsection \<open>Buffers\<close>

definition idx :: "'a list \<Rightarrow> nat \<Rightarrow> 'a option" where
  "idx xs i = (if i < length xs then Some (xs ! i) else None)"

text \<open>\<open>buf.subarray(a, b)\<close> clamps both ends to the buffer.\<close>

definition subarray :: "nat \<Rightarrow> nat \<Rightarrow> 'a list \<Rightarrow> 'a list" where
  "subarray a b xs = take (b - a) (drop a xs)"

lemma idx_eq_Some [js_simps]: "idx xs i = Some x \<longleftrightarrow> i < length xs \<and> xs ! i = x"
  by (auto simp: idx_def)

lemma idx_Cons_0 [simp]: "idx (x # xs) 0 = Some x"
  by (simp add: idx_def)

lemma idx_Cons_Suc [simp]: "idx (x # xs) (Suc i) = idx xs i"
  by (simp add: idx_def)

lemma idx_Cons_numeral [simp]: "idx (x # xs) (numeral k) = idx xs (numeral k - 1)"
  by (simp add: idx_def nth_Cons')

lemma idx_Nil [simp]: "idx [] i = None"
  by (simp add: idx_def)

lemma idx_append: "idx (xs @ ys) i = (if i < length xs then idx xs i else idx ys (i - length xs))"
  by (auto simp: idx_def nth_append)

lemma length_subarray: "length (subarray a b xs) = min (b - a) (length xs - a)"
  by (simp add: subarray_def min.commute)

lemma subarray_append_mid [simp]:
  "subarray (length xs) (length xs + length ys) (xs @ ys @ zs) = ys"
  by (simp add: subarray_def)

subsection \<open>Two bytes and a 16-bit word\<close>

definition hi_byte :: "16 word \<Rightarrow> byte" where
  "hi_byte w = ucast (drop_bit 8 w)"

definition lo_byte :: "16 word \<Rightarrow> byte" where
  "lo_byte w = ucast w"

text \<open>\<open>readUInt16BE\<close>.\<close>

definition be16 :: "byte \<Rightarrow> byte \<Rightarrow> nat" where
  "be16 a b = unat a * 256 + unat b"

lemma unat_byte_less [simp]: "unat (b :: byte) < 256"
  by (rule order_less_le_trans [OF unsigned_less]) simp

lemma unat_byte_le [simp]: "unat (b :: byte) \<le> 255"
  using unat_byte_less [of b] by linarith

lemma unat_hi_byte: "unat (hi_byte w) = unat w div 256"
proof -
  have "unat w < 65536" by (rule order_less_le_trans [OF unsigned_less]) simp
  then have *: "unat w div 256 < 256" by simp
  have "unat (hi_byte w) = unat (drop_bit 8 w) mod 256"
    by (simp only: hi_byte_def unsigned_ucast_eq) (simp add: take_bit_eq_mod)
  also have "unat (drop_bit 8 w) = unat w div 256"
    by (simp only: drop_bit_eq_div) (simp add: unat_div_distrib)
  finally show ?thesis using * by simp
qed

lemma unat_lo_byte: "unat (lo_byte w) = unat w mod 256"
  by (simp add: lo_byte_def unsigned_ucast_eq take_bit_eq_mod)

lemma be16_hi_lo [simp]: "be16 (hi_byte w) (lo_byte w) = unat w"
  by (simp add: be16_def unat_hi_byte unat_lo_byte)

lemma hi_lo_inject: "hi_byte v = hi_byte w \<Longrightarrow> lo_byte v = lo_byte w \<Longrightarrow> v = w"
  by (metis be16_hi_lo word_unat_eq_iff)

lemma word_xor_cancel_left [simp]: "c XOR a = c XOR b \<longleftrightarrow> a = b" for a b c :: "'a::len word"
  by (metis xor.assoc xor_self_eq xor.left_neutral)

lemma word_xor_cancel_right [simp]: "a XOR c = b XOR c \<longleftrightarrow> a = b" for a b c :: "'a::len word"
  by (simp add: xor.commute [of _ c])

lemma word_xor_eq_0: "x XOR y = 0 \<Longrightarrow> x = y" for x y :: "'a::len word"
  by (metis word_xor_cancel_right xor_self_eq)

lemma word_of_nat_byte_eq: "n < 256 \<Longrightarrow> unat (word_of_nat n :: byte) = n"
  by (simp add: unat_of_nat)

subsection \<open>Bit operations on natural numbers\<close>

lemma push_bit_or_eq: "b < 2 ^ n \<Longrightarrow> push_bit n a OR b = a * 2 ^ n + b" for a b :: nat
proof -
  assume "b < 2 ^ n"
  then have "take_bit n b = b" by (simp add: take_bit_nat_eq_self)
  then have "push_bit n a AND b = 0"
    by (intro bit_eqI) (metis bit_0_eq bit_and_iff bit_push_bit_iff bit_take_bit_iff bot_apply bot_bool_def not_less)
  then show ?thesis by (simp add: disjunctive_add_eq_or [symmetric] push_bit_eq_mult)
qed

lemma nat_and_mask: "n AND mask k = n mod 2 ^ k" for n :: nat
  by (simp only: take_bit_eq_mask [symmetric] take_bit_eq_mod)

lemma nat_and_masks [js_simps]:
  "n AND 3 = n mod 4" "n AND 15 = n mod 16" "n AND 255 = n mod 256" for n :: nat
  using nat_and_mask [of n 2] nat_and_mask [of n 4] nat_and_mask [of n 8]
  by (simp_all add: mask_eq_exp_minus_1)

subsection \<open>Ordered maps\<close>

lemma keys_AList_update [js_simps]:
  "fst ` set (AList.update k v m) = insert k (fst ` set m)"
  by (induction m) auto

lemma length_AList_update:
  "length (AList.update k v m) = (if k \<in> fst ` set m then length m else Suc (length m))"
  by (induction m) auto

lemma length_AList_delete_le: "length (AList.delete k m) \<le> length m"
  by (simp add: AList.delete_eq)

lemma AList_delete_notin: "k \<notin> fst ` set m \<Longrightarrow> AList.delete k m = m"
  by (induction m) (auto simp: AList.delete_eq)

lemma AList_update_notin: "k \<notin> fst ` set m \<Longrightarrow> AList.update k v m = m @ [(k, v)]"
  by (induction m) auto

lemma map_of_eq_None_iff_notin: "map_of m k = None \<longleftrightarrow> k \<notin> fst ` set m"
  by (metis map_of_eq_None_iff)

text \<open>
  A sum over the entries of an ordered map, used for byte budgets: updating or deleting a
  key changes it by exactly that entry's weight.
\<close>

lemma sum_list_AList_delete:
  fixes w :: "'k \<times> 'v \<Rightarrow> 'a :: comm_monoid_add"
  assumes "distinct (map fst m)" and "map_of m k = Some v"
  shows "sum_list (map w (AList.delete k m)) + w (k, v) = sum_list (map w m)"
  using assms
proof (induction m)
  case Nil
  then show ?case by simp
next
  case (Cons p m)
  show ?case
  proof (cases "fst p = k")
    case True
    with Cons.prems have "p = (k, v)" and "k \<notin> fst ` set m"
      by (cases p, auto)
    then show ?thesis by (simp add: AList_delete_notin add.commute)
  next
    case False
    with Cons.prems have "map_of m k = Some v" by (cases p) auto
    with Cons False show ?thesis by (cases p) (auto simp: add.assoc)
  qed
qed

lemma sum_list_AList_update:
  fixes w :: "'k \<times> 'v \<Rightarrow> 'a :: comm_monoid_add"
  assumes "distinct (map fst m)"
  shows "sum_list (map w (AList.update k v m)) + (case map_of m k of None \<Rightarrow> 0 | Some u \<Rightarrow> w (k, u))
    = sum_list (map w m) + w (k, v)"
  using assms
proof (induction m)
  case Nil
  then show ?case by simp
next
  case (Cons p m)
  obtain k' v' where p: "p = (k', v')" by (cases p)
  show ?case
  proof (cases "k' = k")
    case True
    then show ?thesis using Cons.prems p by (simp add: ac_simps)
  next
    case False
    with Cons p show ?thesis by (simp add: add.assoc)
  qed
qed

lemma distinct_AList_update [simp]: "distinct (map fst m) \<Longrightarrow> distinct (map fst (AList.update k v m))"
  by (rule AList.distinct_update)

lemma map_of_AList_update [simp]: "map_of (AList.update k v m) j = (if j = k then Some v else map_of m j)"
  by (simp add: AList.update_conv')

lemma map_of_AList_delete [simp]: "map_of (AList.delete k m) j = (if j = k then None else map_of m j)"
  by (simp add: AList.delete_conv')

subsection \<open>Lists\<close>

lemma length_filter_le_1_iff:
  "length (filter P xs) = 1 \<longleftrightarrow> (\<exists>x. filter P xs = [x])"
  by (auto simp: length_Suc_conv One_nat_def)

lemma take_drop_prefix [simp]: "length xs = n \<Longrightarrow> take n (xs @ ys) = xs"
  by simp

subsection \<open>Strings\<close>

text \<open>
  A string is the list of its UTF-8 bytes as 8-bit characters, so \<open>Buffer.byteLength\<close> is
  \<open>length\<close>. The expressions the sources test strings with are about ASCII characters.
  \<open>split_on\<close> is \<open>s.split(c)\<close> for a one-character separator: one part more than separators,
  and \<open>['']\<close> on the empty string.
\<close>

fun split_on :: "'a \<Rightarrow> 'a list \<Rightarrow> 'a list list" where
  "split_on c [] = [[]]"
| "split_on c (x # xs) =
    (if x = c then [] # split_on c xs
     else (case split_on c xs of [] \<Rightarrow> [[x]] | p # ps \<Rightarrow> (x # p) # ps))"

fun join_with :: "'a \<Rightarrow> 'a list list \<Rightarrow> 'a list" where
  "join_with c [] = []"
| "join_with c [p] = p"
| "join_with c (p # q # ps) = p @ c # join_with c (q # ps)"

lemma split_on_neq_Nil [simp]: "split_on c xs \<noteq> []"
  by (induction xs) (auto split: list.split)

lemma join_with_Cons: "ps \<noteq> [] \<Longrightarrow> join_with c (p # ps) = p @ c # join_with c ps"
  by (cases ps) auto

lemma join_split [simp]: "join_with c (split_on c xs) = xs"
proof (induction xs)
  case Nil
  then show ?case by simp
next
  case (Cons x xs)
  obtain p ps where "split_on c xs = p # ps" by (cases "split_on c xs") auto
  with Cons show ?case by (cases ps) (auto simp: join_with_Cons)
qed

lemma split_on_no_sep: "\<forall>p \<in> set (split_on c xs). c \<notin> set p"
  by (induction xs) (auto split: list.split)

lemma set_split_on: "(\<Union>p \<in> set (split_on c xs). set p) \<subseteq> set xs"
proof (induction xs)
  case Nil
  then show ?case by simp
next
  case (Cons x xs)
  then show ?case by (cases "split_on c xs") auto
qed

lemma split_on_single [simp]: "c \<notin> set p \<Longrightarrow> split_on c p = [p]"
  by (induction p) auto

lemma split_on_append: "c \<notin> set p \<Longrightarrow> split_on c (p @ c # xs) = p # split_on c xs"
  by (induction p) auto

lemma split_on_eq_single: "split_on c xs = [p] \<longleftrightarrow> xs = p \<and> c \<notin> set p"
  by (metis join_split join_with.simps(2) list.set_intros(1) split_on_no_sep split_on_single)

lemma split_join: "ps \<noteq> [] \<Longrightarrow> \<forall>p \<in> set ps. c \<notin> set p \<Longrightarrow> split_on c (join_with c ps) = ps"
proof (induction ps)
  case Nil
  then show ?case by simp
next
  case (Cons p ps)
  then show ?case by (cases "ps = []") (auto simp: join_with_Cons split_on_append)
qed

text \<open>Prefix and suffix tests: \<open>s.startsWith\<close>, \<open>s.endsWith\<close>, and the rest of the string.\<close>

definition starts_with :: "'a list \<Rightarrow> 'a list \<Rightarrow> bool" where
  "starts_with p s \<longleftrightarrow> take (length p) s = p"

definition ends_with :: "'a list \<Rightarrow> 'a list \<Rightarrow> bool" where
  "ends_with p s \<longleftrightarrow> length p \<le> length s \<and> drop (length s - length p) s = p"

definition strip_prefix :: "'a list \<Rightarrow> 'a list \<Rightarrow> 'a list option" where
  "strip_prefix p s = (if starts_with p s then Some (drop (length p) s) else None)"

lemma strip_prefix_eq [js_simps]: "strip_prefix p s = Some r \<longleftrightarrow> s = p @ r"
  unfolding strip_prefix_def starts_with_def
  by (auto simp: append_eq_conv_conj) (metis append_take_drop_id)

lemma starts_with_iff [js_simps]: "starts_with p s \<longleftrightarrow> (\<exists>r. s = p @ r)"
  unfolding starts_with_def by (metis append_eq_conv_conj)

text \<open>\<open>s.replace(p, '')\<close> for an expression anchored at the start.\<close>

definition without_prefix :: "'a list \<Rightarrow> 'a list \<Rightarrow> 'a list" where
  "without_prefix p s = (case strip_prefix p s of Some r \<Rightarrow> r | None \<Rightarrow> s)"

definition digit :: "char \<Rightarrow> bool" where
  "digit c \<longleftrightarrow> c \<in> set ''0123456789''"

definition alpha :: "char \<Rightarrow> bool" where
  "alpha c \<longleftrightarrow> c \<in> set ''abcdefghijklmnopqrstuvwxyzABCDEFGHIJKLMNOPQRSTUVWXYZ''"

definition alnum :: "char \<Rightarrow> bool" where
  "alnum c \<longleftrightarrow> alpha c \<or> digit c"

definition digit_value :: "char \<Rightarrow> nat" where
  "digit_value c = of_char c - 48"

definition decimal :: "string \<Rightarrow> nat" where
  "decimal s = foldl (\<lambda>n c. 10 * n + digit_value c) 0 s"

text \<open>ASCII white space, \<open>s.trim()\<close>, and a number in a template string.\<close>

definition is_space :: "char \<Rightarrow> bool" where
  "is_space c \<longleftrightarrow> (let n = of_char c :: nat in (9 \<le> n \<and> n \<le> 13) \<or> n = 32)"

definition trim :: "string \<Rightarrow> string" where
  "trim s = rev (dropWhile is_space (rev (dropWhile is_space s)))"

fun show_nat :: "nat \<Rightarrow> string" where
  "show_nat n = (if n < 10 then [''0123456789'' ! n] else show_nat (n div 10) @ [''0123456789'' ! (n mod 10)])"

declare show_nat.simps [simp del]

lemma dropWhile_idem: "dropWhile P (dropWhile P xs) = dropWhile P xs"
  by (induction xs) auto

text \<open>The two generations of the appliance protocol.\<close>

datatype platform = Thinq1 | Thinq2

subsection \<open>Results\<close>

text \<open>
  An operation on a state that may throw: the new state and \<open>Inl\<close> the message or \<open>Inr\<close> the
  result. \<open>and_then\<close> runs the rest unless the first part threw.
\<close>

type_synonym ('s, 'a) outcome = "'s \<times> (string + 'a)"

definition and_then :: "('s, 'a) outcome \<Rightarrow> ('s \<Rightarrow> 'a \<Rightarrow> ('s, 'b) outcome) \<Rightarrow> ('s, 'b) outcome" where
  "and_then r f = (case r of (s, Inl e) \<Rightarrow> (s, Inl e) | (s, Inr a) \<Rightarrow> f s a)"

lemma and_then_simps [simp]:
  "and_then (s, Inl e) f = (s, Inl e)" "and_then (s, Inr a) f = f s a"
  by (simp_all add: and_then_def)

lemma and_then_Inr:
  "and_then r f = (s', Inr b) \<longleftrightarrow> (\<exists>s a. r = (s, Inr a) \<and> f s a = (s', Inr b))"
  by (cases r; cases "snd r") (auto simp: and_then_def)

end
