(* ===== verification/RepeatedLog.thy ===== *)
theory RepeatedLog
  imports Prelude
begin

text \<open>
  Collapsing repeated log lines: \<open>util/repeated_log.ts\<close>. The closure's map \<open>seen\<close> is the
  state; \<open>report\<close> returns the new map and the count passed to \<open>line\<close> when a line is emitted.
  Times are integers in milliseconds (\<open>Date.now()\<close>), which need not be monotone.
\<close>

record repeat_state =
  reported_at :: int
  held :: nat

definition report ::
  "int \<Rightarrow> ('k \<rightharpoonup> repeat_state) \<Rightarrow> 'k \<Rightarrow> int \<Rightarrow> ('k \<rightharpoonup> repeat_state) \<times> nat option"
where
  "report every_ms seen key now =
    (case seen key of
       None \<Rightarrow> (seen(key \<mapsto> \<lparr>reported_at = now, held = 0\<rparr>), Some 0)
     | Some st \<Rightarrow>
         (let st = st\<lparr>held := held st + 1\<rparr> in
          if now - reported_at st < every_ms then (seen(key \<mapsto> st), None)
          else (seen(key \<mapsto> \<lparr>reported_at = now, held = 0\<rparr>), Some (held st))))"

text \<open>A run over calls \<open>(key, now)\<close>, with the lines emitted: their key, time and count.\<close>

fun reports ::
  "int \<Rightarrow> ('k \<rightharpoonup> repeat_state) \<Rightarrow> ('k \<times> int) list \<Rightarrow> ('k \<rightharpoonup> repeat_state) \<times> ('k \<times> int \<times> nat) list"
where
  "reports e seen [] = (seen, [])"
| "reports e seen ((k, now) # calls) =
    (case report e seen k now of
       (seen', line) \<Rightarrow>
         (case reports e seen' calls of
            (seen'', out) \<Rightarrow>
              (seen'', (case line of None \<Rightarrow> out | Some h \<Rightarrow> (k, now, h) # out))))"

definition lines_of :: "'k \<Rightarrow> ('k \<times> int \<times> nat) list \<Rightarrow> (int \<times> nat) list" where
  "lines_of k out = map snd (filter (\<lambda>l. fst l = k) out)"

definition held_of :: "('k \<rightharpoonup> repeat_state) \<Rightarrow> 'k \<Rightarrow> nat" where
  "held_of seen k = (case seen k of None \<Rightarrow> 0 | Some st \<Rightarrow> held st)"

text \<open>What \<open>k\<close> still owes: its held count, and one for the first line if it was never seen.\<close>

lemma reports_accounting:
  assumes "reports e seen calls = (seen', out)"
  shows "held_of seen k + length (filter (\<lambda>c. fst c = k) calls) =
    sum_list (map snd (lines_of k out)) + held_of seen' k +
    (if seen k = None \<and> (\<exists>c \<in> set calls. fst c = k) then 1 else 0)"
  using assms
proof (induction e seen calls arbitrary: seen' out rule: reports.induct)
  case (1 e seen)
  then show ?case by (simp add: lines_of_def)
next
  case (2 e seen k' now calls)
  obtain s1 line where r: "report e seen k' now = (s1, line)" by (cases "report e seen k' now")
  obtain s2 out' where rs: "reports e s1 calls = (s2, out')" by (cases "reports e s1 calls")
  from 2(1) [OF r [symmetric] rs]
  have IH: "held_of s1 k + length (filter (\<lambda>c. fst c = k) calls) =
      sum_list (map snd (lines_of k out')) + held_of s2 k +
      (if s1 k = None \<and> (\<exists>c \<in> set calls. fst c = k) then 1 else 0)" by simp
  show ?case
    using 2(2) r rs IH
    by (auto simp: report_def lines_of_def held_of_def Let_def split: option.splits if_splits)
qed

text \<open>
  No repeat is lost: for every key, the calls made are exactly the first line, the repeats
  the emitted lines announce and the repeats still held.
\<close>

theorem repeats_accounted:
  assumes "reports every_ms Map.empty calls = (seen, out)" and "\<exists>c \<in> set calls. fst c = k"
  shows "length (filter (\<lambda>c. fst c = k) calls) = 1 + sum_list (map snd (lines_of k out)) + held_of seen k"
  using reports_accounting [OF assms(1), of k] assms(2) by (simp add: held_of_def)

theorem repeats_accounted_witness:
  "length (filter (\<lambda>c. fst c = ''a'') [(''a'', 0 :: int), (''a'', 5), (''b'', 6), (''a'', 12), (''a'', 13 :: int)]) =
    1 + sum_list (map snd (lines_of ''a'' [(''a'', 0, 0), (''b'', 6, 0), (''a'', 12, 2)])) +
    held_of [''a'' \<mapsto> \<lparr>reported_at = 12, held = 1\<rparr>, ''b'' \<mapsto> \<lparr>reported_at = 6, held = 0\<rparr>] ''a''"
  by (rule repeats_accounted [of 10]) (auto simp: report_def Let_def fun_eq_iff)

lemma report_state_after_line:
  "report e seen k now = (seen', Some h) \<Longrightarrow> seen' k = Some \<lparr>reported_at = now, held = 0\<rparr>"
  by (auto simp: report_def Let_def split: option.splits if_splits)

lemma reports_quiet:
  assumes "seen k = Some st" and "\<forall>c \<in> set calls. fst c = k \<longrightarrow> snd c - reported_at st < e"
  shows "lines_of k (snd (reports e seen calls)) = []"
  using assms
proof (induction e seen calls arbitrary: st rule: reports.induct)
  case (1 e seen)
  then show ?case by (simp add: lines_of_def)
next
  case (2 e seen k' now calls)
  obtain s1 line where r: "report e seen k' now = (s1, line)" by (cases "report e seen k' now")
  obtain s2 out' where rs: "reports e s1 calls = (s2, out')" by (cases "reports e s1 calls")
  show ?case
  proof (cases "k' = k")
    case True
    with 2(2,3) r have "line = None" and "s1 k = Some (st\<lparr>held := held st + 1\<rparr>)"
      by (auto simp: report_def Let_def split: if_splits)
    with 2(1) [OF r [symmetric], of "st\<lparr>held := held st + 1\<rparr>"] 2(3) r rs show ?thesis
      by simp
  next
    case False
    with r 2(2) have "s1 k = Some st" by (auto simp: report_def Let_def split: option.splits if_splits)
    with 2(1) [OF r [symmetric], of st] 2(3) r rs False show ?thesis
      by (auto simp: lines_of_def split: option.split)
  qed
qed

text \<open>
  At most one line per key and interval: after a line for \<open>k\<close> at time \<open>t\<close>, no call before
  \<open>t + every_ms\<close> prints another.
\<close>

theorem repeats_rate_limited:
  assumes "report every_ms seen k t = (seen', Some h)"
    and "\<forall>c \<in> set calls. fst c = k \<longrightarrow> snd c < t + every_ms"
  shows "lines_of k (snd (reports every_ms seen' calls)) = []"
proof (rule reports_quiet)
  show "seen' k = Some \<lparr>reported_at = t, held = 0\<rparr>"
    by (rule report_state_after_line [OF assms(1)])
  show "\<forall>c \<in> set calls. fst c = k \<longrightarrow> snd c - reported_at \<lparr>reported_at = t, held = 0\<rparr> < every_ms"
    using assms(2) by auto
qed

theorem repeats_rate_limited_witness:
  "lines_of ''a'' (snd (reports 10 [''a'' \<mapsto> \<lparr>reported_at = 0, held = 0\<rparr>] [(''a'', 3), (''a'', 9), (''b'', 20)])) = []"
  by (rule repeats_rate_limited [of 10 Map.empty "''a''" 0]) (simp_all add: report_def)

subsection \<open>OpenSSL error tags\<close>

text \<open>
  \<open>withoutErrorTag\<close>: the expression \<open>^[0-9A-F]{8,}:\<close> matches the longest run of hex digits when
  it has at least 8 of them and a colon follows (a colon is no hex digit, so the greedy run is
  the only candidate).
\<close>

definition upper_hex :: "char \<Rightarrow> bool" where
  "upper_hex c \<longleftrightarrow> c \<in> set ''0123456789ABCDEF''"

definition withoutErrorTag :: "string \<Rightarrow> string" where
  "withoutErrorTag message =
    (let tag = takeWhile upper_hex message; rest = dropWhile upper_hex message in
     if length tag \<ge> 8 then (case rest of c # r \<Rightarrow> if c = CHR '':'' then r else message | [] \<Rightarrow> message)
     else message)"

lemma withoutErrorTag_tagged:
  assumes "list_all upper_hex tag" and "8 \<le> length tag"
  shows "withoutErrorTag (tag @ CHR '':'' # rest) = rest"
proof -
  have "\<not> upper_hex CHR '':''" by (simp add: upper_hex_def)
  moreover have "\<forall>c \<in> set tag. upper_hex c" using assms(1) by (simp add: list_all_iff)
  ultimately have "takeWhile upper_hex (tag @ CHR '':'' # rest) = tag"
    and "dropWhile upper_hex (tag @ CHR '':'' # rest) = CHR '':'' # rest"
    by (simp_all add: takeWhile_append2 dropWhile_append2)
  with assms(2) show ?thesis by (simp add: withoutErrorTag_def)
qed

end
