(* ===== verification/Crc16.thy ===== *)
theory Crc16
  imports Prelude
begin

text \<open>
  The checksum of the appliance frames: \<open>util/crc16.ts\<close>. \<open>crc16tab\<close> is the source's
  table, \<open>crc16\<close> its loop. The reference \<open>crc_bits\<close> shifts the polynomial 0x1021 bit by
  bit; the lemmas show that the table is that polynomial's, that a message followed by its
  own checksum has checksum 0, and which corruptions the checksum cannot miss.
\<close>

definition crc16tab :: "16 word list" where
  "crc16tab = [
     0x0000, 0x1021, 0x2042, 0x3063, 0x4084, 0x50a5, 0x60c6, 0x70e7,
     0x8108, 0x9129, 0xa14a, 0xb16b, 0xc18c, 0xd1ad, 0xe1ce, 0xf1ef,
     0x1231, 0x0210, 0x3273, 0x2252, 0x52b5, 0x4294, 0x72f7, 0x62d6,
     0x9339, 0x8318, 0xb37b, 0xa35a, 0xd3bd, 0xc39c, 0xf3ff, 0xe3de,
     0x2462, 0x3443, 0x0420, 0x1401, 0x64e6, 0x74c7, 0x44a4, 0x5485,
     0xa56a, 0xb54b, 0x8528, 0x9509, 0xe5ee, 0xf5cf, 0xc5ac, 0xd58d,
     0x3653, 0x2672, 0x1611, 0x0630, 0x76d7, 0x66f6, 0x5695, 0x46b4,
     0xb75b, 0xa77a, 0x9719, 0x8738, 0xf7df, 0xe7fe, 0xd79d, 0xc7bc,
     0x48c4, 0x58e5, 0x6886, 0x78a7, 0x0840, 0x1861, 0x2802, 0x3823,
     0xc9cc, 0xd9ed, 0xe98e, 0xf9af, 0x8948, 0x9969, 0xa90a, 0xb92b,
     0x5af5, 0x4ad4, 0x7ab7, 0x6a96, 0x1a71, 0x0a50, 0x3a33, 0x2a12,
     0xdbfd, 0xcbdc, 0xfbbf, 0xeb9e, 0x9b79, 0x8b58, 0xbb3b, 0xab1a,
     0x6ca6, 0x7c87, 0x4ce4, 0x5cc5, 0x2c22, 0x3c03, 0x0c60, 0x1c41,
     0xedae, 0xfd8f, 0xcdec, 0xddcd, 0xad2a, 0xbd0b, 0x8d68, 0x9d49,
     0x7e97, 0x6eb6, 0x5ed5, 0x4ef4, 0x3e13, 0x2e32, 0x1e51, 0x0e70,
     0xff9f, 0xefbe, 0xdfdd, 0xcffc, 0xbf1b, 0xaf3a, 0x9f59, 0x8f78,
     0x9188, 0x81a9, 0xb1ca, 0xa1eb, 0xd10c, 0xc12d, 0xf14e, 0xe16f,
     0x1080, 0x00a1, 0x30c2, 0x20e3, 0x5004, 0x4025, 0x7046, 0x6067,
     0x83b9, 0x9398, 0xa3fb, 0xb3da, 0xc33d, 0xd31c, 0xe37f, 0xf35e,
     0x02b1, 0x1290, 0x22f3, 0x32d2, 0x4235, 0x5214, 0x6277, 0x7256,
     0xb5ea, 0xa5cb, 0x95a8, 0x8589, 0xf56e, 0xe54f, 0xd52c, 0xc50d,
     0x34e2, 0x24c3, 0x14a0, 0x0481, 0x7466, 0x6447, 0x5424, 0x4405,
     0xa7db, 0xb7fa, 0x8799, 0x97b8, 0xe75f, 0xf77e, 0xc71d, 0xd73c,
     0x26d3, 0x36f2, 0x0691, 0x16b0, 0x6657, 0x7676, 0x4615, 0x5634,
     0xd94c, 0xc96d, 0xf90e, 0xe92f, 0x99c8, 0x89e9, 0xb98a, 0xa9ab,
     0x5844, 0x4865, 0x7806, 0x6827, 0x18c0, 0x08e1, 0x3882, 0x28a3,
     0xcb7d, 0xdb5c, 0xeb3f, 0xfb1e, 0x8bf9, 0x9bd8, 0xabbb, 0xbb9a,
     0x4a75, 0x5a54, 0x6a37, 0x7a16, 0x0af1, 0x1ad0, 0x2ab3, 0x3a92,
     0xfd2e, 0xed0f, 0xdd6c, 0xcd4d, 0xbdaa, 0xad8b, 0x9de8, 0x8dc9,
     0x7c26, 0x6c07, 0x5c64, 0x4c45, 0x3ca2, 0x2c83, 0x1ce0, 0x0cc1,
     0xef1f, 0xff3e, 0xcf5d, 0xdf7c, 0xaf9b, 0xbfba, 0x8fd9, 0x9ff8,
     0x6e17, 0x7e36, 0x4e55, 0x5e74, 0x2e93, 0x3eb2, 0x0ed1, 0x1ef0]"

text \<open>One round of the loop; the 16-bit word type is the source's \<open>& 0xffff\<close>.\<close>

definition crc_step :: "16 word \<Rightarrow> byte \<Rightarrow> 16 word" where
  "crc_step crc v =
     push_bit 8 crc XOR (crc16tab ! unat ((drop_bit 8 crc XOR ucast v) AND 0x00ff))"

definition crc16 :: "buffer \<Rightarrow> 16 word" where
  "crc16 arr = foldl crc_step 0 arr"

subsection \<open>The reference: the polynomial, one bit at a time\<close>

definition crc_shift :: "16 word \<Rightarrow> 16 word" where
  "crc_shift c = (if bit c 15 then push_bit 1 c XOR 0x1021 else push_bit 1 c)"

definition crc_bits :: "16 word \<Rightarrow> byte \<Rightarrow> 16 word" where
  "crc_bits crc v = (crc_shift ^^ 8) (crc XOR push_bit 8 (ucast v))"

subsection \<open>Facts about the table, by evaluation\<close>

lemma length_crc16tab [simp]: "length crc16tab = 256"
  by (simp add: crc16tab_def)

lemma crc16tab_0 [simp]: "crc16tab ! 0 = 0"
  by (simp add: crc16tab_def)

lemma crc16tab_low_kernel: "list_all (\<lambda>x. lo_byte x \<noteq> 0) (tl crc16tab)"
  by (simp add: crc16tab_def lo_byte_def)

text \<open>
  The table is the XOR span of eight generators, the images of the eight index bits, laid
  out by doubling.
\<close>

definition xor_span :: "16 word list \<Rightarrow> 16 word list" where
  "xor_span ps = foldl (\<lambda>t p. t @ map (\<lambda>x. x XOR p) t) [0] ps"

lemma crc16tab_span:
  "crc16tab = xor_span [0x1021, 0x2042, 0x4084, 0x8108, 0x1231, 0x2462, 0x48c4, 0x9188]"
  by (simp add: crc16tab_def xor_span_def)

subsection \<open>The polynomial step is linear over XOR\<close>

lemma crc_shift_xor: "crc_shift (x XOR y) = crc_shift x XOR crc_shift y"
  by (simp add: crc_shift_def bit_xor_iff push_bit_xor ac_simps)

lemma crc_shift_pow_xor: "(crc_shift ^^ n) (x XOR y) = (crc_shift ^^ n) x XOR (crc_shift ^^ n) y"
  by (induction n) (simp_all add: crc_shift_xor)

lemma crc_shift_pow_0 [simp]: "(crc_shift ^^ n) 0 = 0"
  by (induction n) (simp_all add: crc_shift_def)

text \<open>Eight shifts of a value below 256 never reach the top bit.\<close>

lemma crc_shift_pow_byte:
  "n \<le> 8 \<Longrightarrow> (crc_shift ^^ n) (ucast (b :: byte)) = push_bit n (ucast b)"
proof (induction n)
  case 0
  then show ?case by simp
next
  case (Suc n)
  then have "\<not> bit (push_bit n (ucast b :: 16 word)) 15"
    by (auto simp: bit_push_bit_iff bit_simps dest: bit_imp_le_length)
  with Suc show ?case by (simp add: crc_shift_def push_bit_push_bit)
qed

definition crc_gen :: "16 word \<Rightarrow> 16 word" where
  "crc_gen i = (crc_shift ^^ 8) (push_bit 8 i)"

lemma crc_gen_xor: "crc_gen (i XOR j) = crc_gen i XOR crc_gen j"
  by (simp add: crc_gen_def push_bit_xor crc_shift_pow_xor)

lemma xor_span_doubling:
  fixes F :: "16 word \<Rightarrow> 16 word"
  assumes lin: "\<And>i j. F (i XOR j) = F i XOR (F j :: 16 word)"
    and "n + length ps \<le> 16"
    and "\<And>k. k < length ps \<Longrightarrow> ps ! k = F (2 ^ (n + k))"
  shows "foldl (\<lambda>t p. t @ map (\<lambda>x. x XOR p) t) (map (\<lambda>i. F (word_of_nat i)) [0..<2 ^ n]) ps =
    map (\<lambda>i. F (word_of_nat i)) [0..<2 ^ (n + length ps)]"
  using assms(2,3)
proof (induction ps arbitrary: n)
  case Nil
  then show ?case by simp
next
  case (Cons p ps)
  have p: "p = F (2 ^ n)" using Cons.prems(2) [of 0] by simp
  have or: "2 ^ n + (word_of_nat i :: 16 word) = word_of_nat i XOR 2 ^ n" if "i < 2 ^ n" for i
  proof -
    have b: "\<not> bit (word_of_nat i :: 16 word) m" if "n \<le> m" for m
    proof -
      have "take_bit n i = i" using \<open>i < 2 ^ n\<close> by (simp add: take_bit_nat_eq_self)
      then have "\<not> bit i m" using that by (metis bit_take_bit_iff not_less)
      then show ?thesis by (simp add: bit_of_nat_iff)
    qed
    have "(word_of_nat i :: 16 word) + 2 ^ n = word_of_nat i OR 2 ^ n"
      by (rule disjunctive_add) (auto simp: bit_exp_iff b)
    also have "\<dots> = word_of_nat i XOR 2 ^ n"
      by (rule bit_eqI) (auto simp: bit_or_iff bit_xor_iff bit_exp_iff b)
    finally show ?thesis by (simp add: add.commute)
  qed
  have split: "[0..<2 ^ Suc n] = [0..<2 ^ n] @ map (\<lambda>i. 2 ^ n + i) [0..<2 ^ n]"
    by (rule nth_equalityI) (auto simp: nth_append)
  have "map (\<lambda>i. F (word_of_nat i)) [0..<2 ^ Suc n] =
      map (\<lambda>i. F (word_of_nat i)) [0..<2 ^ n] @
      map (\<lambda>x. x XOR p) (map (\<lambda>i. F (word_of_nat i)) [0..<2 ^ n])"
    unfolding split by (auto simp: or lin p)
  moreover have "ps ! k = F (2 ^ (Suc n + k))" if "k < length ps" for k
    using Cons.prems(2) [of "Suc k"] that by simp
  ultimately show ?case using Cons.IH [of "Suc n"] Cons.prems(1) by simp
qed

lemma crc_shift_pow_8:
  "(crc_shift ^^ 8) x = crc_shift (crc_shift (crc_shift (crc_shift
    (crc_shift (crc_shift (crc_shift (crc_shift x)))))))"
  by (simp add: numeral_eq_Suc)

lemma crc_gen_powers:
  "crc_gen 1 = 0x1021" "crc_gen 2 = 0x2042" "crc_gen 4 = 0x4084" "crc_gen 8 = 0x8108"
  "crc_gen 16 = 0x1231" "crc_gen 32 = 0x2462" "crc_gen 64 = 0x48c4" "crc_gen 128 = 0x9188"
  by (simp_all add: crc_gen_def crc_shift_pow_8 crc_shift_def)

lemma crc_gen_1: "crc_gen (2 ^ k) = [0x1021, 0x2042, 0x4084, 0x8108, 0x1231, 0x2462, 0x48c4, 0x9188] ! k"
  if "k < 8"
proof -
  have "k \<in> {0, 1, 2, 3, 4, 5, 6, 7}" using that by auto
  then show ?thesis by (auto simp: crc_gen_powers)
qed

lemma crc16tab_gen: "crc16tab = map (\<lambda>i. crc_gen (word_of_nat i)) [0..<256]"
proof -
  let ?ps = "[0x1021, 0x2042, 0x4084, 0x8108, 0x1231, 0x2462, 0x48c4, 0x9188] :: 16 word list"
  have "foldl (\<lambda>t p. t @ map (\<lambda>x. x XOR p) t) (map (\<lambda>i. crc_gen (word_of_nat i)) [0..<2 ^ 0]) ?ps =
      map (\<lambda>i. crc_gen (word_of_nat i)) [0..<2 ^ (0 + length ?ps)]"
    by (rule xor_span_doubling) (auto simp: crc_gen_xor crc_gen_1)
  then show ?thesis
    by (simp add: crc16tab_span xor_span_def crc_gen_def)
qed

lemma crc16tab_nth: "crc16tab ! unat (b :: byte) = crc_gen (ucast b)"
proof -
  have "crc16tab ! unat b = crc_gen (word_of_nat (unat b))"
    by (simp add: crc16tab_gen)
  also have "word_of_nat (unat b) = (ucast b :: 16 word)"
    by (simp add: unsigned_of_nat)
  finally show ?thesis .
qed

subsection \<open>The loop computes the polynomial\<close>

lemma word16_split: "(w :: 16 word) = push_bit 8 (ucast (hi_byte w)) XOR ucast (lo_byte w)"
  by (rule bit_eqI) (auto simp: hi_byte_def lo_byte_def bit_simps)

lemma crc_index: "(drop_bit 8 crc XOR ucast v) AND 0x00ff = ucast (hi_byte crc XOR v)"
  for crc :: "16 word"
proof (rule bit_eqI)
  fix n
  have "bit (0x00ff :: 16 word) n \<longleftrightarrow> n < 16 \<and> n < 8"
    using bit_mask_iff [where ?'a = "16 word", of 8 n] by (simp add: mask_eq_exp_minus_1)
  then have "bit (0x00ff :: 16 word) n \<longleftrightarrow> n < 8" by auto
  then show "bit ((drop_bit 8 crc XOR ucast v) AND 0x00ff) n = bit (ucast (hi_byte crc XOR v) :: 16 word) n"
    by (auto simp: hi_byte_def bit_simps dest: bit_imp_le_length)
qed

lemma crc_step_gen:
  "crc_step crc v = push_bit 8 (ucast (lo_byte crc)) XOR crc_gen (ucast (hi_byte crc XOR v))"
proof -
  have "push_bit 8 crc = push_bit 8 (ucast (lo_byte crc))"
    by (rule bit_eqI) (auto simp: lo_byte_def bit_simps)
  moreover have "unat (ucast (hi_byte crc XOR v) :: 16 word) = unat (hi_byte crc XOR v)"
    by (simp add: unsigned_ucast_eq take_bit_eq_mod mod_less order_less_trans [OF unat_byte_less])
  ultimately show ?thesis
    by (simp add: crc_step_def crc_index crc16tab_nth)
qed

lemma crc_step_bits: "crc_step crc v = crc_bits crc v"
proof -
  have "crc XOR push_bit 8 (ucast v) =
      push_bit 8 (ucast (hi_byte crc XOR v)) XOR ucast (lo_byte crc)"
    by (rule bit_eqI) (auto simp: hi_byte_def lo_byte_def bit_simps)
  then show ?thesis
    by (simp add: crc_bits_def crc_step_gen crc_gen_def crc_shift_pow_xor crc_shift_pow_byte xor.commute)
qed

text \<open>C39. For every buffer, the table-driven loop and the bitwise polynomial division agree.\<close>

theorem crc16_is_polynomial: "crc16 arr = foldl crc_bits 0 arr"
proof -
  have "crc_step = crc_bits" by (intro ext) (rule crc_step_bits)
  then show ?thesis by (simp add: crc16_def)
qed

subsection \<open>Appending the checksum\<close>

lemma crc16_snoc: "crc16 (arr @ [v]) = crc_step (crc16 arr) v"
  by (simp add: crc16_def)

lemma crc_step_hi: "crc_step c (hi_byte c) = push_bit 8 (ucast (lo_byte c))"
  by (simp add: crc_step_gen crc_gen_def)

lemma crc_step_lo: "crc_step (push_bit 8 (ucast b)) b = 0"
proof -
  have "hi_byte (push_bit 8 (ucast b)) = b" and "lo_byte (push_bit 8 (ucast b)) = 0"
    by (auto simp: hi_byte_def lo_byte_def bit_simps intro!: bit_eqI)
  then show ?thesis by (simp add: crc_step_gen crc_gen_def)
qed

lemma crc16_residue: "crc16 (arr @ [hi_byte (crc16 arr), lo_byte (crc16 arr)]) = 0"
  by (simp add: crc16_def crc_step_hi crc_step_lo)

subsection \<open>What the checksum cannot miss\<close>

lemma crc_gen_low_kernel: "lo_byte (crc_gen (ucast b)) = 0 \<Longrightarrow> b = 0" for b :: byte
proof (rule ccontr)
  assume "lo_byte (crc_gen (ucast b)) = 0" and "b \<noteq> 0"
  then obtain k where k: "unat b = Suc k" by (metis not0_implies_Suc unat_eq_zero)
  then have "k < length (tl crc16tab)" using unat_byte_less [of b] by simp
  then have "lo_byte (tl crc16tab ! k) \<noteq> 0"
    using crc16tab_low_kernel by (simp add: list_all_length)
  with k \<open>k < _\<close> have "lo_byte (crc16tab ! unat b) \<noteq> 0" by (simp add: nth_tl)
  with \<open>lo_byte _ = 0\<close> show False by (simp add: crc16tab_nth)
qed

lemma lo_byte_xor: "lo_byte (x XOR y) = lo_byte x XOR lo_byte y"
  by (rule bit_eqI) (auto simp: lo_byte_def bit_simps)

lemma crc_step_inject:
  assumes "crc_step c v = crc_step c' v'"
  shows "hi_byte c XOR v = hi_byte c' XOR v' \<and> lo_byte c = lo_byte c'"
proof -
  let ?i = "hi_byte c XOR v" and ?j = "hi_byte c' XOR v'"
  have low: "lo_byte (push_bit 8 (ucast b)) = 0" for b :: byte
    by (rule bit_eqI) (auto simp: lo_byte_def bit_simps)
  have "lo_byte (crc_gen (ucast ?i)) = lo_byte (crc_gen (ucast ?j))"
    using arg_cong [OF assms, of lo_byte] by (simp add: crc_step_gen lo_byte_xor low)
  then have "lo_byte (crc_gen (ucast ?i XOR ucast ?j)) = 0"
    by (simp add: crc_gen_xor lo_byte_xor)
  moreover have "(ucast ?i XOR ucast ?j :: 16 word) = ucast (?i XOR ?j)"
    by (rule bit_eqI) (auto simp: bit_simps)
  ultimately have "?i XOR ?j = 0" by (metis crc_gen_low_kernel)
  then have ij: "?i = ?j" by (rule word_xor_eq_0)
  then have "push_bit 8 (ucast (lo_byte c) :: 16 word) = push_bit 8 (ucast (lo_byte c'))"
    using assms by (simp add: crc_step_gen)
  then have "bit (lo_byte c) n = bit (lo_byte c') n" if "n < 8" for n
    using that by (auto dest!: arg_cong [where f = "\<lambda>w. bit w (n + 8)"] simp: bit_simps)
  then have "lo_byte c = lo_byte c'"
    by (intro bit_eqI) (simp)
  with ij show ?thesis by simp
qed

lemma crc_step_inj_state: "crc_step c v = crc_step c' v \<longleftrightarrow> c = c'"
proof
  assume "crc_step c v = crc_step c' v"
  then have "hi_byte c XOR v = hi_byte c' XOR v" and lo: "lo_byte c = lo_byte c'"
    by (auto dest: crc_step_inject)
  then show "c = c'" by (simp add: hi_lo_inject)
qed simp

lemma crc_step_inj_byte: "crc_step c v = crc_step c v' \<longleftrightarrow> v = v'"
  by (auto dest: crc_step_inject)

lemma foldl_crc_step_inj: "foldl crc_step c xs = foldl crc_step c' xs \<longleftrightarrow> c = c'"
  by (induction xs arbitrary: c c') (simp_all add: crc_step_inj_state)

lemma crc_two_steps_inj:
  "crc_step (crc_step c a) b = crc_step (crc_step c a') b' \<longleftrightarrow> a = a' \<and> b = b'"
proof
  assume eq: "crc_step (crc_step c a) b = crc_step (crc_step c a') b'"
  let ?x = "crc_step c a" and ?y = "crc_step c a'"
  have "lo_byte ?x = lo_byte ?y" using crc_step_inject [OF eq] by simp
  then have "lo_byte (crc_gen (ucast (hi_byte c XOR a))) = lo_byte (crc_gen (ucast (hi_byte c XOR a')))"
    by (simp add: crc_step_gen lo_byte_xor)
  then have "lo_byte (crc_gen (ucast (hi_byte c XOR a) XOR ucast (hi_byte c XOR a'))) = 0"
    by (simp add: crc_gen_xor lo_byte_xor)
  moreover have "(ucast (hi_byte c XOR a) XOR ucast (hi_byte c XOR a') :: 16 word) = ucast (a XOR a')"
    by (rule bit_eqI) (auto simp: bit_simps)
  ultimately have "a XOR a' = 0" by (metis crc_gen_low_kernel)
  then have "a = a'" by (rule word_xor_eq_0)
  with eq show "a = a' \<and> b = b'" by (simp add: crc_step_inj_byte)
qed simp

lemma crc16_zero_iff: "crc16 (arr @ [a, b]) = 0 \<longleftrightarrow> a = hi_byte (crc16 arr) \<and> b = lo_byte (crc16 arr)"
proof -
  have "crc16 (arr @ [a, b]) = crc_step (crc_step (crc16 arr) a) b" for a b
    by (simp add: crc16_def)
  then show ?thesis
    by (metis crc16_residue crc_two_steps_inj)
qed

text \<open>
  A message in which two adjacent bytes are corrupted (one or both of them changed)
  never keeps its checksum.
\<close>

theorem crc16_detects_burst:
  "crc16 (pre @ [a, b] @ post) = crc16 (pre @ [a', b'] @ post) \<longleftrightarrow> a = a' \<and> b = b'"
  by (simp add: crc16_def foldl_crc_step_inj crc_two_steps_inj)

subsection \<open>The contract of a trailing checksum\<close>

text \<open>
  What the framings rely on: a checksum appended high byte first makes the whole message
  check to 0, and no other two bytes do.
\<close>

locale trailing_checksum =
  fixes crc :: "buffer \<Rightarrow> 16 word"
  assumes zero_iff: "crc (arr @ [a, b]) = 0 \<longleftrightarrow> a = hi_byte (crc arr) \<and> b = lo_byte (crc arr)"
begin

lemma sealed [simp]: "crc (arr @ [hi_byte (crc arr), lo_byte (crc arr)]) = 0"
  by (simp add: zero_iff)

lemma checked_split:
  assumes "2 \<le> length msg" and "crc msg = 0"
  shows "msg = take (length msg - 2) msg @
    [hi_byte (crc (take (length msg - 2) msg)), lo_byte (crc (take (length msg - 2) msg))]"
proof -
  obtain a b where ab: "drop (length msg - 2) msg = [a, b]"
  proof -
    have "length (drop (length msg - 2) msg) = 2" using assms(1) by simp
    then show ?thesis using that by (cases "drop (length msg - 2) msg"; cases "tl (drop (length msg - 2) msg)") auto
  qed
  then have "msg = take (length msg - 2) msg @ [a, b]" by (metis append_take_drop_id)
  with assms(2) show ?thesis by (metis zero_iff)
qed

end

interpretation crc: trailing_checksum crc16
  by unfold_locales (rule crc16_zero_iff)

end
