(* ===== verification/Framing.thy ===== *)
theory Framing
  imports Prelude
begin

text \<open>
  The length-prefixed frames of the ThinQ1 link: \<open>util/length_prefixed_frame.ts\<close>.

  The callback of \<open>splitter\<close> is the user's: a parameter \<open>cb\<close> that takes its own state and
  a payload and returns the new state and the error it threw, if any. \<open>split\<close> is the data
  handler, \<open>split_end\<close> the method \<open>end\<close>, \<open>make\<close> the encoder.
\<close>

record splitter =
  accum :: "buffer option"
  failed :: bool

datatype 'e frame_error =
    NegativeLength
  | LengthExceeded
  | TruncatedFrame
  | CallbackError 'e
  | RangeError

definition init_splitter :: splitter where
  "init_splitter = \<lparr>accum = None, failed = False\<rparr>"

text \<open>\<open>accum.readInt32BE(0)\<close>, two's complement, on a buffer of at least 4 bytes.\<close>

definition read_int32_be :: "buffer \<Rightarrow> int" where
  "read_int32_be b =
    (let u = int (((unat (b ! 0) * 256 + unat (b ! 1)) * 256 + unat (b ! 2)) * 256 + unat (b ! 3))
     in if u < 2 ^ 31 then u else u - 2 ^ 32)"

abbreviation fail_state :: splitter where
  "fail_state \<equiv> \<lparr>accum = None, failed = True\<rparr>"

type_synonym ('s, 'e) split_result = "(splitter \<times> 's) \<times> 'e frame_error option"

function split_loop ::
  "('s \<Rightarrow> buffer \<Rightarrow> 's \<times> 'e option) \<Rightarrow> int \<Rightarrow> buffer \<Rightarrow> 's \<Rightarrow> ('s, 'e) split_result" where
  "split_loop cb max_payload acc s =
    (if length acc \<ge> 4 then
       let payload_len = read_int32_be acc in
       if payload_len < 0 then ((fail_state, s), Some NegativeLength)
       else if payload_len > max_payload then ((fail_state, s), Some LengthExceeded)
       else if length acc \<ge> 4 + nat payload_len then
         (case cb s (subarray 4 (4 + nat payload_len) acc) of
            (s', Some e) \<Rightarrow> ((fail_state, s'), Some (CallbackError e))
          | (s', None) \<Rightarrow> split_loop cb max_payload (drop (4 + nat payload_len) acc) s')
       else ((\<lparr>accum = Some acc, failed = False\<rparr>, s), None)
     else ((\<lparr>accum = Some acc, failed = False\<rparr>, s), None))"
  by pat_completeness auto
termination
  by (relation "measure (\<lambda>(cb, m, acc, s). length acc)") auto

declare split_loop.simps [simp del]

definition split :: "('s \<Rightarrow> buffer \<Rightarrow> 's \<times> 'e option) \<Rightarrow> int \<Rightarrow> splitter \<times> 's \<Rightarrow> buffer \<Rightarrow> ('s, 'e) split_result" where
  "split cb max_payload c buf =
    (if failed (fst c) then (c, None)
     else
       let acc = (case accum (fst c) of
                    Some a \<Rightarrow> if length a > 0 then a @ buf else buf
                  | None \<Rightarrow> buf)
       in split_loop cb max_payload acc (snd c))"

definition split_end :: "splitter \<Rightarrow> splitter \<times> 'e frame_error option" where
  "split_end sp =
    (if \<not> failed sp \<and> (case accum sp of Some a \<Rightarrow> length a > 0 | None \<Rightarrow> False)
     then (fail_state, Some TruncatedFrame)
     else (sp, None))"

text \<open>
  \<open>output.writeInt32BE(input.length)\<close> throws a \<open>RangeError\<close> beyond 2^31 - 1; a string
  argument has been encoded to UTF-8 bytes already.
\<close>

definition make :: "buffer \<Rightarrow> 'e frame_error + buffer" where
  "make input =
    (let n = length input in
     if n \<ge> 2 ^ 31 then Inl RangeError
     else Inr ([word_of_nat (n div 2 ^ 24), word_of_nat (n div 2 ^ 16 mod 256),
                word_of_nat (n div 2 ^ 8 mod 256), word_of_nat (n mod 256)] @ input))"

subsection \<open>Feeding a stream in chunks\<close>

text \<open>
  The contract of a stream splitter: what it ends in depends on the bytes, not on how the
  socket cut them.
\<close>

locale chunked =
  fixes feed :: "'c \<Rightarrow> 'a list \<Rightarrow> 'c"
  assumes feed_append: "feed (feed c xs) ys = feed c (xs @ ys)"
begin

lemma feed_chunks: "chunks \<noteq> [] \<Longrightarrow> foldl feed c chunks = feed c (concat chunks)"
proof (induction chunks arbitrary: c)
  case Nil
  then show ?case by simp
next
  case (Cons x chunks)
  then show ?case by (cases "chunks = []") (simp_all add: feed_append)
qed

lemma same_stream:
  "xs \<noteq> [] \<Longrightarrow> ys \<noteq> [] \<Longrightarrow> concat xs = concat ys \<Longrightarrow> foldl feed c xs = foldl feed c ys"
  by (simp add: feed_chunks)

end

definition feed :: "('s \<Rightarrow> buffer \<Rightarrow> 's \<times> 'e option) \<Rightarrow> int \<Rightarrow> splitter \<times> 's \<Rightarrow> buffer \<Rightarrow> splitter \<times> 's" where
  "feed cb max_payload c buf = fst (split cb max_payload c buf)"

lemma read_int32_append: "4 \<le> length xs \<Longrightarrow> read_int32_be (xs @ ys) = read_int32_be xs"
proof -
  assume a: "4 \<le> length xs"
  have "(xs @ ys) ! i = xs ! i" if "i < 4" for i
    using a that by (simp add: nth_append)
  then show ?thesis by (simp add: read_int32_be_def)
qed

lemma split_loop_append:
  "fst (split_loop cb m (xs @ ys) s) = feed cb m (fst (split_loop cb m xs s)) ys"
proof (induction cb m xs s rule: split_loop.induct)
  case (1 cb m acc s)
  define n where "n = read_int32_be acc"
  consider (short) "length acc < 4" | (neg) "4 \<le> length acc" "n < 0"
    | (long) "4 \<le> length acc" "0 \<le> n" "m < n"
    | (wait) "4 \<le> length acc" "0 \<le> n" "n \<le> m" "length acc < 4 + nat n"
    | (frame) "4 \<le> length acc" "0 \<le> n" "n \<le> m" "4 + nat n \<le> length acc"
    by linarith
  then show ?case
  proof cases
    case short
    then show ?thesis
      by (subst (2) split_loop.simps) (auto simp: feed_def split_def)
  next
    case neg
    then show ?thesis
      by (subst (1 2) split_loop.simps)
        (simp add: feed_def split_def read_int32_append n_def [symmetric])
  next
    case long
    then show ?thesis
      by (subst (1 2) split_loop.simps)
        (simp add: feed_def split_def read_int32_append n_def [symmetric])
  next
    case wait
    then show ?thesis
      by (subst (2) split_loop.simps) (auto simp: feed_def split_def n_def [symmetric])
  next
    case frame
    let ?p = "subarray 4 (4 + nat n) acc"
    have p: "subarray 4 (4 + nat n) (acc @ ys) = ?p"
      using frame by (simp add: subarray_def)
    obtain s' e where cb: "cb s ?p = (s', e)" by (cases "cb s ?p")
    show ?thesis
    proof (cases e)
      case None
      with 1 [OF _ n_def] frame cb
      have "fst (split_loop cb m (drop (4 + nat n) acc @ ys) s') =
          feed cb m (fst (split_loop cb m (drop (4 + nat n) acc) s')) ys"
        by simp
      with None frame cb show ?thesis
        by (subst (1 2) split_loop.simps)
          (simp add: read_int32_append n_def [symmetric] p Let_def)
    next
      case (Some x)
      with frame cb show ?thesis
        by (subst (1 2) split_loop.simps)
          (simp add: read_int32_append n_def [symmetric] p feed_def split_def)
    qed
  qed
qed

lemma split_unfold:
  "fst (split cb m c buf) =
    (if failed (fst c) then c
     else fst (split_loop cb m ((case accum (fst c) of Some a \<Rightarrow> a | None \<Rightarrow> []) @ buf) (snd c)))"
  by (auto simp: split_def split: option.split)

lemma feed_append: "feed cb m (feed cb m c xs) ys = feed cb m c (xs @ ys)"
proof (cases "failed (fst c)")
  case True
  then show ?thesis by (simp add: feed_def split_unfold)
next
  case False
  let ?a = "case accum (fst c) of Some a \<Rightarrow> a | None \<Rightarrow> []"
  have "feed cb m (fst (split_loop cb m (?a @ xs) (snd c))) ys =
      fst (split_loop cb m ((?a @ xs) @ ys) (snd c))"
    by (rule split_loop_append [symmetric])
  with False show ?thesis by (simp add: feed_def split_unfold)
qed

interpretation frames: chunked "feed cb max_payload"
  by unfold_locales (rule feed_append)



subsection \<open>What is framed is delivered\<close>

lemma make_read:
  assumes "make p = Inr f"
  shows "4 \<le> length f \<and> read_int32_be (f @ rest) = int (length p) \<and> f = take 4 f @ p \<and> length f = 4 + length p"
proof -
  define n where "n = length p"
  from assms have n: "n < 2 ^ 31" and f: "f = [word_of_nat (n div 2 ^ 24), word_of_nat (n div 2 ^ 16 mod 256),
      word_of_nat (n div 2 ^ 8 mod 256), word_of_nat (n mod 256)] @ p"
    by (auto simp: make_def n_def Let_def split: if_splits)
  have "n div 2 ^ 24 < 256" using n by (simp add: div_less_iff_less_mult)
  moreover have "((n div 2 ^ 24 * 256 + n div 2 ^ 16 mod 256) * 256 + n div 2 ^ 8 mod 256) * 256 + n mod 256 = n"
    using mod_mult2_eq [of n 256 256] mod_mult2_eq [of n 65536 256] div_mult_mod_eq [of n "2 ^ 24"] by simp
  ultimately have "read_int32_be (f @ rest) = int n"
    using n by (simp add: f read_int32_be_def word_of_nat_byte_eq Let_def del: of_nat_add of_nat_mult)
  then show ?thesis by (simp add: f n_def)
qed

fun deliver :: "('s \<Rightarrow> buffer \<Rightarrow> 's \<times> 'e option) \<Rightarrow> 's \<Rightarrow> buffer list \<Rightarrow> 's" where
  "deliver cb s [] = s"
| "deliver cb s (p # ps) = deliver cb (fst (cb s p)) ps"

lemma split_loop_frames_inv:
  assumes "list_all2 (\<lambda>p f. make p = Inr f) ps fs"
    and "\<forall>p \<in> set ps. int (length p) \<le> m" and "I s"
    and "\<And>s p. I s \<Longrightarrow> p \<in> set ps \<Longrightarrow> snd (cb s p) = None \<and> I (fst (cb s p))"
  shows "split_loop cb m (concat fs @ rest) s = split_loop cb m rest (deliver cb s ps)"
  using assms
proof (induction arbitrary: s rule: list_all2_induct)
  case Nil
  then show ?case by simp
next
  case (Cons p ps f fs)
  from make_read [OF Cons.hyps(1), of "concat fs @ rest"]
  have len: "4 \<le> length f" "length f = 4 + length p" and f: "f = take 4 f @ p"
    and n: "read_int32_be (f @ concat fs @ rest) = int (length p)"
    by auto
  have pay: "subarray 4 (4 + length p) (f @ concat fs @ rest) = p"
    by (subst f) (simp add: subarray_def len)
  obtain s' where s': "cb s p = (s', None)" "I s'"
    using Cons.prems(3) [OF Cons.prems(2), of p] by (cases "cb s p") simp
  with Cons len show ?case
    by (subst split_loop.simps) (simp add: n pay Let_def)
qed

lemma split_loop_frames:
  assumes "list_all2 (\<lambda>p f. make p = Inr f) ps fs"
    and "\<forall>p \<in> set ps. int (length p) \<le> m" and "\<And>s p. snd (cb s p) = None"
  shows "split_loop cb m (concat fs @ rest) s = split_loop cb m rest (deliver cb s ps)"
  using assms by (intro split_loop_frames_inv [where I = "\<lambda>_. True"]) simp_all

text \<open>A property of the callback on the parts of the stream is one of the whole read.\<close>

lemma split_loop_inv:
  assumes refl: "\<And>s. R s s" and trans: "\<And>a b c. R a b \<Longrightarrow> I b \<Longrightarrow> R b c \<Longrightarrow> R a c"
    and step: "\<And>s p. I s \<Longrightarrow> Q p \<Longrightarrow> (snd (cb s p) = None \<longrightarrow> I (fst (cb s p))) \<and> J (fst (cb s p)) \<and> R s (fst (cb s p))"
    and base: "\<And>s. I s \<Longrightarrow> J s"
    and part: "\<And>a p b. acc = a @ p @ b \<Longrightarrow> Q p" and "I s"
  shows "J (snd (fst (split_loop cb m acc s))) \<and> R s (snd (fst (split_loop cb m acc s)))"
  using part \<open>I s\<close>
proof (induction "length acc" arbitrary: acc s rule: less_induct)
  case less
  define n where "n = read_int32_be acc"
  show ?case
  proof (cases "4 \<le> length acc \<and> 0 \<le> n \<and> n \<le> m \<and> 4 + nat n \<le> length acc")
    case True
    let ?p = "subarray 4 (4 + nat n) acc" and ?rest = "drop (4 + nat n) acc"
    have split: "acc = take 4 acc @ ?p @ ?rest"
      using True by (simp add: subarray_def) (metis append_take_drop_id drop_drop add.commute)
    obtain s' e where cb: "cb s ?p = (s', e)" by (cases "cb s ?p")
    note st = step [OF less.prems(2) less.prems(1) [OF split], unfolded cb fst_conv snd_conv]
    show ?thesis
    proof (cases e)
      case None
      have lt: "length ?rest < length acc" using True unfolding length_drop by linarith
      have part: "Q p" if "?rest = a @ p @ b" for a p b
        using less.prems(1) [of "take (4 + nat n) acc @ a" p b] that by (metis append_assoc append_take_drop_id)
      have I: "I s'" using st None by simp
      then have "J (snd (fst (split_loop cb m ?rest s'))) \<and> R s' (snd (fst (split_loop cb m ?rest s')))"
        by (intro less.hyps [OF lt]) (rule part)
      then show ?thesis
        using None True cb st trans [OF _ I] by (subst (1 2) split_loop.simps) (auto simp: n_def [symmetric] Let_def)
    next
      case (Some x)
      then show ?thesis using True cb st by (subst (1 2) split_loop.simps) (simp add: n_def [symmetric] Let_def)
    qed
  next
    case False
    then show ?thesis
      using base [OF less.prems(2)] refl by (subst (1 2) split_loop.simps) (auto simp: n_def [symmetric] Let_def)
  qed
qed

text \<open>
  Every payload within the limit is delivered, in order and exactly once, and nothing is
  left over: splitting the concatenation of the frames \<open>make\<close> built for \<open>ps\<close> hands the
  callback the payloads \<open>ps\<close>, and \<open>end\<close> finds no truncated frame.
\<close>

theorem split_make:
  assumes "list_all2 (\<lambda>p f. make p = Inr f) ps fs"
    and "\<forall>p \<in> set ps. int (length p) \<le> max_payload" and "\<And>s p. snd (cb s p) = None"
  shows "split cb max_payload (init_splitter, s) (concat fs) =
      ((\<lparr>accum = Some [], failed = False\<rparr>, deliver cb s ps), None) \<and>
    split_end (\<lparr>accum = Some [], failed = False\<rparr>) = (\<lparr>accum = Some [], failed = False\<rparr>, None)"
proof -
  have "split_loop cb max_payload (concat fs @ []) s = split_loop cb max_payload [] (deliver cb s ps)"
    by (rule split_loop_frames [OF assms(1,2)]) (rule assms(3))
  then show ?thesis
    by (simp add: split_def init_splitter_def split_end_def split_loop.simps [of _ _ "[]"])
qed

theorem split_make_witness:
  "split (\<lambda>s p. (s @ [p], None :: unit option)) 100 (init_splitter, []) [0, 0, 0, 2, 7, 8, 0, 0, 0, 0] =
    ((\<lparr>accum = Some [], failed = False\<rparr>, [[7, 8], []]), None)"
  using split_make [of "[[7, 8], []]" "[[0, 0, 0, 2, 7, 8], [0, 0, 0, 0]]" 100
      "\<lambda>s p. (s @ [p], None :: unit option)" "[]", THEN conjunct1]
  by (simp add: make_def)

subsection \<open>Memory\<close>

definition bounded :: "int \<Rightarrow> splitter \<Rightarrow> bool" where
  "bounded m sp \<longleftrightarrow>
    (case accum sp of None \<Rightarrow> True | Some a \<Rightarrow> \<not> failed sp \<and> (length a < 4 \<or> int (length a) < 4 + m))"

lemma split_loop_bounded: "bounded m (fst (fst (split_loop cb m acc s)))"
proof (induction cb m acc s rule: split_loop.induct)
  case (1 cb m acc s)
  define n where "n = read_int32_be acc"
  show ?case
  proof (cases "4 \<le> length acc \<and> 0 \<le> n \<and> n \<le> m \<and> 4 + nat n \<le> length acc")
    case True
    obtain s' e where cb: "cb s (subarray 4 (4 + nat n) acc) = (s', e)"
      by (cases "cb s (subarray 4 (4 + nat n) acc)")
    show ?thesis
    proof (cases e)
      case None
      with 1 [OF _ n_def] True cb have "bounded m (fst (fst (split_loop cb m (drop (4 + nat n) acc) s')))"
        by simp
      with None True cb show ?thesis
        by (subst split_loop.simps) (simp add: n_def [symmetric])
    next
      case (Some x)
      with True cb show ?thesis
        by (subst split_loop.simps) (simp add: n_def [symmetric] bounded_def)
    qed
  next
    case False
    then show ?thesis
      by (subst split_loop.simps) (auto simp: n_def [symmetric] bounded_def Let_def)
  qed
qed

text \<open>
  Between two reads the splitter never holds a complete frame or more than 4 bytes and a
  maximal payload: it keeps less than 4 + maxPayloadLength bytes, or it has failed and holds
  nothing.
\<close>

theorem split_bounded:
  assumes "bounded max_payload sp"
  shows "bounded max_payload (fst (fst (split cb max_payload (sp, s) buf)))"
  using assms split_loop_bounded by (auto simp: split_def Let_def)

theorem split_bounded_witness:
  "bounded 100 (fst (fst (split (\<lambda>s p. (s, None :: unit option)) 100 (init_splitter, ()) [0, 0, 0])))"
  by (rule split_bounded) (simp add: bounded_def init_splitter_def)

end
