(* ===== verification/Mtosp.thy ===== *)
theory Mtosp
  imports Crc16 Framing
begin

text \<open>
  The provisioning link's XML frames: \<open>util/mtosp.ts\<close>. A frame is 0xaa, a 16-bit length, the
  payload, a CRC over all of that and 0xbb. \<open>mtosp_step\<close> is the closure \<open>splitter\<close> returns, for
  one byte: the new state, and the payload passed to the callback or the error thrown. A
  payload is its UTF-8 bytes; decoding them is the callback's argument and not modelled.
\<close>

record mtosp =
  mt_state :: nat
  mt_prev :: byte
  mt_total :: nat
  mt_buf :: buffer

definition mtosp_init :: mtosp where
  "mtosp_init = \<lparr>mt_state = 0, mt_prev = 0, mt_total = 0, mt_buf = []\<rparr>"

datatype mtosp_result = Quiet | Message buffer | InvalidHeader | InvalidChecksum | InvalidTrailer

definition mtosp_step :: "mtosp \<Rightarrow> byte \<Rightarrow> mtosp \<times> mtosp_result" where
  "mtosp_step st b =
    (let st = st\<lparr>mt_buf := mt_buf st @ [b]\<rparr> in
     if mt_state st = 0 then
       if b \<noteq> 0xaa then (st, InvalidHeader) else (st\<lparr>mt_state := 1, mt_prev := b\<rparr>, Quiet)
     else if mt_state st = 1 then (st\<lparr>mt_state := 2, mt_prev := b\<rparr>, Quiet)
     else if mt_state st = 2 then
       (st\<lparr>mt_total := unat b OR push_bit 8 (unat (mt_prev st)), mt_state := 3, mt_prev := b\<rparr>, Quiet)
     else if mt_state st = 3 then
       (if mt_total st > 0 then st\<lparr>mt_total := mt_total st - 1, mt_prev := b\<rparr>
        else st\<lparr>mt_state := 4, mt_prev := b\<rparr>, Quiet)
     else if mt_state st = 4 then
       if crc16 (mt_buf st) \<noteq> 0 then (st, InvalidChecksum)
       else (st\<lparr>mt_state := 5, mt_prev := b\<rparr>, Quiet)
     else if mt_state st = 5 then
       if b \<noteq> 0xbb then (st, InvalidTrailer)
       else (st\<lparr>mt_state := 0, mt_buf := [], mt_prev := b\<rparr>,
             Message (subarray 3 (length (mt_buf st) - 3) (mt_buf st)))
     else (st\<lparr>mt_prev := b\<rparr>, Quiet))"

text \<open>\<open>Buffer.from\<close> takes each number modulo 256, so a longer payload wraps its length.\<close>

definition mtosp_format :: "buffer \<Rightarrow> buffer" where
  "mtosp_format payload =
    (let header = [0xaa, word_of_nat (drop_bit 8 (length payload)), word_of_nat (length payload AND 0xff)];
         crc = crc16 (header @ payload)
     in header @ payload @ [hi_byte crc, lo_byte crc, 0xbb])"

text \<open>The run over a byte string, with everything that was not quiet.\<close>

fun mtosp_run :: "mtosp \<times> mtosp_result list \<Rightarrow> buffer \<Rightarrow> mtosp \<times> mtosp_result list" where
  "mtosp_run c [] = c"
| "mtosp_run (st, out) (b # bs) =
    (case mtosp_step st b of
       (st', Quiet) \<Rightarrow> mtosp_run (st', out) bs
     | (st', r) \<Rightarrow> mtosp_run (st', out @ [r]) bs)"

lemma mtosp_run_append: "mtosp_run (mtosp_run c xs) ys = mtosp_run c (xs @ ys)"
  by (induction c xs rule: mtosp_run.induct) (auto split: prod.split mtosp_result.split)

interpretation mtosp: chunked mtosp_run
  by unfold_locales (rule mtosp_run_append)

subsection \<open>A formatted frame is delivered\<close>

lemma mtosp_run_payload:
  "mtosp_run (\<lparr>mt_state = 3, mt_prev = p, mt_total = length xs, mt_buf = buf\<rparr>, out) (xs @ rest) =
    mtosp_run (\<lparr>mt_state = 3, mt_prev = last (p # xs), mt_total = 0, mt_buf = buf @ xs\<rparr>, out) rest"
proof (induction xs arbitrary: p buf)
  case Nil
  then show ?case by simp
next
  case (Cons x xs)
  then show ?case by (simp add: mtosp_step_def Let_def)
qed

definition mtosp_ready :: "mtosp \<Rightarrow> bool" where
  "mtosp_ready st \<longleftrightarrow> mt_state st = 0 \<and> mt_buf st = []"

text \<open>
  A payload shorter than 65536 bytes that \<open>format\<close> framed comes back whole: from any state
  between frames the splitter reports exactly that message, raises no error and is again
  between frames.
\<close>

theorem mtosp_roundtrip:
  assumes "mtosp_ready st" and "length payload < 65536"
  shows "\<exists>st'. mtosp_run (st, out) (mtosp_format payload) = (st', out @ [Message payload]) \<and> mtosp_ready st'"
proof -
  define n where "n = length payload"
  define h1 where "h1 = (word_of_nat (drop_bit 8 n) :: byte)"
  define h2 where "h2 = (word_of_nat (n AND 0xff) :: byte)"
  let ?hd = "[0xaa, h1, h2] :: buffer"
  define c where "c = crc16 (?hd @ payload)"
  have "n div 256 < 256" using assms(2) by (simp add: n_def) 
  then have "unat h1 = n div 256" and "unat h2 = n mod 256"
    by (simp_all add: h1_def h2_def js_simps drop_bit_eq_div word_of_nat_byte_eq)
  then have total: "unat h2 OR push_bit 8 (unat h1) = n"
    using push_bit_or_eq [of "n mod 256" 8 "n div 256"] by (simp add: or.commute)
  have sealed: "crc16 (?hd @ payload @ [hi_byte c, lo_byte c]) = 0"
    using crc.sealed [of "?hd @ payload"] by (simp add: c_def)
  have fmt: "mtosp_format payload = ?hd @ payload @ [hi_byte c, lo_byte c, 0xbb]"
    by (simp add: mtosp_format_def h1_def h2_def c_def n_def Let_def)
  obtain p t where st: "st = \<lparr>mt_state = 0, mt_prev = p, mt_total = t, mt_buf = []\<rparr>"
    using assms(1) by (cases st) (auto simp: mtosp_ready_def)
  have "mtosp_run (st, out) (mtosp_format payload) =
      mtosp_run (\<lparr>mt_state = 3, mt_prev = h2, mt_total = length payload, mt_buf = ?hd\<rparr>, out)
        (payload @ [hi_byte c, lo_byte c, 0xbb])"
    by (simp add: st fmt mtosp_step_def total Let_def n_def)
  also have "\<dots> = mtosp_run (\<lparr>mt_state = 3, mt_prev = last (h2 # payload), mt_total = 0,
        mt_buf = ?hd @ payload\<rparr>, out) [hi_byte c, lo_byte c, 0xbb]"
    by (rule mtosp_run_payload)
  also have "\<dots> = (\<lparr>mt_state = 0, mt_prev = 0xbb, mt_total = 0, mt_buf = []\<rparr>, out @ [Message payload])"
    using sealed by (simp add: mtosp_step_def Let_def subarray_def)
  finally show ?thesis by (simp add: mtosp_ready_def)
qed

theorem mtosp_roundtrip_witness:
  "\<exists>st'. mtosp_run (mtosp_init, []) (mtosp_format [60, 97, 47, 62]) = (st', [Message [60, 97, 47, 62]]) \<and>
    mtosp_ready st'"
  using mtosp_roundtrip [of mtosp_init "[60, 97, 47, 62]" "[]"]
  by (simp add: mtosp_init_def mtosp_ready_def)

subsection \<open>Only complete, checked frames are delivered\<close>

definition mtosp_inv :: "mtosp \<Rightarrow> bool" where
  "mtosp_inv st \<longleftrightarrow> (let buf = mt_buf st; n = be16 (buf ! 1) (buf ! 2) in
    mt_state st \<le> 5 \<and>
    (mt_state st \<ge> 1 \<longrightarrow> buf \<noteq> [] \<and> hd buf = 0xaa) \<and>
    (mt_state st = 0 \<longrightarrow> buf = []) \<and>
    (mt_state st = 1 \<longrightarrow> length buf = 1) \<and>
    (mt_state st = 2 \<longrightarrow> length buf = 2 \<and> mt_prev st = buf ! 1) \<and>
    (mt_state st = 3 \<longrightarrow> 3 \<le> length buf \<and> length buf + mt_total st = 3 + n) \<and>
    (mt_state st = 4 \<longrightarrow> length buf = 4 + n) \<and>
    (mt_state st = 5 \<longrightarrow> length buf = 5 + n \<and> crc16 buf = 0))"

text \<open>A frame of the protocol: what a message must have been received as.\<close>

definition mtosp_frame :: "buffer \<Rightarrow> buffer \<Rightarrow> bool" where
  "mtosp_frame payload fr \<longleftrightarrow>
    (\<exists>h1 h2 c1 c2. fr = [0xaa, h1, h2] @ payload @ [c1, c2, 0xbb] \<and>
      be16 h1 h2 = length payload \<and> crc16 ([0xaa, h1, h2] @ payload @ [c1, c2]) = 0)"

lemma mtosp_step_inv:
  assumes "mtosp_inv st" and "mtosp_step st b = (st', r)" and "r = Quiet \<or> (\<exists>p. r = Message p)"
  shows "mtosp_inv st'"
proof -
  have or: "unat b OR push_bit 8 (unat p) = be16 p b" for p
    using push_bit_or_eq [of "unat b" 8 "unat p"] by (simp add: be16_def or.commute)
  show ?thesis
    using assms
    by (auto simp: mtosp_step_def mtosp_inv_def Let_def or nth_append split: if_splits)
qed

lemma list_5_frame:
  assumes "length buf = 5 + n" and "hd buf = x"
  obtains h1 h2 c1 c2 where "buf = [x, h1, h2] @ subarray 3 (3 + n) buf @ [c1, c2]"
    and "h1 = buf ! 1" and "h2 = buf ! 2"
proof -
  obtain h1 h2 rest where b: "buf = x # h1 # h2 # rest"
    using assms by (cases buf; cases "tl buf"; cases "tl (tl buf)") auto
  with assms(1) have len: "length rest = n + 2" by simp
  have "length (drop n rest) = 2" using len by simp
  then obtain c1 c2 where "drop n rest = [c1, c2]"
    by (cases "drop n rest"; cases "tl (drop n rest)") auto
  then have "take n rest @ [c1, c2] = rest" by (metis append_take_drop_id)
  with b show ?thesis by (intro that [of h1 h2 c1 c2]) (simp_all add: subarray_def)
qed

text \<open>
  Safety: a message reaches the callback only when the bytes since the last frame are a
  complete frame around it, with the header and trailer byte, the length field equal to the
  payload's length and a checksum that verifies.
\<close>

theorem mtosp_sound:
  assumes "mtosp_inv st" and "mtosp_step st b = (st', Message payload)"
  shows "mtosp_frame payload (mt_buf st @ [b])"
proof -
  have s5: "mt_state st = 5" and b: "b = 0xbb"
    and p: "payload = subarray 3 (length (mt_buf st) + 1 - 3) (mt_buf st @ [b])"
    using assms(2) by (auto simp: mtosp_step_def Let_def split: if_splits)
  let ?buf = "mt_buf st" and ?n = "be16 (mt_buf st ! 1) (mt_buf st ! 2)"
  from assms(1) s5 have inv: "length ?buf = 5 + ?n" "hd ?buf = 0xaa" "crc16 ?buf = 0"
    by (auto simp: mtosp_inv_def Let_def)
  from list_5_frame [OF inv(1,2)] obtain h1 h2 c1 c2
    where buf: "?buf = [0xaa, h1, h2] @ subarray 3 (3 + ?n) ?buf @ [c1, c2]"
      and h: "h1 = ?buf ! 1" "h2 = ?buf ! 2" by metis
  have pay: "payload = subarray 3 (3 + ?n) ?buf"
    using p inv(1) by (simp add: subarray_def)
  have len: "length payload = ?n" using pay inv(1) by (simp add: length_subarray)
  have "?buf = [0xaa, h1, h2] @ payload @ [c1, c2]" using buf pay by simp
  with inv(3) len h b show ?thesis
    unfolding mtosp_frame_def by (metis append.assoc append_Cons append_Nil)
qed

theorem mtosp_sound_witness:
  "mtosp_frame [] ([0xaa, 0, 0, hi_byte (crc16 [0xaa, 0, 0]), lo_byte (crc16 [0xaa, 0, 0])] @ [0xbb])"
proof -
  let ?b = "[0xaa, 0, 0, hi_byte (crc16 [0xaa, 0, 0]), lo_byte (crc16 [0xaa, 0, 0])] :: buffer"
  let ?st = "\<lparr>mt_state = 5, mt_prev = 0, mt_total = 0, mt_buf = ?b\<rparr>"
  have "crc16 ?b = 0" using crc.sealed [of "[0xaa, 0, 0]"] by simp
  then have "mtosp_inv ?st" by (simp add: mtosp_inv_def be16_def)
  moreover have "mtosp_step ?st 0xbb =
      (\<lparr>mt_state = 0, mt_prev = 0xbb, mt_total = 0, mt_buf = []\<rparr>, Message [])"
    by (simp add: mtosp_step_def subarray_def)
  ultimately show ?thesis using mtosp_sound by fastforce
qed

end
