(* ===== verification/JsonSplitter.thy ===== *)
theory JsonSplitter
  imports Framing
begin

text \<open>
  The bracket-counting splitter of concatenated JSON texts: \<open>util/json_splitter.ts\<close>.
  \<open>json_step\<close> is the returned closure for one byte. \<open>JSON.parse\<close> of the UTF-8 text and the
  callback are the parameter \<open>cb\<close>: \<open>cb s text\<close> is the callback's new state, or \<open>None\<close> when
  the parse or the callback throws.
\<close>

record json_splitter =
  js_state :: nat
  js_depth :: int
  js_buf :: buffer

definition json_init :: json_splitter where
  "json_init = \<lparr>js_state = 0, js_depth = 0, js_buf = []\<rparr>"

datatype json_error = TooManyClosing | CallbackThrew

text \<open>
  In state 0 the source runs three consecutive \<open>if\<close>s; a byte is at most one of the three
  kinds, so the last (the quote) is reached only when neither bracket branch changed anything.
\<close>

definition json_step ::
  "('s \<Rightarrow> buffer \<Rightarrow> 's option) \<Rightarrow> json_splitter \<times> 's \<Rightarrow> byte \<Rightarrow> (json_splitter \<times> 's) \<times> json_error option"
where
  "json_step cb c b =
    (let st = (fst c)\<lparr>js_buf := js_buf (fst c) @ [b]\<rparr>; s = snd c in
     if js_state st = 0 then
       if b = 0x5b \<or> b = 0x7b then ((st\<lparr>js_depth := js_depth st + 1\<rparr>, s), None)
       else if b = 0x5d \<or> b = 0x7d then
         (let st = st\<lparr>js_depth := js_depth st - 1\<rparr> in
          if js_depth st < 0 then ((st, s), Some TooManyClosing)
          else if js_depth st = 0 then
            (case cb s (js_buf st) of
               None \<Rightarrow> ((st, s), Some CallbackThrew)
             | Some s' \<Rightarrow> ((st\<lparr>js_buf := []\<rparr>, s'), None))
          else ((st, s), None))
       else if b = 0x22 then ((st\<lparr>js_state := 1\<rparr>, s), None)
       else ((st, s), None)
     else if js_state st = 1 then
       if b = 0x22 then ((st\<lparr>js_state := 0\<rparr>, s), None)
       else if b = 0x5c then ((st\<lparr>js_state := 2\<rparr>, s), None)
       else ((st, s), None)
     else if js_state st = 2 then ((st\<lparr>js_state := 1\<rparr>, s), None)
     else ((st, s), None))"

text \<open>The reader feeds bytes until one throws.\<close>

fun json_run ::
  "('s \<Rightarrow> buffer \<Rightarrow> 's option) \<Rightarrow> json_splitter \<times> 's \<Rightarrow> buffer \<Rightarrow> (json_splitter \<times> 's) \<times> json_error option"
where
  "json_run cb c [] = (c, None)"
| "json_run cb c (b # bs) =
    (case json_step cb c b of (c', None) \<Rightarrow> json_run cb c' bs | (c', Some e) \<Rightarrow> (c', Some e))"

lemma json_run_append:
  "json_run cb c (xs @ ys) =
    (case json_run cb c xs of (c', None) \<Rightarrow> json_run cb c' ys | (c', Some e) \<Rightarrow> (c', Some e))"
  by (induction xs arbitrary: c) (auto split: prod.split option.split)

subsection \<open>Bracketed texts\<close>

text \<open>
  The shape of JSON the splitter relies on, whatever the values are: string characters and
  escapes, and balanced content in which brackets and quotes occur in no other way.
\<close>

definition bracket :: "byte \<Rightarrow> bool" where
  "bracket b \<longleftrightarrow> b \<in> {0x5b, 0x7b, 0x5d, 0x7d}"

inductive string_body :: "buffer \<Rightarrow> bool" where
  str_nil: "string_body []"
| str_char: "b \<noteq> 0x22 \<Longrightarrow> b \<noteq> 0x5c \<Longrightarrow> string_body bs \<Longrightarrow> string_body (b # bs)"
| str_escape: "string_body bs \<Longrightarrow> string_body (0x5c # b # bs)"

inductive balanced :: "buffer \<Rightarrow> bool" where
  bal_nil: "balanced []"
| bal_plain: "\<not> bracket b \<Longrightarrow> b \<noteq> 0x22 \<Longrightarrow> balanced bs \<Longrightarrow> balanced (b # bs)"
| bal_string: "string_body s \<Longrightarrow> balanced bs \<Longrightarrow> balanced (0x22 # s @ 0x22 # bs)"
| bal_nest: "op \<in> {0x5b, 0x7b} \<Longrightarrow> cl \<in> {0x5d, 0x7d} \<Longrightarrow> balanced inner \<Longrightarrow> balanced bs \<Longrightarrow>
    balanced (op # inner @ cl # bs)"

lemma json_run_string:
  "string_body bs \<Longrightarrow>
    json_run cb (\<lparr>js_state = Suc 0, js_depth = d, js_buf = buf\<rparr>, s) (bs @ rest) =
    json_run cb (\<lparr>js_state = Suc 0, js_depth = d, js_buf = buf @ bs\<rparr>, s) rest"
proof (induction arbitrary: buf rule: string_body.induct)
  case str_nil
  then show ?case by simp
next
  case (str_char b bs)
  then show ?case by (simp add: json_step_def Let_def)
next
  case (str_escape bs b)
  then show ?case by (simp add: json_step_def Let_def)
qed

lemma json_run_balanced:
  "balanced bs \<Longrightarrow> 0 < d \<Longrightarrow>
    json_run cb (\<lparr>js_state = 0, js_depth = d, js_buf = buf\<rparr>, s) (bs @ rest) =
    json_run cb (\<lparr>js_state = 0, js_depth = d, js_buf = buf @ bs\<rparr>, s) rest"
proof (induction arbitrary: buf d rest rule: balanced.induct)
  case bal_nil
  then show ?case by simp
next
  case (bal_plain b bs)
  then show ?case by (simp add: json_step_def Let_def bracket_def)
next
  case (bal_string str bs)
  then show ?case
    by (simp add: json_step_def Let_def json_run_string)
next
  case (bal_nest op cl inner bs)
  have step_op: "json_step cb (\<lparr>js_state = 0, js_depth = d, js_buf = buf\<rparr>, s) op =
      ((\<lparr>js_state = 0, js_depth = d + 1, js_buf = buf @ [op]\<rparr>, s), None)"
    using bal_nest.hyps by (auto simp: json_step_def)
  have step_cl: "json_step cb (\<lparr>js_state = 0, js_depth = d + 1, js_buf = b\<rparr>, s) cl =
      ((\<lparr>js_state = 0, js_depth = d, js_buf = b @ [cl]\<rparr>, s), None)" for b
    using bal_nest.hyps bal_nest.prems by (auto simp: json_step_def Let_def)
  have "json_run cb (\<lparr>js_state = 0, js_depth = d, js_buf = buf\<rparr>, s) ((op # inner @ cl # bs) @ rest) =
      json_run cb (\<lparr>js_state = 0, js_depth = d + 1, js_buf = (buf @ [op]) @ inner\<rparr>, s) ((cl # bs) @ rest)"
    using bal_nest.IH(1) [of "d + 1" "buf @ [op]" "(cl # bs) @ rest"] bal_nest.prems
    by (simp add: step_op)
  also have "\<dots> = json_run cb (\<lparr>js_state = 0, js_depth = d, js_buf = buf @ op # inner @ cl # bs\<rparr>, s) rest"
    using bal_nest.IH(2) [of d "buf @ op # inner @ [cl]" rest] bal_nest.prems
    by (simp add: step_cl)
  finally show ?case .
qed

lemma json_run_document:
  assumes "op \<in> {0x5b, 0x7b}" and "cl \<in> {0x5d, 0x7d}" and "balanced inner"
  shows "json_run cb (json_init, s) ((op # inner @ [cl]) @ rest) =
    (case cb s (op # inner @ [cl]) of
       Some s' \<Rightarrow> json_run cb (json_init, s') rest
     | None \<Rightarrow> ((\<lparr>js_state = 0, js_depth = 0, js_buf = op # inner @ [cl]\<rparr>, s), Some CallbackThrew))"
proof -
  have "json_run cb (json_init, s) ((op # inner @ [cl]) @ rest) =
      json_run cb (\<lparr>js_state = 0, js_depth = 1, js_buf = [op]\<rparr>, s) (inner @ cl # rest)"
    using assms(1) by (auto simp: json_step_def json_init_def)
  also have "\<dots> = json_run cb (\<lparr>js_state = 0, js_depth = 1, js_buf = op # inner\<rparr>, s) (cl # rest)"
    by (subst json_run_balanced [OF assms(3)]) simp_all
  also have "json_step cb (\<lparr>js_state = 0, js_depth = 1, js_buf = op # inner\<rparr>, s) cl =
      (case cb s (op # inner @ [cl]) of
         Some s' \<Rightarrow> ((json_init, s'), None)
       | None \<Rightarrow> ((\<lparr>js_state = 0, js_depth = 0, js_buf = op # inner @ [cl]\<rparr>, s), Some CallbackThrew))"
    using assms(2) by (auto simp: json_step_def json_init_def Let_def split: option.split)
  then have "json_run cb (\<lparr>js_state = 0, js_depth = 1, js_buf = op # inner\<rparr>, s) (cl # rest) =
      (case cb s (op # inner @ [cl]) of
         Some s' \<Rightarrow> json_run cb (json_init, s') rest
       | None \<Rightarrow> ((\<lparr>js_state = 0, js_depth = 0, js_buf = op # inner @ [cl]\<rparr>, s), Some CallbackThrew))"
    by (simp split: option.split)
  finally show ?thesis .
qed

definition document :: "buffer \<Rightarrow> bool" where
  "document d \<longleftrightarrow> (\<exists>op inner cl. d = op # inner @ [cl] \<and> op \<in> {0x5b, 0x7b} \<and> cl \<in> {0x5d, 0x7d} \<and> balanced inner)"

text \<open>
  Documents written back to back, brackets and escaped quotes inside their strings
  included, are handed to the callback one by one, each exactly once and unchanged, and the
  splitter ends as it started.
\<close>

theorem json_split_documents:
  assumes "list_all document ds"
  shows "json_run (\<lambda>s d. Some (s @ [d])) (json_init, out) (concat ds) = ((json_init, out @ ds), None)"
  using assms
proof (induction ds arbitrary: out)
  case Nil
  then show ?case by simp
next
  case (Cons d ds)
  then obtain op inner cl where d: "d = op # inner @ [cl]"
    and *: "op \<in> {0x5b, 0x7b}" "cl \<in> {0x5d, 0x7d}" "balanced inner"
    by (auto simp: document_def)
  have "json_run (\<lambda>s d. Some (s @ [d])) (json_init, out) (d @ concat ds) =
      json_run (\<lambda>s d. Some (s @ [d])) (json_init, out @ [d]) (concat ds)"
    unfolding d by (subst json_run_document [OF *]) simp
  also have "\<dots> = ((json_init, (out @ [d]) @ ds), None)"
    using Cons by simp
  finally show ?case by simp
qed

lemma document_example: "document [0x7b, 0x22, 0x5c, 0x22, 0x7d, 0x22, 0x7d]"
proof -
  have "balanced (0x22 # [0x5c, 0x22, 0x7d] @ 0x22 # [])"
    by (intro bal_string bal_nil str_escape str_char str_nil) simp_all
  then show ?thesis
    unfolding document_def
    by (intro exI [of _ "0x7b"] exI [of _ "[0x22, 0x5c, 0x22, 0x7d, 0x22]"] exI [of _ "0x7d"]) simp
qed

theorem json_split_documents_witness:
  "json_run (\<lambda>s d. Some (s @ [d])) (json_init, []) (concat [[0x7b, 0x22, 0x5c, 0x22, 0x7d, 0x22, 0x7d]]) =
    ((json_init, [[0x7b, 0x22, 0x5c, 0x22, 0x7d, 0x22, 0x7d]]), None)"
  using json_split_documents [of "[[0x7b, 0x22, 0x5c, 0x22, 0x7d, 0x22, 0x7d]]" "[]"]
  by (simp only: list.pred_inject document_example append_Nil simp_thms)

end
