(* ===== verification/Tlv.thy ===== *)
theory Tlv
  imports Prelude
begin

text \<open>
  The tag-length-value payload of the appliances: \<open>util/tlv.ts\<close>. \<open>parse_from\<close> is the
  loop of \<open>parse\<close> at offset \<open>i\<close>, with its two early returns on a truncated element;
  \<open>build\<close> is the source's \<open>build\<close>. A value \<open>None\<close> is JavaScript's \<open>undefined\<close>, which
  \<open>build\<close> receives when a device asks for a tag it has never heard: every comparison is
  false and the last branch writes three zero bytes.
\<close>

record tlv =
  tlv_t :: nat
  tlv_l :: "nat option"
  tlv_v :: "nat option"

function parse_from :: "buffer \<Rightarrow> nat \<Rightarrow> tlv list" where
  "parse_from buf i =
    (if i < length buf then
       if i + 2 > length buf then []
       else
         let t = push_bit 2 (unat (buf ! i)) + drop_bit 6 (unat (buf ! (i + 1)));
             l = drop_bit 4 (unat (buf ! (i + 1))) AND 3;
             v = unat (buf ! (i + 1)) AND 15
         in
           if i + 2 + l > length buf then []
           else
             let v' = (if l > 0
                       then foldl (\<lambda>v j. push_bit 8 v OR unat (buf ! (i + 2 + j))) 0 [0..<l]
                       else v)
             in \<lparr>tlv_t = t, tlv_l = Some l, tlv_v = Some v'\<rparr> # parse_from buf (i + 2 + l)
     else [])"
  by pat_completeness auto
termination
  by (relation "measure (\<lambda>(buf, i). length buf - i)") auto

declare parse_from.simps [simp del]

definition parse :: "buffer \<Rightarrow> tlv list" where
  "parse buf = parse_from buf 0"

definition build_element :: "tlv \<Rightarrow> buffer" where
  "build_element el =
    (let t0 = drop_bit 2 (tlv_t el) AND 255;
         tl = push_bit 6 (tlv_t el AND 3)
     in map word_of_nat
       (case tlv_v el of
          None \<Rightarrow> [t0, tl OR 0x30, 0, 0, 0]
        | Some v \<Rightarrow>
            if v < 0x10 then [t0, tl OR v]
            else if v < 0x100 then [t0, tl OR 0x10, v]
            else if v < 0x10000 then [t0, tl OR 0x20, drop_bit 8 v AND 0xff, v AND 0xff]
            else [t0, tl OR 0x30, drop_bit 16 v AND 0xff, drop_bit 8 v AND 0xff, v AND 0xff]))"

definition build :: "tlv list \<Rightarrow> buffer" where
  "build elements = concat (map build_element elements)"

subsection \<open>The loop does not depend on what lies before its offset\<close>

lemma parse_from_shift:
  "parse_from (pre @ buf) (length pre + i) = parse_from buf i"
proof (induction buf i rule: parse_from.induct)
  case (1 buf i)
  have nth: "(pre @ buf) ! (length pre + i) = buf ! i"
    "(pre @ buf) ! Suc (length pre + i) = buf ! Suc i"
    "\<And>k. (pre @ buf) ! Suc (Suc (length pre + (i + k))) = buf ! Suc (Suc (i + k))"
    by (simp_all add: nth_append)
  show ?case
  proof (cases "i < length buf \<and> \<not> length buf < i + 2 \<and>
      \<not> length buf < i + 2 + (drop_bit 4 (unat (buf ! (i + 1))) AND 3)")
    case True
    with 1 have IH: "parse_from (pre @ buf) (length pre + (i + 2 + (drop_bit 4 (unat (buf ! (i + 1))) AND 3))) =
        parse_from buf (i + 2 + (drop_bit 4 (unat (buf ! (i + 1))) AND 3))"
      by (simp only: refl not_False_eq_True)
    show ?thesis
      using True IH by (subst (1 2) parse_from.simps) (simp add: nth Let_def add.assoc)
  next
    case False
    then show ?thesis
      by (subst (1 2) parse_from.simps) (auto simp: nth Let_def)
  qed
qed

lemma parse_from_drop: "parse_from (pre @ buf) (length pre) = parse buf"
  using parse_from_shift [of pre buf 0] by (simp add: parse_def)

text \<open>One element read off the front, as a structural equation.\<close>

lemma parse_Nil [simp]: "parse [] = []"
  by (simp add: parse_def parse_from.simps)

lemma parse_single [simp]: "parse [b] = []"
  by (simp add: parse_def parse_from.simps)

lemma parse_Cons2:
  fixes b0 b1 :: byte
  defines "l \<equiv> drop_bit 4 (unat b1) AND 3"
  shows "parse (b0 # b1 # rest) =
    (if length rest < l then []
     else \<lparr>tlv_t = push_bit 2 (unat b0) + drop_bit 6 (unat b1), tlv_l = Some l,
           tlv_v = Some (if l > 0 then foldl (\<lambda>v b. push_bit 8 v OR unat b) 0 (take l rest)
                         else unat b1 AND 15)\<rparr> # parse (drop l rest))"
proof (cases "length rest < l")
  case True
  then show ?thesis
    by (simp add: parse_def parse_from.simps [of _ 0] l_def)
next
  case False
  have "foldl (\<lambda>v j. push_bit 8 v OR unat (rest ! j)) 0 [0..<l] =
      foldl (\<lambda>v b. push_bit 8 v OR unat b) 0 (map (\<lambda>j. rest ! j) [0..<l])"
    by (simp add: foldl_map)
  moreover have "map (\<lambda>j. rest ! j) [0..<l] = take l rest"
    using False by (intro nth_equalityI) auto
  moreover have "parse_from (b0 # b1 # rest) (2 + l) = parse (drop l rest)"
    using parse_from_drop [of "b0 # b1 # take l rest" "drop l rest"] False by simp
  ultimately show ?thesis
    using False by (simp add: parse_def parse_from.simps [of _ 0] l_def Let_def)
qed

subsection \<open>What a receiver reads back\<close>

text \<open>
  \<open>canon e\<close> is the element that survives the encoding: the tag keeps 10 bits, the value 24,
  and the length field is the number of value bytes \<open>build\<close> chose.
\<close>

definition canon_value :: "nat option \<Rightarrow> nat \<times> nat" where
  "canon_value v =
    (case v of None \<Rightarrow> (3, 0)
     | Some v \<Rightarrow> if v < 0x10 then (0, v) else if v < 0x100 then (1, v)
         else if v < 0x10000 then (2, v) else (3, v mod 0x1000000))"

definition canon :: "tlv \<Rightarrow> tlv" where
  "canon e = \<lparr>tlv_t = tlv_t e mod 1024, tlv_l = Some (fst (canon_value (tlv_v e))),
              tlv_v = Some (snd (canon_value (tlv_v e)))\<rparr>"

lemma nat_or_masks:
  "k < 64 \<Longrightarrow> push_bit 6 a OR k = a * 64 + k" "m < 256 \<Longrightarrow> push_bit 8 a OR m = a * 256 + m"
  for a k m :: nat
  using push_bit_or_eq [of k 6 a] push_bit_or_eq [of m 8 a] by simp_all

lemma parse_element:
  assumes "l < 4" and "v < 16" and "length vs = l"
  shows "parse (word_of_nat (t div 4 mod 256) # word_of_nat (t mod 4 * 64 + l * 16 + v) # vs @ rest) =
    \<lparr>tlv_t = t mod 1024, tlv_l = Some l,
     tlv_v = Some (if l > 0 then foldl (\<lambda>v b. v * 256 + unat b) 0 vs else v)\<rparr> # parse rest"
proof -
  define x where "x = t mod 4"
  let ?h = "x * 64 + l * 16 + v"
  have x: "x < 4" by (simp add: x_def)
  with assms have h: "?h < 256" by linarith
  have u: "unat (word_of_nat ?h :: byte) = ?h"
    by (rule word_of_nat_byte_eq [OF h])
  have w: "unat (word_of_nat (t div 4 mod 256) :: byte) = t div 4 mod 256"
    by (simp add: word_of_nat_byte_eq)
  have "?h = v + 16 * (x * 4 + l)" by simp
  then have "?h div 16 = x * 4 + l" and v16: "?h mod 16 = v"
    using assms(2) by (simp_all only: div_mult_self2 mod_mult_self2, simp_all)
  then have l: "drop_bit 4 ?h AND 3 = l" and v: "?h AND 15 = v"
    using assms(1) by (simp_all add: js_simps drop_bit_eq_div)
  have "?h = (l * 16 + v) + 64 * x" by simp
  moreover have "l * 16 + v < 64" using assms(1,2) by linarith
  moreover have "(l * 16 + v + 64 * x) div 64 = x" if "l * 16 + v < 64"
    using that by simp
  ultimately have "?h div 64 = x" by simp
  moreover have "t mod 1024 = 4 * (t div 4 mod 256) + x"
    using mod_mult2_eq [of t 4 256] by (simp add: x_def)
  ultimately have t: "push_bit 2 (t div 4 mod 256) + drop_bit 6 ?h = t mod 1024"
    by (simp add: drop_bit_eq_div push_bit_eq_mult)
  have f: "foldl (\<lambda>v b. push_bit 8 v OR unat b) 0 vs = foldl (\<lambda>v b. v * 256 + unat b) 0 vs" for vs :: buffer
    by (intro foldl_cong) (simp_all add: nat_or_masks)
  show ?thesis
    unfolding x_def [symmetric] parse_Cons2 u w l v t using assms(3) by (simp add: f)
qed

lemma build_element_bytes:
  "build_element e =
    (let t = tlv_t e; h = (\<lambda>l v. [word_of_nat (t div 4 mod 256), word_of_nat (t mod 4 * 64 + l * 16 + v)])
     in case tlv_v e of
          None \<Rightarrow> h 3 0 @ [0, 0, 0]
        | Some v \<Rightarrow>
            if v < 0x10 then h 0 v
            else if v < 0x100 then h 1 0 @ [word_of_nat v]
            else if v < 0x10000 then h 2 0 @ [word_of_nat (v div 256 mod 256), word_of_nat (v mod 256)]
            else h 3 0 @ [word_of_nat (v div 65536 mod 256), word_of_nat (v div 256 mod 256), word_of_nat (v mod 256)])"
  unfolding build_element_def
  by (simp add: Let_def js_simps nat_or_masks drop_bit_eq_div split: option.split)

lemma build_element_canon: "parse (build_element e @ rest) = canon e # parse rest"
proof (cases "tlv_v e")
  case None
  then show ?thesis
    using parse_element [of 3 0 "[0, 0, 0]" "tlv_t e" rest]
    by (simp add: build_element_bytes Let_def canon_def canon_value_def)
next
  case (Some n)
  have u: "unat (word_of_nat (k mod 256) :: byte) = k mod 256" for k
    by (simp add: word_of_nat_byte_eq)
  consider "n < 0x10" | "\<not> n < 0x10" "n < 0x100" | "\<not> n < 0x100" "n < 0x10000" | "\<not> n < 0x10000"
    by blast
  then show ?thesis
  proof cases
    case 1
    then show ?thesis using Some parse_element [of 0 n "[]" "tlv_t e" rest]
      by (simp add: build_element_bytes Let_def canon_def canon_value_def)
  next
    case 2
    then show ?thesis using Some parse_element [of 1 0 "[word_of_nat n]" "tlv_t e" rest]
      by (simp add: build_element_bytes Let_def canon_def canon_value_def word_of_nat_byte_eq)
  next
    case 3
    have "n div 256 mod 256 * 256 + n mod 256 = n" using 3 mod_mult2_eq [of n 256 256] by simp
    moreover have "n div 256 < 256" and "\<not> n < 16" using 3 by linarith+
    ultimately show ?thesis
      using Some parse_element [of 2 0 "[word_of_nat (n div 256 mod 256), word_of_nat (n mod 256)]" "tlv_t e" rest]
      by (simp add: build_element_bytes Let_def canon_def canon_value_def 3 word_of_nat_byte_eq)
  next
    case 4
    have "(n div 65536 mod 256 * 256 + n div 256 mod 256) * 256 + n mod 256 = n mod 0x1000000"
      using mod_mult2_eq [of n 256 256] mod_mult2_eq [of n 65536 256] by simp
    with 4 show ?thesis
      using Some parse_element [of 3 0 "[word_of_nat (n div 65536 mod 256),
          word_of_nat (n div 256 mod 256), word_of_nat (n mod 256)]" "tlv_t e" rest]
      by (simp add: build_element_bytes Let_def canon_def canon_value_def u)
  qed
qed

lemma parse_build_append: "parse (build es @ rest) = map canon es @ parse rest"
proof (induction es)
  case Nil
  then show ?case by (simp add: build_def)
next
  case (Cons e es)
  then show ?case by (simp add: build_def build_element_canon)
qed

text \<open>
  Whatever a sender builds, with anything after it, parses back to exactly the elements
  sent (tags modulo 1024, values modulo 2^24, an undefined value as 0) and then to whatever
  the rest parses to.
\<close>

theorem parse_build: "parse (build es @ rest) = map canon es @ parse rest"
  by (rule parse_build_append)

subsection \<open>Bounds of what is parsed\<close>

lemma foldl_byte_bound:
  "foldl (\<lambda>v b. push_bit 8 v OR unat (b :: byte)) a bs < (a + 1) * 256 ^ length bs"
proof (induction bs arbitrary: a)
  case Nil
  then show ?case by simp
next
  case (Cons b bs)
  have "push_bit 8 a OR unat b = a * 256 + unat b" by (simp add: nat_or_masks)
  then have "(push_bit 8 a OR unat b) + 1 \<le> (a + 1) * 256" using unat_byte_less [of b] by simp
  then have "((push_bit 8 a OR unat b) + 1) * 256 ^ length bs \<le> (a + 1) * 256 * 256 ^ length bs"
    by (rule mult_le_mono1)
  with Cons.IH [of "push_bit 8 a OR unat b"] show ?case by (simp add: algebra_simps)
qed

definition wf_tlv :: "tlv \<Rightarrow> bool" where
  "wf_tlv e \<longleftrightarrow> tlv_t e < 1024 \<and>
     (case (tlv_l e, tlv_v e) of
        (Some l, Some v) \<Rightarrow> l \<le> 3 \<and> v < (if l = 0 then 16 else 256 ^ l)
      | _ \<Rightarrow> False)"

lemma wf_parsed_element:
  fixes rest :: buffer
  assumes "l = drop_bit 4 (unat (b1 :: byte)) AND 3" and "\<not> length rest < l"
  shows "wf_tlv \<lparr>tlv_t = push_bit 2 (unat (b0 :: byte)) + drop_bit 6 (unat b1), tlv_l = Some l,
    tlv_v = Some (if l > 0 then foldl (\<lambda>v b. push_bit 8 v OR unat b) 0 (take l rest)
                  else unat b1 AND 15)\<rparr>"
proof -
  have "unat b1 div 64 < 4" using unat_byte_less [of b1] by linarith
  then have "unat b0 * 4 + unat b1 div 64 < 1024" using unat_byte_less [of b0] by linarith
  moreover have "l \<le> 3" using assms(1) by (simp add: js_simps)
  ultimately show ?thesis
    using foldl_byte_bound [of 0 "take l rest"] assms(2)
    by (simp add: wf_tlv_def drop_bit_eq_div push_bit_eq_mult js_simps min_def split: if_splits)
qed

text \<open>
  On every buffer, truncated or not, \<open>parse\<close> returns and every element it returns is
  in range: the tag below 1024, at most 3 value bytes, the value below what they hold.
\<close>

theorem parse_wf: "list_all wf_tlv (parse buf)"
proof (induction "length buf" arbitrary: buf rule: less_induct)
  case less
  consider "buf = []" | b where "buf = [b]" | b0 b1 rest where "buf = b0 # b1 # rest"
    by (cases buf rule: remdups_adj.cases) auto
  then show ?case
  proof cases
    case 3
    let ?l = "drop_bit 4 (unat b1) AND 3"
    have "list_all wf_tlv (parse (drop ?l rest))" by (rule less) (simp add: 3)
    then show ?thesis using wf_parsed_element [of ?l b1 rest b0] by (simp add: 3 parse_Cons2)
  qed simp_all
qed

end
