(* ===== verification/Hex.thy ===== *)
theory Hex
  imports Prelude
begin

text \<open>
  Node's hexadecimal encoding of buffers, as the packet codecs use it: \<open>buf.toString('hex')\<close>
  and \<open>Buffer.from(s, 'hex')\<close>, which decodes pairs of digits of either case up to the first
  pair that is not one and drops a last odd digit. \<open>strip_space\<close> is \<open>s.replace(/\s+/g, '')\<close>
  on ASCII white space.
\<close>

definition hex_digit :: "nat \<Rightarrow> char" where
  "hex_digit n = ''0123456789abcdef'' ! n"

definition hex_value :: "char \<Rightarrow> nat option" where
  "hex_value c =
    (let n = of_char c in
     if 48 \<le> n \<and> n \<le> 57 then Some (n - 48)
     else if 97 \<le> n \<and> n \<le> 102 then Some (n - 87)
     else if 65 \<le> n \<and> n \<le> 70 then Some (n - 55)
     else None)"

definition to_hex :: "buffer \<Rightarrow> string" where
  "to_hex bs = concat (map (\<lambda>b. [hex_digit (unat b div 16), hex_digit (unat b mod 16)]) bs)"

fun from_hex :: "string \<Rightarrow> buffer" where
  "from_hex (c # d # cs) =
    (case (hex_value c, hex_value d) of
       (Some h, Some l) \<Rightarrow> word_of_nat (16 * h + l) # from_hex cs
     | _ \<Rightarrow> [])"
| "from_hex _ = []"

definition strip_space :: "string \<Rightarrow> string" where
  "strip_space s = filter (\<lambda>c. \<not> is_space c) s"

lemma less_16_cases:
  "n < 16 \<Longrightarrow> n \<in> {0, 1, 2, 3, 4, 5, 6, 7, 8, 9, 10, 11, 12, 13, 14, 15 :: nat}"
  by (simp add: numeral_eq_Suc less_Suc_eq)

lemma hex_digit_value: "n < 16 \<Longrightarrow> hex_value (hex_digit n) = Some n \<and> \<not> is_space (hex_digit n)"
  by (drule less_16_cases) (auto simp: hex_digit_def hex_value_def is_space_def)

lemma word_of_nat_unat_div [simp]: "word_of_nat (16 * (unat b div 16) + unat b mod 16) = (b :: byte)"
  by simp

lemma from_to_hex [simp]: "from_hex (to_hex bs) = bs"
proof (induction bs)
  case Nil
  then show ?case by (simp add: to_hex_def)
next
  case (Cons b bs)
  have "unat b div 16 < 16" by (simp add: less_mult_imp_div_less)
  with Cons show ?case by (simp add: to_hex_def hex_digit_value)
qed

lemma strip_to_hex [simp]: "strip_space (to_hex bs) = to_hex bs"
proof (induction bs)
  case Nil
  then show ?case by (simp add: to_hex_def strip_space_def)
next
  case (Cons b bs)
  have "unat b div 16 < 16" by (simp add: less_mult_imp_div_less)
  with Cons show ?case by (simp add: to_hex_def strip_space_def hex_digit_value)
qed

end
