(* ===== verification/PacketCodec.thy ===== *)
theory PacketCodec
  imports Crc16 Tlv Hex
begin

text \<open>
  The packets between an appliance and the cloud, encoded and decoded: \<open>util/packet-codec.ts\<close>.
  The optional header fields are bytes; \<open>encodePacket\<close> only pairs the buffer with its hex text.
\<close>

datatype direction = FromDevice | ToDevice

record tlv_input =
  in_direction :: direction
  in_tlv :: "(nat \<times> nat) list"
  in_a :: "byte option"
  in_s :: "byte option"
  in_byte5 :: "byte option"
  in_byte6 :: "byte option"
  in_byte7 :: "byte option"

datatype encode_input = TlvInput tlv_input | AabbInput string

record tlv_frame =
  kind :: byte
  byte5 :: byte
  byte6 :: byte
  byte7 :: byte
  len :: byte

record push_frame =
  variant :: byte
  marker :: byte
  sequence :: byte
  signature :: string
  push_len :: nat

datatype decoded =
    DecodedTlv direction bool "tlv list" tlv_frame "(byte \<times> byte) option"
  | DecodedTlvPush bool string push_frame
  | DecodedAabb bool byte string
  | DecodedUnknown string string

definition aabbChecksum :: "buffer \<Rightarrow> byte" where
  "aabbChecksum packet = word_of_nat (sum_list (map unat packet) AND 0xff) XOR 0x55"

definition or_default :: "'a option \<Rightarrow> 'a \<Rightarrow> 'a" where
  "or_default x d = (case x of None \<Rightarrow> d | Some v \<Rightarrow> v)"

definition encodeTlv :: "tlv_input \<Rightarrow> string + buffer" where
  "encodeTlv i =
    (let tlvBytes = build (map (\<lambda>(t, v). \<lparr>tlv_t = t, tlv_l = None, tlv_v = Some v\<rparr>) (in_tlv i)) in
     if length tlvBytes > 255 then Inl ''TLV payload exceeds 255 bytes''
     else
       let (uart, prefix) =
         (case in_direction i of
            FromDevice \<Rightarrow>
              ([0x04, 0x00, 0x00, 0x00, 0x87, or_default (in_byte5 i) 0x02, or_default (in_byte6 i) 0x04,
                or_default (in_byte7 i) 0x00, word_of_nat (length tlvBytes)] @ tlvBytes, [0x00, 0x00])
          | ToDevice \<Rightarrow>
              ([0x04, 0x00, 0x00, 0x00, 0x65, or_default (in_byte5 i) 2, or_default (in_byte6 i) 2,
                or_default (in_byte7 i) 1, word_of_nat (length tlvBytes)] @ tlvBytes,
               [or_default (in_a i) 0, or_default (in_s i) 0]));
           crc = crc16 uart
       in Inr (prefix @ uart @ [hi_byte crc, lo_byte crc]))"

definition encodeAabb :: "string \<Rightarrow> buffer" where
  "encodeAabb body =
    (let inner = from_hex body;
         head = [0xaa, word_of_nat (length inner + 4)];
         checksum = aabbChecksum (head @ inner)
     in head @ inner @ [checksum, 0xbb])"

definition encodePacket :: "encode_input \<Rightarrow> string + (string \<times> buffer)" where
  "encodePacket input =
    (case input of
       AabbInput body \<Rightarrow> (let buf = encodeAabb body in Inr (to_hex buf, buf))
     | TlvInput i \<Rightarrow>
         (case encodeTlv i of Inl e \<Rightarrow> Inl e | Inr buf \<Rightarrow> Inr (to_hex buf, buf)))"

definition decodePacket :: "string \<Rightarrow> decoded" where
  "decodePacket hex =
    (let buf = from_hex (strip_space hex); n = length buf in
     if n \<ge> 5 \<and> buf ! 0 = 0xaa \<and> buf ! (n - 1) = 0xbb then
       (let expected = aabbChecksum (subarray 0 (n - 2) buf) in
        DecodedAabb (buf ! (n - 2) = expected) (buf ! 1) (to_hex (subarray 2 (n - 2) buf)))
     else if n \<ge> 18 \<and> buf ! 2 = 0x04 \<and> buf ! 3 = 0 \<and> buf ! 4 = 0 \<and> buf ! 5 = 0 \<and> buf ! 6 = 0xa8 \<and>
         (buf ! 7 = 0x66 \<or> buf ! 7 = 0x67) then
       (let payload = subarray 8 (n - 2) buf in
        DecodedTlvPush (crc16 (drop 2 buf) = 0) (to_hex payload)
          \<lparr>variant = buf ! 7, marker = payload ! 0, sequence = payload ! 7,
           signature = to_hex (subarray 1 6 payload), push_len = length payload\<rparr>)
     else if n \<ge> 13 \<and> buf ! 2 = 0x04 \<and> (buf ! 6 = 0x87 \<or> buf ! 6 = 0xa7 \<or> buf ! 6 = 0x65) then
       (let fromDevice = (buf ! 6 \<noteq> 0x65); l = unat (buf ! 10) in
        if 11 + l + 2 > n then DecodedUnknown hex ''TLV length field overruns buffer''
        else
          let crcOk = (crc16 (drop 2 buf) = 0);
              tlv = parse (subarray 11 (11 + l) buf);
              frame = \<lparr>kind = buf ! 6, byte5 = buf ! 7, byte6 = buf ! 8, byte7 = buf ! 9, len = buf ! 10\<rparr>
          in if fromDevice then DecodedTlv FromDevice crcOk tlv frame None
             else DecodedTlv ToDevice crcOk tlv frame (Some (buf ! 0, buf ! 1)))
     else DecodedUnknown hex ''unrecognized framing'')"

subsection \<open>TLV packets\<close>

definition frame_of :: "tlv_input \<Rightarrow> nat \<Rightarrow> tlv_frame" where
  "frame_of i n = (case in_direction i of
     FromDevice \<Rightarrow> \<lparr>kind = 0x87, byte5 = or_default (in_byte5 i) 2, byte6 = or_default (in_byte6 i) 4,
       byte7 = or_default (in_byte7 i) 0, len = word_of_nat n\<rparr>
   | ToDevice \<Rightarrow> \<lparr>kind = 0x65, byte5 = or_default (in_byte5 i) 2, byte6 = or_default (in_byte6 i) 2,
       byte7 = or_default (in_byte7 i) 1, len = word_of_nat n\<rparr>)"

definition ack_of :: "tlv_input \<Rightarrow> (byte \<times> byte) option" where
  "ack_of i = (case in_direction i of FromDevice \<Rightarrow> None
     | ToDevice \<Rightarrow> Some (or_default (in_a i) 0, or_default (in_s i) 0))"

text \<open>The elements an input carries, as the reader of the packet sees them.\<close>

definition elements_of :: "tlv_input \<Rightarrow> tlv list" where
  "elements_of i = map (\<lambda>(t, v). canon \<lparr>tlv_t = t, tlv_l = None, tlv_v = Some v\<rparr>) (in_tlv i)"

lemma decode_tlv_frame:
  fixes ps :: buffer and a s k b5 b6 b7 :: byte
  assumes "k = 0x87 \<or> k = 0x65" and "a \<noteq> 0xaa" and n: "length ps \<le> 255"
    and "crc16 (0x04 # 0 # 0 # 0 # k # b5 # b6 # b7 # word_of_nat (length ps) # ps @ [c1, c2]) = 0"
  shows "decodePacket (to_hex (a # s # 0x04 # 0 # 0 # 0 # k # b5 # b6 # b7 # word_of_nat (length ps) #
      ps @ [c1, c2])) =
    (let fr = \<lparr>kind = k, byte5 = b5, byte6 = b6, byte7 = b7, len = word_of_nat (length ps)\<rparr> in
     if k = 0x87 then DecodedTlv FromDevice True (parse ps) fr None
     else DecodedTlv ToDevice True (parse ps) fr (Some (a, s)))"
proof -
  have l: "unat (word_of_nat (length ps) :: byte) = length ps"
    using n by (simp add: word_of_nat_byte_eq)
  show ?thesis
    using assms by (auto simp: decodePacket_def l subarray_def)
qed

lemma sealed_uart:
  "crc16 (0x04 # 0 # 0 # 0 # k # b5 # b6 # b7 # l # ps @
    [hi_byte (crc16 (0x04 # 0 # 0 # 0 # k # b5 # b6 # b7 # l # ps)),
     lo_byte (crc16 (0x04 # 0 # 0 # 0 # k # b5 # b6 # b7 # l # ps))]) = 0"
  using crc.sealed [of "0x04 # 0 # 0 # 0 # k # b5 # b6 # b7 # l # ps"] by simp

lemma build_input:
  "parse (build (map (\<lambda>(t, v). \<lparr>tlv_t = t, tlv_l = None, tlv_v = Some v\<rparr>) (in_tlv i))) = elements_of i"
  using parse_build_append [of "map (\<lambda>(t, v). \<lparr>tlv_t = t, tlv_l = None, tlv_v = Some v\<rparr>) (in_tlv i)" "[]"]
  by (simp add: elements_of_def case_prod_unfold comp_def)



text \<open>The exception is real: an acknowledged packet that is read as the other protocol.\<close>

lemma tlv_read_as_aabb:
  "\<exists>hex buf. encodePacket (TlvInput \<lparr>in_direction = ToDevice, in_tlv = [(6, 15)], in_a = Some 0xaa,
      in_s = None, in_byte5 = None, in_byte6 = None, in_byte7 = None\<rparr>) = Inr (hex, buf) \<and>
    (\<exists>ok n body. decodePacket hex = DecodedAabb ok n body)"
proof -
  have b: "build [\<lparr>tlv_t = 6, tlv_l = None, tlv_v = Some 15\<rparr>] = [0x01, 0x8f]"
    by (simp add: build_def build_element_bytes)
  have "crc16 [4, 0, 0, 0, 0x65, 2, 2, 1, 2, 0x01, 0x8f] = 0x1fbb" by code_simp
  then have c: "lo_byte (crc16 [4, 0, 0, 0, 0x65, 2, 2, 1, 2, 0x01, 0x8f]) = 0xbb"
    by (simp add: lo_byte_def)
  show ?thesis
    by (simp add: encodePacket_def encodeTlv_def b or_default_def Let_def decodePacket_def c)
qed

subsection \<open>AABB packets\<close>

text \<open>The checksum is a byte sum, so any one changed byte shows.\<close>

lemma aabbChecksum_sum: "aabbChecksum p = sum_list p XOR 0x55"
proof -
  have "word_of_nat (sum_list (map unat p) AND 0xff) = (word_of_nat (sum_list (map unat p)) :: byte)"
    by (simp add: js_simps word_unat_eq_iff unat_of_nat)
  also have "\<dots> = sum_list p" by (induction p) simp_all
  finally show ?thesis by (simp add: aabbChecksum_def)
qed

lemma aabbChecksum_update:
  assumes "i < length p"
  shows "aabbChecksum (p[i := b]) = aabbChecksum p \<longleftrightarrow> p ! i = b"
proof -
  have "sum_list p = sum_list (take i p) + p ! i + sum_list (drop (Suc i) p)"
    by (subst id_take_nth_drop [OF assms]) (simp add: add.assoc)
  moreover have "sum_list (p[i := b]) = sum_list (take i p) + b + sum_list (drop (Suc i) p)"
    using assms by (simp add: upd_conv_take_nth_drop add.assoc)
  ultimately show ?thesis by (auto simp: aabbChecksum_sum)
qed

text \<open>
  Encode then decode: an AABB packet around a non-empty body decodes to that body, with a
  valid checksum and the length byte the packet was given.
\<close>

theorem decode_encode_aabb:
  assumes "from_hex body \<noteq> []"
  shows "decodePacket (to_hex (encodeAabb body)) =
    DecodedAabb True (word_of_nat (length (from_hex body) + 4)) (to_hex (from_hex body))"
proof -
  define inner where "inner = from_hex body"
  define c where "c = aabbChecksum ([0xaa, word_of_nat (length inner + 4)] @ inner)"
  have buf: "encodeAabb body = 0xaa # word_of_nat (length inner + 4) # inner @ [c, 0xbb]"
    by (simp add: encodeAabb_def inner_def c_def Let_def)
  show ?thesis
    using assms unfolding buf inner_def [symmetric]
    by (cases inner) (auto simp: decodePacket_def subarray_def c_def nth_append)
qed

theorem decode_encode_aabb_witness:
  "decodePacket (to_hex (encodeAabb ''10EF'')) = DecodedAabb True 6 ''10ef''"
  using decode_encode_aabb [of "''10EF''"] by (simp add: hex_value_def to_hex_def hex_digit_def)

text \<open>
  A flipped byte is noticed: change one byte of the length or the body of an AABB packet
  whose checksum verified, and the packet decodes with \<open>checksumOk\<close> false.
\<close>

theorem aabb_detects_change:
  assumes "decodePacket (to_hex buf) = DecodedAabb True n body"
    and "1 \<le> i" and "i + 2 < length buf" and "b \<noteq> buf ! i"
  shows "\<exists>n' body'. decodePacket (to_hex (buf[i := b])) = DecodedAabb False n' body'"
proof -
  from assms(1) have l: "5 \<le> length buf" "buf ! 0 = 0xaa" "buf ! (length buf - 1) = 0xbb"
    and ok: "buf ! (length buf - 2) = aabbChecksum (subarray 0 (length buf - 2) buf)"
    by (auto simp: decodePacket_def Let_def split: if_splits)
  have "subarray 0 (length buf - 2) (buf[i := b]) = (subarray 0 (length buf - 2) buf)[i := b]"
    using assms(3) by (simp add: subarray_def take_update_swap)
  moreover have "aabbChecksum ((subarray 0 (length buf - 2) buf)[i := b]) \<noteq> buf ! (length buf - 2)"
    using assms(3,4) ok by (simp add: aabbChecksum_update subarray_def)
  ultimately show ?thesis
    using assms(2,3) l by (simp add: decodePacket_def Let_def)
qed

theorem aabb_detects_change_witness:
  "\<exists>n body. decodePacket (to_hex ((encodeAabb ''10EF'')[2 := 0x11])) = DecodedAabb False n body"
proof (rule aabb_detects_change)
  show "decodePacket (to_hex (encodeAabb ''10EF'')) = DecodedAabb True 6 ''10ef''"
    by code_simp
qed (simp_all add: encodeAabb_def hex_value_def)

end
