(* ===== verification/TlvDevice.thy ===== *)
theory TlvDevice
  imports PacketCodec
begin

text \<open>
  An appliance whose state is a set of tags: \<open>cloud/devices/base.ts\<close> and
  \<open>cloud/devices/tlv_device.ts\<close>. The state is the object's, with a flag for every timer; a
  timer that fires is an event, and one that was cleared never fires. What the object does to
  the outside is the list \<open>outputs\<close>: packets to the appliance, publications to Home Assistant,
  and the calls of the methods a model's handler overrides.

  The handler of a model (\<open>isCapsResponse\<close>, \<open>decodePushData\<close>, the transformations of its
  fields) is the record \<open>handler\<close>; a published value is the raw number or whatever the field's
  \<open>read_xform\<close> makes of it. Values are natural numbers; a number that is not one (\<open>NaN\<close>) is
  \<open>None\<close>, which \<open>build\<close> encodes as it encodes \<open>undefined\<close>. \<open>now\<close> is the clock.
\<close>

type_synonym tag_value = "nat \<times> nat"

definition UNANSWERED_QUERIES_BEFORE_SILENT :: nat where "UNANSWERED_QUERIES_BEFORE_SILENT = 3"
definition INITIAL_VALUES_RETRY_MS :: nat where "INITIAL_VALUES_RETRY_MS = 15 * 1000"

datatype 'v shown = Raw nat | Shown 'v

datatype written = Nothing | Number "nat option" | Text string

datatype attach = NoAttach | AttachTags "nat list" | AttachBy "nat option \<Rightarrow> nat list"

record 'v field_def =
  fd_id :: "nat option"
  fd_name :: string
  fd_comp :: string
  fd_state_topic :: "string option"
  fd_readable :: "bool option"
  fd_writable :: "bool option"
  write_xform :: "(string \<Rightarrow> written) option"
  write_attach :: attach
  read_xform :: "(nat \<Rightarrow> 'v option) option"
  read_callback :: "('v shown \<Rightarrow> bool) option"
  write_callback :: "(nat option \<Rightarrow> bool) option"

record handler =
  isCapsResponse :: "tag_value list \<Rightarrow> bool"
  isValuesResponse :: "tag_value list \<Rightarrow> bool"
  decodePushData :: "buffer \<Rightarrow> tag_value list option"
  isCompletePushSnapshot :: "tag_value list \<Rightarrow> bool"
  writeHeader :: "byte list"

datatype asked = Capabilities | Values

datatype 'v tlv_output =
    Packet buffer
  | Availability bool
  | Property string "'v shown"
  | CapabilityReceived
  | ValuesReceived
  | PrivData byte byte buffer
  | PrivDataCmdResp bool byte byte buffer

record 'v tlv_device =
  fields_by_id :: "nat \<Rightarrow> 'v field_def list"
  fields_by_ha :: "string \<rightharpoonup> 'v field_def"
  raw_clip_state :: "nat \<Rightarrow> nat option"
  query_timer :: bool
  query_last_timestamp :: "nat option"
  query_last_interval :: "nat option"
  write_refresh_timeout :: bool
  query_caps_timeout :: bool
  query_values_timeout :: bool
  unansweredQueries :: nat
  silent :: bool
  lastAskedAt :: "nat option"
  lastAskedFor :: "asked option"
  lastReplySequence :: "byte option"
  outputs :: "'v tlv_output list"

definition out :: "'v tlv_output \<Rightarrow> 'v tlv_device \<Rightarrow> 'v tlv_device" where
  "out msg d = d\<lparr>outputs := outputs d @ [msg]\<rparr>"

subsection \<open>Packets out\<close>

text \<open>\<open>send\<close> and \<open>sendPrivCommand\<close>: the header, the body, and a checksum over all but two bytes.\<close>

definition tlv_packet :: "byte list \<Rightarrow> tlv list \<Rightarrow> buffer" where
  "tlv_packet header tlv =
    (let tlvArray = build tlv;
         buf = [0x04, 0x00, 0x00, 0x00, 0x65, header ! 2, header ! 3, header ! 4, word_of_nat (length tlvArray)] @ tlvArray;
         result = crc16 buf
     in [header ! 0, header ! 1] @ buf @ [hi_byte result, lo_byte result])"

definition send :: "byte list \<Rightarrow> tlv list \<Rightarrow> 'v tlv_device \<Rightarrow> 'v tlv_device" where
  "send header tlv d = out (Packet (tlv_packet header tlv)) d"

definition priv_packet :: "byte \<Rightarrow> byte \<Rightarrow> buffer \<Rightarrow> buffer" where
  "priv_packet cmd cmd_sub body =
    (let cmdDataLen = length body + 1;
         buf = [0x00, 0xff, 0x04, 0x00, 0x00, 0x00, 0x65, 0xfd, cmd_sub,
                word_of_nat (drop_bit 8 cmdDataLen), word_of_nat (cmdDataLen AND 0xff), cmd] @ body;
         crc = crc16 (drop 2 buf)
     in buf @ [hi_byte crc, lo_byte crc])"

definition sendPrivCommand :: "byte \<Rightarrow> byte \<Rightarrow> buffer \<Rightarrow> 'v tlv_device \<Rightarrow> 'v tlv_device" where
  "sendPrivCommand cmd cmd_sub body d = out (Packet (priv_packet cmd cmd_sub body)) d"

definition QUERY_HEADER :: "byte list" where "QUERY_HEADER = [1, 1, 2, 2, 1]"

definition ask_tlv :: "nat \<Rightarrow> tlv list" where
  "ask_tlv v = [\<lparr>tlv_t = 0x1f5, tlv_l = None, tlv_v = Some v\<rparr>]"

definition queryCaps :: "nat \<Rightarrow> 'v tlv_device \<Rightarrow> 'v tlv_device" where
  "queryCaps now d = (send QUERY_HEADER (ask_tlv 1) d)\<lparr>lastAskedAt := Some now, lastAskedFor := Some Capabilities\<rparr>"

definition query :: "nat \<Rightarrow> 'v tlv_device \<Rightarrow> 'v tlv_device" where
  "query now d = (send QUERY_HEADER (ask_tlv 2) d)
     \<lparr>query_last_timestamp := Some now, lastAskedAt := Some now, lastAskedFor := Some Values\<rparr>"

subsection \<open>Fields\<close>

definition fullName :: "'v field_def \<Rightarrow> string" where
  "fullName def = fd_comp def @ ''-'' @ fd_name def"

text \<open>
  \<open>addField\<close>, with the topics of each component as an association list; a component the
  configuration does not have is the \<open>TypeError\<close> of the assignment into \<open>undefined\<close>.
\<close>

type_synonym topics = "(string \<times> string) list"

definition add_topics :: "'v field_def \<Rightarrow> topics \<Rightarrow> topics" where
  "add_topics options target =
    (let prefix = (if fd_name options \<noteq> [] then fd_name options @ ''_'' else []);
         target = (if fd_readable options \<noteq> Some False
           then AList.update (prefix @ or_default (fd_state_topic options) ''state_topic'')
             (''$this/'' @ fullName options) target
           else target)
     in if fd_writable options \<noteq> Some False
        then AList.update (prefix @ ''command_topic'') (''$this/'' @ fullName options @ ''/set'') target
        else target)"

definition addField :: "(string \<times> topics) list \<Rightarrow> 'v field_def \<Rightarrow> bool \<Rightarrow> 'v tlv_device
    \<Rightarrow> 'v tlv_device \<times> (string + (string \<times> topics) list)" where
  "addField components options autoreg d =
    (let d = (case fd_id options of
           Some i \<Rightarrow> if i \<noteq> 0 then d\<lparr>fields_by_id := (fields_by_id d)(i := fields_by_id d i @ [options])\<rparr> else d
         | None \<Rightarrow> d);
         d = d\<lparr>fields_by_ha := (fields_by_ha d)(fullName options \<mapsto> options)\<rparr>
     in if \<not> autoreg then (d, Inr components)
        else (case map_of components (fd_comp options) of
           Some target \<Rightarrow> (d, Inr (AList.update (fd_comp options) (add_topics options target) components))
         | None \<Rightarrow> if fd_readable options = Some False \<and> fd_writable options = Some False
                   then (d, Inr components) else (d, Inl ''TypeError'')))"

subsection \<open>Silence\<close>

definition askedForRefresh :: "'v tlv_device \<Rightarrow> 'v tlv_device" where
  "askedForRefresh d =
    (let d = d\<lparr>unansweredQueries := unansweredQueries d + 1\<rparr>
     in if unansweredQueries d < UNANSWERED_QUERIES_BEFORE_SILENT \<or> silent d then d
        else out (Availability False) (d\<lparr>silent := True\<rparr>))"

definition heard :: "'v tlv_device \<Rightarrow> 'v tlv_device" where
  "heard d =
    (let d = d\<lparr>unansweredQueries := 0\<rparr>
     in if \<not> silent d then d else out (Availability True) (d\<lparr>silent := False\<rparr>))"

definition setQueryInterval :: "nat \<Rightarrow> nat \<Rightarrow> 'v tlv_device \<Rightarrow> 'v tlv_device" where
  "setQueryInterval now interval d =
    (if query_timer d \<and> query_last_interval d = Some interval then d
     else
       let d = (if query_timer d \<and> (case query_last_timestamp d of Some t \<Rightarrow> int now - int t \<ge> int interval | None \<Rightarrow> False)
                then query now d else d)
       in d\<lparr>query_timer := True, query_last_interval := Some interval\<rparr>)"

definition start :: "nat \<Rightarrow> 'v tlv_device \<Rightarrow> 'v tlv_device" where
  "start now d = (if query_timer d then d else setQueryInterval now (15 * 60 * 1000) d)"

definition stopTimers :: "'v tlv_device \<Rightarrow> 'v tlv_device" where
  "stopTimers d = d\<lparr>write_refresh_timeout := False, query_timer := False, query_caps_timeout := False,
     query_values_timeout := False\<rparr>"

definition drop_device :: "'v tlv_device \<Rightarrow> 'v tlv_device" where
  "drop_device d = out (Availability False) (stopTimers d)"

subsection \<open>Tags in\<close>

definition publishKeyValue :: "'v field_def \<Rightarrow> nat \<Rightarrow> 'v tlv_device \<Rightarrow> 'v tlv_device" where
  "publishKeyValue def v d =
    (case (case read_xform def of None \<Rightarrow> Some (Raw v) | Some f \<Rightarrow> map_option Shown (f v)) of
       None \<Rightarrow> d
     | Some processed \<Rightarrow>
         let doRead = (case read_callback def of None \<Rightarrow> True | Some f \<Rightarrow> f processed)
         in if doRead \<and> fd_readable def \<noteq> Some False
            then out (Property (fullName def) processed) d else d)"

definition processKeyValue :: "nat \<Rightarrow> nat \<Rightarrow> 'v tlv_device \<Rightarrow> 'v tlv_device" where
  "processKeyValue k v d =
    foldl (\<lambda>d def. publishKeyValue def v d) (d\<lparr>raw_clip_state := (raw_clip_state d)(k := Some v)\<rparr>) (fields_by_id d k)"

definition processTLV :: "handler \<Rightarrow> nat \<Rightarrow> tag_value list \<Rightarrow> bool \<Rightarrow> 'v tlv_device \<Rightarrow> 'v tlv_device" where
  "processTLV h now tlvArray canSatisfyValuesResponse d =
    (let d = foldl (\<lambda>d (t, v). processKeyValue t v d) d tlvArray;
         d = (if query_caps_timeout d \<and> isCapsResponse h tlvArray
              then (query now (out CapabilityReceived (d\<lparr>query_caps_timeout := False\<rparr>)))\<lparr>query_values_timeout := True\<rparr>
              else d)
     in if canSatisfyValuesResponse \<and> \<not> query_caps_timeout d \<and> isValuesResponse h tlvArray
        then out ValuesReceived (d\<lparr>query_values_timeout := False\<rparr>)
        else d)"

definition tag_values :: "tlv list \<Rightarrow> tag_value list" where
  "tag_values els = map (\<lambda>e. (tlv_t e, case tlv_v e of Some v \<Rightarrow> v | None \<Rightarrow> 0)) els"

definition is_push_frame :: "buffer \<Rightarrow> bool" where
  "is_push_frame buf \<longleftrightarrow> \<not> (length buf < 12 \<or> buf ! 2 \<noteq> 0x04 \<or> buf ! 3 \<noteq> 0 \<or> buf ! 4 \<noteq> 0 \<or> buf ! 5 \<noteq> 0 \<or> buf ! 6 \<noteq> 0xa8 \<or>
     (buf ! 7 \<noteq> 0x66 \<and> buf ! 7 \<noteq> 0x67) \<or> crc16 (drop 2 buf) \<noteq> 0)"

definition processPushFrame :: "handler \<Rightarrow> nat \<Rightarrow> buffer \<Rightarrow> 'v tlv_device \<Rightarrow> bool \<times> 'v tlv_device" where
  "processPushFrame h now buf d =
    (if \<not> is_push_frame buf then (False, d)
     else case decodePushData h (subarray 8 (length buf - 2) buf) of
         None \<Rightarrow> (False, d)
       | Some tlv \<Rightarrow>
           let completeSnapshot = isCompletePushSnapshot h tlv;
               d = processTLV h now tlv completeSnapshot (heard d)
           in (True, if write_refresh_timeout d \<and> completeSnapshot then d\<lparr>write_refresh_timeout := False\<rparr> else d))"

text \<open>The three envelopes \<open>processData\<close> looks for, byte by byte as it does.\<close>

definition uart_head :: "buffer \<Rightarrow> bool" where
  "uart_head buf \<longleftrightarrow> idx buf 2 = Some 0x04 \<and> idx buf 3 = Some 0 \<and> idx buf 4 = Some 0 \<and> idx buf 5 = Some 0 \<and>
    (idx buf 6 = Some 0x87 \<or> idx buf 6 = Some 0xa7)"

definition declared_length :: "buffer \<Rightarrow> bool" where
  "declared_length buf \<longleftrightarrow> (case idx buf 10 of Some b \<Rightarrow> length buf = unat b + 13 | None \<Rightarrow> False)"

definition is_tlv_frame :: "buffer \<Rightarrow> bool" where
  "is_tlv_frame buf \<longleftrightarrow> uart_head buf \<and> idx buf 7 = Some 0x02 \<and>
    (idx buf 8 = Some 0x01 \<or> idx buf 8 = Some 0x04) \<and> declared_length buf"

definition is_priv_frame :: "buffer \<Rightarrow> bool" where
  "is_priv_frame buf \<longleftrightarrow> idx buf 1 = Some 0xff \<and> uart_head buf \<and> idx buf 7 = Some 0xfd \<and> idx buf 8 = Some 0x03 \<and>
    declared_length buf"

definition is_priv_response :: "buffer \<Rightarrow> bool" where
  "is_priv_response buf \<longleftrightarrow> (idx buf 0 = Some 0x02 \<or> idx buf 0 = Some 0x03) \<and> uart_head buf \<and>
    idx buf 7 = Some 0xfd \<and> idx buf 8 = Some 0x10 \<and> idx buf 9 = Some 0 \<and> idx buf 10 = Some 0x05 \<and>
    idx buf 11 = Some 0xfe \<and> idx buf 12 \<noteq> None"

definition processData :: "handler \<Rightarrow> nat \<Rightarrow> buffer \<Rightarrow> 'v tlv_device \<Rightarrow> 'v tlv_device" where
  "processData h now buf d =
    (case processPushFrame h now buf d of
       (True, d') \<Rightarrow> d'
     | (False, _) \<Rightarrow>
         let d = (if is_tlv_frame buf
                  then processTLV h now (tag_values (parse (subarray 11 (length buf - 2) buf))) True
                    (heard (d\<lparr>lastReplySequence := Some (buf ! 9)\<rparr>))
                  else d);
             d = (if is_priv_frame buf
                  then out (PrivData (buf ! 0) (buf ! 9) (subarray 11 (length buf - 2) buf)) d else d)
         in if is_priv_response buf
            then out (PrivDataCmdResp (buf ! 0 = 0x02) (buf ! 1) (buf ! 12) (subarray 13 (length buf - 2) buf)) d
            else d)"

subsection \<open>Commands from Home Assistant\<close>

definition js_number :: "string \<Rightarrow> nat option" where
  "js_number s = (let t = trim s in if list_all digit t then Some (decimal t) else None)"

definition refreshAfterWrite :: "'v tlv_device \<Rightarrow> 'v tlv_device" where
  "refreshAfterWrite d = d\<lparr>write_refresh_timeout := True\<rparr>"

definition attached :: "attach \<Rightarrow> nat option \<Rightarrow> nat list" where
  "attached a v = (case a of NoAttach \<Rightarrow> [] | AttachTags ts \<Rightarrow> ts | AttachBy f \<Rightarrow> f v)"

definition write_value :: "handler \<Rightarrow> 'v field_def \<Rightarrow> nat option \<Rightarrow> 'v tlv_device \<Rightarrow> 'v tlv_device" where
  "write_value h def v d =
    (let doWrite = (case write_callback def of None \<Rightarrow> True | Some f \<Rightarrow> f v)
     in case fd_id def of
          Some i \<Rightarrow>
            if doWrite then
              let d = d\<lparr>raw_clip_state := (raw_clip_state d)(i := v)\<rparr>;
                  tlvArray = map (\<lambda>t. \<lparr>tlv_t = t, tlv_l = None, tlv_v = raw_clip_state d t\<rparr>) (i # attached (write_attach def) v)
              in refreshAfterWrite (send (writeHeader h) tlvArray d)
            else d
        | None \<Rightarrow> d)"

definition setProperty :: "handler \<Rightarrow> string \<Rightarrow> string \<Rightarrow> 'v tlv_device \<Rightarrow> 'v tlv_device" where
  "setProperty h p mqttValue d =
    (case fields_by_ha d p of
       None \<Rightarrow> d
     | Some def \<Rightarrow>
         if fd_writable def = Some False then d
         else (case (case write_xform def of Some f \<Rightarrow> f mqttValue | None \<Rightarrow> Nothing) of
                 Nothing \<Rightarrow> d
               | Text s \<Rightarrow> write_value h def (js_number s) d
               | Number v \<Rightarrow> write_value h def v d))"

subsection \<open>The life of a device\<close>

definition new_device :: "nat \<Rightarrow> 'v tlv_device" where
  "new_device now = (queryCaps now
     \<lparr>fields_by_id = (\<lambda>_. []), fields_by_ha = Map.empty, raw_clip_state = (\<lambda>_. None), query_timer = False,
      query_last_timestamp = None, query_last_interval = None, write_refresh_timeout = False,
      query_caps_timeout = False, query_values_timeout = False, unansweredQueries = 0, silent = False,
      lastAskedAt = None, lastAskedFor = None, lastReplySequence = None, outputs = []\<rparr>)
     \<lparr>query_caps_timeout := True\<rparr>"

datatype 'v tlv_event =
    Data buffer
  | SetProperty string string
  | AddField "'v field_def"
  | SetQueryInterval nat
  | Start
  | CapsTimer
  | ValuesTimer
  | RefreshTimer
  | WriteTimer

fun tlv_step :: "handler \<Rightarrow> 'v tlv_device \<Rightarrow> nat \<times> 'v tlv_event \<Rightarrow> 'v tlv_device" where
  "tlv_step h d (now, Data buf) = processData h now buf d"
| "tlv_step h d (now, SetProperty p v) = setProperty h p v d"
| "tlv_step h d (now, AddField def) = fst (addField [] def False d)"
| "tlv_step h d (now, SetQueryInterval i) = setQueryInterval now i d"
| "tlv_step h d (now, Start) = start now d"
| "tlv_step h d (now, CapsTimer) = (if query_caps_timeout d then queryCaps now d else d)"
| "tlv_step h d (now, ValuesTimer) = (if query_values_timeout d then query now d else d)"
| "tlv_step h d (now, RefreshTimer) = (if query_timer d then query now (askedForRefresh d) else d)"
| "tlv_step h d (now, WriteTimer) =
    (if write_refresh_timeout d then query now (d\<lparr>write_refresh_timeout := False\<rparr>) else d)"

definition tlv_run :: "handler \<Rightarrow> nat \<Rightarrow> (nat \<times> 'v tlv_event) list \<Rightarrow> 'v tlv_device" where
  "tlv_run h now evs = foldl (tlv_step h) (new_device now) evs"

subsection \<open>Messages that say nothing about the connection\<close>

fun plain :: "'v tlv_output \<Rightarrow> bool" where
  "plain (Availability b) = False"
| "plain CapabilityReceived = False"
| "plain ValuesReceived = False"
| "plain _ = True"

definition life :: "'v tlv_device \<Rightarrow> nat \<times> bool \<times> bool \<times> bool" where
  "life d = (unansweredQueries d, silent d, query_caps_timeout d, query_values_timeout d)"

definition quiet :: "'v tlv_device \<Rightarrow> 'v tlv_device \<Rightarrow> bool" where
  "quiet d d' \<longleftrightarrow> life d' = life d \<and> (\<exists>ms. outputs d' = outputs d @ ms \<and> list_all plain ms)"

lemma quiet_refl [simp]: "quiet d d"
  by (simp add: quiet_def)

lemma quiet_trans: "quiet a b \<Longrightarrow> quiet b c \<Longrightarrow> quiet a c"
  by (auto simp: quiet_def)

lemma quiet_same: "outputs d' = outputs d \<Longrightarrow> life d' = life d \<Longrightarrow> quiet d d'"
  by (simp add: quiet_def)

lemma quiet_out: "plain m \<Longrightarrow> quiet d (out m d)"
  by (auto simp: quiet_def out_def life_def)

lemma quiet_foldl: "(\<And>d x. quiet d (f d x)) \<Longrightarrow> quiet d (foldl f d xs)"
  by (induction xs arbitrary: d) (auto intro: quiet_trans)

lemma quiet_send [simp]: "quiet d (send hdr els d)"
  by (simp add: send_def quiet_out)

lemma quiet_query [simp]: "quiet d (query now d)" "quiet d (queryCaps now d)"
  by (auto simp: query_def queryCaps_def send_def quiet_def out_def life_def)

lemma quiet_publishKeyValue: "quiet d (publishKeyValue def v d)"
  by (auto simp: publishKeyValue_def Let_def quiet_out split: option.split)

lemma quiet_processKeyValue: "quiet d (processKeyValue k v d)"
  unfolding processKeyValue_def
  by (rule quiet_trans [OF quiet_same quiet_foldl]) (auto simp: quiet_publishKeyValue life_def)

lemma quiet_tags: "quiet d (foldl (\<lambda>d (t, v). processKeyValue t v d) d tlvs)"
  by (rule quiet_foldl) (auto simp: quiet_processKeyValue)

lemma quiet_write_value: "quiet d (write_value h def v d)"
proof (cases "fd_id def")
  case (Some i)
  have "quiet d (refreshAfterWrite (send hdr els (d\<lparr>raw_clip_state := r\<rparr>)))" for hdr els r
    by (auto simp: refreshAfterWrite_def send_def out_def quiet_def life_def)
  then show ?thesis by (simp add: write_value_def Some Let_def)
qed (simp add: write_value_def)

lemma quiet_setProperty: "quiet d (setProperty h p v d)"
  by (auto simp: setProperty_def quiet_write_value split: option.split written.split)

lemma quiet_setQueryInterval: "quiet d (setQueryInterval now i d)"
proof -
  have "quiet d' (d'\<lparr>query_timer := True, query_last_interval := Some i\<rparr>)" for d' :: "'a tlv_device"
    by (rule quiet_same) (simp_all add: life_def)
  then show ?thesis
    by (auto simp: setQueryInterval_def Let_def intro: quiet_trans [OF quiet_query(1)])
qed

lemma quiet_start: "quiet d (start now d)"
  by (simp add: start_def quiet_setQueryInterval)

lemma quiet_addField: "quiet d (fst (addField comps def auto d))"
  by (rule quiet_same) (auto simp: addField_def Let_def life_def split: option.split)

lemma quiet_priv: "quiet d (out (PrivData a b c) d)" "quiet d (out (PrivDataCmdResp x a b c) d)"
  by (simp_all add: quiet_out)

subsection \<open>The invariant of a run\<close>

definition avails :: "'v tlv_output list \<Rightarrow> bool list" where
  "avails ms = concat (map (\<lambda>m. case m of Availability b \<Rightarrow> [b] | _ \<Rightarrow> []) ms)"

definition avail_ok :: "'v tlv_device \<Rightarrow> bool" where
  "avail_ok d \<longleftrightarrow> avails (outputs d) = map odd [0..<length (avails (outputs d))] \<and>
    silent d = odd (length (avails (outputs d))) \<and> silent d = (unansweredQueries d \<ge> 3)"

definition caps_ok :: "'v tlv_device \<Rightarrow> bool" where
  "caps_ok d \<longleftrightarrow>
    (if query_caps_timeout d
     then \<not> query_values_timeout d \<and> CapabilityReceived \<notin> set (outputs d) \<and> ValuesReceived \<notin> set (outputs d)
     else \<exists>pre post. outputs d = pre @ CapabilityReceived # post \<and> CapabilityReceived \<notin> set (pre @ post) \<and>
            ValuesReceived \<notin> set pre)"

lemma avails_append [simp]: "avails (xs @ ys) = avails xs @ avails ys"
  by (simp add: avails_def)

lemma avails_Nil [simp]: "avails [] = []"
  by (simp add: avails_def)

lemma avails_Cons [simp]:
  "avails (m # ms) = (case m of Availability b \<Rightarrow> b # avails ms | _ \<Rightarrow> avails ms)"
  by (simp add: avails_def split: tlv_output.split)

lemma plain_noise:
  "list_all plain ms \<Longrightarrow> avails ms = [] \<and> CapabilityReceived \<notin> set ms \<and> ValuesReceived \<notin> set ms"
  by (induction ms) (auto split: tlv_output.split)

lemma avail_ok_quiet: "avail_ok d \<Longrightarrow> quiet d d' \<Longrightarrow> avail_ok d'"
  using plain_noise by (fastforce simp: avail_ok_def quiet_def life_def)

lemma caps_ok_append:
  assumes "caps_ok d" "outputs d' = outputs d @ ms" "CapabilityReceived \<notin> set ms" "ValuesReceived \<notin> set ms"
    and flags: "query_caps_timeout d' = query_caps_timeout d" "query_values_timeout d' = query_values_timeout d"
  shows "caps_ok d'"
proof (cases "query_caps_timeout d")
  case True
  then show ?thesis using assms by (simp add: caps_ok_def)
next
  case False
  then obtain pre post where "outputs d = pre @ CapabilityReceived # post" "CapabilityReceived \<notin> set (pre @ post)"
      "ValuesReceived \<notin> set pre"
    using assms(1) by (auto simp: caps_ok_def)
  then have "outputs d' = pre @ CapabilityReceived # (post @ ms) \<and> CapabilityReceived \<notin> set (pre @ post @ ms) \<and>
      ValuesReceived \<notin> set pre"
    using assms(2,3) by simp
  then have "\<exists>pre post. outputs d' = pre @ CapabilityReceived # post \<and> CapabilityReceived \<notin> set (pre @ post) \<and>
      ValuesReceived \<notin> set pre"
    by (intro exI conjI) auto
  then show ?thesis using False flags by (simp add: caps_ok_def)
qed

lemma caps_ok_quiet: "caps_ok d \<Longrightarrow> quiet d d' \<Longrightarrow> caps_ok d'"
  using plain_noise by (auto simp: quiet_def life_def intro: caps_ok_append)

definition device_ok :: "'v tlv_device \<Rightarrow> bool" where
  "device_ok d \<longleftrightarrow> avail_ok d \<and> caps_ok d"

lemma device_ok_quiet: "device_ok d \<Longrightarrow> quiet d d' \<Longrightarrow> device_ok d'"
  by (auto simp: device_ok_def intro: avail_ok_quiet caps_ok_quiet)

lemma device_ok_asked:
  assumes "device_ok d"
  shows "device_ok (askedForRefresh d)"
proof -
  have "avail_ok (askedForRefresh d)"
    using assms by (auto simp: device_ok_def avail_ok_def askedForRefresh_def out_def Let_def
        UNANSWERED_QUERIES_BEFORE_SILENT_def)
  moreover have "caps_ok (askedForRefresh d)"
    using assms by (auto simp: device_ok_def askedForRefresh_def out_def Let_def intro: caps_ok_append)
  ultimately show ?thesis by (simp add: device_ok_def)
qed

lemma device_ok_heard:
  assumes "device_ok d"
  shows "device_ok (heard d)"
proof -
  have "avail_ok (heard d)"
    using assms by (auto simp: device_ok_def avail_ok_def heard_def out_def Let_def)
  moreover have "caps_ok (heard d)"
    using assms by (auto simp: device_ok_def heard_def out_def Let_def intro: caps_ok_append)
  ultimately show ?thesis by (simp add: device_ok_def)
qed

lemma device_ok_processTLV:
  assumes "device_ok d"
  shows "device_ok (processTLV h now tlvs can d)"
proof -
  define d1 where "d1 = foldl (\<lambda>d (t, v). processKeyValue t v d) d tlvs"
  have ok1: "device_ok d1" using assms quiet_tags by (auto simp: d1_def intro: device_ok_quiet)
  define d2 where "d2 = (if query_caps_timeout d1 \<and> isCapsResponse h tlvs
      then (query now (out CapabilityReceived (d1\<lparr>query_caps_timeout := False\<rparr>)))\<lparr>query_values_timeout := True\<rparr>
      else d1)"
  have ok2: "device_ok d2"
  proof (cases "query_caps_timeout d1 \<and> isCapsResponse h tlvs")
    case True
    then have d2: "outputs d2 = outputs d1 @ CapabilityReceived # [Packet (tlv_packet QUERY_HEADER (ask_tlv 2))]"
        "\<not> query_caps_timeout d2" "silent d2 = silent d1" "unansweredQueries d2 = unansweredQueries d1"
      by (simp_all add: d2_def query_def send_def out_def)
    have "CapabilityReceived \<notin> set (outputs d1 @ [Packet (tlv_packet QUERY_HEADER (ask_tlv 2))])"
      "ValuesReceived \<notin> set (outputs d1)"
      using ok1 True by (auto simp: device_ok_def caps_ok_def)
    then have "\<exists>pre post. outputs d2 = pre @ CapabilityReceived # post \<and> CapabilityReceived \<notin> set (pre @ post) \<and>
        ValuesReceived \<notin> set pre"
      using d2(1) by blast
    then have "caps_ok d2" using d2(2) by (simp add: caps_ok_def)
    moreover have "avails (outputs d2) = avails (outputs d1)" by (simp add: d2(1))
    ultimately show ?thesis using ok1 d2(3,4) unfolding device_ok_def avail_ok_def by metis
  next
    case False
    show ?thesis unfolding d2_def if_not_P [OF False] by (rule ok1)
  qed
  have ok3: "device_ok (out ValuesReceived (d2\<lparr>query_values_timeout := False\<rparr>))" if "\<not> query_caps_timeout d2"
  proof -
    have "caps_ok d2" using ok2 by (simp add: device_ok_def)
    moreover note no_caps = that
    ultimately obtain pre post where "outputs d2 = pre @ CapabilityReceived # post" "CapabilityReceived \<notin> set (pre @ post)"
      "ValuesReceived \<notin> set pre"
      unfolding caps_ok_def if_not_P [OF no_caps] by blast
    then have "outputs d2 @ [ValuesReceived] = pre @ CapabilityReceived # (post @ [ValuesReceived]) \<and>
        CapabilityReceived \<notin> set (pre @ post @ [ValuesReceived]) \<and> ValuesReceived \<notin> set pre"
      by simp
    then have "\<exists>pre post. outputs d2 @ [ValuesReceived] = pre @ CapabilityReceived # post \<and>
        CapabilityReceived \<notin> set (pre @ post) \<and> ValuesReceived \<notin> set pre"
      by blast
    then have "caps_ok (out ValuesReceived (d2\<lparr>query_values_timeout := False\<rparr>))"
      using no_caps by (simp add: caps_ok_def out_def)
    moreover have "avail_ok (out ValuesReceived (d2\<lparr>query_values_timeout := False\<rparr>)) = avail_ok d2"
      by (simp add: avail_ok_def out_def)
    ultimately show ?thesis using ok2 by (simp add: device_ok_def)
  qed
  have "processTLV h now tlvs can d = (if can \<and> \<not> query_caps_timeout d2 \<and> isValuesResponse h tlvs
      then out ValuesReceived (d2\<lparr>query_values_timeout := False\<rparr>) else d2)"
    unfolding processTLV_def d1_def d2_def Let_def by (rule refl)
  then show ?thesis using ok2 ok3 by simp
qed

lemma device_ok_flags:
  "device_ok d \<Longrightarrow> device_ok (d\<lparr>write_refresh_timeout := b\<rparr>)"
  "device_ok d \<Longrightarrow> device_ok (d\<lparr>lastReplySequence := s\<rparr>)"
  by (erule device_ok_quiet, rule quiet_same; simp add: life_def)+

lemma device_ok_push: "device_ok d \<Longrightarrow> device_ok (snd (processPushFrame h now buf d))"
  by (simp add: processPushFrame_def Let_def device_ok_processTLV device_ok_heard device_ok_flags split: option.split)

lemma push_False: "fst (processPushFrame h now buf d) = False \<Longrightarrow> snd (processPushFrame h now buf d) = d"
  by (auto simp: processPushFrame_def Let_def split: option.splits if_splits)

lemma device_ok_processData:
  assumes "device_ok d"
  shows "device_ok (processData h now buf d)"
proof (cases "processPushFrame h now buf d")
  case (Pair b d')
  show ?thesis
  proof (cases b)
    case True
    then show ?thesis using device_ok_push [OF assms, of h now buf] Pair by (simp add: processData_def)
  next
    case False
    define d1 where "d1 = (if is_tlv_frame buf then processTLV h now (tag_values (parse (subarray 11 (length buf - 2) buf))) True
        (heard (d\<lparr>lastReplySequence := Some (buf ! 9)\<rparr>)) else d)"
    define d2 where "d2 = (if is_priv_frame buf
        then out (PrivData (buf ! 0) (buf ! 9) (subarray 11 (length buf - 2) buf)) d1 else d1)"
    have "device_ok d1" using assms by (simp add: d1_def device_ok_processTLV device_ok_heard device_ok_flags)
    then have "device_ok d2" by (simp add: d2_def) (blast intro: device_ok_quiet quiet_priv)
    moreover have "processData h now buf d = (if is_priv_response buf
        then out (PrivDataCmdResp (buf ! 0 = 0x02) (buf ! 1) (buf ! 12) (subarray 13 (length buf - 2) buf)) d2 else d2)"
      using False Pair by (simp add: processData_def d1_def d2_def Let_def)
    ultimately show ?thesis by simp (blast intro: device_ok_quiet quiet_priv)
  qed
qed

lemma device_ok_query: "device_ok d \<Longrightarrow> device_ok (query now d)" "device_ok d \<Longrightarrow> device_ok (queryCaps now d)"
  by (auto intro: device_ok_quiet)

lemma device_ok_step: "device_ok d \<Longrightarrow> device_ok (tlv_step h d nev)"
proof (cases nev)
  case (Pair now ev)
  assume ok: "device_ok d"
  show ?thesis
    unfolding Pair
    by (cases ev) (auto simp: ok device_ok_processData device_ok_asked device_ok_flags device_ok_query
        intro: device_ok_quiet [OF ok] quiet_setProperty quiet_addField quiet_setQueryInterval quiet_start)
qed

lemma device_ok_new: "device_ok (new_device now)"
  by (simp add: device_ok_def avail_ok_def caps_ok_def new_device_def queryCaps_def send_def out_def)

lemma device_ok_run: "device_ok (tlv_run h now evs)"
proof -
  have "device_ok (foldl (tlv_step h) d evs)" if "device_ok d" for d
    using that by (induction evs arbitrary: d) (auto simp: device_ok_step)
  then show ?thesis by (simp add: tlv_run_def device_ok_new)
qed


text \<open>
  The start-up protocol: in every run the handler hears of the capabilities at most once,
  it hears of values only after them, the capability query is repeated exactly until they have
  come, and the initial-values query is never repeated before.
\<close>

theorem capabilities_before_values:
  "(query_caps_timeout (tlv_run h now evs) \<and> \<not> query_values_timeout (tlv_run h now evs) \<and>
      CapabilityReceived \<notin> set (outputs (tlv_run h now evs)) \<and> ValuesReceived \<notin> set (outputs (tlv_run h now evs))) \<or>
   (query_caps_timeout (tlv_run h now evs) = False \<and>
     (\<exists>pre post. outputs (tlv_run h now evs) = pre @ CapabilityReceived # post \<and>
        CapabilityReceived \<notin> set (pre @ post) \<and> ValuesReceived \<notin> set pre))"
  using device_ok_run [of h now evs] by (auto simp: device_ok_def caps_ok_def split: if_splits)

subsection \<open>Silence comes, and goes\<close>

lemma refresh_fields:
  "query_timer d \<Longrightarrow> query_timer (tlv_step h d (now, RefreshTimer)) \<and>
    unansweredQueries (tlv_step h d (now, RefreshTimer)) = unansweredQueries d + 1 \<and>
    silent (tlv_step h d (now, RefreshTimer)) = (silent d \<or> unansweredQueries d + 1 \<ge> UNANSWERED_QUERIES_BEFORE_SILENT)"
  by (auto simp: query_def send_def out_def askedForRefresh_def Let_def)

text \<open>
  An appliance that stops answering is reported, and one that answers is available again:
  from any state with the refresh timer running, the third unanswered refresh at the latest
  makes the device silent, and the next TLV packet, whatever it says, makes it available.
\<close>

theorem silence_is_noticed:
  assumes "query_timer d" and "length clocks + unansweredQueries d \<ge> UNANSWERED_QUERIES_BEFORE_SILENT" and "clocks \<noteq> []"
    and "is_tlv_frame buf" and "\<not> fst (processPushFrame h now buf (foldl (tlv_step h) d (map (\<lambda>t. (t, RefreshTimer)) clocks)))"
  shows "silent (foldl (tlv_step h) d (map (\<lambda>t. (t, RefreshTimer)) clocks)) \<and>
    silent (processData h now buf (foldl (tlv_step h) d (map (\<lambda>t. (t, RefreshTimer)) clocks))) = False"
proof -
  have grows: "silent (foldl (tlv_step h) d (map (\<lambda>t. (t, RefreshTimer)) ts))" if "query_timer d" "silent d" for ts and d :: "'a tlv_device"
    using that
  proof (induction ts arbitrary: d)
    case (Cons t ts)
    show ?case
      using Cons.IH [of "tlv_step h d (t, RefreshTimer)"] Cons.prems refresh_fields [OF Cons.prems(1), of h t]
      by (simp del: tlv_step.simps)
  qed simp
  have late: "silent (foldl (tlv_step h) d (map (\<lambda>t. (t, RefreshTimer)) ts))"
    if "query_timer d" "length ts + unansweredQueries d \<ge> UNANSWERED_QUERIES_BEFORE_SILENT" "ts \<noteq> []"
    for ts and d :: "'a tlv_device"
    using that
  proof (induction ts arbitrary: d)
    case (Cons t ts)
    note r = refresh_fields [OF Cons.prems(1), of h t]
    show ?case
    proof (cases "ts = []")
      case True
      then show ?thesis using r Cons.prems(2) by (simp del: tlv_step.simps)
    next
      case False
      then show ?thesis
        using Cons.IH [of "tlv_step h d (t, RefreshTimer)"] r Cons.prems by (simp del: tlv_step.simps)
    qed
  qed simp
  have keep: "silent (out m d) = silent d" "silent (query n d) = silent d" for m n and d :: "'a tlv_device"
    by (simp_all add: out_def query_def send_def)
  have tags: "silent (foldl (\<lambda>d (t, v). processKeyValue t v d) d tlvs) = silent d" for tlvs and d :: "'a tlv_device"
    using quiet_tags [of d tlvs] by (simp add: quiet_def life_def)
  have "silent (processTLV h now tlvs can (heard d)) = False" for tlvs can and d :: "'a tlv_device"
    using tags [of "heard d" tlvs] by (simp add: processTLV_def Let_def keep heard_def)
  then have "silent (processData h now buf d) = False" if "\<not> fst (processPushFrame h now buf d)" for d :: "'a tlv_device"
    using that assms(4) by (cases "processPushFrame h now buf d") (simp add: processData_def Let_def keep)
  then show ?thesis using late [OF assms(1-3)] assms(5) by blast
qed

theorem silence_is_noticed_witness:
  "silent (tlv_run (\<lparr>isCapsResponse = \<lambda>_. False, isValuesResponse = \<lambda>_. False, decodePushData = \<lambda>_. None,
      isCompletePushSnapshot = \<lambda>_. False, writeHeader = [1, 1, 2, 1, 1]\<rparr>) 0
      ([(1, Start), (2, RefreshTimer), (3, RefreshTimer), (4, RefreshTimer)] :: (nat \<times> unit tlv_event) list))"
proof -
  let ?h = "\<lparr>isCapsResponse = \<lambda>_. False, isValuesResponse = \<lambda>_. False, decodePushData = \<lambda>_. None,
      isCompletePushSnapshot = \<lambda>_. False, writeHeader = [1, 1, 2, 1, 1]\<rparr>"
  let ?d = "start 1 (new_device 0) :: unit tlv_device"
  have "query_timer ?d" "unansweredQueries ?d = 0"
    by (simp_all add: start_def setQueryInterval_def new_device_def queryCaps_def send_def out_def Let_def)
  moreover have "is_tlv_frame [0, 0, 4, 0, 0, 0, 0x87, 2, 4, 0, 0, 0, 0]"
    by (simp add: is_tlv_frame_def uart_head_def declared_length_def)
  moreover have "\<not> fst (processPushFrame ?h 5 [0, 0, 4, 0, 0, 0, 0x87, 2, 4, 0, 0, 0, 0] d)" for d :: "unit tlv_device"
    by (simp add: processPushFrame_def is_push_frame_def)
  ultimately show ?thesis
    using silence_is_noticed [of ?d "[2, 3, 4]" "[0, 0, 4, 0, 0, 0, 0x87, 2, 4, 0, 0, 0, 0]" ?h 5]
    by (simp add: tlv_run_def UNANSWERED_QUERIES_BEFORE_SILENT_def del: tlv_step.simps(8))
qed

subsection \<open>The packets and the codec\<close>


definition power_field :: "unit field_def" where
  "power_field = \<lparr>fd_id = Some 0x1f7, fd_name = [], fd_comp = ''switch'', fd_state_topic = None, fd_readable = None,
     fd_writable = None, write_xform = Some (\<lambda>s. Number (Some (if s = ''ON'' then 1 else 0))), write_attach = AttachTags [0x1f9],
     read_xform = None, read_callback = None, write_callback = None\<rparr>"


text \<open>
  What the packet codec builds as a report of an appliance is what the device reads: the
  frame is recognised, it counts as an answer, and exactly the encoded elements are processed.
\<close>

theorem codec_report_is_processed:
  assumes "encodePacket (TlvInput i) = Inr (hex, buf)" and "in_direction i = FromDevice"
    and "in_byte5 i \<in> {None, Some 2}" and "in_byte6 i \<in> {None, Some 1, Some 4}"
  shows "processData h now buf d = processTLV h now (tag_values (elements_of i)) True
    (heard (d\<lparr>lastReplySequence := Some (or_default (in_byte7 i) 0)\<rparr>))"
proof -
  let ?ps = "build (map (\<lambda>(t, v). \<lparr>tlv_t = t, tlv_l = None, tlv_v = Some v\<rparr>) (in_tlv i))"
  let ?b5 = "or_default (in_byte5 i) 2" and ?b6 = "or_default (in_byte6 i) 4" and ?b7 = "or_default (in_byte7 i) 0"
  obtain c1 c2 where buf: "buf = [0, 0, 4, 0, 0, 0, 0x87, ?b5, ?b6, ?b7, word_of_nat (length ?ps)] @ ?ps @ [c1, c2]"
    and n: "length ?ps \<le> 255"
    using assms(1,2) by (auto simp: encodePacket_def encodeTlv_def Let_def split: sum.splits if_splits)
  have l: "unat (word_of_nat (length ?ps) :: byte) = length ?ps" using n by (simp add: word_of_nat_byte_eq)
  have b: "?b5 = 2" "?b6 = 1 \<or> ?b6 = 4" using assms(3,4) by (auto simp: or_default_def)
  have tlv: "is_tlv_frame buf"
    using b l by (auto simp: is_tlv_frame_def uart_head_def declared_length_def buf)
  have rest: "\<not> is_priv_frame buf" "\<not> is_priv_response buf"
    using b(1) by (simp_all add: is_priv_frame_def is_priv_response_def buf)
  have push: "processPushFrame h now buf d = (False, d)"
    by (simp add: processPushFrame_def is_push_frame_def buf)
  have body: "subarray 11 (length buf - 2) buf = ?ps"
    by (simp add: buf subarray_def)
  have seq: "buf ! 9 = ?b7" by (simp add: buf)
  show ?thesis
    using tlv rest by (simp add: processData_def push body seq build_input Let_def)
qed

end
