(* ===== verification/MqttTopic.thy ===== *)
theory MqttTopic
  imports Prelude
begin

text \<open>
  Topics and filters of the broker: \<open>validFilter\<close>, \<open>mqttTopicMatches\<close> and \<open>idleTimeoutFor\<close> of
  \<open>cloud/mqtt-broker.ts\<close>, and the device identifiers of \<open>cloud/device_id.ts\<close>.
\<close>

definition MAX_FILTER_LENGTH :: nat where
  "MAX_FILTER_LENGTH = 1024"

abbreviation levels :: "string \<Rightarrow> string list" where
  "levels s \<equiv> split_on CHR ''/'' s"

definition has_wildcard :: "string \<Rightarrow> bool" where
  "has_wildcard l \<longleftrightarrow> CHR ''+'' \<in> set l \<or> CHR ''#'' \<in> set l"

definition validFilter :: "string \<Rightarrow> bool" where
  "validFilter flt \<longleftrightarrow>
    flt \<noteq> [] \<and> length flt \<le> MAX_FILTER_LENGTH \<and> CHR 0x00 \<notin> set flt \<and>
    list_all (\<lambda>(index, level).
        level = ''+'' \<or> (if level = ''#'' then index = length (levels flt) - 1 else \<not> has_wildcard level))
      (enumerate 0 (levels flt))"

text \<open>The loop over \<open>filterLevels\<close>: the index and the levels still to read.\<close>

fun match_loop :: "string list \<Rightarrow> string list \<Rightarrow> nat \<Rightarrow> string list \<Rightarrow> bool" where
  "match_loop topicLevels filterLevels index [] = (length topicLevels = length filterLevels)"
| "match_loop topicLevels filterLevels index (level # rest) =
    (if level = ''#'' then index = length filterLevels - 1
     else if level \<noteq> ''+'' \<and> (CHR ''#'' \<in> set level \<or> CHR ''+'' \<in> set level) then False
     else if level \<noteq> ''+'' \<and> Some level \<noteq> idx topicLevels index then False
     else match_loop topicLevels filterLevels (index + 1) rest)"

definition mqttTopicMatches :: "string \<Rightarrow> string \<Rightarrow> bool" where
  "mqttTopicMatches topic flt =
    (if topic = [] \<or> flt = [] then False
     else match_loop (levels topic) (levels flt) 0 (levels flt))"

definition MIN_IDLE_TIMEOUT_MS :: nat where
  "MIN_IDLE_TIMEOUT_MS = 5 * 60 * 1000"

definition idleTimeoutFor :: "nat \<Rightarrow> nat" where
  "idleTimeoutFor keepaliveSeconds =
    (if keepaliveSeconds * 1000 > MIN_IDLE_TIMEOUT_MS then 0
     else if keepaliveSeconds > 0 then max MIN_IDLE_TIMEOUT_MS (keepaliveSeconds * 1500)
     else MIN_IDLE_TIMEOUT_MS)"

definition safe_id_char :: "char \<Rightarrow> bool" where
  "safe_id_char c \<longleftrightarrow> alnum c \<or> c \<in> set ''._:-''"

definition isSafeDeviceId :: "string \<Rightarrow> bool" where
  "isSafeDeviceId v \<longleftrightarrow> length v > 0 \<and> length v \<le> 128 \<and> list_all safe_id_char v"

subsection \<open>What a filter means\<close>

text \<open>
  The matching relation, level by level. \<open>m_hash\<close> includes the parent level (\<open>a/#\<close> matches \<open>a\<close>);
  past the last level of the topic any number of \<open>+\<close> may precede that \<open>#\<close>.
\<close>

inductive level_match :: "string list \<Rightarrow> string list \<Rightarrow> bool" where
  m_end: "level_match [] []"
| m_hash: "level_match [''#''] ts"
| m_plus: "level_match fs ts \<Longrightarrow> level_match (''+'' # fs) (t # ts)"
| m_level: "\<not> has_wildcard l \<Longrightarrow> level_match fs ts \<Longrightarrow> level_match (l # fs) (l # ts)"
| m_past: "level_match fs [] \<Longrightarrow> fs \<noteq> [] \<Longrightarrow> level_match (''+'' # fs) []"

inductive_cases level_match_NilE: "level_match [] ts"
inductive_cases level_match_ConsE: "level_match (l # fs) ts"

lemma level_match_Nil_Nil [simp]: "level_match [] ts \<longleftrightarrow> ts = []"
  by (auto elim: level_match_NilE intro: m_end)

lemma level_match_Cons_Nil_iff:
  "level_match (l # fs) [] \<longleftrightarrow> (l = ''#'' \<and> fs = []) \<or> (l = ''+'' \<and> fs \<noteq> [] \<and> level_match fs [])"
  by (auto elim: level_match_ConsE intro: level_match.intros)

lemma match_loop_past:
  "length topicLevels \<le> index \<Longrightarrow> length filterLevels = index + length fs \<Longrightarrow>
    match_loop topicLevels filterLevels index fs \<longleftrightarrow>
    (if fs = [] then length topicLevels = index else level_match fs [])"
proof (induction fs arbitrary: index)
  case Nil
  then show ?case by auto
next
  case (Cons l fs)
  have t: "idx topicLevels index = None" using Cons.prems by (simp add: idx_def)
  have IH: "match_loop topicLevels filterLevels (Suc index) fs \<longleftrightarrow> fs \<noteq> [] \<and> level_match fs []"
    using Cons.IH [of "Suc index"] Cons.prems by auto
  show ?case
    using Cons.prems t IH by (cases fs) (auto simp: level_match_Cons_Nil_iff)
qed

lemma level_match_Cons_iff:
  "level_match (l # fs) (t # ts) \<longleftrightarrow>
    (l = ''#'' \<and> fs = []) \<or> (l = ''+'' \<and> level_match fs ts) \<or>
    (\<not> has_wildcard l \<and> l = t \<and> level_match fs ts)"
  by (auto elim: level_match_ConsE intro: level_match.intros)

lemma match_loop_iff:
  "length filterLevels = index + length fs \<Longrightarrow> index + length ts = length topicLevels \<Longrightarrow>
    drop index topicLevels = ts \<Longrightarrow>
    match_loop topicLevels filterLevels index fs \<longleftrightarrow> level_match fs ts"
proof (induction ts arbitrary: index fs)
  case Nil
  then show ?case using match_loop_past [of topicLevels index filterLevels fs] by auto
next
  case (Cons t ts)
  have t: "idx topicLevels index = Some t"
    using Cons.prems(2,3) by (simp add: idx_def nth_via_drop)
  have d: "drop (Suc index) topicLevels = ts"
    using Cons.prems(3) by (metis drop_Suc list.sel(3) tl_drop)
  show ?case
  proof (cases fs)
    case Nil
    then show ?thesis using Cons.prems by simp
  next
    case (Cons l fs')
    with Cons.IH [of "Suc index" fs'] Cons.prems d
    have "match_loop topicLevels filterLevels (Suc index) fs' \<longleftrightarrow> level_match fs' ts" by simp
    then show ?thesis
      using Cons.prems Cons t by (cases fs') (auto simp: level_match_Cons_iff has_wildcard_def)
  qed
qed

text \<open>
  Topic matching is the matching relation on levels, for every non-empty topic and filter,
  malformed filters included (they match nothing).
\<close>

theorem mqttTopicMatches_iff:
  "mqttTopicMatches topic flt \<longleftrightarrow> topic \<noteq> [] \<and> flt \<noteq> [] \<and> level_match (levels flt) (levels topic)"
  by (auto simp: mqttTopicMatches_def match_loop_iff)

text \<open>A wildcard past the end of the topic does not need a level there.\<close>

lemma plus_matches_no_level: "mqttTopicMatches ''a'' ''a/+/#''"
  by code_simp

text \<open>
  A device topic filter without wildcards matches its own topic and no other, so one
  subscription never reads a second device's topic.
\<close>

theorem exact_filter_matches:
  assumes "validFilter flt" and "\<not> has_wildcard flt"
  shows "mqttTopicMatches topic flt \<longleftrightarrow> topic = flt"
proof -
  have exact: "level_match fs ts \<longleftrightarrow> fs = ts" if "\<forall>l \<in> set fs. \<not> has_wildcard l" for fs ts
    using that
  proof (induction fs arbitrary: ts)
    case Nil
    then show ?case by auto
  next
    case (Cons l fs)
    then have "l \<noteq> ''#''" "l \<noteq> ''+''" by (auto simp: has_wildcard_def)
    with Cons show ?case
      by (cases ts) (auto simp: level_match_Cons_iff level_match_Cons_Nil_iff)
  qed
  have "set l \<subseteq> set flt" if "l \<in> set (levels flt)" for l
    using that set_split_on [of "CHR ''/''" flt] by blast
  then have "\<forall>l \<in> set (levels flt). \<not> has_wildcard l"
    using assms(2) by (auto simp: has_wildcard_def)
  then have "mqttTopicMatches topic flt \<longleftrightarrow> topic \<noteq> [] \<and> flt \<noteq> [] \<and> levels flt = levels topic"
    by (simp add: mqttTopicMatches_def match_loop_iff exact)
  moreover have "flt \<noteq> []" using assms(1) by (simp add: validFilter_def)
  ultimately show ?thesis by (metis join_split)
qed

theorem exact_filter_matches_witness:
  "mqttTopicMatches ''lime/devices/a'' ''lime/devices/b'' \<longleftrightarrow> ''lime/devices/a'' = ''lime/devices/b''"
  by (rule exact_filter_matches) (code_simp+)

end
