(* ===== verification/MqttBroker.thy ===== *)
theory MqttBroker
  imports MqttTopic
begin

text \<open>
  The appliance broker: \<open>Client\<close> and \<open>Broker\<close> of \<open>cloud/mqtt-broker.ts\<close>.

  A client is its record in the broker's ordered set \<open>clients\<close>, under a number. \<open>destroy\<close> is the
  only operation that closes a client; it also nulls \<open>mqtt\<close> and takes the client out of the set,
  after which every handler of the client is a no-op, so a client that is not in the set is a
  destroyed one. Timers are events: \<open>EvDeadline\<close> is the admission timer, armed as long as the
  client is pending. What goes out (MQTT packets, socket calls, emitted events) is appended to \<open>out\<close>.

  The access policy is the parameter \<open>pol\<close>: the five operations of \<open>MQTTAccessPolicy\<close> on a
  state of their own. Its \<open>connect\<close> is asynchronous: \<open>EvPolicy\<close> is the moment it decides,
  \<open>EvVerdict\<close> the continuation that acts on the decision.
\<close>

definition MAX_RETAINED_TOPICS :: nat where "MAX_RETAINED_TOPICS = 1024"
definition MAX_RETAINED_BYTES :: int where "MAX_RETAINED_BYTES = 8 * 1024 * 1024"
definition MAX_CLIENT_SUBSCRIPTIONS :: nat where "MAX_CLIENT_SUBSCRIPTIONS = 128"
definition MAX_SUBSCRIPTIONS :: int where "MAX_SUBSCRIPTIONS = 4096"
definition MAX_FILTER_BYTES :: int where "MAX_FILTER_BYTES = 1024 * 1024"
definition MAX_PENDING :: nat where "MAX_PENDING = 64"
definition MAX_DEFERRED_PACKETS :: nat where "MAX_DEFERRED_PACKETS = 8"
definition MAX_DEFERRED_BYTES :: nat where "MAX_DEFERRED_BYTES = 64 * 1024"

lemmas broker_limits = MAX_RETAINED_TOPICS_def MAX_RETAINED_BYTES_def MAX_CLIENT_SUBSCRIPTIONS_def
  MAX_SUBSCRIPTIONS_def MAX_FILTER_BYTES_def MAX_PENDING_def MAX_DEFERRED_PACKETS_def
  MAX_DEFERRED_BYTES_def

text \<open>\<open>PublishPacket\<close>; \<open>properties\<close> as its JSON text, a payload as its bytes.\<close>

record packet =
  topic :: string
  payload :: string
  qos :: nat
  retain :: bool
  message_id :: "nat option"
  properties :: "string option"

record connect_packet =
  username :: "string option"
  password :: "string option"
  keepalive :: "nat option"
  cp_will :: "packet option"

datatype client_state = New | Pending | Active | Closed

datatype operation =
    OpPublish packet
  | OpPubrel "nat option"
  | OpSubscribe "string list" "nat option"
  | OpUnsubscribe "string list" "nat option"
  | OpPing

record client =
  remoteAddress :: "string option"
  tls :: bool
  state :: client_state
  subscriptions :: "string list"
  will :: "packet option"
  deferred :: "(nat \<times> operation) list"
  deferredBytes :: nat
  pendingBytes :: nat
  connecting :: "connect_packet option"
  verdict :: "bool option"

datatype effect =
    Connack nat nat
  | Suback nat "nat list" "nat option"
  | Unsuback nat "nat option"
  | Deliver nat packet
  | Puback nat "nat option"
  | Pubrec nat "nat option"
  | Pubcomp nat "nat option"
  | Pingresp nat
  | SetTimeout nat nat
  | Resume nat
  | StreamEnd nat
  | StreamDestroy nat
  | EmitConnect connect_packet nat
  | EmitPublish packet "nat option"
  | EmitDisconnect nat

record 'p policy =
  pol_connect :: "'p \<Rightarrow> connect_packet \<Rightarrow> nat \<Rightarrow> string option \<Rightarrow> bool \<Rightarrow> bool \<Rightarrow> bool \<times> 'p"
  pol_publish :: "'p \<Rightarrow> packet \<Rightarrow> nat \<Rightarrow> bool \<times> 'p"
  pol_subscribe :: "'p \<Rightarrow> string \<Rightarrow> nat \<Rightarrow> bool \<times> 'p"
  pol_deliver :: "'p \<Rightarrow> string \<Rightarrow> nat \<Rightarrow> bool \<times> 'p"
  pol_disconnect :: "'p \<Rightarrow> nat \<Rightarrow> 'p"

text \<open>\<open>denyMQTTAccess\<close>.\<close>

definition denyMQTTAccess :: "'p policy" where
  "denyMQTTAccess = \<lparr>pol_connect = \<lambda>p _ _ _ _ _. (False, p), pol_publish = \<lambda>p _ _. (False, p),
    pol_subscribe = \<lambda>p _ _. (False, p), pol_deliver = \<lambda>p _ _. (False, p), pol_disconnect = \<lambda>p _. p\<rparr>"

record 'p broker =
  clients :: "(nat \<times> client) list"
  retainMap :: "(string \<times> packet) list"
  retainedBytes :: int
  budget_count :: int
  budget_bytes :: int
  pending :: "nat list"
  access :: 'p
  next_client :: nat
  out :: "effect list"

definition new_broker :: "'p \<Rightarrow> 'p broker" where
  "new_broker p = \<lparr>clients = [], retainMap = [], retainedBytes = 0, budget_count = 0, budget_bytes = 0,
    pending = [], access = p, next_client = 0, out = []\<rparr>"

definition emit :: "effect \<Rightarrow> 'p broker \<Rightarrow> 'p broker" where
  "emit e b = b\<lparr>out := out b @ [e]\<rparr>"

lemma emit_fields [simp]:
  "clients (emit e b) = clients b" "retainMap (emit e b) = retainMap b"
  "retainedBytes (emit e b) = retainedBytes b" "budget_count (emit e b) = budget_count b"
  "budget_bytes (emit e b) = budget_bytes b" "pending (emit e b) = pending b"
  "access (emit e b) = access b" "next_client (emit e b) = next_client b"
  "out (emit e b) = out b @ [e]"
  by (simp_all add: emit_def)

definition retainedSize :: "packet \<Rightarrow> int" where
  "retainedSize p = int (length (topic p) + length (payload p) +
    (case properties p of Some json \<Rightarrow> length json | None \<Rightarrow> 0))"

definition set_client :: "nat \<Rightarrow> client \<Rightarrow> 'p broker \<Rightarrow> 'p broker" where
  "set_client cid c b = b\<lparr>clients := AList.update cid c (clients b)\<rparr>"

subsection \<open>Subscriptions\<close>

text \<open>One element of \<open>packet.subscriptions.map\<close>: the broker, the granted codes, the added filters.\<close>

definition grant ::
  "'p policy \<Rightarrow> nat \<Rightarrow> 'p broker \<times> nat list \<times> string list \<Rightarrow> string \<Rightarrow> 'p broker \<times> nat list \<times> string list"
where
  "grant pol cid acc flt =
    (case acc of (b, granted, added) \<Rightarrow>
     case map_of (clients b) cid of None \<Rightarrow> acc | Some c \<Rightarrow>
       if \<not> validFilter flt then (b, granted @ [128], added)
       else (case pol_subscribe pol (access b) flt cid of (allowed, p') \<Rightarrow>
         let b = b\<lparr>access := p'\<rparr> in
         if \<not> allowed then (b, granted @ [128], added)
         else if flt \<in> set (subscriptions c) then (b, granted @ [0], added)
         else
           let bytes = int (length flt) in
           if length (subscriptions c) \<ge> MAX_CLIENT_SUBSCRIPTIONS \<or> budget_count b \<ge> MAX_SUBSCRIPTIONS \<or>
              budget_bytes b + bytes > MAX_FILTER_BYTES
           then (b, granted @ [128], added)
           else ((set_client cid (c\<lparr>subscriptions := subscriptions c @ [flt]\<rparr>) b)
                   \<lparr>budget_count := budget_count b + 1, budget_bytes := budget_bytes b + bytes\<rparr>,
                 granted @ [0], added @ [flt])))"

text \<open>The retained messages a new subscription has not seen yet.\<close>

definition send_retained ::
  "'p policy \<Rightarrow> nat \<Rightarrow> string list \<Rightarrow> string list \<Rightarrow> 'p broker \<Rightarrow> string \<times> packet \<Rightarrow> 'p broker"
where
  "send_retained pol cid previous added b r =
    (if (\<not> list_ex (mqttTopicMatches (fst r)) previous) \<and> list_ex (mqttTopicMatches (fst r)) added then
       (case pol_deliver pol (access b) (fst r) cid of (ok, p') \<Rightarrow>
          if ok then emit (Deliver cid (snd r)) (b\<lparr>access := p'\<rparr>) else b\<lparr>access := p'\<rparr>)
     else b)"

definition subscribe :: "'p policy \<Rightarrow> nat \<Rightarrow> string list \<Rightarrow> nat option \<Rightarrow> 'p broker \<Rightarrow> 'p broker" where
  "subscribe pol cid topics mid b =
    (case map_of (clients b) cid of None \<Rightarrow> b | Some c \<Rightarrow>
       let previous = subscriptions c in
       case foldl (grant pol cid) (b, [], []) topics of (b, granted, added) \<Rightarrow>
         foldl (send_retained pol cid previous added) (emit (Suback cid granted mid) b) (retainMap b))"

definition removeSubscription :: "nat \<Rightarrow> 'p broker \<Rightarrow> string \<Rightarrow> 'p broker" where
  "removeSubscription cid b flt =
    (case map_of (clients b) cid of None \<Rightarrow> b | Some c \<Rightarrow>
       if flt \<notin> set (subscriptions c) then b
       else (set_client cid (c\<lparr>subscriptions := remove1 flt (subscriptions c)\<rparr>) b)
         \<lparr>budget_count := budget_count b - 1, budget_bytes := budget_bytes b - int (length flt)\<rparr>)"

definition unsubscribe :: "nat \<Rightarrow> string list \<Rightarrow> nat option \<Rightarrow> 'p broker \<Rightarrow> 'p broker" where
  "unsubscribe cid topics mid b = emit (Unsuback cid mid) (foldl (removeSubscription cid) b topics)"

subsection \<open>Publishing\<close>

definition try_publish :: "'p policy \<Rightarrow> packet \<Rightarrow> 'p broker \<Rightarrow> nat \<Rightarrow> 'p broker" where
  "try_publish pol pk b cid =
    (case map_of (clients b) cid of None \<Rightarrow> b | Some c \<Rightarrow>
       if state c \<noteq> Active then b
       else (case pol_deliver pol (access b) (topic pk) cid of (ok, p') \<Rightarrow>
         let b = b\<lparr>access := p'\<rparr> in
         if \<not> ok then b
         else if list_ex (mqttTopicMatches (topic pk)) (subscriptions c) then emit (Deliver cid pk) b
         else b))"

definition retain_packet :: "packet \<Rightarrow> 'p broker \<Rightarrow> 'p broker" where
  "retain_packet pk b =
    (let previous = map_of (retainMap b) (topic pk);
         previousBytes = (case previous of Some q \<Rightarrow> retainedSize q | None \<Rightarrow> 0) in
     if length (payload pk) = 0 then
       b\<lparr>retainMap := AList.delete (topic pk) (retainMap b), retainedBytes := retainedBytes b - previousBytes\<rparr>
     else
       let bytes = retainedSize pk in
       if (previous = None \<and> length (retainMap b) \<ge> MAX_RETAINED_TOPICS) \<or>
          retainedBytes b - previousBytes + bytes > MAX_RETAINED_BYTES
       then b
       else b\<lparr>retainMap := AList.update (topic pk) pk (retainMap b),
              retainedBytes := retainedBytes b + (bytes - previousBytes)\<rparr>)"

definition publishAllowed :: "'p policy \<Rightarrow> packet \<Rightarrow> nat option \<Rightarrow> 'p broker \<Rightarrow> 'p broker" where
  "publishAllowed pol pk from b =
    (let b = emit (EmitPublish pk from) b;
         b = foldl (try_publish pol pk) b (map fst (clients b))
     in if retain pk then retain_packet pk b else b)"

text \<open>\<open>publish\<close>: whether the packet was allowed. A \<open>None\<close> sender is the server itself.\<close>

definition publish :: "'p policy \<Rightarrow> packet \<Rightarrow> nat option \<Rightarrow> 'p broker \<Rightarrow> 'p broker \<times> bool" where
  "publish pol pk from b =
    (case from of
       None \<Rightarrow> (publishAllowed pol pk None b, True)
     | Some cid \<Rightarrow>
         (case map_of (clients b) cid of None \<Rightarrow> (b, False) | Some c \<Rightarrow>
            if state c \<noteq> Active then (b, False)
            else (case pol_publish pol (access b) pk cid of (ok, p') \<Rightarrow>
              let b = b\<lparr>access := p'\<rparr> in
              if ok then (publishAllowed pol pk from b, True) else (b, False))))"

subsection \<open>The life of a client\<close>

text \<open>The \<open>destroy\<close> listener that \<open>accept\<close> registers.\<close>

definition on_destroy :: "'p policy \<Rightarrow> nat \<Rightarrow> packet option \<Rightarrow> 'p broker \<Rightarrow> 'p broker" where
  "on_destroy pol cid last_will b =
    (let b = b\<lparr>pending := remove1 cid (pending b)\<rparr>;
         b = (case last_will of None \<Rightarrow> b | Some w \<Rightarrow>
                let pk = \<lparr>topic = topic w, payload = payload w, qos = qos w, retain = False,
                          message_id = None, properties = None\<rparr> in
                case pol_publish pol (access b) pk cid of (ok, p') \<Rightarrow>
                  let b = b\<lparr>access := p'\<rparr> in
                  if ok then publishAllowed pol pk (Some cid) b else b);
         b = b\<lparr>access := pol_disconnect pol (access b) cid\<rparr>;
         b = emit (EmitDisconnect cid) b
     in b\<lparr>clients := AList.delete cid (clients b)\<rparr>)"

definition destroy :: "'p policy \<Rightarrow> nat \<Rightarrow> bool \<Rightarrow> 'p broker \<Rightarrow> 'p broker" where
  "destroy pol cid graceful b =
    (case map_of (clients b) cid of None \<Rightarrow> b | Some c \<Rightarrow>
       if state c = Closed then b
       else
         let wasActive = (state c = Active);
             b = set_client cid (c\<lparr>state := Closed, deferred := [], deferredBytes := 0\<rparr>) b;
             b = foldl (removeSubscription cid) b (subscriptions c);
             b = emit (if graceful then StreamEnd cid else StreamDestroy cid) b
         in on_destroy pol cid (if wasActive \<and> \<not> graceful then will c else None) b)"

definition new_client :: "string option \<Rightarrow> bool \<Rightarrow> client" where
  "new_client remote secure = \<lparr>remoteAddress = map_option (without_prefix ''::ffff:'') remote, tls = secure,
    state = New, subscriptions = [], will = None, deferred = [], deferredBytes = 0, pendingBytes = 0,
    connecting = None, verdict = None\<rparr>"

definition accept :: "string option \<Rightarrow> bool \<Rightarrow> 'p broker \<Rightarrow> 'p broker" where
  "accept remote secure b =
    (let cid = next_client b in
     if length (pending b) \<ge> MAX_PENDING then emit (StreamDestroy cid) (b\<lparr>next_client := cid + 1\<rparr>)
     else b\<lparr>next_client := cid + 1, clients := clients b @ [(cid, new_client remote secure)],
            pending := pending b @ [cid]\<rparr>)"

definition on_data :: "'p policy \<Rightarrow> nat \<Rightarrow> nat \<Rightarrow> 'p broker \<Rightarrow> 'p broker" where
  "on_data pol cid n b =
    (case map_of (clients b) cid of None \<Rightarrow> b | Some c \<Rightarrow>
       if state c \<noteq> New \<and> state c \<noteq> Pending then b
       else
         let c = c\<lparr>pendingBytes := pendingBytes c + n\<rparr>; b = set_client cid c b in
         if pendingBytes c > MAX_DEFERRED_BYTES then destroy pol cid False b else b)"

definition op_bytes :: "operation \<Rightarrow> nat" where
  "op_bytes op =
    (case op of
       OpPublish pk \<Rightarrow> length (topic pk) + length (payload pk)
     | OpPubrel _ \<Rightarrow> 4
     | OpSubscribe topics _ \<Rightarrow> foldl (\<lambda>n t. n + length t + 3) 4 topics
     | OpUnsubscribe topics _ \<Rightarrow> foldl (\<lambda>n t. n + length t + 2) 4 topics
     | OpPing \<Rightarrow> 2)"

definition run_op :: "'p policy \<Rightarrow> nat \<Rightarrow> operation \<Rightarrow> 'p broker \<Rightarrow> 'p broker" where
  "run_op pol cid op b =
    (case op of
       OpPublish pk \<Rightarrow>
         (case publish pol pk (Some cid) b of (b, ok) \<Rightarrow>
            if \<not> ok then destroy pol cid False b
            else if qos pk = 1 then emit (Puback cid (message_id pk)) b
            else if qos pk = 2 then emit (Pubrec cid (message_id pk)) b
            else b)
     | OpPubrel mid \<Rightarrow> emit (Pubcomp cid mid) b
     | OpSubscribe topics mid \<Rightarrow> subscribe pol cid topics mid b
     | OpUnsubscribe topics mid \<Rightarrow> unsubscribe cid topics mid b
     | OpPing \<Rightarrow> emit (Pingresp cid) b)"

definition do_operation :: "'p policy \<Rightarrow> nat \<Rightarrow> operation \<Rightarrow> 'p broker \<Rightarrow> 'p broker" where
  "do_operation pol cid op b =
    (case map_of (clients b) cid of None \<Rightarrow> b | Some c \<Rightarrow>
       if state c = Active then run_op pol cid op b
       else if state c \<noteq> Pending \<or> length (deferred c) \<ge> MAX_DEFERRED_PACKETS \<or>
               deferredBytes c + op_bytes op > MAX_DEFERRED_BYTES
       then destroy pol cid False b
       else set_client cid (c\<lparr>deferred := deferred c @ [(op_bytes op, op)],
                             deferredBytes := deferredBytes c + op_bytes op\<rparr>) b)"

definition on_connect :: "'p policy \<Rightarrow> nat \<Rightarrow> connect_packet \<Rightarrow> 'p broker \<Rightarrow> 'p broker" where
  "on_connect pol cid cp b =
    (case map_of (clients b) cid of None \<Rightarrow> b | Some c \<Rightarrow>
       if state c \<noteq> New then destroy pol cid False b
       else set_client cid (c\<lparr>state := Pending, connecting := Some cp\<rparr>) b)"

text \<open>\<open>policy.connect\<close> decides; for a client that is gone it runs with its signal aborted.\<close>

definition on_policy :: "'p policy \<Rightarrow> nat \<Rightarrow> connect_packet \<Rightarrow> 'p broker \<Rightarrow> 'p broker" where
  "on_policy pol cid cp b =
    (case map_of (clients b) cid of
       None \<Rightarrow> b\<lparr>access := snd (pol_connect pol (access b) cp cid None False True)\<rparr>
     | Some c \<Rightarrow>
         if state c \<noteq> Pending \<or> connecting c \<noteq> Some cp \<or> verdict c \<noteq> None then b
         else (case pol_connect pol (access b) cp cid (remoteAddress c) (tls c) False of (ok, p') \<Rightarrow>
           set_client cid (c\<lparr>verdict := Some ok\<rparr>) (b\<lparr>access := p'\<rparr>)))"

definition run_deferred :: "'p policy \<Rightarrow> nat \<Rightarrow> 'p broker \<Rightarrow> nat \<times> operation \<Rightarrow> 'p broker" where
  "run_deferred pol cid b d =
    (case map_of (clients b) cid of None \<Rightarrow> b | Some c \<Rightarrow>
       if state c \<noteq> Active then b else run_op pol cid (snd d) b)"

definition on_verdict :: "'p policy \<Rightarrow> nat \<Rightarrow> bool \<Rightarrow> 'p broker \<Rightarrow> 'p broker" where
  "on_verdict pol cid stream_destroyed b =
    (case map_of (clients b) cid of None \<Rightarrow> b | Some c \<Rightarrow>
     case (connecting c, verdict c) of
       (Some cp, Some allowed) \<Rightarrow>
         if state c \<noteq> Pending \<or> stream_destroyed then b
         else if \<not> allowed then destroy pol cid True (emit (Connack cid 5) b)
         else
           let b = b\<lparr>pending := remove1 cid (pending b)\<rparr>;
               b = emit (Connack cid 0) b;
               b = set_client cid (c\<lparr>will := cp_will cp, state := Active, deferred := [], deferredBytes := 0\<rparr>) b;
               b = emit (SetTimeout cid (idleTimeoutFor (case keepalive cp of Some k \<Rightarrow> k | None \<Rightarrow> 0))) b;
               b = emit (EmitConnect cp cid) b;
               b = foldl (run_deferred pol cid) b (deferred c)
           in (case map_of (clients b) cid of
                 Some c' \<Rightarrow> if state c' = Active then emit (Resume cid) b else b
               | None \<Rightarrow> b)
     | _ \<Rightarrow> b)"

text \<open>\<open>EvFail\<close> is every path to \<open>destroy()\<close>: close, error, idle timeout, a policy that throws.\<close>

datatype event =
    EvAccept "string option" bool
  | EvData nat nat
  | EvConnect nat connect_packet
  | EvPolicy nat connect_packet
  | EvVerdict nat bool
  | EvOperation nat operation
  | EvDeadline nat
  | EvDisconnect nat
  | EvFail nat
  | EvServerPublish packet

fun broker_step :: "'p policy \<Rightarrow> 'p broker \<Rightarrow> event \<Rightarrow> 'p broker" where
  "broker_step pol b (EvAccept remote secure) = accept remote secure b"
| "broker_step pol b (EvData cid n) = on_data pol cid n b"
| "broker_step pol b (EvConnect cid cp) = on_connect pol cid cp b"
| "broker_step pol b (EvPolicy cid cp) = on_policy pol cid cp b"
| "broker_step pol b (EvVerdict cid gone) = on_verdict pol cid gone b"
| "broker_step pol b (EvOperation cid op) = do_operation pol cid op b"
| "broker_step pol b (EvDeadline cid) = (if cid \<in> set (pending b) then destroy pol cid False b else b)"
| "broker_step pol b (EvDisconnect cid) = destroy pol cid True b"
| "broker_step pol b (EvFail cid) = destroy pol cid False b"
| "broker_step pol b (EvServerPublish pk) = fst (publish pol pk None b)"

definition broker_run :: "'p policy \<Rightarrow> 'p \<Rightarrow> event list \<Rightarrow> 'p broker" where
  "broker_run pol p evs = foldl (broker_step pol) (new_broker p) evs"

end
