(* ===== verification/BrokerSafety.thy ===== *)
theory BrokerSafety
  imports BrokerInv
begin

text \<open>
  Safety properties of the broker that hold after every event. The locale \<open>broker_safety\<close> says
  what a property has to survive: the handful of elementary actions the handlers of \<open>MqttBroker\<close>
  are made of. Inside it the property is carried through every handler once; each safety
  property of the broker is an interpretation.
\<close>

definition active :: "nat \<Rightarrow> 'p broker \<Rightarrow> bool" where
  "active cid b \<longleftrightarrow> (\<exists>c. map_of (clients b) cid = Some c \<and> state c = Active)"

locale broker_safety =
  fixes pol :: "'p policy" and P :: "'p broker \<Rightarrow> bool"
  assumes P_access: "P b \<Longrightarrow> P (b\<lparr>access := p\<rparr>)"
    and P_pending: "P b \<Longrightarrow> P (b\<lparr>pending := ps\<rparr>)"
    and P_budget: "P b \<Longrightarrow> P (b\<lparr>budget_count := n, budget_bytes := m\<rparr>)"
    and P_next: "P b \<Longrightarrow> P (b\<lparr>next_client := k\<rparr>)"
    and P_emit: "P b \<Longrightarrow> (\<And>cid pk. e \<noteq> Deliver cid pk) \<Longrightarrow> P (emit e b)"
    and P_deliver: "P b \<Longrightarrow> active cid b \<Longrightarrow> pol_deliver pol q t cid = (True, q') \<Longrightarrow>
      t = topic pk \<or> (t, pk) \<in> set (retainMap b) \<Longrightarrow> P (emit (Deliver cid pk) b)"
    and P_set: "P b \<Longrightarrow> (state c = Active \<Longrightarrow> active cid b) \<Longrightarrow> P (set_client cid c b)"
    and P_admit: "P b \<Longrightarrow> P (set_client cid c (emit (Connack cid 0) b))"
    and P_new: "P b \<Longrightarrow> state c \<noteq> Active \<Longrightarrow>
      P (b\<lparr>next_client := k, clients := clients b @ [(cid, c)], pending := ps\<rparr>)"
    and P_gone: "P b \<Longrightarrow> P (b\<lparr>clients := AList.delete cid (clients b)\<rparr>)"
    and P_retain: "P b \<Longrightarrow> P (retain_packet pk b)"
begin

lemma P_try_publish: "P b \<Longrightarrow> P (try_publish pol pk b cid)"
  by (auto simp: try_publish_def Let_def active_def intro!: P_access P_deliver
      split: option.split prod.split)

lemma P_publishAllowed: "P b \<Longrightarrow> P (publishAllowed pol pk from b)"
  unfolding publishAllowed_def Let_def
  by (auto intro!: P_retain foldl_inv [where P = P] P_try_publish P_emit)

lemma P_publish: "P b \<Longrightarrow> P (fst (publish pol pk from b))"
  by (auto simp: publish_def Let_def intro!: P_publishAllowed P_access split: option.split prod.split)

lemma P_removeSubscription: "P b \<Longrightarrow> P (removeSubscription cid b flt)"
  unfolding removeSubscription_def
  by (auto simp: active_def intro!: P_budget P_set split: option.split)

lemma P_on_destroy: "P b \<Longrightarrow> P (on_destroy pol cid w b)"
proof -
  have gone: "P b \<Longrightarrow> P (let b = b\<lparr>access := pol_disconnect pol (access b) cid\<rparr>; b = emit (EmitDisconnect cid) b
      in b\<lparr>clients := AList.delete cid (clients b)\<rparr>)" for b
    unfolding Let_def by (intro P_gone P_emit P_access) simp_all
  show "P b \<Longrightarrow> P (on_destroy pol cid w b)"
    unfolding on_destroy_def
    by (subst (1) Let_def, subst (1) Let_def, rule gone)
      (auto simp: Let_def intro!: P_publishAllowed P_access P_pending split: option.split prod.split)
qed

lemma P_destroy: "P b \<Longrightarrow> P (destroy pol cid g b)"
  unfolding destroy_def Let_def
  by (auto intro!: P_on_destroy P_emit foldl_inv [where P = P] P_removeSubscription P_set split: option.split)

lemma grant_active: "active j (fst acc) \<Longrightarrow> active j (fst (grant pol cid acc flt))"
  by (auto simp: grant_def active_def set_client_def Let_def split: option.split prod.split)

lemma P_grant: "P (fst acc) \<Longrightarrow> P (fst (grant pol cid acc flt))"
proof -
  assume "P (fst acc)"
  then show ?thesis
    unfolding grant_def
    by (auto simp: Let_def active_def intro!: P_access P_budget P_set split: option.split prod.split)
qed

lemma foldl_grant: "P (fst acc) \<Longrightarrow> active j (fst acc) \<Longrightarrow>
    P (fst (foldl (grant pol cid) acc fs)) \<and> active j (fst (foldl (grant pol cid) acc fs))"
  by (induction fs arbitrary: acc) (simp_all add: P_grant grant_active)

lemma P_send_retained:
  "P b \<and> active cid b \<and> set rs \<subseteq> set (retainMap b) \<Longrightarrow>
    P (foldl (send_retained pol cid prev added) b rs)"
proof (induction rs arbitrary: b)
  case Nil
  then show ?case by simp
next
  case (Cons r rs)
  obtain ok q where q: "pol_deliver pol (access b) (fst r) cid = (ok, q)"
    by (cases "pol_deliver pol (access b) (fst r) cid")
  have "P (send_retained pol cid prev added b r)"
    using Cons.prems q
    by (auto simp: send_retained_def active_def intro!: P_access P_deliver [where q = "access b"])
  moreover have "active cid (send_retained pol cid prev added b r)"
    "retainMap (send_retained pol cid prev added b r) = retainMap b"
    using Cons.prems q by (auto simp: send_retained_def active_def)
  ultimately show ?case using Cons by simp
qed

lemma P_subscribe: "P b \<Longrightarrow> active cid b \<Longrightarrow> P (subscribe pol cid topics mid b)"
proof -
  assume b: "P b" "active cid b"
  obtain b' granted added where g: "foldl (grant pol cid) (b, [], []) topics = (b', granted, added)"
    by (cases "foldl (grant pol cid) (b, [], []) topics")
  with foldl_grant [of "(b, [], [])" cid cid topics] b have "P b'" "active cid b'" by simp_all
  then have "P (emit (Suback cid granted mid) b')" "active cid (emit (Suback cid granted mid) b')"
    by (auto simp: active_def intro: P_emit)
  with g show ?thesis
    by (auto simp: subscribe_def Let_def b intro!: P_send_retained split: option.split)
qed

lemma P_run_op: "P b \<Longrightarrow> active cid b \<Longrightarrow> P (run_op pol cid op b)"
proof (cases op)
  case (OpPublish pk)
  assume b: "P b"
  obtain b' ok where p: "publish pol pk (Some cid) b = (b', ok)" by (cases "publish pol pk (Some cid) b")
  with P_publish [OF b, of pk "Some cid"] have "P b'" by simp
  with OpPublish p show ?thesis by (auto simp: run_op_def intro!: P_destroy P_emit)
next
  case (OpUnsubscribe topics mid)
  assume "P b"
  then have "P (foldl (removeSubscription cid) b topics)"
    by (intro foldl_inv [where P = P] P_removeSubscription)
  with OpUnsubscribe show ?thesis by (auto simp: run_op_def unsubscribe_def intro!: P_emit)
qed (auto simp: run_op_def intro!: P_subscribe P_emit)

lemma P_do_operation: "P b \<Longrightarrow> P (do_operation pol cid op b)"
  unfolding do_operation_def
  by (auto simp: active_def intro!: P_run_op P_destroy P_set split: option.split)

lemma P_on_data: "P b \<Longrightarrow> P (on_data pol cid n b)"
  unfolding on_data_def by (auto simp: Let_def intro!: P_destroy P_set split: option.split)

lemma P_on_verdict: "P b \<Longrightarrow> P (on_verdict pol cid gone b)"
proof -
  assume b: "P b"
  have run: "P (run_deferred pol cid b d)" if "P b" for b d
    using that by (auto simp: run_deferred_def active_def intro!: P_run_op split: option.split)
  have resume: "P (case map_of (clients b) cid of Some c' \<Rightarrow> if state c' = Active then emit (Resume cid) b else b
      | None \<Rightarrow> b)" if "P b" for b
    using that by (auto intro!: P_emit split: option.split)
  have go: "P (foldl (run_deferred pol cid)
      (emit (EmitConnect cp cid) (emit (SetTimeout cid n)
        (set_client cid c (emit (Connack cid 0) (b\<lparr>pending := remove1 cid (pending b)\<rparr>))))) ds)" for cp n c ds
    using b by (intro foldl_inv [where P = P] run P_emit P_admit P_pending) simp_all
  show ?thesis
    unfolding on_verdict_def Let_def
    by (auto intro!: b P_destroy P_emit resume [unfolded option.case_eq_if] go
        simp: option.case_eq_if simp del: foldl_Cons split: option.split)
qed

lemma P_step: "P b \<Longrightarrow> P (broker_step pol b ev)"
proof (cases ev)
  case (EvAccept remote secure)
  assume "P b"
  moreover have "state (new_client remote secure) \<noteq> Active" by (simp add: new_client_def)
  ultimately show ?thesis
    using EvAccept by (auto simp: accept_def Let_def intro!: P_emit P_next P_new)
next
  case (EvConnect cid cp)
  assume "P b"
  with EvConnect show ?thesis by (auto simp: on_connect_def intro!: P_destroy P_set split: option.split)
next
  case (EvPolicy cid cp)
  assume "P b"
  with EvPolicy show ?thesis
    by (auto simp: on_policy_def active_def intro!: P_access P_set split: option.split prod.split)
qed (auto intro!: P_on_data P_on_verdict P_do_operation P_destroy P_publish)

lemma P_run: "P (new_broker p) \<Longrightarrow> P (broker_run pol p evs)"
  unfolding broker_run_def by (intro foldl_inv [where P = P]) (rule P_step)

end

subsection \<open>Retained messages\<close>

definition retain_inv :: "'p broker \<Rightarrow> bool" where
  "retain_inv b \<longleftrightarrow>
    distinct (map fst (retainMap b)) \<and> length (retainMap b) \<le> MAX_RETAINED_TOPICS \<and>
    retainedBytes b = (\<Sum>(_, pk)\<leftarrow>retainMap b. retainedSize pk) \<and> retainedBytes b \<le> MAX_RETAINED_BYTES \<and>
    (\<forall>r \<in> set (retainMap b). fst r = topic (snd r) \<and> payload (snd r) \<noteq> [])"

lemma retain_inv_kept: "kept b = kept b' \<Longrightarrow> retain_inv b \<Longrightarrow> retain_inv b'"
  by (simp add: retain_inv_def kept_def)

lemma set_AList_update_subset: "set (AList.update k v m) \<subseteq> insert (k, v) (set m)"
  by (induction m) auto

lemma retain_packet_inv:
  assumes inv: "retain_inv b"
  shows "retain_inv (retain_packet pk b)"
proof -
  let ?w = "\<lambda>(_ :: string, pk). retainedSize pk"
  have d: "distinct (map fst (retainMap b))" and bytes: "retainedBytes b = sum_list (map ?w (retainMap b))"
    using inv by (simp_all add: retain_inv_def)
  have size: "0 \<le> retainedSize q" for q by (simp add: retainedSize_def)
  have upd: "sum_list (map ?w (AList.update (topic pk) pk (retainMap b))) =
      retainedBytes b + (retainedSize pk - (case map_of (retainMap b) (topic pk) of Some q \<Rightarrow> retainedSize q | None \<Rightarrow> 0))"
    using sum_list_AList_update [OF d, of ?w "topic pk" pk] bytes by (auto split: option.splits)
  have del: "sum_list (map ?w (AList.delete (topic pk) (retainMap b))) =
      retainedBytes b - (case map_of (retainMap b) (topic pk) of Some q \<Rightarrow> retainedSize q | None \<Rightarrow> 0)"
    using sum_list_AList_delete [OF d, of "topic pk" _ ?w] bytes
    by (auto simp: AList_delete_notin map_of_eq_None_iff_notin split: option.splits)
  show ?thesis
  proof (cases "payload pk = []")
    case True
    have "distinct (map fst (AList.delete (topic pk) (retainMap b)))" using d by (rule AList.distinct_delete)
    moreover have "length (AList.delete (topic pk) (retainMap b)) \<le> length (retainMap b)"
      by (rule length_AList_delete_le)
    moreover have "set (AList.delete (topic pk) (retainMap b)) \<subseteq> set (retainMap b)"
      by (auto simp: AList.delete_eq)
    moreover have "0 \<le> (case map_of (retainMap b) (topic pk) of Some q \<Rightarrow> retainedSize q | None \<Rightarrow> 0)"
      using size by (simp split: option.split)
    ultimately show ?thesis
      using True inv del unfolding retain_packet_def retain_inv_def
      by (auto simp: Let_def)
  next
    case False
    have "length (AList.update (topic pk) pk (retainMap b)) \<le> MAX_RETAINED_TOPICS"
      if "map_of (retainMap b) (topic pk) = None \<Longrightarrow> length (retainMap b) < MAX_RETAINED_TOPICS"
      using that inv by (auto simp: length_AList_update retain_inv_def map_of_eq_None_iff)
    then show ?thesis
      using False inv d set_AList_update_subset [of "topic pk" pk "retainMap b"] upd
      unfolding retain_packet_def retain_inv_def
      by (auto simp: Let_def not_le not_less)
  qed
qed

interpretation retained: broker_safety pol retain_inv
proof (unfold_locales, goal_cases)
  case (11 b pk)
  then show ?case by (rule retain_packet_inv)
qed (auto simp: retain_inv_def set_client_def)

text \<open>
  What the broker retains is bounded: at most 1024 messages and 8 MiB, with the byte
  count exact; each is a non-empty message of the topic it is kept under, and a topic is kept
  once.
\<close>

theorem broker_retained_bounds:
  "let b = broker_run pol p evs in
    length (retainMap b) \<le> 1024 \<and> distinct (map fst (retainMap b)) \<and>
    retainedBytes b = (\<Sum>(_, pk)\<leftarrow>retainMap b. retainedSize pk) \<and> retainedBytes b \<le> 8388608 \<and>
    list_all (\<lambda>(t, pk). topic pk = t \<and> payload pk \<noteq> []) (retainMap b)"
proof -
  have "retain_inv (broker_run pol p evs)"
    by (rule retained.P_run) (simp add: retain_inv_def new_broker_def broker_limits)
  then show ?thesis
    by (auto simp: retain_inv_def broker_limits Let_def list_all_iff)
qed

subsection \<open>Nothing is delivered before admission\<close>

definition after_connack :: "effect list \<Rightarrow> bool" where
  "after_connack es \<longleftrightarrow>
    (\<forall>xs cid pk ys. es = xs @ Deliver cid pk # ys \<longrightarrow> Connack cid 0 \<in> set xs)"

lemma after_connack_snoc:
  "after_connack (es @ [e]) \<longleftrightarrow>
    after_connack es \<and> (\<forall>cid pk. e = Deliver cid pk \<longrightarrow> Connack cid 0 \<in> set es)"
  unfolding after_connack_def
proof (intro iffI conjI allI impI; (elim conjE)?)
  fix xs cid pk ys
  assume "\<forall>xs cid pk ys. es @ [e] = xs @ Deliver cid pk # ys \<longrightarrow> Connack cid 0 \<in> set xs"
    and "es = xs @ Deliver cid pk # ys"
  then show "Connack cid 0 \<in> set xs" by (metis append.assoc append_Cons)
next
  fix cid pk
  assume "\<forall>xs cid pk ys. es @ [e] = xs @ Deliver cid pk # ys \<longrightarrow> Connack cid 0 \<in> set xs"
    and "e = Deliver cid pk"
  then show "Connack cid 0 \<in> set es" by blast
next
  fix xs cid pk ys
  assume 1: "\<forall>xs cid pk ys. es = xs @ Deliver cid pk # ys \<longrightarrow> Connack cid 0 \<in> set xs"
    and 2: "\<forall>cid pk. e = Deliver cid pk \<longrightarrow> Connack cid 0 \<in> set es"
    and 3: "es @ [e] = xs @ Deliver cid pk # ys"
  show "Connack cid 0 \<in> set xs"
  proof (cases ys rule: rev_cases)
    case Nil
    with 2 3 show ?thesis by simp
  next
    case (snoc zs z)
    with 3 have "es = xs @ Deliver cid pk # zs" by simp
    with 1 show ?thesis by blast
  qed
qed

definition admission_inv :: "'p broker \<Rightarrow> bool" where
  "admission_inv b \<longleftrightarrow> after_connack (out b) \<and> (\<forall>cid. active cid b \<longrightarrow> Connack cid 0 \<in> set (out b))"

lemma active_update:
  "active j (b\<lparr>access := p\<rparr>) = active j b" "active j (b\<lparr>pending := ps\<rparr>) = active j b"
  "active j (b\<lparr>budget_count := n, budget_bytes := m\<rparr>) = active j b"
  "active j (b\<lparr>next_client := k\<rparr>) = active j b" "active j (emit e b) = active j b"
  "active j (retain_packet pk b) = active j b" "out (retain_packet pk b) = out b"
  "active j (set_client cid c b) = (if j = cid then state c = Active else active j b)"
  "out (set_client cid c b) = out b"
  by (auto simp: active_def retain_packet_def set_client_def Let_def)

lemma active_new:
  "state c \<noteq> Active \<Longrightarrow> active j (b\<lparr>next_client := k, clients := clients b @ [(cid, c)], pending := ps\<rparr>) \<Longrightarrow> active j b"
  by (auto simp: active_def map_add_Some_iff split: if_splits)

lemma active_gone: "active j (b\<lparr>clients := AList.delete cid (clients b)\<rparr>) \<Longrightarrow> active j b"
  by (auto simp: active_def split: if_splits)

interpretation admission: broker_safety pol admission_inv
proof (unfold_locales, goal_cases)
  case (9 b c k cid ps)
  then show ?case by (auto simp: admission_inv_def dest: active_new)
next
  case (10 b cid)
  then show ?case by (auto simp: admission_inv_def dest: active_gone)
qed (auto simp: admission_inv_def active_update after_connack_snoc split: if_splits)

text \<open>
  No message reaches a connection before it was admitted: a delivery to a client comes
  after the CONNACK with return code 0 for that client.
\<close>

theorem broker_delivers_after_connack:
  "after_connack (out (broker_run pol p evs))"
  using admission.P_run [of p pol evs]
  by (simp add: admission_inv_def new_broker_def after_connack_def active_def)

subsection \<open>The access policy decides\<close>

text \<open>
  The contract a policy gives its client the broker: whatever its state, it lets a client read
  only topics of the class \<open>readable\<close>. Every implementation of the interface promises it for
  a class of its own.
\<close>

locale mqtt_policy =
  fixes pol :: "'p policy" and readable :: "string \<Rightarrow> bool"
  assumes deliver_readable: "pol_deliver pol p t cid = (True, p') \<Longrightarrow> readable t"
begin

definition readable_inv :: "'p broker \<Rightarrow> bool" where
  "readable_inv b \<longleftrightarrow> (\<forall>r \<in> set (retainMap b). fst r = topic (snd r)) \<and>
    (\<forall>cid pk. Deliver cid pk \<in> set (out b) \<longrightarrow> readable (topic pk))"

lemma readable_safety: "broker_safety pol readable_inv"
proof (unfold_locales, goal_cases)
  case (6 b cid q t q' pk)
  then show ?case using deliver_readable by (auto simp: readable_inv_def)
next
  case (11 b pk)
  then show ?case
    using set_AList_update_subset [of "topic pk" pk "retainMap b"]
    by (auto simp: readable_inv_def active_update retain_packet_def Let_def AList.delete_eq
        split: if_splits)
qed (auto simp: readable_inv_def active_update set_client_def)

lemma deliveries_readable: "Deliver cid pk \<in> set (out (broker_run pol p evs)) \<Longrightarrow> readable (topic pk)"
  using broker_safety.P_run [OF readable_safety, of p evs]
  by (simp add: readable_inv_def new_broker_def)

end

interpretation deny: mqtt_policy denyMQTTAccess "\<lambda>_. False"
  by unfold_locales (simp add: denyMQTTAccess_def)

text \<open>
  The default policy is closed: a broker without a configured policy delivers nothing,
  whatever the connections send.
\<close>

theorem deny_delivers_nothing:
  "Deliver cid pk \<notin> set (out (broker_run denyMQTTAccess p evs))"
  by (auto dest: deny.deliveries_readable)

end
