(* ===== verification/JsValues.thy ===== *)
theory JsValues
  imports Prelude
begin

text \<open>
  Values the sources read from outside: what \<open>JSON.parse\<close> returns and what \<open>net.isIP\<close> accepts.
  The parser itself is a parameter of the components that call it. A number keeps its integer
  value; objects are in the order of their keys.
\<close>

datatype json =
    JNull
  | JBool bool
  | JNum int
  | JStr string
  | JArr "json list"
  | JObj "(string \<times> json) list"

text \<open>A property read, \<open>undefined\<close> being \<open>None\<close>; reading one of a value without properties too.\<close>

fun field :: "string \<Rightarrow> json \<Rightarrow> json option" where
  "field k (JObj kvs) = map_of kvs k"
| "field k _ = None"

fun truthy :: "json option \<Rightarrow> bool" where
  "truthy None = False"
| "truthy (Some JNull) = False"
| "truthy (Some (JBool b)) = b"
| "truthy (Some (JNum n)) = (n \<noteq> 0)"
| "truthy (Some (JStr s)) = (s \<noteq> [])"
| "truthy (Some _) = True"

text \<open>
  \<open>net.isIP(s) === 4\<close>: four decimal numbers up to 255 without leading zeros, separated by dots.
\<close>

definition ipv4_part :: "string \<Rightarrow> bool" where
  "ipv4_part p \<longleftrightarrow> p \<noteq> [] \<and> length p \<le> 3 \<and> list_all digit p \<and> decimal p \<le> 255 \<and>
    (length p > 1 \<longrightarrow> hd p \<noteq> CHR ''0'')"

definition isIPv4 :: "string \<Rightarrow> bool" where
  "isIPv4 s \<longleftrightarrow> length (split_on CHR ''.'' s) = 4 \<and> list_all ipv4_part (split_on CHR ''.'' s)"

lemma isIPv4_examples: "isIPv4 ''192.168.0.12'' \<and> \<not> isIPv4 ''192.168.0.256'' \<and> \<not> isIPv4 ''10.0.0'' \<and> \<not> isIPv4 ''10.0.0.01''"
  by code_simp

end
