(* ===== verification/MqttAccess.thy ===== *)
theory MqttAccess
  imports BrokerSafety JsValues
begin

text \<open>
  Who may talk to the broker: \<open>cloud/mqtt-access.ts\<close>. The state of \<open>DeviceMQTTAccess\<close> is the
  sessions of the clients and the claims of the inventory entries; the inventory, which the
  sources read afresh at every check, is a field that may change between any two operations.
  \<open>JSON.parse\<close> and SHA-256 are parameters, and so is the optional resolver of the client's
  address, whose answer for a client is \<open>resolveSource\<close>.
\<close>

record inventory_entry =
  entryId :: string
  ip :: string
  deviceId :: "string option"
  autoLink :: "bool option"
  entry_platform :: "platform option"

record account =
  acc_username :: string
  acc_password :: string
  acc_device_ids :: "string list"
  acc_allow_publish :: bool

record app_session =
  s_entryId :: string
  s_ip :: string
  s_id :: "string option"
  s_linked :: bool
  s_revoked :: bool

datatype session = Appliance app_session | Diagnostic "string list" bool

record access_state =
  inventory :: "inventory_entry list"
  sessions :: "(nat \<times> session) list"
  claims :: "(string \<times> (string \<times> nat list)) list"
  source_ips :: "(nat \<times> string) list"

record access_config =
  accounts :: "account list"
  json_parse :: "string \<Rightarrow> json option"
  sha256 :: "string \<Rightarrow> buffer"
  resolveSource :: "(nat \<Rightarrow> string option) option"

definition init_access :: "inventory_entry list \<Rightarrow> access_state" where
  "init_access entries = \<lparr>inventory = entries, sessions = [], claims = [], source_ips = []\<rparr>"

subsection \<open>Topics, payloads, accounts\<close>

definition normalizeMQTTAddress :: "string option \<Rightarrow> string option" where
  "normalizeMQTTAddress remote =
    (case map_option (without_prefix ''::ffff:'') remote of
       Some value \<Rightarrow> if value \<noteq> [] \<and> isIPv4 value then Some value else None
     | None \<Rightarrow> None)"

datatype topic_kind = Lime | Message | Provisioning

text \<open>The suffix that starts at \<open>s.lastIndexOf(sub)\<close>.\<close>

fun last_occurrence :: "string \<Rightarrow> string \<Rightarrow> string option" where
  "last_occurrence sub [] = None"
| "last_occurrence sub (x # xs) =
    (case last_occurrence sub xs of
       Some r \<Rightarrow> Some r
     | None \<Rightarrow> if starts_with sub (x # xs) then Some (x # xs) else None)"

text \<open>\<open>^prefix([^/]+)$\<close> followed by \<open>isSafeDeviceId\<close> on the group.\<close>

definition safe_after :: "string \<Rightarrow> string \<Rightarrow> string option" where
  "safe_after pre s =
    (case strip_prefix pre s of
       Some did \<Rightarrow> if did \<noteq> [] \<and> CHR ''/'' \<notin> set did \<and> isSafeDeviceId did then Some did else None
     | None \<Rightarrow> None)"

definition parseDeviceTopic :: "string \<Rightarrow> (topic_kind \<times> string) option" where
  "parseDeviceTopic t =
    (if t = [] \<or> length t > 1024 \<or> CHR ''+'' \<in> set t \<or> CHR ''#'' \<in> set t \<or> CHR 0x00 \<in> set t then None
     else case safe_after ''lime/devices/'' t of
       Some did \<Rightarrow> Some (Lime, did)
     | None \<Rightarrow>
         (let normalized = (if starts_with ''clip/'' t then t
                            else case last_occurrence ''/clip/'' t of Some r \<Rightarrow> tl r | None \<Rightarrow> t)
          in case safe_after ''clip/message/devices/'' normalized of
               Some did \<Rightarrow> Some (Message, did)
             | None \<Rightarrow>
                 (case safe_after ''clip/provisioning/devices/'' normalized of
                    Some did \<Rightarrow> Some (Provisioning, did)
                  | None \<Rightarrow> None)))"

definition parseDevicePayload :: "(string \<Rightarrow> json option) \<Rightarrow> string \<Rightarrow> json option" where
  "parseDevicePayload parse_json pl =
    (if length pl > 64 * 1024 then None
     else
       let txt = (if ends_with [CHR 0x00] pl then butlast pl else pl) in
       case parse_json txt of
         Some (JObj kvs) \<Rightarrow> Some (JObj kvs)
       | _ \<Rightarrow> None)"

definition username_char :: "char \<Rightarrow> bool" where
  "username_char c \<longleftrightarrow> alnum c \<or> c \<in> set ''_.-''"

fun json_strings :: "json list \<Rightarrow> string list option" where
  "json_strings [] = Some []"
| "json_strings (JStr s # js) = map_option ((#) s) (json_strings js)"
| "json_strings (_ # js) = None"

text \<open>One element of the configured list; \<open>None\<close> is \<open>throw invalid()\<close>.\<close>

definition allow_value :: "json option \<Rightarrow> bool option" where
  "allow_value j = (case j of None \<Rightarrow> Some False | Some (JBool ap) \<Rightarrow> Some ap | _ \<Rightarrow> None)"

definition validate_account :: "string list \<Rightarrow> json \<Rightarrow> account option" where
  "validate_account usernames value =
    (case (field ''username'' value, field ''password'' value) of
       (Some (JStr user), Some (JStr pass)) \<Rightarrow>
         (case field ''device_ids'' value of
            Some (JArr js) \<Rightarrow>
              (case (json_strings js, allow_value (field ''allow_publish'' value)) of
                 (Some ids, Some ap) \<Rightarrow>
                   if length user \<ge> 1 \<and> length user \<le> 64 \<and> list_all username_char user \<and>
                      user \<notin> set usernames \<and> length pass \<ge> 16 \<and> length pass \<le> 256 \<and>
                      length ids \<ge> 1 \<and> length ids \<le> 128 \<and> list_all isSafeDeviceId ids \<and> distinct ids
                   then Some \<lparr>acc_username = user, acc_password = pass, acc_device_ids = ids,
                              acc_allow_publish = ap\<rparr>
                   else None
               | _ \<Rightarrow> None)
          | _ \<Rightarrow> None)
     | _ \<Rightarrow> None)"

fun validate_accounts :: "string list \<Rightarrow> json list \<Rightarrow> account list option" where
  "validate_accounts usernames [] = Some []"
| "validate_accounts usernames (v # vs) =
    (case validate_account usernames v of
       None \<Rightarrow> None
     | Some a \<Rightarrow> map_option ((#) a) (validate_accounts (acc_username a # usernames) vs))"

definition validateMQTTDiagnostics :: "json option \<Rightarrow> account list option" where
  "validateMQTTDiagnostics input =
    (case input of
       None \<Rightarrow> Some []
     | Some (JArr vs) \<Rightarrow> if length vs > 32 then None else validate_accounts [] vs
     | Some _ \<Rightarrow> None)"

subsection \<open>Sessions and claims\<close>

definition set_session :: "nat \<Rightarrow> app_session \<Rightarrow> access_state \<Rightarrow> access_state" where
  "set_session cid s st = st\<lparr>sessions := AList.update cid (Appliance s) (sessions st)\<rparr>"

definition current :: "nat \<Rightarrow> app_session \<Rightarrow> access_state \<Rightarrow> inventory_entry option \<times> access_state" where
  "current cid s st =
    (if s_revoked s then (None, st)
     else
       let entries = inventory st;
           matches = filter (\<lambda>e. entryId e = s_entryId s) entries;
           entry = (case matches of [e] \<Rightarrow> Some e | _ \<Rightarrow> None)
       in case entry of
            None \<Rightarrow> (None, set_session cid (s\<lparr>s_revoked := True\<rparr>) st)
          | Some e \<Rightarrow>
              if ip e \<noteq> s_ip s \<or> autoLink e = Some False \<or> entry_platform e = Some Thinq1 \<or>
                 length (filter (\<lambda>other. ip other = s_ip s) entries) \<noteq> 1 \<or>
                 (deviceId e \<noteq> None \<and> s_id s \<noteq> None \<and> deviceId e \<noteq> s_id s) \<or>
                 (s_linked s \<and> deviceId e \<noteq> s_id s) \<or>
                 (s_id s \<noteq> None \<and> s_id s \<noteq> Some [] \<and>
                  list_ex (\<lambda>other. entryId other \<noteq> s_entryId s \<and> deviceId other = s_id s) entries)
              then (None, set_session cid (s\<lparr>s_revoked := True\<rparr>) st)
              else if deviceId e \<noteq> None \<and> deviceId e \<noteq> Some [] \<and> s_id s \<noteq> None \<and> s_id s \<noteq> Some []
              then (Some e, set_session cid (s\<lparr>s_linked := True\<rparr>) st)
              else (Some e, st))"

text \<open>The loop of \<open>bind\<close> that drops the clients that lost their claim.\<close>

definition still_claims :: "access_state \<times> nat list \<Rightarrow> nat \<Rightarrow> access_state \<times> nat list" where
  "still_claims acc previous =
    (case acc of (st, kept_clients) \<Rightarrow>
     case map_of (sessions st) previous of
       Some (Appliance prior) \<Rightarrow>
         (case current previous prior st of
            (Some _, st') \<Rightarrow> (st', kept_clients @ [previous])
          | (None, st') \<Rightarrow> (st', kept_clients))
     | _ \<Rightarrow> (st, kept_clients))"

definition purge_claim :: "access_state \<Rightarrow> string \<Rightarrow> access_state" where
  "purge_claim st eid =
    (case map_of (claims st) eid of
       None \<Rightarrow> st
     | Some (did, cs) \<Rightarrow>
         (case foldl still_claims (st, []) cs of (st', cs') \<Rightarrow>
            if cs' = [] then st'\<lparr>claims := AList.delete eid (claims st')\<rparr>
            else st'\<lparr>claims := AList.update eid (did, cs') (claims st')\<rparr>))"

text \<open>The claims with \<open>client\<close> added to its entry's claim of \<open>did\<close>, unless another has a say in it.\<close>

definition add_claim :: "nat \<Rightarrow> string \<Rightarrow> string \<Rightarrow> (string \<times> (string \<times> nat list)) list \<Rightarrow>
    (string \<times> (string \<times> nat list)) list option" where
  "add_claim cid eid did cl =
    (if list_ex (\<lambda>(e, claim). e \<noteq> eid \<and> fst claim = did) cl then None
     else case map_of cl eid of
       Some (claimed, cs) \<Rightarrow>
         if claimed \<noteq> did then None
         else Some (AList.update eid (did, if cid \<in> set cs then cs else cs @ [cid]) cl)
     | None \<Rightarrow> Some (AList.update eid (did, [cid]) cl))"

definition bind_id :: "nat \<Rightarrow> app_session \<Rightarrow> string \<Rightarrow> access_state \<Rightarrow> bool \<times> access_state" where
  "bind_id cid s did st =
    (case current cid s st of
       (None, st) \<Rightarrow> (False, st)
     | (Some e, st) \<Rightarrow>
         if (deviceId e \<noteq> None \<and> deviceId e \<noteq> Some did) \<or> (s_id s \<noteq> None \<and> s_id s \<noteq> Some did) \<or>
            list_ex (\<lambda>other. entryId other \<noteq> s_entryId s \<and> deviceId other = Some did) (inventory st)
         then (False, st)
         else
           let st = foldl purge_claim st (map fst (claims st)) in
           case add_claim cid (s_entryId s) did (claims st) of
             None \<Rightarrow> (False, st)
           | Some cl \<Rightarrow>
               let st = st\<lparr>claims := cl\<rparr> in
               (True, case map_of (sessions st) cid of
                  Some (Appliance s') \<Rightarrow>
                    set_session cid (s'\<lparr>s_id := Some did,
                      s_linked := s_linked s' \<or> (deviceId e \<noteq> None \<and> deviceId e \<noteq> Some [])\<rparr>) st
                | _ \<Rightarrow> st))"

subsection \<open>The five operations\<close>

definition access_publish :: "access_config \<Rightarrow> access_state \<Rightarrow> packet \<Rightarrow> nat \<Rightarrow> bool \<times> access_state" where
  "access_publish cfg st pk cid =
    (case (map_of (sessions st) cid, parseDeviceTopic (topic pk)) of
       (Some session, Some (tkind, did)) \<Rightarrow>
         (case parseDevicePayload (json_parse cfg) (payload pk) of
            None \<Rightarrow> (False, st)
          | Some pl \<Rightarrow>
              if field ''did'' pl \<noteq> Some (JStr did) then (False, st)
              else
                (case session of
                   Diagnostic ids write \<Rightarrow>
                     (write \<and> \<not> retain pk \<and> tkind = Lime \<and> did \<in> set ids, st)
                 | Appliance s \<Rightarrow>
                     (case current cid s st of
                        (None, st) \<Rightarrow> (False, st)
                      | (Some _, st) \<Rightarrow>
                          if tkind = Lime then (False, st)
                          else if (s_id s = None \<or> s_id s = Some []) \<and> tkind \<noteq> Provisioning then (False, st)
                          else (case map_of (sessions st) cid of
                                  Some (Appliance s) \<Rightarrow> bind_id cid s did st
                                | _ \<Rightarrow> (False, st)))))
     | _ \<Rightarrow> (False, st))"

definition access_subscribe :: "access_state \<Rightarrow> string \<Rightarrow> nat \<Rightarrow> bool \<times> access_state" where
  "access_subscribe st t cid =
    (case (map_of (sessions st) cid, parseDeviceTopic t) of
       (Some (Diagnostic ids _), Some (_, did)) \<Rightarrow> (did \<in> set ids, st)
     | (Some (Appliance s), Some (tkind, did)) \<Rightarrow>
         if tkind = Lime then bind_id cid s did st else (False, st)
     | _ \<Rightarrow> (False, st))"

definition access_deliver :: "access_state \<Rightarrow> string \<Rightarrow> nat \<Rightarrow> bool \<times> access_state" where
  "access_deliver st t cid =
    (case (map_of (sessions st) cid, parseDeviceTopic t) of
       (Some (Diagnostic ids _), Some (_, did)) \<Rightarrow> (did \<in> set ids, st)
     | (Some (Appliance s), Some (tkind, did)) \<Rightarrow>
         (case current cid s st of
            (entry, st) \<Rightarrow> (entry \<noteq> None \<and> tkind = Lime \<and> s_id s = Some did, st))
     | _ \<Rightarrow> (False, st))"

definition access_disconnect :: "access_state \<Rightarrow> nat \<Rightarrow> access_state" where
  "access_disconnect st cid =
    (let st =
       (case map_of (sessions st) cid of
          Some (Appliance s) \<Rightarrow>
            (case map_of (claims st) (s_entryId s) of
               None \<Rightarrow> st
             | Some (did, cs) \<Rightarrow>
                 if removeAll cid cs = [] then st\<lparr>claims := AList.delete (s_entryId s) (claims st)\<rparr>
                 else st\<lparr>claims := AList.update (s_entryId s) (did, removeAll cid cs) (claims st)\<rparr>)
        | _ \<Rightarrow> st)
     in st\<lparr>sessions := AList.delete cid (sessions st)\<rparr>)"

text \<open>The account whose digests match; the loop keeps the last one.\<close>

definition matching_account :: "access_config \<Rightarrow> string \<Rightarrow> string \<Rightarrow> account option" where
  "matching_account cfg user pass =
    foldl (\<lambda>matched a.
      if sha256 cfg user = sha256 cfg (acc_username a) \<and> sha256 cfg pass = sha256 cfg (acc_password a)
      then Some a else matched) None (accounts cfg)"

text \<open>The last will of an admitted appliance must be one it could publish itself.\<close>

definition connect_will ::
  "access_config \<Rightarrow> packet option \<Rightarrow> nat \<Rightarrow> access_state \<Rightarrow> bool \<times> access_state"
where
  "connect_will cfg cwill cid st =
    (case cwill of
       None \<Rightarrow> (True, st)
     | Some w \<Rightarrow>
         (case (parseDeviceTopic (topic w), map_of (sessions st) cid) of
            (Some (tkind, did), Some (Appliance s)) \<Rightarrow>
              if tkind = Lime then (False, st)
              else (case bind_id cid s did st of
                      (False, st) \<Rightarrow> (False, st)
                    | (True, st) \<Rightarrow>
                        access_publish cfg st (w\<lparr>message_id := None, properties := None\<rparr>) cid)
          | _ \<Rightarrow> (False, st)))"

definition new_session :: "inventory_entry \<Rightarrow> string \<Rightarrow> app_session" where
  "new_session e addr = \<lparr>s_entryId = entryId e, s_ip = addr, s_id = deviceId e,
     s_linked = (deviceId e \<noteq> None \<and> deviceId e \<noteq> Some []), s_revoked = False\<rparr>"

definition open_session :: "nat \<Rightarrow> inventory_entry \<Rightarrow> string \<Rightarrow> access_state \<Rightarrow> access_state" where
  "open_session cid e addr st =
    (set_session cid (new_session e addr) st)\<lparr>source_ips := AList.update cid addr (source_ips st)\<rparr>"

definition appliance_connect ::
  "access_config \<Rightarrow> access_state \<Rightarrow> packet option \<Rightarrow> nat \<Rightarrow> string \<Rightarrow> bool \<times> access_state"
where
  "appliance_connect cfg st cwill cid addr =
    (let entries = inventory st;
         matches = filter (\<lambda>e. ip e = addr) entries
     in case matches of
          [e] \<Rightarrow>
            if entryId e = [] \<or> entry_platform e = Some Thinq1 \<or> autoLink e = Some False \<or>
               length (filter (\<lambda>other. entryId other = entryId e) entries) \<noteq> 1 \<or>
               (case deviceId e of Some d \<Rightarrow> \<not> isSafeDeviceId d | None \<Rightarrow> False)
            then (False, st)
            else
              let st = open_session cid e addr st in
              (case (case deviceId e of
                       Some d \<Rightarrow> if d \<noteq> [] then bind_id cid (new_session e addr) d st else (True, st)
                     | None \<Rightarrow> (True, st)) of
                 (False, st) \<Rightarrow> (False, st)
               | (True, st) \<Rightarrow> connect_will cfg cwill cid st)
        | _ \<Rightarrow> (False, st))"

definition access_connect ::
  "access_config \<Rightarrow> access_state \<Rightarrow> connect_packet \<Rightarrow> nat \<Rightarrow> string option \<Rightarrow> bool \<Rightarrow> bool \<Rightarrow> bool \<times> access_state"
where
  "access_connect cfg st cp cid remote secure aborted =
    (if username cp \<noteq> None \<or> password cp \<noteq> None then
       (case (username cp, password cp) of
          (Some user, Some pass) \<Rightarrow>
            if \<not> secure \<or> cp_will cp \<noteq> None then (False, st)
            else (case matching_account cfg user pass of
                    Some a \<Rightarrow>
                      if aborted then (False, st)
                      else (True, st\<lparr>sessions := AList.update cid
                              (Diagnostic (acc_device_ids a) (acc_allow_publish a)) (sessions st)\<rparr>)
                  | None \<Rightarrow> (False, st))
        | _ \<Rightarrow> (False, st))
     else
       (case (case resolveSource cfg of Some f \<Rightarrow> f cid | None \<Rightarrow> normalizeMQTTAddress remote) of
          Some addr \<Rightarrow>
            if addr = [] \<or> aborted then (False, st) else appliance_connect cfg st (cp_will cp) cid addr
        | None \<Rightarrow> (False, st)))"

text \<open>\<open>DeviceMQTTAccess\<close> as a policy of the broker.\<close>

definition DeviceMQTTAccess :: "access_config \<Rightarrow> access_state policy" where
  "DeviceMQTTAccess cfg = \<lparr>pol_connect = access_connect cfg, pol_publish = access_publish cfg,
    pol_subscribe = access_subscribe, pol_deliver = access_deliver, pol_disconnect = access_disconnect\<rparr>"

end
