(* ===== verification/AccessInv.thy ===== *)
theory AccessInv
  imports MqttAccess
begin

text \<open>
  What \<open>MqttAccess\<close> guarantees: the claims of the inventory entries stay consistent with the
  sessions and with each other in every reachable state, and a device's downlink topic is
  readable from one inventory entry only.
\<close>

subsection \<open>How the checks change sessions\<close>

definition weaker :: "app_session \<Rightarrow> app_session \<Rightarrow> bool" where
  "weaker s s' \<longleftrightarrow> s_entryId s' = s_entryId s \<and> s_ip s' = s_ip s \<and> s_id s' = s_id s \<and>
    (s_revoked s \<longrightarrow> s_revoked s') \<and> (s_linked s \<longrightarrow> s_linked s')"

fun session_evo :: "session option \<Rightarrow> session option \<Rightarrow> bool" where
  "session_evo (Some (Appliance s)) x = (case x of Some (Appliance s') \<Rightarrow> weaker s s' | _ \<Rightarrow> False)"
| "session_evo (Some (Diagnostic ids w)) x = (x = Some (Diagnostic ids w))"
| "session_evo None x = (x = None)"

definition evolves :: "access_state \<Rightarrow> access_state \<Rightarrow> bool" where
  "evolves st st' \<longleftrightarrow> inventory st' = inventory st \<and>
    (distinct (map fst (sessions st)) \<longrightarrow> distinct (map fst (sessions st'))) \<and>
    (\<forall>c. session_evo (map_of (sessions st) c) (map_of (sessions st') c))"

lemma weaker_refl [simp]: "weaker s s"
  by (simp add: weaker_def)

lemma weaker_trans: "weaker s t \<Longrightarrow> weaker t u \<Longrightarrow> weaker s u"
  by (auto simp: weaker_def)

lemma session_evo_Appliance [simp]:
  "session_evo (Some (Appliance s)) x \<longleftrightarrow> (\<exists>s'. x = Some (Appliance s') \<and> weaker s s')"
  by (auto split: option.split session.split)

lemma session_evo_Appliance_right [simp]:
  "session_evo x (Some (Appliance s')) \<longleftrightarrow> (\<exists>s. x = Some (Appliance s) \<and> weaker s s')"
  by (cases "(x, Some (Appliance s'))" rule: session_evo.cases) auto

declare session_evo.simps(1) [simp del]

lemma session_evo_refl [simp]: "session_evo x x"
  by (cases "(x, x)" rule: session_evo.cases) auto

lemma session_evo_trans: "session_evo x y \<Longrightarrow> session_evo y z \<Longrightarrow> session_evo x z"
  by (cases "(x, y)" rule: session_evo.cases) (auto simp: weaker_def)

lemma evolves_refl [simp]: "evolves st st"
  by (simp add: evolves_def)

lemma evolves_Appliance:
  assumes "evolves st st'" and "map_of (sessions st) c = Some (Appliance s)"
  obtains s' where "map_of (sessions st') c = Some (Appliance s')" and "weaker s s'"
proof -
  have "session_evo (map_of (sessions st) c) (map_of (sessions st') c)"
    using assms(1) by (simp add: evolves_def)
  with assms(2) that show ?thesis by auto
qed

lemma evolves_back:
  assumes "evolves st st'" and "map_of (sessions st') c = Some (Appliance s')"
  obtains s where "map_of (sessions st) c = Some (Appliance s)" and "weaker s s'"
proof -
  have "session_evo (map_of (sessions st) c) (map_of (sessions st') c)"
    using assms(1) by (simp add: evolves_def)
  with assms(2) that show ?thesis by auto
qed

lemma evolves_trans: "evolves st su \<Longrightarrow> evolves su sv \<Longrightarrow> evolves st sv"
  unfolding evolves_def using session_evo_trans by metis

lemma set_session_evolves:
  "map_of (sessions st) c = Some (Appliance s) \<Longrightarrow> weaker s s' \<Longrightarrow> evolves st (set_session c s' st)"
  by (auto simp: evolves_def set_session_def)

lemma evolves_claims [simp]: "evolves st (st'\<lparr>claims := cl\<rparr>) = evolves st st'"
  by (simp add: evolves_def)

lemma sessions_set_session [simp]:
  "map_of (sessions (set_session c s st)) j = (if j = c then Some (Appliance s) else map_of (sessions st) j)"
  "claims (set_session c s st) = claims st" "inventory (set_session c s st) = inventory st"
  by (simp_all add: set_session_def)

definition entry_for :: "access_state \<Rightarrow> app_session \<Rightarrow> inventory_entry \<Rightarrow> bool" where
  "entry_for st s e \<longleftrightarrow> \<not> s_revoked s \<and> filter (\<lambda>e. entryId e = s_entryId s) (inventory st) = [e] \<and> ip e = s_ip s \<and>
    autoLink e \<noteq> Some False \<and> entry_platform e \<noteq> Some Thinq1 \<and>
    length (filter (\<lambda>other. ip other = s_ip s) (inventory st)) = 1 \<and>
    (s_linked s \<longrightarrow> deviceId e = s_id s) \<and>
    (\<forall>d. s_id s = Some d \<and> d \<noteq> [] \<longrightarrow>
      (\<forall>other \<in> set (inventory st). entryId other \<noteq> s_entryId s \<longrightarrow> deviceId other \<noteq> Some d))"

lemma entry_for_member: "entry_for st s e \<Longrightarrow> e \<in> set (inventory st) \<and> entryId e = s_entryId s"
  unfolding entry_for_def by (auto dest!: arg_cong [of _ _ set])

lemma current_cases:
  assumes "map_of (sessions st) cid = Some (Appliance s)" and "current cid s st = (r, st')"
  obtains (gone) s' where "r = None" and "evolves st st'" and "claims st' = claims st"
      and "map_of (sessions st') cid = Some (Appliance s')" and "s_revoked s'"
  | (stays) e s' where "r = Some e" and "evolves st st'" and "claims st' = claims st" and "entry_for st s e"
      and "map_of (sessions st') cid = Some (Appliance s')" and "weaker s s'"
proof (cases r)
  case None
  have "\<exists>s'. evolves st st' \<and> claims st' = claims st \<and> map_of (sessions st') cid = Some (Appliance s') \<and> s_revoked s'"
  proof (cases "s_revoked s")
    case True
    with assms show ?thesis by (auto simp: current_def)
  next
    case False
    with assms None have "st' = set_session cid (s\<lparr>s_revoked := True\<rparr>) st"
      by (auto simp: current_def Let_def split: option.splits list.splits if_splits)
    with assms(1) show ?thesis
      by (auto intro!: set_session_evolves simp: weaker_def)
  qed
  with None gone show ?thesis by blast
next
  case (Some e)
  have "filter (\<lambda>e. entryId e = s_entryId s) (inventory st) = [e]"
    using assms(2) Some by (auto simp: current_def Let_def split: if_splits list.splits)
  moreover have "\<not> s_revoked s" "ip e = s_ip s" "autoLink e \<noteq> Some False" "entry_platform e \<noteq> Some Thinq1"
    "length (filter (\<lambda>other. ip other = s_ip s) (inventory st)) = 1" "s_linked s \<longrightarrow> deviceId e = s_id s"
    "\<forall>d. s_id s = Some d \<and> d \<noteq> [] \<longrightarrow>
      (\<forall>other \<in> set (inventory st). entryId other \<noteq> s_entryId s \<longrightarrow> deviceId other \<noteq> Some d)"
    using assms(2) Some by (auto simp: current_def Let_def list_ex_iff split: if_splits list.splits)
  moreover have "st' = st \<or> st' = set_session cid (s\<lparr>s_linked := True\<rparr>) st"
    using assms(2) Some by (auto simp: current_def Let_def split: if_splits list.splits)
  then have "evolves st st' \<and> claims st' = claims st \<and>
      (\<exists>s'. map_of (sessions st') cid = Some (Appliance s') \<and> weaker s s')"
    using assms(1) by (auto intro!: set_session_evolves simp: weaker_def)
  ultimately show ?thesis using Some stays by (auto simp: entry_for_def)
qed

subsection \<open>The invariant\<close>

definition acc_inv :: "access_state \<Rightarrow> bool" where
  "acc_inv st \<longleftrightarrow>
    distinct (map fst (sessions st)) \<and> distinct (map fst (claims st)) \<and>
    (\<forall>e did cs. map_of (claims st) e = Some (did, cs) \<longrightarrow>
      (\<forall>c \<in> set cs. \<exists>s. map_of (sessions st) c = Some (Appliance s) \<and> s_entryId s = e \<and> s_id s = Some did)) \<and>
    (\<forall>e e' did cs cs'. map_of (claims st) e = Some (did, cs) \<and> map_of (claims st) e' = Some (did, cs') \<longrightarrow> e = e') \<and>
    (\<forall>c s did. map_of (sessions st) c = Some (Appliance s) \<and> s_id s = Some did \<longrightarrow>
      isSafeDeviceId did \<and>
      (\<not> s_revoked s \<longrightarrow> s_linked s \<or> (\<exists>cs. map_of (claims st) (s_entryId s) = Some (did, cs) \<and> c \<in> set cs)))"

lemma acc_invI:
  assumes "distinct (map fst (sessions st))" and "distinct (map fst (claims st))"
    and "\<And>e did cs c. map_of (claims st) e = Some (did, cs) \<Longrightarrow> c \<in> set cs \<Longrightarrow>
      \<exists>s. map_of (sessions st) c = Some (Appliance s) \<and> s_entryId s = e \<and> s_id s = Some did"
    and "\<And>e e' did cs cs'. map_of (claims st) e = Some (did, cs) \<Longrightarrow> map_of (claims st) e' = Some (did, cs') \<Longrightarrow> e = e'"
    and "\<And>c s did. map_of (sessions st) c = Some (Appliance s) \<Longrightarrow> s_id s = Some did \<Longrightarrow>
      isSafeDeviceId did \<and>
      (\<not> s_revoked s \<longrightarrow> s_linked s \<or> (\<exists>cs. map_of (claims st) (s_entryId s) = Some (did, cs) \<and> c \<in> set cs))"
  shows "acc_inv st"
  unfolding acc_inv_def by (intro conjI allI impI ballI; (elim conjE)?) (use assms in blast)+

lemma acc_invD:
  assumes "acc_inv st"
  shows "distinct (map fst (sessions st))" and "distinct (map fst (claims st))"
    and "map_of (claims st) e = Some (did, cs) \<Longrightarrow> c \<in> set cs \<Longrightarrow>
      \<exists>s. map_of (sessions st) c = Some (Appliance s) \<and> s_entryId s = e \<and> s_id s = Some did"
    and "map_of (claims st) e = Some (did, cs) \<Longrightarrow> map_of (claims st) e' = Some (did, cs') \<Longrightarrow> e = e'"
    and "map_of (sessions st) c = Some (Appliance s) \<Longrightarrow> s_id s = Some did \<Longrightarrow>
      isSafeDeviceId did \<and>
      (\<not> s_revoked s \<longrightarrow> s_linked s \<or> (\<exists>cs. map_of (claims st) (s_entryId s) = Some (did, cs) \<and> c \<in> set cs))"
  using assms unfolding acc_inv_def by blast+

lemma evolves_inv:
  assumes "evolves st st'" and "claims st' = claims st" and inv: "acc_inv st"
  shows "acc_inv st'"
proof (rule acc_invI)
  show "distinct (map fst (sessions st'))" using assms(1) acc_invD(1) [OF inv] by (simp add: evolves_def)
  show "distinct (map fst (claims st'))" using assms(2) acc_invD(2) [OF inv] by simp
next
  fix e did cs c assume "map_of (claims st') e = Some (did, cs)" "c \<in> set cs"
  then obtain s where "map_of (sessions st) c = Some (Appliance s)" "s_entryId s = e" "s_id s = Some did"
    using acc_invD(3) [OF inv] assms(2) by metis
  moreover obtain s' where "map_of (sessions st') c = Some (Appliance s')" "weaker s s'"
    using evolves_Appliance [OF assms(1) calculation(1)] .
  ultimately show "\<exists>s. map_of (sessions st') c = Some (Appliance s) \<and> s_entryId s = e \<and> s_id s = Some did"
    by (auto simp: weaker_def)
next
  fix e e' did cs cs'
  assume "map_of (claims st') e = Some (did, cs)" "map_of (claims st') e' = Some (did, cs')"
  then show "e = e'" using acc_invD(4) [OF inv] assms(2) by metis
next
  fix c s' did assume "map_of (sessions st') c = Some (Appliance s')" "s_id s' = Some did"
  moreover from this(1) obtain s where "map_of (sessions st) c = Some (Appliance s)" "weaker s s'"
    using evolves_back [OF assms(1)] by blast
  ultimately show "isSafeDeviceId did \<and> (\<not> s_revoked s' \<longrightarrow> s_linked s' \<or>
      (\<exists>cs. map_of (claims st') (s_entryId s') = Some (did, cs) \<and> c \<in> set cs))"
    using acc_invD(5) [OF inv] assms(2) unfolding weaker_def by metis
qed

lemma still_claims_fold:
  "foldl still_claims (st, kept_clients) cs = (st', kept') \<Longrightarrow>
    evolves st st' \<and> claims st' = claims st \<and> set kept_clients \<subseteq> set kept' \<and>
    set kept' \<subseteq> set kept_clients \<union> set cs \<and>
    (\<forall>c \<in> set cs - set kept'. \<forall>s. map_of (sessions st') c = Some (Appliance s) \<longrightarrow> s_revoked s)"
proof (induction cs arbitrary: st kept_clients)
  case Nil
  then show ?case by simp
next
  case (Cons c cs)
  obtain su ku where u: "still_claims (st, kept_clients) c = (su, ku)"
    by (cases "still_claims (st, kept_clients) c")
  have step: "evolves st su \<and> claims su = claims st \<and> set kept_clients \<subseteq> set ku \<and> set ku \<subseteq> insert c (set kept_clients) \<and>
      (c \<notin> set ku \<longrightarrow> (\<forall>s. map_of (sessions su) c = Some (Appliance s) \<longrightarrow> s_revoked s))"
  proof (cases "\<exists>s. map_of (sessions st) c = Some (Appliance s)")
    case True
    then obtain s where s: "map_of (sessions st) c = Some (Appliance s)" ..
    obtain r sr where r: "current c s st = (r, sr)" by (cases "current c s st")
    from s r show ?thesis
      by (rule current_cases) (use u s r in \<open>auto simp: still_claims_def\<close>)
  next
    case False
    then have "(su, ku) = (st, kept_clients)"
      using u by (auto simp: still_claims_def split: option.splits session.splits)
    with False show ?thesis by auto
  qed
  have fold: "foldl still_claims (su, ku) cs = (st', kept')" using Cons.prems u by simp
  note IH = Cons.IH [OF fold]
  have "s_revoked s'" if c: "c \<notin> set kept'" "map_of (sessions st') c = Some (Appliance s')" for s'
  proof -
    obtain s where "map_of (sessions su) c = Some (Appliance s)" "weaker s s'"
      using evolves_back [of su st' c s'] IH c(2) by blast
    with step IH c(1) show ?thesis by (auto simp: weaker_def)
  qed
  with step IH show ?case by (auto intro: evolves_trans)
qed

lemma purge_claim_inv:
  assumes inv: "acc_inv st"
  shows "acc_inv (purge_claim st eid) \<and> evolves st (purge_claim st eid)"
proof (cases "map_of (claims st) eid")
  case None
  then show ?thesis using inv by (simp add: purge_claim_def)
next
  case (Some p)
  obtain did cs where p: "p = (did, cs)" by (cases p)
  obtain st' cs' where f: "foldl still_claims (st, []) cs = (st', cs')"
    by (cases "foldl still_claims (st, []) cs")
  note fold = still_claims_fold [OF f]
  have inv': "acc_inv st'" using evolves_inv fold inv by blast
  have cl: "map_of (claims st') eid = Some (did, cs)" using fold Some p by simp
  define new where "new = (if cs' = [] then AList.delete eid (claims st') else AList.update eid (did, cs') (claims st'))"
  have new: "map_of new e = Some (d, ds) \<Longrightarrow>
      \<exists>ds'. map_of (claims st') e = Some (d, ds') \<and> set ds \<subseteq> set ds'" for e d ds
    using cl fold unfolding new_def by (auto split: if_splits)
  have keep: "map_of (claims st') e = Some (d, ds) \<Longrightarrow> c \<in> set ds \<Longrightarrow> \<not> s_revoked s \<Longrightarrow>
      map_of (sessions st') c = Some (Appliance s) \<Longrightarrow> \<exists>ds'. map_of new e = Some (d, ds') \<and> c \<in> set ds'" for e d ds c s
    using cl fold unfolding new_def by (cases "e = eid") auto
  have dn: "distinct (map fst new)"
    using acc_invD(2) [OF inv'] by (simp add: new_def AList.distinct_delete)
  have "acc_inv (st'\<lparr>claims := new\<rparr>)"
  proof (rule acc_invI)
    show "distinct (map fst (sessions (st'\<lparr>claims := new\<rparr>)))" using acc_invD(1) [OF inv'] by simp
    show "distinct (map fst (claims (st'\<lparr>claims := new\<rparr>)))" using dn by simp
  next
    fix e d ds c assume "map_of (claims (st'\<lparr>claims := new\<rparr>)) e = Some (d, ds)" "c \<in> set ds"
    then show "\<exists>s. map_of (sessions (st'\<lparr>claims := new\<rparr>)) c = Some (Appliance s) \<and> s_entryId s = e \<and> s_id s = Some d"
      using new [of e d ds] acc_invD(3) [OF inv'] by auto
  next
    fix e e' d ds ds'
    assume "map_of (claims (st'\<lparr>claims := new\<rparr>)) e = Some (d, ds)" "map_of (claims (st'\<lparr>claims := new\<rparr>)) e' = Some (d, ds')"
    then show "e = e'" using new [of e d ds] new [of e' d ds'] acc_invD(4) [OF inv'] by auto
  next
    fix c s d assume "map_of (sessions (st'\<lparr>claims := new\<rparr>)) c = Some (Appliance s)" "s_id s = Some d"
    then show "isSafeDeviceId d \<and> (\<not> s_revoked s \<longrightarrow> s_linked s \<or>
        (\<exists>cs. map_of (claims (st'\<lparr>claims := new\<rparr>)) (s_entryId s) = Some (d, cs) \<and> c \<in> set cs))"
      using acc_invD(5) [OF inv', of c s d] keep [of "s_entryId s" d _ c s] by auto
  qed
  moreover have "purge_claim st eid = st'\<lparr>claims := new\<rparr>"
    by (simp add: purge_claim_def Some p f new_def)
  moreover have "evolves st (st'\<lparr>claims := new\<rparr>)"
    using fold by simp
  ultimately show ?thesis by simp
qed

lemma purge_all_inv: "acc_inv st \<Longrightarrow> acc_inv (foldl purge_claim st es) \<and> evolves st (foldl purge_claim st es)"
proof (induction es arbitrary: st)
  case Nil
  then show ?case by simp
next
  case (Cons e es)
  then show ?case using purge_claim_inv [of st e] by (auto intro: evolves_trans)
qed

lemma add_claim_Some:
  assumes "add_claim cid eid did cl0 = Some cl"
  obtains cs where "cl = AList.update eid (did, cs) cl0" and "cid \<in> set cs"
    and "\<And>e ds. map_of cl0 e = Some (did, ds) \<Longrightarrow> e = eid"
    and "\<And>c. c \<in> set cs \<Longrightarrow> c = cid \<or> (\<exists>ds. map_of cl0 eid = Some (did, ds) \<and> c \<in> set ds)"
    and "\<And>d ds. map_of cl0 eid = Some (d, ds) \<Longrightarrow> d = did \<and> set ds \<subseteq> set cs"
proof -
  have other: "e = eid" if "map_of cl0 e = Some (did, ds)" for e ds
    using assms map_of_SomeD [OF that] by (fastforce simp: add_claim_def list_ex_iff split: if_splits)
  show ?thesis
  proof (cases "map_of cl0 eid")
    case None
    with assms have "cl = AList.update eid (did, [cid]) cl0" by (simp add: add_claim_def split: if_splits)
    then show ?thesis by (rule that) (simp_all add: None other)
  next
    case (Some p)
    obtain d ds where p: "p = (d, ds)" by (cases p)
    have d: "d = did"
      and "cl = AList.update eid (did, if cid \<in> set ds then ds else ds @ [cid]) cl0"
      using assms Some p by (simp_all add: add_claim_def split: if_splits)
    from this(2) show ?thesis by (rule that) (auto simp: Some p d other split: if_splits)
  qed
qed

lemma bind_id_inv:
  assumes inv: "acc_inv st" and s: "map_of (sessions st) cid = Some (Appliance s)" and safe: "isSafeDeviceId did"
  shows "acc_inv (snd (bind_id cid s did st)) \<and> inventory (snd (bind_id cid s did st)) = inventory st"
proof -
  obtain r st1 where cur: "current cid s st = (r, st1)" by (cases "current cid s st")
  have st1: "evolves st st1 \<and> claims st1 = claims st"
    by (rule current_cases [OF s cur]) auto
  have inv1: "acc_inv st1" using evolves_inv st1 inv by blast
  define st2 where "st2 = foldl purge_claim st1 (map fst (claims st1))"
  have st2: "acc_inv st2" "evolves st1 st2" using purge_all_inv [OF inv1] by (simp_all add: st2_def)
  have evo: "evolves st st2" using st1 st2(2) evolves_trans by blast
  obtain s2 where s2: "map_of (sessions st2) cid = Some (Appliance s2)" "weaker s s2"
    using evolves_Appliance [OF evo s] .
  have i: "inventory st1 = inventory st" "inventory st2 = inventory st" using st1 evo by (simp_all add: evolves_def)
  consider (same) "snd (bind_id cid s did st) = st1" | (purged) "snd (bind_id cid s did st) = st2"
    | (bound) e cl where "r = Some e" "add_claim cid (s_entryId s) did (claims st2) = Some cl"
        "s_id s = None \<or> s_id s = Some did"
        "snd (bind_id cid s did st) = set_session cid (s2\<lparr>s_id := Some did,
          s_linked := s_linked s2 \<or> (deviceId e \<noteq> None \<and> deviceId e \<noteq> Some [])\<rparr>) (st2\<lparr>claims := cl\<rparr>)"
  proof (cases r)
    case None
    then show ?thesis using that(1) by (simp add: bind_id_def cur)
  next
    case (Some e)
    show ?thesis
    proof (cases "(deviceId e \<noteq> None \<and> deviceId e \<noteq> Some did) \<or> (s_id s \<noteq> None \<and> s_id s \<noteq> Some did) \<or>
        list_ex (\<lambda>other. entryId other \<noteq> s_entryId s \<and> deviceId other = Some did) (inventory st1)")
      case True
      then have "snd (bind_id cid s did st) = st1" using Some by (simp add: bind_id_def cur)
      then show ?thesis by (rule that(1))
    next
      case False
      then have b: "bind_id cid s did st =
          (case add_claim cid (s_entryId s) did (claims st2) of
             None \<Rightarrow> (False, st2)
           | Some cl \<Rightarrow> (True, set_session cid (s2\<lparr>s_id := Some did,
               s_linked := s_linked s2 \<or> (deviceId e \<noteq> None \<and> deviceId e \<noteq> Some [])\<rparr>) (st2\<lparr>claims := cl\<rparr>)))"
        using Some s2 unfolding bind_id_def cur
        by (simp only: prod.case option.case if_not_P Let_def st2_def [symmetric])
          (auto split: option.split)
      show ?thesis
      proof (cases "add_claim cid (s_entryId s) did (claims st2)")
        case None
        then show ?thesis using that(2) b by simp
      next
        case (Some cl)
        moreover have "s_id s = None \<or> s_id s = Some did" using False by blast
        ultimately show ?thesis using that(3) b \<open>r = Some e\<close> by simp
      qed
    qed
  qed
  then show ?thesis
  proof cases
    case same
    then show ?thesis using inv1 i by simp
  next
    case purged
    then show ?thesis using st2 i by simp
  next
    case (bound e cl)
    let ?s = "s2\<lparr>s_id := Some did, s_linked := s_linked s2 \<or> (deviceId e \<noteq> None \<and> deviceId e \<noteq> Some [])\<rparr>"
    let ?st = "set_session cid ?s (st2\<lparr>claims := cl\<rparr>)"
    let ?e = "s_entryId s"
    obtain cs where cl: "cl = AList.update ?e (did, cs) (claims st2)" and in_cs: "cid \<in> set cs"
      and other: "\<And>e' ds. map_of (claims st2) e' = Some (did, ds) \<Longrightarrow> e' = ?e"
      and old: "\<And>c. c \<in> set cs \<Longrightarrow> c = cid \<or> (\<exists>ds. map_of (claims st2) ?e = Some (did, ds) \<and> c \<in> set ds)"
      and grow: "\<And>d ds. map_of (claims st2) ?e = Some (d, ds) \<Longrightarrow> d = did \<and> set ds \<subseteq> set cs"
      using add_claim_Some [OF bound(2)] by metis
    have e2: "s_entryId s2 = ?e" "s_id s2 = s_id s" using s2(2) by (auto simp: weaker_def)
    have "acc_inv ?st"
    proof (rule acc_invI)
      show "distinct (map fst (sessions ?st))"
        using acc_invD(1) [OF st2(1)] by (simp add: set_session_def)
      show "distinct (map fst (claims ?st))"
        using acc_invD(2) [OF st2(1)] by (simp add: cl)
    next
      fix e' d ds c assume a: "map_of (claims ?st) e' = Some (d, ds)" "c \<in> set ds"
      show "\<exists>t. map_of (sessions ?st) c = Some (Appliance t) \<and> s_entryId t = e' \<and> s_id t = Some d"
      proof (cases "e' = ?e")
        case True
        then show ?thesis
          using a old [of c] acc_invD(3) [OF st2(1)] e2 by (auto simp: cl)
      next
        case False
        then have "map_of (claims st2) e' = Some (d, ds)" using a by (simp add: cl)
        from acc_invD(3) [OF st2(1) this a(2)] obtain t
          where t: "map_of (sessions st2) c = Some (Appliance t)" "s_entryId t = e'" "s_id t = Some d" by blast
        with False s2 e2 show ?thesis by auto
      qed
    next
      fix e' e'' d ds ds'
      assume "map_of (claims ?st) e' = Some (d, ds)" "map_of (claims ?st) e'' = Some (d, ds')"
      then show "e' = e''"
        using other acc_invD(4) [OF st2(1)] by (auto simp: cl split: if_splits)
    next
      fix c t d assume t: "map_of (sessions ?st) c = Some (Appliance t)" "s_id t = Some d"
      show "isSafeDeviceId d \<and> (\<not> s_revoked t \<longrightarrow> s_linked t \<or>
          (\<exists>cs. map_of (claims ?st) (s_entryId t) = Some (d, cs) \<and> c \<in> set cs))"
      proof (cases "c = cid")
        case True
        with t e2 in_cs safe show ?thesis by (auto simp: cl)
      next
        case False
        with t have "map_of (sessions st2) c = Some (Appliance t)" by simp
        from acc_invD(5) [OF st2(1) this t(2)] grow [of d]
        have "isSafeDeviceId d" and "s_revoked t \<or> s_linked t \<or>
            (\<exists>ds. map_of (claims st2) (s_entryId t) = Some (d, ds) \<and> c \<in> set ds)" by blast+
        moreover have "\<exists>ds. map_of cl (s_entryId t) = Some (d, ds) \<and> c \<in> set ds"
          if "map_of (claims st2) (s_entryId t) = Some (d, ds)" "c \<in> set ds" for ds
          using that grow [of d ds] by (cases "s_entryId t = ?e") (auto simp: cl)
        ultimately show ?thesis by auto
      qed
    qed
    then show ?thesis using bound(4) i by simp
  qed
qed

lemma parseDeviceTopic_safe: "parseDeviceTopic t = Some (k, did) \<Longrightarrow> isSafeDeviceId did"
  by (auto simp: parseDeviceTopic_def safe_after_def Let_def split: if_splits option.splits)

lemma current_inv:
  assumes "acc_inv st" and "map_of (sessions st) cid = Some (Appliance s)"
  shows "acc_inv (snd (current cid s st)) \<and> inventory (snd (current cid s st)) = inventory st"
proof -
  obtain r st1 where cur: "current cid s st = (r, st1)" by (cases "current cid s st")
  have "evolves st st1 \<and> claims st1 = claims st"
    by (rule current_cases [OF assms(2) cur]) auto
  then show ?thesis using cur evolves_inv assms(1) by (auto simp: evolves_def)
qed

lemma access_publish_inv: "acc_inv st \<Longrightarrow> acc_inv (snd (access_publish cfg st pk cid))"
proof -
  assume inv: "acc_inv st"
  show ?thesis
  proof (cases "\<exists>s k did. map_of (sessions st) cid = Some (Appliance s) \<and> parseDeviceTopic (topic pk) = Some (k, did)")
    case False
    then show ?thesis using inv
      by (auto simp: access_publish_def split: option.splits session.splits)
  next
    case True
    then obtain s k did where s: "map_of (sessions st) cid = Some (Appliance s)"
      and t: "parseDeviceTopic (topic pk) = Some (k, did)" by blast
    obtain r st1 where cur: "current cid s st = (r, st1)" by (cases "current cid s st")
    have "acc_inv st1" using current_inv [OF inv s] cur by simp
    then have "acc_inv (snd (bind_id cid s' did st1))" if "map_of (sessions st1) cid = Some (Appliance s')" for s'
      using bind_id_inv that parseDeviceTopic_safe [OF t] by blast
    with inv \<open>acc_inv st1\<close> s t cur show ?thesis
      by (auto simp: access_publish_def split: option.splits session.splits)
  qed
qed

lemma access_subscribe_inv: "acc_inv st \<Longrightarrow> acc_inv (snd (access_subscribe st t cid))"
  using bind_id_inv parseDeviceTopic_safe
  by (auto simp: access_subscribe_def split: option.splits session.splits)

lemma access_deliver_inv: "acc_inv st \<Longrightarrow> acc_inv (snd (access_deliver st t cid))"
  using current_inv by (fastforce simp: access_deliver_def split: option.splits session.splits prod.splits)

text \<open>Claims that lose one client, of its own entry, and the session that goes with it.\<close>

lemma access_disconnect_inv:
  assumes inv: "acc_inv st"
  shows "acc_inv (access_disconnect st cid)"
proof -
  define cl where "cl = claims (access_disconnect st cid)"
  have ses: "sessions (access_disconnect st cid) = AList.delete cid (sessions st)"
    by (auto simp: access_disconnect_def Let_def split: option.split session.split)
  have new: "\<exists>ds'. map_of (claims st) e = Some (d, ds') \<and> set ds = set ds' - {cid}"
    if "map_of cl e = Some (d, ds)" for e d ds
  proof (cases "\<exists>s did cs. map_of (sessions st) cid = Some (Appliance s) \<and> map_of (claims st) (s_entryId s) = Some (did, cs)")
    case True
    then obtain s did cs where s: "map_of (sessions st) cid = Some (Appliance s)"
      and c: "map_of (claims st) (s_entryId s) = Some (did, cs)" by blast
    have "cid \<notin> set ds'" if "map_of (claims st) e = Some (d, ds')" "e \<noteq> s_entryId s" for ds'
      using acc_invD(3) [OF inv that(1)] s that(2) by fastforce
    with that s c show ?thesis
      by (auto simp: cl_def access_disconnect_def split: if_splits)
  next
    case False
    then have "cl = claims st"
      by (auto simp: cl_def access_disconnect_def split: option.split session.split)
    moreover have "cid \<notin> set ds'" if "map_of (claims st) e = Some (d, ds')" for ds'
      using acc_invD(3) [OF inv that] False that by fastforce
    ultimately show ?thesis using that by auto
  qed
  have keep: "\<exists>ds'. map_of cl e = Some (d, ds') \<and> c \<in> set ds'"
    if "map_of (claims st) e = Some (d, ds)" "c \<in> set ds" "c \<noteq> cid" for e d ds c
    using that by (auto simp: cl_def access_disconnect_def removeAll_filter_not_eq filter_empty_conv
        split: option.split session.split)
  have "distinct (map fst cl)"
    using acc_invD(2) [OF inv]
    by (auto simp: cl_def access_disconnect_def AList.distinct_delete split: option.split session.split)
  then show ?thesis
  proof (intro acc_invI, goal_cases)
    case 1
    then show ?case using acc_invD(1) [OF inv] by (simp add: ses AList.distinct_delete)
  next
    case 2
    then show ?case by (simp add: cl_def)
  next
    case (3 e did cs c)
    then obtain ds where "map_of (claims st) e = Some (did, ds)" "c \<in> set ds" "c \<noteq> cid"
      using new unfolding cl_def by blast
    then show ?case using acc_invD(3) [OF inv] by (simp add: ses)
  next
    case (4 e e' did cs cs')
    then show ?case using new acc_invD(4) [OF inv] unfolding cl_def by metis
  next
    case (5 c s did)
    then have c: "c \<noteq> cid" "map_of (sessions st) c = Some (Appliance s)" by (auto simp: ses split: if_splits)
    from acc_invD(5) [OF inv this(2) 5(3)] keep c(1) show ?case unfolding cl_def by blast
  qed
qed

lemma new_session_inv:
  assumes inv: "acc_inv st" and new: "map_of (sessions st) cid = None"
    and x: "\<And>s did. x = Appliance s \<Longrightarrow> s_id s = Some did \<Longrightarrow> isSafeDeviceId did \<and> s_linked s"
  shows "acc_inv (st\<lparr>sessions := AList.update cid x (sessions st)\<rparr>)"
proof (rule acc_invI, goal_cases)
  case 1
  then show ?case using acc_invD(1) [OF inv] by simp
next
  case 2
  then show ?case using acc_invD(2) [OF inv] by simp
next
  case (3 e did cs c)
  then show ?case using acc_invD(3) [OF inv, of e did cs c] new by auto
next
  case (4 e e' did cs cs')
  then show ?case using acc_invD(4) [OF inv] by auto
next
  case (5 c s did)
  then show ?case using acc_invD(5) [OF inv, of c s did] x by (auto split: if_splits)
qed

lemma acc_inv_fields [simp]:
  "acc_inv (st\<lparr>source_ips := m\<rparr>) = acc_inv st" "acc_inv (st\<lparr>inventory := i\<rparr>) = acc_inv st"
  by (simp_all add: acc_inv_def)

lemma connect_will_inv:
  assumes inv: "acc_inv st"
  shows "acc_inv (snd (connect_will cfg cwill cid st))"
proof (cases "\<exists>w k did s. cwill = Some w \<and> parseDeviceTopic (topic w) = Some (k, did) \<and>
    map_of (sessions st) cid = Some (Appliance s)")
  case False
  then show ?thesis using inv by (auto simp: connect_will_def split: option.split session.split)
next
  case True
  then obtain w k did s where t: "cwill = Some w" "parseDeviceTopic (topic w) = Some (k, did)"
    "map_of (sessions st) cid = Some (Appliance s)" by blast
  obtain ok st' where b: "bind_id cid s did st = (ok, st')" by (cases "bind_id cid s did st")
  have "acc_inv st'" using bind_id_inv [OF inv t(3) parseDeviceTopic_safe [OF t(2)]] b by simp
  with t b inv show ?thesis
    by (cases ok) (simp_all add: connect_will_def access_publish_inv)
qed

lemma access_connect_inv:
  assumes inv: "acc_inv st" and new: "map_of (sessions st) cid = None"
  shows "acc_inv (snd (access_connect cfg st cp cid remote secure aborted))"
proof -
  have diag: "acc_inv (st\<lparr>sessions := AList.update cid (Diagnostic ids w) (sessions st)\<rparr>)" for ids w
    by (rule new_session_inv [OF inv new]) simp
  have "acc_inv (snd (appliance_connect cfg st cwill cid addr))" for cwill addr
  proof (cases "\<exists>e. filter (\<lambda>e. ip e = addr) (inventory st) = [e] \<and>
      (case deviceId e of Some d \<Rightarrow> isSafeDeviceId d | None \<Rightarrow> True)")
    case False
    then show ?thesis
      using inv by (auto simp: appliance_connect_def Let_def split: list.split option.splits)
  next
    case True
    then obtain e where e: "filter (\<lambda>e. ip e = addr) (inventory st) = [e]"
      and safe: "\<And>d. deviceId e = Some d \<Longrightarrow> isSafeDeviceId d" by (auto split: option.splits)
    define s where "s = new_session e addr"
    define st1 where "st1 = open_session cid e addr st"
    have ne: "d \<noteq> []" if "deviceId e = Some d" for d using safe [OF that] by (simp add: isSafeDeviceId_def)
    have "acc_inv (st\<lparr>sessions := AList.update cid (Appliance s) (sessions st)\<rparr>)"
      by (rule new_session_inv [OF inv new]) (use safe ne in \<open>auto simp: s_def new_session_def\<close>)
    then have inv1: "acc_inv st1" and s1: "map_of (sessions st1) cid = Some (Appliance s)"
      by (simp_all add: st1_def s_def open_session_def set_session_def)
    obtain ok st2 where two: "(case deviceId e of
        Some d \<Rightarrow> if d \<noteq> [] then bind_id cid s d st1 else (True, st1) | None \<Rightarrow> (True, st1)) = (ok, st2)"
      by (metis surj_pair)
    have inv2: "acc_inv st2"
      using two bind_id_inv [OF inv1 s1 safe] inv1 by (auto split: option.splits if_splits)
    have "snd (appliance_connect cfg st cwill cid addr) \<in> {st, st2, snd (connect_will cfg cwill cid st2)}"
      unfolding appliance_connect_def Let_def e list.case
      using two [unfolded s_def st1_def] by (cases ok) simp_all
    with inv inv2 connect_will_inv [OF inv2] show ?thesis by auto
  qed
  then show ?thesis
    using inv diag by (auto simp: access_connect_def split: option.split)
qed

subsection \<open>Reachable states\<close>

text \<open>
  The broker calls \<open>connect\<close> once per connection, the other operations in any order, and the
  inventory may be replaced by any other between two of them.
\<close>

inductive access_reach :: "access_config \<Rightarrow> access_state \<Rightarrow> bool" for cfg where
  r_init: "access_reach cfg (init_access entries)"
| r_connect: "access_reach cfg st \<Longrightarrow> map_of (sessions st) cid = None \<Longrightarrow>
    access_reach cfg (snd (access_connect cfg st cp cid remote secure aborted))"
| r_publish: "access_reach cfg st \<Longrightarrow> access_reach cfg (snd (access_publish cfg st pk cid))"
| r_subscribe: "access_reach cfg st \<Longrightarrow> access_reach cfg (snd (access_subscribe st t cid))"
| r_deliver: "access_reach cfg st \<Longrightarrow> access_reach cfg (snd (access_deliver st t cid))"
| r_disconnect: "access_reach cfg st \<Longrightarrow> access_reach cfg (access_disconnect st cid)"
| r_inventory: "access_reach cfg st \<Longrightarrow> access_reach cfg (st\<lparr>inventory := entries\<rparr>)"

lemma access_reach_inv: "access_reach cfg st \<Longrightarrow> acc_inv st"
proof (induction rule: access_reach.induct)
  case (r_init entries)
  show ?case by (simp add: acc_inv_def init_access_def)
qed (simp_all add: access_connect_inv access_publish_inv access_subscribe_inv access_deliver_inv access_disconnect_inv)

lemma deliver_appliance:
  assumes "fst (access_deliver st t cid)" and "map_of (sessions st) cid = Some (Appliance s)"
  obtains did e where "parseDeviceTopic t = Some (Lime, did)" and "s_id s = Some did" and "entry_for st s e"
proof -
  obtain k did where t: "parseDeviceTopic t = Some (k, did)"
    using assms by (auto simp: access_deliver_def split: option.splits)
  obtain r st' where cur: "current cid s st = (r, st')" by (cases "current cid s st")
  have "k = Lime" "s_id s = Some did" "r \<noteq> None" using assms t cur by (auto simp: access_deliver_def)
  moreover from assms(2) cur have "r \<noteq> None \<Longrightarrow> \<exists>e. entry_for st s e"
    by (rule current_cases) auto
  ultimately show ?thesis using that t by blast
qed

text \<open>
  C1. Downlink isolation: in every reachable state, two appliance connections that may read
  the same topic belong to the same inventory entry and come from the same address, whatever
  the inventory, the earlier claims and the order of the connections.
\<close>

theorem downlink_isolated:
  assumes "access_reach cfg st"
    and "fst (access_deliver st t c1)" and "map_of (sessions st) c1 = Some (Appliance s1)"
    and "fst (access_deliver st t c2)" and "map_of (sessions st) c2 = Some (Appliance s2)"
  shows "s_entryId s1 = s_entryId s2 \<and> s_ip s1 = s_ip s2"
proof -
  note inv = access_reach_inv [OF assms(1)]
  obtain did e1 where d: "parseDeviceTopic t = Some (Lime, did)" and 1: "s_id s1 = Some did" "entry_for st s1 e1"
    by (rule deliver_appliance [OF assms(2,3)])
  obtain did' e2 where "parseDeviceTopic t = Some (Lime, did')" and "s_id s2 = Some did'" and 2: "entry_for st s2 e2"
    by (rule deliver_appliance [OF assms(4,5)])
  with d have 2: "s_id s2 = Some did" "entry_for st s2 e2" by simp_all
  have "did \<noteq> []" using parseDeviceTopic_safe [OF d] by (simp add: isSafeDeviceId_def)
  then have no: "deviceId e2 \<noteq> Some did" "deviceId e1 \<noteq> Some did" if "s_entryId s1 \<noteq> s_entryId s2"
    using 1 2 that entry_for_member [OF 1(2)] entry_for_member [OF 2(2)]
    by (auto simp: entry_for_def)
  have same: "s_entryId s1 = s_entryId s2"
  proof (rule ccontr)
    assume ne: "s_entryId s1 \<noteq> s_entryId s2"
    have "\<not> s_linked s1" "\<not> s_linked s2" "\<not> s_revoked s1" "\<not> s_revoked s2"
      using no [OF ne] 1 2 by (auto simp: entry_for_def)
    then obtain cs cs' where "map_of (claims st) (s_entryId s1) = Some (did, cs)"
      "map_of (claims st) (s_entryId s2) = Some (did, cs')"
      using acc_invD(5) [OF inv assms(3) 1(1)] acc_invD(5) [OF inv assms(5) 2(1)] by blast
    with ne acc_invD(4) [OF inv] show False by blast
  qed
  have "ip e1 = s_ip s1" "ip e2 = s_ip s2" "e1 = e2 \<or> s_ip s1 = s_ip s2"
    using 1 2 same by (simp_all add: entry_for_def)
  then show ?thesis using same by auto
qed

theorem downlink_isolated_witness:
  "let st = \<lparr>inventory = [\<lparr>entryId = ''e1'', ip = ''10.0.0.2'', deviceId = Some ''dev'', autoLink = None,
        entry_platform = Some Thinq2\<rparr>], sessions = [], claims = [], source_ips = []\<rparr>;
      cfg = \<lparr>accounts = [], json_parse = \<lambda>_. None, sha256 = \<lambda>_. [], resolveSource = None\<rparr>;
      cp = \<lparr>username = None, password = None, keepalive = None, cp_will = None\<rparr>;
      st = snd (access_connect cfg st cp 1 (Some ''10.0.0.2'') False False);
      st = snd (access_connect cfg st cp 2 (Some ''10.0.0.2'') False False)
    in \<exists>s1 s2. map_of (sessions st) 1 = Some (Appliance s1) \<and> map_of (sessions st) 2 = Some (Appliance s2) \<and>
      fst (access_deliver st ''lime/devices/dev'' 1) \<and> s_entryId s1 = s_entryId s2 \<and> s_ip s1 = s_ip s2"
proof -
  define cfg where "cfg = \<lparr>accounts = [], json_parse = \<lambda>_. None, sha256 = \<lambda>_. [], resolveSource = None\<rparr>"
  define cp where "cp = \<lparr>username = None, password = None, keepalive = None, cp_will = None\<rparr>"
  define st0 where "st0 = init_access [\<lparr>entryId = ''e1'', ip = ''10.0.0.2'', deviceId = Some ''dev'', autoLink = None,
        entry_platform = Some Thinq2\<rparr>]"
  define st1 where "st1 = snd (access_connect cfg st0 cp 1 (Some ''10.0.0.2'') False False)"
  define st2 where "st2 = snd (access_connect cfg st1 cp 2 (Some ''10.0.0.2'') False False)"
  define ses where "ses = \<lparr>s_entryId = ''e1'', s_ip = ''10.0.0.2'', s_id = Some ''dev'', s_linked = True, s_revoked = False\<rparr>"
  have "map_of (sessions st0) 1 = None" by (simp add: st0_def init_access_def)
  then have "access_reach cfg st1" unfolding st1_def st0_def by (intro r_connect r_init)
  moreover have s1: "sessions st1 = [(1, Appliance ses)]"
    unfolding st1_def cfg_def cp_def st0_def ses_def by code_simp
  ultimately have reach: "access_reach cfg st2" unfolding st2_def by (intro r_connect) simp_all
  have s2: "sessions st2 = [(1, Appliance ses), (2, Appliance ses)]"
    unfolding st2_def st1_def cfg_def cp_def st0_def ses_def by code_simp
  have d: "fst (access_deliver st2 ''lime/devices/dev'' 1)" "fst (access_deliver st2 ''lime/devices/dev'' 2)"
    unfolding st2_def st1_def cfg_def cp_def st0_def by code_simp+
  have "s_entryId ses = s_entryId ses \<and> s_ip ses = s_ip ses"
    by (rule downlink_isolated [OF reach d(1) _ d(2)]) (simp_all add: s2)
  then show ?thesis
    using s2 d unfolding Let_def cfg_def [symmetric] cp_def [symmetric]
    by (fold init_access_def, fold st0_def, fold st1_def, fold st2_def) auto
qed

text \<open>
  An appliance reads its downlink only while the inventory agrees: exactly one entry has
  the session's entry id, it still has the address the session came from, as the only entry, it
  may be linked and is not a ThinQ 1 one, and no other entry has the device.
\<close>

theorem deliver_authorised:
  assumes "fst (access_deliver st t cid)" and "map_of (sessions st) cid = Some (Appliance s)"
  shows "\<exists>did e. parseDeviceTopic t = Some (Lime, did) \<and> s_id s = Some did \<and> \<not> s_revoked s \<and>
    filter (\<lambda>e. entryId e = s_entryId s) (inventory st) = [e] \<and> ip e = s_ip s \<and>
    autoLink e \<noteq> Some False \<and> entry_platform e \<noteq> Some Thinq1 \<and>
    length (filter (\<lambda>other. ip other = s_ip s) (inventory st)) = 1 \<and>
    list_all (\<lambda>other. entryId other = s_entryId s \<or> deviceId other \<noteq> Some did) (inventory st)"
proof -
  obtain did e where d: "parseDeviceTopic t = Some (Lime, did)" "s_id s = Some did" and e: "entry_for st s e"
    by (rule deliver_appliance [OF assms])
  have "did \<noteq> []" using parseDeviceTopic_safe [OF d(1)] by (simp add: isSafeDeviceId_def)
  with d e show ?thesis by (auto simp: entry_for_def list_all_iff)
qed

theorem deliver_authorised_witness:
  "\<exists>did e. parseDeviceTopic ''lime/devices/dev'' = Some (Lime, did) \<and> Some ''dev'' = Some did \<and> \<not> False \<and>
    filter (\<lambda>e. entryId e = ''e1'') [\<lparr>entryId = ''e1'', ip = ''10.0.0.2'', deviceId = None, autoLink = None,
      entry_platform = None\<rparr>] = [e] \<and> ip e = ''10.0.0.2'' \<and> autoLink e \<noteq> Some False \<and> entry_platform e \<noteq> Some Thinq1 \<and>
    list_all (\<lambda>other. entryId other = ''e1'' \<or> deviceId other \<noteq> Some did) [\<lparr>entryId = ''e1'', ip = ''10.0.0.2'',
      deviceId = None, autoLink = None, entry_platform = None\<rparr>]"
proof -
  let ?s = "\<lparr>s_entryId = ''e1'', s_ip = ''10.0.0.2'', s_id = Some ''dev'', s_linked = False, s_revoked = False\<rparr>"
  let ?st = "\<lparr>inventory = [\<lparr>entryId = ''e1'', ip = ''10.0.0.2'', deviceId = None, autoLink = None,
      entry_platform = None\<rparr>], sessions = [(0, Appliance ?s)], claims = [], source_ips = []\<rparr>"
  have "fst (access_deliver ?st ''lime/devices/dev'' 0)" by code_simp
  from deliver_authorised [OF this] show ?thesis by simp
qed

subsection \<open>The policy the broker is given\<close>

interpretation device_access: mqtt_policy "DeviceMQTTAccess cfg"
  "\<lambda>t. \<exists>k did. parseDeviceTopic t = Some (k, did) \<and> isSafeDeviceId did"
proof
  fix p t cid p'
  assume "pol_deliver (DeviceMQTTAccess cfg) p t cid = (True, p')"
  then obtain k did where "parseDeviceTopic t = Some (k, did)"
    by (auto simp: DeviceMQTTAccess_def access_deliver_def split: option.splits session.splits)
  then show "\<exists>k did. parseDeviceTopic t = Some (k, did) \<and> isSafeDeviceId did"
    using parseDeviceTopic_safe by blast
qed

text \<open>
  C26. Through the broker, with this policy and any traffic, a connection only ever receives
  messages whose topic is one complete device topic with a safe identifier.
\<close>

theorem broker_delivers_device_topics:
  assumes "Deliver cid pk \<in> set (out (broker_run (DeviceMQTTAccess cfg) st evs))"
  shows "\<exists>k did. parseDeviceTopic (topic pk) = Some (k, did) \<and> isSafeDeviceId did"
  using assms by (rule device_access.deliveries_readable)

text \<open>The run of the witness: a linked appliance subscribes to its topic, the server publishes to it.\<close>

definition demo_config :: access_config where
  "demo_config = \<lparr>accounts = [], json_parse = \<lambda>_. None, sha256 = \<lambda>_. [], resolveSource = None\<rparr>"

definition demo_packet :: packet where
  "demo_packet = \<lparr>topic = ''lime/devices/dev'', payload = ''{}'', qos = 0, retain = False, message_id = None,
     properties = None\<rparr>"

definition demo_run :: "access_state broker" where
  "demo_run = broker_run (DeviceMQTTAccess demo_config)
    (init_access [\<lparr>entryId = ''e1'', ip = ''10.0.0.2'', deviceId = Some ''dev'', autoLink = None,
        entry_platform = Some Thinq2\<rparr>])
    (let cp = \<lparr>username = None, password = None, keepalive = Some 60, cp_will = None\<rparr> in
     [EvAccept (Some ''::ffff:10.0.0.2'') True, EvConnect 0 cp, EvPolicy 0 cp, EvVerdict 0 False,
      EvOperation 0 (OpSubscribe [''lime/devices/dev''] (Some 1)), EvServerPublish demo_packet])"

theorem broker_delivers_device_topics_witness:
  "Deliver 0 demo_packet \<in> set (out demo_run) \<and>
    (\<exists>k did. parseDeviceTopic (topic demo_packet) = Some (k, did) \<and> isSafeDeviceId did)"
proof
  show d: "Deliver 0 demo_packet \<in> set (out demo_run)"
    by (simp add: demo_run_def demo_config_def demo_packet_def broker_run_def new_broker_def init_access_def
        accept_def new_client_def on_connect_def on_policy_def on_verdict_def do_operation_def run_op_def
        publish_def publishAllowed_def try_publish_def subscribe_def grant_def send_retained_def set_client_def
        emit_def DeviceMQTTAccess_def access_connect_def appliance_connect_def open_session_def new_session_def
        connect_will_def access_subscribe_def access_deliver_def bind_id_def current_def set_session_def
        purge_claim_def still_claims_def add_claim_def parseDeviceTopic_def safe_after_def strip_prefix_def
        starts_with_def isSafeDeviceId_def safe_id_char_def alnum_def alpha_def digit_def decimal_def digit_value_def
        normalizeMQTTAddress_def without_prefix_def isIPv4_def ipv4_part_def validFilter_def has_wildcard_def
        MAX_FILTER_LENGTH_def mqttTopicMatches_def idx_def idleTimeoutFor_def MIN_IDLE_TIMEOUT_MS_def broker_limits Let_def)
  show "\<exists>k did. parseDeviceTopic (topic demo_packet) = Some (k, did) \<and> isSafeDeviceId did"
    by (rule broker_delivers_device_topics [OF d [unfolded demo_run_def]])
qed

end
