(* ===== verification/RouterStore.thy ===== *)
theory RouterStore
  imports JsValues
begin

text \<open>
  The router settings and the list of managed devices: \<open>router/config-store.ts\<close>. The state is
  the configuration in memory, the copy of what the file holds (\<open>persisted\<close>), and the set of
  released entries. Every mutation saves; whether the file system accepts the write is the
  argument \<open>ok\<close> of the operation, and a refused write is the error \<open>SaveFailed\<close> after the
  roll-back. The random identifier of a new entry is an argument too.
\<close>

record router =
  host :: string
  port :: int
  r_username :: string
  r_password :: string
  rethinkIp :: string
  hostKeyFingerprint :: "string option"

datatype entry_mode = Dnat | Local

record device_entry =
  de_entryId :: string
  de_ip :: string
  de_deviceId :: "string option"
  de_autoLink :: "bool option"
  detectedName :: "string option"
  customName :: "string option"
  de_platform :: "platform option"
  de_mode :: "entry_mode option"
  dnatDesired :: "bool option"

record router_config =
  router :: router
  devices :: "device_entry list"

record store =
  config :: router_config
  persisted :: router_config
  released :: "string list"

datatype store_error =
    InvalidRouterIp | InvalidRethinkIp | InvalidPort | UsernameRequired | PasswordRequired
  | InvalidFingerprint | ServerIpIsDevice | InvalidMode | InvalidDeviceIp | IpIsServer
  | IpRegistered | UnknownDevice | AlreadyLinked | SaveFailed

type_synonym 'a store_result = "store \<times> (store_error + 'a)"

definition emptyConfig :: router_config where
  "emptyConfig = \<lparr>router = \<lparr>host = [], port = 22, r_username = [], r_password = [], rethinkIp = [],
     hostKeyFingerprint = None\<rparr>, devices = []\<rparr>"

definition validIPv4 :: "string \<Rightarrow> bool" where
  "validIPv4 v = isIPv4 v"

subsection \<open>Host key fingerprints\<close>

text \<open>
  Base64 as the check uses it: 6-bit groups to bytes and back. Decoding drops the bits that do
  not fill a byte, encoding pads with zero bits.
\<close>

definition b64_alphabet :: string where
  "b64_alphabet = ''ABCDEFGHIJKLMNOPQRSTUVWXYZabcdefghijklmnopqrstuvwxyz0123456789+/''"

fun index_of :: "'a list \<Rightarrow> 'a \<Rightarrow> nat" where
  "index_of [] x = 0"
| "index_of (y # ys) x = (if x = y then 0 else Suc (index_of ys x))"

fun to_bits :: "nat \<Rightarrow> nat \<Rightarrow> bool list" where
  "to_bits 0 n = []"
| "to_bits (Suc k) n = to_bits k (n div 2) @ [n mod 2 = 1]"

definition from_bits :: "bool list \<Rightarrow> nat" where
  "from_bits bs = foldl (\<lambda>n b. 2 * n + (if b then 1 else 0)) 0 bs"

function groups :: "nat \<Rightarrow> 'a list \<Rightarrow> 'a list list" where
  "groups k xs = (if k = 0 \<or> xs = [] then [] else take k xs # groups k (drop k xs))"
  by pat_completeness auto
termination by (relation "measure (\<lambda>(k, xs). length xs)") auto

declare groups.simps [simp del]

definition b64_decode :: "string \<Rightarrow> nat list" where
  "b64_decode s = map from_bits
    (filter (\<lambda>g. length g = 8) (groups 8 (concat (map (\<lambda>c. to_bits 6 (index_of b64_alphabet c)) s))))"

definition b64_encode :: "nat list \<Rightarrow> string" where
  "b64_encode bytes = map (\<lambda>g. b64_alphabet ! from_bits (g @ replicate (6 - length g) False))
    (groups 6 (concat (map (to_bits 8) bytes)))"

text \<open>\<open>toString('base64').replace(/=+$/, '')\<close> is the encoding without padding characters.\<close>

definition isHostKeyFingerprint :: "string \<Rightarrow> bool" where
  "isHostKeyFingerprint v \<longleftrightarrow>
    (case strip_prefix ''SHA256:'' v of
       None \<Rightarrow> False
     | Some b \<Rightarrow> length b = 43 \<and> list_all (\<lambda>c. c \<in> set b64_alphabet) b \<and> b64_encode (b64_decode b) = b)"

subsection \<open>Loading and saving\<close>

text \<open>The companion file as \<open>open\<close> and \<open>fstat\<close> report it; \<open>content\<close> is the parsed JSON.\<close>

record trust_file =
  is_file :: bool
  own_uid :: bool
  perms :: nat
  fsize :: nat
  content :: "json option"

definition companionFingerprint :: "trust_file option \<Rightarrow> router \<Rightarrow> string option" where
  "companionFingerprint file r =
    (case file of None \<Rightarrow> None | Some f \<Rightarrow>
       if \<not> is_file f \<or> \<not> own_uid f \<or> perms f \<noteq> 0x180 \<or> fsize f > 4096 then None
       else (case content f of None \<Rightarrow> None | Some trust \<Rightarrow>
         if field ''host'' trust = Some (JStr (host r)) \<and> field ''port'' trust = Some (JNum (port r)) then
           (case field ''hostKeyFingerprint'' trust of
              Some (JStr fp) \<Rightarrow> if isHostKeyFingerprint fp then Some fp else None
            | _ \<Rightarrow> None)
         else None))"

text \<open>
  \<open>load\<close>: the parsed file with the defaults merged in, or \<open>None\<close> when reading or parsing threw.
  \<open>devices\<close> is \<open>None\<close> when it is not an array, and an element \<open>None\<close> when it is not an object;
  \<open>has_key\<close> is whether the file's router settings have a fingerprint of their own.
\<close>

definition load ::
  "(router \<times> bool \<times> device_entry option list option) option \<Rightarrow> trust_file option \<Rightarrow> router_config"
where
  "load parsed file =
    (case parsed of None \<Rightarrow> emptyConfig | Some (r, has_key, devs) \<Rightarrow>
       let r = (if has_key then r
                else case companionFingerprint file r of
                  Some fp \<Rightarrow> r\<lparr>hostKeyFingerprint := Some fp\<rparr> | None \<Rightarrow> r)
       in \<lparr>router = r,
           devices = (case devs of None \<Rightarrow> []
             | Some es \<Rightarrow> map the (filter (\<lambda>e. case e of Some d \<Rightarrow> validIPv4 (de_ip d) | None \<Rightarrow> False) es))\<rparr>)"

definition new_store :: "router_config \<Rightarrow> store" where
  "new_store c = \<lparr>config = c, persisted = c, released = []\<rparr>"

definition save :: "bool \<Rightarrow> 'a \<Rightarrow> store \<Rightarrow> 'a store_result" where
  "save ok a st =
    (if ok then (st\<lparr>persisted := config st\<rparr>, Inr a)
     else (st\<lparr>config := persisted st\<rparr>, Inl SaveFailed))"

subsection \<open>The router settings\<close>

definition hasConnectionSettings :: "store \<Rightarrow> bool" where
  "hasConnectionSettings st \<longleftrightarrow> (let r = router (config st) in
    validIPv4 (host r) \<and> validIPv4 (rethinkIp r) \<and> r_username r \<noteq> [] \<and> r_password r \<noteq> [] \<and> port r > 0)"

definition configured :: "store \<Rightarrow> bool" where
  "configured st \<longleftrightarrow> hasConnectionSettings st \<and>
    (case hostKeyFingerprint (router (config st)) of Some fp \<Rightarrow> isHostKeyFingerprint fp | None \<Rightarrow> False)"

record public_router =
  pub_host :: string
  pub_port :: int
  pub_username :: string
  pub_rethinkIp :: string
  pub_fingerprint :: "string option"
  passwordSaved :: bool

definition publicRouter :: "store \<Rightarrow> public_router" where
  "publicRouter st = (let r = router (config st) in
    \<lparr>pub_host = host r, pub_port = port r, pub_username = r_username r, pub_rethinkIp = rethinkIp r,
     pub_fingerprint = hostKeyFingerprint r, passwordSaved = (r_password r \<noteq> [])\<rparr>)"

definition set_router :: "router \<Rightarrow> store \<Rightarrow> store" where
  "set_router r st = st\<lparr>config := (config st)\<lparr>router := r\<rparr>\<rparr>"

definition set_devices :: "device_entry list \<Rightarrow> store \<Rightarrow> store" where
  "set_devices ds st = st\<lparr>config := (config st)\<lparr>devices := ds\<rparr>\<rparr>"

text \<open>A key of the request that is present must agree with what is saved.\<close>

definition agrees :: "json \<Rightarrow> string \<Rightarrow> json \<Rightarrow> bool" where
  "agrees req key v \<longleftrightarrow> (case field key req of None \<Rightarrow> True | Some w \<Rightarrow> w = v)"

definition recoverHostKeyFingerprint :: "bool \<Rightarrow> json \<Rightarrow> store \<Rightarrow> bool store_result" where
  "recoverHostKeyFingerprint ok input st =
    (let current = router (config st) in
     if hostKeyFingerprint current \<noteq> None \<and> hostKeyFingerprint current \<noteq> Some [] then (st, Inr False)
     else case input of
       JObj kvs \<Rightarrow>
         (case field ''hostKeyFingerprint'' input of
            Some (JStr fp) \<Rightarrow>
              if \<not> isHostKeyFingerprint fp \<or>
                 list_ex (\<lambda>(key, _). key \<notin> {''host'', ''port'', ''username'', ''password'', ''rethinkIp'',
                   ''hostKeyFingerprint''}) kvs \<or>
                 \<not> agrees input ''host'' (JStr (host current)) \<or> \<not> agrees input ''port'' (JNum (port current)) \<or>
                 \<not> agrees input ''username'' (JStr (r_username current)) \<or>
                 \<not> agrees input ''rethinkIp'' (JStr (rethinkIp current)) \<or>
                 (field ''password'' input \<noteq> None \<and> field ''password'' input \<noteq> Some (JStr [])) \<or>
                 \<not> validIPv4 (host current) \<or> \<not> validIPv4 (rethinkIp current) \<or>
                 port current < 1 \<or> port current > 65535 \<or> r_username current = [] \<or> r_password current = []
              then (st, Inr False)
              else save ok True (set_router (current\<lparr>hostKeyFingerprint := Some fp\<rparr>) st)
          | _ \<Rightarrow> (st, Inr False))
     | _ \<Rightarrow> (st, Inr False))"

text \<open>\<open>Partial<RouterSSHConfig>\<close>.\<close>

record router_input =
  i_host :: "string option"
  i_port :: "int option"
  i_username :: "string option"
  i_password :: "string option"
  i_rethinkIp :: "string option"
  i_fingerprint :: "string option"

definition or_else :: "'a option \<Rightarrow> 'a \<Rightarrow> 'a" where
  "or_else x d = (case x of Some v \<Rightarrow> v | None \<Rightarrow> d)"

definition next_router :: "router_input \<Rightarrow> router \<Rightarrow> router" where
  "next_router i current =
    \<lparr>host = trim (or_else (i_host i) (host current)), port = or_else (i_port i) (port current),
     r_username = trim (or_else (i_username i) (r_username current)),
     r_password = (case i_password i of Some p \<Rightarrow> if p \<noteq> [] then p else r_password current
                   | None \<Rightarrow> r_password current),
     rethinkIp = trim (or_else (i_rethinkIp i) (rethinkIp current)),
     hostKeyFingerprint =
       (case i_fingerprint i of
          Some fp \<Rightarrow> Some (trim fp)
        | None \<Rightarrow>
            if trim (or_else (i_host i) (host current)) = host current \<and>
               or_else (i_port i) (port current) = port current
            then hostKeyFingerprint current else None)\<rparr>"

definition updateRouter :: "bool \<Rightarrow> router_input \<Rightarrow> store \<Rightarrow> public_router store_result" where
  "updateRouter ok i st =
    (let r = next_router i (router (config st)) in
     if \<not> validIPv4 (host r) then (st, Inl InvalidRouterIp)
     else if \<not> validIPv4 (rethinkIp r) then (st, Inl InvalidRethinkIp)
     else if port r < 1 \<or> port r > 65535 then (st, Inl InvalidPort)
     else if r_username r = [] then (st, Inl UsernameRequired)
     else if r_password r = [] then (st, Inl PasswordRequired)
     else if (case hostKeyFingerprint r of Some fp \<Rightarrow> fp \<noteq> [] \<and> \<not> isHostKeyFingerprint fp | None \<Rightarrow> False)
     then (st, Inl InvalidFingerprint)
     else if list_ex (\<lambda>e. de_ip e = host r \<or> de_ip e = rethinkIp r) (devices (config st))
     then (st, Inl ServerIpIsDevice)
     else
       let st = set_router r st in
       save ok (publicRouter st) st)"

subsection \<open>The devices\<close>

definition parse_mode :: "string option \<Rightarrow> (entry_mode option) option" where
  "parse_mode m =
    (case m of None \<Rightarrow> Some None
     | Some s \<Rightarrow> if s = ''dnat'' then Some (Some Dnat) else if s = ''local'' then Some (Some Local) else None)"

definition addDevice :: "bool \<Rightarrow> string \<Rightarrow> string \<Rightarrow> string option \<Rightarrow> store \<Rightarrow> device_entry store_result" where
  "addDevice ok uuid addr mode st =
    (case parse_mode mode of None \<Rightarrow> (st, Inl InvalidMode) | Some md \<Rightarrow>
       let addr = trim addr; r = router (config st) in
       if \<not> validIPv4 addr then (st, Inl InvalidDeviceIp)
       else if addr = host r \<or> addr = rethinkIp r then (st, Inl IpIsServer)
       else if list_ex (\<lambda>e. de_ip e = addr) (devices (config st)) then (st, Inl IpRegistered)
       else
         let entry = \<lparr>de_entryId = uuid, de_ip = addr, de_deviceId = None, de_autoLink = None,
                      detectedName = None, customName = None, de_platform = None, de_mode = md,
                      dnatDesired = None\<rparr>
         in save ok entry (set_devices (devices (config st) @ [entry]) st))"

text \<open>
  \<open>find\<close> and \<open>findIndex\<close> by entry id. The found object is changed in place: \<open>set_entry\<close>
  replaces the entry at its index.
\<close>

fun find_index :: "('a \<Rightarrow> bool) \<Rightarrow> 'a list \<Rightarrow> nat option" where
  "find_index P [] = None"
| "find_index P (x # xs) = (if P x then Some 0 else map_option Suc (find_index P xs))"

definition requireDevice :: "string \<Rightarrow> store \<Rightarrow> store_error + (nat \<times> device_entry)" where
  "requireDevice eid st =
    (case find_index (\<lambda>e. de_entryId e = eid) (devices (config st)) of
       None \<Rightarrow> Inl UnknownDevice
     | Some i \<Rightarrow> Inr (i, devices (config st) ! i))"

definition set_entry :: "nat \<Rightarrow> device_entry \<Rightarrow> store \<Rightarrow> store" where
  "set_entry i e st = set_devices ((devices (config st))[i := e]) st"

text \<open>\<open>some((other) => other !== entry \<and> ...)\<close>: the objects are told apart by their place.\<close>

definition some_other :: "(device_entry \<Rightarrow> bool) \<Rightarrow> nat \<Rightarrow> store \<Rightarrow> bool" where
  "some_other P i st \<longleftrightarrow> list_ex (\<lambda>(j, e). j \<noteq> i \<and> P e) (enumerate 0 (devices (config st)))"

definition updateDevice ::
  "bool \<Rightarrow> string \<Rightarrow> string option \<Rightarrow> string option \<Rightarrow> string option \<Rightarrow> store \<Rightarrow> device_entry store_result"
where
  "updateDevice ok eid new_ip new_name mode st =
    (case requireDevice eid st of Inl err \<Rightarrow> (st, Inl err) | Inr (i, e) \<Rightarrow>
     case parse_mode mode of None \<Rightarrow> (st, Inl InvalidMode) | Some md \<Rightarrow>
       let e_md = (case md of Some m \<Rightarrow> (\<lambda>e. e\<lparr>de_mode := Some m\<rparr>) | None \<Rightarrow> (\<lambda>e. e));
           e_name = (case new_name of
                       Some n \<Rightarrow> (\<lambda>e. e\<lparr>customName := (if trim n = [] then None else Some (trim n))\<rparr>)
                     | None \<Rightarrow> (\<lambda>e. e));
           finish = (\<lambda>e. let e = e_name (e_md e) in save ok e (set_entry i e st))
       in case new_ip of
            None \<Rightarrow> finish e
          | Some a \<Rightarrow>
              let addr = trim a; r = router (config st) in
              if addr = de_ip e then finish e
              else if \<not> validIPv4 addr then (st, Inl InvalidDeviceIp)
              else if addr = host r \<or> addr = rethinkIp r then (st, Inl IpIsServer)
              else if some_other (\<lambda>o'. de_ip o' = addr) i st then (st, Inl IpRegistered)
              else finish (e\<lparr>de_ip := addr, de_autoLink := None, de_deviceId := None,
                             detectedName := None, de_platform := None\<rparr>))"

definition deleteDevice :: "bool \<Rightarrow> string \<Rightarrow> store \<Rightarrow> unit store_result" where
  "deleteDevice ok eid st =
    (case find_index (\<lambda>e. de_entryId e = eid) (devices (config st)) of
       None \<Rightarrow> (st, Inl UnknownDevice)
     | Some i \<Rightarrow> save ok () (set_devices (take i (devices (config st)) @ drop (Suc i) (devices (config st))) st))"

definition linkDevice ::
  "bool \<Rightarrow> string \<Rightarrow> string \<Rightarrow> string option \<Rightarrow> platform option \<Rightarrow> store \<Rightarrow> device_entry store_result"
where
  "linkDevice ok eid did name plat st =
    (case requireDevice eid st of Inl err \<Rightarrow> (st, Inl err) | Inr (i, e) \<Rightarrow>
       if some_other (\<lambda>o'. de_deviceId o' = Some did) i st then (st, Inl AlreadyLinked)
       else
         let e = e\<lparr>de_deviceId := Some did, de_autoLink := None\<rparr>;
             e = (case name of Some n \<Rightarrow> if n \<noteq> [] then e\<lparr>detectedName := Some n\<rparr> else e | None \<Rightarrow> e);
             e = (case plat of Some p \<Rightarrow> e\<lparr>de_platform := Some p\<rparr> | None \<Rightarrow> e)
         in save ok e (set_entry i e st))"

definition unlinkDevice :: "bool \<Rightarrow> string \<Rightarrow> store \<Rightarrow> device_entry store_result" where
  "unlinkDevice ok eid st =
    (case requireDevice eid st of Inl err \<Rightarrow> (st, Inl err) | Inr (i, e) \<Rightarrow>
       let e = e\<lparr>de_autoLink := Some False, de_deviceId := None, detectedName := None, de_platform := None\<rparr>
       in save ok e (set_entry i e st))"

definition linkByIp ::
  "bool \<Rightarrow> string option \<Rightarrow> string \<Rightarrow> string option \<Rightarrow> platform option \<Rightarrow> store \<Rightarrow> bool store_result"
where
  "linkByIp ok addr did name plat st =
    (case addr of None \<Rightarrow> (st, Inr False) | Some a \<Rightarrow>
     if a = [] then (st, Inr False)
     else case find_index (\<lambda>e. de_ip e = a) (devices (config st)) of
       None \<Rightarrow> (st, Inr False)
     | Some i \<Rightarrow>
         let e = devices (config st) ! i in
         if de_autoLink e = Some False then (st, Inr False)
         else if de_deviceId e \<noteq> None \<and> de_deviceId e \<noteq> Some [] \<and> de_deviceId e \<noteq> Some did then (st, Inr False)
         else if some_other (\<lambda>o'. de_deviceId o' = Some did) i st then (st, Inr False)
         else
           let new_name = (case name of Some n \<Rightarrow> n \<noteq> [] | None \<Rightarrow> False);
               changed = (de_deviceId e \<noteq> Some did \<or> (new_name \<and> detectedName e \<noteq> name));
               e' = e\<lparr>de_deviceId := Some did\<rparr>;
               e' = (if new_name then e'\<lparr>detectedName := name\<rparr> else e');
               st' = set_entry i e' st
           in if plat \<noteq> None \<and> de_platform e' \<noteq> plat
              then save ok True (set_entry i (e'\<lparr>de_platform := plat\<rparr>) st')
              else if changed then save ok changed st'
              else (st', Inr changed))"

definition setDnatDesired :: "bool \<Rightarrow> string \<Rightarrow> bool \<Rightarrow> store \<Rightarrow> device_entry store_result" where
  "setDnatDesired ok eid desired st =
    (case requireDevice eid st of Inl err \<Rightarrow> (st, Inl err) | Inr (i, e) \<Rightarrow>
       if dnatDesired e = Some desired then (st, Inr e)
       else let e = e\<lparr>dnatDesired := Some desired\<rparr> in save ok e (set_entry i e st))"

definition refreshDetectedName :: "bool \<Rightarrow> string \<Rightarrow> string option \<Rightarrow> store \<Rightarrow> bool store_result" where
  "refreshDetectedName ok did name st =
    (case name of None \<Rightarrow> (st, Inr False) | Some n \<Rightarrow>
     if n = [] then (st, Inr False)
     else case find_index (\<lambda>e. de_deviceId e = Some did) (devices (config st)) of
       None \<Rightarrow> (st, Inr False)
     | Some i \<Rightarrow>
         let e = devices (config st) ! i in
         if detectedName e = Some n then (st, Inr False)
         else save ok True (set_entry i (e\<lparr>detectedName := Some n\<rparr>) st))"

subsection \<open>Well-formed configurations\<close>

text \<open>No two entries share a value of \<open>f\<close>.\<close>

definition uniq :: "('a \<Rightarrow> 'b option) \<Rightarrow> 'a list \<Rightarrow> bool" where
  "uniq f xs \<longleftrightarrow> (\<forall>i < length xs. \<forall>j < length xs. f (xs ! i) \<noteq> None \<longrightarrow> f (xs ! i) = f (xs ! j) \<longrightarrow> i = j)"

lemma uniqD:
  "uniq f xs \<Longrightarrow> i < length xs \<Longrightarrow> j < length xs \<Longrightarrow> f (xs ! i) \<noteq> None \<Longrightarrow> f (xs ! i) = f (xs ! j) \<Longrightarrow> i = j"
  unfolding uniq_def by blast

lemma uniqI:
  "(\<And>i j. i < length xs \<Longrightarrow> j < length xs \<Longrightarrow> f (xs ! i) \<noteq> None \<Longrightarrow> f (xs ! i) = f (xs ! j) \<Longrightarrow> i = j) \<Longrightarrow> uniq f xs"
  unfolding uniq_def by blast

lemma uniq_update:
  assumes u: "uniq f xs" and e: "f e = None \<or> (\<forall>j < length xs. j \<noteq> i \<longrightarrow> f (xs ! j) \<noteq> f e)"
  shows "uniq f (xs[i := e])"
proof (rule uniqI)
  fix a b
  assume a: "a < length (xs[i := e])" and b: "b < length (xs[i := e])"
    and n: "f (xs[i := e] ! a) \<noteq> None" and eq: "f (xs[i := e] ! a) = f (xs[i := e] ! b)"
  consider "a = i" "b = i" | "a = i" "b \<noteq> i" | "a \<noteq> i" "b = i" | "a \<noteq> i" "b \<noteq> i" by blast
  then show "a = b"
  proof cases
    case 2
    then have "f (xs ! b) = f e" "f e \<noteq> None" using a n eq by simp_all
    with e b 2 show ?thesis by auto
  next
    case 3
    then have "f (xs ! a) = f e" "f e \<noteq> None" using b n eq by simp_all
    with e a 3 show ?thesis by auto
  next
    case 4
    then show ?thesis using uniqD [OF u, of a b] a b n eq by simp
  qed simp
qed

lemma uniq_update_same: "uniq f xs \<Longrightarrow> f e = f (xs ! i) \<Longrightarrow> uniq f (xs[i := e])"
proof (cases "i < length xs")
  case True
  assume u: "uniq f xs" and e: "f e = f (xs ! i)"
  have "f (xs[i := e] ! a) = f (xs ! a)" if "a < length xs" for a
    using e that by (cases "a = i") simp_all
  then show ?thesis using uniqD [OF u] by (intro uniqI) simp
qed (simp add: list_update_beyond)

lemma uniq_snoc:
  assumes u: "uniq f xs" and e: "f e = None \<or> f e \<notin> f ` set xs"
  shows "uniq f (xs @ [e])"
proof (rule uniqI)
  fix a b
  assume a: "a < length (xs @ [e])" and b: "b < length (xs @ [e])"
    and n: "f ((xs @ [e]) ! a) \<noteq> None" and eq: "f ((xs @ [e]) ! a) = f ((xs @ [e]) ! b)"
  have new: "f (xs ! c) \<noteq> f e" if "c < length xs" "f e \<noteq> None" for c
    using e that by (metis image_eqI nth_mem)
  consider "a < length xs" "b < length xs" | "a < length xs" "b = length xs" | "a = length xs" "b < length xs"
    | "a = length xs" "b = length xs" using a b by fastforce
  then show "a = b"
  proof cases
    case 1
    then show ?thesis using uniqD [OF u, of a b] n eq by (simp add: nth_append)
  next
    case 2
    then show ?thesis using new [of a] n eq by (simp add: nth_append)
  next
    case 3
    then show ?thesis using new [of b] n eq by (simp add: nth_append)
  qed simp
qed

lemma uniq_remove:
  assumes "uniq f xs"
  shows "uniq f (take i xs @ drop (Suc i) xs)"
proof -
  define g where "g j = (if j < i then j else Suc j)" for j
  have *: "(take i xs @ drop (Suc i) xs) ! j = xs ! g j \<and> g j < length xs"
    if "j < length (take i xs @ drop (Suc i) xs)" for j
    using that by (auto simp: g_def nth_append min_def split: if_splits)
  have inj: "g j = g k \<Longrightarrow> j = k" for j k by (auto simp: g_def split: if_splits)
  show ?thesis
    unfolding uniq_def
  proof (intro allI impI)
    fix j k
    assume j: "j < length (take i xs @ drop (Suc i) xs)" and k: "k < length (take i xs @ drop (Suc i) xs)"
      and "f ((take i xs @ drop (Suc i) xs) ! j) \<noteq> None"
      and "f ((take i xs @ drop (Suc i) xs) ! j) = f ((take i xs @ drop (Suc i) xs) ! k)"
    with assms * [OF j] * [OF k] have "g j = g k" unfolding uniq_def by metis
    then show "j = k" by (rule inj)
  qed
qed

lemma find_index_Some:
  "find_index P xs = Some i \<Longrightarrow> i < length xs \<and> P (xs ! i) \<and> (\<forall>j < i. \<not> P (xs ! j))"
  by (induction xs arbitrary: i) (auto split: if_splits simp: less_Suc_eq_0_disj)

lemma some_other_iff:
  "some_other P i st \<longleftrightarrow> (\<exists>j < length (devices (config st)). j \<noteq> i \<and> P (devices (config st) ! j))"
  unfolding some_other_def list_ex_iff
  by (auto simp: in_set_enumerate_eq)

definition wf_config :: "router_config \<Rightarrow> bool" where
  "wf_config c \<longleftrightarrow>
    uniq (\<lambda>e. Some (de_entryId e)) (devices c) \<and> uniq (\<lambda>e. Some (de_ip e)) (devices c) \<and>
    uniq de_deviceId (devices c) \<and>
    list_all (\<lambda>e. validIPv4 (de_ip e) \<and> de_ip e \<noteq> host (router c) \<and> de_ip e \<noteq> rethinkIp (router c)) (devices c)"

definition store_inv :: "store \<Rightarrow> bool" where
  "store_inv st \<longleftrightarrow> wf_config (config st) \<and> persisted st = config st"

lemma save_inv: "wf_config (config st) \<Longrightarrow> wf_config (persisted st) \<Longrightarrow> store_inv (fst (save ok a st))"
  by (simp add: save_def store_inv_def)

lemma set_fields [simp]:
  "config (set_devices ds st) = (config st)\<lparr>devices := ds\<rparr>" "persisted (set_devices ds st) = persisted st"
  "config (set_router r st) = (config st)\<lparr>router := r\<rparr>" "persisted (set_router r st) = persisted st"
  "released (set_devices ds st) = released st" "released (set_router r st) = released st"
  by (simp_all add: set_devices_def set_router_def)

lemma wf_set_entry:
  assumes wf: "wf_config c" and i: "i < length (devices c)"
    and id': "de_entryId e = de_entryId (devices c ! i)"
    and ip': "de_ip e = de_ip (devices c ! i) \<or>
      (validIPv4 (de_ip e) \<and> de_ip e \<noteq> host (router c) \<and> de_ip e \<noteq> rethinkIp (router c) \<and>
       (\<forall>j < length (devices c). j \<noteq> i \<longrightarrow> de_ip (devices c ! j) \<noteq> de_ip e))"
    and dev: "de_deviceId e = de_deviceId (devices c ! i) \<or> de_deviceId e = None \<or>
      (\<forall>j < length (devices c). j \<noteq> i \<longrightarrow> de_deviceId (devices c ! j) \<noteq> de_deviceId e)"
  shows "wf_config (c\<lparr>devices := (devices c)[i := e]\<rparr>)"
proof -
  let ?ds = "devices c"
  have "uniq (\<lambda>e. Some (de_entryId e)) (?ds[i := e])"
    using wf id' by (intro uniq_update_same) (simp_all add: wf_config_def)
  moreover have "uniq (\<lambda>e. Some (de_ip e)) (?ds[i := e])"
    using ip'
  proof
    assume "de_ip e = de_ip (devices c ! i)"
    then show ?thesis using wf by (intro uniq_update_same) (simp_all add: wf_config_def)
  qed (use wf in \<open>auto intro!: uniq_update simp: wf_config_def\<close>)
  moreover have "uniq de_deviceId (?ds[i := e])"
    using dev
  proof
    assume "de_deviceId e = de_deviceId (devices c ! i)"
    then show ?thesis using wf by (intro uniq_update_same) (simp_all add: wf_config_def)
  qed (use wf in \<open>auto intro!: uniq_update simp: wf_config_def\<close>)
  moreover have "validIPv4 (de_ip e) \<and> de_ip e \<noteq> host (router c) \<and> de_ip e \<noteq> rethinkIp (router c)"
    using wf ip' i by (auto simp: wf_config_def list_all_length)
  then have "list_all (\<lambda>e. validIPv4 (de_ip e) \<and> de_ip e \<noteq> host (router c) \<and> de_ip e \<noteq> rethinkIp (router c)) (?ds[i := e])"
    using wf i by (auto simp: wf_config_def list_all_length nth_list_update)
  ultimately show ?thesis by (simp add: wf_config_def)
qed

lemma store_set_entry:
  assumes "store_inv st" and "wf_config ((config st)\<lparr>devices := (devices (config st))[i := e]\<rparr>)"
  shows "store_inv (fst (save ok a (set_entry i e st)))"
  using assms by (intro save_inv) (simp_all add: store_inv_def set_entry_def)

lemma requireDevice_Inr:
  "requireDevice eid st = Inr (i, e) \<Longrightarrow>
    i < length (devices (config st)) \<and> e = devices (config st) ! i \<and> de_entryId e = eid"
  by (auto simp: requireDevice_def split: option.splits dest: find_index_Some)

subsection \<open>Every operation keeps them\<close>

lemma updateRouter_inv:
  assumes inv: "store_inv st"
  shows "store_inv (fst (updateRouter ok i st))"
proof -
  let ?r = "next_router i (router (config st))"
  have "store_inv (fst (save ok a (set_router ?r st)))"
    if "validIPv4 (host ?r)" "\<not> list_ex (\<lambda>e. de_ip e = host ?r \<or> de_ip e = rethinkIp ?r) (devices (config st))" for a
  proof (rule save_inv)
    show "wf_config (config (set_router ?r st))"
      using inv that by (auto simp: store_inv_def wf_config_def list_ex_iff list_all_iff)
    show "wf_config (persisted (set_router ?r st))" using inv by (simp add: store_inv_def)
  qed
  with inv show ?thesis by (auto simp: updateRouter_def Let_def)
qed

lemma recover_inv:
  assumes inv: "store_inv st"
  shows "store_inv (fst (recoverHostKeyFingerprint ok input st))"
proof -
  have "store_inv (fst (save ok a (set_router ((router (config st))\<lparr>hostKeyFingerprint := fp\<rparr>) st)))" for a fp
    using inv by (intro save_inv) (simp_all add: store_inv_def wf_config_def)
  with inv show ?thesis
    by (auto simp: recoverHostKeyFingerprint_def Let_def split: json.split option.split)
qed

lemma addDevice_inv:
  assumes inv: "store_inv st" and fresh: "uuid \<notin> de_entryId ` set (devices (config st))"
  shows "store_inv (fst (addDevice ok uuid addr mode st))"
proof -
  have "wf_config ((config st)\<lparr>devices := devices (config st) @ [e]\<rparr>)"
    if "de_entryId e = uuid" "de_deviceId e = None" "validIPv4 (de_ip e)" "de_ip e \<noteq> host (router (config st))"
      "de_ip e \<noteq> rethinkIp (router (config st))" "\<not> list_ex (\<lambda>o'. de_ip o' = de_ip e) (devices (config st))" for e
    unfolding wf_config_def using inv fresh that
    by (intro conjI) (auto simp: store_inv_def wf_config_def list_ex_iff intro!: uniq_snoc)
  then have add: "store_inv (fst (save ok a (set_devices (devices (config st) @ [e]) st)))"
    if "de_entryId e = uuid" "de_deviceId e = None" "validIPv4 (de_ip e)" "de_ip e \<noteq> host (router (config st))"
      "de_ip e \<noteq> rethinkIp (router (config st))" "\<not> list_ex (\<lambda>o'. de_ip o' = de_ip e) (devices (config st))" for e a
    using inv that by (intro save_inv) (simp_all add: store_inv_def)
  show ?thesis
    using inv by (auto simp: addDevice_def Let_def split: option.split intro!: add)
qed

lemma updateDevice_inv:
  assumes inv: "store_inv st"
  shows "store_inv (fst (updateDevice ok eid new_ip new_name mode st))"
proof (cases "requireDevice eid st")
  case (Inl err)
  then show ?thesis using inv by (simp add: updateDevice_def)
next
  case (Inr p)
  obtain i e where p: "p = (i, e)" by (cases p)
  from requireDevice_Inr [OF Inr [unfolded p]] have i: "i < length (devices (config st))"
    and e: "e = devices (config st) ! i" by simp_all
  have wf: "wf_config (config st)" using inv by (simp add: store_inv_def)
  have fin: "store_inv (fst (save ok a (set_entry i u st)))"
    if "de_entryId u = de_entryId e" "de_deviceId u = de_deviceId e \<or> de_deviceId u = None"
      "de_ip u = de_ip e \<or> (validIPv4 (de_ip u) \<and> de_ip u \<noteq> host (router (config st)) \<and>
        de_ip u \<noteq> rethinkIp (router (config st)) \<and> \<not> some_other (\<lambda>o'. de_ip o' = de_ip u) i st)" for a u
    using that by (intro store_set_entry [OF inv] wf_set_entry [OF wf i]) (auto simp: e some_other_iff)
  show ?thesis
    using inv Inr unfolding p
    by (auto simp: updateDevice_def Let_def split: option.split intro!: fin)
qed

lemma deleteDevice_inv:
  assumes inv: "store_inv st"
  shows "store_inv (fst (deleteDevice ok eid st))"
proof -
  have "store_inv (fst (save ok a (set_devices (take i (devices (config st)) @ drop (Suc i) (devices (config st))) st)))" for a i
    using inv by (intro save_inv)
      (auto simp: store_inv_def wf_config_def uniq_remove list_all_iff dest: in_set_takeD in_set_dropD)
  with inv show ?thesis by (auto simp: deleteDevice_def split: option.split)
qed

lemma linkDevice_inv:
  assumes inv: "store_inv st"
  shows "store_inv (fst (linkDevice ok eid did name plat st))"
proof (cases "requireDevice eid st")
  case (Inl err)
  then show ?thesis using inv by (simp add: linkDevice_def)
next
  case (Inr p)
  obtain i e where p: "p = (i, e)" by (cases p)
  from requireDevice_Inr [OF Inr [unfolded p]] have i: "i < length (devices (config st))"
    and e: "e = devices (config st) ! i" by simp_all
  have wf: "wf_config (config st)" using inv by (simp add: store_inv_def)
  have fin: "store_inv (fst (save ok a (set_entry i u st)))"
    if "de_entryId u = de_entryId e" "de_ip u = de_ip e" "de_deviceId u = Some did"
      "\<not> some_other (\<lambda>o'. de_deviceId o' = Some did) i st" for a u
    using that by (intro store_set_entry [OF inv] wf_set_entry [OF wf i]) (auto simp: e some_other_iff)
  show ?thesis
    using inv Inr unfolding p
    by (auto simp: linkDevice_def Let_def split: option.split intro!: fin)
qed

lemma plain_entry_inv:
  assumes inv: "store_inv st" and i: "i < length (devices (config st))"
    and "de_entryId u = de_entryId (devices (config st) ! i)" and "de_ip u = de_ip (devices (config st) ! i)"
    and "de_deviceId u = de_deviceId (devices (config st) ! i) \<or> de_deviceId u = None"
  shows "store_inv (fst (save ok a (set_entry i u st)))"
  using assms by (intro store_set_entry [OF inv] wf_set_entry) (auto simp: store_inv_def)

lemma unlinkDevice_inv: "store_inv st \<Longrightarrow> store_inv (fst (unlinkDevice ok eid st))"
  by (auto simp: unlinkDevice_def Let_def split: sum.split dest!: requireDevice_Inr intro!: plain_entry_inv)

lemma setDnatDesired_inv: "store_inv st \<Longrightarrow> store_inv (fst (setDnatDesired ok eid desired st))"
  by (auto simp: setDnatDesired_def Let_def split: sum.split dest!: requireDevice_Inr intro!: plain_entry_inv)

lemma refreshDetectedName_inv: "store_inv st \<Longrightarrow> store_inv (fst (refreshDetectedName ok did name st))"
  by (auto simp: refreshDetectedName_def Let_def split: option.split dest!: find_index_Some intro!: plain_entry_inv)

lemma set_entry_same: "set_entry i (devices (config st) ! i) st = st"
  by (simp add: set_entry_def set_devices_def)

lemma set_entry_twice: "set_entry i u (set_entry i v st) = set_entry i u st"
  by (simp add: set_entry_def set_devices_def)

lemma linkByIp_inv:
  assumes inv: "store_inv st"
  shows "store_inv (fst (linkByIp ok addr did name plat st))"
proof (cases "\<exists>a i. addr = Some a \<and> find_index (\<lambda>e. de_ip e = a) (devices (config st)) = Some i")
  case False
  then show ?thesis using inv by (auto simp: linkByIp_def split: option.split)
next
  case True
  then obtain a i where a: "addr = Some a" and f: "find_index (\<lambda>e. de_ip e = a) (devices (config st)) = Some i" by blast
  from find_index_Some [OF f] have i: "i < length (devices (config st))" by simp
  define e where "e = devices (config st) ! i"
  have wf: "wf_config (config st)" using inv by (simp add: store_inv_def)
  have fin: "store_inv (fst (save ok x (set_entry i u st)))"
    if "de_entryId u = de_entryId e" "de_ip u = de_ip e" "de_deviceId u = Some did"
      "\<not> some_other (\<lambda>o'. de_deviceId o' = Some did) i st" for x u
    using that by (intro store_set_entry [OF inv] wf_set_entry [OF wf i]) (auto simp: e_def some_other_iff)
  define named where "named = (case name of Some n \<Rightarrow> n \<noteq> [] | None \<Rightarrow> False)"
  define u where "u = (if named then (e\<lparr>de_deviceId := Some did\<rparr>)\<lparr>detectedName := name\<rparr> else e\<lparr>de_deviceId := Some did\<rparr>)"
  have same: "set_entry i u st = st" if "\<not> (de_deviceId e \<noteq> Some did \<or> (named \<and> detectedName e \<noteq> name))"
  proof -
    have "u = e" using that by (cases e) (auto simp: u_def)
    then show ?thesis by (simp add: e_def set_entry_same)
  qed
  have "fst (linkByIp ok addr did name plat st) \<in>
      {st, fst (save ok True (set_entry i (u\<lparr>de_platform := plat\<rparr>) st)), fst (save ok True (set_entry i u st))} \<and>
    (fst (linkByIp ok addr did name plat st) = st \<or> \<not> some_other (\<lambda>o'. de_deviceId o' = Some did) i st)"
    unfolding linkByIp_def a option.case f e_def [symmetric] named_def [symmetric] u_def [symmetric] Let_def set_entry_twice
    using same by auto
  moreover have "de_entryId u = de_entryId e" "de_ip u = de_ip e" "de_deviceId u = Some did" by (simp_all add: u_def)
  ultimately show ?thesis
    using inv fin [of u] fin [of "u\<lparr>de_platform := plat\<rparr>"] by auto
qed

subsection \<open>Reachable stores\<close>

datatype store_op =
    UpdateRouter router_input
  | Recover json
  | AddDevice string string "string option"
  | UpdateDevice string "string option" "string option" "string option"
  | DeleteDevice string
  | LinkDevice string string "string option" "platform option"
  | UnlinkDevice string
  | LinkByIp "string option" string "string option" "platform option"
  | SetDnatDesired string bool
  | RefreshDetectedName string "string option"

fun store_step :: "bool \<Rightarrow> store_op \<Rightarrow> store \<Rightarrow> store" where
  "store_step ok (UpdateRouter i) st = fst (updateRouter ok i st)"
| "store_step ok (Recover input) st = fst (recoverHostKeyFingerprint ok input st)"
| "store_step ok (AddDevice uuid addr mode) st = fst (addDevice ok uuid addr mode st)"
| "store_step ok (UpdateDevice eid addr name mode) st = fst (updateDevice ok eid addr name mode st)"
| "store_step ok (DeleteDevice eid) st = fst (deleteDevice ok eid st)"
| "store_step ok (LinkDevice eid did name plat) st = fst (linkDevice ok eid did name plat st)"
| "store_step ok (UnlinkDevice eid) st = fst (unlinkDevice ok eid st)"
| "store_step ok (LinkByIp addr did name plat) st = fst (linkByIp ok addr did name plat st)"
| "store_step ok (SetDnatDesired eid desired) st = fst (setDnatDesired ok eid desired st)"
| "store_step ok (RefreshDetectedName did name) st = fst (refreshDetectedName ok did name st)"

text \<open>Random identifiers are fresh; nothing else is assumed of a call.\<close>

fun fresh_op :: "store_op \<Rightarrow> store \<Rightarrow> bool" where
  "fresh_op (AddDevice uuid _ _) st = (uuid \<notin> de_entryId ` set (devices (config st)))"
| "fresh_op _ st = True"

inductive store_reach :: "router_config \<Rightarrow> store \<Rightarrow> bool" for c0 where
  sr_init: "store_reach c0 (new_store c0)"
| sr_step: "store_reach c0 st \<Longrightarrow> fresh_op op st \<Longrightarrow> store_reach c0 (store_step ok op st)"
| sr_released: "store_reach c0 st \<Longrightarrow> store_reach c0 (st\<lparr>released := rs\<rparr>)"

lemma store_step_inv: "store_inv st \<Longrightarrow> fresh_op op st \<Longrightarrow> store_inv (store_step ok op st)"
  by (cases op) (simp_all add: updateRouter_inv recover_inv addDevice_inv updateDevice_inv deleteDevice_inv
      linkDevice_inv unlinkDevice_inv linkByIp_inv setDnatDesired_inv refreshDetectedName_inv)

lemma store_reach_inv: "store_reach c0 st \<Longrightarrow> wf_config c0 \<Longrightarrow> store_inv st"
proof (induction rule: store_reach.induct)
  case sr_init
  then show ?case by (simp add: new_store_def store_inv_def)
qed (simp_all add: store_step_inv, simp add: store_inv_def)

text \<open>
  The device list stays well formed under every operation, failed writes included: entry
  identifiers, addresses and linked devices are unique, every address is an IPv4 address and
  none is the router's or the server's; and what is in memory is what the file holds.
\<close>

theorem store_well_formed:
  assumes "store_reach c0 st" and "wf_config c0"
  shows "uniq (\<lambda>e. Some (de_entryId e)) (devices (config st)) \<and> uniq (\<lambda>e. Some (de_ip e)) (devices (config st)) \<and>
    uniq de_deviceId (devices (config st)) \<and>
    list_all (\<lambda>e. validIPv4 (de_ip e) \<and> de_ip e \<noteq> host (router (config st)) \<and>
      de_ip e \<noteq> rethinkIp (router (config st))) (devices (config st)) \<and>
    persisted st = config st"
  using store_reach_inv [OF assms] by (simp add: store_inv_def wf_config_def)

theorem store_well_formed_witness:
  "uniq (\<lambda>e. Some (de_ip e)) (devices (config (store_step True (AddDevice ''u1'' '' 10.0.0.2'' None) (new_store emptyConfig)))) \<and>
    map de_ip (devices (config (store_step True (AddDevice ''u1'' '' 10.0.0.2'' None) (new_store emptyConfig)))) = [''10.0.0.2'']"
proof -
  have "store_reach emptyConfig (store_step True (AddDevice ''u1'' '' 10.0.0.2'' None) (new_store emptyConfig))"
    by (intro sr_step sr_init) (simp add: new_store_def emptyConfig_def)
  moreover have "wf_config emptyConfig" by (simp add: wf_config_def emptyConfig_def uniq_def)
  ultimately have "uniq (\<lambda>e. Some (de_ip e))
      (devices (config (store_step True (AddDevice ''u1'' '' 10.0.0.2'' None) (new_store emptyConfig))))"
    using store_well_formed [THEN conjunct2, THEN conjunct1] by blast
  then show ?thesis
    by (simp add: addDevice_def new_store_def emptyConfig_def parse_mode_def trim_def
        is_space_def validIPv4_def isIPv4_def ipv4_part_def digit_def decimal_def digit_value_def save_def set_devices_def Let_def)
qed

lemma save_refused: "persisted st' = config st \<Longrightarrow> released st' = released st \<Longrightarrow> persisted st = config st \<Longrightarrow>
    fst (save False a st') = st"
  by (cases st; cases st') (simp add: save_def)

lemma set_entry_fields [simp]:
  "persisted (set_entry i e st) = persisted st" "released (set_entry i e st) = released st"
  by (simp_all add: set_entry_def)

text \<open>
  A refused write changes nothing: when the file system rejects the save, every operation
  leaves the store as it was before the call.
\<close>

theorem refused_write_changes_nothing:
  assumes "persisted st = config st"
  shows "store_step False op st = st"
proof (cases op)
  case (LinkByIp addr did name plat)
  have u: "set_entry i ((devices (config st) ! i)\<lparr>de_deviceId := Some did\<rparr>) st = st"
    if "de_deviceId (devices (config st) ! i) = Some did" for i
    using that by (cases "devices (config st) ! i") (metis set_entry_same device_entry.update_convs(3) device_entry.select_convs(3))
  have v: "set_entry i ((devices (config st) ! i)\<lparr>de_deviceId := Some did, detectedName := name\<rparr>) st = st"
    if "de_deviceId (devices (config st) ! i) = Some did" "detectedName (devices (config st) ! i) = name" for i
    using that by (cases "devices (config st) ! i")
      (metis set_entry_same device_entry.update_convs(3,5) device_entry.select_convs(3,5))
  show ?thesis
    unfolding LinkByIp store_step.simps linkByIp_def
    using assms by (auto simp: Let_def save_refused u v split: option.split)
qed (auto simp: assms updateRouter_def recoverHostKeyFingerprint_def addDevice_def updateDevice_def deleteDevice_def
    linkDevice_def unlinkDevice_def setDnatDesired_def refreshDetectedName_def Let_def save_refused
    split: option.split sum.split json.split)

theorem refused_write_changes_nothing_witness:
  "store_step False (AddDevice ''u1'' ''10.0.0.2'' None) (new_store emptyConfig) = new_store emptyConfig"
  by (rule refused_write_changes_nothing) (simp add: new_store_def)

text \<open>
  A host key is never carried over to another host: after a successful change of the
  router settings that names no fingerprint, a fingerprint is kept only if host and port are
  the ones it was saved for.
\<close>

theorem fingerprint_stays_with_host:
  assumes "updateRouter ok i st = (st', Inr pub)" and "i_fingerprint i = None"
    and "hostKeyFingerprint (router (config st')) = Some fp"
  shows "hostKeyFingerprint (router (config st)) = Some fp \<and> host (router (config st')) = host (router (config st)) \<and>
    port (router (config st')) = port (router (config st))"
  using assms by (auto simp: updateRouter_def next_router_def save_def Let_def split: if_splits)

definition demo_fingerprint :: string where
  "demo_fingerprint = ''SHA256:'' @ replicate 43 CHR ''A''"

definition demo_store :: store where
  "demo_store = new_store \<lparr>router = \<lparr>host = ''10.0.0.1'', port = 22, r_username = ''admin'', r_password = ''pw'',
     rethinkIp = ''10.0.0.9'', hostKeyFingerprint = Some demo_fingerprint\<rparr>, devices = []\<rparr>"

definition demo_input :: router_input where
  "demo_input = \<lparr>i_host = None, i_port = None, i_username = Some ''root'', i_password = None, i_rethinkIp = None,
     i_fingerprint = None\<rparr>"

lemma demo_update:
  "updateRouter True demo_input demo_store =
    (let st = set_router ((router (config demo_store))\<lparr>r_username := ''root''\<rparr>) demo_store
     in (st\<lparr>persisted := config st\<rparr>, Inr (publicRouter st)))"
proof -
  have "isHostKeyFingerprint demo_fingerprint" by code_simp
  then show ?thesis
    by (simp add: updateRouter_def demo_input_def demo_store_def next_router_def or_else_def trim_def is_space_def
        validIPv4_def isIPv4_def ipv4_part_def digit_def decimal_def digit_value_def save_def set_router_def
        new_store_def Let_def)
qed

theorem fingerprint_stays_with_host_witness:
  "r_username (router (config (fst (updateRouter True demo_input demo_store)))) = ''root'' \<and>
    host (router (config (fst (updateRouter True demo_input demo_store)))) = host (router (config demo_store))"
proof -
  let ?st = "fst (updateRouter True demo_input demo_store)"
  obtain pub where u: "updateRouter True demo_input demo_store = (?st, Inr pub)"
    by (simp add: demo_update Let_def)
  have "i_fingerprint demo_input = None" by (simp add: demo_input_def)
  moreover have "hostKeyFingerprint (router (config ?st)) = Some demo_fingerprint"
    by (simp add: demo_update Let_def) (simp add: demo_store_def new_store_def)
  ultimately have "host (router (config ?st)) = host (router (config demo_store))"
    using fingerprint_stays_with_host [OF u] by blast
  moreover have "r_username (router (config ?st)) = ''root''" by (simp add: demo_update Let_def)
  ultimately show ?thesis by blast
qed

end
