(* ===== verification/Dnat.thy ===== *)
theory Dnat
  imports RouterStore
begin

text \<open>
  The port forwarding rules on the router: \<open>router/dnat-manager.ts\<close>, \<open>router/dnat-reconciler.ts\<close>
  and the mode of \<open>bridge/policy.ts\<close>.

  The router behind the SSH client is the parameter \<open>exec\<close>: a state \<open>'r\<close>, and for one command
  the new state and either the error \<open>client.exec\<close> threw or the exit code and output. The
  commands are a datatype; \<open>render\<close> is the text the source sends. \<open>serialized\<close> runs one action
  after the other, so an action is a function of the router's state.
\<close>

datatype dnat_state = On | Off | Partial

definition IPTABLES :: string where "IPTABLES = ''/usr/sbin/iptables''"
definition CONNTRACK :: string where "CONNTRACK = ''/usr/sbin/conntrack''"
definition CHAIN :: string where "CHAIN = ''RETHINK_DNAT''"

definition rule :: "string \<Rightarrow> nat \<Rightarrow> string \<Rightarrow> nat \<Rightarrow> string" where
  "rule deviceIp dport rethink targetPort =
    ''-s '' @ deviceIp @ ''/32 -p tcp -m tcp --dport '' @ show_nat dport @ '' -j DNAT --to-destination '' @
    rethink @ '':'' @ show_nat targetPort"

definition ports :: "device_entry \<Rightarrow> (nat \<times> nat) list" where
  "ports device = (if de_platform device = Some Thinq1 then [(46030, 46030), (47878, 47878)]
                   else [(443, 4433), (8883, 8883)])"

datatype command =
    IptablesVersion
  | ConntrackVersion
  | ListChain
  | NewChain
  | CheckJump
  | InsertJump
  | CheckRule string string
  | AppendRule string
  | DeleteRule string string
  | ClearConntrack string nat

text \<open>\<open>CheckRule\<close> and \<open>DeleteRule\<close> name the chain they look in; \<open>AppendRule\<close> is always in \<open>CHAIN\<close>.\<close>

fun render :: "command \<Rightarrow> string" where
  "render IptablesVersion = IPTABLES @ '' --version''"
| "render ConntrackVersion = CONNTRACK @ '' -V''"
| "render ListChain = IPTABLES @ '' -t nat -nL '' @ CHAIN"
| "render NewChain = IPTABLES @ '' -t nat -N '' @ CHAIN"
| "render CheckJump = IPTABLES @ '' -t nat -C PREROUTING -j '' @ CHAIN"
| "render InsertJump = IPTABLES @ '' -t nat -I PREROUTING 1 -j '' @ CHAIN"
| "render (CheckRule chain args) = IPTABLES @ '' -t nat -C '' @ chain @ '' '' @ args"
| "render (AppendRule args) = IPTABLES @ '' -t nat -A '' @ CHAIN @ '' '' @ args"
| "render (DeleteRule chain args) = IPTABLES @ '' -t nat -D '' @ chain @ '' '' @ args"
| "render (ClearConntrack addr dport) = CONNTRACK @ '' -D -s '' @ addr @ '' -p tcp --dport '' @ show_nat dport"

record exec_result =
  code :: nat
  stdout :: string
  stderr :: string

type_synonym 'r exec = "'r \<Rightarrow> command \<Rightarrow> ('r, exec_result) outcome"

text \<open>A command whose failure is the action's failure, with the error output or a message.\<close>

definition must :: "'r exec \<Rightarrow> command \<Rightarrow> string \<Rightarrow> 'r \<Rightarrow> ('r, unit) outcome" where
  "must exec c msg r = and_then (exec r c) (\<lambda>r res.
    if code res \<noteq> 0 then (r, Inl (if stderr res \<noteq> [] then stderr res else msg)) else (r, Inr ()))"

definition hasRule :: "'r exec \<Rightarrow> string \<Rightarrow> 'r \<Rightarrow> ('r, bool) outcome" where
  "hasRule exec args r = and_then (exec r (CheckRule CHAIN args)) (\<lambda>r res.
    if code res = 0 then (r, Inr True)
    else and_then (exec r (CheckRule ''PREROUTING'' args)) (\<lambda>r res. (r, Inr (code res = 0))))"

definition ensureChain :: "'r exec \<Rightarrow> 'r \<Rightarrow> ('r, unit) outcome" where
  "ensureChain exec r =
    and_then
      (and_then (exec r ListChain) (\<lambda>r res.
         if code res \<noteq> 0 then must exec NewChain ''Unable to create RETHINK_DNAT chain'' r else (r, Inr ())))
      (\<lambda>r _. and_then (exec r CheckJump) (\<lambda>r res.
         if code res \<noteq> 0 then must exec InsertJump ''Unable to link RETHINK_DNAT chain'' r else (r, Inr ())))"

text \<open>
  \<open>Promise.all\<close> of the checks: they start in order, the first error is the error of the whole.
\<close>

fun rules_present :: "'r exec \<Rightarrow> string list \<Rightarrow> 'r \<Rightarrow> ('r, bool list) outcome" where
  "rules_present exec [] r = (r, Inr [])"
| "rules_present exec (args # rest) r =
    and_then (hasRule exec args r) (\<lambda>r p. and_then (rules_present exec rest r) (\<lambda>r ps. (r, Inr (p # ps))))"

definition rules_of :: "string \<Rightarrow> device_entry \<Rightarrow> (nat \<times> string) list" where
  "rules_of rethink device = map (\<lambda>(dport, target). (dport, rule (de_ip device) dport rethink target)) (ports device)"

definition deviceStatus :: "'r exec \<Rightarrow> string \<Rightarrow> device_entry \<Rightarrow> 'r \<Rightarrow> ('r, dnat_state) outcome" where
  "deviceStatus exec rethink device r =
    and_then (rules_present exec (map snd (rules_of rethink device)) r) (\<lambda>r present.
      (r, Inr (if list_all (\<lambda>p. p) present then On else if list_all Not present then Off else Partial)))"

fun clear_ports :: "'r exec \<Rightarrow> string \<Rightarrow> (nat \<times> nat) list \<Rightarrow> 'r \<Rightarrow> ('r, unit) outcome" where
  "clear_ports exec addr [] r = (r, Inr ())"
| "clear_ports exec addr ((dport, _) # rest) r =
    and_then (exec r (ClearConntrack addr dport)) (\<lambda>r _. clear_ports exec addr rest r)"

definition clearConntrack :: "'r exec \<Rightarrow> device_entry \<Rightarrow> 'r \<Rightarrow> ('r, unit) outcome" where
  "clearConntrack exec device r = clear_ports exec (de_ip device) (ports device) r"

fun status :: "'r exec \<Rightarrow> string \<Rightarrow> device_entry list \<Rightarrow> 'r \<Rightarrow> ('r, (string \<times> dnat_state) list) outcome" where
  "status exec rethink [] r = (r, Inr [])"
| "status exec rethink (d # ds) r =
    and_then (deviceStatus exec rethink d r) (\<lambda>r s.
      and_then (status exec rethink ds r) (\<lambda>r ss. (r, Inr ((de_entryId d, s) # ss))))"

fun add_rules :: "'r exec \<Rightarrow> (nat \<times> string) list \<Rightarrow> 'r \<Rightarrow> ('r, unit) outcome" where
  "add_rules exec [] r = (r, Inr ())"
| "add_rules exec ((dport, args) # rest) r =
    and_then (hasRule exec args r) (\<lambda>r present.
      and_then (if present then (r, Inr ()) else must exec (AppendRule args) (''Unable to add DNAT port '' @ show_nat dport) r)
        (\<lambda>r _. add_rules exec rest r))"

definition state_name :: "dnat_state \<Rightarrow> string" where
  "state_name s = (case s of On \<Rightarrow> ''on'' | Off \<Rightarrow> ''off'' | Partial \<Rightarrow> ''partial'')"

definition verify :: "dnat_state \<Rightarrow> 'r \<Rightarrow> dnat_state \<Rightarrow> ('r, dnat_state) outcome" where
  "verify wanted r s = (r, if s \<noteq> wanted then Inl (''DNAT verification failed: '' @ state_name s) else Inr s)"

definition enable :: "'r exec \<Rightarrow> string \<Rightarrow> device_entry \<Rightarrow> 'r \<Rightarrow> ('r, dnat_state) outcome" where
  "enable exec rethink device r =
    and_then (ensureChain exec r) (\<lambda>r _.
    and_then (add_rules exec (rules_of rethink device) r) (\<lambda>r _.
    and_then (clearConntrack exec device r) (\<lambda>r _.
    and_then (deviceStatus exec rethink device r) (verify On))))"

text \<open>At most 10 copies of a rule are removed from a chain.\<close>

fun remove_copies :: "'r exec \<Rightarrow> string \<Rightarrow> nat \<Rightarrow> string \<Rightarrow> nat \<Rightarrow> 'r \<Rightarrow> ('r, unit) outcome" where
  "remove_copies exec chain dport args 0 r = (r, Inr ())"
| "remove_copies exec chain dport args (Suc n) r =
    and_then (exec r (CheckRule chain args)) (\<lambda>r res.
      if code res \<noteq> 0 then (r, Inr ())
      else and_then (must exec (DeleteRule chain args) (''Unable to remove DNAT port '' @ show_nat dport) r)
        (\<lambda>r _. remove_copies exec chain dport args n r))"

fun remove_rules :: "'r exec \<Rightarrow> (nat \<times> string) list \<Rightarrow> 'r \<Rightarrow> ('r, unit) outcome" where
  "remove_rules exec [] r = (r, Inr ())"
| "remove_rules exec ((dport, args) # rest) r =
    and_then (remove_copies exec CHAIN dport args 10 r) (\<lambda>r _.
    and_then (remove_copies exec ''PREROUTING'' dport args 10 r) (\<lambda>r _. remove_rules exec rest r))"

definition disable :: "'r exec \<Rightarrow> string \<Rightarrow> device_entry \<Rightarrow> 'r \<Rightarrow> ('r, dnat_state) outcome" where
  "disable exec rethink device r =
    and_then (remove_rules exec (rules_of rethink device) r) (\<lambda>r _.
    and_then (clearConntrack exec device r) (\<lambda>r _.
    and_then (deviceStatus exec rethink device r) (verify Off)))"

definition dnat_test :: "'r exec \<Rightarrow> 'r \<Rightarrow> ('r, string \<times> string) outcome" where
  "dnat_test exec r =
    and_then (exec r IptablesVersion) (\<lambda>r ipt.
      if code ipt \<noteq> 0 then (r, Inl (if stderr ipt \<noteq> [] then stderr ipt else ''iptables is unavailable''))
      else and_then (exec r ConntrackVersion) (\<lambda>r ct.
        if code ct \<noteq> 0 then (r, Inl (if stderr ct \<noteq> [] then stderr ct else ''conntrack is unavailable''))
        else (r, Inr (trim (stdout ipt), trim (if stdout ct \<noteq> [] then stdout ct else stderr ct)))))"

subsection \<open>The reconciler\<close>

text \<open>\<open>entryMode\<close> of \<open>bridge/policy.ts\<close>: anything but \<open>local\<close> is \<open>dnat\<close>.\<close>

definition entryMode :: "device_entry \<Rightarrow> entry_mode" where
  "entryMode e = (if de_mode e = Some Local then Local else Dnat)"

text \<open>
  The actuator the reconciler drives, an interface of two operations on a router state of its
  own. \<open>act_status\<close> may fail as a whole, \<open>act_enable\<close> for one entry.
\<close>

record 'r actuator =
  act_status :: "device_entry list \<Rightarrow> 'r \<Rightarrow> ('r, (string \<times> dnat_state) list) outcome"
  act_enable :: "device_entry \<Rightarrow> 'r \<Rightarrow> ('r, dnat_state) outcome"

record reconcile_result =
  adopted :: "string list"
  restored :: "string list"

definition eligible :: "store \<Rightarrow> device_entry \<Rightarrow> bool" where
  "eligible st e \<longleftrightarrow> entryMode e = Dnat \<and> de_entryId e \<notin> set (released st)"

text \<open>
  The first loop, over the entries read before the status; \<open>None\<close> is the exception of a failed
  save, which ends the cycle. \<open>saves\<close> tells for each entry whether its write succeeds.
\<close>

fun adopt :: "(string \<Rightarrow> bool) \<Rightarrow> (string \<times> dnat_state) list \<Rightarrow> device_entry list \<Rightarrow> store \<times> string list \<Rightarrow>
    (store \<times> string list) \<times> bool" where
  "adopt saves states [] c = (c, True)"
| "adopt saves states (e # es) (st, done_ids) =
    (if dnatDesired e \<noteq> None \<or> map_of states (de_entryId e) \<noteq> Some On then adopt saves states es (st, done_ids)
     else case setDnatDesired (saves (de_entryId e)) (de_entryId e) True st of
       (st', Inr _) \<Rightarrow> adopt saves states es (st', done_ids @ [de_entryId e])
     | (st', Inl _) \<Rightarrow> ((st', done_ids), False))"

fun restore :: "'r actuator \<Rightarrow> store \<Rightarrow> (string \<times> dnat_state) list \<Rightarrow> device_entry list \<Rightarrow> 'r \<Rightarrow> 'r \<times> string list" where
  "restore act st states [] r = (r, [])"
| "restore act st states (e # es) r =
    (if dnatDesired e \<noteq> Some True \<or> \<not> eligible st e \<or> map_of states (de_entryId e) = Some On
     then restore act st states es r
     else case act_enable act e r of
       (r', Inr _) \<Rightarrow> (case restore act st states es r' of (r'', ids) \<Rightarrow> (r'', de_entryId e # ids))
     | (r', Inl _) \<Rightarrow> restore act st states es r')"

definition reconcileLocked ::
  "'r actuator \<Rightarrow> (string \<Rightarrow> bool) \<Rightarrow> store \<Rightarrow> 'r \<Rightarrow> store \<times> 'r \<times> reconcile_result"
where
  "reconcileLocked act saves st r =
    (let empty_result = \<lparr>adopted = [], restored = []\<rparr> in
     if \<not> configured st then (st, r, empty_result)
     else
       let entries = filter (eligible st) (devices (config st)) in
       if entries = [] then (st, r, empty_result)
       else case act_status act entries r of
         (r, Inl _) \<Rightarrow> (st, r, empty_result)
       | (r, Inr states) \<Rightarrow>
           (case adopt saves states entries (st, []) of
              ((st, ids), False) \<Rightarrow> (st, r, \<lparr>adopted = ids, restored = []\<rparr>)
            | ((st, ids), True) \<Rightarrow>
                (case restore act st states (devices (config st)) r of
                   (r, back) \<Rightarrow> (st, r, \<lparr>adopted = ids, restored = back\<rparr>))))"

definition dnat_actuator :: "'r exec \<Rightarrow> string \<Rightarrow> 'r actuator" where
  "dnat_actuator exec rethink = \<lparr>act_status = status exec rethink, act_enable = enable exec rethink\<rparr>"

end
