(* ===== verification/DnatProofs.thy ===== *)
theory DnatProofs
  imports Dnat
begin

text \<open>
  What the forwarding rules guarantee. The locale \<open>iptables\<close> is what the sources rely on of the
  router: checking a rule tells whether the chain has it and changes nothing, appending and
  deleting change only what they name. The locale \<open>dnat_contract\<close> is what the reconciler relies
  on of its actuator; the manager of \<open>Dnat\<close> gives it on every such router.
\<close>

subsection \<open>Only plain text reaches the router's shell\<close>

definition shell_safe :: "char \<Rightarrow> bool" where
  "shell_safe c \<longleftrightarrow> alnum c \<or> c \<in> set '' ./:-_''"

lemma show_nat_digits: "list_all digit (show_nat n)"
proof (induction n rule: show_nat.induct)
  case (1 n)
  have d: "digit (''0123456789'' ! k)" if "k < 10" for k
  proof -
    have "''0123456789'' ! k \<in> set ''0123456789''" using that by (intro nth_mem) simp
    then show ?thesis by (simp only: digit_def)
  qed
  show ?case
    using 1 d [of n] d [of "n mod 10"] by (subst show_nat.simps) (simp del: nth_Cons_numeral)
qed

lemma set_join_with: "set (join_with c ps) \<subseteq> insert c (\<Union>p \<in> set ps. set p)"
  by (induction c ps rule: join_with.induct) auto

lemma isIPv4_chars: "isIPv4 s \<Longrightarrow> list_all (\<lambda>c. digit c \<or> c = CHR ''.'') s"
proof -
  assume s: "isIPv4 s"
  have "set s \<subseteq> insert CHR ''.'' (\<Union>p \<in> set (split_on CHR ''.'' s). set p)"
    using set_join_with [of "CHR ''.''" "split_on CHR ''.'' s"] by simp
  moreover have "\<forall>p \<in> set (split_on CHR ''.'' s). list_all digit p"
    using s by (simp add: isIPv4_def list_all_iff ipv4_part_def)
  ultimately show ?thesis by (auto simp: list_all_iff)
qed

lemma digit_safe: "digit c \<Longrightarrow> shell_safe c"
  by (simp add: shell_safe_def alnum_def)

lemma list_all_digit_safe: "list_all digit s \<Longrightarrow> list_all shell_safe s"
  using digit_safe by (auto simp: list_all_iff)

lemma isIPv4_safe: "isIPv4 s \<Longrightarrow> list_all shell_safe s"
  using isIPv4_chars [of s] by (auto simp: list_all_iff shell_safe_def alnum_def)

lemma rule_safe:
  assumes "isIPv4 addr" and "isIPv4 rethink"
  shows "list_all shell_safe (rule addr dport rethink target)"
  using isIPv4_safe [OF assms(1)] isIPv4_safe [OF assms(2)] list_all_digit_safe [OF show_nat_digits]
  by (simp add: rule_def) (simp add: shell_safe_def alnum_def alpha_def digit_def)


definition demo_entry :: device_entry where
  "demo_entry = \<lparr>de_entryId = ''e1'', de_ip = ''10.0.0.2'', de_deviceId = None, de_autoLink = None,
     detectedName = None, customName = None, de_platform = None, de_mode = None, dnatDesired = Some True\<rparr>"

definition home_store :: store where
  "home_store = new_store \<lparr>router = router (config demo_store), devices = [demo_entry]\<rparr>"

lemma home_store_ok: "wf_config (config home_store)" "configured home_store"
  "rethinkIp (router (config home_store)) = ''10.0.0.9''" "devices (config home_store) = [demo_entry]"
  "released home_store = []"
proof -
  have fp: "isHostKeyFingerprint demo_fingerprint" by code_simp
  show "wf_config (config home_store)" "configured home_store"
    "rethinkIp (router (config home_store)) = ''10.0.0.9''" "devices (config home_store) = [demo_entry]"
    "released home_store = []"
    by (simp_all add: home_store_def new_store_def wf_config_def uniq_def demo_entry_def demo_store_def configured_def
        hasConnectionSettings_def fp validIPv4_def isIPv4_def ipv4_part_def digit_def decimal_def digit_value_def)
qed


subsection \<open>The router\<close>

locale iptables =
  fixes exec :: "'r exec" and rules :: "'r \<Rightarrow> string \<Rightarrow> string list"
  assumes check: "exec r (CheckRule chain args) = (r', res) \<Longrightarrow>
      rules r' = rules r \<and> (\<forall>x. res = Inr x \<longrightarrow> (code x = 0 \<longleftrightarrow> args \<in> set (rules r chain)))"
    and append: "exec r (AppendRule args) = (r', res) \<Longrightarrow>
      (\<forall>x. res = Inr x \<and> code x = 0 \<longrightarrow> rules r' = (rules r)(CHAIN := rules r CHAIN @ [args])) \<and>
      (rules r' = rules r \<or> rules r' = (rules r)(CHAIN := rules r CHAIN @ [args]))"
    and delete: "exec r (DeleteRule chain args) = (r', res) \<Longrightarrow>
      (\<forall>x. res = Inr x \<and> code x = 0 \<longrightarrow> rules r' = (rules r)(chain := remove1 args (rules r chain))) \<and>
      (rules r' = rules r \<or> rules r' = (rules r)(chain := remove1 args (rules r chain)))"
    and other: "exec r c = (r', res) \<Longrightarrow>
      c \<in> {IptablesVersion, ConntrackVersion, ListChain, NewChain, CheckJump, InsertJump} \<or>
      (\<exists>addr p. c = ClearConntrack addr p) \<Longrightarrow> rules r' = rules r"
begin

definition has :: "'r \<Rightarrow> string \<Rightarrow> bool" where
  "has r args \<longleftrightarrow> args \<in> set (rules r CHAIN) \<or> args \<in> set (rules r ''PREROUTING'')"

lemma hasRule_ok:
  assumes "hasRule exec args r = (r', res)"
  shows "rules r' = rules r \<and> (\<forall>b. res = Inr b \<longrightarrow> b = has r args)"
proof -
  obtain r1 x where 1: "exec r (CheckRule CHAIN args) = (r1, x)" by (cases "exec r (CheckRule CHAIN args)")
  obtain r2 y where 2: "exec r1 (CheckRule ''PREROUTING'' args) = (r2, y)"
    by (cases "exec r1 (CheckRule ''PREROUTING'' args)")
  from check [OF 1] check [OF 2] assms show ?thesis
    by (cases x; cases y) (auto simp: hasRule_def 1 2 has_def split: if_splits)
qed

lemma rules_present_ok:
  "rules_present exec as r = (r', res) \<Longrightarrow>
    rules r' = rules r \<and> (\<forall>ps. res = Inr ps \<longrightarrow> ps = map (has r) as)"
proof (induction as arbitrary: r r' res)
  case Nil
  then show ?case by auto
next
  case (Cons a as)
  obtain r1 x where 1: "hasRule exec a r = (r1, x)" by (cases "hasRule exec a r")
  obtain r2 y where 2: "rules_present exec as r1 = (r2, y)" by (cases "rules_present exec as r1")
  have "has r1 = has r" using hasRule_ok [OF 1] by (auto simp: has_def fun_eq_iff)
  with hasRule_ok [OF 1] Cons.IH [OF 2] Cons.prems 1 2 show ?case
    by (cases x; cases y) auto
qed

lemma deviceStatus_ok:
  assumes "deviceStatus exec rethink d r = (r', res)"
  shows "rules r' = rules r \<and>
    (res = Inr On \<longrightarrow> list_all (\<lambda>(_, args). has r args) (rules_of rethink d)) \<and>
    (res = Inr Off \<longrightarrow> list_all (\<lambda>(_, args). \<not> has r args) (rules_of rethink d))"
proof -
  obtain r1 x where 1: "rules_present exec (map snd (rules_of rethink d)) r = (r1, x)"
    by (cases "rules_present exec (map snd (rules_of rethink d)) r")
  with rules_present_ok [OF 1] assms show ?thesis
    by (cases x) (auto simp: deviceStatus_def list_all_iff split: if_splits)
qed

lemma must_ok:
  "must exec c msg r = (r', res) \<Longrightarrow> exec r c = (r1, x) \<Longrightarrow>
    r' = r1 \<and> (res = Inr () \<longrightarrow> (\<exists>y. x = Inr y \<and> code y = 0))"
  by (cases x) (auto simp: must_def split: if_splits)

lemma ensureChain_ok: "ensureChain exec r = (r', res) \<Longrightarrow> rules r' = rules r"
proof -
  assume a: "ensureChain exec r = (r', res)"
  have must: "rules r2 = rules r1" if "must exec c msg r1 = (r2, y)" "c = NewChain \<or> c = InsertJump" for c msg r1 r2 y
  proof -
    obtain r3 z where "exec r1 c = (r3, z)" by (cases "exec r1 c")
    with must_ok [OF that(1) this] other [OF this] that(2) show ?thesis by auto
  qed
  obtain r1 x where 1: "exec r ListChain = (r1, x)" by (cases "exec r ListChain")
  have e1: "rules r1 = rules r" using other [OF 1] by simp
  obtain r2 y where 2: "and_then (exec r ListChain) (\<lambda>r res.
      if code res \<noteq> 0 then must exec NewChain ''Unable to create RETHINK_DNAT chain'' r else (r, Inr ())) = (r2, y)"
    by (cases "and_then (exec r ListChain) (\<lambda>r res.
      if code res \<noteq> 0 then must exec NewChain ''Unable to create RETHINK_DNAT chain'' r else (r, Inr ()))")
  have e2: "rules r2 = rules r" using 2 1 e1 must by (cases x) (auto split: if_splits)
  obtain r3 z where 3: "exec r2 CheckJump = (r3, z)" by (cases "exec r2 CheckJump")
  have e3: "rules r3 = rules r" using other [OF 3] e2 by simp
  from a e2 e3 must show ?thesis
    unfolding ensureChain_def 2 by (cases y; cases z) (auto simp: 3 split: if_splits)
qed

text \<open>Adding only appends rules from the list, and what it reports as done is there.\<close>

definition grows :: "string set \<Rightarrow> 'r \<Rightarrow> 'r \<Rightarrow> bool" where
  "grows A r r' \<longleftrightarrow> rules r' ''PREROUTING'' = rules r ''PREROUTING'' \<and>
    (\<exists>added. rules r' CHAIN = rules r CHAIN @ added \<and> set added \<subseteq> A \<and> (\<forall>a \<in> set added. \<not> has r a)) \<and>
    (\<forall>chain. chain \<noteq> CHAIN \<longrightarrow> rules r' chain = rules r chain)"

lemma grows_same: "rules r' = rules r \<Longrightarrow> grows A r r'"
  by (auto simp: grows_def)

lemma grows_trans: "grows A r r1 \<Longrightarrow> grows B r1 r2 \<Longrightarrow> grows (A \<union> B) r r2"
  unfolding grows_def has_def by (elim conjE exE) (rule conjI, simp, rule conjI, rule_tac x = "added @ addeda" in exI, auto)

lemma grows_has: "grows A r r' \<Longrightarrow> has r' a \<longleftrightarrow> has r a \<or> (a \<in> set (rules r' CHAIN) \<and> a \<in> A)"
  by (auto simp: grows_def has_def)

lemma add_rules_ok:
  "add_rules exec ps r = (r', res) \<Longrightarrow> grows (snd ` set ps) r r' \<and> (res = Inr () \<longrightarrow> (\<forall>p \<in> set ps. has r' (snd p)))"
proof (induction ps arbitrary: r r' res)
  case Nil
  then show ?case by (auto intro: grows_same)
next
  case (Cons p ps)
  obtain dport a where p: "p = (dport, a)" by (cases p)
  obtain r1 x where 1: "hasRule exec a r = (r1, x)" by (cases "hasRule exec a r")
  note h = hasRule_ok [OF 1]
  show ?case
  proof (cases x)
    case (Inl err)
    with Cons.prems 1 h show ?thesis by (auto simp: p intro: grows_same)
  next
    case (Inr b)
    define m where "m = (if b then (r1, Inr ()) else
      must exec (AppendRule a) (''Unable to add DNAT port '' @ show_nat dport) r1)"
    obtain r2 y where 2: "m = (r2, y)" by (cases m)
    have b: "b = has r a" using h Inr by simp
    have g: "grows {a} r r2 \<and> (y = Inr () \<longrightarrow> has r2 a)"
    proof (cases b)
      case True
      then show ?thesis using 2 h b by (auto simp: m_def has_def intro: grows_same)
    next
      case False
      obtain r3 z where 3: "exec r1 (AppendRule a) = (r3, z)" by (cases "exec r1 (AppendRule a)")
      from False 2 have mm: "must exec (AppendRule a) (''Unable to add DNAT port '' @ show_nat dport) r1 = (r2, y)"
        by (simp add: m_def)
      from must_ok [OF mm 3] append [OF 3] h False b show ?thesis
        by (auto simp: grows_def has_def CHAIN_def)
    qed
    show ?thesis
    proof (cases y)
      case (Inl err)
      have "(r', res) = (r2, Inl err)"
        using Cons.prems 1 Inr Inl 2 by (simp add: p m_def)
      with g show ?thesis by (auto simp: p grows_def)
    next
      case (Inr u)
      then have rec: "add_rules exec ps r2 = (r', res)"
        using Cons.prems 1 \<open>x = Inr b\<close> 2 by (simp add: p m_def)
      note IH = Cons.IH [OF rec]
      have "grows ({a} \<union> snd ` set ps) r r'" using grows_trans g IH by blast
      moreover have "has r' a" using g Inr IH grows_has by auto
      ultimately show ?thesis using IH by (simp add: p)
    qed
  qed
qed

lemma clear_ports_ok: "clear_ports exec addr ps r = (r', res) \<Longrightarrow> rules r' = rules r"
proof (induction ps arbitrary: r)
  case Nil
  then show ?case by simp
next
  case (Cons p ps)
  obtain dport t where p: "p = (dport, t)" by (cases p)
  obtain r1 x where 1: "exec r (ClearConntrack addr dport) = (r1, x)" by (cases "exec r (ClearConntrack addr dport)")
  with other [OF 1] Cons show ?case by (cases x) (auto simp: p)
qed

lemma enable_ok:
  assumes "enable exec rethink d r = (r', res)"
  shows "grows (snd ` set (rules_of rethink d)) r r' \<and>
    (\<forall>s. res = Inr s \<longrightarrow> s = On \<and> list_all (\<lambda>(_, args). has r' args) (rules_of rethink d))"
proof -
  let ?A = "snd ` set (rules_of rethink d)"
  obtain r1 x where 1: "ensureChain exec r = (r1, x)" by (cases "ensureChain exec r")
  obtain r2 y where 2: "add_rules exec (rules_of rethink d) r1 = (r2, y)" by (cases "add_rules exec (rules_of rethink d) r1")
  obtain r3 z where 3: "clearConntrack exec d r2 = (r3, z)" by (cases "clearConntrack exec d r2")
  obtain r4 w where 4: "deviceStatus exec rethink d r3 = (r4, w)" by (cases "deviceStatus exec rethink d r3")
  have e1: "rules r1 = rules r" by (rule ensureChain_ok [OF 1])
  have e2: "grows ?A r1 r2" using add_rules_ok [OF 2] by simp
  have e3: "rules r3 = rules r2" using clear_ports_ok 3 unfolding clearConntrack_def by blast
  note e4 = deviceStatus_ok [OF 4]
  have g: "grows ?A r r1" "grows ?A r r2" "grows ?A r r3" "grows ?A r r4"
    using grows_same [OF e1] grows_trans [OF grows_same [OF e1, of ?A] e2] e3 e4 by (auto simp: grows_def)
  have "has r4 = has r3" using e4 by (auto simp: has_def fun_eq_iff)
  with assms g e4 show ?thesis
    unfolding enable_def 1 by (cases x; cases y; cases z; cases w) (auto simp: 2 3 4 verify_def split: if_splits)
qed

text \<open>Removing takes away copies of rules from the list and nothing else.\<close>

definition shrinks :: "string set \<Rightarrow> 'r \<Rightarrow> 'r \<Rightarrow> bool" where
  "shrinks A r r' \<longleftrightarrow> (\<forall>chain. filter (\<lambda>a. a \<notin> A) (rules r' chain) = filter (\<lambda>a. a \<notin> A) (rules r chain) \<and>
    set (rules r' chain) \<subseteq> set (rules r chain))"

lemma shrinks_same: "rules r' = rules r \<Longrightarrow> shrinks A r r'"
  by (simp add: shrinks_def)

lemma shrinks_trans: "shrinks A r r1 \<Longrightarrow> shrinks A r1 r2 \<Longrightarrow> shrinks A r r2"
  unfolding shrinks_def by (metis subset_trans)

lemma filter_remove1: "\<not> P a \<Longrightarrow> filter P (remove1 a xs) = filter P xs"
  by (induction xs) auto

lemma remove_copies_ok:
  "remove_copies exec chain dport a n r = (r', res) \<Longrightarrow> a \<in> A \<Longrightarrow> shrinks A r r'"
proof (induction n arbitrary: r)
  case 0
  then show ?case by (simp add: shrinks_same)
next
  case (Suc n)
  obtain r1 x where 1: "exec r (CheckRule chain a) = (r1, x)" by (cases "exec r (CheckRule chain a)")
  obtain r2 y where 2: "must exec (DeleteRule chain a) (''Unable to remove DNAT port '' @ show_nat dport) r1 = (r2, y)"
    by (cases "must exec (DeleteRule chain a) (''Unable to remove DNAT port '' @ show_nat dport) r1")
  obtain r3 z where 3: "exec r1 (DeleteRule chain a) = (r3, z)" by (cases "exec r1 (DeleteRule chain a)")
  have s1: "shrinks A r r1" using check [OF 1] by (simp add: shrinks_same)
  have "rules r3 = rules r1 \<or> rules r3 = (rules r1)(chain := remove1 a (rules r1 chain))"
    using delete [OF 3] by simp
  then have "shrinks A r1 r2"
    using must_ok [OF 2 3] Suc.prems(2)
    by (auto simp: shrinks_def filter_remove1 dest: subsetD [OF set_remove1_subset] split: if_splits)
  with s1 have s2: "shrinks A r r2" by (rule shrinks_trans)
  show ?case
  proof (cases "\<exists>w. x = Inr w \<and> code w = 0 \<and> y = Inr ()")
    case True
    then have "remove_copies exec chain dport a n r2 = (r', res)" using Suc.prems(1) 1 2 by auto
    with Suc.IH Suc.prems(2) have "shrinks A r2 r'" by blast
    with s2 show ?thesis by (rule shrinks_trans)
  next
    case False
    then have "r' = r1 \<or> r' = r2" using Suc.prems(1) 1 2 by (cases x; cases y) (auto split: if_splits)
    with s1 s2 show ?thesis by blast
  qed
qed

lemma remove_rules_ok:
  "remove_rules exec ps r = (r', res) \<Longrightarrow> snd ` set ps \<subseteq> A \<Longrightarrow> shrinks A r r'"
proof (induction ps arbitrary: r)
  case Nil
  then show ?case by (simp add: shrinks_same)
next
  case (Cons p ps)
  obtain dport a where p: "p = (dport, a)" by (cases p)
  with Cons.prems have a: "a \<in> A" by simp
  obtain r1 x where 1: "remove_copies exec CHAIN dport a 10 r = (r1, x)" by (cases "remove_copies exec CHAIN dport a 10 r")
  obtain r2 y where 2: "remove_copies exec ''PREROUTING'' dport a 10 r1 = (r2, y)"
    by (cases "remove_copies exec ''PREROUTING'' dport a 10 r1")
  have s: "shrinks A r r1" "shrinks A r r2"
    using remove_copies_ok [OF 1 a] remove_copies_ok [OF 2 a] shrinks_trans by blast+
  show ?case
  proof (cases "x = Inr () \<and> y = Inr ()")
    case True
    then have "remove_rules exec ps r2 = (r', res)" using Cons.prems(1) 1 2 by (simp add: p)
    with Cons s(2) show ?thesis by (auto intro: shrinks_trans)
  next
    case False
    then have "r' = r1 \<or> r' = r2" using Cons.prems(1) 1 2 by (cases x; cases y) (auto simp: p)
    with s show ?thesis by blast
  qed
qed

lemma disable_ok:
  assumes "disable exec rethink d r = (r', res)"
  shows "shrinks (snd ` set (rules_of rethink d)) r r' \<and>
    (\<forall>s. res = Inr s \<longrightarrow> s = Off \<and> list_all (\<lambda>(_, args). \<not> has r' args) (rules_of rethink d))"
proof -
  let ?A = "snd ` set (rules_of rethink d)"
  obtain r1 x where 1: "remove_rules exec (rules_of rethink d) r = (r1, x)"
    by (cases "remove_rules exec (rules_of rethink d) r")
  obtain r2 y where 2: "clearConntrack exec d r1 = (r2, y)" by (cases "clearConntrack exec d r1")
  obtain r3 z where 3: "deviceStatus exec rethink d r2 = (r3, z)" by (cases "deviceStatus exec rethink d r2")
  have s1: "shrinks ?A r r1" using remove_rules_ok [OF 1] by simp
  have e2: "rules r2 = rules r1" using clear_ports_ok 2 unfolding clearConntrack_def by blast
  note e3 = deviceStatus_ok [OF 3]
  have "shrinks ?A r r2" "shrinks ?A r r3" using s1 e2 e3 by (auto simp: shrinks_def)
  moreover have "has r3 = has r2" using e3 by (auto simp: has_def fun_eq_iff)
  ultimately show ?thesis
    using assms s1 e3 unfolding disable_def 1
    by (cases x; cases y; cases z) (auto simp: 2 3 verify_def split: if_splits)
qed

end

subsection \<open>A router\<close>

text \<open>
  A router that answers every command, to evaluate the manager on: the rules of each chain,
  whether the chain exists and whether it is linked. \<open>-C\<close>, \<open>-A\<close> and \<open>-D\<close> act on the lists, and
  fail like iptables does when there is nothing to find.
\<close>

record sim_router =
  chain_rules :: "string \<Rightarrow> string list"
  chain_exists :: bool
  jump_linked :: bool

definition answer :: "nat \<Rightarrow> exec_result" where
  "answer n = \<lparr>code = n, stdout = [], stderr = []\<rparr>"

fun sim_exec :: "sim_router exec" where
  "sim_exec r ListChain = (r, Inr (answer (if chain_exists r then 0 else 1)))"
| "sim_exec r NewChain = (r\<lparr>chain_exists := True\<rparr>, Inr (answer 0))"
| "sim_exec r CheckJump = (r, Inr (answer (if jump_linked r then 0 else 1)))"
| "sim_exec r InsertJump = (r\<lparr>jump_linked := True\<rparr>, Inr (answer 0))"
| "sim_exec r (CheckRule chain args) = (r, Inr (answer (if args \<in> set (chain_rules r chain) then 0 else 1)))"
| "sim_exec r (AppendRule args) =
    (r\<lparr>chain_rules := (chain_rules r)(CHAIN := chain_rules r CHAIN @ [args])\<rparr>, Inr (answer 0))"
| "sim_exec r (DeleteRule chain args) =
    (if args \<in> set (chain_rules r chain)
     then (r\<lparr>chain_rules := (chain_rules r)(chain := remove1 args (chain_rules r chain))\<rparr>, Inr (answer 0))
     else (r, Inr (answer 1)))"
| "sim_exec r IptablesVersion = (r, Inr (answer 0))"
| "sim_exec r ConntrackVersion = (r, Inr (answer 0))"
| "sim_exec r (ClearConntrack addr dport) = (r, Inr (answer 0))"

interpretation sim: iptables sim_exec chain_rules
  by unfold_locales (auto simp: answer_def fun_eq_iff split: if_splits)

definition fresh_router :: sim_router where
  "fresh_router = \<lparr>chain_rules = \<lambda>_. [], chain_exists = False, jump_linked = False\<rparr>"

lemma remove_copies_numeral:
  "remove_copies exec chain dport args (numeral k) r =
    and_then (exec r (CheckRule chain args)) (\<lambda>r res.
      if code res \<noteq> 0 then (r, Inr ())
      else and_then (must exec (DeleteRule chain args) (''Unable to remove DNAT port '' @ show_nat dport) r)
        (\<lambda>r _. remove_copies exec chain dport args (pred_numeral k) r))"
  by (simp add: numeral_eq_Suc)

lemma demo_rules:
  "rules_of ''10.0.0.9'' demo_entry =
    [(443, rule ''10.0.0.2'' 443 ''10.0.0.9'' 4433), (8883, rule ''10.0.0.2'' 8883 ''10.0.0.9'' 8883)]"
  "rule ''10.0.0.2'' 443 ''10.0.0.9'' 4433 \<noteq> rule ''10.0.0.2'' 8883 ''10.0.0.9'' 8883"
  "rule ''10.0.0.2'' 8883 ''10.0.0.9'' 8883 \<noteq> rule ''10.0.0.2'' 443 ''10.0.0.9'' 4433"
  "ports demo_entry = [(443, 4433), (8883, 8883)]" "de_ip demo_entry = ''10.0.0.2''"
  by (simp_all add: rules_of_def demo_entry_def ports_def rule_def show_nat.simps)

lemmas demo_run_simps = enable_def ensureChain_def must_def hasRule_def deviceStatus_def clearConntrack_def verify_def
  fresh_router_def answer_def demo_rules CHAIN_def remove_copies_numeral

text \<open>
  C31. Enabling a device: on every router that keeps to the \<open>iptables\<close> laws, a run that reports
  success leaves both of the device's rules in force, and no run, failed ones included, adds
  any other rule, duplicates one that was in force or removes one.
\<close>

theorem enable_correct:
  assumes "iptables exec rules" and "enable exec rethink d r = (r', res)"
  shows "(\<exists>added. rules r' CHAIN = rules r CHAIN @ added \<and> set added \<subseteq> snd ` set (rules_of rethink d) \<and>
      (\<forall>a. a \<in> set added \<longrightarrow> a \<notin> set (rules r CHAIN) \<union> set (rules r ''PREROUTING''))) \<and>
    (\<forall>chain. chain \<noteq> CHAIN \<longrightarrow> rules r' chain = rules r chain) \<and>
    (\<forall>s. res = Inr s \<longrightarrow> s = On \<and>
      snd ` set (rules_of rethink d) \<subseteq> set (rules r' CHAIN) \<union> set (rules r' ''PREROUTING''))"
  using iptables.enable_ok [OF assms]
  by (auto simp: iptables.grows_def [OF assms(1)] iptables.has_def [OF assms(1)] list_all_iff)

definition enabled_router :: sim_router where
  "enabled_router = \<lparr>chain_rules = (\<lambda>_. [])(CHAIN := map snd (rules_of ''10.0.0.9'' demo_entry)),
     chain_exists = True, jump_linked = True\<rparr>"

lemma demo_enable: "enable sim_exec ''10.0.0.9'' demo_entry fresh_router = (enabled_router, Inr On)"
  by (simp add: demo_run_simps enabled_router_def)

theorem enable_correct_witness:
  "snd ` set (rules_of ''10.0.0.9'' demo_entry) \<subseteq>
    set (chain_rules enabled_router CHAIN) \<union> set (chain_rules enabled_router ''PREROUTING'')"
  using enable_correct [OF sim.iptables_axioms demo_enable] by blast

text \<open>
  Disabling a device: a run that reports success leaves none of the device's rules in
  either chain, and every run leaves the rules of all other devices as they were, in their
  order.
\<close>

theorem disable_correct:
  assumes "iptables exec rules" and "disable exec rethink d r = (r', res)"
  shows "(\<forall>chain. filter (\<lambda>a. a \<notin> snd ` set (rules_of rethink d)) (rules r' chain) =
      filter (\<lambda>a. a \<notin> snd ` set (rules_of rethink d)) (rules r chain)) \<and>
    (\<forall>s. res = Inr s \<longrightarrow> s = Off \<and>
      snd ` set (rules_of rethink d) \<inter> (set (rules r' CHAIN) \<union> set (rules r' ''PREROUTING'')) = {})"
  using iptables.disable_ok [OF assms]
  by (auto simp: iptables.shrinks_def [OF assms(1)] iptables.has_def [OF assms(1)] list_all_iff)

lemma demo_disable:
  "disable sim_exec ''10.0.0.9'' demo_entry enabled_router =
    (fresh_router\<lparr>chain_exists := True, jump_linked := True\<rparr>, Inr Off)"
  by (simp add: demo_run_simps disable_def enabled_router_def fun_upd_idem)

theorem disable_correct_witness:
  "snd ` set (rules_of ''10.0.0.9'' demo_entry) \<inter>
    (set (chain_rules (fst (disable sim_exec ''10.0.0.9'' demo_entry enabled_router)) CHAIN) \<union>
     set (chain_rules (fst (disable sim_exec ''10.0.0.9'' demo_entry enabled_router)) ''PREROUTING'')) = {}"
  using disable_correct [OF sim.iptables_axioms demo_disable] demo_disable by (metis fst_conv)

subsection \<open>The reconciler\<close>

text \<open>
  What the reconciler relies on: asking for the status changes no rule and answers \<open>On\<close> only for
  an entry whose rules are in force; enabling adds no rules but the entry's, removes none, and
  has put all of them in force when it succeeds.
\<close>

locale dnat_contract =
  fixes act :: "'r actuator" and in_force :: "'r \<Rightarrow> string set" and wants :: "device_entry \<Rightarrow> string set"
  assumes status_frame: "act_status act ds r = (r', res) \<Longrightarrow> in_force r' = in_force r"
    and enable_frame: "act_enable act e r = (r', out) \<Longrightarrow>
      in_force r \<subseteq> in_force r' \<and> in_force r' \<subseteq> in_force r \<union> wants e"
    and enable_sound: "act_enable act e r = (r', Inr s) \<Longrightarrow> wants e \<subseteq> in_force r'"
begin

lemma restore_ok:
  "restore act st states es r = (r', ids) \<Longrightarrow>
    in_force r \<subseteq> in_force r' \<and>
    in_force r' \<subseteq> in_force r \<union> (\<Union>e \<in> {e \<in> set es. dnatDesired e = Some True \<and> eligible st e}. wants e) \<and>
    (\<forall>i \<in> set ids. \<exists>e \<in> set es. de_entryId e = i \<and> dnatDesired e = Some True \<and> eligible st e \<and> wants e \<subseteq> in_force r')"
proof (induction es arbitrary: r r' ids)
  case Nil
  then show ?case by simp
next
  case (Cons e es)
  show ?case
  proof (cases "dnatDesired e \<noteq> Some True \<or> \<not> eligible st e \<or> map_of states (de_entryId e) = Some On")
    case True
    then have "restore act st states es r = (r', ids)" using Cons.prems by auto
    from Cons.IH [OF this] show ?thesis by auto
  next
    case False
    obtain r1 x where 1: "act_enable act e r = (r1, x)" by (cases "act_enable act e r")
    obtain r2 ids2 where 2: "restore act st states es r1 = (r2, ids2)" by (cases "restore act st states es r1")
    note IH = Cons.IH [OF 2]
    have "r' = r2" and ids: "ids = (case x of Inl _ \<Rightarrow> ids2 | Inr _ \<Rightarrow> de_entryId e # ids2)"
      using Cons.prems False 1 2 by (cases x; auto)+
    moreover have "wants e \<subseteq> in_force r2" if "x = Inr s" for s
      using enable_sound [of e r r1 s] 1 that IH by blast
    ultimately show ?thesis
      using False enable_frame [OF 1] IH by (cases x) (auto; blast)+
  qed
qed

lemma reconcile_ok:
  assumes "reconcileLocked act saves st r = (st', r', res)"
  shows "in_force r \<subseteq> in_force r' \<and>
    in_force r' \<subseteq> in_force r \<union>
      (\<Union>e \<in> {e \<in> set (devices (config st')). dnatDesired e = Some True \<and> eligible st' e}. wants e) \<and>
    (\<forall>i \<in> set (restored res). \<exists>e \<in> set (devices (config st')). de_entryId e = i \<and> dnatDesired e = Some True \<and>
      eligible st' e \<and> wants e \<subseteq> in_force r')"
proof (cases "configured st \<and> filter (eligible st) (devices (config st)) \<noteq> []")
  case False
  then show ?thesis using assms by (auto simp: reconcileLocked_def Let_def split: if_splits)
next
  case True
  let ?es = "filter (eligible st) (devices (config st))"
  obtain r1 x where 1: "act_status act ?es r = (r1, x)" by (cases "act_status act ?es r")
  note f = status_frame [OF 1]
  show ?thesis
  proof (cases x)
    case (Inl err)
    with assms True 1 f show ?thesis by (auto simp: reconcileLocked_def Let_def)
  next
    case (Inr states)
    obtain st1 ids ok where 2: "adopt saves states ?es (st, []) = ((st1, ids), ok)"
      by (metis surj_pair)
    obtain r2 ids' where 3: "restore act st1 states (devices (config st1)) r1 = (r2, ids')"
      by (cases "restore act st1 states (devices (config st1)) r1")
    from restore_ok [OF 3] f assms True 1 2 3 Inr show ?thesis
      by (cases ok) (auto simp: reconcileLocked_def Let_def)
  qed
qed

end

text \<open>The manager of the sources is such an actuator on every router that keeps to the laws.\<close>

context iptables begin

lemma manager_contract:
  "dnat_contract (dnat_actuator exec rethink) (\<lambda>r. {a. has r a}) (\<lambda>e. snd ` set (rules_of rethink e))"
proof unfold_locales
  have st: "rules r' = rules r" if "status exec rethink ds r = (r', res)" for ds r r' res
    using that
  proof (induction ds arbitrary: r r' res)
    case Nil
    then show ?case by simp
  next
    case (Cons d ds)
    obtain r1 x where 1: "deviceStatus exec rethink d r = (r1, x)" by (cases "deviceStatus exec rethink d r")
    obtain r2 y where 2: "status exec rethink ds r1 = (r2, y)" by (cases "status exec rethink ds r1")
    from deviceStatus_ok [OF 1] Cons.IH [OF 2] Cons.prems 1 2 show ?case by (cases x; cases y) auto
  qed
  fix ds :: "device_entry list" and r r' and res :: "string + (string \<times> dnat_state) list"
  assume "act_status (dnat_actuator exec rethink) ds r = (r', res)"
  then have "rules r' = rules r" using st by (simp add: dnat_actuator_def)
  then show "{a. has r' a} = {a. has r a}" by (simp add: has_def)
next
  fix e r r' and res :: "string + dnat_state"
  assume "act_enable (dnat_actuator exec rethink) e r = (r', res)"
  then have "enable exec rethink e r = (r', res)" by (simp add: dnat_actuator_def)
  from enable_ok [OF this] show "{a. has r a} \<subseteq> {a. has r' a} \<and>
      {a. has r' a} \<subseteq> {a. has r a} \<union> snd ` set (rules_of rethink e)"
    using grows_has by blast
next
  fix e r r' s
  assume "act_enable (dnat_actuator exec rethink) e r = (r', Inr s)"
  then have "enable exec rethink e r = (r', Inr s)" by (simp add: dnat_actuator_def)
  from enable_ok [OF this] show "snd ` set (rules_of rethink e) \<subseteq> {a. has r' a}"
    by (auto simp: list_all_iff)
qed

end

sublocale iptables \<subseteq> manager: dnat_contract "dnat_actuator exec rethink" "\<lambda>r. {a. has r a}"
  "\<lambda>e. snd ` set (rules_of rethink e)" for rethink
  by (rule manager_contract)




end
