(* ===== verification/MqttSource.thy ===== *)
theory MqttSource
  imports MqttAccess RouterStore
begin

text \<open>
  Which appliance is behind a translated connection: \<open>router/mqtt-source.ts\<close>. A connection
  that reaches the broker through the router carries the router's address; the resolver asks
  the router's connection table for the original source. \<open>conntrackMQTTSource\<close> reads the table,
  \<open>resolve\<close> and the events after it are the queue of at most two queries at a time.

  The expression a row has to match separates fields by white space and captures none, so it is
  a test of the words of the line, one by one.
\<close>

definition MAX_OUTPUT :: nat where "MAX_OUTPUT = 256 * 1024"

record mqtt_source =
  src_remoteAddress :: "string option"
  src_remotePort :: "int option"
  src_localAddress :: "string option"
  src_localPort :: "int option"

definition validPort :: "int option \<Rightarrow> bool" where
  "validPort p \<longleftrightarrow> (case p of Some n \<Rightarrow> n > 0 \<and> n \<le> 65535 | None \<Rightarrow> False)"

definition registered :: "inventory_entry list \<Rightarrow> string \<Rightarrow> inventory_entry option" where
  "registered entries addr =
    (case filter (\<lambda>e. ip e = addr) entries of
       [e] \<Rightarrow> if entry_platform e \<noteq> Some Thinq1 \<and> autoLink e \<noteq> Some False then Some e else None
     | _ \<Rightarrow> None)"

subsection \<open>The rows of the connection table\<close>

text \<open>The words of a line that begins and ends with one; \<open>None\<close> for any other line.\<close>

function words :: "string \<Rightarrow> string list" where
  "words [] = []"
| "words (c # cs) =
    (if is_space c then words cs
     else (c # takeWhile (\<lambda>x. \<not> is_space x) cs) # words (dropWhile (\<lambda>x. \<not> is_space x) cs))"
  by pat_completeness auto
termination
  by (relation "measure length") (auto simp: less_Suc_eq_le length_dropWhile_le)

definition plain_words :: "string \<Rightarrow> string list option" where
  "plain_words line =
    (if line = [] \<or> is_space (hd line) \<or> is_space (last line) then None else Some (words line))"

definition all_in :: "string \<Rightarrow> string \<Rightarrow> bool" where
  "all_in allowed s \<longleftrightarrow> s \<noteq> [] \<and> list_all (\<lambda>c. c \<in> set allowed) s"

definition UPPER :: string where "UPPER = ''ABCDEFGHIJKLMNOPQRSTUVWXYZ''"
definition LOWER :: string where "LOWER = ''abcdefghijklmnopqrstuvwxyz''"
definition DIGITS :: string where "DIGITS = ''0123456789''"

definition value_of :: "string \<Rightarrow> string \<Rightarrow> string option" where
  "value_of key w = (case strip_prefix (key @ ''='') w of Some v \<Rightarrow> if v \<noteq> [] then Some v else None | None \<Rightarrow> None)"

definition number_of :: "string \<Rightarrow> string \<Rightarrow> nat option" where
  "number_of key w = (case value_of key w of Some v \<Rightarrow> if all_in DIGITS v then Some (decimal v) else None | None \<Rightarrow> None)"

text \<open>The trailing words: a flag in brackets, or a key and a value.\<close>

definition extra_word :: "string \<Rightarrow> bool" where
  "extra_word w \<longleftrightarrow>
    (length w \<ge> 3 \<and> hd w = CHR ''['' \<and> last w = CHR '']'' \<and> all_in (UPPER @ ''_'') (butlast (tl w))) \<or>
    (case split_on CHR ''='' w of
       [k, v] \<Rightarrow> all_in (LOWER @ ''_'') k \<and> all_in (UPPER @ LOWER @ DIGITS @ '':.-'') v
     | _ \<Rightarrow> False)"

record conntrack_row =
  ct_state :: string
  orig_src :: string
  orig_dst :: string
  orig_sport :: nat
  orig_dport :: nat
  reply_src :: string
  reply_dst :: string
  reply_sport :: nat
  reply_dport :: nat

definition parse_row :: "string \<Rightarrow> conntrack_row option" where
  "parse_row line =
    (case plain_words line of
       Some (w0 # w1 # w2 # w3 # w4 # w5 # w6 # w7 # w8 # w9 # w10 # w11 # extras) \<Rightarrow>
         if w0 = ''tcp'' \<and> w1 = ''6'' \<and> all_in DIGITS w2 \<and> all_in (UPPER @ ''_'') w3 \<and> list_all extra_word extras then
           (case (value_of ''src'' w4, value_of ''dst'' w5, number_of ''sport'' w6, number_of ''dport'' w7) of
              (Some a, Some b, Some p, Some q) \<Rightarrow>
                (case (value_of ''src'' w8, value_of ''dst'' w9, number_of ''sport'' w10, number_of ''dport'' w11) of
                   (Some c, Some d, Some u, Some v) \<Rightarrow>
                     Some \<lparr>ct_state = w3, orig_src = a, orig_dst = b, orig_sport = p, orig_dport = q,
                           reply_src = c, reply_dst = d, reply_sport = u, reply_dport = v\<rparr>
                 | _ \<Rightarrow> None)
            | _ \<Rightarrow> None)
         else None
     | _ \<Rightarrow> None)"

definition port_ok :: "nat \<Rightarrow> bool" where
  "port_ok n \<longleftrightarrow> validPort (Some (int n))"

definition row_valid :: "conntrack_row \<Rightarrow> bool" where
  "row_valid row \<longleftrightarrow>
    list_all (\<lambda>a. normalizeMQTTAddress (Some a) \<noteq> None) [orig_src row, orig_dst row, reply_src row, reply_dst row] \<and>
    list_all port_ok [orig_sport row, orig_dport row, reply_sport row, reply_dport row]"

text \<open>A row of the connection asked for: its reply goes from this server to the router's port.\<close>

definition row_matches :: "mqtt_source \<Rightarrow> conntrack_row \<Rightarrow> bool" where
  "row_matches s row \<longleftrightarrow>
    ct_state row = ''ESTABLISHED'' \<and> orig_dport row = 8883 \<and>
    normalizeMQTTAddress (Some (reply_src row)) = normalizeMQTTAddress (src_localAddress s) \<and>
    normalizeMQTTAddress (Some (reply_dst row)) = normalizeMQTTAddress (src_remoteAddress s) \<and>
    src_localPort s = Some (int (reply_sport row)) \<and> src_remotePort s = Some (int (reply_dport row))"

text \<open>The loop over the lines; \<open>None\<close> is the early return at a row that is not understood.\<close>

fun scan_rows :: "mqtt_source \<Rightarrow> string list \<Rightarrow> string list option" where
  "scan_rows s [] = Some []"
| "scan_rows s (line # rest) =
    (case parse_row line of
       Some row \<Rightarrow>
         if \<not> row_valid row then None
         else map_option (\<lambda>ms. if row_matches s row
             then (case normalizeMQTTAddress (Some (orig_src row)) of Some a \<Rightarrow> a # ms | None \<Rightarrow> ms)
             else ms) (scan_rows s rest)
     | None \<Rightarrow> None)"

definition trimEnd :: "string \<Rightarrow> string" where
  "trimEnd s = rev (dropWhile is_space (rev s))"

definition conntrackMQTTSource :: "string \<Rightarrow> mqtt_source \<Rightarrow> router \<Rightarrow> inventory_entry list \<Rightarrow> string option" where
  "conntrackMQTTSource outp s cfg entries =
    (if normalizeMQTTAddress (src_remoteAddress s) \<noteq> Some (host cfg) \<or>
        normalizeMQTTAddress (src_localAddress s) \<noteq> Some (rethinkIp cfg) \<or>
        \<not> validPort (src_remotePort s) \<or> \<not> validPort (src_localPort s) \<or>
        \<not> ends_with [CHR 0x0A] outp \<or> length outp > MAX_OUTPUT
     then None
     else case scan_rows s (split_on CHR 0x0A (trimEnd outp)) of
       Some [m] \<Rightarrow>
         if m \<noteq> host cfg \<and> m \<noteq> rethinkIp cfg \<and> registered entries m \<noteq> None then Some m else None
     | _ \<Rightarrow> None)"

subsection \<open>The queries\<close>

record source_job =
  job_id :: nat
  job_tuple :: mqtt_source
  job_config :: router
  job_settled :: bool

record resolver =
  active :: "source_job list"
  queue :: "source_job list"
  next_job :: nat
  resolved :: "(nat \<times> string option) list"

definition new_resolver :: resolver where
  "new_resolver = \<lparr>active = [], queue = [], next_job = 0, resolved = []\<rparr>"

definition inventory_of :: "store \<Rightarrow> inventory_entry list" where
  "inventory_of st = map (\<lambda>e. \<lparr>entryId = de_entryId e, ip = de_ip e, deviceId = de_deviceId e,
     autoLink = de_autoLink e, entry_platform = de_platform e\<rparr>) (devices (config st))"

text \<open>
  \<open>resolve\<close> answers at once, or starts or queues a job; every job is answered once, in
  \<open>resolved\<close>. \<open>None\<close> in the first component says that the answer is still open.
\<close>

definition not_asked :: "store \<Rightarrow> mqtt_source \<Rightarrow> string \<Rightarrow> resolver \<Rightarrow> bool" where
  "not_asked st s remote rs \<longleftrightarrow>
    (let cfg = router (config st)
     in remote \<noteq> host cfg \<or> \<not> configured st \<or>
        (case hostKeyFingerprint cfg of Some fp \<Rightarrow> \<not> isHostKeyFingerprint fp | None \<Rightarrow> True) \<or>
        normalizeMQTTAddress (src_localAddress s) \<noteq> Some (rethinkIp cfg) \<or>
        \<not> validPort (src_remotePort s) \<or> \<not> validPort (src_localPort s) \<or>
        (length (active rs) \<ge> 2 \<and> length (queue rs) \<ge> 16))"

definition resolve :: "store \<Rightarrow> mqtt_source \<Rightarrow> bool \<Rightarrow> resolver \<Rightarrow> string option option \<times> resolver" where
  "resolve st s aborted rs =
    (case normalizeMQTTAddress (src_remoteAddress s) of
       None \<Rightarrow> (Some None, rs)
     | Some remote \<Rightarrow>
         if aborted then (Some None, rs)
         else
           let cfg = router (config st) in
           if remote \<noteq> host cfg \<and> remote \<noteq> rethinkIp cfg \<and> registered (inventory_of st) remote \<noteq> None
           then (Some (Some remote), rs)
           else if not_asked st s remote rs then (Some None, rs)
           else
             let job = \<lparr>job_id = next_job rs, job_tuple = s, job_config = cfg, job_settled = False\<rparr>;
                 rs = rs\<lparr>next_job := next_job rs + 1\<rparr>
             in (None, if length (active rs) < 2 then rs\<lparr>active := active rs @ [job]\<rparr>
                       else rs\<lparr>queue := queue rs @ [job]\<rparr>))"

definition settle :: "nat \<Rightarrow> source_job \<Rightarrow> source_job" where
  "settle j job = (if job_id job = j then job\<lparr>job_settled := True\<rparr> else job)"

text \<open>\<open>finish\<close>: the first call answers the job and takes it out of the queue.\<close>

definition finish_job :: "nat \<Rightarrow> string option \<Rightarrow> resolver \<Rightarrow> resolver" where
  "finish_job j answer rs =
    (if j \<in> job_id ` set (filter (\<lambda>job. \<not> job_settled job) (active rs @ queue rs))
     then rs\<lparr>active := map (settle j) (active rs), queue := filter (\<lambda>job. job_id job \<noteq> j) (queue rs),
             resolved := resolved rs @ [(j, answer)]\<rparr>
     else rs)"

record query_result =
  q_code :: nat
  q_stdout :: string
  q_stderr :: string

definition conntrack_summary :: "string \<Rightarrow> nat option" where
  "conntrack_summary err =
    (case strip_prefix ''conntrack v'' err of None \<Rightarrow> None | Some r \<Rightarrow>
       if \<not> ends_with ('' flow entries have been shown.'' @ [CHR 0x0A]) r then None
       else
         let body = take (length r - length ('' flow entries have been shown.'' @ [CHR 0x0A])) r;
             digits = rev (takeWhile (\<lambda>c. c \<in> set DIGITS) (rev body));
             before = take (length body - length digits) body
         in if digits \<noteq> [] \<and> ends_with '': '' before \<and> CHR 0x0A \<notin> set before \<and>
               1 \<le> length before - 2 \<and> length before - 2 \<le> 128
            then Some (decimal digits) else None)"

text \<open>The answer a result gives; \<open>None\<close> where \<open>run\<close> returns before it calls \<open>finish\<close>.\<close>

definition query_answer :: "store \<Rightarrow> source_job \<Rightarrow> query_result \<Rightarrow> string option option" where
  "query_answer st job res =
    (let lines = length (split_on CHR 0x0A (trimEnd (q_stdout res)));
         stderrValid = (q_stderr res = [] \<or> conntrack_summary (q_stderr res) = Some lines)
     in if job_settled job \<or> q_code res \<noteq> 0 \<or> length (q_stdout res) + length (q_stderr res) > MAX_OUTPUT \<or>
           \<not> stderrValid \<or> router (config st) \<noteq> job_config job \<or> \<not> configured st
        then None
        else Some (conntrackMQTTSource (q_stdout res) (job_tuple job) (job_config job) (inventory_of st)))"

text \<open>The end of \<open>finally\<close>: the place of the job is free, and the next one of the queue runs.\<close>

definition release :: "nat \<Rightarrow> resolver \<Rightarrow> resolver" where
  "release j rs =
    (let act = filter (\<lambda>job. job_id job \<noteq> j) (active rs)
     in (case queue rs of
           [] \<Rightarrow> rs\<lparr>active := act\<rparr>
         | next # rest \<Rightarrow> rs\<lparr>active := act @ [next], queue := rest\<rparr>))"

text \<open>
  A query that comes back, with \<open>None\<close> when the SSH client threw: the answer of the job, and
  then what \<open>finally\<close> does. The configuration is compared with what it was at the start.
\<close>

definition query_done :: "store \<Rightarrow> nat \<Rightarrow> query_result option \<Rightarrow> resolver \<Rightarrow> resolver" where
  "query_done st j result rs =
    (case filter (\<lambda>job. job_id job = j) (active rs) of
       [] \<Rightarrow> rs
     | job # _ \<Rightarrow>
         let rs = (case result of
             None \<Rightarrow> rs
           | Some res \<Rightarrow> (case query_answer st job res of None \<Rightarrow> rs | Some answer \<Rightarrow> finish_job j answer rs))
         in release j (finish_job j None rs))"

datatype resolver_event =
    Resolve mqtt_source bool
  | Cancel nat
  | QueryDone nat "query_result option"

fun resolver_step :: "store \<Rightarrow> resolver \<Rightarrow> resolver_event \<Rightarrow> resolver" where
  "resolver_step st rs (Resolve s aborted) = snd (resolve st s aborted rs)"
| "resolver_step st rs (Cancel j) = finish_job j None rs"
| "resolver_step st rs (QueryDone j result) = query_done st j result rs"

definition resolver_run :: "(store \<times> resolver_event) list \<Rightarrow> resolver" where
  "resolver_run evs = foldl (\<lambda>rs (st, ev). resolver_step st rs ev) new_resolver evs"

subsection \<open>What the table says\<close>

lemma scan_rows_Some:
  "scan_rows s ls = Some ms \<longleftrightarrow>
    (\<exists>rows. map parse_row ls = map Some rows \<and> list_all row_valid rows \<and>
       ms = map (\<lambda>r. the (normalizeMQTTAddress (Some (orig_src r)))) (filter (row_matches s) rows))"
proof (induction ls arbitrary: ms)
  case Nil
  show ?case by auto
next
  case (Cons l ls)
  show ?case
  proof (cases "parse_row l")
    case None
    then show ?thesis by (auto simp: map_eq_Cons_conv)
  next
    case (Some row)
    have src: "row_valid row \<Longrightarrow> \<exists>a. normalizeMQTTAddress (Some (orig_src row)) = Some a"
      by (auto simp: row_valid_def)
    show ?thesis
    proof
      assume L: "scan_rows s (l # ls) = Some ms"
      then have v: "row_valid row" using Some by (auto split: if_splits)
      with L Some obtain ms' where ms': "scan_rows s ls = Some ms'"
        and ms: "ms = (if row_matches s row then the (normalizeMQTTAddress (Some (orig_src row))) # ms' else ms')"
        using src by (fastforce split: if_splits)
      from ms' obtain rows where "map parse_row ls = map Some rows" "list_all row_valid rows"
        "ms' = map (\<lambda>r. the (normalizeMQTTAddress (Some (orig_src r)))) (filter (row_matches s) rows)"
        using Cons.IH by blast
      then show "\<exists>rows. map parse_row (l # ls) = map Some rows \<and> list_all row_valid rows \<and>
          ms = map (\<lambda>r. the (normalizeMQTTAddress (Some (orig_src r)))) (filter (row_matches s) rows)"
        using Some v ms by (intro exI [of _ "row # rows"]) auto
    next
      assume "\<exists>rows. map parse_row (l # ls) = map Some rows \<and> list_all row_valid rows \<and>
          ms = map (\<lambda>r. the (normalizeMQTTAddress (Some (orig_src r)))) (filter (row_matches s) rows)"
      then obtain rows where r: "map parse_row ls = map Some rows" "list_all row_valid (row # rows)"
          "ms = map (\<lambda>r. the (normalizeMQTTAddress (Some (orig_src r)))) (filter (row_matches s) (row # rows))"
        using Some by (auto simp: Cons_eq_map_conv)
      have "scan_rows s ls = Some (map (\<lambda>r. the (normalizeMQTTAddress (Some (orig_src r)))) (filter (row_matches s) rows))"
        using r Cons.IH by auto
      then show "scan_rows s (l # ls) = Some ms" using Some r src by auto
    qed
  qed
qed

definition conntrack_rows :: "string \<Rightarrow> conntrack_row option list" where
  "conntrack_rows outp = map parse_row (split_on CHR 0x0A (trimEnd outp))"

definition asked_for :: "mqtt_source \<Rightarrow> router \<Rightarrow> bool" where
  "asked_for s cfg \<longleftrightarrow>
    normalizeMQTTAddress (src_remoteAddress s) = Some (host cfg) \<and>
    normalizeMQTTAddress (src_localAddress s) = Some (rethinkIp cfg) \<and>
    validPort (src_remotePort s) \<and> validPort (src_localPort s)"

text \<open>
  C33. The connection table names a source exactly when the question is about a connection
  from the router to this server, the answer is a complete table within its bound, every row of
  it is understood and valid, exactly one row is the established connection whose reply tuple
  is the one asked for, and the address that row starts from is neither the router nor this
  server and belongs to exactly one appliance of the inventory that may be linked. One row that
  is not understood is enough to have no answer.
\<close>

theorem conntrack_identifies_source:
  "conntrackMQTTSource outp s cfg entries = Some a \<longleftrightarrow>
    asked_for s cfg \<and> ends_with [CHR 0x0A] outp \<and> length outp \<le> MAX_OUTPUT \<and>
    (\<exists>rows row. conntrack_rows outp = map Some rows \<and> list_all row_valid rows \<and>
       filter (row_matches s) rows = [row] \<and> normalizeMQTTAddress (Some (orig_src row)) = Some a) \<and>
    a \<notin> {host cfg, rethinkIp cfg} \<and> registered entries a \<noteq> None"
proof -
  have split1: "(case x of Some [m] \<Rightarrow> if P m then Some m else None | _ \<Rightarrow> None) = Some a
      \<longleftrightarrow> x = Some [a] \<and> P a" for x P
    by (auto split: option.splits list.splits if_splits)
  have scan: "scan_rows s ls = Some [a] \<longleftrightarrow>
    (\<exists>rows row. map parse_row ls = map Some rows \<and> list_all row_valid rows \<and>
       filter (row_matches s) rows = [row] \<and> normalizeMQTTAddress (Some (orig_src row)) = Some a)" (is "?L = ?R") for ls
  proof
    assume ?L
    then obtain rows where r: "map parse_row ls = map Some rows" "list_all row_valid rows"
      "[a] = map (\<lambda>r. the (normalizeMQTTAddress (Some (orig_src r)))) (filter (row_matches s) rows)"
      by (auto simp: scan_rows_Some)
    then obtain row where row: "filter (row_matches s) rows = [row]"
        "a = the (normalizeMQTTAddress (Some (orig_src row)))"
      by (metis (no_types, lifting) map_eq_Cons_D map_is_Nil_conv)
    have "row \<in> set (filter (row_matches s) rows)" by (simp add: row(1))
    then have "row \<in> set rows" by simp
    then have "row_valid row" using r(2) by (simp add: list_all_iff)
    then have "normalizeMQTTAddress (Some (orig_src row)) = Some a"
      using row(2) by (auto simp: row_valid_def)
    then show ?R using r row by blast
  next
    assume ?R
    then obtain rows row where "map parse_row ls = map Some rows" "list_all row_valid rows"
        "filter (row_matches s) rows = [row]" "normalizeMQTTAddress (Some (orig_src row)) = Some a" by blast
    then show ?L unfolding scan_rows_Some by (intro exI [of _ rows]) simp
  qed
  have guard: "(if b then None else x) = Some a \<longleftrightarrow> \<not> b \<and> x = Some a" for b and x :: "string option"
    by simp
  show ?thesis
    unfolding conntrackMQTTSource_def asked_for_def conntrack_rows_def scan [symmetric] guard split1 by auto
qed

subsection \<open>The queue of queries\<close>

definition open_ids :: "resolver \<Rightarrow> nat list" where
  "open_ids rs = map job_id (filter (\<lambda>job. \<not> job_settled job) (active rs @ queue rs))"

definition resolver_ok :: "resolver \<Rightarrow> bool" where
  "resolver_ok rs \<longleftrightarrow>
    length (active rs) \<le> 2 \<and> length (queue rs) \<le> 16 \<and> (queue rs = [] \<or> length (active rs) = 2) \<and>
    distinct (map job_id (active rs @ queue rs)) \<and>
    list_all (\<lambda>job. job_id job < next_job rs) (active rs @ queue rs) \<and>
    list_all (\<lambda>job. \<not> job_settled job) (queue rs) \<and>
    distinct (map fst (resolved rs)) \<and>
    set (map fst (resolved rs)) \<inter> set (open_ids rs) = {} \<and>
    set (map fst (resolved rs)) \<union> set (open_ids rs) = {..<next_job rs}"

lemma resolver_ok_new: "resolver_ok new_resolver"
  by (simp add: resolver_ok_def new_resolver_def open_ids_def)

lemma job_id_settle [simp]: "job_id (settle j job) = job_id job"
  by (simp add: settle_def)

lemma job_settled_settle [simp]: "job_settled (settle j job) \<longleftrightarrow> job_settled job \<or> job_id job = j"
  by (simp add: settle_def)

lemma map_job_id_settle [simp]: "map (job_id \<circ> settle j) xs = map job_id xs"
  by (simp add: comp_def)

lemma finish_job_eq:
  "finish_job j a rs = (if j \<in> set (open_ids rs)
     then rs\<lparr>active := map (settle j) (active rs), queue := filter (\<lambda>job. job_id job \<noteq> j) (queue rs),
             resolved := resolved rs @ [(j, a)]\<rparr>
     else rs)"
  by (simp only: finish_job_def open_ids_def set_map)

lemma filter_settle:
  "filter (\<lambda>job. \<not> job_settled job) (map (settle j) xs) = filter (\<lambda>job. \<not> job_settled job \<and> job_id job \<noteq> j) xs"
  by (induction xs) (auto simp: settle_def)

lemma open_ids_finish:
  assumes "j \<in> set (open_ids rs)"
  shows "set (open_ids (finish_job j a rs)) = set (open_ids rs) - {j}"
    and "resolved (finish_job j a rs) = resolved rs @ [(j, a)]"
proof -
  show "resolved (finish_job j a rs) = resolved rs @ [(j, a)]" using assms by (simp add: finish_job_eq)
  have "set (open_ids (finish_job j a rs)) =
      job_id ` {x \<in> set (active rs) \<union> set (queue rs). \<not> job_settled x \<and> job_id x \<noteq> j}"
    using assms by (subst open_ids_def) (auto simp: finish_job_eq filter_settle)
  then show "set (open_ids (finish_job j a rs)) = set (open_ids rs) - {j}"
    by (auto simp: open_ids_def)
qed

lemma finish_closed: "j \<notin> set (open_ids rs) \<Longrightarrow> finish_job j a rs = rs"
  by (simp add: finish_job_eq)

lemma resolver_ok_finish:
  assumes "resolver_ok rs"
  shows "resolver_ok (finish_job j a rs)"
proof (cases "j \<in> set (open_ids rs)")
  case False
  then show ?thesis using assms by (simp add: finish_closed)
next
  case True
  note o = open_ids_finish [OF True, of a]
  have fin: "finish_job j a rs = rs\<lparr>active := map (settle j) (active rs),
      queue := filter (\<lambda>job. job_id job \<noteq> j) (queue rs), resolved := resolved rs @ [(j, a)]\<rparr>"
    using True by (simp add: finish_job_eq)
  have q: "length (filter (\<lambda>job. job_id job \<noteq> j) (queue rs)) \<le> 16"
    using assms le_trans [OF length_filter_le] unfolding resolver_ok_def by blast
  have ids: "map job_id (active (finish_job j a rs) @ queue (finish_job j a rs)) =
      map job_id (active rs) @ map job_id (filter (\<lambda>job. job_id job \<noteq> j) (queue rs))"
    by (simp add: fin)
  have d: "distinct (map job_id (active (finish_job j a rs) @ queue (finish_job j a rs)))"
    using assms unfolding ids resolver_ok_def
    by (auto simp: distinct_map_filter)
  have lists: "length (active (finish_job j a rs)) \<le> 2" "length (queue (finish_job j a rs)) \<le> 16"
      "queue (finish_job j a rs) = [] \<or> length (active (finish_job j a rs)) = 2"
      "list_all (\<lambda>job. job_id job < next_job (finish_job j a rs)) (active (finish_job j a rs) @ queue (finish_job j a rs))"
      "list_all (\<lambda>job. \<not> job_settled job) (queue (finish_job j a rs))"
    using assms q by (auto simp: resolver_ok_def fin list_all_iff)
  have j: "j \<notin> set (map fst (resolved rs))" "j < next_job rs" using assms True unfolding resolver_ok_def by blast+
  have n: "next_job (finish_job j a rs) = next_job rs" by (simp add: fin)
  have rid: "map fst (resolved (finish_job j a rs)) = map fst (resolved rs) @ [j]" by (simp add: o(2))
  have part: "set (map fst (resolved rs)) \<inter> set (open_ids rs) = {}"
      "set (map fst (resolved rs)) \<union> set (open_ids rs) = {..<next_job rs}" "distinct (map fst (resolved rs))"
    using assms unfolding resolver_ok_def by blast+
  have "distinct (map fst (resolved rs) @ [j])" using part(3) j(1) by simp
  moreover have "set (map fst (resolved rs) @ [j]) \<inter> (set (open_ids rs) - {j}) = {}" using part(1) by auto
  moreover have "set (map fst (resolved rs) @ [j]) \<union> (set (open_ids rs) - {j}) = {..<next_job rs}"
    using part(2) j(2) by auto
  ultimately show ?thesis
    unfolding resolver_ok_def rid o(1) using lists d n by simp
qed

lemma resolver_ok_release:
  assumes ok: "resolver_ok rs" and "j \<in> job_id ` set (active rs)" and "j \<notin> set (open_ids rs)"
  shows "resolver_ok (release j rs) \<and> resolved (release j rs) = resolved rs"
proof -
  have d: "distinct (map job_id (active rs))" using ok by (simp add: resolver_ok_def)
  have len: "length (filter (\<lambda>job. job_id job \<noteq> j) (active rs)) < length (active rs)"
    using assms(2) by (auto intro!: length_filter_less)
  have one: "filter (\<lambda>job. \<not> job_settled job) (filter (\<lambda>job. job_id job \<noteq> j) (active rs)) =
      filter (\<lambda>job. \<not> job_settled job) (active rs)"
    using assms(3) by (auto simp: open_ids_def intro!: filter_cong)
  have len2: "length (active rs) = 2 \<Longrightarrow> length (filter (\<lambda>job. job_id job \<noteq> j) (active rs)) = 1"
  proof -
    assume "length (active rs) = 2"
    then obtain x y where "active rs = [x, y]" by (auto simp: length_Suc_conv numeral_2_eq_2)
    then show ?thesis using d assms(2) by auto
  qed
  have jobs: "active (release j rs) @ queue (release j rs) =
      filter (\<lambda>job. job_id job \<noteq> j) (active rs) @ queue rs"
    by (simp add: release_def Let_def split: list.split)
  have ids: "open_ids (release j rs) = open_ids rs"
    using one by (simp only: open_ids_def jobs filter_append)
  have res: "resolved (release j rs) = resolved rs" "next_job (release j rs) = next_job rs"
    by (simp_all add: release_def Let_def split: list.split)
  have dist: "distinct (map job_id (filter (\<lambda>job. job_id job \<noteq> j) (active rs) @ queue rs))"
    using ok unfolding resolver_ok_def by (auto simp: distinct_map_filter)
  have below: "list_all (\<lambda>job. job_id job < next_job rs) (filter (\<lambda>job. job_id job \<noteq> j) (active rs) @ queue rs)"
    using ok unfolding resolver_ok_def by (auto simp: list_all_iff)
  have bounds: "length (active (release j rs)) \<le> 2 \<and> length (queue (release j rs)) \<le> 16 \<and>
      (queue (release j rs) = [] \<or> length (active (release j rs)) = 2) \<and>
      list_all (\<lambda>job. \<not> job_settled job) (queue (release j rs))"
  proof (cases "queue rs")
    case Nil
    then show ?thesis using ok len by (simp add: resolver_ok_def release_def)
  next
    case (Cons q qs)
    then show ?thesis using ok len2 by (simp add: resolver_ok_def release_def)
  qed
  show ?thesis
    using ok bounds dist below unfolding resolver_ok_def ids res jobs by blast
qed

lemma resolver_ok_resolve:
  assumes ok: "resolver_ok rs"
  shows "resolver_ok (snd (resolve st s aborted rs)) \<and> resolved (snd (resolve st s aborted rs)) = resolved rs"
proof -
  have fresh: "next_job rs \<notin> job_id ` set (active rs @ queue rs)"
    using ok unfolding resolver_ok_def by (auto simp: list_all_iff)
  have ord: "list_all (\<lambda>job. job_id job < Suc (next_job rs)) (active rs @ queue rs)"
    using ok unfolding resolver_ok_def list_all_iff by (meson less_Suc_eq)
  have add: "resolver_ok rs'" if rs': "active rs' @ queue rs' = active rs @ job # queue rs \<or>
        active rs' @ queue rs' = (active rs @ queue rs) @ [job]"
      "length (active rs') \<le> 2" "length (queue rs') \<le> 16" "queue rs' = [] \<or> length (active rs') = 2"
      "list_all (\<lambda>job. \<not> job_settled job) (queue rs')"
      "next_job rs' = Suc (next_job rs)" "resolved rs' = resolved rs"
      "job_id job = next_job rs" "\<not> job_settled job" for rs' job
  proof -
    have jobs: "set (active rs' @ queue rs') = insert job (set (active rs @ queue rs))"
      using rs'(1) by (elim disjE) (simp_all only: set_append list.set Un_insert_right Un_empty_right insert_is_Un [symmetric] Un_assoc)
    have "{x \<in> insert job A. \<not> job_settled x} = insert job {x \<in> A. \<not> job_settled x}" for A
      using rs'(9) by auto
    then have ids: "set (open_ids rs') = insert (next_job rs) (set (open_ids rs))"
      by (simp only: open_ids_def set_map set_filter jobs image_insert rs'(8))
    have d: "distinct (map job_id (active rs @ queue rs))" using ok unfolding resolver_ok_def by blast
    have "distinct (map job_id (active rs' @ queue rs'))"
      using rs'(1) by (elim disjE) (use d fresh in \<open>simp_all only:, auto simp: rs'(8)\<close>)
    moreover have "list_all (\<lambda>job. job_id job < next_job rs') (active rs' @ queue rs')"
      unfolding list_all_iff jobs using ord by (auto simp: rs'(6,8) list_all_iff)
    moreover have part: "set (map fst (resolved rs)) \<inter> set (open_ids rs) = {}"
      "set (map fst (resolved rs)) \<union> set (open_ids rs) = {..<next_job rs}" "distinct (map fst (resolved rs))"
      using ok unfolding resolver_ok_def by blast+
    moreover have "set (map fst (resolved rs)) \<inter> insert (next_job rs) (set (open_ids rs)) = {}"
      using part by auto
    moreover have "set (map fst (resolved rs)) \<union> insert (next_job rs) (set (open_ids rs)) = {..<Suc (next_job rs)}"
      using part(2) by auto
    ultimately show ?thesis
      unfolding resolver_ok_def ids rs'(6,7) using rs'(2-5) by (simp add: rs'(6))
  qed
  show ?thesis
  proof (cases "fst (resolve st s aborted rs)")
    case (Some answer)
    then have "snd (resolve st s aborted rs) = rs"
      by (auto simp: resolve_def Let_def split: option.splits if_splits)
    then show ?thesis using ok by simp
  next
    case None
    let ?job = "\<lparr>job_id = next_job rs, job_tuple = s, job_config = router (config st), job_settled = False\<rparr>"
    let ?rs = "rs\<lparr>next_job := next_job rs + 1\<rparr>"
    have full: "not_asked st s remote rs" if "length (active rs) \<ge> 2" "length (queue rs) \<ge> 16" for remote
      using that by (simp add: not_asked_def Let_def)
    have r: "snd (resolve st s aborted rs) =
        (if length (active rs) < 2 then ?rs\<lparr>active := active rs @ [?job]\<rparr> else ?rs\<lparr>queue := queue rs @ [?job]\<rparr>) \<and>
        (length (active rs) \<ge> 2 \<longrightarrow> length (queue rs) < 16)"
      using None full by (auto simp: resolve_def Let_def not_le [symmetric] split: option.splits if_splits)
    have b: "length (queue rs) \<le> 16" "length (active rs) \<le> 2" "list_all (\<lambda>job. \<not> job_settled job) (queue rs)"
      "queue rs = [] \<or> length (active rs) = 2"
      using ok unfolding resolver_ok_def by blast+
    have "resolver_ok (snd (resolve st s aborted rs))"
    proof (cases "length (active rs) < 2")
      case True
      then have "queue rs = []" using b by auto
      then show ?thesis using r True b by (intro add [of _ ?job]) simp_all
    next
      case False
      then show ?thesis using r b by (intro add [of _ ?job]) simp_all
    qed
    then show ?thesis using r by simp
  qed
qed

lemma job_active_after_finish:
  "job_id ` set (active (finish_job j a rs)) = job_id ` set (active rs)"
  by (auto simp: finish_job_eq image_iff)

lemma resolver_ok_query_done:
  assumes "resolver_ok rs"
  shows "resolver_ok (query_done st j result rs)"
proof (cases "filter (\<lambda>job. job_id job = j) (active rs)")
  case Nil
  then show ?thesis using assms by (simp add: query_done_def)
next
  case (Cons job jobs)
  let ?rs = "case result of None \<Rightarrow> rs
    | Some res \<Rightarrow> (case query_answer st job res of None \<Rightarrow> rs | Some answer \<Rightarrow> finish_job j answer rs)"
  have act: "j \<in> job_id ` set (active rs)"
    using Cons by (metis (mono_tags) filter_eq_Cons_iff image_eqI in_set_conv_decomp)
  have ok: "resolver_ok ?rs" using assms by (auto intro: resolver_ok_finish split: option.split)
  have act1: "j \<in> job_id ` set (active ?rs)"
    using act by (auto simp: job_active_after_finish split: option.split)
  have closed: "j \<notin> set (open_ids (finish_job j None ?rs))"
    by (cases "j \<in> set (open_ids ?rs)") (simp_all add: open_ids_finish(1) finish_closed)
  have "resolver_ok (release j (finish_job j None ?rs))"
    using resolver_ok_release [OF resolver_ok_finish [OF ok] _ closed] act1
    by (simp add: job_active_after_finish)
  then show ?thesis using Cons by (simp add: query_done_def)
qed

lemma resolver_ok_step: "resolver_ok rs \<Longrightarrow> resolver_ok (resolver_step st rs ev)"
  by (cases ev) (simp_all add: resolver_ok_resolve resolver_ok_finish resolver_ok_query_done)

text \<open>
  C34. Whatever questions arrive, are cancelled and come back, in whatever order and with
  whatever the configuration is by then: at most two queries run on the router at a time, at
  most sixteen wait, none waits while a place is free, and every question taken on is answered
  at most once and is either answered or still running or waiting.
\<close>

theorem resolver_bounded:
  "length (active (resolver_run evs)) \<le> 2 \<and> length (queue (resolver_run evs)) \<le> 16 \<and>
   (queue (resolver_run evs) = [] \<or> length (active (resolver_run evs)) = 2) \<and>
   distinct (map fst (resolved (resolver_run evs))) \<and>
   set (map fst (resolved (resolver_run evs))) \<inter> set (open_ids (resolver_run evs)) = {} \<and>
   set (map fst (resolved (resolver_run evs))) \<union> set (open_ids (resolver_run evs)) = {..<next_job (resolver_run evs)}"
proof -
  have "resolver_ok (foldl (\<lambda>rs (st, ev). resolver_step st rs ev) rs evs)" if "resolver_ok rs" for rs
    using that by (induction evs arbitrary: rs) (auto simp: resolver_ok_step)
  then have "resolver_ok (resolver_run evs)" unfolding resolver_run_def using resolver_ok_new .
  then show ?thesis unfolding resolver_ok_def by blast
qed

lemma resolved_finish:
  "set (resolved (finish_job j a rs)) \<subseteq> insert (j, a) (set (resolved rs))"
  by (auto simp: finish_job_eq)

lemma resolved_release [simp]: "resolved (release j rs) = resolved rs"
  by (simp add: release_def Let_def split: list.split)

lemma resolved_resolve [simp]: "resolved (snd (resolve st s aborted rs)) = resolved rs"
  by (simp add: resolve_def Let_def split: option.split)

text \<open>
  A source the resolver answers with, at once or after a query, is the address of exactly
  one appliance of the inventory as it is at that moment, one that may be linked, and is neither
  the router nor this server. After a query the router settings are, moreover, those the
  question was asked under.
\<close>

theorem resolver_answers_registered:
  assumes "fst (resolve st s aborted rs) = Some (Some a) \<or>
      (\<exists>j ev. (j, Some a) \<in> set (resolved (resolver_step st rs ev)) - set (resolved rs))"
  shows "registered (inventory_of st) a \<noteq> None \<and> a \<notin> {host (router (config st)), rethinkIp (router (config st))}"
  using assms
proof
  assume "fst (resolve st s aborted rs) = Some (Some a)"
  then show ?thesis by (auto simp: resolve_def Let_def split: option.splits if_splits)
next
  assume "\<exists>j ev. (j, Some a) \<in> set (resolved (resolver_step st rs ev)) - set (resolved rs)"
  then obtain j ev where new: "(j, Some a) \<in> set (resolved (resolver_step st rs ev))" "(j, Some a) \<notin> set (resolved rs)"
    by blast
  show ?thesis
  proof (cases ev)
    case (QueryDone i result)
    then obtain job jobs where job: "filter (\<lambda>job. job_id job = i) (active rs) = job # jobs"
      using new by (cases "filter (\<lambda>job. job_id job = i) (active rs)") (auto simp: query_done_def)
    obtain res answer where q: "result = Some res" "query_answer st job res = Some answer" "answer = Some a"
      using new resolved_finish [of i None] resolved_finish [of i _ rs]
      by (auto simp: QueryDone query_done_def job split: option.splits) blast+
    then have "conntrackMQTTSource (q_stdout res) (job_tuple job) (router (config st)) (inventory_of st) = Some a"
      by (auto simp: query_answer_def Let_def split: if_splits)
    then show ?thesis
      by (auto simp: conntrackMQTTSource_def split: if_splits option.splits list.splits)
  next
    case (Cancel i)
    then show ?thesis using new resolved_finish [of i None rs] by auto
  qed (use new in simp)
qed

subsection \<open>An example: a washing machine behind the router\<close>

definition table_demo :: string where
  "table_demo = ''tcp      6 431999 ESTABLISHED src=10.0.0.5 dst=1.2.3.4 sport=4000 dport=8883 '' @
     ''src=10.0.0.9 dst=10.0.0.1 sport=8884 dport=4001 [ASSURED] mark=0 use=1'' @ [CHR 0x0A]"

definition source_demo :: mqtt_source where
  "source_demo = \<lparr>src_remoteAddress = Some ''10.0.0.1'', src_remotePort = Some 4001,
     src_localAddress = Some ''10.0.0.9'', src_localPort = Some 8884\<rparr>"

definition store_demo :: store where
  "store_demo = new_store \<lparr>router = router (config demo_store), devices =
     [\<lparr>de_entryId = ''e1'', de_ip = ''10.0.0.5'', de_deviceId = None, de_autoLink = None,
       detectedName = None, customName = None, de_platform = None, de_mode = None, dnatDesired = None\<rparr>]\<rparr>"

lemma store_demo_configured: "configured store_demo"
proof -
  have "isHostKeyFingerprint demo_fingerprint" by code_simp
  then show ?thesis
    by (simp add: store_demo_def new_store_def demo_store_def configured_def
        hasConnectionSettings_def validIPv4_def isIPv4_def ipv4_part_def digit_def decimal_def digit_value_def)
qed

lemma table_demo_shape: "ends_with [CHR 0x0A] table_demo" "length table_demo = 148"
  by code_simp+

lemma source_demo_ok:
  "normalizeMQTTAddress (src_remoteAddress source_demo) = Some ''10.0.0.1''"
  "normalizeMQTTAddress (src_localAddress source_demo) = Some ''10.0.0.9''"
  "validPort (src_remotePort source_demo)" "validPort (src_localPort source_demo)"
  "host (router (config store_demo)) = ''10.0.0.1''" "rethinkIp (router (config store_demo)) = ''10.0.0.9''"
proof -
  show "normalizeMQTTAddress (src_remoteAddress source_demo) = Some ''10.0.0.1''"
    "normalizeMQTTAddress (src_localAddress source_demo) = Some ''10.0.0.9''"
    by code_simp+
  show "validPort (src_remotePort source_demo)" "validPort (src_localPort source_demo)"
    by (simp_all add: validPort_def source_demo_def)
  show "host (router (config store_demo)) = ''10.0.0.1''" "rethinkIp (router (config store_demo)) = ''10.0.0.9''"
    by (simp_all add: store_demo_def new_store_def demo_store_def)
qed

lemma table_demo_source:
  "conntrackMQTTSource table_demo source_demo (router (config store_demo)) (inventory_of store_demo) = Some ''10.0.0.5''"
proof -
  have scan: "scan_rows source_demo (split_on CHR 0x0A (trimEnd table_demo)) = Some [''10.0.0.5'']" by code_simp
  have "registered (inventory_of store_demo) ''10.0.0.5'' \<noteq> None"
    by (simp add: registered_def inventory_of_def store_demo_def new_store_def)
  then show ?thesis
    using source_demo_ok table_demo_shape by (simp add: conntrackMQTTSource_def scan MAX_OUTPUT_def)
qed

definition asking_demo :: resolver where
  "asking_demo = snd (resolve store_demo source_demo False new_resolver)"

definition answer_demo :: resolver_event where
  "answer_demo = QueryDone 0 (Some \<lparr>q_code = 0, q_stdout = table_demo, q_stderr = []\<rparr>)"

lemma asking_demo_eq:
  "asking_demo = \<lparr>active = [\<lparr>job_id = 0, job_tuple = source_demo, job_config = router (config store_demo), job_settled = False\<rparr>],
     queue = [], next_job = 1, resolved = []\<rparr>"
proof -
  have "\<not> not_asked store_demo source_demo ''10.0.0.1'' new_resolver"
    using store_demo_configured source_demo_ok
    by (auto simp: not_asked_def configured_def new_resolver_def split: option.splits)
  then show ?thesis
    using source_demo_ok by (simp add: asking_demo_def resolve_def Let_def new_resolver_def)
qed

lemma answer_demo_resolved:
  "resolved (resolver_step store_demo asking_demo answer_demo) = [(0, Some ''10.0.0.5'')]"
proof -
  let ?job = "\<lparr>job_id = 0, job_tuple = source_demo, job_config = router (config store_demo), job_settled = False\<rparr>"
  have "query_answer store_demo ?job \<lparr>q_code = 0, q_stdout = table_demo, q_stderr = []\<rparr> = Some (Some ''10.0.0.5'')"
    using store_demo_configured table_demo_shape by (simp add: query_answer_def table_demo_source MAX_OUTPUT_def)
  then show ?thesis
    by (simp add: asking_demo_eq answer_demo_def query_done_def finish_job_def settle_def Let_def cong: conj_cong)
qed

theorem resolver_answers_registered_witness:
  "registered (inventory_of store_demo) ''10.0.0.5'' \<noteq> None \<and> ''10.0.0.5'' \<noteq> host (router (config store_demo))"
proof -
  have "(0, Some ''10.0.0.5'') \<in> set (resolved (resolver_step store_demo asking_demo answer_demo)) - set (resolved asking_demo)"
    by (simp add: answer_demo_resolved) (simp add: asking_demo_eq)
  then have "\<exists>j ev. (j, Some ''10.0.0.5'') \<in> set (resolved (resolver_step store_demo asking_demo ev)) - set (resolved asking_demo)"
    by blast
  then show ?thesis using resolver_answers_registered [OF disjI2] by blast
qed

end
