(* ===== verification/JsNumber.thy ===== *)
theory JsNumber
  imports Prelude "HOL-Library.Log_Nat"
begin

text \<open>
  The numbers of the language: a double is a rational with a significand of 53 bits, an operation the
  exact result rounded to the nearest double, ties to the even one. The exponent is not bounded, so
  overflow to infinity and subnormal numbers are outside the model; \<open>NaN\<close> is a matter of the callers.
\<close>

definition round_even :: "rat \<Rightarrow> int" where
  "round_even y = (let f = \<lfloor>y\<rfloor>; d = y - of_int f in if d < 1 / 2 \<or> (d = 1 / 2 \<and> even f) then f else f + 1)"

text \<open>The binade of a positive number: the exponent of the power of two at or below it.\<close>

definition binade :: "rat \<Rightarrow> int" where
  "binade x = (let (p, q) = quotient_of x; k = int (floorlog 2 (nat p)) - int (floorlog 2 (nat q))
     in if x < 2 powi k then k - 1 else k)"

definition fl_pos :: "rat \<Rightarrow> rat" where
  "fl_pos x = (let u = 2 powi (binade x - 52) in of_int (round_even (x / u)) * u)"

definition fl :: "rat \<Rightarrow> rat" where
  "fl x = (if x = 0 then 0 else if 0 < x then fl_pos x else - fl_pos (- x))"

definition jadd :: "rat \<Rightarrow> rat \<Rightarrow> rat" where "jadd x y = fl (x + y)"
definition jsub :: "rat \<Rightarrow> rat \<Rightarrow> rat" where "jsub x y = fl (x - y)"
definition jmul :: "rat \<Rightarrow> rat \<Rightarrow> rat" where "jmul x y = fl (x * y)"
definition jdiv :: "rat \<Rightarrow> rat \<Rightarrow> rat" where "jdiv x y = fl (x / y)"

text \<open>\<open>Math.round\<close> is the integer nearest to its argument, upwards when there are two.\<close>

definition math_round :: "rat \<Rightarrow> int" where "math_round x = \<lfloor>x + 1 / 2\<rfloor>"

subsection \<open>Rounding\<close>

lemma round_even_of_int [simp]: "round_even (of_int i) = i"
  by (simp add: round_even_def)

lemma round_even_mono: "y \<le> z \<Longrightarrow> round_even y \<le> round_even z"
proof -
  assume le: "y \<le> z"
  have up: "round_even y \<le> \<lfloor>y\<rfloor> + 1" "\<lfloor>z\<rfloor> \<le> round_even z" by (simp_all add: round_even_def Let_def)
  show ?thesis
  proof (cases "\<lfloor>y\<rfloor> = \<lfloor>z\<rfloor>")
    case True
    then show ?thesis using le by (auto simp: round_even_def Let_def)
  next
    case False
    then have "\<lfloor>y\<rfloor> + 1 \<le> \<lfloor>z\<rfloor>" using floor_mono [OF le] by simp
    then show ?thesis using up by simp
  qed
qed

lemma floorlog_pow:
  assumes "0 < n"
  shows "2 powi (int (floorlog 2 n) - 1) \<le> (of_nat n :: rat)" "(of_nat n :: rat) < 2 powi int (floorlog 2 n)"
proof -
  have f: "0 < floorlog 2 n" using assms by (simp add: floorlog_def)
  have "2 ^ (floorlog 2 n - 1) \<le> n \<and> n < 2 ^ floorlog 2 n" using floorlog_bounds [of n 2] assms by simp
  then have "(2 :: rat) ^ (floorlog 2 n - 1) \<le> of_nat n" "(of_nat n :: rat) < 2 ^ floorlog 2 n"
    by (metis of_nat_le_iff of_nat_power of_nat_numeral, metis of_nat_less_iff of_nat_power of_nat_numeral)
  moreover have "(2 :: rat) powi (int (floorlog 2 n) - 1) = 2 ^ (floorlog 2 n - 1)"
    using f by (metis One_nat_def Suc_leI int_ops(2) of_nat_diff power_int_of_nat)
  ultimately show "2 powi (int (floorlog 2 n) - 1) \<le> (of_nat n :: rat)" "(of_nat n :: rat) < 2 powi int (floorlog 2 n)"
    by (simp_all add: power_int_of_nat)
qed

lemma binade_bounds:
  assumes "0 < x"
  shows "2 powi binade x \<le> x" "x < 2 powi (binade x + 1)"
proof -
  obtain p q where pq: "quotient_of x = (p, q)" by fastforce
  have q: "0 < q" and x: "x = of_int p / of_int q" using quotient_of_denom_pos [OF pq] quotient_of_div [OF pq] by simp_all
  then have p: "0 < p" using assms by (simp add: zero_less_divide_iff)
  define a b where "a = int (floorlog 2 (nat p))" and "b = int (floorlog 2 (nat q))"
  have P: "2 powi (a - 1) \<le> (of_int p :: rat)" "(of_int p :: rat) < 2 powi a"
    using floorlog_pow [of "nat p"] p by (simp_all add: a_def of_nat_nat)
  have Q: "2 powi (b - 1) \<le> (of_int q :: rat)" "(of_int q :: rat) < 2 powi b"
    using floorlog_pow [of "nat q"] q by (simp_all add: b_def of_nat_nat)
  have "2 powi (a - 1) / 2 powi b \<le> x" unfolding x using P Q q p by (intro frac_le) simp_all
  then have lo: "2 powi (a - b - 1) \<le> x" by (simp add: power_int_diff [symmetric] algebra_simps)
  have "x < 2 powi a / 2 powi (b - 1)" unfolding x using P Q q p by (intro frac_less) simp_all
  then have hi: "x < 2 powi (a - b + 1)" by (simp add: power_int_diff [symmetric] algebra_simps)
  have "binade x = (if x < 2 powi (a - b) then a - b - 1 else a - b)" by (simp add: binade_def pq a_def b_def Let_def)
  then show "2 powi binade x \<le> x" "x < 2 powi (binade x + 1)" using lo hi by (auto simp: algebra_simps)
qed

lemma two_powi_less_iff: "(2 :: rat) powi a < 2 powi b \<longleftrightarrow> a < b"
  using power_int_strict_increasing [of a b "2 :: rat"] power_int_increasing [of b a "2 :: rat"] by (cases "a < b") auto

lemma two_powi_le_iff: "(2 :: rat) powi a \<le> 2 powi b \<longleftrightarrow> a \<le> b"
  using two_powi_less_iff [of b a] by (simp add: not_less [symmetric])

lemma fl_pos_bounds:
  assumes "0 < x"
  shows "2 powi binade x \<le> fl_pos x" "fl_pos x \<le> 2 powi (binade x + 1)"
proof -
  define u where "u = (2 :: rat) powi (binade x - 52)"
  have u: "0 < u" "2 powi binade x = of_int (2 ^ 52) * u" "2 powi (binade x + 1) = of_int (2 ^ 53) * u"
    using power_int_add [of "2 :: rat" 52 "binade x - 52"] power_int_add [of "2 :: rat" 53 "binade x - 52"]
    by (simp_all add: u_def algebra_simps)
  have "of_int (2 ^ 52) \<le> x / u" "x / u \<le> of_int (2 ^ 53)"
    using binade_bounds [OF assms] u by (simp_all add: field_simps)
  then have "2 ^ 52 \<le> round_even (x / u)" "round_even (x / u) \<le> 2 ^ 53"
    using round_even_mono [of "of_int (2 ^ 52)" "x / u"] round_even_mono [of "x / u" "of_int (2 ^ 53)"]
    by (simp_all only: round_even_of_int)
  then have "(of_int (2 ^ 52) :: rat) \<le> of_int (round_even (x / u))" "of_int (round_even (x / u)) \<le> (of_int (2 ^ 53) :: rat)"
    by (simp_all only: of_int_le_iff)
  then show "2 powi binade x \<le> fl_pos x" "fl_pos x \<le> 2 powi (binade x + 1)"
    using u by (simp_all add: fl_pos_def u_def [symmetric] Let_def del: of_int_power)
qed

lemma fl_pos_mono:
  assumes "0 < x" "x \<le> y"
  shows "fl_pos x \<le> fl_pos y"
proof (cases "binade x = binade y")
  case True
  then show ?thesis
    using round_even_mono [of "x / 2 powi (binade y - 52)" "y / 2 powi (binade y - 52)"] assms
    by (simp add: fl_pos_def Let_def divide_right_mono)
next
  case False
  have "2 powi binade x < (2 :: rat) powi (binade y + 1)"
    using binade_bounds [OF assms(1)] binade_bounds [of y] assms by simp
  then have "binade x < binade y + 1" by (simp add: two_powi_less_iff)
  then have "binade x + 1 \<le> binade y" using False by simp
  then have "(2 :: rat) powi (binade x + 1) \<le> 2 powi binade y" by (simp add: power_int_increasing)
  then show ?thesis using fl_pos_bounds [OF assms(1)] fl_pos_bounds [of y] assms by simp
qed

lemma fl_minus: "fl (- x) = - fl x"
  by (simp add: fl_def)

lemma fl_pos_positive: "0 < x \<Longrightarrow> 0 < fl_pos x"
  using fl_pos_bounds(1) [of x] by (simp add: less_le_trans [of 0 "2 powi binade x"])

lemma fl_0 [simp]: "fl 0 = 0" by (simp add: fl_def)

lemma fl_nonneg: "0 \<le> x \<Longrightarrow> 0 \<le> fl x"
  using fl_pos_positive [of x] by (auto simp: fl_def)

lemma fl_mono: "x \<le> y \<Longrightarrow> fl x \<le> fl y"
proof -
  assume le: "x \<le> y"
  consider "0 \<le> x" | "x < 0" "0 \<le> y" | "y < 0" using le by force
  then show ?thesis
  proof cases
    case 1
    then show ?thesis using le fl_pos_mono [of x y] fl_pos_positive [of y] by (auto simp: fl_def)
  next
    case 2
    then show ?thesis using fl_nonneg [of "- x"] fl_nonneg [of y] by (simp add: fl_minus)
  next
    case 3
    then show ?thesis using le fl_pos_mono [of "- y" "- x"] by (simp add: fl_def)
  qed
qed

text \<open>An integer of at most 53 bits is a double.\<close>

lemma fl_pos_of_int:
  assumes "0 < n" "n < 2 ^ 53"
  shows "fl_pos (of_int n) = of_int n"
proof -
  define u where "u = (2 :: rat) powi (binade (of_int n) - 52)"
  have "(2 :: rat) powi binade (of_int n) < 2 powi 53"
    using binade_bounds(1) [of "of_int n"] assms by (simp add: le_less_trans [of _ "of_int n"])
  then have "binade (of_int n) < 53" by (simp only: two_powi_less_iff)
  then obtain k where k: "52 - binade (of_int n) = int k" using nonneg_int_cases [of "52 - binade (of_int n)"] by auto
  have "u = 2 powi (- int k)" unfolding u_def using k by (intro arg_cong [of _ _ "\<lambda>i. 2 powi i"]) simp
  then have "1 / u = of_int (2 ^ k)" by (simp add: power_int_minus divide_inverse)
  then have "of_int n * (1 / u) = (of_int (n * 2 ^ k) :: rat)" by (simp only: of_int_mult)
  then have n: "of_int n / u = (of_int (n * 2 ^ k) :: rat)" by simp
  have "u \<noteq> 0" by (simp add: u_def)
  then have "of_int (round_even (of_int n / u)) * u = (of_int n :: rat)"
    by (simp only: n round_even_of_int) (simp only: n [symmetric], simp)
  then show ?thesis by (simp add: fl_pos_def Let_def u_def)
qed

lemma fl_of_int: "\<bar>n\<bar> < 2 ^ 53 \<Longrightarrow> fl (of_int n) = of_int n"
  using fl_pos_of_int [of n] fl_pos_of_int [of "- n"] by (auto simp: fl_def)

lemma fl_of_nat: "n < 2 ^ 53 \<Longrightarrow> fl (of_nat n) = of_nat n"
  using fl_of_int [of "int n"] by simp

lemma fl_numeral [simp]: "(numeral k :: nat) < 2 ^ 53 \<Longrightarrow> fl (numeral k) = numeral k" "fl 1 = 1"
  using fl_of_nat [of "numeral k"] fl_of_nat [of 1] by simp_all

text \<open>Rounding twice is rounding once.\<close>

lemma fl_fl_pos:
  assumes "0 < x"
  shows "fl_pos (fl_pos x) = fl_pos x"
proof (cases "fl_pos x = 2 powi (binade x + 1)")
  case True
  have "2 powi binade (2 powi (binade x + 1)) \<le> (2 :: rat) powi (binade x + 1)"
    "(2 :: rat) powi (binade x + 1) < 2 powi (binade (2 powi (binade x + 1)) + 1)" for x
    using binade_bounds [of "2 powi (binade x + 1)"] by simp_all
  then have b: "binade (2 powi (binade x + 1)) = binade x + 1"
    by (simp add: two_powi_le_iff two_powi_less_iff order_antisym)
  have "(2 :: rat) powi (binade x + 1) / 2 powi (binade x + 1 - 52) = of_int (2 ^ 52)"
    by (simp add: power_int_diff [symmetric])
  then show ?thesis
    using power_int_add [of "2 :: rat" 52 "binade x + 1 - 52"]
    by (simp only: True) (simp only: fl_pos_def b Let_def round_even_of_int, simp add: algebra_simps)
next
  case False
  then have "2 powi binade x \<le> fl_pos x" "fl_pos x < 2 powi (binade x + 1)" using fl_pos_bounds [OF assms] by auto
  moreover have "2 powi binade (fl_pos x) \<le> fl_pos x" "fl_pos x < 2 powi (binade (fl_pos x) + 1)"
    using binade_bounds [OF fl_pos_positive [OF assms]] by simp_all
  ultimately have "(2 :: rat) powi binade x < 2 powi (binade (fl_pos x) + 1)" "(2 :: rat) powi binade (fl_pos x) < 2 powi (binade x + 1)"
    by simp_all
  then have "binade (fl_pos x) = binade x" by (simp add: two_powi_less_iff)
  then show ?thesis by (simp add: fl_pos_def [of "fl_pos x"] Let_def) (simp add: fl_pos_def Let_def)
qed

lemma fl_fl [simp]: "fl (fl x) = fl x"
  using fl_fl_pos [of x] fl_fl_pos [of "- x"] fl_pos_positive [of x] fl_pos_positive [of "- x"] by (auto simp: fl_def)

text \<open>A way to compute a rounding: the significand and the exponent that give it.\<close>

lemma round_even_near: "\<bar>y - of_int m\<bar> < 1 / 2 \<Longrightarrow> round_even y = m"
proof -
  assume a: "\<bar>y - of_int m\<bar> < 1 / 2"
  have "\<lfloor>y\<rfloor> = (if of_int m \<le> y then m else m - 1)" using a by (intro floor_unique) (auto simp: abs_less_iff)
  then show ?thesis using a by (auto simp: round_even_def Let_def abs_less_iff)
qed

lemma fl_eval:
  assumes "y = x * 2 powi (- e)" "2 ^ 52 \<le> y" "y < 2 ^ 53" "\<bar>y - of_int m\<bar> < 1 / 2"
  shows "fl x = of_int m * 2 powi e"
proof -
  have u: "x / 2 powi e = y" using assms(1) by (simp add: power_int_minus divide_inverse)
  then have x: "2 powi (52 + e) \<le> x" "x < 2 powi (53 + e)" using assms(2,3) by (auto simp: power_int_add field_simps)
  have pos: "0 < x" using less_le_trans [OF _ x(1), of 0] by simp
  have "(2 :: rat) powi binade x < 2 powi (53 + e)" "(2 :: rat) powi (52 + e) < 2 powi (binade x + 1)"
    using binade_bounds [OF pos] x by simp_all
  then have "binade x = 52 + e" by (simp add: two_powi_less_iff)
  then show ?thesis using pos u round_even_near [OF assms(4)] by (simp add: fl_def fl_pos_def Let_def)
qed

text \<open>A double to which something is added does not go down, whatever is rounded away.\<close>

lemma jadd_increases: "fl x = x \<Longrightarrow> 0 \<le> y \<Longrightarrow> x \<le> jadd x y"
  using fl_mono [of x "x + y"] by (simp add: jadd_def)

lemma fl_jops [simp]: "fl (jadd x y) = jadd x y" "fl (jsub x y) = jsub x y" "fl (jmul x y) = jmul x y" "fl (jdiv x y) = jdiv x y"
  by (simp_all add: jadd_def jsub_def jmul_def jdiv_def)

lemma jops_nonneg: "0 \<le> x \<Longrightarrow> 0 \<le> y \<Longrightarrow> 0 \<le> jmul x y" "0 \<le> x \<Longrightarrow> 0 \<le> y \<Longrightarrow> 0 \<le> jdiv x y"
  "0 \<le> x \<Longrightarrow> 0 \<le> y \<Longrightarrow> 0 \<le> jadd x y"
  by (simp_all add: jmul_def jdiv_def jadd_def fl_nonneg)

end
