(* ===== verification/EnergyMeter.thy ===== *)
theory EnergyMeter
  imports JsNumber
begin

text \<open>
  The energy counter of an appliance and the group of appliances on one outdoor unit:
  \<open>cloud/devices/energy_meter.ts\<close> and \<open>cloud/devices/outdoor_unit.ts\<close>. Numbers are doubles, clocks are
  milliseconds; a reading that is not finite is \<open>None\<close>. The file of the counter is \<open>m_disk\<close>, \<open>None\<close> when it
  is missing or is not JSON, and \<open>None\<close> stays when there is no data directory; whether a save succeeds is
  an argument. The signature of a report is the pair of the numbers whose text the code joins.
\<close>

subsection \<open>The counter\<close>

definition MAX_POWER_SAMPLE_GAP_S :: rat where "MAX_POWER_SAMPLE_GAP_S = 5 * 60"
definition PUBLISH_INTERVAL_MS :: int where "PUBLISH_INTERVAL_MS = 60 * 1000"
definition REPEAT_REPORT_WINDOW_MS :: int where "REPEAT_REPORT_WINDOW_MS = 2 * 60 * 1000"

record meter_state =
  totalWh :: rat
  lastReportSignature :: "(rat \<times> rat) option"
  lastReportAt :: "int option"
  fromReports :: bool

record saved_state =
  sv_totalWh :: "rat option"
  sv_signature :: "(rat \<times> rat) option"
  sv_reportAt :: "int option"
  sv_fromReports :: bool

record meter =
  m_state :: meter_state
  lastSampleAt :: "int option"
  lastPublishAt :: int
  m_dataDir :: bool
  m_disk :: "saved_state option"
  published :: "int list"

definition load_meter :: "bool \<Rightarrow> saved_state option \<Rightarrow> meter_state" where
  "load_meter dataDir disk =
    (case (if dataDir then disk else None) of
       None \<Rightarrow> \<lparr>totalWh = 0, lastReportSignature = None, lastReportAt = None, fromReports = False\<rparr>
     | Some sv \<Rightarrow> \<lparr>totalWh = (case sv_totalWh sv of Some x \<Rightarrow> x | None \<Rightarrow> 0), lastReportSignature = sv_signature sv,
         lastReportAt = sv_reportAt sv, fromReports = sv_fromReports sv\<rparr>)"

definition new_meter :: "bool \<Rightarrow> saved_state option \<Rightarrow> meter" where
  "new_meter dataDir disk = \<lparr>m_state = load_meter dataDir disk, lastSampleAt = None, lastPublishAt = 0,
     m_dataDir = dataDir, m_disk = disk, published = []\<rparr>"

definition save_meter :: "bool \<Rightarrow> meter \<Rightarrow> meter" where
  "save_meter ok m =
    (if m_dataDir m \<and> ok
     then m\<lparr>m_disk := Some \<lparr>sv_totalWh = Some (totalWh (m_state m)), sv_signature = lastReportSignature (m_state m),
       sv_reportAt = lastReportAt (m_state m), sv_fromReports = fromReports (m_state m)\<rparr>\<rparr>
     else m)"

definition publish_total :: "meter \<Rightarrow> meter" where
  "publish_total m = m\<lparr>published := published m @ [math_round (totalWh (m_state m))]\<rparr>"

definition estimate :: "rat \<Rightarrow> rat \<Rightarrow> rat" where
  "estimate watts seconds = jdiv (jmul watts seconds) 3600"

definition sample_seconds :: "int \<Rightarrow> int \<Rightarrow> rat" where
  "sample_seconds previous now = min (jdiv (of_int (now - previous)) 1000) MAX_POWER_SAMPLE_GAP_S"

definition integratePower :: "bool \<Rightarrow> rat option \<Rightarrow> int \<Rightarrow> bool \<Rightarrow> meter \<Rightarrow> meter" where
  "integratePower ok watts now running m =
    (if \<not> running then m\<lparr>lastSampleAt := None\<rparr>
     else let m' = m\<lparr>lastSampleAt := Some now\<rparr> in
       case lastSampleAt m of
         None \<Rightarrow> m'
       | Some previous \<Rightarrow>
           if fromReports (m_state m) then m'
           else let seconds = sample_seconds previous now in
             (case watts of
                None \<Rightarrow> m'
              | Some w \<Rightarrow>
                  if \<not> seconds > 0 \<or> w < 0 then m'
                  else let m' = m'\<lparr>m_state := (m_state m')\<lparr>totalWh := jadd (totalWh (m_state m')) (estimate w seconds)\<rparr>\<rparr> in
                    if now - lastPublishAt m' < PUBLISH_INTERVAL_MS then m'
                    else save_meter ok (publish_total (m'\<lparr>lastPublishAt := now\<rparr>))))"

definition addMeasuredInterval :: "bool \<Rightarrow> rat \<Rightarrow> rat \<Rightarrow> int \<Rightarrow> meter \<Rightarrow> meter" where
  "addMeasuredInterval ok intervalWh intervalSeconds now m =
    (let m = m\<lparr>m_state := (m_state m)\<lparr>fromReports := True\<rparr>\<rparr>;
         signature = (intervalWh, intervalSeconds)
     in if lastReportSignature (m_state m) = Some signature \<and>
          (case lastReportAt (m_state m) of Some t \<Rightarrow> now - t < REPEAT_REPORT_WINDOW_MS | None \<Rightarrow> False)
        then m
        else save_meter ok (publish_total (m\<lparr>m_state := (m_state m)\<lparr>lastReportSignature := Some signature,
          lastReportAt := Some now, totalWh := jadd (totalWh (m_state m)) intervalWh\<rparr>\<rparr>)))"

text \<open>
  What happens to a counter: readings, measured intervals, publications, and a restart, which makes a new
  object from the file and publishes it, as a handler does when it configures itself. What was published
  before stays published.
\<close>

datatype meter_event =
    Sample bool "rat option" int bool
  | Measured bool rat rat int
  | Publish
  | Restart

fun meter_step :: "meter \<Rightarrow> meter_event \<Rightarrow> meter" where
  "meter_step m (Sample ok watts now running) = integratePower ok watts now running m"
| "meter_step m (Measured ok wh seconds now) = addMeasuredInterval ok wh seconds now m"
| "meter_step m Publish = publish_total m"
| "meter_step m Restart = publish_total ((new_meter (m_dataDir m) (m_disk m))\<lparr>published := published m\<rparr>)"

definition meter_run :: "meter \<Rightarrow> meter_event list \<Rightarrow> meter" where
  "meter_run m es = foldl meter_step m es"

subsection \<open>The group\<close>

text \<open>
  \<open>OutdoorUnit\<close>: what the publisher was called with is \<open>o_said\<close>; before the primary appliance has attached
  itself there is no publisher. \<open>groups\<close> is the process's map of units by their first member.
\<close>

datatype outdoor_value = Watts rat | Turning bool | Total int

record outdoor =
  primaryId :: string
  memberIds :: "string list"
  o_name :: string
  readings :: "(string \<times> rat) list"
  o_energy :: meter
  o_publisher :: bool
  o_said :: "(string \<times> outdoor_value) list"

definition new_outdoor :: "string \<Rightarrow> string list \<Rightarrow> string \<Rightarrow> bool \<Rightarrow> saved_state option \<Rightarrow> outdoor" where
  "new_outdoor i members name dataDir disk = \<lparr>primaryId = i, memberIds = members, o_name = name, readings = [],
     o_energy = new_meter dataDir disk, o_publisher = False, o_said = []\<rparr>"

definition isPrimary :: "string \<Rightarrow> outdoor \<Rightarrow> bool" where
  "isPrimary i u \<longleftrightarrow> i = primaryId u"

definition o_say :: "string \<Rightarrow> outdoor_value \<Rightarrow> outdoor \<Rightarrow> outdoor" where
  "o_say p v u = (if o_publisher u then u\<lparr>o_said := o_said u @ [(p, v)]\<rparr> else u)"

text \<open>A call of the group's counter, whose publications go to the publisher.\<close>

definition on_energy :: "(meter \<Rightarrow> meter) \<Rightarrow> outdoor \<Rightarrow> outdoor" where
  "on_energy f u = (let m = f (o_energy u) in
     foldl (\<lambda>u wh. o_say ''outdoor_energy_total'' (Total wh) u) (u\<lparr>o_energy := m\<rparr>)
       (drop (length (published (o_energy u))) (published m)))"

definition o_publish :: "outdoor \<Rightarrow> outdoor" where
  "o_publish u = on_energy publish_total u"

definition attachPrimary :: "outdoor \<Rightarrow> outdoor" where
  "attachPrimary u = o_publish (u\<lparr>o_publisher := True\<rparr>)"

definition recompute :: "bool \<Rightarrow> int \<Rightarrow> outdoor \<Rightarrow> outdoor" where
  "recompute ok now u =
    (let power = (case map snd (readings u) of [] \<Rightarrow> 0 | w # ws \<Rightarrow> fold max ws w)
     in on_energy (integratePower ok (Some power) now (readings u \<noteq> [])) (o_say ''outdoor_power'' (Watts power) u))"

definition report :: "bool \<Rightarrow> int \<Rightarrow> string \<Rightarrow> rat \<Rightarrow> bool \<Rightarrow> outdoor \<Rightarrow> outdoor" where
  "report ok now i watts running u =
    recompute ok now (if running then u\<lparr>readings := AList.update i watts (readings u)\<rparr>
      else u\<lparr>readings := AList.delete i (readings u)\<rparr>)"

definition forget :: "bool \<Rightarrow> int \<Rightarrow> string \<Rightarrow> outdoor \<Rightarrow> outdoor" where
  "forget ok now i u =
    (if map_of (readings u) i = None then u
     else recompute ok now (u\<lparr>readings := AList.delete i (readings u)\<rparr>))"

definition reportCompressor :: "bool \<Rightarrow> outdoor \<Rightarrow> outdoor" where
  "reportCompressor running u = o_say ''outdoor_compressor'' (Turning running) u"

definition outdoorUnitFor :: "bool \<Rightarrow> (string \<Rightarrow> saved_state option) \<Rightarrow> (string list \<times> string option) list \<Rightarrow> string \<Rightarrow> (string \<rightharpoonup> outdoor) \<Rightarrow> (string \<rightharpoonup> outdoor) \<times> string option" where
  "outdoorUnitFor dataDir disk config deviceId groups =
    (case filter (\<lambda>(devices, _). deviceId \<in> set devices) config of
       [] \<Rightarrow> (groups, None)
     | (devices, name) # _ \<Rightarrow>
         (case groups (devices ! 0) of
            Some _ \<Rightarrow> (groups, Some (devices ! 0))
          | None \<Rightarrow> (groups(devices ! 0 \<mapsto> new_outdoor (devices ! 0) devices (case name of Some n \<Rightarrow> n | None \<Rightarrow> devices ! 0) dataDir (disk (devices ! 0 @ ''-outdoor''))), Some (devices ! 0))))"

datatype outdoor_event =
    Attach
  | Report bool int string rat bool
  | Forget bool int string
  | ReportCompressor bool
  | PublishGroup

fun outdoor_step :: "outdoor \<Rightarrow> outdoor_event \<Rightarrow> outdoor" where
  "outdoor_step u Attach = attachPrimary u"
| "outdoor_step u (Report ok now i w running) = report ok now i w running u"
| "outdoor_step u (Forget ok now i) = forget ok now i u"
| "outdoor_step u (ReportCompressor running) = reportCompressor running u"
| "outdoor_step u PublishGroup = o_publish u"

subsection \<open>The total\<close>

definition saved_total :: "meter \<Rightarrow> rat" where
  "saved_total m = totalWh (load_meter (m_dataDir m) (m_disk m))"

definition reliable :: "meter_event \<Rightarrow> bool" where
  "reliable e \<longleftrightarrow> (case e of Sample ok _ _ _ \<Rightarrow> ok | Measured ok wh _ _ \<Rightarrow> ok \<and> 0 \<le> wh | Publish \<Rightarrow> False | Restart \<Rightarrow> True)"

definition total_ok :: "meter \<Rightarrow> bool" where
  "total_ok m \<longleftrightarrow> m_dataDir m \<and> fl (totalWh (m_state m)) = totalWh (m_state m) \<and> fl (saved_total m) = saved_total m \<and>
     saved_total m \<le> totalWh (m_state m) \<and> 0 \<le> saved_total m \<and> sorted (published m) \<and>
     (\<forall>p \<in> set (published m). p \<le> math_round (saved_total m))"

lemma math_round_mono: "x \<le> y \<Longrightarrow> math_round x \<le> math_round y"
  by (simp add: math_round_def floor_mono)

lemma estimate_nonneg: "0 \<le> w \<Longrightarrow> 0 \<le> s \<Longrightarrow> 0 \<le> estimate w s"
  by (simp add: estimate_def jops_nonneg)

lemma total_ok_published:
  assumes "total_ok m" "totalWh (m_state m) \<le> t" "fl t = t" "totalWh (m_state m') = t" "published m' = published m" "m_dataDir m'"
  shows "total_ok (save_meter True (publish_total m'))"
proof -
  have s: "saved_total (save_meter True (publish_total m')) = t"
    using assms by (simp add: saved_total_def save_meter_def load_meter_def publish_total_def)
  have "p \<le> math_round t" if "p \<in> set (published m)" for p
    using that assms(1,2) math_round_mono [of "saved_total m" t] by (fastforce simp: total_ok_def)
  then show ?thesis
    using assms unfolding total_ok_def s by (auto simp: save_meter_def publish_total_def sorted_append)
qed

lemma total_ok_step:
  assumes "total_ok m" "reliable e"
  shows "total_ok (meter_step m e)"
proof (cases e)
  case (Sample ok watts now running)
  have ok: ok using assms(2) Sample by (simp add: reliable_def)
  have same: "total_ok (m\<lparr>lastSampleAt := x\<rparr>)" for x using assms(1) by (auto simp: total_ok_def saved_total_def)
  have add: "total_ok (m\<lparr>lastSampleAt := x, m_state := (m_state m)\<lparr>totalWh := jadd (totalWh (m_state m)) y\<rparr>\<rparr>)"
    if "0 \<le> y" for x y
    using assms(1) jadd_increases [of "totalWh (m_state m)" y] that by (auto simp: total_ok_def saved_total_def)
  have pub: "total_ok (save_meter True (publish_total (m\<lparr>lastSampleAt := x, m_state := (m_state m)\<lparr>totalWh := jadd (totalWh (m_state m)) y\<rparr>, lastPublishAt := z\<rparr>)))"
    if "0 \<le> y" for x y z
    using assms(1) jadd_increases [of "totalWh (m_state m)" y] that
    by (intro total_ok_published [OF assms(1), where t = "jadd (totalWh (m_state m)) y"]) (auto simp: total_ok_def)
  show ?thesis
    using same add pub ok
    by (auto simp: Sample integratePower_def Let_def estimate_nonneg split: option.split)
next
  case (Measured ok wh seconds now)
  have ok: ok "0 \<le> wh" using assms(2) Measured by (simp_all add: reliable_def)
  have "total_ok (m\<lparr>m_state := (m_state m)\<lparr>fromReports := True\<rparr>\<rparr>)" using assms(1) by (auto simp: total_ok_def saved_total_def)
  moreover have "total_ok (save_meter True (publish_total (m\<lparr>m_state := (m_state m)\<lparr>fromReports := True, lastReportSignature := x, lastReportAt := y,
      totalWh := jadd (totalWh (m_state m)) wh\<rparr>\<rparr>)))" for x y
    using assms(1) jadd_increases [of "totalWh (m_state m)" wh] ok
    by (intro total_ok_published [OF assms(1), where t = "jadd (totalWh (m_state m)) wh"]) (auto simp: total_ok_def)
  ultimately show ?thesis using ok by (simp add: Measured addMeasuredInterval_def Let_def)
next
  case Restart
  then show ?thesis
    using assms(1) by (auto simp: total_ok_def saved_total_def new_meter_def publish_total_def sorted_append)
qed (use assms(2) in \<open>simp add: reliable_def\<close>)

lemma total_ok_run:
  assumes "total_ok m" "list_all reliable es"
  shows "total_ok (meter_run m es)"
  using assms by (induction es arbitrary: m) (auto simp: meter_run_def intro: total_ok_step)

lemma total_ok_new: "total_ok (new_meter True None)"
  by (simp add: total_ok_def saved_total_def new_meter_def load_meter_def)



subsection \<open>Where the total comes from\<close>

text \<open>
  The reference: of the readings of a process, in their order, each two neighbours that were both taken while
  the appliance ran contribute the later power over the time between them, at most five minutes of it.
\<close>

type_synonym sample = "rat option \<times> int \<times> bool"

definition contribution :: "sample \<Rightarrow> sample \<Rightarrow> rat list" where
  "contribution a b =
    (case (a, b) of ((_, t0, r0), (w, t1, r1)) \<Rightarrow>
       (case w of Some w \<Rightarrow> if r0 \<and> r1 \<and> t0 < t1 \<and> 0 \<le> w then [estimate w (sample_seconds t0 t1)] else [] | None \<Rightarrow> []))"

definition contributions :: "sample list \<Rightarrow> rat list" where
  "contributions xs = concat (map (\<lambda>(a, b). contribution a b) (zip xs (tl xs)))"

definition samples :: "meter_event list \<Rightarrow> sample list" where
  "samples es = concat (map (\<lambda>e. case e of Sample _ w t r \<Rightarrow> [(w, t, r)] | _ \<Rightarrow> []) es)"

definition one_process :: "meter_event \<Rightarrow> bool" where
  "one_process e \<longleftrightarrow> (case e of Sample _ _ _ _ \<Rightarrow> True | Publish \<Rightarrow> True | _ \<Rightarrow> False)"

lemma contributions_snoc:
  "contributions (xs @ [b]) = contributions xs @ (if xs = [] then [] else contribution (last xs) b)"
proof (induction xs)
  case (Cons a xs)
  then show ?case by (cases xs) (simp_all add: contributions_def)
qed (simp add: contributions_def)

lemma save_publish_fields [simp]:
  "m_state (save_meter ok m) = m_state m" "lastSampleAt (save_meter ok m) = lastSampleAt m" "published (save_meter ok m) = published m"
  "m_state (publish_total m) = m_state m" "lastSampleAt (publish_total m) = lastSampleAt m"
  by (simp_all add: save_meter_def publish_total_def)

lemma positive_seconds: "0 < sample_seconds t0 t1 \<longleftrightarrow> t0 < t1"
proof -
  have "0 < jdiv (of_int (t1 - t0)) 1000" if "t0 < t1"
    using that fl_pos_positive [of "of_int (t1 - t0) / 1000"] by (simp add: jdiv_def fl_def)
  moreover have "jdiv (of_int (t1 - t0)) 1000 \<le> 0" if "\<not> t0 < t1"
    using that fl_mono [of "of_int (t1 - t0) / 1000" 0] by (simp add: jdiv_def)
  ultimately have "0 < jdiv (of_int (t1 - t0)) 1000 \<longleftrightarrow> t0 < t1" by force
  then show ?thesis by (auto simp: sample_seconds_def MAX_POWER_SAMPLE_GAP_S_def)
qed

text \<open>
  C20. The total is exactly what the neighbouring readings contribute: added in their order, each once, and
  nothing for the time an appliance was off, was not heard, gave no number or its clock went back.
\<close>

theorem energy_total_is_the_sum:
  assumes "list_all one_process es" "\<not> fromReports (m_state m)" "lastSampleAt m = None"
  shows "totalWh (m_state (meter_run m es)) = foldl jadd (totalWh (m_state m)) (contributions (samples es))"
proof -
  have "totalWh (m_state (meter_run m es)) = foldl jadd (totalWh (m_state m)) (contributions (samples es)) \<and>
      \<not> fromReports (m_state (meter_run m es)) \<and>
      lastSampleAt (meter_run m es) =
        (if samples es = [] then None else case last (samples es) of (_, t, r) \<Rightarrow> if r then Some t else None)"
    using assms(1)
  proof (induction es rule: rev_induct)
    case Nil
    then show ?case using assms(2,3) by (simp add: meter_run_def samples_def contributions_def)
  next
    case (snoc e es)
    show ?case
    proof (cases e)
      case (Sample ok w t r)
      have s: "samples (es @ [e]) = samples es @ [(w, t, r)]" by (simp add: samples_def Sample)
      have run: "meter_run m (es @ [e]) = integratePower ok w t r (meter_run m es)" by (simp add: meter_run_def Sample)
      show ?thesis
        using snoc unfolding s run contributions_snoc
        by (cases "last (samples es)")
          (auto simp: integratePower_def Let_def contribution_def positive_seconds split: option.splits)
    next
      case Publish
      then show ?thesis using snoc by (simp add: meter_run_def samples_def)
    qed (use snoc.prems in \<open>simp_all add: one_process_def\<close>)
  qed
  then show ?thesis by simp
qed

lemma energy_total_is_the_sum_witness:
  "let es = [Sample True (Some 600) 0 True, Sample True (Some 600) 30000 True, Sample True None 60000 True, Sample True (Some 9) 70000 False,
      Sample True (Some 600) 80000 True]
   in totalWh (m_state (meter_run (new_meter False None) es)) = foldl jadd 0 (contributions (samples es)) \<and>
     contributions (samples es) = [5]"
  unfolding Let_def
proof
  define es where "es = [Sample True (Some 600) 0 True, Sample True (Some 600) 30000 True, Sample True None 60000 True,
      Sample True (Some 9) 70000 False, Sample True (Some 600) 80000 True]"
  have "list_all one_process es" "\<not> fromReports (m_state (new_meter False None))" "lastSampleAt (new_meter False None) = None"
    by (simp_all add: es_def one_process_def new_meter_def load_meter_def)
  from energy_total_is_the_sum [OF this]
  show "totalWh (m_state (meter_run (new_meter False None) es)) = foldl jadd 0 (contributions (samples es))"
    by (simp add: new_meter_def load_meter_def)
  show "contributions (samples es) = [5]"
    by (simp add: es_def contributions_def samples_def contribution_def estimate_def sample_seconds_def MAX_POWER_SAMPLE_GAP_S_def
      jdiv_def jmul_def)
qed

subsection \<open>Measured intervals\<close>

definition is_measured :: "meter_event \<Rightarrow> bool" where
  "is_measured e \<longleftrightarrow> (case e of Measured _ _ _ _ \<Rightarrow> True | _ \<Rightarrow> False)"

definition saves :: "meter_event \<Rightarrow> bool" where
  "saves e \<longleftrightarrow> (case e of Sample ok _ _ _ \<Rightarrow> ok | Measured ok _ _ _ \<Rightarrow> ok | _ \<Rightarrow> True)"

definition source_ok :: "meter \<Rightarrow> bool" where
  "source_ok m \<longleftrightarrow> m_dataDir m \<and>
    (fromReports (m_state m) \<longleftrightarrow> (case m_disk m of Some sv \<Rightarrow> sv_fromReports sv | None \<Rightarrow> False)) \<and>
    (lastReportSignature (m_state m) \<noteq> None \<longrightarrow> fromReports (m_state m)) \<and>
    (\<forall>sv. m_disk m = Some sv \<longrightarrow> sv_signature sv \<noteq> None \<longrightarrow> sv_fromReports sv)"

lemma source_ok_step:
  assumes "source_ok m" "saves e"
  shows "source_ok (meter_step m e) \<and> (fromReports (m_state (meter_step m e)) \<longleftrightarrow> fromReports (m_state m) \<or> is_measured e)"
proof (cases e)
  case (Sample ok w t r)
  then show ?thesis
    using assms by (auto simp: saves_def is_measured_def source_ok_def integratePower_def save_meter_def publish_total_def Let_def split: option.split)
next
  case (Measured ok wh s t)
  then show ?thesis
    using assms by (auto simp: saves_def is_measured_def source_ok_def addMeasuredInterval_def save_meter_def publish_total_def Let_def split: option.split)
next
  case Publish
  then show ?thesis using assms by (auto simp: source_ok_def is_measured_def publish_total_def)
next
  case Restart
  then show ?thesis
    using assms by (auto simp: source_ok_def is_measured_def publish_total_def new_meter_def load_meter_def split: option.splits)
qed

lemma source_ok_run:
  assumes "list_all saves es"
  shows "source_ok (meter_run (new_meter True None) es) \<and>
    (fromReports (m_state (meter_run (new_meter True None) es)) \<longleftrightarrow> list_ex is_measured es)"
  using assms
proof (induction es rule: rev_induct)
  case Nil
  then show ?case by (simp add: meter_run_def source_ok_def new_meter_def load_meter_def)
next
  case (snoc e es)
  then show ?case using source_ok_step [of "meter_run (new_meter True None) es" e] by (simp add: meter_run_def)
qed

text \<open>
  An appliance that measures its own consumption is believed from then on: after its first report, in
  whatever process - the saves succeeding - no reading of its power changes the total any more, so the
  same energy is never counted from both sources.
\<close>

theorem measured_intervals_replace_estimates:
  assumes "list_all saves es" "list_ex is_measured es"
  shows "m_state (meter_run (new_meter True None) (es @ [Sample ok w t r])) = m_state (meter_run (new_meter True None) es)"
proof -
  have "fromReports (m_state (meter_run (new_meter True None) es))" using source_ok_run [OF assms(1)] assms(2) by simp
  then show ?thesis by (simp add: meter_run_def integratePower_def Let_def split: option.split)
qed

lemma measured_intervals_replace_estimates_witness:
  "let es = [Measured True 5 900 1000, Restart, Sample True (Some 600) 2000 True];
     m = meter_run (new_meter True None) (es @ [Sample True (Some 600) 32000 True])
   in m_state m = m_state (meter_run (new_meter True None) es) \<and> totalWh (m_state m) = 5"
  unfolding Let_def
proof
  define es where "es = [Measured True 5 900 1000, Restart, Sample True (Some 600) 2000 True]"
  have es: "list_all saves es" "list_ex is_measured es" by (simp_all add: es_def saves_def is_measured_def)
  show e: "m_state (meter_run (new_meter True None) (es @ [Sample True (Some 600) 32000 True])) = m_state (meter_run (new_meter True None) es)"
    by (rule measured_intervals_replace_estimates [OF es])
  show "totalWh (m_state (meter_run (new_meter True None) (es @ [Sample True (Some 600) 32000 True]))) = 5"
    unfolding e by (simp add: es_def meter_run_def new_meter_def load_meter_def integratePower_def addMeasuredInterval_def
      save_meter_def publish_total_def jadd_def Let_def)
qed

subsection \<open>The shared unit\<close>

lemma on_energy_fields [simp]:
  "readings (on_energy f u) = readings u" "o_publisher (on_energy f u) = o_publisher u" "primaryId (on_energy f u) = primaryId u"
proof -
  have "readings (foldl (\<lambda>u wh. o_say p (Total wh) u) u xs) = readings u \<and>
      o_publisher (foldl (\<lambda>u wh. o_say p (Total wh) u) u xs) = o_publisher u \<and>
      primaryId (foldl (\<lambda>u wh. o_say p (Total wh) u) u xs) = primaryId u" for p u xs
    by (induction xs arbitrary: u) (simp_all add: o_say_def)
  then show "readings (on_energy f u) = readings u" "o_publisher (on_energy f u) = o_publisher u" "primaryId (on_energy f u) = primaryId u"
    by (simp_all add: on_energy_def Let_def)
qed

definition powers :: "(string \<times> outdoor_value) list \<Rightarrow> rat list" where
  "powers said = concat (map (\<lambda>(_, v). case v of Watts w \<Rightarrow> [w] | _ \<Rightarrow> []) said)"

lemma powers_simps [simp]:
  "powers [] = []" "powers (xs @ ys) = powers xs @ powers ys" "powers [(p, Watts w)] = [w]" "powers [(p, Turning b)] = []" "powers [(p, Total n)] = []"
  by (simp_all add: powers_def)

lemma powers_on_energy [simp]: "powers (o_said (on_energy f u)) = powers (o_said u)"
proof -
  have "powers (o_said (foldl (\<lambda>u wh. o_say p (Total wh) u) u xs)) = powers (o_said u)" for p u xs
    by (induction xs arbitrary: u) (simp_all add: o_say_def)
  then show ?thesis by (simp add: on_energy_def Let_def)
qed

text \<open>What a head last said of itself: its power, unless it was off, has gone away or never spoke.\<close>

definition last_word :: "outdoor_event list \<Rightarrow> string \<Rightarrow> rat option" where
  "last_word es i = foldl (\<lambda>w e. case e of Report _ _ j x running \<Rightarrow> if j = i then if running then Some x else None else w
     | Forget _ _ j \<Rightarrow> if j = i then None else w | _ \<Rightarrow> w) None es"

definition outdoor_run :: "outdoor \<Rightarrow> outdoor_event list \<Rightarrow> outdoor" where
  "outdoor_run u es = foldl outdoor_step u es"

lemma fold_max_le: "fold max ws (w :: rat) = Max (set (w # ws))"
  by (simp add: Max.set_eq_fold del: set_simps)

lemma readings_recompute [simp]: "readings (recompute ok now u) = readings u" "o_publisher (recompute ok now u) = o_publisher u"
  by (simp_all add: recompute_def Let_def o_say_def)

definition group_power :: "outdoor \<Rightarrow> rat" where
  "group_power u = (if readings u = [] then 0 else Max (snd ` set (readings u)))"

lemma o_say_turning [simp]:
  "readings (o_say p v u) = readings u" "o_publisher (o_say p v u) = o_publisher u"
  "powers (o_said (o_say p (Turning b) u)) = powers (o_said u)"
  by (simp_all add: o_say_def)

lemma group_power_simps [simp]:
  "group_power (recompute ok now u) = group_power u" "group_power (on_energy f u) = group_power u" "group_power (o_say p v u) = group_power u"
  "group_power (u\<lparr>o_publisher := b\<rparr>) = group_power u"
  by (simp_all add: group_power_def o_say_def)

lemma powers_recompute:
  "powers (o_said (recompute ok now u)) = powers (o_said u) @ (if o_publisher u then [group_power u] else [])"
proof -
  have "(case map snd (readings u) of [] \<Rightarrow> 0 | w # ws \<Rightarrow> fold max ws w) = group_power u"
    by (cases "readings u") (simp_all add: group_power_def fold_max_le)
  then show ?thesis by (simp add: recompute_def Let_def) (simp add: o_say_def)
qed

text \<open>
  The power of a shared outdoor unit is the greatest of what its running heads last reported, zero when
  none runs: that is what the primary appliance shows last, whatever the heads said, in whatever order, and
  whichever went away without a word. Two heads that see the same compressor are never added up.
\<close>

theorem outdoor_power_is_the_maximum:
  "let u = outdoor_run (attachPrimary (new_outdoor i members name dataDir disk)) es; heads = {j. last_word es j \<noteq> None} in
     finite heads \<and>
     last (0 # powers (o_said u)) = (if heads = {} then 0 else Max ((\<lambda>j. the (last_word es j)) ` heads))"
proof -
  let ?run = "outdoor_run (attachPrimary (new_outdoor i members name dataDir disk))"
  have "map_of (readings (?run es)) = last_word es \<and> distinct (map fst (readings (?run es))) \<and> o_publisher (?run es) \<and>
      last (0 # powers (o_said (?run es))) = group_power (?run es)"
  proof (induction es rule: rev_induct)
    case Nil
    then show ?case
      by (auto simp: outdoor_run_def attachPrimary_def o_publish_def new_outdoor_def last_word_def group_power_def)
  next
    case (snoc e es)
    define u where "u = ?run es"
    have run: "?run (es @ [e]) = outdoor_step u e" by (simp add: outdoor_run_def u_def)
    have w: "last_word (es @ [e]) = (\<lambda>j. case e of Report _ _ k x running \<Rightarrow> if k = j then if running then Some x else None else last_word es j
       | Forget _ _ k \<Rightarrow> if k = j then None else last_word es j | _ \<Rightarrow> last_word es j)"
      by (rule ext, cases e) (simp_all add: last_word_def)
    show ?case
      using snoc unfolding run w u_def [symmetric]
      by (cases e) (auto simp: report_def forget_def powers_recompute update_conv' delete_conv' distinct_update distinct_delete
          reportCompressor_def attachPrimary_def o_publish_def fun_eq_iff)
  qed
  then have m: "map_of (readings (?run es)) = last_word es" and d: "distinct (map fst (readings (?run es)))"
    and l: "last (0 # powers (o_said (?run es))) = group_power (?run es)" by simp_all
  have heads: "{j. last_word es j \<noteq> None} = fst ` set (readings (?run es))"
    using dom_map_of_conv_image_fst [of "readings (?run es)"] by (simp add: m dom_def)
  have "the (last_word es j) = w" if "(j, w) \<in> set (readings (?run es))" for j w
    using map_of_is_SomeI [OF d that] by (simp add: m)
  then have "(\<lambda>j. the (last_word es j)) ` fst ` set (readings (?run es)) = snd ` set (readings (?run es))"
    by (force simp: image_iff)
  then show ?thesis unfolding Let_def heads l group_power_def by simp
qed

end
