(* ===== verification/RacTables.thy ===== *)
theory RacTables
  imports PacketCodec JsNumber
begin

text \<open>
  The tables of the room air conditioner's handler: temperatures (\<open>util/ac_tables.ts\<close>, in hundredths of a
  degree) and the encodings of modes, fan levels and vanes per model (\<open>cloud/devices/RAC_056905_WW.ts\<close>). A
  table of names is an association list in the order of the source.
\<close>

subsection \<open>Temperatures\<close>

definition racAirTemp :: "int list" where
  "racAirTemp = [
    30000, 21442, 17712, 15775, 14495, 13549, 12804, 12193, 11677, 11231, 10838, 10489, 10174, 9888, 9626, 9384, 9160,
    8951, 8756, 8572, 8398, 8234, 8078, 7930, 7789, 7654, 7524, 7400, 7281, 7166, 7055, 6948, 6845, 6745, 6648, 6554,
    6463, 6374, 6288, 6204, 6122, 6043, 5965, 5889, 5814, 5742, 5671, 5601, 5533, 5466, 5401, 5336, 5273, 5211, 5150,
    5091, 5032, 4974, 4917, 4861, 4806, 4751, 4698, 4645, 4593, 4541, 4491, 4440, 4391, 4342, 4294, 4246, 4199, 4153,
    4107, 4061, 4016, 3971, 3927, 3884, 3840, 3797, 3755, 3713, 3671, 3630, 3589, 3548, 3508, 3468, 3428, 3389, 3350,
    3311, 3272, 3234, 3196, 3158, 3121, 3083, 3046, 3009, 2973, 2936, 2900, 2864, 2828, 2793, 2757, 2722, 2687, 2652,
    2617, 2582, 2548, 2513, 2479, 2445, 2411, 2377, 2343, 2309, 2276, 2242, 2209, 2176, 2142, 2109, 2076, 2043, 2010,
    1978, 1945, 1912, 1879, 1847, 1814, 1782, 1749, 1716, 1684, 1652, 1619, 1587, 1554, 1522, 1490, 1457, 1425, 1392,
    1360, 1327, 1295, 1263, 1230, 1197, 1165, 1132, 1099, 1067, 1034, 1001, 968, 935, 902, 869, 835, 802, 769, 735,
    701, 668, 634, 600, 565, 531, 497, 462, 427, 392, 357, 322, 286, 250, 214, 178, 142, 105, 68, 31, -6, -44, -82,
    -120, -158, -197, -237, -276, -316, -356, -397, -438, -480, -522, -564, -607, -651, -695, -739, -785, -830, -877,
    -924, -972, -1020, -1070, -1120, -1171, -1223, -1276, -1330, -1385, -1441, -1498, -1557, -1617, -1679, -1742,
    -1806, -1873, -1942, -2012, -2085, -2161, -2239, -2320, -2404, -2492, -2583, -2680, -2781, -2888, -3001, -3121,
    -3251, -3390, -3542, -3708, -3894, -4103, -4345, -4633, -4993, -5479, -6260]"

definition racPipeTemp :: "int list" where
  "racPipeTemp = [
    30000, 22493, 18471, 16398, 15032, 14026, 13236, 12588, 12042, 11570, 11156, 10787, 10456, 10154, 9879, 9624,
    9389, 9169, 8964, 8771, 8589, 8416, 8253, 8098, 7950, 7808, 7673, 7543, 7418, 7298, 7182, 7070, 6962, 6858, 6757,
    6658, 6563, 6471, 6381, 6293, 6208, 6124, 6043, 5964, 5886, 5811, 5737, 5664, 5593, 5523, 5455, 5388, 5323, 5258,
    5195, 5132, 5071, 5011, 4952, 4893, 4836, 4779, 4724, 4669, 4615, 4561, 4509, 4457, 4405, 4354, 4304, 4255, 4206,
    4158, 4110, 4062, 4016, 3969, 3924, 3878, 3833, 3789, 3745, 3701, 3658, 3615, 3572, 3530, 3488, 3447, 3406, 3365,
    3324, 3284, 3244, 3205, 3165, 3126, 3087, 3049, 3010, 2972, 2934, 2896, 2859, 2822, 2785, 2748, 2711, 2674, 2638,
    2602, 2566, 2530, 2494, 2459, 2423, 2388, 2353, 2318, 2283, 2248, 2213, 2179, 2144, 2110, 2075, 2041, 2007, 1973,
    1939, 1905, 1871, 1837, 1804, 1770, 1736, 1703, 1669, 1636, 1602, 1569, 1535, 1502, 1468, 1435, 1401, 1368, 1335,
    1301, 1268, 1234, 1201, 1167, 1134, 1100, 1066, 1033, 999, 965, 932, 898, 864, 830, 796, 761, 727, 693, 658, 624,
    589, 554, 519, 484, 449, 414, 378, 343, 307, 271, 235, 198, 162, 125, 88, 51, 13, -24, -62, -100, -139, -177,
    -216, -256, -295, -335, -376, -416, -457, -499, -541, -583, -625, -669, -712, -756, -801, -846, -892, -938, -985,
    -1033, -1081, -1130, -1180, -1231, -1282, -1334, -1388, -1442, -1497, -1554, -1611, -1670, -1730, -1792, -1855,
    -1919, -1985, -2054, -2124, -2196, -2271, -2348, -2427, -2510, -2596, -2686, -2780, -2878, -2981, -3090, -3206,
    -3329, -3461, -3603, -3758, -3927, -4116, -4329, -4576, -4869, -5234, -5728, -6519]"

text \<open>\<open>table[255 - raw]\<close>: a raw value of zero or beyond one byte has no temperature.\<close>

definition table_temp :: "int list \<Rightarrow> nat \<Rightarrow> int option" where
  "table_temp table raw = (if raw \<le> 255 then idx table (255 - raw) else None)"

subsection \<open>Encodings\<close>

type_synonym name_table = "(string \<times> nat) list"

record model_encoding =
  fanLevels :: "string list"
  fanToRaw :: name_table
  modeToRaw :: name_table
  autoRaw :: "nat option"

definition ADVERTISED :: model_encoding where
  "ADVERTISED =
    \<lparr>fanLevels = [''level_1'', ''level_2'', ''level_3'', ''level_4'', ''level_5'', ''natural''],
     fanToRaw = [(''level_1'', 3), (''level_2'', 4), (''level_3'', 5), (''level_4'', 6), (''level_5'', 7), (''natural'', 9)],
     modeToRaw = [(''cool'', 0), (''dry'', 1), (''fan_only'', 2), (''heat'', 4), (''auto'', 6)],
     autoRaw = Some 6\<rparr>"

definition MODEL_ENCODINGS :: "(string \<times> model_encoding) list" where
  "MODEL_ENCODINGS =
    [(''WINF_056905_WW'',
      \<lparr>fanLevels = [''level_1'', ''level_2'', ''level_3'', ''level_4'', ''level_5''],
       fanToRaw = [(''level_1'', 2), (''level_2'', 3), (''level_3'', 4), (''level_4'', 5), (''level_5'', 6)],
       modeToRaw = [(''cool'', 0), (''dry'', 1), (''fan_only'', 2)],
       autoRaw = None\<rparr>),
     (''RAC_056905_WW'',
      \<lparr>fanLevels = [''level_1'', ''level_2'', ''level_3'', ''natural''],
       fanToRaw = [(''level_1'', 2), (''level_2'', 4), (''level_3'', 6), (''natural'', 8)],
       modeToRaw = [(''cool'', 0), (''dry'', 1), (''fan_only'', 2), (''auto'', 3)],
       autoRaw = Some 3\<rparr>)]"

definition encodingFor :: "string \<Rightarrow> model_encoding" where
  "encodingFor modelId = (case map_of MODEL_ENCODINGS modelId of Some e \<Rightarrow> e | None \<Rightarrow> ADVERTISED)"

text \<open>\<open>Object.fromEntries\<close> keeps the last of two entries with one key.\<close>

definition invert :: "name_table \<Rightarrow> nat \<Rightarrow> string option" where
  "invert table raw = map_of (rev (map (\<lambda>(name, r). (r, name)) table)) raw"

definition VERTICAL_SWING_MODES :: "string list" where
  "VERTICAL_SWING_MODES = [''off'', ''swing'', ''position_1'', ''position_2'', ''position_3'', ''position_4'', ''position_5'', ''position_6'']"

definition VERTICAL_SWING_TO_RAW :: name_table where
  "VERTICAL_SWING_TO_RAW = [(''off'', 0), (''swing'', 100), (''position_1'', 1), (''position_2'', 2), (''position_3'', 3),
     (''position_4'', 4), (''position_5'', 5), (''position_6'', 6)]"

definition vertical_raw_to_swing :: "nat \<Rightarrow> string option" where
  "vertical_raw_to_swing raw =
    (if raw = 0 then Some ''off'' else if raw = 100 then Some ''swing''
     else if raw \<ge> 1 \<and> raw \<le> 6 then Some (''position_'' @ show_nat raw) else None)"

definition HORIZONTAL_SWING_MODES :: "string list" where
  "HORIZONTAL_SWING_MODES = [''off'', ''swing'', ''focus_left'', ''focus_center'', ''focus_right'', ''position_1'', ''position_2'',
     ''position_3'', ''position_4'', ''position_5'']"

definition HORIZONTAL_SWING_TO_RAW :: name_table where
  "HORIZONTAL_SWING_TO_RAW = [(''off'', 0), (''swing'', 100), (''focus_left'', 13), (''focus_center'', 24), (''focus_right'', 35),
     (''position_1'', 1), (''position_2'', 2), (''position_3'', 3), (''position_4'', 4), (''position_5'', 5)]"

definition AI_DRY_STRENGTH :: name_table where
  "AI_DRY_STRENGTH = [(''weak_wind'', 2), (''medium_wind'', 4), (''strong_wind'', 6)]"

definition TEMPERATURE_STEPS :: "(nat \<times> string) list" where
  "TEMPERATURE_STEPS = [(0, ''half_degree''), (1, ''one_degree'')]"

end
