(* ===== verification/RacDevice.thy ===== *)
theory RacDevice
  imports RacTables TlvDevice
begin

text \<open>
  The handler of the room air conditioners, \<open>cloud/devices/RAC_056905_WW.ts\<close>, on the base class of
  \<open>TlvDevice\<close>. The object holds the base object \<open>base\<close>; its own closures are the constructors of \<open>rac_field\<close>
  and \<open>hook\<close>, with what they capture as arguments, so \<open>addField\<close> and \<open>push\<close> put data into tables and the
  functions below are the closures' bodies. What the object says, to the appliance, to Home Assistant, to
  the energy counter and to the shared outdoor unit, is the list \<open>rac_log\<close>.

  A published value is the raw number (\<open>Raw\<close>), a text or a number. Of the discovery document the model has
  the components with their platforms and topics, the climate entity's lists of modes and its step; names,
  icons, units and classes are presentation. A text written to a number is an unsigned decimal or nothing a
  number can be read from. \<open>clock\<close> has the time and the date of an event.
\<close>

subsection \<open>State\<close>

datatype rac_value = Txt string | Num rat

datatype toggle = AirClean | EnergySave

datatype reading = Plain | Capacity | PipeTemp | AirTemp | Rpm

datatype rac_field =
    CurrentTemperature
  | Power
  | Mode
  | FanMode
  | TargetTemperature
  | SwingMode
  | SwingHorizontal
  | Sensor nat string reading
  | OutdoorCompressor
  | Compressor
  | Toggle toggle
  | Sound
  | TemperatureStep
  | Display
  | Jet bool bool
  | AiDry
  | Timer nat string bool "string option"
  | AutoDry
  | AutoDryRemain
  | RunningAction nat
  | FilterReset
  | EnergyCurrent

datatype hook = TogglePower toggle | ToggleMode toggle | JetPower | JetMode | ActionHook

record rac_config =
  components :: "(string \<times> topics) list"
  hvac_modes :: "string list"
  fan_modes :: "string list"
  swing_modes :: "string list option"
  swing_horizontal_modes :: "string list option"
  temp_step :: rat
  precision :: rat

datatype rac_out =
    Base "rac_value tlv_output"
  | MaskingInfo string
  | Discovery rac_config
  | ClearRetained string
  | OutdoorAttach
  | OutdoorReport rat bool
  | OutdoorTurning bool
  | OutdoorForget
  | OutdoorPublish
  | EnergySample rat nat bool
  | EnergyPublish
  | Raised string

record clock =
  now_ms :: nat
  utc_date :: "nat \<times> nat \<times> nat"

record rac =
  base :: "rac_value tlv_device"
  modelId :: string
  outdoor_primary :: "bool option"
  fields_id :: "nat \<Rightarrow> rac_field list"
  fields_ha :: "string \<rightharpoonup> rac_field"
  initialValuesReceived :: bool
  powerChangeHooks :: "hook list"
  powerStatePrev :: "bool option"
  modeChangeHooks :: "hook list"
  modePrev :: "string option"
  powerTransitionInFrame :: bool
  airClean :: bool
  jetMode :: bool
  energySave :: bool
  tlvBlacklistDisableTimer :: bool
  increasedQueryIntervalTimeout :: bool
  filterInitialQueryTimeout :: bool
  filterQueryTimer :: bool
  filterUsedTime :: nat
  filterLifeTime :: nat
  filterChangedDate :: nat
  rac_config_of :: "rac_config option"
  rac_log :: "rac_out list"

definition log_out :: "rac_out \<Rightarrow> rac \<Rightarrow> rac" where
  "log_out x s = s\<lparr>rac_log := rac_log s @ [x]\<rparr>"

text \<open>A method of the base class: what it says goes into the log.\<close>

definition lift :: "(rac_value tlv_device \<Rightarrow> rac_value tlv_device) \<Rightarrow> rac \<Rightarrow> rac" where
  "lift f s = (let b = f ((base s)\<lparr>outputs := []\<rparr>)
     in s\<lparr>base := b\<lparr>outputs := []\<rparr>, rac_log := rac_log s @ map Base (outputs b)\<rparr>)"

definition raw :: "nat \<Rightarrow> rac \<Rightarrow> nat option" where
  "raw t s = raw_clip_state (base s) t"

definition set_raw :: "nat \<Rightarrow> nat option \<Rightarrow> rac \<Rightarrow> rac" where
  "set_raw t v s = s\<lparr>base := (base s)\<lparr>raw_clip_state := (raw_clip_state (base s))(t := v)\<rparr>\<rparr>"

definition publish_property :: "string \<Rightarrow> rac_value shown \<Rightarrow> rac \<Rightarrow> rac" where
  "publish_property p v s = log_out (Base (Property p v)) s"

abbreviation (input) POWER :: nat where "POWER \<equiv> 0x1f7"
abbreviation (input) MODE :: nat where "MODE \<equiv> 0x1f9"

text \<open>The code tests \<open>getPowerTLV() === 0\<close>: an appliance whose power was never heard is not off.\<close>

definition powered_off :: "rac \<Rightarrow> bool" where
  "powered_off s \<longleftrightarrow> raw POWER s = Some 0"

definition isWinf :: "rac \<Rightarrow> bool" where
  "isWinf s \<longleftrightarrow> modelId s = ''WINF_056905_WW''"

definition toggled :: "toggle \<Rightarrow> rac \<Rightarrow> bool" where
  "toggled t s = (case t of AirClean \<Rightarrow> airClean s | EnergySave \<Rightarrow> energySave s)"

definition set_toggled :: "toggle \<Rightarrow> bool \<Rightarrow> rac \<Rightarrow> rac" where
  "set_toggled t b s = (case t of AirClean \<Rightarrow> s\<lparr>airClean := b\<rparr> | EnergySave \<Rightarrow> s\<lparr>energySave := b\<rparr>)"

definition toggle_name :: "toggle \<Rightarrow> string" where
  "toggle_name t = (case t of AirClean \<Rightarrow> ''airclean'' | EnergySave \<Rightarrow> ''energysave'')"

text \<open>\<open>check_mode\<close> of the two fields: none for air cleaning, cooling for energy saving.\<close>

definition right_mode :: "toggle \<Rightarrow> rac \<Rightarrow> bool" where
  "right_mode t s \<longleftrightarrow> (case t of AirClean \<Rightarrow> True | EnergySave \<Rightarrow> raw MODE s = Some 0)"

definition jet_mode_ok :: "bool \<Rightarrow> bool \<Rightarrow> rac \<Rightarrow> bool" where
  "jet_mode_ok jetCool jetHeat s \<longleftrightarrow> jetCool \<and> raw MODE s = Some 0 \<or> jetHeat \<and> raw MODE s = Some 4"

subsection \<open>What a field is\<close>

definition fdef :: "nat option \<Rightarrow> string \<Rightarrow> string \<Rightarrow> bool option \<Rightarrow> bool option \<Rightarrow> rac_value field_def" where
  "fdef i name part readable writable = \<lparr>fd_id = i, fd_name = name, fd_comp = part, fd_state_topic = None, fd_readable = readable,
     fd_writable = writable, write_xform = None, write_attach = NoAttach, read_xform = None, read_callback = None, write_callback = None\<rparr>"

definition field_of :: "rac_field \<Rightarrow> rac_value field_def" where
  "field_of f = (case f of
     CurrentTemperature \<Rightarrow> (fdef (Some 0x1fd) ''current_temperature'' ''climate'' None (Some False))\<lparr>fd_state_topic := Some ''topic''\<rparr>
   | Power \<Rightarrow> fdef (Some POWER) ''power'' ''climate'' (Some False) None
   | Mode \<Rightarrow> fdef (Some MODE) ''mode'' ''climate'' None None
   | FanMode \<Rightarrow> fdef (Some 0x1fa) ''fan_mode'' ''climate'' None None
   | TargetTemperature \<Rightarrow> fdef (Some 0x1fe) ''temperature'' ''climate'' None None
   | SwingMode \<Rightarrow> fdef (Some 0x321) ''swing_mode'' ''climate'' None None
   | SwingHorizontal \<Rightarrow> fdef (Some 0x322) ''swing_horizontal_mode'' ''climate'' None None
   | Sensor i name _ \<Rightarrow> fdef (Some i) '''' name None (Some False)
   | OutdoorCompressor \<Rightarrow> fdef (Some 0x22a) ''outdoor_compressor'' '''' (Some False) (Some False)
   | Compressor \<Rightarrow> fdef (Some 0x22a) '''' ''compressor'' None (Some False)
   | Toggle AirClean \<Rightarrow> fdef (Some 0x20f) '''' ''airclean'' None None
   | Toggle EnergySave \<Rightarrow> fdef (Some 0x20d) '''' ''energysave'' None None
   | Sound \<Rightarrow> fdef (Some 0x3a0) '''' ''sound'' None None
   | TemperatureStep \<Rightarrow> fdef (Some 0x1fb) '''' ''temperature_step'' None None
   | Display \<Rightarrow> fdef (Some 0x21f) '''' ''display'' None None
   | Jet _ _ \<Rightarrow> fdef (Some 0x323) '''' ''jet'' None None
   | AiDry \<Rightarrow> fdef (Some 0x1f2) '''' ''ai_dry_strength'' None None
   | Timer i name _ _ \<Rightarrow> fdef (Some i) '''' name None None
   | AutoDry \<Rightarrow> fdef (Some 0x20e) '''' ''autodry'' None (Some False)
   | AutoDryRemain \<Rightarrow> fdef (Some 0x225) '''' ''autodryremain'' None (Some False)
   | RunningAction i \<Rightarrow> fdef (Some i) ''action'' ''climate'' None None
   | FilterReset \<Rightarrow> fdef None '''' '''' None None
   | EnergyCurrent \<Rightarrow> fdef (Some 0x2b3) '''' ''energy_current'' None (Some False))"

subsection \<open>Numbers\<close>

text \<open>\<open>Number(text)\<close> on unsigned decimals: the nearest double.\<close>

definition js_decimal :: "string \<Rightarrow> rat option" where
  "js_decimal text =
    (let t = trim text; whole = takeWhile digit t; rest = drop (length whole) t in
     if t = [] then Some 0
     else if rest = [] then Some (fl (of_nat (decimal whole)))
     else if CHR ''.'' = rest ! 0 \<and> list_all digit (tl rest) \<and> (whole \<noteq> [] \<or> tl rest \<noteq> [])
       then Some (fl (of_nat (decimal (whole @ tl rest)) / 10 ^ length (tl rest)))
     else None)"

text \<open>\<open>Math.round(Number(text) * k)\<close>, \<open>None\<close> for \<open>NaN\<close>.\<close>

definition scaled :: "rat \<Rightarrow> string \<Rightarrow> nat option" where
  "scaled k text = map_option (\<lambda>x. nat (math_round (jmul x k))) (js_decimal text)"

text \<open>The quarter hours above a number of minutes: exact, since minutes over 60 are never within an ulp of a quarter.\<close>

definition quarter_hours :: "nat \<Rightarrow> rat" where
  "quarter_hours minutes = of_nat ((minutes + 14) div 15) / 4"

text \<open>
  A name looked up in a literal object; the members every object inherits are functions, which a comparison
  and the packet writer treat like \<open>NaN\<close>.
\<close>

definition OBJECT_PROTOTYPE :: "string list" where
  "OBJECT_PROTOTYPE = [''constructor'', ''__defineGetter__'', ''__defineSetter__'', ''hasOwnProperty'', ''__lookupGetter__'',
     ''__lookupSetter__'', ''isPrototypeOf'', ''propertyIsEnumerable'', ''toString'', ''valueOf'', ''__proto__'', ''toLocaleString'']"

definition js_lookup :: "name_table \<Rightarrow> string \<Rightarrow> written" where
  "js_lookup table name = (case map_of table name of
     Some n \<Rightarrow> Number (Some n)
   | None \<Rightarrow> if name \<in> set OBJECT_PROTOTYPE then Number None else Nothing)"

subsection \<open>Packets out\<close>

definition WRITE_HEADER :: "byte list" where "WRITE_HEADER = [1, 1, 2, 1, 1]"

definition write_tags :: "nat list \<Rightarrow> rac \<Rightarrow> rac" where
  "write_tags ids s = lift (\<lambda>d. refreshAfterWrite (send WRITE_HEADER
     (map (\<lambda>t. \<lparr>tlv_t = t, tlv_l = None, tlv_v = raw_clip_state d t\<rparr>) ids) d)) s"

definition sendFilterQuery :: "rac \<Rightarrow> rac" where
  "sendFilterQuery s = lift (sendPrivCommand 0x02 0x02 []) s"

definition be32 :: "nat \<Rightarrow> buffer" where
  "be32 n = [word_of_nat (n div 16777216), word_of_nat (n div 65536), word_of_nat (n div 256), word_of_nat n]"

definition sendFilterReset :: "clock \<Rightarrow> rac \<Rightarrow> rac" where
  "sendFilterReset c s =
    (if filterLifeTime s = 0 then log_out (Raised ''Filter lifetime not known'') s
     else let (y, m, d) = utc_date c; date = y * 10000 + m * 100 + d
          in lift (sendPrivCommand 0x02 0x01 (replicate 4 0 @ be32 (filterLifeTime s) @ be32 date)) s)"

subsection \<open>Writing\<close>

text \<open>\<open>write_xform\<close>; the one of \<open>jet\<close> records the wish first.\<close>

definition on_off :: "string \<Rightarrow> nat \<Rightarrow> nat \<Rightarrow> written" where
  "on_off val yes no = Number (Some (if val = ''ON'' then yes else no))"

definition jet_wish :: "rac_field \<Rightarrow> string \<Rightarrow> rac \<Rightarrow> rac" where
  "jet_wish f val s = (case f of Jet _ _ \<Rightarrow> s\<lparr>jetMode := (val = ''ON'')\<rparr> | _ \<Rightarrow> s)"

definition to_raw :: "rac_field \<Rightarrow> string \<Rightarrow> rac \<Rightarrow> written" where
  "to_raw f val s = (case f of
     Power \<Rightarrow> on_off val 1 0
   | Mode \<Rightarrow> js_lookup (modeToRaw (encodingFor (modelId s))) val
   | FanMode \<Rightarrow> js_lookup (fanToRaw (encodingFor (modelId s))) val
   | TargetTemperature \<Rightarrow> Number (scaled 2 val)
   | SwingMode \<Rightarrow> js_lookup VERTICAL_SWING_TO_RAW val
   | SwingHorizontal \<Rightarrow> js_lookup HORIZONTAL_SWING_TO_RAW val
   | Toggle _ \<Rightarrow> on_off val 1 0
   | Sound \<Rightarrow> on_off val 0 1
   | Display \<Rightarrow> on_off val 0 1
   | TemperatureStep \<Rightarrow> Number (Some (if val = ''one_degree'' then 1 else 0))
   | Jet jetCool jetHeat \<Rightarrow> Number (Some
       (if val \<noteq> ''ON'' then 0
        else if jetCool \<and> raw MODE s = Some 0 then 1
        else if jetHeat \<and> raw MODE s = Some 4 then 2 else 0))
   | AiDry \<Rightarrow> js_lookup AI_DRY_STRENGTH val
   | Timer _ _ _ _ \<Rightarrow> Number (scaled 60 val)
   | FilterReset \<Rightarrow> Number (Some (if val = ''PRESS'' then 1 else 0))
   | _ \<Rightarrow> Nothing)"

text \<open>\<open>write_callback\<close>: may the value be written, and what asking changes.\<close>

definition may_write :: "clock \<Rightarrow> rac_field \<Rightarrow> nat option \<Rightarrow> rac \<Rightarrow> bool \<times> rac" where
  "may_write c f v s = (case f of
     FanMode \<Rightarrow> (\<not> powered_off s, s)
   | SwingMode \<Rightarrow> (\<not> powered_off s, s)
   | SwingHorizontal \<Rightarrow> (\<not> powered_off s, s)
   | Timer _ _ requiresPower _ \<Rightarrow> (\<not> requiresPower \<or> \<not> powered_off s, s)
   | Toggle t \<Rightarrow> (let s = set_toggled t (v = Some 1) s in (\<not> powered_off s \<and> right_mode t s, s))
   | Jet jetCool jetHeat \<Rightarrow> (\<not> powered_off s \<and> jet_mode_ok jetCool jetHeat s, s)
   | FilterReset \<Rightarrow> (False, if v = Some 1 then sendFilterReset c s else s)
   | _ \<Rightarrow> (True, s))"

text \<open>\<open>write_attach\<close>: the tags that go along; a mode chosen while off switches the appliance on.\<close>

definition attach_tags :: "rac_field \<Rightarrow> nat option \<Rightarrow> rac \<Rightarrow> nat list \<times> rac" where
  "attach_tags f v s = (case f of
     Power \<Rightarrow> (if v \<noteq> Some 0 \<and> v \<noteq> None then [MODE, 0x1fa, 0x1fe] else [], s)
   | Mode \<Rightarrow> if \<not> powered_off s then ([0x1fa, 0x1fe], s) else ([POWER, 0x1fa, 0x1fe], set_raw POWER (Some 1) s)
   | FanMode \<Rightarrow> ([MODE, 0x1fe], s)
   | TargetTemperature \<Rightarrow> ([MODE, 0x1fa], s)
   | _ \<Rightarrow> ([], s))"

definition write_raw :: "clock \<Rightarrow> rac_field \<Rightarrow> nat option \<Rightarrow> rac \<Rightarrow> rac" where
  "write_raw c f v s =
    (let (doWrite, s) = may_write c f v s in
     case fd_id (field_of f) of
       Some i \<Rightarrow>
         if doWrite then let (attach, s) = attach_tags f v (set_raw i v s) in write_tags (i # attach) s
         else s
     | None \<Rightarrow> s)"

definition write_text :: "clock \<Rightarrow> rac_field \<Rightarrow> string \<Rightarrow> rac \<Rightarrow> rac" where
  "write_text c f val s =
    (case to_raw f val s of
       Nothing \<Rightarrow> s
     | Number v \<Rightarrow> write_raw c f v (jet_wish f val s)
     | Text t \<Rightarrow> write_raw c f (js_number t) (jet_wish f val s))"

definition writable_field :: "string \<Rightarrow> rac \<Rightarrow> rac_field option" where
  "writable_field p s = (case fields_ha s p of
     Some f \<Rightarrow> if fd_writable (field_of f) = Some False then None else Some f
   | None \<Rightarrow> None)"

text \<open>\<open>setProperty\<close>; switching the mode off is a call of \<open>setProperty\<close> for the power and nothing else.\<close>

definition rac_setProperty :: "clock \<Rightarrow> string \<Rightarrow> string \<Rightarrow> rac \<Rightarrow> rac" where
  "rac_setProperty c p val s =
    (case writable_field p s of
       None \<Rightarrow> s
     | Some f \<Rightarrow>
         if f = Mode \<and> val = ''off'' then
           (case writable_field ''climate-power'' s of None \<Rightarrow> s | Some g \<Rightarrow> write_text c g ''OFF'' s)
         else write_text c f val s)"

subsection \<open>The running action\<close>

definition action_tag :: "rac \<Rightarrow> nat option" where
  "action_tag s = (if raw 0x189 s \<noteq> None then Some 0x189 else if raw 0x6c s \<noteq> None then Some 0x6c else None)"

definition DEFAULT_INTERVAL :: nat where "DEFAULT_INTERVAL = 15 * 60 * 1000"

definition updateQueryInterval :: "clock \<Rightarrow> bool \<Rightarrow> rac \<Rightarrow> rac" where
  "updateQueryInterval c increase s =
    (if increase then lift (setQueryInterval (now_ms c) ((30 - 2) * 1000)) (s\<lparr>increasedQueryIntervalTimeout := False\<rparr>)
     else s\<lparr>increasedQueryIntervalTimeout := True\<rparr>)"

text \<open>The action and whether it asks for the short interval.\<close>

definition climate_action :: "rac \<Rightarrow> string option \<times> bool" where
  "climate_action s =
    (let mode = raw MODE s;
         iduRunning = (case action_tag s of Some t \<Rightarrow> raw t s \<noteq> Some 0 | None \<Rightarrow> True);
         autoMode = (case autoRaw (encodingFor (modelId s)) of Some a \<Rightarrow> mode = Some a | None \<Rightarrow> False)
     in if powered_off s then (Some ''off'', False)
        else if (mode \<in> {Some 0, Some 1, Some 4} \<or> autoMode) \<and> \<not> iduRunning then (Some ''idle'', False)
        else if autoMode then (Some ''None'', True)
        else (case mode of
            Some m \<Rightarrow> let action = map_of [(0, ''cooling''), (1, ''drying''), (2, ''fan''), (4, ''heating'')] m
              in (action, action \<noteq> None \<and> action \<noteq> Some ''fan'')
          | None \<Rightarrow> (None, False)))"

definition updateClimateAction :: "clock \<Rightarrow> rac \<Rightarrow> rac" where
  "updateClimateAction c s =
    (let (action, increase) = climate_action s;
         s = (case action of Some a \<Rightarrow> publish_property ''climate-action'' (Shown (Txt a)) s | None \<Rightarrow> s)
     in updateQueryInterval c increase s)"

subsection \<open>Hooks\<close>

text \<open>What is re-applied when the appliance itself has been switched on, and when its mode has changed.\<close>

definition run_hook :: "clock \<Rightarrow> hook \<Rightarrow> rac \<Rightarrow> rac" where
  "run_hook c h s = (case h of
     TogglePower t \<Rightarrow> if powered_off s \<or> \<not> toggled t s then s else rac_setProperty c (toggle_name t @ ''-'') ''ON'' s
   | ToggleMode t \<Rightarrow> rac_setProperty c (toggle_name t @ ''-'') (if toggled t s then ''ON'' else ''OFF'') s
   | JetPower \<Rightarrow> if powered_off s \<or> \<not> jetMode s then s else rac_setProperty c ''jet-'' ''ON'' s
   | JetMode \<Rightarrow> rac_setProperty c ''jet-'' (if jetMode s then ''ON'' else ''OFF'') s
   | ActionHook \<Rightarrow> updateClimateAction c s)"

definition run_hooks :: "clock \<Rightarrow> hook list \<Rightarrow> rac \<Rightarrow> rac" where
  "run_hooks c hs s = foldl (\<lambda>s h. run_hook c h s) s hs"

subsection \<open>Reading\<close>

definition sensor_value :: "reading \<Rightarrow> nat \<Rightarrow> rac_value shown option" where
  "sensor_value r v = (case r of
     Plain \<Rightarrow> Some (Raw v)
   | Capacity \<Rightarrow> if v \<noteq> 0
       then Some (Shown (Num (jdiv (of_int (math_round (jmul (jmul (of_nat v) (fl (293 / 1000))) 10))) 10))) else None
   | PipeTemp \<Rightarrow> map_option (\<lambda>t. Shown (Num (of_int t / 100))) (table_temp racPipeTemp v)
   | AirTemp \<Rightarrow> map_option (\<lambda>t. Shown (Num (of_int t / 100))) (table_temp racAirTemp v)
   | Rpm \<Rightarrow> Some (Shown (Num (of_nat v * 10))))"

definition shown_on :: "bool \<Rightarrow> rac_value shown option" where
  "shown_on b = Some (Shown (Txt (if b then ''ON'' else ''OFF'')))"

text \<open>\<open>read_xform\<close> of the fields; the one of the mode is \<open>shown_mode\<close>, since the mode may be unknown there.\<close>

definition shown_mode :: "nat option \<Rightarrow> rac \<Rightarrow> string option" where
  "shown_mode v s =
    (if powered_off s then Some ''off''
     else (case v of Some n \<Rightarrow> invert (modeToRaw (encodingFor (modelId s))) n | None \<Rightarrow> None))"

definition from_raw :: "rac_field \<Rightarrow> nat \<Rightarrow> rac \<Rightarrow> rac_value shown option" where
  "from_raw f v s = (case f of
     CurrentTemperature \<Rightarrow> Some (Shown (Num (of_nat v / 2)))
   | TargetTemperature \<Rightarrow> Some (Shown (Num (of_nat v / 2)))
   | Power \<Rightarrow> shown_on (v \<noteq> 0)
   | Mode \<Rightarrow> map_option (\<lambda>m. Shown (Txt m)) (shown_mode (Some v) s)
   | FanMode \<Rightarrow> map_option (\<lambda>m. Shown (Txt m)) (invert (fanToRaw (encodingFor (modelId s))) v)
   | SwingMode \<Rightarrow> map_option (\<lambda>m. Shown (Txt m)) (vertical_raw_to_swing v)
   | SwingHorizontal \<Rightarrow> map_option (\<lambda>m. Shown (Txt m)) (invert HORIZONTAL_SWING_TO_RAW v)
   | Sensor _ _ r \<Rightarrow> sensor_value r v
   | Compressor \<Rightarrow> shown_on (\<not> powered_off s \<and> v > 0)
   | Toggle _ \<Rightarrow> shown_on (v \<noteq> 0)
   | Sound \<Rightarrow> shown_on (v = 0)
   | Display \<Rightarrow> shown_on (v = 0)
   | TemperatureStep \<Rightarrow> map_option (\<lambda>m. Shown (Txt m)) (map_of TEMPERATURE_STEPS v)
   | Jet jetCool jetHeat \<Rightarrow> shown_on (jetCool \<and> raw MODE s = Some 0 \<and> v = 1 \<or> jetHeat \<and> raw MODE s = Some 4 \<and> v = 2)
   | AiDry \<Rightarrow> map_option (\<lambda>m. Shown (Txt m)) (invert AI_DRY_STRENGTH v)
   | Timer _ _ _ _ \<Rightarrow> Some (Shown (Num (quarter_hours v)))
   | AutoDry \<Rightarrow> shown_on (v \<noteq> 0)
   | EnergyCurrent \<Rightarrow> Some (Shown (Num (if powered_off s then 0 else of_nat (max 5 v))))
   | _ \<Rightarrow> Some (Raw v))"

text \<open>The \<open>read_xform\<close> of a timer also publishes the countdown.\<close>

definition countdown :: "rac_field \<Rightarrow> nat \<Rightarrow> rac \<Rightarrow> rac" where
  "countdown f v s = (case f of Timer _ _ _ (Some part) \<Rightarrow> publish_property part (Raw v) s | _ \<Rightarrow> s)"

definition publishConfig :: "rac \<Rightarrow> rac" where
  "publishConfig s = (case rac_config_of s of
     Some config \<Rightarrow> log_out (Discovery config) (log_out (Base (Availability True)) s)
   | None \<Rightarrow> s)"

definition applyTemperatureStep :: "rat \<Rightarrow> rac \<Rightarrow> rac" where
  "applyTemperatureStep step s = (case rac_config_of s of
     None \<Rightarrow> s
   | Some config \<Rightarrow> if temp_step config = step then s
       else publishConfig (s\<lparr>rac_config_of := Some (config\<lparr>temp_step := step, precision := step\<rparr>)\<rparr>))"

text \<open>The \<open>read_callback\<close> of the mode: whether the appliance changed it by itself, and the hooks if so.\<close>

definition mode_moved :: "string \<Rightarrow> rac \<Rightarrow> bool" where
  "mode_moved val s \<longleftrightarrow>
    modePrev s \<noteq> None \<and> modePrev s \<noteq> Some val \<and> \<not> powerTransitionInFrame s \<and>
    (case (raw POWER s, powerStatePrev s) of (Some p, Some prev) \<Rightarrow> (p \<noteq> 0) = prev \<and> p \<noteq> 0 | _ \<Rightarrow> False)"

definition mode_callback :: "clock \<Rightarrow> string \<Rightarrow> rac \<Rightarrow> rac" where
  "mode_callback c val s =
    (let s = (if mode_moved val s then run_hooks c (modeChangeHooks s) s else s) in s\<lparr>modePrev := Some val\<rparr>)"

definition publish_mode :: "clock \<Rightarrow> nat option \<Rightarrow> rac \<Rightarrow> rac" where
  "publish_mode c v s = (case shown_mode v s of
     None \<Rightarrow> s
   | Some val \<Rightarrow> publish_property (fullName (field_of Mode)) (Shown (Txt val)) (mode_callback c val s))"

text \<open>The other \<open>read_callback\<close>s but the power's; \<open>False\<close> keeps the value from being published.\<close>

definition on_read :: "clock \<Rightarrow> rac_field \<Rightarrow> rac_value shown \<Rightarrow> rac \<Rightarrow> bool \<times> rac" where
  "on_read c f shown s = (case f of
     OutdoorCompressor \<Rightarrow>
       (False, case shown of Raw v \<Rightarrow> if outdoor_primary s \<noteq> None then log_out (OutdoorTurning (v > 0)) s else s | Shown _ \<Rightarrow> s)
   | Toggle t \<Rightarrow>
       if powered_off s \<or> raw POWER s = None \<or> \<not> right_mode t s then (False, s)
       else (True, set_toggled t (shown = Shown (Txt ''ON'')) s)
   | TemperatureStep \<Rightarrow> (True, applyTemperatureStep (if shown = Shown (Txt ''one_degree'') then 1 else 1 / 2) s)
   | Jet jetCool jetHeat \<Rightarrow>
       if powered_off s \<or> raw POWER s = None \<or> \<not> jet_mode_ok jetCool jetHeat s then (False, s)
       else (True, s\<lparr>jetMode := (shown = Shown (Txt ''ON''))\<rparr>)
   | RunningAction _ \<Rightarrow> (False, updateClimateAction c s)
   | EnergyCurrent \<Rightarrow>
       (True, case shown of Shown (Num w) \<Rightarrow>
           let running = \<not> powered_off s in
           if outdoor_primary s \<noteq> None then log_out (OutdoorReport w running) s else log_out (EnergySample w (now_ms c) running) s
         | _ \<Rightarrow> s)
   | _ \<Rightarrow> (True, s))"

definition publish_other :: "clock \<Rightarrow> rac_field \<Rightarrow> nat \<Rightarrow> rac \<Rightarrow> rac" where
  "publish_other c f v s =
    (case from_raw f v s of
       None \<Rightarrow> countdown f v s
     | Some shown \<Rightarrow>
         let (doRead, s) = on_read c f shown (countdown f v s) in
         if doRead \<and> fd_readable (field_of f) \<noteq> Some False then publish_property (fullName (field_of f)) shown s else s)"

text \<open>\<open>processKeyValue(0x1f9, raw_clip_state[0x1f9])\<close>, as the power's callback calls it.\<close>

definition process_mode :: "clock \<Rightarrow> rac \<Rightarrow> rac" where
  "process_mode c s = (let v = raw MODE s in
     foldl (\<lambda>s f. if f = Mode then publish_mode c v s else (case v of Some n \<Rightarrow> publish_other c f n s | None \<Rightarrow> s))
       (set_raw MODE v s) (fields_id s MODE))"

definition power_callback :: "clock \<Rightarrow> bool \<Rightarrow> rac \<Rightarrow> rac" where
  "power_callback c powerState s =
    (let s = process_mode c s;
         s = (if powerStatePrev s \<noteq> None \<and> powerStatePrev s \<noteq> Some powerState then run_hooks c (powerChangeHooks s) s else s)
     in s\<lparr>powerStatePrev := Some powerState\<rparr>)"

definition publish_field :: "clock \<Rightarrow> rac_field \<Rightarrow> nat \<Rightarrow> rac \<Rightarrow> rac" where
  "publish_field c f v s = (case f of
     Mode \<Rightarrow> publish_mode c (Some v) s
   | Power \<Rightarrow> power_callback c (v \<noteq> 0) s
   | _ \<Rightarrow> publish_other c f v s)"

definition rac_processKeyValue :: "clock \<Rightarrow> nat \<Rightarrow> nat \<Rightarrow> rac \<Rightarrow> rac" where
  "rac_processKeyValue c k v s = foldl (\<lambda>s f. publish_field c f v s) (set_raw k (Some v) s) (fields_id s k)"

subsection \<open>The filter\<close>

definition le32 :: "buffer \<Rightarrow> nat \<Rightarrow> nat" where
  "le32 b i = unat (b ! i) + 256 * unat (b ! (i + 1)) + 65536 * unat (b ! (i + 2)) + 16777216 * unat (b ! (i + 3))"

definition pad_zeros :: "nat \<Rightarrow> nat \<Rightarrow> string" where
  "pad_zeros k n = replicate (k - length (show_nat n)) CHR ''0'' @ show_nat n"

definition date_text :: "nat \<Rightarrow> string" where
  "date_text d = pad_zeros 4 (d div 10000) @ ''-'' @ pad_zeros 2 (d div 100 mod 100) @ ''-'' @ pad_zeros 2 (d mod 100)"

definition remaining_percent :: "nat \<Rightarrow> nat \<Rightarrow> int" where
  "remaining_percent used lifetime = max 0 (min 100 \<lfloor>jmul (jsub 1 (jdiv (of_nat used) (of_nat lifetime))) 100\<rfloor>)"

definition publishFilterData :: "rac \<Rightarrow> rac" where
  "publishFilterData s =
    (let s = publish_property ''filterlife'' (Raw (filterLifeTime s)) (publish_property ''filterused'' (Raw (filterUsedTime s)) s);
         s = (if filterLifeTime s > 0
              then publish_property ''filterremaining'' (Shown (Num (of_int (remaining_percent (filterUsedTime s) (filterLifeTime s))))) s
              else s)
     in if filterChangedDate s > 0 then publish_property ''filterchangeddate'' (Shown (Txt (date_text (filterChangedDate s)))) s
        else log_out (ClearRetained ''filterchangeddate'') s)"

subsection \<open>Configuration\<close>

text \<open>
  \<open>initMakeSetConfig\<close> builds the document and registers the fields, as the capability tags say. A
  registration whose component is missing raises, and then nothing more is done.
\<close>

type_synonym building = "rac \<times> (string + rac_config)"

definition push_new :: "rac_field \<Rightarrow> rac \<Rightarrow> rac" where
  "push_new f s = s\<lparr>fields_id := (case fd_id (field_of f) of
       Some i \<Rightarrow> if i \<noteq> 0 then (fields_id s)(i := fields_id s i @ [f]) else fields_id s
     | None \<Rightarrow> fields_id s),
     fields_ha := (fields_ha s)(fullName (field_of f) \<mapsto> f)\<rparr>"

definition add_field :: "rac_field \<Rightarrow> bool \<Rightarrow> building \<Rightarrow> building" where
  "add_field f autoreg b = (case b of
     (s, Inl e) \<Rightarrow> (s, Inl e)
   | (s, Inr config) \<Rightarrow>
       (case snd (addField (components config) (field_of f) autoreg (base s)) of
          Inl e \<Rightarrow> (push_new f s, Inl e)
        | Inr comps \<Rightarrow> (push_new f s, Inr (config\<lparr>components := comps\<rparr>))))"

definition set_component :: "string \<Rightarrow> string \<Rightarrow> topics \<Rightarrow> building \<Rightarrow> building" where
  "set_component key platform ts b = (case b of
     (s, Inl e) \<Rightarrow> (s, Inl e)
   | (s, Inr config) \<Rightarrow> (s, Inr (config\<lparr>components := AList.update key ((''platform'', platform) # ts) (components config)\<rparr>)))"

definition with_state :: "(rac \<Rightarrow> rac) \<Rightarrow> building \<Rightarrow> building" where
  "with_state g b = (case b of (s, Inl e) \<Rightarrow> (s, Inl e) | (s, Inr config) \<Rightarrow> (g s, Inr config))"

definition with_config :: "(rac_config \<Rightarrow> rac_config) \<Rightarrow> building \<Rightarrow> building" where
  "with_config g b = (case b of (s, Inl e) \<Rightarrow> (s, Inl e) | (s, Inr config) \<Rightarrow> (s, Inr (g config)))"

definition only_if :: "bool \<Rightarrow> (building \<Rightarrow> building) \<Rightarrow> building \<Rightarrow> building" where
  "only_if cond g b = (if cond then g b else b)"

definition power_hook :: "hook \<Rightarrow> building \<Rightarrow> building" where
  "power_hook h = with_state (\<lambda>s. s\<lparr>powerChangeHooks := powerChangeHooks s @ [h]\<rparr>)"

definition mode_hook :: "hook \<Rightarrow> building \<Rightarrow> building" where
  "mode_hook h = with_state (\<lambda>s. s\<lparr>modeChangeHooks := modeChangeHooks s @ [h]\<rparr>)"

definition tag_has :: "nat \<Rightarrow> nat \<Rightarrow> rac \<Rightarrow> bool" where
  "tag_has t bits s \<longleftrightarrow> (case raw t s of Some v \<Rightarrow> v AND bits \<noteq> 0 | None \<Rightarrow> False)"

definition addOptionalSensorField :: "nat list \<Rightarrow> string \<Rightarrow> reading \<Rightarrow> building \<Rightarrow> building" where
  "addOptionalSensorField ids name r b =
    (case find (\<lambda>i. case raw i (fst b) of Some v \<Rightarrow> sensor_value r v \<noteq> None | None \<Rightarrow> False) ids of
       None \<Rightarrow> b
     | Some i \<Rightarrow> add_field (Sensor i name r) True (set_component name ''sensor'' [] b))"

definition addModeDependentConfigSwitchField :: "toggle \<Rightarrow> building \<Rightarrow> building" where
  "addModeDependentConfigSwitchField t b =
    only_if (t = EnergySave) (mode_hook (ToggleMode t))
      (power_hook (TogglePower t) (add_field (Toggle t) True (set_component (toggle_name t) ''switch'' [] b)))"

definition addJetField :: "bool \<Rightarrow> bool \<Rightarrow> building \<Rightarrow> building" where
  "addJetField jetCool jetHeat b =
    mode_hook JetMode (power_hook JetPower (add_field (Jet jetCool jetHeat) True (set_component ''jet'' ''switch'' [] b)))"

definition addTimerField :: "nat \<Rightarrow> string \<Rightarrow> bool \<Rightarrow> string option \<Rightarrow> building \<Rightarrow> building" where
  "addTimerField i name requiresPower cd b =
    add_field (Timer i name requiresPower cd) True
      ((case cd of Some part \<Rightarrow> set_component part ''sensor'' [(''state_topic'', ''$this/'' @ part)] | None \<Rightarrow> (\<lambda>b. b))
        (set_component name ''number'' [] b))"

definition initial_config :: "rac \<Rightarrow> rac_config" where
  "initial_config s = \<lparr>components = [(''climate'', [(''platform'', ''climate''), (''action_topic'', ''$this/climate-action'')])],
     hvac_modes = (if isWinf s then [''off'', ''cool'', ''dry'', ''fan_only''] else [''off'', ''cool'', ''dry'', ''fan_only'', ''auto'']),
     fan_modes = fanLevels (encodingFor (modelId s)), swing_modes = None, swing_horizontal_modes = None,
     temp_step = 1 / 2, precision = 1 / 2\<rparr>"

definition basic_fields :: "building \<Rightarrow> building" where
  "basic_fields b =
    (let s = fst b;
         b = foldl (\<lambda>b f. add_field f True b) b [CurrentTemperature, Power, Mode, FanMode, TargetTemperature];
         b = only_if (tag_has 0x2cd 4 s)
           (\<lambda>b. add_field SwingMode True (with_config (\<lambda>c. c\<lparr>swing_modes := Some VERTICAL_SWING_MODES\<rparr>) b)) b
     in only_if (tag_has 0x2cd 8 s)
          (\<lambda>b. add_field SwingHorizontal True (with_config (\<lambda>c. c\<lparr>swing_horizontal_modes := Some
            (if isWinf s then HORIZONTAL_SWING_MODES else filter (\<lambda>m. m \<noteq> ''focus_center'') HORIZONTAL_SWING_MODES)\<rparr>) b)) b)"

definition sensor_fields :: "building \<Rightarrow> building" where
  "sensor_fields b =
    (let b = foldl (\<lambda>b (ids, name, r). addOptionalSensorField ids name r b) b
           [([0x221], ''error'', Plain), ([0x333], ''pm1'', Plain), ([0x334], ''pm25'', Plain), ([0x335], ''pm10'', Plain),
            ([0x32e], ''capacity'', Capacity), ([0x330], ''eev'', Plain), ([0x2f9], ''pipeintemp'', PipeTemp),
            ([0x2fa], ''pipeouttemp'', PipeTemp), ([0x7a, 0x32c], ''oduhextemp'', PipeTemp), ([0x332], ''oduairtemp'', AirTemp)];
         b = (if outdoor_primary (fst b) \<noteq> None then add_field OutdoorCompressor False b
              else add_field Compressor True (set_component ''compressor'' ''binary_sensor'' [(''state_topic'', ''$this/compressor'')] b))
     in addOptionalSensorField [0x331] ''fanrpm'' Rpm b)"

definition control_fields :: "building \<Rightarrow> building" where
  "control_fields b =
    (let s = fst b;
         b = only_if (tag_has 0x2cc 1 s) (addModeDependentConfigSwitchField AirClean) b;
         b = only_if (isWinf s) (\<lambda>b. add_field TemperatureStep True (set_component ''temperature_step'' ''select'' []
           (add_field Sound True (set_component ''sound'' ''switch'' [] b)))) b;
         b = add_field Display True (set_component ''display'' ''switch'' [] b);
         jetCool = tag_has 0x2cd 1 s;
         jetHeat = tag_has 0x2cd 2 s;
         b = only_if (jetCool \<or> jetHeat) (addJetField jetCool jetHeat) b;
         b = only_if (isWinf s) (\<lambda>b. add_field AiDry True (set_component ''ai_dry_strength'' ''select'' [] b)) b;
         b = (if isWinf s then addTimerField 0x21a ''sleeptimer'' True (Some ''sleep_time'') b
              else only_if (tag_has 0x2d3 1 s) (addTimerField 0x21a ''sleeptimer'' False (Some ''sleep_time'')) b);
         b = only_if (tag_has 0x2d3 4 s) (\<lambda>b. addTimerField 0x21b ''stoptimer'' False (Some ''stop_time'')
           (addTimerField 0x21c ''starttimer'' False (Some ''start_time'') b)) b;
         b = only_if (tag_has 0x2cc 2 s) (addModeDependentConfigSwitchField EnergySave) b;
         b = only_if (tag_has 0x2cc 4 s) (\<lambda>b. add_field AutoDryRemain True (add_field AutoDry True
           (set_component ''autodryremain'' ''sensor'' [] (set_component ''autodry'' ''binary_sensor'' [] b)))) b;
         b = (case action_tag s of Some t \<Rightarrow> add_field (RunningAction t) False b | None \<Rightarrow> b)
     in mode_hook ActionHook (power_hook ActionHook b))"

definition filter_fields :: "building \<Rightarrow> building" where
  "filter_fields b = only_if (filterLifeTime (fst b) \<noteq> 0)
    (\<lambda>b. with_state (\<lambda>s. s\<lparr>fields_ha := (fields_ha s)(''filterreset'' \<mapsto> FilterReset)\<rparr>)
      (foldl (\<lambda>b (key, platform, ts). set_component key platform ts b) b
        [(''filterremaining'', ''sensor'', [(''state_topic'', ''$this/filterremaining'')]),
         (''filterused'', ''sensor'', [(''state_topic'', ''$this/filterused'')]),
         (''filterlife'', ''sensor'', [(''state_topic'', ''$this/filterlife'')]),
         (''changeddate'', ''sensor'', [(''state_topic'', ''$this/filterchangeddate'')]),
         (''filterreset'', ''button'', [(''command_topic'', ''$this/filterreset/set'')])])) b"

definition energy_fields :: "building \<Rightarrow> building" where
  "energy_fields b =
    (let s = fst b in
     only_if (raw 0x2b3 s \<noteq> None \<and> raw 0x2b3 s \<noteq> Some 0)
       (\<lambda>b. let b = set_component ''energy_current'' ''sensor'' [(''state_topic'', ''$this/energy_current'')] b;
              b = (case outdoor_primary s of
                  Some True \<Rightarrow> foldl (\<lambda>b (key, platform). set_component key platform [(''state_topic'', ''$this/'' @ key)] b) b
                    [(''outdoor_power'', ''sensor''), (''outdoor_compressor'', ''binary_sensor''), (''outdoor_energy_total'', ''sensor'')]
                | Some False \<Rightarrow> b
                | None \<Rightarrow> set_component ''energy_total'' ''sensor'' [(''state_topic'', ''$this/energy_total'')] b)
          in with_state (log_out (if outdoor_primary s \<noteq> None then OutdoorPublish else EnergyPublish))
               (add_field EnergyCurrent True b)) b)"

text \<open>\<open>setConfig\<close>: the retired components are announced once, as removals, before the document itself.\<close>

definition retired :: "rac \<Rightarrow> (string \<times> string) list" where
  "retired s = [(''autodry'', ''switch''), (''sleeptimer'', ''select'')] @
     (if outdoor_primary s \<noteq> None then [(''energy_total'', ''sensor'')] else []) @
     (if isWinf s then [] else [(''sound'', ''switch''), (''temperature_step'', ''select'')])"

definition setConfig :: "rac_config \<Rightarrow> (string \<times> string) list \<Rightarrow> rac \<Rightarrow> rac" where
  "setConfig config removed s =
    publishConfig (log_out (Discovery (config\<lparr>components :=
        foldl (\<lambda>cs (key, platform). AList.update key [(''platform'', platform)] cs) (components config) removed\<rparr>))
      (s\<lparr>rac_config_of := Some config\<rparr>))"

definition initMakeSetConfig :: "clock \<Rightarrow> rac \<Rightarrow> rac" where
  "initMakeSetConfig c s =
    (case energy_fields (filter_fields (control_fields (sensor_fields (basic_fields (s, Inr (initial_config s)))))) of
       (s, Inl e) \<Rightarrow> log_out (Raised e) s
     | (s, Inr config) \<Rightarrow>
         let s = setConfig config (retired s) s;
             s = (if filterLifeTime s \<noteq> 0 then (publishFilterData s)\<lparr>filterQueryTimer := True\<rparr> else s)
         in lift (query (now_ms c)) s)"

subsection \<open>Start-up\<close>

definition initProbeForFilter :: "rac \<Rightarrow> rac" where
  "initProbeForFilter s = (sendFilterQuery s)\<lparr>filterInitialQueryTimeout := True\<rparr>"

definition processFilterData :: "clock \<Rightarrow> buffer \<Rightarrow> rac \<Rightarrow> rac" where
  "processFilterData c buf s =
    (if length buf < 1 + 3 * 4 then s
     else let s = s\<lparr>filterUsedTime := le32 buf 1, filterLifeTime := le32 buf 5, filterChangedDate := le32 buf 9\<rparr>
          in if filterInitialQueryTimeout s then initMakeSetConfig c (s\<lparr>filterInitialQueryTimeout := False\<rparr>)
             else publishFilterData s)"

definition processFilterCmdResp :: "bool \<Rightarrow> rac \<Rightarrow> rac" where
  "processFilterCmdResp success s = (if success then sendFilterQuery s else s)"

definition processPrivData :: "clock \<Rightarrow> byte \<Rightarrow> buffer \<Rightarrow> rac \<Rightarrow> rac" where
  "processPrivData c cmd buf s = (if cmd = 0x02 then processFilterData c buf s else s)"

definition processPrivDataCmdResp :: "bool \<Rightarrow> byte \<Rightarrow> rac \<Rightarrow> rac" where
  "processPrivDataCmdResp success cmd s = (if cmd = 0x02 then processFilterCmdResp success s else s)"

definition valuesReceived :: "rac \<Rightarrow> rac" where
  "valuesReceived s =
    (if initialValuesReceived s then s
     else (log_out (MaskingInfo ''1200'') (s\<lparr>initialValuesReceived := True\<rparr>))\<lparr>tlvBlacklistDisableTimer := True\<rparr>)"

definition mask_disabled :: "clock \<Rightarrow> rac \<Rightarrow> rac" where
  "mask_disabled c s =
    (let s = s\<lparr>tlvBlacklistDisableTimer := False\<rparr>
     in if \<not> (tag_has 0x2f1 1 s \<or> tag_has 0x2f1 0x200 s) then initProbeForFilter s else initMakeSetConfig c s)"

subsection \<open>Frames in\<close>

definition CAPS_RESPONSE_TAGS :: "nat list" where "CAPS_RESPONSE_TAGS = [0x2da, 0x2db, 0x2c1]"

definition marksCapsResponse :: "tag_value list \<Rightarrow> bool" where
  "marksCapsResponse tlvArray \<longleftrightarrow> list_ex (\<lambda>(t, _). t \<in> set CAPS_RESPONSE_TAGS) tlvArray"

definition rac_isValuesResponse :: "tag_value list \<Rightarrow> bool" where
  "rac_isValuesResponse tlvArray \<longleftrightarrow> length tlvArray \<ge> 10 \<and> list_ex (\<lambda>(t, _). t = POWER) tlvArray"

text \<open>\<open>TLVDevice.processTLV\<close> with this handler's methods, and the override around it.\<close>

definition base_processTLV :: "clock \<Rightarrow> tag_value list \<Rightarrow> bool \<Rightarrow> rac \<Rightarrow> rac" where
  "base_processTLV c tlvArray canSatisfyValuesResponse s =
    (let s = foldl (\<lambda>s (t, v). rac_processKeyValue c t v s) s tlvArray;
         s = (if query_caps_timeout (base s) \<and> marksCapsResponse tlvArray
              then lift (\<lambda>d. (query (now_ms c) (d\<lparr>query_caps_timeout := False\<rparr>))\<lparr>query_values_timeout := True\<rparr>) s
              else s)
     in if canSatisfyValuesResponse \<and> \<not> query_caps_timeout (base s) \<and> rac_isValuesResponse tlvArray
        then valuesReceived (lift (\<lambda>d. d\<lparr>query_values_timeout := False\<rparr>) s)
        else s)"

definition power_transition :: "tag_value list \<Rightarrow> rac \<Rightarrow> bool" where
  "power_transition tlvArray s \<longleftrightarrow> (case powerStatePrev s of
     None \<Rightarrow> False
   | Some prev \<Rightarrow> list_ex (\<lambda>(t, v). t = POWER \<and> (v \<noteq> 0) \<noteq> prev) tlvArray)"

definition rac_processTLV :: "clock \<Rightarrow> tag_value list \<Rightarrow> bool \<Rightarrow> rac \<Rightarrow> rac" where
  "rac_processTLV c tlvArray canSatisfyValuesResponse s =
    (let transition = power_transition tlvArray s;
         s' = (if transition then
                 (case find (\<lambda>(t, _). t = MODE) tlvArray of Some (_, v) \<Rightarrow> set_raw MODE (Some v) s | None \<Rightarrow> s)
               else s)
     in (base_processTLV c tlvArray canSatisfyValuesResponse (s'\<lparr>powerTransitionInFrame := transition\<rparr>))
          \<lparr>powerTransitionInFrame := powerTransitionInFrame s\<rparr>)"

definition WINF_PUSH_PAYLOAD_LENGTH :: nat where "WINF_PUSH_PAYLOAD_LENGTH = 237"
definition WINF_PUSH_SIGNATURE :: buffer where "WINF_PUSH_SIGNATURE = [0x01, 0xea, 0x0a, 0x01, 0x14]"

definition rac_decodePushData :: "string \<Rightarrow> buffer \<Rightarrow> tag_value list option" where
  "rac_decodePushData model payload =
    (if model \<noteq> ''WINF_056905_WW'' \<or> length payload \<noteq> WINF_PUSH_PAYLOAD_LENGTH \<or> subarray 1 6 payload \<noteq> WINF_PUSH_SIGNATURE then None
     else Some [(POWER, unat (payload ! 9)), (MODE, unat (payload ! 10)), (0x1fa, unat (payload ! 12)), (0x322, unat (payload ! 14)),
       (0x1fe, unat (payload ! 25)), (0x1fd, unat (payload ! 26)), (0x6c, unat (payload ! 143)), (0x32c, unat (payload ! 107)),
       (0x330, unat (payload ! 146)), (0x2b3, be16 (payload ! 233) (payload ! 234))])"

definition rac_isCompletePushSnapshot :: "tag_value list \<Rightarrow> bool" where
  "rac_isCompletePushSnapshot tlvArray \<longleftrightarrow> False"

definition rac_processPushFrame :: "clock \<Rightarrow> buffer \<Rightarrow> rac \<Rightarrow> bool \<times> rac" where
  "rac_processPushFrame c buf s =
    (if \<not> is_push_frame buf then (False, s)
     else case rac_decodePushData (modelId s) (subarray 8 (length buf - 2) buf) of
         None \<Rightarrow> (False, s)
       | Some tlv \<Rightarrow>
           let completeSnapshot = rac_isCompletePushSnapshot tlv;
               s = rac_processTLV c tlv completeSnapshot (lift heard s)
           in (True, if write_refresh_timeout (base s) \<and> completeSnapshot then lift (\<lambda>d. d\<lparr>write_refresh_timeout := False\<rparr>) s else s))"

definition rac_processData :: "clock \<Rightarrow> buffer \<Rightarrow> rac \<Rightarrow> rac" where
  "rac_processData c buf s =
    (case rac_processPushFrame c buf s of
       (True, s') \<Rightarrow> s'
     | (False, _) \<Rightarrow>
         let s = (if is_tlv_frame buf
                  then rac_processTLV c (tag_values (parse (subarray 11 (length buf - 2) buf))) True
                    (lift (\<lambda>d. heard (d\<lparr>lastReplySequence := Some (buf ! 9)\<rparr>)) s)
                  else s);
             s = (if is_priv_frame buf then processPrivData c (buf ! 0) (subarray 11 (length buf - 2) buf) s else s)
         in if is_priv_response buf then processPrivDataCmdResp (buf ! 0 = 0x02) (buf ! 12) s else s)"

subsection \<open>The life of a handler\<close>

definition rac_stopTimers :: "rac \<Rightarrow> rac" where
  "rac_stopTimers s =
    (let s = s\<lparr>tlvBlacklistDisableTimer := False, increasedQueryIntervalTimeout := False, filterInitialQueryTimeout := False,
           filterQueryTimer := False\<rparr>;
         s = (if outdoor_primary s \<noteq> None then log_out OutdoorForget s else s)
     in lift stopTimers s)"

definition rac_drop :: "rac \<Rightarrow> rac" where
  "rac_drop s = log_out (Base (Availability False)) (rac_stopTimers s)"

definition new_rac :: "nat \<Rightarrow> string \<Rightarrow> bool option \<Rightarrow> rac" where
  "new_rac now model primary =
    (let d = new_device now;
         s = \<lparr>base = d\<lparr>outputs := []\<rparr>, modelId = model, outdoor_primary = primary, fields_id = (\<lambda>_. []), fields_ha = Map.empty,
           initialValuesReceived = False, powerChangeHooks = [], powerStatePrev = None, modeChangeHooks = [], modePrev = None,
           powerTransitionInFrame = False, airClean = False, jetMode = False, energySave = False, tlvBlacklistDisableTimer = False,
           increasedQueryIntervalTimeout = False, filterInitialQueryTimeout = False, filterQueryTimer = False,
           filterUsedTime = 0, filterLifeTime = 0, filterChangedDate = 0, rac_config_of = None, rac_log = map Base (outputs d)\<rparr>
     in if primary = Some True then log_out OutdoorAttach s else s)"

datatype rac_event =
    Data buffer
  | SetProperty string string
  | Start
  | Stop
  | Drop
  | CapsTimer
  | ValuesTimer
  | RefreshTimer
  | WriteTimer
  | MaskTimer
  | FilterProbeTimer
  | FilterDailyTimer
  | SlowDownTimer
  | Announce

text \<open>\<open>Announce\<close> is Home Assistant coming up: the bridge calls \<open>publishConfig\<close>.\<close>

fun rac_step :: "rac \<Rightarrow> clock \<times> rac_event \<Rightarrow> rac" where
  "rac_step s (c, Data buf) = rac_processData c buf s"
| "rac_step s (c, SetProperty p v) = rac_setProperty c p v s"
| "rac_step s (c, Start) = lift (start (now_ms c)) s"
| "rac_step s (c, Stop) = rac_stopTimers s"
| "rac_step s (c, Drop) = rac_drop s"
| "rac_step s (c, CapsTimer) = (if query_caps_timeout (base s) then lift (queryCaps (now_ms c)) s else s)"
| "rac_step s (c, ValuesTimer) = (if query_values_timeout (base s) then lift (query (now_ms c)) s else s)"
| "rac_step s (c, RefreshTimer) = (if query_timer (base s) then lift (\<lambda>d. query (now_ms c) (askedForRefresh d)) s else s)"
| "rac_step s (c, WriteTimer) =
    (if write_refresh_timeout (base s) then lift (\<lambda>d. query (now_ms c) (d\<lparr>write_refresh_timeout := False\<rparr>)) s else s)"
| "rac_step s (c, MaskTimer) = (if tlvBlacklistDisableTimer s then mask_disabled c s else s)"
| "rac_step s (c, FilterProbeTimer) =
    (if filterInitialQueryTimeout s then initMakeSetConfig c (s\<lparr>filterInitialQueryTimeout := False\<rparr>) else s)"
| "rac_step s (c, FilterDailyTimer) = (if filterQueryTimer s then sendFilterQuery s else s)"
| "rac_step s (c, SlowDownTimer) =
    (if increasedQueryIntervalTimeout s
     then lift (setQueryInterval (now_ms c) DEFAULT_INTERVAL) (s\<lparr>increasedQueryIntervalTimeout := False\<rparr>) else s)"
| "rac_step s (c, Announce) = publishConfig s"

definition rac_run :: "nat \<Rightarrow> string \<Rightarrow> bool option \<Rightarrow> (clock \<times> rac_event) list \<Rightarrow> rac" where
  "rac_run now model primary es = foldl rac_step (new_rac now model primary) es"

end
