(* ===== verification/RacSafety.thy ===== *)
theory RacSafety
  imports RacDevice "HOL-Library.Sublist"
begin

text \<open>
  What the air conditioner's handler guarantees: what reading leaves alone, what it writes on its own and
  when, its configuration, and the encodings.
\<close>

subsection \<open>What stays\<close>

text \<open>The parts of the object that only the start-up changes.\<close>

definition static :: "rac \<Rightarrow> string \<times> bool option \<times> (nat \<Rightarrow> rac_field list) \<times> (string \<rightharpoonup> rac_field) \<times> bool \<times> hook list \<times> hook list \<times> bool" where
  "static s = (modelId s, outdoor_primary s, fields_id s, fields_ha s, initialValuesReceived s, powerChangeHooks s, modeChangeHooks s,
     rac_config_of s = None)"

lemma staticD:
  assumes "static s = static t"
  shows "modelId s = modelId t" "outdoor_primary s = outdoor_primary t" "fields_id s = fields_id t" "fields_ha s = fields_ha t"
    "initialValuesReceived s = initialValuesReceived t" "powerChangeHooks s = powerChangeHooks t" "modeChangeHooks s = modeChangeHooks t"
    "rac_config_of s = None \<longleftrightarrow> rac_config_of t = None"
  using assms by (simp_all add: static_def)

text \<open>The timers of the start-up; a read or a write does not touch them either.\<close>

definition probes :: "rac \<Rightarrow> bool \<times> bool \<times> bool \<times> nat" where
  "probes s = (tlvBlacklistDisableTimer s, filterInitialQueryTimeout s, filterQueryTimer s, filterLifeTime s)"

lemma calm_simps:
  "static (log_out x s) = static s" "probes (log_out x s) = probes s"
  "static (lift f s) = static s" "probes (lift f s) = probes s"
  "static (set_raw t v s) = static s" "probes (set_raw t v s) = probes s"
  "static (publish_property p w s) = static s" "probes (publish_property p w s) = probes s"
  "static (set_toggled tg b s) = static s" "probes (set_toggled tg b s) = probes s"
  "static (jet_wish fld val s) = static s" "probes (jet_wish fld val s) = probes s"
  "static (write_tags ids s) = static s" "probes (write_tags ids s) = probes s"
  "static (s\<lparr>modePrev := m\<rparr>) = static s" "probes (s\<lparr>modePrev := m\<rparr>) = probes s"
  "static (s\<lparr>powerStatePrev := q\<rparr>) = static s" "probes (s\<lparr>powerStatePrev := q\<rparr>) = probes s"
  "static (s\<lparr>jetMode := b\<rparr>) = static s" "probes (s\<lparr>jetMode := b\<rparr>) = probes s"
  "static (s\<lparr>powerTransitionInFrame := b\<rparr>) = static s" "probes (s\<lparr>powerTransitionInFrame := b\<rparr>) = probes s"
  "static (s\<lparr>increasedQueryIntervalTimeout := b\<rparr>) = static s" "probes (s\<lparr>increasedQueryIntervalTimeout := b\<rparr>) = probes s"
  by (simp_all add: static_def probes_def log_out_def lift_def Let_def set_raw_def publish_property_def set_toggled_def jet_wish_def write_tags_def
      split: toggle.split rac_field.split)

lemma calm_filter [simp]:
  "static (sendFilterQuery s) = static s" "probes (sendFilterQuery s) = probes s"
  "static (sendFilterReset c s) = static s" "probes (sendFilterReset c s) = probes s"
  by (simp_all add: sendFilterQuery_def sendFilterReset_def calm_simps Let_def split: prod.split)

lemma calm_may_write [simp]: "static (snd (may_write c f v s)) = static s" "probes (snd (may_write c f v s)) = probes s"
  by (simp_all add: may_write_def calm_simps Let_def split: rac_field.split)

lemma calm_attach [simp]: "static (snd (attach_tags f v s)) = static s" "probes (snd (attach_tags f v s)) = probes s"
  by (simp_all add: attach_tags_def calm_simps split: rac_field.split)

lemma calm_write_raw [simp]: "static (write_raw c f v s) = static s" "probes (write_raw c f v s) = probes s"
  by (simp_all add: write_raw_def calm_simps Let_def split_def split: option.split)

lemma calm_write_text [simp]: "static (write_text c f val s) = static s" "probes (write_text c f val s) = probes s"
  by (simp_all add: write_text_def calm_simps split: written.split)

lemma calm_setProperty [simp]: "static (rac_setProperty c p val s) = static s" "probes (rac_setProperty c p val s) = probes s"
  by (simp_all add: rac_setProperty_def split: option.split)

lemma calm_action [simp]: "static (updateClimateAction c s) = static s" "probes (updateClimateAction c s) = probes s"
  by (simp_all add: updateClimateAction_def updateQueryInterval_def calm_simps Let_def split_def split: option.split)

lemma calm_hooks [simp]: "static (run_hooks c hs s) = static s" "probes (run_hooks c hs s) = probes s"
proof -
  have "static (run_hook c h s) = static s \<and> probes (run_hook c h s) = probes s" for h s
    by (cases h) (simp_all add: run_hook_def)
  then have "static (run_hooks c hs s) = static s \<and> probes (run_hooks c hs s) = probes s" for s
    by (induction hs arbitrary: s) (simp_all add: run_hooks_def)
  then show "static (run_hooks c hs s) = static s" "probes (run_hooks c hs s) = probes s" by simp_all
qed

lemma calm_config [simp]:
  "static (publishConfig s) = static s" "probes (publishConfig s) = probes s"
  "static (applyTemperatureStep x s) = static s" "probes (applyTemperatureStep x s) = probes s"
proof -
  show p: "static (publishConfig s) = static s" "probes (publishConfig s) = probes s" for s
    by (simp_all add: publishConfig_def calm_simps split: option.split)
  show "static (applyTemperatureStep x s) = static s" "probes (applyTemperatureStep x s) = probes s"
    by (auto simp: applyTemperatureStep_def p split: option.split) (simp_all add: static_def probes_def)
qed

lemma calm_publish_mode [simp]: "static (publish_mode c v s) = static s" "probes (publish_mode c v s) = probes s"
  by (simp_all add: publish_mode_def mode_callback_def calm_simps Let_def split: option.split)

lemma calm_on_read [simp]: "static (snd (on_read c f w s)) = static s" "probes (snd (on_read c f w s)) = probes s"
  by (simp_all add: on_read_def calm_simps Let_def split: rac_field.split shown.split rac_value.split)

lemma calm_countdown [simp]: "static (countdown f v s) = static s" "probes (countdown f v s) = probes s"
  by (simp_all add: countdown_def calm_simps split: rac_field.split option.split)

lemma calm_publish_other [simp]: "static (publish_other c f v s) = static s" "probes (publish_other c f v s) = probes s"
  by (simp_all add: publish_other_def calm_simps Let_def split_def split: option.split)

lemma calm_process_mode [simp]: "static (process_mode c s) = static s" "probes (process_mode c s) = probes s"
proof -
  have "static (foldl (\<lambda>s f. if f = Mode then publish_mode c v s else (case v of Some n \<Rightarrow> publish_other c f n s | None \<Rightarrow> s)) s fs) = static s \<and>
      probes (foldl (\<lambda>s f. if f = Mode then publish_mode c v s else (case v of Some n \<Rightarrow> publish_other c f n s | None \<Rightarrow> s)) s fs) = probes s" for v s fs
    by (induction fs arbitrary: s) (simp_all split: option.split)
  then show "static (process_mode c s) = static s" "probes (process_mode c s) = probes s"
    by (simp_all add: process_mode_def Let_def calm_simps)
qed

lemma calm_publish_field [simp]: "static (publish_field c f v s) = static s" "probes (publish_field c f v s) = probes s"
  by (simp_all add: publish_field_def power_callback_def Let_def calm_simps split: rac_field.split)

lemma calm_processKeyValue [simp]: "static (rac_processKeyValue c k v s) = static s" "probes (rac_processKeyValue c k v s) = probes s"
proof -
  have "static (foldl (\<lambda>s f. publish_field c f v s) s fs) = static s \<and> probes (foldl (\<lambda>s f. publish_field c f v s) s fs) = probes s" for s fs
    by (induction fs arbitrary: s) simp_all
  then show "static (rac_processKeyValue c k v s) = static s" "probes (rac_processKeyValue c k v s) = probes s"
    by (simp_all add: rac_processKeyValue_def calm_simps)
qed

subsection \<open>What is said\<close>

text \<open>A packet with the header of a write, told by its eighth and ninth bytes.\<close>

definition is_write :: "rac_out \<Rightarrow> bool" where
  "is_write x \<longleftrightarrow> (case x of Base (Packet p) \<Rightarrow> idx p 7 = Some 2 \<and> idx p 8 = Some 1 | _ \<Rightarrow> False)"

definition writes :: "rac \<Rightarrow> rac_out list" where
  "writes s = filter is_write (rac_log s)"

definition meek :: "rac_out \<Rightarrow> bool" where
  "meek x \<longleftrightarrow> \<not> is_write x \<and> (case x of Raised _ \<Rightarrow> False | _ \<Rightarrow> True)"

lemma tlv_packet_kind: "idx (tlv_packet h els) 7 = Some (h ! 2)" "idx (tlv_packet h els) 8 = Some (h ! 3)"
  by (simp_all add: tlv_packet_def Let_def idx_def numeral_eq_Suc)

lemma priv_packet_kind: "idx (priv_packet c k els) 7 = Some 0xfd"
  by (simp add: priv_packet_def Let_def idx_def numeral_eq_Suc)

lemma meek_simps [simp]:
  "meek (Base (Property p v))" "meek (Base (Availability b))" "meek (Discovery c)" "meek (ClearRetained p)" "meek (OutdoorReport w b)"
  "meek (OutdoorTurning b)" "meek (EnergySample w t b)" "meek OutdoorPublish" "meek EnergyPublish" "meek (MaskingInfo x)" "meek OutdoorForget"
  "meek (Base (Packet (tlv_packet QUERY_HEADER els)))" "meek (Base (Packet (priv_packet pa pb pd)))"
  by (simp_all add: meek_def is_write_def tlv_packet_kind priv_packet_kind QUERY_HEADER_def)

subsection \<open>Building the configuration\<close>

text \<open>The names of the registered fields, in the order of the code, and of the hooks.\<close>

definition name_of :: "rac_field \<Rightarrow> string" where
  "name_of f = fullName (field_of f)"

definition plain :: "rac_field \<Rightarrow> bool" where
  "plain f \<longleftrightarrow> (case f of Toggle _ \<Rightarrow> False | Jet _ _ \<Rightarrow> False | FilterReset \<Rightarrow> False | _ \<Rightarrow> True)"

lemma plainD: "plain f \<Longrightarrow> f \<noteq> Toggle t" "plain f \<Longrightarrow> f \<noteq> Jet a b"
  by (auto simp: plain_def)

text \<open>The number entities, the only writable fields whose name is an argument.\<close>

definition known :: "rac_field \<Rightarrow> bool" where
  "known f \<longleftrightarrow> (case f of Timer _ name _ _ \<Rightarrow> name \<in> {''sleeptimer'', ''starttimer'', ''stoptimer''} | _ \<Rightarrow> True)"

text \<open>\<open>registered L s\<close>: the tables hold exactly the fields of \<open>L\<close>, each under its own name, and their hooks.\<close>

definition registered :: "rac_field list \<Rightarrow> rac \<Rightarrow> bool" where
  "registered L s \<longleftrightarrow>
    fields_id s = (\<lambda>i. filter (\<lambda>f. fd_id (field_of f) = Some i) L) \<and> list_all known L \<and>
    (\<forall>f \<in> set L. fields_ha s (name_of f) = Some f) \<and>
    (\<forall>p f. fields_ha s p = Some f \<longrightarrow> f \<in> set L \<and> p = name_of f \<or> f = FilterReset \<and> p = ''filterreset'') \<and>
    (\<forall>t. Toggle t \<in> set L \<longrightarrow> TogglePower t \<in> set (powerChangeHooks s)) \<and>
    (\<forall>a b. Jet a b \<in> set L \<longrightarrow> JetPower \<in> set (powerChangeHooks s))"

definition core :: "rac \<Rightarrow> rac" where
  "core s = s\<lparr>fields_id := (\<lambda>_. []), fields_ha := Map.empty, powerChangeHooks := [], modeChangeHooks := [],
     rac_log := filter (\<lambda>x. \<not> meek x) (rac_log s)\<rparr>"

definition building_ok :: "rac \<Rightarrow> string list \<Rightarrow> string set \<Rightarrow> hook list \<Rightarrow> hook list \<Rightarrow> building \<Rightarrow> bool" where
  "building_ok s0 NS K PH MH b \<longleftrightarrow> (\<exists>s config L. b = (s, Inr config) \<and> core s = core s0 \<and> K \<subseteq> fst ` set (components config) \<and>
     subseq (map name_of L) NS \<and> registered L s \<and> subseq (powerChangeHooks s) PH \<and> subseq (modeChangeHooks s) MH)"

lemma fst_update: "fst ` set (AList.update k v xs) = insert k (fst ` set xs)"
  using dom_update [of k v xs] by (auto simp: dom_map_of_conv_image_fst)

lemma building_okE:
  assumes "building_ok s0 NS K PH MH b"
  obtains s config L where "b = (s, Inr config)" "core s = core s0" "K \<subseteq> fst ` set (components config)"
    "subseq (map name_of L) NS" "registered L s" "subseq (powerChangeHooks s) PH" "subseq (modeChangeHooks s) MH"
  using assms unfolding building_ok_def by blast

lemma building_weaken:
  assumes "building_ok s0 NS K PH MH b" "K' \<subseteq> K"
  shows "building_ok s0 (NS @ NS') K' (PH @ PH') (MH @ MH') b"
proof -
  have w: "subseq xs ys \<Longrightarrow> subseq xs (ys @ zs)" for xs ys zs :: "'a list"
    using list_emb_append_mono [of "(=)" xs ys "[]" zs] by simp
  from assms(1) show ?thesis by (rule building_okE) (use assms(2) in \<open>auto simp: building_ok_def intro!: w\<close>)
qed

lemma building_drop: "building_ok s0 NS K PH MH b \<Longrightarrow> K' \<subseteq> K \<Longrightarrow> building_ok s0 NS K' PH MH b"
  using building_weaken [of s0 NS K PH MH b K' "[]" "[]" "[]"] by simp

lemma push_hooks [simp]:
  "powerChangeHooks (push_new f s) = powerChangeHooks s" "modeChangeHooks (push_new f s) = modeChangeHooks s"
  "(push_new f s)\<lparr>powerChangeHooks := powerChangeHooks s, modeChangeHooks := modeChangeHooks s\<rparr> = push_new f s"
  by (simp_all add: push_new_def)

lemma registered_add:
  assumes "registered L s" "name_of f \<notin> name_of ` set L" "fd_id (field_of f) = Some i" "i \<noteq> 0"
    "\<forall>t. f = Toggle t \<longrightarrow> TogglePower t \<in> set ph" "\<forall>a b. f = Jet a b \<longrightarrow> JetPower \<in> set ph" "name_of f \<noteq> ''filterreset''" "known f"
  shows "registered (L @ [f]) ((push_new f s)\<lparr>powerChangeHooks := powerChangeHooks s @ ph, modeChangeHooks := mh\<rparr>)"
  using assms unfolding registered_def push_new_def name_of_def by (auto simp: fun_eq_iff image_iff)

lemma core_push [simp]: "core ((push_new f s)\<lparr>powerChangeHooks := ph, modeChangeHooks := mh\<rparr>) = core s" "core (push_new f s) = core s"
  by (simp_all add: core_def push_new_def)

lemma name_filterreset: "name_of f \<noteq> ''filterreset''"
proof
  assume "name_of f = ''filterreset''"
  then have "CHR ''-'' \<in> set ''filterreset''" unfolding name_of_def fullName_def by (metis in_set_conv_decomp append_Cons append_Nil append_assoc)
  then show False by simp
qed

lemma subseq_snoc: "subseq xs ys \<Longrightarrow> subseq (xs @ [z]) (ys @ [z])"
  by (intro list_emb_append_mono) simp_all

lemma subseq_not_in: "subseq xs ys \<Longrightarrow> z \<notin> set ys \<Longrightarrow> z \<notin> set xs"
  using list_emb_set [of "(=)" xs ys z] by auto

lemma building_component:
  assumes "building_ok s0 NS K PH MH b"
  shows "building_ok s0 NS (insert key K) PH MH (set_component key platform ts b)"
  using assms by (rule building_okE) (auto simp: building_ok_def set_component_def fst_update)

lemma building_add:
  assumes "building_ok s0 NS K PH MH b" "fd_comp (field_of f) \<in> K \<or> \<not> autoreg" "n = name_of f" "n \<notin> set NS" "plain f"
    "fd_id (field_of f) \<notin> {None, Some 0}" "known f"
  shows "building_ok s0 (NS @ [n]) K PH MH (add_field f autoreg b)"
proof -
  from assms(1) obtain s config L where b: "b = (s, Inr config)" "core s = core s0" "K \<subseteq> fst ` set (components config)"
    "subseq (map name_of L) NS" "registered L s" "subseq (powerChangeHooks s) PH" "subseq (modeChangeHooks s) MH"
    by (rule building_okE)
  have fresh: "name_of f \<notin> name_of ` set L" using subseq_not_in [OF b(4), of n] assms(3,4) by simp
  have r: "registered (L @ [f]) (push_new f s)"
    using registered_add [OF b(5) fresh, of _ "[]" "modeChangeHooks s"] assms(5,6,7) name_filterreset
    by (auto simp: plainD)
  obtain cs where cs: "snd (addField (components config) (field_of f) autoreg (base s)) = Inr cs" "fst ` set (components config) \<subseteq> fst ` set cs"
  proof (cases "autoreg")
    case True
    then obtain target where "map_of (components config) (fd_comp (field_of f)) = Some target"
      using assms(2) b(3) by (metis map_of_eq_None_iff not_None_eq subsetD)
    then show ?thesis using that True by (auto simp: addField_def Let_def fst_update)
  next
    case False
    then show ?thesis using that by (simp add: addField_def Let_def)
  qed
  show ?thesis
    unfolding building_ok_def b(1) add_field_def
    using cs b r assms(3) subseq_snoc [OF b(4), of n] by (auto intro!: exI [of _ "L @ [f]"])
qed

lemma building_if:
  assumes "building_ok s0 NS K PH MH b" "K' \<subseteq> K" "building_ok s0 NS K PH MH b \<Longrightarrow> building_ok s0 (NS @ NS') K' (PH @ PH') (MH @ MH') (g b)"
  shows "building_ok s0 (NS @ NS') K' (PH @ PH') (MH @ MH') (only_if cond g b)"
  using assms building_weaken [OF assms(1,2)] by (simp add: only_if_def)

lemma building_config:
  assumes "building_ok s0 NS K PH MH b" "\<And>c. components (g c) = components c"
  shows "building_ok s0 NS K PH MH (with_config g b)"
  using assms(1) by (rule building_okE) (auto simp: building_ok_def with_config_def assms(2))

lemma registered_log: "registered L (log_out x s) = registered L s" "meek x \<Longrightarrow> core (log_out x s) = core s"
  "powerChangeHooks (log_out x s) = powerChangeHooks s" "modeChangeHooks (log_out x s) = modeChangeHooks s"
  by (simp_all add: registered_def core_def log_out_def)

lemma building_log:
  assumes "building_ok s0 NS K PH MH b" "meek x"
  shows "building_ok s0 NS K PH MH (with_state (log_out x) b)"
  using assms(1) by (rule building_okE) (use assms(2) in \<open>auto simp: building_ok_def with_state_def registered_log\<close>)

text \<open>A field with its hooks, registered in one go.\<close>

lemma building_hooked:
  assumes "building_ok s0 NS K PH MH b" "fd_comp (field_of f) \<in> K" "n = name_of f" "n \<notin> set NS" "fd_id (field_of f) = Some i" "i \<noteq> 0"
    "\<forall>t. f = Toggle t \<longrightarrow> TogglePower t = h" "\<forall>a b. f = Jet a b \<longrightarrow> JetPower = h" "known f"
  shows "building_ok s0 (NS @ [n]) K (PH @ [h]) (MH @ mh)
    (with_state (\<lambda>s. s\<lparr>modeChangeHooks := modeChangeHooks s @ mh\<rparr>) (power_hook h (add_field f True b)))"
proof -
  from assms(1) obtain s config L where b: "b = (s, Inr config)" "core s = core s0" "K \<subseteq> fst ` set (components config)"
    "subseq (map name_of L) NS" "registered L s" "subseq (powerChangeHooks s) PH" "subseq (modeChangeHooks s) MH"
    by (rule building_okE)
  have fresh: "name_of f \<notin> name_of ` set L" using subseq_not_in [OF b(4), of n] assms(3,4) by simp
  have r: "registered (L @ [f]) ((push_new f s)\<lparr>powerChangeHooks := powerChangeHooks s @ [h], modeChangeHooks := modeChangeHooks s @ mh\<rparr>)"
    by (rule registered_add [OF b(5) fresh assms(5,6)]) (use assms(7-9) name_filterreset in auto)
  obtain target where "map_of (components config) (fd_comp (field_of f)) = Some target"
    using assms(2) b(3) by (metis map_of_eq_None_iff not_None_eq subsetD)
  then obtain cs where cs: "snd (addField (components config) (field_of f) True (base s)) = Inr cs" "fst ` set (components config) \<subseteq> fst ` set cs"
    by (auto simp: addField_def Let_def fst_update)
  have "subseq (modeChangeHooks s @ mh) (MH @ mh)" "subseq (powerChangeHooks s @ [h]) (PH @ [h])"
    using b(6,7) by (auto intro: list_emb_append_mono)
  then show ?thesis
    unfolding building_ok_def b(1) add_field_def power_hook_def with_state_def
    using cs b r assms(3) subseq_snoc [OF b(4), of n] by (auto intro!: exI [of _ "L @ [f]"])
qed

lemma building_toggle:
  assumes "building_ok s0 NS K PH MH b" "n = name_of (Toggle t)" "n \<notin> set NS"
  shows "building_ok s0 (NS @ [n]) K (PH @ [TogglePower t]) (MH @ (if t = EnergySave then [ToggleMode t] else []))
    (addModeDependentConfigSwitchField t b)"
proof -
  have "building_ok s0 (NS @ [n]) (insert (toggle_name t) K) (PH @ [TogglePower t]) (MH @ (if t = EnergySave then [ToggleMode t] else []))
      (with_state (\<lambda>s. s\<lparr>modeChangeHooks := modeChangeHooks s @ (if t = EnergySave then [ToggleMode t] else [])\<rparr>)
        (power_hook (TogglePower t) (add_field (Toggle t) True (set_component (toggle_name t) ''switch'' [] b))))"
    using assms(2,3)
    by (intro building_hooked [OF building_component [OF assms(1)], where i = "if t = AirClean then 0x20f else 0x20d"])
      (auto simp: field_of_def fdef_def toggle_name_def known_def split: toggle.split)
  then have "building_ok s0 (NS @ [n]) K (PH @ [TogglePower t]) (MH @ (if t = EnergySave then [ToggleMode t] else []))
      (with_state (\<lambda>s. s\<lparr>modeChangeHooks := modeChangeHooks s @ (if t = EnergySave then [ToggleMode t] else [])\<rparr>)
        (power_hook (TogglePower t) (add_field (Toggle t) True (set_component (toggle_name t) ''switch'' [] b))))"
    by (rule building_drop) auto
  then show ?thesis
    by (auto simp: addModeDependentConfigSwitchField_def only_if_def mode_hook_def with_state_def split: prod.splits sum.splits)
qed

lemma building_jet:
  assumes "building_ok s0 NS K PH MH b" "n = name_of (Jet x y)" "n \<notin> set NS"
  shows "building_ok s0 (NS @ [n]) K (PH @ [JetPower]) (MH @ [JetMode]) (addJetField x y b)"
proof -
  have "building_ok s0 (NS @ [n]) (insert ''jet'' K) (PH @ [JetPower]) (MH @ [JetMode])
      (with_state (\<lambda>s. s\<lparr>modeChangeHooks := modeChangeHooks s @ [JetMode]\<rparr>)
        (power_hook JetPower (add_field (Jet x y) True (set_component ''jet'' ''switch'' [] b))))"
    using assms(2,3) by (intro building_hooked [OF building_component [OF assms(1)], where i = "0x323"]) (auto simp: field_of_def fdef_def known_def)
  then show ?thesis
    unfolding addJetField_def mode_hook_def by (rule building_drop) auto
qed

lemma building_sensor:
  assumes "building_ok s0 NS K PH MH b" "n = name @ ''-''" "n \<notin> set NS" "0 \<notin> set ids"
  shows "building_ok s0 (NS @ [n]) K PH MH (addOptionalSensorField ids name r b)"
proof (cases "find (\<lambda>i. case raw i (fst b) of Some v \<Rightarrow> sensor_value r v \<noteq> None | None \<Rightarrow> False) ids")
  case None
  then show ?thesis using building_weaken [OF assms(1) subset_refl, of "[n]" "[]" "[]"] by (simp add: addOptionalSensorField_def)
next
  case (Some i)
  then have "i \<noteq> 0" using assms(4) find_Some_iff by (metis nth_mem)
  then have "building_ok s0 (NS @ [n]) (insert name K) PH MH (add_field (Sensor i name r) True (set_component name ''sensor'' [] b))"
    using assms(2,3)
    by (intro building_add [OF building_component [OF assms(1)]]) (auto simp: field_of_def fdef_def name_of_def fullName_def plain_def known_def)
  then show ?thesis
    by (simp add: addOptionalSensorField_def Some) (rule building_drop, auto)
qed

lemma building_timer:
  assumes "building_ok s0 NS K PH MH b" "n = name @ ''-''" "n \<notin> set NS" "i \<noteq> 0" "name \<in> {''sleeptimer'', ''starttimer'', ''stoptimer''}"
  shows "building_ok s0 (NS @ [n]) K PH MH (addTimerField i name q (Some cd) b)"
proof -
  have "building_ok s0 (NS @ [n]) (insert cd (insert name K)) PH MH
      (add_field (Timer i name q (Some cd)) True (set_component cd ''sensor'' [(''state_topic'', ''$this/'' @ cd)] (set_component name ''number'' [] b)))"
    using assms(2-5)
    by (intro building_add [OF building_component [OF building_component [OF assms(1)]]])
      (auto simp: field_of_def fdef_def name_of_def fullName_def plain_def known_def)
  then show ?thesis
    unfolding addTimerField_def option.case by (rule building_drop) auto
qed

lemmas field_facts = field_of_def fdef_def name_of_def fullName_def plain_def known_def

definition CLIMATE_NAMES :: "string list" where
  "CLIMATE_NAMES = [''climate-current_temperature'', ''climate-power'', ''climate-mode'', ''climate-fan_mode'', ''climate-temperature'',
     ''climate-swing_mode'', ''climate-swing_horizontal_mode'']"

lemma basic_fields_ok:
  assumes "building_ok s0 [] {''climate''} [] [] b"
  shows "building_ok s0 CLIMATE_NAMES {''climate''} [] [] (basic_fields b)"
proof -
  define b1 where "b1 = foldl (\<lambda>b f. add_field f True b) b [CurrentTemperature, Power, Mode, FanMode, TargetTemperature]"
  have "building_ok s0 ((((([] @ [''climate-current_temperature'']) @ [''climate-power'']) @ [''climate-mode'']) @ [''climate-fan_mode'']) @
      [''climate-temperature'']) {''climate''} [] []
      (add_field TargetTemperature True (add_field FanMode True (add_field Mode True (add_field Power True (add_field CurrentTemperature True b)))))"
    by (intro building_add assms) (simp_all add: field_facts)
  then have 1: "building_ok s0 (take 5 CLIMATE_NAMES) {''climate''} [] [] b1" by (simp add: b1_def CLIMATE_NAMES_def)
  have 2: "building_ok s0 (take 5 CLIMATE_NAMES @ [''climate-swing_mode'']) {''climate''} [] []
      (only_if x (\<lambda>b. add_field SwingMode True (with_config (\<lambda>c. c\<lparr>swing_modes := y\<rparr>) b)) b1)" for x y
    using building_if [OF 1 subset_refl, where NS' = "[''climate-swing_mode'']" and PH' = "[]" and MH' = "[]" and cond = x and
        g = "\<lambda>b. add_field SwingMode True (with_config (\<lambda>c. c\<lparr>swing_modes := y\<rparr>) b)"]
      building_add [OF building_config [OF 1], of _ SwingMode True "''climate-swing_mode''"]
    by (simp add: field_facts CLIMATE_NAMES_def)
  have 3: "building_ok s0 ((take 5 CLIMATE_NAMES @ [''climate-swing_mode'']) @ [''climate-swing_horizontal_mode'']) {''climate''} [] []
      (only_if x' (\<lambda>b. add_field SwingHorizontal True (with_config (\<lambda>c. c\<lparr>swing_horizontal_modes := z\<rparr>) b))
        (only_if x (\<lambda>b. add_field SwingMode True (with_config (\<lambda>c. c\<lparr>swing_modes := y\<rparr>) b)) b1))" for x y x' z
    using building_if [OF 2 [of x y] subset_refl, where NS' = "[''climate-swing_horizontal_mode'']" and PH' = "[]" and MH' = "[]" and cond = x' and
        g = "\<lambda>b. add_field SwingHorizontal True (with_config (\<lambda>c. c\<lparr>swing_horizontal_modes := z\<rparr>) b)"]
      building_add [OF building_config [OF 2 [of x y]], of _ SwingHorizontal True "''climate-swing_horizontal_mode''"]
    by (simp add: field_facts CLIMATE_NAMES_def)
  show ?thesis unfolding basic_fields_def Let_def b1_def [symmetric] using 3 by (simp add: CLIMATE_NAMES_def)
qed

definition SENSOR_NAMES :: "string list" where
  "SENSOR_NAMES = [''error-'', ''pm1-'', ''pm25-'', ''pm10-'', ''capacity-'', ''eev-'', ''pipeintemp-'', ''pipeouttemp-'', ''oduhextemp-'',
     ''oduairtemp-'']"

lemma sensor_list_ok:
  assumes "building_ok s0 NS K PH MH b" "\<forall>x \<in> set xs. 0 \<notin> set (fst x) \<and> fst (snd x) @ ''-'' \<notin> set NS"
    "distinct (map (\<lambda>x. fst (snd x)) xs)"
  shows "building_ok s0 (NS @ map (\<lambda>x. fst (snd x) @ ''-'') xs) K PH MH (foldl (\<lambda>b (ids, name, r). addOptionalSensorField ids name r b) b xs)"
  using assms
proof (induction xs arbitrary: NS b)
  case (Cons x xs)
  obtain ids name r where x: "x = (ids, name, r)" by (cases x) auto
  have 1: "building_ok s0 (NS @ [name @ ''-'']) K PH MH (addOptionalSensorField ids name r b)"
    using Cons.prems by (intro building_sensor) (simp_all add: x)
  have "\<forall>x \<in> set xs. 0 \<notin> set (fst x) \<and> fst (snd x) @ ''-'' \<notin> set (NS @ [name @ ''-''])"
    using Cons.prems(2,3) by (auto simp: x)
  from Cons.IH [OF 1 this] Cons.prems(3) show ?case by (simp add: x)
qed simp

definition ALL_NAMES :: "string list" where
  "ALL_NAMES = CLIMATE_NAMES @ SENSOR_NAMES @ [''-outdoor_compressor'', ''compressor-'', ''fanrpm-'', ''airclean-'', ''sound-'', ''temperature_step-'',
     ''display-'', ''jet-'', ''ai_dry_strength-'', ''sleeptimer-'', ''starttimer-'', ''stoptimer-'', ''energysave-'', ''autodry-'',
     ''autodryremain-'', ''climate-action'', ''energy_current-'']"

lemma distinct_names: "distinct ALL_NAMES"
  by (simp add: ALL_NAMES_def CLIMATE_NAMES_def SENSOR_NAMES_def)

lemma sensor_fields_ok:
  assumes "building_ok s0 CLIMATE_NAMES {''climate''} [] [] b"
  shows "building_ok s0 (CLIMATE_NAMES @ SENSOR_NAMES @ [''-outdoor_compressor'', ''compressor-'', ''fanrpm-'']) {''climate''} [] [] (sensor_fields b)"
proof -
  define xs where "xs = [([0x221], ''error'', Plain), ([0x333], ''pm1'', Plain), ([0x334], ''pm25'', Plain), ([0x335], ''pm10'', Plain),
            ([0x32e], ''capacity'', Capacity), ([0x330], ''eev'', Plain), ([0x2f9], ''pipeintemp'', PipeTemp),
            ([0x2fa], ''pipeouttemp'', PipeTemp), ([0x7a, 0x32c :: nat], ''oduhextemp'', PipeTemp), ([0x332], ''oduairtemp'', AirTemp)]"
  define b1 where "b1 = foldl (\<lambda>b (ids, name, r). addOptionalSensorField ids name r b) b xs"
  have n: "map (\<lambda>x. fst (snd x) @ ''-'') xs = SENSOR_NAMES" by (simp add: xs_def SENSOR_NAMES_def)
  have "\<forall>x \<in> set xs. 0 \<notin> set (fst x) \<and> fst (snd x) @ ''-'' \<notin> set CLIMATE_NAMES" "distinct (map (\<lambda>x. fst (snd x)) xs)"
    by (simp_all add: xs_def CLIMATE_NAMES_def)
  from sensor_list_ok [OF assms this] have 1: "building_ok s0 (CLIMATE_NAMES @ SENSOR_NAMES) {''climate''} [] [] b1"
    unfolding n b1_def .
  define b2 where "b2 = (if outdoor_primary (fst b1) \<noteq> None then add_field OutdoorCompressor False b1
              else add_field Compressor True (set_component ''compressor'' ''binary_sensor'' [(''state_topic'', ''$this/compressor'')] b1))"
  have "building_ok s0 ((CLIMATE_NAMES @ SENSOR_NAMES) @ [''-outdoor_compressor'']) {''climate''} [] [] (add_field OutdoorCompressor False b1)"
    by (intro building_add [OF 1]) (simp_all add: field_facts CLIMATE_NAMES_def SENSOR_NAMES_def)
  from building_weaken [OF this subset_refl, of "[''compressor-'']" "[]" "[]"]
  have a: "building_ok s0 (CLIMATE_NAMES @ SENSOR_NAMES @ [''-outdoor_compressor'', ''compressor-'']) {''climate''} [] []
      (add_field OutdoorCompressor False b1)" by simp
  have "building_ok s0 (((CLIMATE_NAMES @ SENSOR_NAMES) @ [''-outdoor_compressor'']) @ [''compressor-'']) (insert ''compressor'' {''climate''}) [] []
      (add_field Compressor True (set_component ''compressor'' ''binary_sensor'' [(''state_topic'', ''$this/compressor'')] b1))"
    using building_weaken [OF 1 subset_refl, of "[''-outdoor_compressor'']" "[]" "[]"]
    by (intro building_add building_component) (simp_all add: field_facts CLIMATE_NAMES_def SENSOR_NAMES_def)
  from building_drop [OF this, of "{''climate''}"]
  have "building_ok s0 (CLIMATE_NAMES @ SENSOR_NAMES @ [''-outdoor_compressor'', ''compressor-'']) {''climate''} [] [] b2"
    using a by (simp add: b2_def)
  then have "building_ok s0 ((CLIMATE_NAMES @ SENSOR_NAMES @ [''-outdoor_compressor'', ''compressor-'']) @ [''fanrpm-'']) {''climate''} [] []
      (addOptionalSensorField [0x331] ''fanrpm'' Rpm b2)"
    by (rule building_sensor) (simp_all add: CLIMATE_NAMES_def SENSOR_NAMES_def)
  then show ?thesis
    unfolding sensor_fields_def Let_def xs_def [symmetric] b1_def [symmetric] b2_def [symmetric] by simp
qed

definition READ_NAMES :: "string list" where
  "READ_NAMES = CLIMATE_NAMES @ SENSOR_NAMES @ [''-outdoor_compressor'', ''compressor-'', ''fanrpm-'']"

lemma not_read: "n \<in> {''airclean-'', ''sound-'', ''temperature_step-'', ''display-'', ''jet-'', ''ai_dry_strength-'', ''sleeptimer-'', ''starttimer-'',
    ''stoptimer-'', ''energysave-'', ''autodry-'', ''autodryremain-'', ''climate-action'', ''energy_current-''} \<Longrightarrow> n \<notin> set READ_NAMES"
  by (auto simp: READ_NAMES_def CLIMATE_NAMES_def SENSOR_NAMES_def)

text \<open>Two fields with their components, registered under a condition.\<close>

lemma building_two:
  assumes "building_ok s0 NS {''climate''} PH MH b" "fd_comp (field_of f) = k" "fd_comp (field_of g) = k'" "n = name_of f" "n' = name_of g"
    "n \<notin> set NS" "n' \<notin> set NS" "n \<noteq> n'" "plain f" "plain g" "fd_id (field_of f) \<notin> {None, Some 0}" "fd_id (field_of g) \<notin> {None, Some 0}" "known f" "known g"
  shows "building_ok s0 (NS @ [n, n']) {''climate''} PH MH (add_field g True (set_component k' pl' ts' (add_field f True (set_component k pl ts b))))"
    "building_ok s0 (NS @ [n, n']) {''climate''} PH MH (add_field g True (add_field f True (set_component k' pl' ts' (set_component k pl ts b))))"
proof -
  have "building_ok s0 ((NS @ [n]) @ [n']) (insert k' (insert k {''climate''})) PH MH
      (add_field g True (set_component k' pl' ts' (add_field f True (set_component k pl ts b))))"
    by (intro building_add building_component assms(1)) (use assms in auto)
  then show "building_ok s0 (NS @ [n, n']) {''climate''} PH MH (add_field g True (set_component k' pl' ts' (add_field f True (set_component k pl ts b))))"
    using building_drop [where K' = "{''climate''}"] by fastforce
  have "building_ok s0 ((NS @ [n]) @ [n']) (insert k' (insert k {''climate''})) PH MH
      (add_field g True (add_field f True (set_component k' pl' ts' (set_component k pl ts b))))"
    by (intro building_add building_component assms(1)) (use assms in auto)
  then show "building_ok s0 (NS @ [n, n']) {''climate''} PH MH (add_field g True (add_field f True (set_component k' pl' ts' (set_component k pl ts b))))"
    using building_drop [where K' = "{''climate''}"] by fastforce
qed

lemma building_one:
  assumes "building_ok s0 NS {''climate''} PH MH b" "fd_comp (field_of f) = k" "n = name_of f" "n \<notin> set NS" "plain f"
    "fd_id (field_of f) \<notin> {None, Some 0}" "known f"
  shows "building_ok s0 (NS @ [n]) {''climate''} PH MH (add_field f True (set_component k pl ts b))"
proof -
  have "building_ok s0 (NS @ [n]) (insert k {''climate''}) PH MH (add_field f True (set_component k pl ts b))"
    by (intro building_add building_component assms(1)) (use assms in auto)
  then show ?thesis using building_drop [where K' = "{''climate''}"] by fastforce
qed

lemma building_cond:
  assumes "building_ok s0 NS K PH MH b" "building_ok s0 (NS @ NS') K (PH @ PH') (MH @ MH') (g b)"
  shows "building_ok s0 (NS @ NS') K (PH @ PH') (MH @ MH') (only_if cond g b)"
  using building_weaken [OF assms(1) subset_refl] assms(2) by (simp add: only_if_def)

lemma building_action:
  assumes "building_ok s0 NS K PH MH b"
  shows "building_ok s0 NS K (PH @ [ActionHook]) (MH @ [ActionHook]) (mode_hook ActionHook (power_hook ActionHook b))"
proof -
  from assms obtain s config L where b: "b = (s, Inr config)" "core s = core s0" "K \<subseteq> fst ` set (components config)"
    "subseq (map name_of L) NS" "registered L s" "subseq (powerChangeHooks s) PH" "subseq (modeChangeHooks s) MH"
    by (rule building_okE)
  have "registered L (s\<lparr>powerChangeHooks := powerChangeHooks s @ [h], modeChangeHooks := m\<rparr>)" for h m
    using b(5) by (auto simp: registered_def)
  then show ?thesis
    unfolding building_ok_def b(1) mode_hook_def power_hook_def with_state_def
    using b subseq_snoc [OF b(6), of ActionHook] subseq_snoc [OF b(7), of ActionHook] by (auto simp: core_def intro!: exI [of _ L])
qed

lemma control_fields_ok:
  assumes "building_ok s0 READ_NAMES {''climate''} [] [] b"
  shows "building_ok s0 (READ_NAMES @ [''airclean-'', ''sound-'', ''temperature_step-'', ''display-'', ''jet-'', ''ai_dry_strength-'', ''sleeptimer-'',
      ''starttimer-'', ''stoptimer-'', ''energysave-'', ''autodry-'', ''autodryremain-'', ''climate-action'']) {''climate''}
    [TogglePower AirClean, JetPower, TogglePower EnergySave, ActionHook] [JetMode, ToggleMode EnergySave, ActionHook] (control_fields b)"
proof -
  define s where "s = fst b"
  define b1 where "b1 = only_if (tag_has 0x2cc 1 s) (addModeDependentConfigSwitchField AirClean) b"
  define b2 where "b2 = only_if (isWinf s) (\<lambda>b. add_field TemperatureStep True (set_component ''temperature_step'' ''select'' []
           (add_field Sound True (set_component ''sound'' ''switch'' [] b)))) b1"
  define b3 where "b3 = add_field Display True (set_component ''display'' ''switch'' [] b2)"
  define b4 where "b4 = only_if (tag_has 0x2cd 1 s \<or> tag_has 0x2cd 2 s) (addJetField (tag_has 0x2cd 1 s) (tag_has 0x2cd 2 s)) b3"
  define b5 where "b5 = only_if (isWinf s) (\<lambda>b. add_field AiDry True (set_component ''ai_dry_strength'' ''select'' [] b)) b4"
  define b6 where "b6 = (if isWinf s then addTimerField 0x21a ''sleeptimer'' True (Some ''sleep_time'') b5
              else only_if (tag_has 0x2d3 1 s) (addTimerField 0x21a ''sleeptimer'' False (Some ''sleep_time'')) b5)"
  define b7 where "b7 = only_if (tag_has 0x2d3 4 s) (\<lambda>b. addTimerField 0x21b ''stoptimer'' False (Some ''stop_time'')
           (addTimerField 0x21c ''starttimer'' False (Some ''start_time'') b)) b6"
  define b8 where "b8 = only_if (tag_has 0x2cc 2 s) (addModeDependentConfigSwitchField EnergySave) b7"
  define b9 where "b9 = only_if (tag_has 0x2cc 4 s) (\<lambda>b. add_field AutoDryRemain True (add_field AutoDry True
           (set_component ''autodryremain'' ''sensor'' [] (set_component ''autodry'' ''binary_sensor'' [] b)))) b8"
  define b10 where "b10 = (case action_tag s of Some t \<Rightarrow> add_field (RunningAction t) False b9 | None \<Rightarrow> b9)"
  have names: "name_of (Toggle AirClean) = ''airclean-''" "name_of Sound = ''sound-''" "name_of TemperatureStep = ''temperature_step-''"
    "name_of Display = ''display-''" "name_of (Jet x y) = ''jet-''" "name_of AiDry = ''ai_dry_strength-''" "name_of (Toggle EnergySave) = ''energysave-''"
    "name_of AutoDry = ''autodry-''" "name_of AutoDryRemain = ''autodryremain-''" "name_of (RunningAction t) = ''climate-action''" for x y t
    by (simp_all add: field_facts)
  have n1: "building_ok s0 (READ_NAMES @ [''airclean-'']) {''climate''} ([] @ [TogglePower AirClean]) ([] @ []) b1"
    unfolding b1_def using building_toggle [OF assms, of "''airclean-''" AirClean] not_read names by (intro building_cond [OF assms]) simp
  then have n1: "building_ok s0 (READ_NAMES @ [''airclean-'']) {''climate''} [TogglePower AirClean] [] b1" by simp
  have n2: "building_ok s0 ((READ_NAMES @ [''airclean-'']) @ [''sound-'', ''temperature_step-'']) {''climate''} ([TogglePower AirClean] @ []) ([] @ []) b2"
    unfolding b2_def
    using building_two(1) [OF n1, of Sound "''sound''" TemperatureStep "''temperature_step''"] not_read names
    by (intro building_cond [OF n1]) (simp add: field_facts)
  have n3: "building_ok s0 ((READ_NAMES @ [''airclean-'', ''sound-'', ''temperature_step-'']) @ [''display-'']) {''climate''} [TogglePower AirClean] [] b3"
    unfolding b3_def using n2 not_read names by (intro building_one) (simp_all add: field_facts)
  define N3 where "N3 = READ_NAMES @ [''airclean-'', ''sound-'', ''temperature_step-'', ''display-'']"
  have n3: "building_ok s0 N3 {''climate''} [TogglePower AirClean] [] b3" using n3 by (simp add: N3_def)
  have n4: "building_ok s0 (N3 @ [''jet-'']) {''climate''} ([TogglePower AirClean] @ [JetPower]) ([] @ [JetMode]) b4"
    unfolding b4_def using building_jet [OF n3, of "''jet-''"] not_read names by (intro building_cond [OF n3]) (simp add: N3_def)
  have n5: "building_ok s0 ((N3 @ [''jet-'']) @ [''ai_dry_strength-'']) {''climate''} (([TogglePower AirClean] @ [JetPower]) @ []) (([] @ [JetMode]) @ []) b5"
    unfolding b5_def using building_one [OF n4, of AiDry "''ai_dry_strength''" "''ai_dry_strength-''"] not_read names
    by (intro building_cond [OF n4]) (simp add: field_facts N3_def)
  define N5 where "N5 = N3 @ [''jet-'', ''ai_dry_strength-'']"
  have n5: "building_ok s0 N5 {''climate''} [TogglePower AirClean, JetPower] [JetMode] b5" using n5 by (simp add: N5_def)
  have t5: "building_ok s0 (N5 @ [''sleeptimer-'']) {''climate''} [TogglePower AirClean, JetPower] [JetMode] (addTimerField 0x21a ''sleeptimer'' q (Some ''sleep_time'') b5)" for q
    using not_read by (intro building_timer [OF n5]) (simp_all add: N5_def N3_def)
  have n6: "building_ok s0 (N5 @ [''sleeptimer-'']) {''climate''} [TogglePower AirClean, JetPower] [JetMode] b6"
    using t5 building_cond [OF n5, of "[''sleeptimer-'']" "[]" "[]" "addTimerField 0x21a ''sleeptimer'' False (Some ''sleep_time'')"] by (simp add: b6_def)
  have "building_ok s0 (((N5 @ [''sleeptimer-'']) @ [''starttimer-'']) @ [''stoptimer-'']) {''climate''} [TogglePower AirClean, JetPower] [JetMode]
      (addTimerField 0x21b ''stoptimer'' False (Some ''stop_time'') (addTimerField 0x21c ''starttimer'' False (Some ''start_time'') b6))"
    using not_read by (intro building_timer n6) (simp_all add: N5_def N3_def)
  then have n7: "building_ok s0 ((N5 @ [''sleeptimer-'']) @ [''starttimer-'', ''stoptimer-'']) {''climate''} ([TogglePower AirClean, JetPower] @ []) ([JetMode] @ []) b7"
    unfolding b7_def by (intro building_cond [OF n6]) simp
  define N7 where "N7 = N5 @ [''sleeptimer-'', ''starttimer-'', ''stoptimer-'']"
  have n7: "building_ok s0 N7 {''climate''} [TogglePower AirClean, JetPower] [JetMode] b7" using n7 by (simp add: N7_def)
  have n8: "building_ok s0 (N7 @ [''energysave-'']) {''climate''} ([TogglePower AirClean, JetPower] @ [TogglePower EnergySave]) ([JetMode] @ [ToggleMode EnergySave]) b8"
    unfolding b8_def using building_toggle [OF n7, of "''energysave-''" EnergySave] not_read names
    by (intro building_cond [OF n7]) (simp add: N7_def N5_def N3_def)
  have n9: "building_ok s0 ((N7 @ [''energysave-'']) @ [''autodry-'', ''autodryremain-'']) {''climate''}
      (([TogglePower AirClean, JetPower] @ [TogglePower EnergySave]) @ []) (([JetMode] @ [ToggleMode EnergySave]) @ []) b9"
    unfolding b9_def using building_two(2) [OF n8, of AutoDry "''autodry''" AutoDryRemain "''autodryremain''"] not_read names
    by (intro building_cond [OF n8]) (simp add: field_facts N7_def N5_def N3_def)
  define N9 where "N9 = N7 @ [''energysave-'', ''autodry-'', ''autodryremain-'']"
  have n9: "building_ok s0 N9 {''climate''} [TogglePower AirClean, JetPower, TogglePower EnergySave] [JetMode, ToggleMode EnergySave] b9"
    using n9 by (simp add: N9_def)
  have "t \<noteq> 0" if "action_tag s = Some t" for t using that by (auto simp: action_tag_def split: if_splits)
  then have "building_ok s0 (N9 @ [''climate-action'']) {''climate''} [TogglePower AirClean, JetPower, TogglePower EnergySave] [JetMode, ToggleMode EnergySave] b10"
    using building_add [OF n9, of "RunningAction t" False "''climate-action''" for t] building_weaken [OF n9 subset_refl, of "[''climate-action'']" "[]" "[]"] not_read
    by (auto simp: b10_def field_facts N9_def N7_def N5_def N3_def split: option.split)
  from building_action [OF this] show ?thesis
    unfolding control_fields_def Let_def s_def [symmetric] b1_def [symmetric] b2_def [symmetric] b3_def [symmetric] b4_def [symmetric]
      b5_def [symmetric] b6_def [symmetric] b7_def [symmetric] b8_def [symmetric] b9_def [symmetric] b10_def [symmetric]
    by (simp add: N9_def N7_def N5_def N3_def)
qed

lemma building_components:
  assumes "building_ok s0 NS K PH MH b"
  shows "building_ok s0 NS K PH MH (foldl (\<lambda>b (key, platform, ts). set_component key platform ts b) b xs)"
  using assms
proof (induction xs arbitrary: b)
  case (Cons x xs)
  obtain key platform ts where x: "x = (key, platform, ts)" by (cases x) auto
  have "building_ok s0 NS K PH MH (set_component key platform ts b)"
    using building_drop [OF building_component [OF Cons.prems]] by auto
  from Cons.IH [OF this] show ?case by (simp add: x)
qed simp

lemma filter_fields_ok:
  assumes "building_ok s0 NS K PH MH b"
  shows "building_ok s0 NS K PH MH (filter_fields b)"
proof -
  have "building_ok s0 NS K PH MH (with_state (\<lambda>s. s\<lparr>fields_ha := (fields_ha s)(''filterreset'' \<mapsto> FilterReset)\<rparr>) b)"
    if "building_ok s0 NS K PH MH b" for b
  proof -
    from that obtain s config L where b: "b = (s, Inr config)" "core s = core s0" "K \<subseteq> fst ` set (components config)"
      "subseq (map name_of L) NS" "registered L s" "subseq (powerChangeHooks s) PH" "subseq (modeChangeHooks s) MH"
      by (rule building_okE)
    have "registered L (s\<lparr>fields_ha := (fields_ha s)(''filterreset'' \<mapsto> FilterReset)\<rparr>)"
      using b(5) name_filterreset by (auto simp: registered_def)
    then show ?thesis using b by (auto simp: building_ok_def with_state_def core_def intro!: exI [of _ L])
  qed
  note r = this [OF building_components [OF assms]]
  show ?thesis unfolding filter_fields_def only_if_def by (cases "filterLifeTime (fst b) \<noteq> 0") (simp_all only: if_True if_False not_False_eq_True not_True_eq_False r assms)
qed

lemma energy_fields_ok:
  assumes "building_ok s0 NS {''climate''} PH MH b" "''energy_current-'' \<notin> set NS"
  shows "building_ok s0 (NS @ [''energy_current-'']) {''climate''} PH MH (energy_fields b)"
proof -
  define b1 where "b1 = set_component ''energy_current'' ''sensor'' [(''state_topic'', ''$this/energy_current'')] b"
  have 1: "building_ok s0 NS {''energy_current'', ''climate''} PH MH b1" unfolding b1_def by (rule building_component [OF assms(1)])
  define b2 where "b2 = (case outdoor_primary (fst b) of
                  Some True \<Rightarrow> foldl (\<lambda>b (key, platform). set_component key platform [(''state_topic'', ''$this/'' @ key)] b) b1
                    [(''outdoor_power'', ''sensor''), (''outdoor_compressor'', ''binary_sensor''), (''outdoor_energy_total'', ''sensor'')]
                | Some False \<Rightarrow> b1
                | None \<Rightarrow> set_component ''energy_total'' ''sensor'' [(''state_topic'', ''$this/energy_total'')] b1)"
  have c: "building_ok s0 NS {''energy_current'', ''climate''} PH MH (set_component k p ts b)"
    if "building_ok s0 NS {''energy_current'', ''climate''} PH MH b" for k p ts b
    using building_drop [OF building_component [OF that]] by auto
  have 2: "building_ok s0 NS {''energy_current'', ''climate''} PH MH b2"
    by (simp add: b2_def c 1 split: option.split bool.split)
  have "building_ok s0 (NS @ [''energy_current-'']) {''energy_current'', ''climate''} PH MH (with_state (log_out x) (add_field EnergyCurrent True b2))" if "meek x" for x
    by (intro building_log that building_add [OF 2]) (use assms(2) in \<open>simp_all add: field_facts\<close>)
  then have "building_ok s0 (NS @ [''energy_current-'']) {''climate''} PH MH (with_state (log_out x) (add_field EnergyCurrent True b2))" if "meek x" for x
    by (rule building_drop) (use that in auto)
  then show ?thesis
    using building_weaken [OF assms(1) subset_refl, of "[''energy_current-'']" "[]" "[]"]
    unfolding energy_fields_def Let_def only_if_def b1_def [symmetric] b2_def [symmetric] by simp
qed

definition POWER_HOOKS :: "hook list" where "POWER_HOOKS = [TogglePower AirClean, JetPower, TogglePower EnergySave, ActionHook]"
definition MODE_HOOKS :: "hook list" where "MODE_HOOKS = [JetMode, ToggleMode EnergySave, ActionHook]"

definition configured :: "rac \<Rightarrow> building" where
  "configured s = energy_fields (filter_fields (control_fields (sensor_fields (basic_fields (s, Inr (initial_config s))))))"

definition unconfigured :: "rac \<Rightarrow> bool" where
  "unconfigured s \<longleftrightarrow> fields_id s = (\<lambda>_. []) \<and> fields_ha s = Map.empty \<and> powerChangeHooks s = [] \<and> modeChangeHooks s = []"

text \<open>Once filed, a field stays; so the power's field is among the registered ones.\<close>

definition filed :: "rac_field \<Rightarrow> building \<Rightarrow> bool" where
  "filed g b \<longleftrightarrow> g \<in> set (fields_id (fst b) (the (fd_id (field_of g))))"

lemma filed_add: "filed g b \<Longrightarrow> filed g (add_field f x b)"
  by (auto simp: filed_def add_field_def push_new_def split: prod.splits sum.splits option.splits)

lemma filed_simps:
  "filed g (set_component k p ts b) = filed g b" "filed g (with_config cf b) = filed g b" "filed g (power_hook h b) = filed g b" "filed g (mode_hook h b) = filed g b"
  "filed g (with_state (log_out x) b) = filed g b" "filed g (with_state (\<lambda>s. s\<lparr>fields_ha := fs s\<rparr>) b) = filed g b"
  by (auto simp: filed_def set_component_def with_config_def power_hook_def mode_hook_def with_state_def log_out_def split: prod.splits sum.splits)

lemma filed_more:
  "filed g b \<Longrightarrow> filed g (addModeDependentConfigSwitchField t b)" "filed g b \<Longrightarrow> filed g (addJetField x y b)"
  "filed g b \<Longrightarrow> filed g (addOptionalSensorField ids name r b)" "filed g b \<Longrightarrow> filed g (addTimerField i name q cd b)"
  by (simp_all add: addModeDependentConfigSwitchField_def addJetField_def addOptionalSensorField_def addTimerField_def only_if_def filed_simps filed_add
      split: option.split)

lemma filed_basic:
  assumes "building_ok s0 [] {''climate''} [] [] b"
  shows "filed Power (basic_fields b)"
proof -
  have "building_ok s0 ([] @ [''climate-current_temperature'']) {''climate''} [] [] (add_field CurrentTemperature True b)"
    by (intro building_add assms) (simp_all add: field_facts)
  then obtain s config where "add_field CurrentTemperature True b = (s, Inr config)" by (rule building_okE)
  then have "filed Power (add_field Power True (add_field CurrentTemperature True b))"
    by (simp add: filed_def add_field_def push_new_def field_of_def fdef_def split: sum.split)
  then show ?thesis by (simp add: basic_fields_def Let_def only_if_def filed_add filed_simps)
qed

lemma filed_fold_sensors: "filed g b \<Longrightarrow> filed g (foldl (\<lambda>b (ids, name, r). addOptionalSensorField ids name r b) b xs)"
proof (induction xs arbitrary: b)
  case (Cons x xs)
  obtain ids name r where "x = (ids, name, r)" by (cases x)
  then show ?case using Cons.IH [OF filed_more(3) [OF Cons.prems]] by simp
qed simp

lemma filed_end: "filed g b \<Longrightarrow> filed g (energy_fields (filter_fields b))"
  by (simp add: energy_fields_def filter_fields_def Let_def only_if_def filed_simps filed_add split: option.split bool.split)

lemma filed_rest: "filed g b \<Longrightarrow> filed g (energy_fields (filter_fields (control_fields (sensor_fields b))))"
proof (rule filed_end)
  assume "filed g b"
  then have "filed g (sensor_fields b)"
    unfolding sensor_fields_def Let_def by (intro filed_more(3)) (simp only: filed_add filed_simps filed_fold_sensors split: if_split, simp)
  then show "filed g (control_fields (sensor_fields b))"
    by (simp add: control_fields_def Let_def only_if_def filed_simps filed_add filed_more split: option.split)
qed

lemma configured_ok:
  assumes "unconfigured s"
  shows "building_ok s ALL_NAMES {''climate''} POWER_HOOKS MODE_HOOKS (configured s)" "filed Power (configured s)"
proof -
  have "building_ok s [] {''climate''} [] [] (s, Inr (initial_config s))"
    using assms by (auto simp: building_ok_def initial_config_def registered_def unconfigured_def)
  then show "filed Power (configured s)" using filed_rest [OF filed_basic] by (simp add: configured_def)
  have "building_ok s [] {''climate''} [] [] (s, Inr (initial_config s))"
    using assms by (auto simp: building_ok_def initial_config_def registered_def unconfigured_def)
  from sensor_fields_ok [OF basic_fields_ok [OF this]] have "building_ok s READ_NAMES {''climate''} [] [] (sensor_fields (basic_fields (s, Inr (initial_config s))))"
    by (simp add: READ_NAMES_def)
  from energy_fields_ok [OF filter_fields_ok [OF control_fields_ok [OF this]]] not_read show "building_ok s ALL_NAMES {''climate''} POWER_HOOKS MODE_HOOKS (configured s)"
    by (simp add: configured_def ALL_NAMES_def READ_NAMES_def POWER_HOOKS_def MODE_HOOKS_def)
qed

lemma initMakeSetConfig_ok:
  assumes "unconfigured s"
  obtains t config L where "configured s = (t, Inr config)" "core t = core s" "registered L t" "subseq (map name_of L) ALL_NAMES"
    "subseq (powerChangeHooks t) POWER_HOOKS" "subseq (modeChangeHooks t) MODE_HOOKS" "''climate'' \<in> fst ` set (components config)"
    "Power \<in> set (fields_id t POWER)"
    "initMakeSetConfig c s = (let s = setConfig config (retired t) t;
         s = (if filterLifeTime s \<noteq> 0 then (publishFilterData s)\<lparr>filterQueryTimer := True\<rparr> else s) in lift (query (now_ms c)) s)"
proof -
  from configured_ok(1) [OF assms] obtain t config L where t: "configured s = (t, Inr config)" "core t = core s" "registered L t"
    "subseq (map name_of L) ALL_NAMES" "subseq (powerChangeHooks t) POWER_HOOKS" "subseq (modeChangeHooks t) MODE_HOOKS"
    "''climate'' \<in> fst ` set (components config)" by (rule building_okE) auto
  have "initMakeSetConfig c s = (let s = setConfig config (retired t) t;
         s = (if filterLifeTime s \<noteq> 0 then (publishFilterData s)\<lparr>filterQueryTimer := True\<rparr> else s) in lift (query (now_ms c)) s)"
    unfolding initMakeSetConfig_def configured_def [symmetric] t(1) by simp
  moreover have "Power \<in> set (fields_id t POWER)" using configured_ok(2) [OF assms] by (simp add: filed_def t(1) field_of_def fdef_def)
  ultimately show thesis using t by (intro that) auto
qed

subsection \<open>The invariant\<close>

text \<open>
  The start-up goes one way: values heard, the mask's timer, perhaps the filter's probe, the configuration.
  Before it there are no fields; afterwards the tables hold the registered ones.
\<close>

definition rac_ok :: "rac \<Rightarrow> bool" where
  "rac_ok s \<longleftrightarrow>
    (if rac_config_of s = None then unconfigured s \<and> \<not> (tlvBlacklistDisableTimer s \<and> filterInitialQueryTimeout s)
     else \<not> tlvBlacklistDisableTimer s \<and> \<not> filterInitialQueryTimeout s \<and>
       (\<exists>L. registered L s \<and> subseq (map name_of L) ALL_NAMES) \<and>
       subseq (powerChangeHooks s) POWER_HOOKS \<and> subseq (modeChangeHooks s) MODE_HOOKS \<and> Power \<in> set (fields_id s POWER)) \<and>
    (initialValuesReceived s \<or> rac_config_of s = None \<and> \<not> tlvBlacklistDisableTimer s \<and> \<not> filterInitialQueryTimeout s)"

lemma rac_ok_cong:
  assumes "static t = static s" "probes t = probes s"
  shows "rac_ok t \<longleftrightarrow> rac_ok s"
  using assms by (simp add: rac_ok_def unconfigured_def registered_def static_def probes_def)

lemma rac_ok_probes:
  assumes "rac_ok s" "static t = static s" "tlvBlacklistDisableTimer t \<longrightarrow> tlvBlacklistDisableTimer s"
    "filterInitialQueryTimeout t \<longrightarrow> filterInitialQueryTimeout s"
  shows "rac_ok t"
  using assms by (auto simp: rac_ok_def unconfigured_def registered_def static_def)

lemma probes_set [simp]:
  "static (s\<lparr>filterInitialQueryTimeout := b\<rparr>) = static s" "static (s\<lparr>tlvBlacklistDisableTimer := b\<rparr>) = static s"
  "static (s\<lparr>filterQueryTimer := b\<rparr>) = static s"
  "static (s\<lparr>filterUsedTime := n, filterLifeTime := n', filterChangedDate := n''\<rparr>) = static s"
  by (simp_all add: static_def)

lemma calm_filter_data [simp]: "static (publishFilterData s) = static s" "probes (publishFilterData s) = probes s"
  by (simp_all add: publishFilterData_def Let_def calm_simps)

lemma core_eqD:
  assumes "core t = core s"
  shows "initialValuesReceived t = initialValuesReceived s" "tlvBlacklistDisableTimer t = tlvBlacklistDisableTimer s"
    "filterInitialQueryTimeout t = filterInitialQueryTimeout s" "base t = base s" "modelId t = modelId s" "powerStatePrev t = powerStatePrev s"
    "modePrev t = modePrev s" "outdoor_primary t = outdoor_primary s" "filterLifeTime t = filterLifeTime s" "powerTransitionInFrame t = powerTransitionInFrame s"
    "filter (\<lambda>x. \<not> meek x) (rac_log t) = filter (\<lambda>x. \<not> meek x) (rac_log s)"
proof -
  have "initialValuesReceived (core s) = initialValuesReceived s" "tlvBlacklistDisableTimer (core s) = tlvBlacklistDisableTimer s"
    "filterInitialQueryTimeout (core s) = filterInitialQueryTimeout s" "base (core s) = base s" "modelId (core s) = modelId s"
    "powerStatePrev (core s) = powerStatePrev s" "modePrev (core s) = modePrev s" "outdoor_primary (core s) = outdoor_primary s"
    "filterLifeTime (core s) = filterLifeTime s" "powerTransitionInFrame (core s) = powerTransitionInFrame s"
    "rac_log (core s) = filter (\<lambda>x. \<not> meek x) (rac_log s)" for s
    by (simp_all add: core_def)
  with assms show "initialValuesReceived t = initialValuesReceived s" "tlvBlacklistDisableTimer t = tlvBlacklistDisableTimer s"
    "filterInitialQueryTimeout t = filterInitialQueryTimeout s" "base t = base s" "modelId t = modelId s" "powerStatePrev t = powerStatePrev s"
    "modePrev t = modePrev s" "outdoor_primary t = outdoor_primary s" "filterLifeTime t = filterLifeTime s" "powerTransitionInFrame t = powerTransitionInFrame s"
    "filter (\<lambda>x. \<not> meek x) (rac_log t) = filter (\<lambda>x. \<not> meek x) (rac_log s)"
    by metis+
qed

lemma ok_configure:
  assumes "rac_ok s" "rac_config_of s = None" "initialValuesReceived s" "\<not> tlvBlacklistDisableTimer s" "\<not> filterInitialQueryTimeout s"
  shows "rac_ok (initMakeSetConfig c s)" "rac_config_of (initMakeSetConfig c s) \<noteq> None"
proof -
  have "unconfigured s" using assms(1,2) by (simp add: rac_ok_def)
  then obtain t config L where t: "core t = core s" "registered L t" "subseq (map name_of L) ALL_NAMES" "subseq (powerChangeHooks t) POWER_HOOKS"
    "subseq (modeChangeHooks t) MODE_HOOKS" "Power \<in> set (fields_id t POWER)" "initMakeSetConfig c s = (let s = setConfig config (retired t) t;
         s = (if filterLifeTime s \<noteq> 0 then (publishFilterData s)\<lparr>filterQueryTimer := True\<rparr> else s) in lift (query (now_ms c)) s)"
    by (rule initMakeSetConfig_ok)
  have e: "initialValuesReceived t" "\<not> tlvBlacklistDisableTimer t" "\<not> filterInitialQueryTimeout t"
    using core_eqD(1-3) [OF t(1)] assms(3-5) by simp_all
  define u where "u = setConfig config (retired t) t"
  have "rac_ok u \<and> rac_config_of u \<noteq> None"
    using t(2-6) e by (auto simp: u_def setConfig_def publishConfig_def log_out_def rac_ok_def registered_def)
  moreover have "static ((publishFilterData u)\<lparr>filterQueryTimer := True\<rparr>) = static u" by simp
  moreover have "tlvBlacklistDisableTimer (publishFilterData u) = tlvBlacklistDisableTimer u" "filterInitialQueryTimeout (publishFilterData u) = filterInitialQueryTimeout u"
    using calm_filter_data(2) [of u] by (simp_all add: probes_def)
  ultimately have "rac_ok (if filterLifeTime u \<noteq> 0 then (publishFilterData u)\<lparr>filterQueryTimer := True\<rparr> else u) \<and>
      rac_config_of (if filterLifeTime u \<noteq> 0 then (publishFilterData u)\<lparr>filterQueryTimer := True\<rparr> else u) \<noteq> None"
    using rac_ok_probes [of u "(publishFilterData u)\<lparr>filterQueryTimer := True\<rparr>"] staticD(8) [of "(publishFilterData u)\<lparr>filterQueryTimer := True\<rparr>" u] by auto
  then show "rac_ok (initMakeSetConfig c s)" "rac_config_of (initMakeSetConfig c s) \<noteq> None"
    unfolding t(7) Let_def u_def [symmetric] using rac_ok_cong [OF calm_simps(3,4)] staticD(8) [OF calm_simps(3)] by metis+
qed

subsection \<open>How the log grows\<close>

definition rude :: "rac \<Rightarrow> rac_out list" where
  "rude s = filter (\<lambda>x. \<not> meek x) (rac_log s)"

lemma writes_rude: "writes s = filter is_write (rude s)"
  by (auto simp: writes_def rude_def meek_def intro!: filter_cong)

definition grows :: "(rac_out \<Rightarrow> bool) \<Rightarrow> rac \<Rightarrow> rac \<Rightarrow> bool" where
  "grows P s t \<longleftrightarrow> (\<exists>xs. rac_log t = rac_log s @ xs \<and> list_all P xs)"

lemma grows_refl [simp]: "grows P s s"
  by (simp add: grows_def)

lemma grown_trans: "grows P s t \<Longrightarrow> grows P t u \<Longrightarrow> grows P s u"
  by (auto simp: grows_def)

lemma grows_mono: "grows P s t \<Longrightarrow> (\<And>x. P x \<Longrightarrow> Q x) \<Longrightarrow> grows Q s t"
  by (auto simp: grows_def list_all_iff)

lemma grown_same: "rac_log t = rac_log s \<Longrightarrow> grows P s t"
  by (simp add: grows_def)

lemma grows_rude: "grows meek s t \<Longrightarrow> rude t = rude s"
  by (auto simp: grows_def rude_def list_all_iff)

lemma grows_writes: "grows meek s t \<Longrightarrow> writes t = writes s"
  by (auto simp: grows_def writes_def meek_def list_all_iff filter_empty_conv)

lemma lift_log: "rac_log (lift f s) = rac_log s @ map Base (outputs (f ((base s)\<lparr>outputs := []\<rparr>)))"
  by (simp add: lift_def Let_def)

text \<open>What reading depends on, and what of it only frames and writes change.\<close>

definition view :: "rac \<Rightarrow> (nat \<Rightarrow> nat option) \<times> bool option \<times> string option \<times> bool" where
  "view s = (raw_clip_state (base s), powerStatePrev s, modePrev s, powerTransitionInFrame s)"

definition mild :: "(rac \<Rightarrow> rac) \<Rightarrow> bool" where
  "mild g \<longleftrightarrow> (\<forall>s. grows meek s (g s) \<and> view (g s) = view s)"

lemma mild_comp: "mild g \<Longrightarrow> mild h \<Longrightarrow> mild (\<lambda>s. g (h s))"
  unfolding mild_def by (metis grown_trans)

lemma grows_after: "mild g \<Longrightarrow> grows meek s t \<Longrightarrow> grows meek s (g t)"
  unfolding mild_def by (metis grown_trans)

lemma mild_fold: "(\<And>x. mild (g x)) \<Longrightarrow> mild (\<lambda>s. foldl (\<lambda>s x. g x s) s xs)"
proof (induction xs)
  case Nil
  then show ?case by (simp add: mild_def)
next
  case (Cons x xs)
  then show ?case using mild_comp [of "\<lambda>s. foldl (\<lambda>s x. g x s) s xs" "g x"] by simp
qed

lemma mildD: "mild g \<Longrightarrow> grows meek s (g s)" "mild g \<Longrightarrow> view (g s) = view s" "mild g \<Longrightarrow> rude (g s) = rude s"
  by (auto simp: mild_def grows_rude)

lemma mild_log: "meek x \<Longrightarrow> mild (log_out x)"
  by (simp add: mild_def log_out_def grows_def view_def)

lemma mild_property: "mild (publish_property p v)"
  using mild_log by (simp add: publish_property_def [abs_def])

lemma mild_lift:
  assumes "\<And>d. raw_clip_state (f d) = raw_clip_state d" "\<And>d. list_all (\<lambda>x. meek (Base x)) (outputs (f (d\<lparr>outputs := []\<rparr>)))"
  shows "mild (lift f)"
  using assms by (auto simp: mild_def grows_def lift_log view_def) (auto simp: lift_def Let_def list_all_iff)

lemma mild_lifts:
  "mild (lift (query n))" "mild (lift (setQueryInterval n i))" "mild (lift heard)" "mild (lift (queryCaps n))" "mild (lift (start n))"
  "mild (lift stopTimers)" "mild (lift (sendPrivCommand a b x))"
  "mild (lift (\<lambda>d. query n (askedForRefresh d)))" "mild (lift (\<lambda>d. query n (d\<lparr>write_refresh_timeout := False\<rparr>)))"
  "mild (lift (\<lambda>d. heard (d\<lparr>lastReplySequence := q\<rparr>)))" "mild (lift (\<lambda>d. d\<lparr>write_refresh_timeout := False\<rparr>))"
  "mild (lift (\<lambda>d. (query n (d\<lparr>query_caps_timeout := False\<rparr>))\<lparr>query_values_timeout := True\<rparr>))"
  "mild (lift (\<lambda>d. d\<lparr>query_values_timeout := False\<rparr>))"
  by (rule mild_lift; simp add: query_def queryCaps_def setQueryInterval_def heard_def start_def stopTimers_def sendPrivCommand_def
      askedForRefresh_def send_def out_def Let_def)+

lemma view_fields [simp]:
  "view (s\<lparr>increasedQueryIntervalTimeout := b\<rparr>) = view s" "view (s\<lparr>jetMode := b\<rparr>) = view s" "view (set_toggled t b s) = view s"
  "view (s\<lparr>rac_config_of := cf\<rparr>) = view s" "view (jet_wish fld val s) = view s" "view (s\<lparr>filterInitialQueryTimeout := b\<rparr>) = view s"
  "view (s\<lparr>tlvBlacklistDisableTimer := b\<rparr>) = view s" "view (s\<lparr>filterQueryTimer := b\<rparr>) = view s" "view (s\<lparr>initialValuesReceived := b\<rparr>) = view s"
  by (simp_all add: view_def set_toggled_def jet_wish_def split: toggle.split rac_field.split)

lemma grows_fields [simp]:
  "grows P s (s\<lparr>increasedQueryIntervalTimeout := b\<rparr>)" "grows P s (s\<lparr>jetMode := b\<rparr>)" "grows P s (set_toggled t b s)"
  "grows P s (s\<lparr>rac_config_of := cf\<rparr>)" "grows P s (jet_wish fld val s)" "grows P s (s\<lparr>filterInitialQueryTimeout := b\<rparr>)"
  "grows P s (s\<lparr>tlvBlacklistDisableTimer := b\<rparr>)" "grows P s (s\<lparr>filterQueryTimer := b\<rparr>)" "grows P s (s\<lparr>initialValuesReceived := b\<rparr>)"
  by (simp_all add: grown_same set_toggled_def jet_wish_def split: toggle.split rac_field.split)

lemma mild_action: "mild (updateClimateAction c)"
proof -
  have "mild (updateQueryInterval c b)" for b
    using mildD [OF mild_lifts(2)] unfolding mild_def updateQueryInterval_def
    by (auto intro: grown_trans [OF grows_fields(1)])
  then show ?thesis
    using mildD(1,2) [OF mild_property] unfolding mild_def updateClimateAction_def
    by (auto simp: Let_def split_def intro: grows_after [OF \<open>\<And>b. mild (updateQueryInterval c b)\<close>] split: option.split)
qed

lemma mild_config: "mild publishConfig" "mild (applyTemperatureStep x)"
proof -
  show p: "mild publishConfig"
    by (auto simp: mild_def publishConfig_def log_out_def grows_def view_def split: option.split)
  show "mild (applyTemperatureStep x)"
    using mildD(1,2) [OF p] unfolding mild_def applyTemperatureStep_def
    by (auto intro: grown_trans [OF grows_fields(4)] split: option.split)
qed

lemma mild_on_read: "mild (\<lambda>s. snd (on_read c f w s))"
  using mildD(1,2) [OF mild_action] mildD(1,2) [OF mild_config(2)] mildD(1,2) [OF mild_log]
  by (auto simp: mild_def on_read_def Let_def split: rac_field.split shown.split rac_value.split)

lemma mild_countdown: "mild (countdown f v)"
  using mildD(1,2) [OF mild_property] by (auto simp: mild_def countdown_def split: rac_field.split option.split)

lemma mild_other: "mild (publish_other c f v)"
  unfolding mild_def
proof
  fix s
  have 1: "grows meek s (countdown f v s)" "view (countdown f v s) = view s" using mildD(1,2) [OF mild_countdown] by simp_all
  have 2: "grows meek s (snd (on_read c f w (countdown f v s)))" "view (snd (on_read c f w (countdown f v s))) = view s" for w
    using grows_after [OF mild_on_read 1(1)] mildD(2) [OF mild_on_read] 1(2) by simp_all
  have 3: "grows meek s (publish_property p w (snd (on_read c f w (countdown f v s))))" "view (publish_property p w (snd (on_read c f w (countdown f v s)))) = view s" for p w
    using grows_after [OF mild_property 2(1)] mildD(2) [OF mild_property] 2(2) by simp_all
  show "grows meek s (publish_other c f v s) \<and> view (publish_other c f v s) = view s"
    using 1 2 3 by (simp add: publish_other_def Let_def split_def split: option.split)
qed

lemma mild_filter: "mild publishFilterData" "mild sendFilterQuery"
proof -
  show "mild sendFilterQuery" using mild_lifts(7) by (simp add: sendFilterQuery_def [abs_def])
  show "mild publishFilterData"
    by (auto simp: mild_def publishFilterData_def publish_property_def log_out_def grows_def view_def Let_def)
qed

lemma rude_fields [simp]:
  "rude (s\<lparr>modePrev := m\<rparr>) = rude s" "rude (s\<lparr>powerStatePrev := q\<rparr>) = rude s" "rude (s\<lparr>powerTransitionInFrame := x\<rparr>) = rude s"
  "rude (set_raw t v s) = rude s" "rude (s\<lparr>filterInitialQueryTimeout := x\<rparr>) = rude s" "rude (s\<lparr>tlvBlacklistDisableTimer := x\<rparr>) = rude s"
  "rude (s\<lparr>filterQueryTimer := x\<rparr>) = rude s" "rude (s\<lparr>initialValuesReceived := x\<rparr>) = rude s" "rude (s\<lparr>increasedQueryIntervalTimeout := x\<rparr>) = rude s"
  "rude (s\<lparr>filterUsedTime := n, filterLifeTime := n', filterChangedDate := n''\<rparr>) = rude s"
  by (simp_all add: rude_def set_raw_def)

lemma raw_fields [simp]:
  "raw k (s\<lparr>modePrev := m\<rparr>) = raw k s" "raw k (s\<lparr>powerStatePrev := q\<rparr>) = raw k s" "raw k (s\<lparr>powerTransitionInFrame := x\<rparr>) = raw k s"
  "raw k (set_raw t v s) = (if k = t then v else raw k s)"
  by (simp_all add: raw_def set_raw_def)

lemma viewD:
  assumes "view s = view t"
  shows "raw k s = raw k t" "powerStatePrev s = powerStatePrev t" "modePrev s = modePrev t" "powerTransitionInFrame s = powerTransitionInFrame t"
  using assms by (simp_all add: view_def raw_def)

subsection \<open>An appliance left alone\<close>

text \<open>
  \<open>at_rest b m s\<close>: all that was heard of the power is \<open>b\<close> and all that was heard of the mode is \<open>m\<close>.
\<close>

definition at_rest :: "bool \<Rightarrow> nat \<Rightarrow> rac \<Rightarrow> bool" where
  "at_rest b m s \<longleftrightarrow> powerStatePrev s \<in> {None, Some b} \<and> (case raw POWER s of None \<Rightarrow> True | Some p \<Rightarrow> (p \<noteq> 0) = b) \<and>
     raw MODE s \<in> {None, Some m} \<and> (\<not> b \<or> modePrev s \<in> {None, invert (modeToRaw (encodingFor (modelId s))) m})"

lemma at_rest_cong: "view t = view s \<Longrightarrow> static t = static s \<Longrightarrow> at_rest b m t \<longleftrightarrow> at_rest b m s"
  using viewD [of t s] staticD(1) [of t s] by (simp add: at_rest_def)

text \<open>A reading that says nothing new leaves everything in place and writes nothing.\<close>

definition keeps :: "bool \<Rightarrow> nat \<Rightarrow> (rac \<Rightarrow> rac) \<Rightarrow> bool" where
  "keeps b m g \<longleftrightarrow> (\<forall>s. at_rest b m s \<longrightarrow> at_rest b m (g s) \<and> rude (g s) = rude s)"

lemma keeps_mild: "mild g \<Longrightarrow> (\<And>s. static (g s) = static s) \<Longrightarrow> keeps b m g"
  using mildD(2,3) at_rest_cong unfolding keeps_def by metis

lemma keeps_comp: "keeps b m g \<Longrightarrow> keeps b m h \<Longrightarrow> keeps b m (\<lambda>s. g (h s))"
  by (simp add: keeps_def)

lemma keeps_fold: "(\<And>x. x \<in> set xs \<Longrightarrow> keeps b m (g x)) \<Longrightarrow> keeps b m (\<lambda>s. foldl (\<lambda>s x. g x s) s xs)"
  by (induction xs) (simp_all add: keeps_def)

lemma keepsD: "keeps b m g \<Longrightarrow> at_rest b m s \<Longrightarrow> at_rest b m (g s)" "keeps b m g \<Longrightarrow> at_rest b m s \<Longrightarrow> rude (g s) = rude s"
  by (simp_all add: keeps_def)

lemma keeps_mode:
  assumes "v \<in> {None, Some m}"
  shows "keeps b m (publish_mode c v)"
  unfolding keeps_def
proof (intro allI impI)
  fix s
  assume r: "at_rest b m s"
  show "at_rest b m (publish_mode c v s) \<and> rude (publish_mode c v s) = rude s"
  proof (cases "shown_mode v s")
    case None
    then show ?thesis using r by (simp add: publish_mode_def)
  next
    case (Some val)
    have val: "b \<Longrightarrow> Some val = invert (modeToRaw (encodingFor (modelId s))) m"
      using Some r assms by (auto simp: shown_mode_def powered_off_def at_rest_def split: if_splits option.splits)
    have "\<not> mode_moved val s" using r val by (auto simp: mode_moved_def at_rest_def split: option.splits)
    then have p: "publish_mode c v s = publish_property (fullName (field_of Mode)) (Shown (Txt val)) (s\<lparr>modePrev := Some val\<rparr>)"
      by (simp add: publish_mode_def Some mode_callback_def)
    have s: "static (s\<lparr>modePrev := Some val\<rparr>) = static s" by (simp add: static_def)
    have "at_rest b m (s\<lparr>modePrev := Some val\<rparr>)" using r val by (auto simp: at_rest_def)
    then show ?thesis
      unfolding p using at_rest_cong [OF mildD(2) [OF mild_property] calm_simps(7)] mildD(3) [OF mild_property] by simp
  qed
qed

lemma keeps_other: "keeps b m (publish_other c f v)"
  by (rule keeps_mild [OF mild_other]) simp

lemma at_rest_set: "at_rest b m s \<Longrightarrow> k \<noteq> POWER \<Longrightarrow> (k = MODE \<Longrightarrow> v \<in> {None, Some m}) \<Longrightarrow> at_rest b m (set_raw k v s)"
  by (auto simp: at_rest_def) (auto simp: set_raw_def)

lemma keeps_process_mode: "keeps b m (process_mode c)"
  unfolding keeps_def
proof (intro allI impI)
  fix s
  assume r: "at_rest b m s"
  define v where "v = raw MODE s"
  have v: "v \<in> {None, Some m}" using r by (simp add: v_def at_rest_def)
  have "keeps b m (if f = Mode then publish_mode c v else (case v of Some n \<Rightarrow> publish_other c f n | None \<Rightarrow> (\<lambda>s. s)))" for f
    using keeps_mode [OF v] keeps_other by (auto simp: keeps_def split: option.split)
  then have "keeps b m (\<lambda>s. foldl (\<lambda>s f. (if f = Mode then publish_mode c v else (case v of Some n \<Rightarrow> publish_other c f n | None \<Rightarrow> (\<lambda>s. s))) s) s fs)" for fs
    by (rule keeps_fold)
  moreover have "(\<lambda>s f. (if f = Mode then publish_mode c v else (case v of Some n \<Rightarrow> publish_other c f n | None \<Rightarrow> (\<lambda>s. s))) s) =
      (\<lambda>s f. if f = Mode then publish_mode c v s else (case v of Some n \<Rightarrow> publish_other c f n s | None \<Rightarrow> s))"
    by (auto simp: fun_eq_iff split: option.split)
  ultimately have k: "keeps b m (\<lambda>s. foldl (\<lambda>s f. if f = Mode then publish_mode c v s else (case v of Some n \<Rightarrow> publish_other c f n s | None \<Rightarrow> s)) s fs)" for fs
    by simp
  have "at_rest b m (set_raw MODE v s)" using r v by (intro at_rest_set) auto
  from keepsD [OF k this] show "at_rest b m (process_mode c s) \<and> rude (process_mode c s) = rude s"
    unfolding process_mode_def Let_def v_def [symmetric] by simp
qed

lemma keeps_power: "keeps b m (power_callback c b)"
  unfolding keeps_def
proof (intro allI impI)
  fix s
  assume r: "at_rest b m s"
  from keepsD [OF keeps_process_mode r] have t: "at_rest b m (process_mode c s)" "rude (process_mode c s) = rude s" .
  then have "power_callback c b s = (process_mode c s)\<lparr>powerStatePrev := Some b\<rparr>"
    by (auto simp: power_callback_def Let_def at_rest_def)
  then show "at_rest b m (power_callback c b s) \<and> rude (power_callback c b s) = rude s"
    using t by (simp add: at_rest_def)
qed

lemma keeps_field:
  assumes "f = Power \<longrightarrow> (v \<noteq> 0) = b" "f = Mode \<longrightarrow> v = m"
  shows "keeps b m (publish_field c f v)"
proof -
  have e: "publish_field c f v = (if f = Mode then publish_mode c (Some v) else if f = Power then power_callback c (v \<noteq> 0) else publish_other c f v)"
    by (rule ext) (simp add: publish_field_def split: rac_field.split)
  show ?thesis using assms keeps_mode [of "Some v" m b c] keeps_power [of b m c] keeps_other by (auto simp: e)
qed

text \<open>A field is filed under its own tag.\<close>

lemma ok_filed:
  assumes "rac_ok s" "f \<in> set (fields_id s k)"
  shows "fd_id (field_of f) = Some k"
  using assms by (auto simp: rac_ok_def unconfigured_def registered_def split: if_splits)

definition says_rest :: "bool \<Rightarrow> nat \<Rightarrow> nat \<times> nat \<Rightarrow> bool" where
  "says_rest b m e \<longleftrightarrow> (fst e = POWER \<longrightarrow> (snd e \<noteq> 0) = b) \<and> (fst e = MODE \<longrightarrow> snd e = m)"

lemma rest_processKeyValue:
  assumes "at_rest b m s" "rac_ok s" "says_rest b m (k, v)"
  shows "at_rest b m (rac_processKeyValue c k v s) \<and> rude (rac_processKeyValue c k v s) = rude s"
proof -
  have r: "at_rest b m (set_raw k (Some v) s)"
    using assms(1,3) by (cases "k = POWER") (auto simp: says_rest_def at_rest_def, auto simp: set_raw_def)
  have "keeps b m (publish_field c f v)" if "f \<in> set (fields_id s k)" for f
    using ok_filed [OF assms(2) that] assms(3) by (intro keeps_field) (auto simp: says_rest_def field_of_def fdef_def)
  then have "keeps b m (\<lambda>s'. foldl (\<lambda>s f. publish_field c f v s) s' (fields_id s k))" by (intro keeps_fold)
  from keepsD [OF this r] show ?thesis by (simp add: rac_processKeyValue_def)
qed

lemma ok_processKeyValue: "rac_ok s \<Longrightarrow> rac_ok (rac_processKeyValue c k v s)"
  using rac_ok_cong [OF calm_processKeyValue] by simp

definition feed :: "clock \<Rightarrow> tag_value list \<Rightarrow> rac \<Rightarrow> rac" where
  "feed c tlvs s = foldl (\<lambda>s (t, v). rac_processKeyValue c t v s) s tlvs"

lemma calm_feed [simp]: "static (feed c tlvs s) = static s" "probes (feed c tlvs s) = probes s"
proof -
  have "static (feed c tlvs s) = static s \<and> probes (feed c tlvs s) = probes s"
    by (induction tlvs arbitrary: s) (auto simp: feed_def)
  then show "static (feed c tlvs s) = static s" "probes (feed c tlvs s) = probes s" by simp_all
qed

lemma ok_feed: "rac_ok s \<Longrightarrow> rac_ok (feed c tlvs s)"
  using rac_ok_cong [OF calm_feed] by simp

lemma rest_feed:
  assumes "at_rest b m s" "rac_ok s" "list_all (says_rest b m) tlvs"
  shows "at_rest b m (feed c tlvs s) \<and> rude (feed c tlvs s) = rude s"
  using assms
proof (induction tlvs arbitrary: s)
  case (Cons e tlvs)
  obtain t v where e: "e = (t, v)" by (cases e) auto
  have "at_rest b m (rac_processKeyValue c t v s) \<and> rude (rac_processKeyValue c t v s) = rude s"
    using rest_processKeyValue Cons.prems by (simp add: e)
  with Cons.IH [of "rac_processKeyValue c t v s"] Cons.prems ok_processKeyValue show ?case by (simp add: feed_def e)
qed (simp add: feed_def)

text \<open>After the tags: the answers to the start-up queries.\<close>

definition after_tags :: "clock \<Rightarrow> tag_value list \<Rightarrow> bool \<Rightarrow> rac \<Rightarrow> rac" where
  "after_tags c tlvs can s =
    (let s = (if query_caps_timeout (base s) \<and> marksCapsResponse tlvs
              then lift (\<lambda>d. (query (now_ms c) (d\<lparr>query_caps_timeout := False\<rparr>))\<lparr>query_values_timeout := True\<rparr>) s
              else s)
     in if can \<and> \<not> query_caps_timeout (base s) \<and> rac_isValuesResponse tlvs
        then valuesReceived (lift (\<lambda>d. d\<lparr>query_values_timeout := False\<rparr>) s) else s)"

lemma base_processTLV_eq: "base_processTLV c tlvs can s = after_tags c tlvs can (feed c tlvs s)"
  unfolding base_processTLV_def after_tags_def feed_def by (simp only: Let_def)

lemma mild_values: "mild valuesReceived"
  by (auto simp: mild_def valuesReceived_def log_out_def grows_def view_def)

lemma mild_after: "mild (after_tags c tlvs can)"
  unfolding mild_def
proof
  fix s
  let ?q = "\<lambda>s. if query_caps_timeout (base s) \<and> marksCapsResponse tlvs
    then lift (\<lambda>d. (query (now_ms c) (d\<lparr>query_caps_timeout := False\<rparr>))\<lparr>query_values_timeout := True\<rparr>) s else s"
  have 1: "mild ?q" using mild_lifts(12) unfolding mild_def by simp
  have 2: "mild (\<lambda>s. valuesReceived (lift (\<lambda>d. d\<lparr>query_values_timeout := False\<rparr>) (?q s)))"
    by (rule mild_comp [OF mild_values mild_comp [OF mild_lifts(13) 1]])
  show "grows meek s (after_tags c tlvs can s) \<and> view (after_tags c tlvs can s) = view s"
    using mildD(1,2) [OF 1, of s] mildD(1,2) [OF 2, of s] unfolding after_tags_def Let_def by simp
qed

lemma ok_values:
  assumes "rac_ok s"
  shows "rac_ok (valuesReceived s)"
  using assms by (auto simp: valuesReceived_def rac_ok_def unconfigured_def registered_def log_out_def split: if_splits)

lemma ok_lift: "rac_ok (lift f s) \<longleftrightarrow> rac_ok s"
  by (rule rac_ok_cong [OF calm_simps(3,4)])

lemma ok_after: "rac_ok s \<Longrightarrow> rac_ok (after_tags c tlvs can s)"
  by (simp add: after_tags_def Let_def ok_values ok_lift)

lemma values_fields [simp]: "modelId (valuesReceived s) = modelId s" "modelId (lift f s) = modelId s"
  "modelId (after_tags c tlvs can s) = modelId s"
  by (simp_all add: valuesReceived_def log_out_def lift_def after_tags_def Let_def)

lemma at_rest_view: "view t = view s \<Longrightarrow> modelId t = modelId s \<Longrightarrow> at_rest b m t \<longleftrightarrow> at_rest b m s"
  using viewD [of t s] by (simp add: at_rest_def)

lemma rest_after: "at_rest b m (after_tags c tlvs can s) \<longleftrightarrow> at_rest b m s" "rude (after_tags c tlvs can s) = rude s"
  by (rule at_rest_view [OF mildD(2) [OF mild_after]], simp) (rule mildD(3) [OF mild_after])

definition prepared :: "tag_value list \<Rightarrow> rac \<Rightarrow> rac" where
  "prepared tlvs s = (if power_transition tlvs s then
       (case find (\<lambda>(t, _). t = MODE) tlvs of Some (_, v) \<Rightarrow> set_raw MODE (Some v) s | None \<Rightarrow> s) else s)
     \<lparr>powerTransitionInFrame := power_transition tlvs s\<rparr>"

lemma rac_processTLV_eq: "rac_processTLV c tlvs can s =
    (after_tags c tlvs can (feed c tlvs (prepared tlvs s)))\<lparr>powerTransitionInFrame := powerTransitionInFrame s\<rparr>"
  by (simp add: rac_processTLV_def Let_def base_processTLV_eq prepared_def)

lemma calm_prepared [simp]: "static (prepared tlvs s) = static s" "probes (prepared tlvs s) = probes s" "rude (prepared tlvs s) = rude s"
  by (simp_all add: prepared_def calm_simps split: option.split prod.split)

lemma ok_flag: "rac_ok (s\<lparr>powerTransitionInFrame := x\<rparr>) \<longleftrightarrow> rac_ok s"
  by (rule rac_ok_cong [OF calm_simps(21,22)])

lemma ok_processTLV: "rac_ok s \<Longrightarrow> rac_ok (rac_processTLV c tlvs can s)"
  unfolding rac_processTLV_eq ok_flag using rac_ok_cong [OF calm_prepared(1,2)] by (intro ok_after ok_feed) simp

lemma rest_processTLV:
  assumes "at_rest b m s" "rac_ok s" "list_all (says_rest b m) tlvs"
  shows "at_rest b m (rac_processTLV c tlvs can s) \<and> rude (rac_processTLV c tlvs can s) = rude s"
proof -
  have "v = m" if "find (\<lambda>(t, _). t = MODE) tlvs = Some (t, v)" for t v
  proof -
    from that have "(t, v) \<in> set tlvs" "t = MODE" by (auto simp: find_Some_iff) (metis nth_mem)
    then show ?thesis using assms(3) by (auto simp: list_all_iff says_rest_def)
  qed
  then have "at_rest b m (case find (\<lambda>(t, _). t = MODE) tlvs of Some (_, v) \<Rightarrow> set_raw MODE (Some v) s | None \<Rightarrow> s)"
    using at_rest_set [OF assms(1), of MODE] assms(1) by (auto split: option.split)
  then have p: "at_rest b m (prepared tlvs s)"
    using assms(1) unfolding prepared_def by (simp add: at_rest_def)
  have "rac_ok (prepared tlvs s)" using rac_ok_cong [OF calm_prepared(1,2)] assms(2) by simp
  from rest_feed [OF p this assms(3)] have "at_rest b m (feed c tlvs (prepared tlvs s))" "rude (feed c tlvs (prepared tlvs s)) = rude s"
    by simp_all
  then show ?thesis unfolding rac_processTLV_eq using rest_after by (simp add: at_rest_def)
qed

subsection \<open>Every step\<close>

lemma initMake_quiet:
  assumes "rac_ok s" "rac_config_of s = None"
  shows "rude (initMakeSetConfig c s) = rude s" "view (initMakeSetConfig c s) = view s" "modelId (initMakeSetConfig c s) = modelId s"
proof -
  have "unconfigured s" using assms by (simp add: rac_ok_def)
  then obtain t config L where t: "core t = core s" "initMakeSetConfig c s = (let s = setConfig config (retired t) t;
         s = (if filterLifeTime s \<noteq> 0 then (publishFilterData s)\<lparr>filterQueryTimer := True\<rparr> else s) in lift (query (now_ms c)) s)"
    by (rule initMakeSetConfig_ok)
  have 1: "rude t = rude s" "view t = view s" "modelId t = modelId s" using core_eqD [OF t(1)] by (simp_all add: rude_def view_def)
  define u where "u = setConfig config (retired t) t"
  have "rude u = rude t" "view u = view t" "modelId u = modelId t"
    by (simp_all add: u_def setConfig_def publishConfig_def log_out_def rude_def view_def)
  moreover have "rude ((publishFilterData u)\<lparr>filterQueryTimer := True\<rparr>) = rude u" "view ((publishFilterData u)\<lparr>filterQueryTimer := True\<rparr>) = view u"
    "modelId ((publishFilterData u)\<lparr>filterQueryTimer := True\<rparr>) = modelId u"
    using mildD(2,3) [OF mild_filter(1), of u] staticD(1) [OF calm_filter_data(1), of u] by simp_all
  ultimately show "rude (initMakeSetConfig c s) = rude s" "view (initMakeSetConfig c s) = view s" "modelId (initMakeSetConfig c s) = modelId s"
    unfolding t(2) Let_def u_def [symmetric] using 1 mildD(2,3) [OF mild_lifts(1)] by simp_all
qed

text \<open>What a step that is neither a command nor a frame of tags does: nothing but talk and timers.\<close>

definition wishes :: "rac \<Rightarrow> bool \<times> bool \<times> bool" where
  "wishes s = (airClean s, jetMode s, energySave s)"

lemma wishes_simps [simp]:
  "wishes (lift f s) = wishes s" "wishes (log_out x s) = wishes s" "wishes (publish_property p v s) = wishes s" "wishes (sendFilterQuery s) = wishes s"
  "wishes (publishFilterData s) = wishes s"
  by (simp_all add: wishes_def lift_def log_out_def publish_property_def sendFilterQuery_def publishFilterData_def Let_def)

lemma initMake_wishes:
  assumes "rac_ok s" "rac_config_of s = None"
  shows "wishes (initMakeSetConfig c s) = wishes s"
proof -
  have "unconfigured s" using assms by (simp add: rac_ok_def)
  then obtain t config L where t: "core t = core s" "initMakeSetConfig c s = (let s = setConfig config (retired t) t;
         s = (if filterLifeTime s \<noteq> 0 then (publishFilterData s)\<lparr>filterQueryTimer := True\<rparr> else s) in lift (query (now_ms c)) s)"
    by (rule initMakeSetConfig_ok)
  have "wishes (core s) = wishes s" for s by (simp add: wishes_def core_def)
  then have "wishes t = wishes s" using t(1) by metis
  moreover have "wishes (setConfig config (retired t) t) = wishes t" by (simp add: setConfig_def publishConfig_def) (simp add: wishes_def log_out_def)
  moreover have "wishes (s\<lparr>filterQueryTimer := b\<rparr>) = wishes s" for s b by (simp add: wishes_def)
  ultimately show ?thesis unfolding t(2) Let_def by simp
qed

definition housekeeping :: "rac \<Rightarrow> rac \<Rightarrow> bool" where
  "housekeeping s t \<longleftrightarrow> rac_ok t \<and> rude t = rude s \<and> view t = view s \<and> modelId t = modelId s \<and> wishes t = wishes s"

lemma housekeeping_mild: "rac_ok s \<Longrightarrow> mild g \<Longrightarrow> static (g s) = static s \<Longrightarrow> probes (g s) = probes s \<Longrightarrow> wishes (g s) = wishes s \<Longrightarrow>
    housekeeping s (g s)"
  using mildD(2,3) [of g s] rac_ok_cong [of "g s" s] staticD(1) [of "g s" s] by (simp add: housekeeping_def)

lemma housekeeping_trans: "housekeeping s t \<Longrightarrow> housekeeping t u \<Longrightarrow> housekeeping s u"
  by (simp add: housekeeping_def)

lemma housekeeping_refl: "rac_ok s \<Longrightarrow> housekeeping s s"
  by (simp add: housekeeping_def)

lemma housekeeping_filter:
  assumes "rac_ok s"
  shows "housekeeping s (processFilterData c buf s)" "housekeeping s (processPrivData c k buf s)" "housekeeping s (processPrivDataCmdResp x k s)"
proof -
  show 1: "housekeeping s (processFilterData c buf s)" for c buf
  proof (cases "length buf < 13")
    case True
    then show ?thesis using assms by (simp add: processFilterData_def housekeeping_def)
  next
    case False
    define t where "t = s\<lparr>filterUsedTime := le32 buf 1, filterLifeTime := le32 buf 5, filterChangedDate := le32 buf 9\<rparr>"
    have ok: "rac_ok t" by (rule rac_ok_probes [OF assms]) (simp_all add: t_def)
    have st: "housekeeping s t" using ok by (simp add: housekeeping_def t_def view_def wishes_def)
    have "housekeeping t (processFilterData c buf s)"
    proof (cases "filterInitialQueryTimeout s")
      case True
      let ?u = "t\<lparr>filterInitialQueryTimeout := False\<rparr>"
      have u: "rac_config_of t = None" "initialValuesReceived t" "\<not> tlvBlacklistDisableTimer t" "rac_ok ?u"
        using assms True rac_ok_probes [OF ok, of ?u] by (auto simp: rac_ok_def t_def split: if_splits)
      then have "housekeeping t (initMakeSetConfig c ?u)"
        using ok_configure [of ?u c] initMake_quiet [of ?u c] initMake_wishes [of ?u c] by (simp add: housekeeping_def) (simp add: wishes_def)
      then show ?thesis using False True by (simp add: processFilterData_def t_def)
    next
      case F: False
      then show ?thesis
        using False housekeeping_mild [OF ok mild_filter(1) calm_filter_data wishes_simps(5)] by (simp add: processFilterData_def t_def)
    qed
    with st show ?thesis by (rule housekeeping_trans)
  qed
  show "housekeeping s (processPrivData c k buf s)" using 1 assms by (simp add: processPrivData_def housekeeping_refl)
  show "housekeeping s (processPrivDataCmdResp x k s)"
    using assms housekeeping_mild [OF assms mild_filter(2) calm_filter(1,2) wishes_simps(4)] by (simp add: processPrivDataCmdResp_def processFilterCmdResp_def housekeeping_refl)
qed

lemma housekeeping_mask:
  assumes "rac_ok s" "tlvBlacklistDisableTimer s"
  shows "housekeeping s (mask_disabled c s)"
proof -
  let ?t = "s\<lparr>tlvBlacklistDisableTimer := False\<rparr>"
  have ok: "rac_ok ?t" by (rule rac_ok_probes [OF assms(1)]) simp_all
  have u: "rac_config_of s = None" "initialValuesReceived s" "\<not> filterInitialQueryTimeout s"
    using assms by (auto simp: rac_ok_def split: if_splits)
  have "housekeeping s (initMakeSetConfig c ?t)"
    using ok_configure [OF ok, of c] initMake_quiet [OF ok, of c] initMake_wishes [OF ok, of c] u by (simp add: housekeeping_def) (simp add: wishes_def)
  moreover have "housekeeping s (initProbeForFilter ?t)"
  proof -
    have p: "static (sendFilterQuery ?t) = static ?t" "probes (sendFilterQuery ?t) = probes ?t" by (rule calm_filter)+
    have "rac_ok (initProbeForFilter ?t)"
      using ok u p by (auto simp: initProbeForFilter_def rac_ok_def unconfigured_def static_def probes_def split: if_splits)
    then show ?thesis using mildD(2,3) [OF mild_filter(2), of ?t] staticD(1) [OF p(1)] wishes_simps(4) [of ?t] by (simp add: initProbeForFilter_def housekeeping_def wishes_def)
  qed
  ultimately show ?thesis by (simp add: mask_disabled_def Let_def)
qed

lemma housekeeping_stop:
  assumes "rac_ok s"
  shows "housekeeping s (rac_stopTimers s)" "housekeeping s (rac_drop s)"
proof -
  let ?t = "s\<lparr>tlvBlacklistDisableTimer := False, increasedQueryIntervalTimeout := False, filterInitialQueryTimeout := False, filterQueryTimer := False\<rparr>"
  have st: "static ?t = static s" by (simp add: static_def)
  have ok: "rac_ok ?t" by (rule rac_ok_probes [OF assms st]) simp_all
  have 1: "housekeeping s ?t" using ok by (simp add: housekeeping_def rude_def view_def wishes_def)
  have 2: "housekeeping s (if outdoor_primary ?t \<noteq> None then log_out OutdoorForget ?t else ?t)"
    using housekeeping_trans [OF 1 housekeeping_mild [OF ok mild_log [of OutdoorForget] calm_simps(1,2) wishes_simps(2)]] 1 by auto
  then have "rac_ok (if outdoor_primary ?t \<noteq> None then log_out OutdoorForget ?t else ?t)" by (simp add: housekeeping_def)
  from housekeeping_trans [OF 2 housekeeping_mild [OF this mild_lifts(6) calm_simps(3,4) wishes_simps(1)]]
  show 3: "housekeeping s (rac_stopTimers s)" by (simp add: rac_stopTimers_def Let_def)
  then have "rac_ok (rac_stopTimers s)" by (simp add: housekeeping_def)
  from housekeeping_trans [OF 3 housekeeping_mild [OF this mild_log [of "Base (Availability False)"] calm_simps(1,2) wishes_simps(2)]]
  show "housekeeping s (rac_drop s)" by (simp add: rac_drop_def)
qed

definition reported :: "string \<Rightarrow> buffer \<Rightarrow> tag_value list" where
  "reported model buf =
    (case (if is_push_frame buf then rac_decodePushData model (subarray 8 (length buf - 2) buf) else None) of
       Some tlv \<Rightarrow> tlv
     | None \<Rightarrow> if is_tlv_frame buf then tag_values (parse (subarray 11 (length buf - 2) buf)) else [])"

text \<open>A frame is the tags it reports, between steps that only talk.\<close>

lemma data_split:
  assumes "rac_ok s"
  obtains t u can where "housekeeping s t" "u = t \<and> reported (modelId s) buf = [] \<or> u = rac_processTLV c (reported (modelId s) buf) can t" "housekeeping u (rac_processData c buf s)"
    "static t = static s"
proof -
  define t where "t = (if is_push_frame buf \<and> rac_decodePushData (modelId s) (subarray 8 (length buf - 2) buf) \<noteq> None then lift heard s
    else if is_tlv_frame buf then lift (\<lambda>d. heard (d\<lparr>lastReplySequence := Some (buf ! 9)\<rparr>)) s else s)"
  have t: "housekeeping s t"
    using housekeeping_mild [OF assms mild_lifts(3) calm_simps(3,4) wishes_simps(1)] housekeeping_mild [OF assms mild_lifts(10) calm_simps(3,4) wishes_simps(1)] housekeeping_refl [OF assms]
    by (simp add: t_def)
  then have ok: "rac_ok t" by (simp add: housekeeping_def)
  have st: "static t = static s" by (simp add: t_def calm_simps)
  show thesis
  proof (cases "is_push_frame buf \<and> rac_decodePushData (modelId s) (subarray 8 (length buf - 2) buf) \<noteq> None")
    case True
    then obtain tlv where tlv: "rac_decodePushData (modelId s) (subarray 8 (length buf - 2) buf) = Some tlv" by auto
    have "reported (modelId s) buf = tlv" using True tlv by (simp add: reported_def)
    moreover have "rac_processData c buf s = rac_processTLV c tlv False t"
      using True tlv by (simp add: rac_processData_def rac_processPushFrame_def rac_isCompletePushSnapshot_def Let_def t_def)
    ultimately show thesis using that [of t "rac_processTLV c tlv False t" False] t st housekeeping_refl [OF ok_processTLV [OF ok]] by simp
  next
    case False
    define u where "u = (if is_tlv_frame buf then rac_processTLV c (reported (modelId s) buf) True t else t)"
    have u: "rac_ok u" using ok ok_processTLV by (simp add: u_def)
    define w where "w = (if is_priv_frame buf then processPrivData c (buf ! 0) (subarray 11 (length buf - 2) buf) u else u)"
    have w: "housekeeping u w" using housekeeping_filter(2) [OF u] housekeeping_refl [OF u] by (simp add: w_def)
    then have "rac_ok w" by (simp add: housekeeping_def)
    from housekeeping_filter(3) [OF this] housekeeping_refl [OF this]
    have z: "housekeeping w (if is_priv_response buf then processPrivDataCmdResp (buf ! 0 = 0x02) (buf ! 12) w else w)" by simp
    have r: "is_tlv_frame buf \<Longrightarrow> reported (modelId s) buf = tag_values (parse (subarray 11 (length buf - 2) buf))"
      using False by (auto simp: reported_def)
    have "rac_processData c buf s = (if is_priv_response buf then processPrivDataCmdResp (buf ! 0 = 0x02) (buf ! 12) w else w)"
      using False r by (auto simp: rac_processData_def rac_processPushFrame_def Let_def w_def u_def t_def)
    moreover have "\<not> is_tlv_frame buf \<Longrightarrow> reported (modelId s) buf = []" using False by (auto simp: reported_def)
    ultimately show thesis using housekeeping_trans [OF w z] that [of t u True] t st by (auto simp: u_def)
  qed
qed

end
