(* ===== verification/RacBehaviour.thy ===== *)
theory RacBehaviour
  imports RacSafety
begin

text \<open>
  The properties of the air conditioner's handler over whole runs: its tables, the appliance it leaves alone,
  what it re-applies at a power-up and what it refuses while the appliance is off.
\<close>

subsection \<open>Runs\<close>

lemma ok_setProperty: "rac_ok s \<Longrightarrow> rac_ok (rac_setProperty c p v s)"
  using rac_ok_cong [OF calm_setProperty] by simp

text \<open>A step that is not a command is the tags of a frame, if any, between parts that only talk.\<close>

lemma housekeeping_lift: "rac_ok s \<Longrightarrow> mild (lift f) \<Longrightarrow> housekeeping s (lift f s)"
  by (rule housekeeping_mild) (simp_all add: calm_simps)

lemma housekeeping_timers:
  assumes "rac_ok s"
  shows "housekeeping s (lift (setQueryInterval n i) (s\<lparr>increasedQueryIntervalTimeout := False\<rparr>))"
    "housekeeping s (publishConfig s)" "housekeeping s (sendFilterQuery s)"
proof -
  show "housekeeping s (sendFilterQuery s)" unfolding sendFilterQuery_def by (rule housekeeping_lift [OF assms mild_lifts(7)])
  let ?t = "s\<lparr>increasedQueryIntervalTimeout := False\<rparr>"
  have "rac_ok ?t" by (rule rac_ok_probes [OF assms]) (simp_all add: calm_simps)
  then have "housekeeping s ?t" by (simp add: housekeeping_def wishes_def)
  then show "housekeeping s (lift (setQueryInterval n i) ?t)"
    by (rule housekeeping_trans) (rule housekeeping_lift [OF \<open>rac_ok ?t\<close> mild_lifts(2)])
  show "housekeeping s (publishConfig s)"
    by (rule housekeeping_mild [OF assms mild_config(1)]) (simp_all add: publishConfig_def wishes_def static_def probes_def log_out_def split: option.split)
qed

lemma housekeeping_probe:
  assumes "rac_ok s" "filterInitialQueryTimeout s"
  shows "housekeeping s (initMakeSetConfig c (s\<lparr>filterInitialQueryTimeout := False\<rparr>))"
proof -
  have "rac_ok (s\<lparr>filterInitialQueryTimeout := False\<rparr>)" by (rule rac_ok_probes [OF assms(1)]) simp_all
  moreover have "rac_config_of s = None" "initialValuesReceived s" "\<not> tlvBlacklistDisableTimer s"
    using assms by (auto simp: rac_ok_def split: if_splits)
  ultimately show ?thesis
    using ok_configure(1) [of "s\<lparr>filterInitialQueryTimeout := False\<rparr>" c] initMake_quiet [of "s\<lparr>filterInitialQueryTimeout := False\<rparr>" c]
      initMake_wishes [of "s\<lparr>filterInitialQueryTimeout := False\<rparr>" c]
    by (simp add: housekeeping_def wishes_def)
qed

lemma step_split:
  assumes "rac_ok s" "\<And>p v. snd e \<noteq> SetProperty p v"
  obtains t u where "housekeeping s t" "housekeeping u (rac_step s e)"
    "u = t \<or> (\<exists>buf can. snd e = Data buf \<and> u = rac_processTLV (fst e) (reported (modelId s) buf) can t)"
proof -
  obtain c ev where e: "e = (c, ev)" by (cases e) auto
  have refl: "housekeeping s s" by (rule housekeeping_refl [OF assms(1)])
  have thesis if "housekeeping s (rac_step s e)"
    using that \<open>\<And>t u. \<lbrakk>housekeeping s t; housekeeping u (rac_step s e); u = t \<or> (\<exists>buf can. snd e = Data buf \<and> u = rac_processTLV (fst e) (reported (modelId s) buf) can t)\<rbrakk> \<Longrightarrow> thesis\<close> [OF refl that]
    by simp
  note silent = this
  note timers = housekeeping_timers [OF assms(1)]
  show thesis
  proof (cases ev)
    case (Data buf)
    from data_split [OF assms(1), where c = c and buf = buf] obtain t u can where "housekeeping s t"
      "u = t \<and> reported (modelId s) buf = [] \<or> u = rac_processTLV c (reported (modelId s) buf) can t" "housekeeping u (rac_processData c buf s)" "static t = static s" .
    then show ?thesis by (intro that [of t u]) (auto simp: e Data)
  next
    case (SetProperty p v)
    then show ?thesis using assms(2) [of p v] by (simp add: e)
  next
    case MaskTimer
    then show ?thesis using housekeeping_mask [OF assms(1)] refl by (intro silent) (simp add: e)
  next
    case FilterProbeTimer
    then show ?thesis using housekeeping_probe [OF assms(1)] refl by (intro silent) (simp add: e)
  next
    case Stop
    then show ?thesis using housekeeping_stop [OF assms(1)] by (intro silent) (simp add: e)
  next
    case Drop
    then show ?thesis using housekeeping_stop [OF assms(1)] by (intro silent) (simp add: e)
  qed (rule silent, simp add: e refl timers housekeeping_lift [OF assms(1)] mild_lifts)+
qed

lemma model_processTLV: "modelId (rac_processTLV c tlvs can s) = modelId s"
  using staticD(1) [OF calm_prepared(1)] staticD(1) [OF calm_feed(1)] by (simp add: rac_processTLV_eq)

lemma ok_rac_step:
  assumes "rac_ok s"
  shows "rac_ok (rac_step s e)" "modelId (rac_step s e) = modelId s"
proof -
  have "rac_ok (rac_step s e) \<and> modelId (rac_step s e) = modelId s"
  proof (cases "\<exists>p v. snd e = SetProperty p v")
    case True
    then obtain c p v where "e = (c, SetProperty p v)" by (cases e) auto
    then show ?thesis using ok_setProperty [OF assms] staticD(1) [OF calm_setProperty(1)] by simp
  next
    case False
    with step_split [OF assms, of e] obtain t u where "housekeeping s t" "housekeeping u (rac_step s e)"
      "u = t \<or> (\<exists>buf can. snd e = Data buf \<and> u = rac_processTLV (fst e) (reported (modelId s) buf) can t)" by blast
    then show ?thesis by (auto simp: housekeeping_def model_processTLV)
  qed
  then show "rac_ok (rac_step s e)" "modelId (rac_step s e) = modelId s" by simp_all
qed

lemma ok_new_rac: "rac_ok (new_rac now model primary)"
  by (simp add: new_rac_def Let_def rac_ok_def unconfigured_def log_out_def)

lemma rac_run_snoc: "rac_run now model primary (es @ [e]) = rac_step (rac_run now model primary es) e"
  by (simp add: rac_run_def)

lemma ok_rac_run: "rac_ok (rac_run now model primary es)"
  by (induction es rule: rev_induct) (simp_all add: rac_run_snoc ok_rac_step, simp add: rac_run_def ok_new_rac)

lemma model_run: "modelId (rac_run now model primary es) = model"
proof (induction es rule: rev_induct)
  case Nil
  then show ?case by (simp add: rac_run_def new_rac_def Let_def log_out_def)
next
  case (snoc e es)
  then show ?case using ok_rac_step(2) [OF ok_rac_run] by (simp add: rac_run_snoc)
qed

subsection \<open>An appliance left alone\<close>

text \<open>Events without a command in which every frame tells the same power and the same mode.\<close>

definition undisturbed :: "bool \<Rightarrow> nat \<Rightarrow> string \<Rightarrow> clock \<times> rac_event \<Rightarrow> bool" where
  "undisturbed b m model e \<longleftrightarrow> (case snd e of
     SetProperty _ _ \<Rightarrow> False
   | Data buf \<Rightarrow> list_all (says_rest b m) (reported model buf)
   | _ \<Rightarrow> True)"

lemma rest_housekeeping: "housekeeping s t \<Longrightarrow> at_rest b m t \<longleftrightarrow> at_rest b m s"
  unfolding housekeeping_def by (intro at_rest_view) simp_all

lemma rest_step:
  assumes "rac_ok s" "at_rest b m s" "undisturbed b m (modelId s) e"
  shows "at_rest b m (rac_step s e) \<and> rude (rac_step s e) = rude s"
proof -
  have "\<And>p v. snd e \<noteq> SetProperty p v" using assms(3) by (auto simp: undisturbed_def)
  with step_split [OF assms(1)] obtain t u where t: "housekeeping s t" "housekeeping u (rac_step s e)"
    "u = t \<or> (\<exists>buf can. snd e = Data buf \<and> u = rac_processTLV (fst e) (reported (modelId s) buf) can t)" by blast
  have r: "at_rest b m t" "rude t = rude s" "rac_ok t" using rest_housekeeping [OF t(1)] t(1) assms(2) by (simp_all add: housekeeping_def)
  have "at_rest b m u \<and> rude u = rude s"
    using t(3)
  proof
    assume "\<exists>buf can. snd e = Data buf \<and> u = rac_processTLV (fst e) (reported (modelId s) buf) can t"
    then obtain buf can where b: "snd e = Data buf" "u = rac_processTLV (fst e) (reported (modelId s) buf) can t" by blast
    then show ?thesis using rest_processTLV [OF r(1,3), of "reported (modelId s) buf" "fst e" can] r(2) assms(3) by (simp add: undisturbed_def)
  qed (use r in simp)
  then show ?thesis using rest_housekeeping [OF t(2)] t(2) by (simp add: housekeeping_def)
qed

subsection \<open>Commands\<close>

text \<open>Which field a property name leads to.\<close>

lemma writableD:
  assumes "rac_ok s" "writable_field p s = Some f"
  shows "p = name_of f \<and> known f \<or> f = FilterReset \<and> p = ''filterreset''" "fd_writable (field_of f) \<noteq> Some False"
proof -
  from assms(2) have f: "fields_ha s p = Some f" "fd_writable (field_of f) \<noteq> Some False"
    by (auto simp: writable_field_def split: option.splits if_splits)
  then have "rac_config_of s \<noteq> None" using assms(1) by (auto simp: rac_ok_def unconfigured_def split: if_splits)
  then obtain L where "registered L s" using assms(1) by (auto simp: rac_ok_def)
  with f show "p = name_of f \<and> known f \<or> f = FilterReset \<and> p = ''filterreset''" by (auto simp: registered_def list_all_iff)
  show "fd_writable (field_of f) \<noteq> Some False" by (rule f)
qed

text \<open>The fields of the names that matter: a name is enough to know the field.\<close>

lemma name_facts: "name_of (Timer i name q cd) = name @ ''-''" "name_of (Sensor i name r) = name @ ''-''"
  by (simp_all add: field_facts)

lemma field_by_name:
  assumes "rac_ok s" "writable_field p s = Some f"
  shows "p = ''airclean-'' \<longleftrightarrow> f = Toggle AirClean" "p = ''energysave-'' \<longleftrightarrow> f = Toggle EnergySave" "p = ''jet-'' \<longleftrightarrow> (\<exists>a b. f = Jet a b)"
    "p = ''climate-fan_mode'' \<longleftrightarrow> f = FanMode" "p = ''climate-swing_mode'' \<longleftrightarrow> f = SwingMode"
    "p = ''climate-swing_horizontal_mode'' \<longleftrightarrow> f = SwingHorizontal" "p = ''climate-mode'' \<longleftrightarrow> f = Mode" "p = ''climate-power'' \<longleftrightarrow> f = Power"
proof -
  from writableD [OF assms] have "p = ''airclean-'' \<longleftrightarrow> f = Toggle AirClean" "p = ''energysave-'' \<longleftrightarrow> f = Toggle EnergySave" "p = ''jet-'' \<longleftrightarrow> (\<exists>a b. f = Jet a b)"
    "p = ''climate-fan_mode'' \<longleftrightarrow> f = FanMode" "p = ''climate-swing_mode'' \<longleftrightarrow> f = SwingMode"
    "p = ''climate-swing_horizontal_mode'' \<longleftrightarrow> f = SwingHorizontal" "p = ''climate-mode'' \<longleftrightarrow> f = Mode" "p = ''climate-power'' \<longleftrightarrow> f = Power"
    by (cases f; force simp: field_facts split: toggle.splits)+
  then show "p = ''airclean-'' \<longleftrightarrow> f = Toggle AirClean" "p = ''energysave-'' \<longleftrightarrow> f = Toggle EnergySave" "p = ''jet-'' \<longleftrightarrow> (\<exists>a b. f = Jet a b)"
    "p = ''climate-fan_mode'' \<longleftrightarrow> f = FanMode" "p = ''climate-swing_mode'' \<longleftrightarrow> f = SwingMode"
    "p = ''climate-swing_horizontal_mode'' \<longleftrightarrow> f = SwingHorizontal" "p = ''climate-mode'' \<longleftrightarrow> f = Mode" "p = ''climate-power'' \<longleftrightarrow> f = Power"
    by simp_all
qed

text \<open>The packet that writes some tags with their raw values.\<close>

definition setting :: "nat list \<Rightarrow> (nat \<Rightarrow> nat option) \<Rightarrow> rac_out" where
  "setting ids values = Base (Packet (tlv_packet WRITE_HEADER (map (\<lambda>t. \<lparr>tlv_t = t, tlv_l = None, tlv_v = values t\<rparr>) ids)))"

definition written_tag :: "rac_out \<Rightarrow> nat" where
  "written_tag x = (case x of Base (Packet p) \<Rightarrow> push_bit 2 (unat (p ! 11)) + drop_bit 6 (unat (p ! 12)) | _ \<Rightarrow> 0)"

lemma is_write_setting [simp]: "is_write (setting ids values)"
  by (simp add: setting_def is_write_def tlv_packet_kind WRITE_HEADER_def)

lemma tag_bytes:
  assumes "t < 1024" "r < 64"
  shows "push_bit 2 (unat (word_of_nat (t div 4 mod 256) :: byte)) + drop_bit 6 (unat (word_of_nat (t mod 4 * 64 + r) :: byte)) = t"
proof -
  have u: "unat (word_of_nat n :: byte) = n" if "n < 256" for n using that by (simp add: unat_of_nat)
  have "t div 4 mod 256 = t div 4" "t mod 4 * 64 + r < 256" "t div 4 < 256" using assms by simp_all
  then have "unat (word_of_nat (t div 4 mod 256) :: byte) = t div 4" "unat (word_of_nat (t mod 4 * 64 + r) :: byte) = t mod 4 * 64 + r"
    using u by metis+
  then show ?thesis using assms by (simp add: push_bit_eq_mult drop_bit_eq_div)
qed

lemma written_setting:
  assumes "t < 1024"
  shows "written_tag (setting (t # ids) values) = t"
proof -
  have h: "push_bit 2 (unat (word_of_nat (t div 4 mod 256) :: byte)) + drop_bit 6 (unat (word_of_nat (t mod 4 * 64 + l * 16 + v) :: byte)) = t"
    if "l < 4" "v < 16" for l v
    using tag_bytes [OF assms, of "l * 16 + v"] that by (simp add: add.assoc)
  have "\<exists>b c rest. build_element \<lparr>tlv_t = t, tlv_l = None, tlv_v = v\<rparr> = b # c # rest \<and> push_bit 2 (unat b) + drop_bit 6 (unat c) = t" for v
    using h [of 0 0] h [of 3 0] h [of 1 0] h [of 2 0] h [of 0 "the v"]
    by (cases v) (simp_all add: build_element_bytes Let_def del: of_nat_add of_nat_mult)
  then obtain b c rest where b: "build_element \<lparr>tlv_t = t, tlv_l = None, tlv_v = values t\<rparr> = b # c # rest" "push_bit 2 (unat b) + drop_bit 6 (unat c) = t"
    by blast
  then show ?thesis by (simp add: written_tag_def setting_def tlv_packet_def build_def Let_def)
qed

lemma write_tags_facts:
  "rac_log (write_tags ids s) = rac_log s @ [setting ids (raw_clip_state (base s))]"
  "raw k (write_tags ids s) = raw k s" "powerStatePrev (write_tags ids s) = powerStatePrev s" "modePrev (write_tags ids s) = modePrev s"
  "powerTransitionInFrame (write_tags ids s) = powerTransitionInFrame s" "toggled t (write_tags ids s) = toggled t s"
  "jetMode (write_tags ids s) = jetMode s"
  by (simp_all add: write_tags_def lift_def Let_def setting_def refreshAfterWrite_def send_def out_def raw_def toggled_def split: toggle.split)

definition toggle_tag :: "toggle \<Rightarrow> nat" where
  "toggle_tag t = (case t of AirClean \<Rightarrow> 0x20f | EnergySave \<Rightarrow> 0x20d)"

lemma command_toggle:
  assumes "rac_ok s" "writable_field (toggle_name t @ ''-'') s = Some f"
  shows "rac_setProperty c (toggle_name t @ ''-'') val s =
    (let s' = set_toggled t (val = ''ON'') s in
     if \<not> powered_off s \<and> right_mode t s
     then write_tags [toggle_tag t] (set_raw (toggle_tag t) (Some (if val = ''ON'' then 1 else 0)) s') else s')"
proof -
  have f: "f = Toggle t" using field_by_name(1,2) [OF assms] by (cases t) (simp_all add: toggle_name_def)
  have same: "powered_off (set_toggled t b s) = powered_off s" "right_mode t (set_toggled t b s) = right_mode t s" for b t
    by (simp_all add: powered_off_def right_mode_def set_toggled_def raw_def split: toggle.split)
  show ?thesis
    unfolding rac_setProperty_def assms(2) f
    by (cases t) (auto simp: write_text_def to_raw_def on_off_def jet_wish_def write_raw_def may_write_def same Let_def attach_tags_def
        field_of_def fdef_def toggle_tag_def)
qed

lemma command_jet:
  assumes "rac_ok s" "writable_field ''jet-'' s = Some f"
  obtains a b v where "rac_setProperty c ''jet-'' val s =
    (let s' = s\<lparr>jetMode := (val = ''ON'')\<rparr> in
     if \<not> powered_off s \<and> jet_mode_ok a b s then write_tags [0x323] (set_raw 0x323 (Some v) s') else s')"
proof -
  from field_by_name(3) [OF assms] obtain a b where f: "f = Jet a b" by auto
  have same: "powered_off (s\<lparr>jetMode := x\<rparr>) = powered_off s" "jet_mode_ok a b (s\<lparr>jetMode := x\<rparr>) = jet_mode_ok a b s" for x
    by (simp_all add: powered_off_def jet_mode_ok_def raw_def)
  obtain v where v: "to_raw (Jet a b) val s = Number (Some v)" by (simp add: to_raw_def)
  have "rac_setProperty c ''jet-'' val s =
    (let s' = s\<lparr>jetMode := (val = ''ON'')\<rparr> in
     if \<not> powered_off s \<and> jet_mode_ok a b s then write_tags [0x323] (set_raw 0x323 (Some v) s') else s')"
    unfolding rac_setProperty_def assms(2) f
    by (auto simp: write_text_def v jet_wish_def write_raw_def may_write_def same Let_def attach_tags_def field_of_def fdef_def)
  then show thesis by (rule that)
qed

subsection \<open>Hooks\<close>

text \<open>What decides whether hooks run and what they write.\<close>

definition look :: "rac \<Rightarrow> nat option \<times> nat option \<times> bool option \<times> string option \<times> bool \<times> bool \<times> bool \<times> bool" where
  "look s = (raw POWER s, raw MODE s, powerStatePrev s, modePrev s, powerTransitionInFrame s, airClean s, jetMode s, energySave s)"

lemma lookD:
  assumes "look s = look t"
  shows "raw POWER s = raw POWER t" "raw MODE s = raw MODE t" "powerStatePrev s = powerStatePrev t" "modePrev s = modePrev t"
    "powerTransitionInFrame s = powerTransitionInFrame t" "airClean s = airClean t" "jetMode s = jetMode t" "energySave s = energySave t"
    "powered_off s = powered_off t" "toggled x s = toggled x t"
  using assms by (simp_all add: look_def powered_off_def toggled_def split: toggle.split)

lemma look_write: "look (write_tags ids s) = look s" "k \<notin> {POWER, MODE} \<Longrightarrow> look (set_raw k v s) = look s"
proof -
  show "look (write_tags ids s) = look s"
    by (simp add: look_def write_tags_facts) (simp add: write_tags_def lift_def Let_def)
  show "k \<notin> {POWER, MODE} \<Longrightarrow> look (set_raw k v s) = look s"
    by (simp add: look_def) (simp add: set_raw_def)
qed

lemma look_toggled: "look (set_toggled t (toggled t s) s) = look s" "look (s\<lparr>jetMode := jetMode s\<rparr>) = look s"
  by (simp_all add: look_def set_toggled_def toggled_def raw_def split: toggle.split)

lemma look_property: "look (publish_property p v s) = look s" "look (log_out x s) = look s"
  by (simp_all add: look_def publish_property_def log_out_def raw_def)

lemma look_lift: "(\<And>d. raw_clip_state (f d) = raw_clip_state d) \<Longrightarrow> look (lift f s) = look s"
  by (simp add: look_def lift_def Let_def raw_def)

lemma look_action: "look (updateClimateAction c s) = look s"
proof -
  have "look (lift (setQueryInterval n i) s) = look s" for n i s
    by (rule look_lift) (simp add: setQueryInterval_def query_def send_def out_def Let_def)
  moreover have "look (s\<lparr>increasedQueryIntervalTimeout := b\<rparr>) = look s" for b s by (simp add: look_def raw_def)
  ultimately show ?thesis
    by (simp add: updateClimateAction_def updateQueryInterval_def look_property Let_def split_def split: option.split)
qed

definition hook_tags :: "hook \<Rightarrow> nat list" where
  "hook_tags h = (case h of TogglePower t \<Rightarrow> [toggle_tag t] | ToggleMode t \<Rightarrow> [toggle_tag t] | JetPower \<Rightarrow> [0x323] | JetMode \<Rightarrow> [0x323] | ActionHook \<Rightarrow> [])"

lemma writes_simps [simp]:
  "writes (set_toggled t b s) = writes s" "writes (s\<lparr>jetMode := b\<rparr>) = writes s" "writes (set_raw k v s) = writes s"
  "writes (write_tags ids s) = writes s @ [setting ids (raw_clip_state (base s))]"
  by (simp_all add: writes_def set_toggled_def set_raw_def write_tags_facts split: toggle.split)

text \<open>A hook writes at most its own tag and changes nothing that other hooks look at.\<close>

lemma hook_effect:
  assumes "rac_ok s"
  shows "look (run_hook c h s) = look s \<and> (\<exists>xs. writes (run_hook c h s) = writes s @ xs \<and> subseq (map written_tag xs) (hook_tags h))"
proof -
  have toggle: "look (rac_setProperty c (toggle_name t @ ''-'') (if toggled t s then ''ON'' else ''OFF'') s) = look s \<and>
      (\<exists>xs. writes (rac_setProperty c (toggle_name t @ ''-'') (if toggled t s then ''ON'' else ''OFF'') s) = writes s @ xs \<and>
        subseq (map written_tag xs) [toggle_tag t])" for t
  proof (cases "writable_field (toggle_name t @ ''-'') s")
    case None
    then show ?thesis by (simp add: rac_setProperty_def)
  next
    case (Some f)
    have v: "((if toggled t s then ''ON'' else ''OFF'') = ''ON'') = toggled t s" by simp
    have "toggle_tag t \<notin> {POWER, MODE}" "toggle_tag t < 1024" by (auto simp: toggle_tag_def split: toggle.splits)
    then show ?thesis
      unfolding command_toggle [OF assms Some] v by (simp add: Let_def look_write look_toggled written_setting)
  qed
  have jet: "look (rac_setProperty c ''jet-'' (if jetMode s then ''ON'' else ''OFF'') s) = look s \<and>
      (\<exists>xs. writes (rac_setProperty c ''jet-'' (if jetMode s then ''ON'' else ''OFF'') s) = writes s @ xs \<and> subseq (map written_tag xs) [0x323])"
  proof (cases "writable_field ''jet-'' s")
    case None
    then show ?thesis by (simp add: rac_setProperty_def)
  next
    case (Some f)
    obtain a b v where e: "rac_setProperty c ''jet-'' (if jetMode s then ''ON'' else ''OFF'') s =
      (let s' = s\<lparr>jetMode := ((if jetMode s then ''ON'' else ''OFF'') = ''ON'')\<rparr> in
       if \<not> powered_off s \<and> jet_mode_ok a b s then write_tags [0x323] (set_raw 0x323 (Some v) s') else s')"
      by (rule command_jet [OF assms Some, of c "if jetMode s then ''ON'' else ''OFF''"])
    have v: "((if jetMode s then ''ON'' else ''OFF'') = ''ON'') = jetMode s" by simp
    show ?thesis unfolding e v by (simp add: Let_def look_write look_toggled written_setting)
  qed
  have action: "writes (updateClimateAction c s) = writes s" using mildD(3) [OF mild_action] by (simp add: writes_rude)
  show ?thesis
  proof (cases h)
    case (TogglePower t)
    then show ?thesis using toggle [of t] by (auto simp: run_hook_def hook_tags_def)
  next
    case (ToggleMode t)
    then show ?thesis using toggle [of t] by (simp add: run_hook_def hook_tags_def)
  next
    case JetPower
    then show ?thesis using jet by (auto simp: run_hook_def hook_tags_def)
  next
    case JetMode
    then show ?thesis using jet by (simp add: run_hook_def hook_tags_def)
  next
    case ActionHook
    then show ?thesis by (simp add: run_hook_def hook_tags_def look_action action)
  qed
qed

lemma hooks_effect:
  assumes "rac_ok s"
  shows "look (run_hooks c hs s) = look s \<and>
    (\<exists>xs. writes (run_hooks c hs s) = writes s @ xs \<and> subseq (map written_tag xs) (concat (map hook_tags hs)))"
  using assms
proof (induction hs arbitrary: s)
  case (Cons h hs)
  have "static (run_hook c h s) = static s" "probes (run_hook c h s) = probes s"
    using calm_hooks [of c "[h]" s] by (simp_all add: run_hooks_def)
  then have ok: "rac_ok (run_hook c h s)" using rac_ok_cong Cons.prems by blast
  from hook_effect [OF Cons.prems, of c h] Cons.IH [OF ok] show ?case
    by (auto simp: run_hooks_def intro: list_emb_append_mono)
qed (simp add: run_hooks_def)

end
