(* ===== verification/RacPower.thy ===== *)
theory RacPower
  imports RacBehaviour
begin

text \<open>
  The air conditioner switched on and off: what its handler re-applies when the appliance comes up, what it
  keeps for that while the appliance is off, and what it refuses then.
\<close>

subsection \<open>Frames that tell the power\<close>

text \<open>What the hooks of the power depend on and what they do, wishes apart.\<close>

definition still where
  "still s = (writes s, raw_clip_state (base s), powerStatePrev s, powerTransitionInFrame s, static s, probes s)"

lemma stillD:
  assumes "still t = still s"
  shows "writes t = writes s" "raw k t = raw k s" "powerStatePrev t = powerStatePrev s" "powerTransitionInFrame t = powerTransitionInFrame s"
    "static t = static s" "powered_off t = powered_off s" "rac_ok t = rac_ok s" "fields_id t = fields_id s" "fields_ha t = fields_ha s"
proof -
  show st: "static t = static s" using assms by (simp add: still_def)
  then show "rac_ok t = rac_ok s" "fields_id t = fields_id s" "fields_ha t = fields_ha s"
    using assms rac_ok_cong [OF st] staticD(3,4) [OF st] by (simp_all add: still_def)
qed (use assms in \<open>simp_all add: still_def raw_def powered_off_def\<close>)

lemma still_mild: "mild g \<Longrightarrow> static (g s) = static s \<Longrightarrow> probes (g s) = probes s \<Longrightarrow> still (g s) = still s"
  using mildD(2,3) [of g s] by (simp add: still_def writes_rude view_def)

text \<open>A hushed handler takes no mode it reads for a change of the mode.\<close>

definition hushed :: "rac \<Rightarrow> bool" where
  "hushed s \<longleftrightarrow> powerTransitionInFrame s \<or> powered_off s"

lemma hushed_still: "still t = still s \<Longrightarrow> hushed t = hushed s"
  using stillD(4,6) [of t s] by (simp add: hushed_def)

lemma not_moved: "hushed s \<Longrightarrow> \<not> mode_moved val s"
  by (auto simp: hushed_def mode_moved_def powered_off_def split: option.splits)

lemma still_mode: "hushed s \<Longrightarrow> still (publish_mode c v s) = still s" "hushed s \<Longrightarrow> wishes (publish_mode c v s) = wishes s"
proof -
  assume h: "hushed s"
  have p: "still (publish_property q w s) = still s" for q w s by (rule still_mild [OF mild_property]) (simp_all add: calm_simps)
  have "still (s\<lparr>modePrev := m\<rparr>) = still s" "wishes (s\<lparr>modePrev := m\<rparr>) = wishes s" for m
    by (simp_all add: still_def calm_simps wishes_def) (simp add: writes_def)
  then show "still (publish_mode c v s) = still s" "wishes (publish_mode c v s) = wishes s"
    by (simp_all add: publish_mode_def mode_callback_def not_moved [OF h] p split: option.split)
qed

lemma still_other: "still (publish_other c f v s) = still s"
  by (rule still_mild [OF mild_other]) simp_all

definition remembers :: "rac_field \<Rightarrow> bool" where
  "remembers f \<longleftrightarrow> (case f of Toggle _ \<Rightarrow> True | Jet _ _ \<Rightarrow> True | _ \<Rightarrow> False)"

lemma wishes_action: "wishes (updateClimateAction c s) = wishes s"
  using lookD(6-8) [OF look_action [of c s]] by (simp add: wishes_def)

lemma wishes_step: "wishes (applyTemperatureStep x s) = wishes s"
  by (simp add: applyTemperatureStep_def publishConfig_def wishes_def log_out_def split: option.split)

lemma wishes_other:
  assumes "powered_off s \<or> \<not> remembers f"
  shows "wishes (publish_other c f v s) = wishes s"
proof -
  have c: "wishes (countdown f v s) = wishes s" "powered_off (countdown f v s) = powered_off s"
    by (auto simp: countdown_def powered_off_def raw_def publish_property_def log_out_def wishes_def split: rac_field.split option.split)
  have "wishes (snd (on_read c f w s)) = wishes s" if "powered_off s \<or> \<not> remembers f" for w s
    using that by (auto simp: on_read_def remembers_def wishes_action wishes_step Let_def split: rac_field.splits shown.split rac_value.split)
  then show ?thesis using c assms by (simp add: publish_other_def Let_def split_def split: option.split)
qed

lemma still_field:
  assumes "hushed s" "f \<noteq> Power"
  shows "still (publish_field c f v s) = still s" "powered_off s \<or> \<not> remembers f \<Longrightarrow> wishes (publish_field c f v s) = wishes s"
  using assms still_mode still_other wishes_other by (cases f; simp add: publish_field_def)+

lemma still_fold:
  assumes "hushed s" "\<And>f s. f \<in> set fs \<Longrightarrow> hushed s \<Longrightarrow> still (g f s) = still s"
    "\<And>f s. f \<in> set fs \<Longrightarrow> hushed s \<Longrightarrow> powered_off s \<or> \<not> remembers f \<Longrightarrow> wishes (g f s) = wishes s"
  shows "still (foldl (\<lambda>s f. g f s) s fs) = still s"
    "powered_off s \<or> list_all (\<lambda>f. \<not> remembers f) fs \<Longrightarrow> wishes (foldl (\<lambda>s f. g f s) s fs) = wishes s"
proof -
  have "still (foldl (\<lambda>s f. g f s) s fs) = still s \<and>
      (powered_off s \<or> list_all (\<lambda>f. \<not> remembers f) fs \<longrightarrow> wishes (foldl (\<lambda>s f. g f s) s fs) = wishes s)"
    using assms
  proof (induction fs arbitrary: s)
    case (Cons f fs)
    have st: "still (g f s) = still s" using Cons.prems(1,2) by simp
    have w: "powered_off s \<or> \<not> remembers f \<Longrightarrow> wishes (g f s) = wishes s" using Cons.prems(1,3) by simp
    from Cons.IH [of "g f s"] Cons.prems hushed_still [OF st] stillD(6) [OF st] st w show ?case by auto
  qed simp
  then show "still (foldl (\<lambda>s f. g f s) s fs) = still s"
    "powered_off s \<or> list_all (\<lambda>f. \<not> remembers f) fs \<Longrightarrow> wishes (foldl (\<lambda>s f. g f s) s fs) = wishes s" by simp_all
qed

text \<open>A field that remembers a wish has a tag of its own.\<close>

lemma remembers_tag: "rac_ok s \<Longrightarrow> f \<in> set (fields_id s k) \<Longrightarrow> remembers f \<Longrightarrow> k \<in> {0x20f, 0x20d, 0x323}"
  by (drule (1) ok_filed) (auto simp: remembers_def field_of_def fdef_def split: rac_field.splits toggle.splits)

lemma forgetful: "rac_ok s \<Longrightarrow> k \<in> {POWER, MODE} \<Longrightarrow> list_all (\<lambda>f. \<not> remembers f) (fields_id s k)"
  using remembers_tag by (force simp: list_all_iff)

lemma set_raw_same: "set_raw k (raw k s) s = s"
  by (simp add: set_raw_def raw_def)

lemma still_process_mode:
  assumes "hushed s" "rac_ok s"
  shows "still (process_mode c s) = still s" "wishes (process_mode c s) = wishes s"
proof -
  let ?g = "\<lambda>f s'. if f = Mode then publish_mode c (raw MODE s) s' else (case raw MODE s of Some n \<Rightarrow> publish_other c f n s' | None \<Rightarrow> s')"
  have g: "hushed s' \<Longrightarrow> still (?g f s') = still s'" "hushed s' \<Longrightarrow> powered_off s' \<or> \<not> remembers f \<Longrightarrow> wishes (?g f s') = wishes s'" for f s'
    using still_mode still_other wishes_other by (simp_all split: option.split)
  from still_fold [OF assms(1), of _ ?g, OF g] forgetful [OF assms(2), of MODE]
  show "still (process_mode c s) = still s" "wishes (process_mode c s) = wishes s"
    by (simp_all add: process_mode_def Let_def set_raw_same)
qed

lemma still_key:
  assumes "Power \<notin> set (fields_id s k)" "hushed (set_raw k (Some v) s)"
  shows "still (rac_processKeyValue c k v s) = still (set_raw k (Some v) s)"
    "powered_off (set_raw k (Some v) s) \<Longrightarrow> wishes (rac_processKeyValue c k v s) = wishes s"
proof -
  have "\<And>f s'. f \<in> set (fields_id s k) \<Longrightarrow> hushed s' \<Longrightarrow> still (publish_field c f v s') = still s'"
    "\<And>f s'. f \<in> set (fields_id s k) \<Longrightarrow> hushed s' \<Longrightarrow> powered_off s' \<or> \<not> remembers f \<Longrightarrow> wishes (publish_field c f v s') = wishes s'"
    using still_field assms(1) by metis+
  note f = still_fold [OF assms(2), of "fields_id s k" "\<lambda>f. publish_field c f v", OF this]
  from f(1) show "still (rac_processKeyValue c k v s) = still (set_raw k (Some v) s)" by (simp add: rac_processKeyValue_def)
  have "wishes (set_raw k (Some v) s) = wishes s" by (simp add: wishes_def set_raw_def)
  with f(2) show "powered_off (set_raw k (Some v) s) \<Longrightarrow> wishes (rac_processKeyValue c k v s) = wishes s" by (simp add: rac_processKeyValue_def)
qed

text \<open>The power's own field is filed once.\<close>

lemma names_distinct: "distinct ALL_NAMES"
  by (simp add: ALL_NAMES_def READ_NAMES_def CLIMATE_NAMES_def SENSOR_NAMES_def)

lemma power_once:
  assumes "rac_ok s" "rac_config_of s \<noteq> None"
  obtains fs fs' where "fields_id s POWER = fs @ Power # fs'" "Power \<notin> set fs" "Power \<notin> set fs'"
proof -
  from assms obtain L where L: "registered L s" "subseq (map name_of L) ALL_NAMES" "Power \<in> set (fields_id s POWER)"
    by (auto simp: rac_ok_def)
  have "distinct (map name_of L)" using L(2) names_distinct by (auto simp: subseq_conv_nths)
  then have "distinct L" by (simp add: distinct_map)
  moreover have "fields_id s POWER = filter (\<lambda>f. fd_id (field_of f) = Some POWER) L" using L(1) by (simp add: registered_def)
  ultimately have "distinct (fields_id s POWER)" by simp
  moreover from L(3) obtain fs fs' where "fields_id s POWER = fs @ Power # fs'" by (auto dest: split_list)
  ultimately show thesis using that by auto
qed

lemma no_power: "rac_ok s \<Longrightarrow> k \<noteq> POWER \<Longrightarrow> Power \<notin> set (fields_id s k)"
  using ok_filed [of s Power k] by (auto simp: field_of_def fdef_def)

text \<open>Hooks, by what they look at.\<close>

lemma look_wishes: "look t = look s \<Longrightarrow> wishes t = wishes s"
  by (simp add: look_def wishes_def)

lemma power_key:
  assumes "rac_ok s" "rac_config_of s \<noteq> None" "hushed (set_raw POWER (Some v) s)"
  obtains u where "still u = still (set_raw POWER (Some v) s)" "wishes u = wishes s"
    "writes (rac_processKeyValue c POWER v s) =
      writes (if powerStatePrev s \<noteq> None \<and> powerStatePrev s \<noteq> Some (v \<noteq> 0) then run_hooks c (powerChangeHooks s) u else u)"
    "wishes (rac_processKeyValue c POWER v s) = wishes s" "raw POWER (rac_processKeyValue c POWER v s) = Some v"
    "powerStatePrev (rac_processKeyValue c POWER v s) = Some (v \<noteq> 0)"
    "powerTransitionInFrame (rac_processKeyValue c POWER v s) = powerTransitionInFrame s"
    "raw MODE (rac_processKeyValue c POWER v s) = raw MODE s"
proof -
  obtain fs fs' where fs: "fields_id s POWER = fs @ Power # fs'" "Power \<notin> set fs" "Power \<notin> set fs'" by (rule power_once [OF assms(1,2)])
  have forget: "list_all (\<lambda>f. \<not> remembers f) fs" "list_all (\<lambda>f. \<not> remembers f) fs'" using forgetful [OF assms(1), of POWER] fs(1) by simp_all
  let ?s = "set_raw POWER (Some v) s" and ?g = "\<lambda>f. publish_field c f v"
  have ok: "rac_ok ?s" using assms(1) rac_ok_cong [of ?s s] by (simp add: calm_simps)
  have w: "wishes ?s = wishes s" by (simp add: wishes_def set_raw_def)
  have field: "f \<noteq> Power \<Longrightarrow> hushed s \<Longrightarrow> still (?g f s) = still s"
    "f \<noteq> Power \<Longrightarrow> hushed s \<Longrightarrow> powered_off s \<or> \<not> remembers f \<Longrightarrow> wishes (?g f s) = wishes s" for f s
    using still_field by metis+
  have fold: "still (foldl (\<lambda>s f. ?g f s) t gs) = still t" "wishes (foldl (\<lambda>s f. ?g f s) t gs) = wishes t"
    if "hushed t" "Power \<notin> set gs" "list_all (\<lambda>f. \<not> remembers f) gs" for t gs
    using still_fold [OF that(1), of gs ?g] field that(2,3) by metis+
  define a where "a = process_mode c (foldl (\<lambda>s f. ?g f s) ?s fs)"
  have 1: "still (foldl (\<lambda>s f. ?g f s) ?s fs) = still ?s" "wishes (foldl (\<lambda>s f. ?g f s) ?s fs) = wishes s"
    using fold [OF assms(3) fs(2) forget(1)] w by simp_all
  have a: "still a = still ?s" "wishes a = wishes s"
    using still_process_mode [of "foldl (\<lambda>s f. ?g f s) ?s fs" c] hushed_still [OF 1(1)] stillD(7) [OF 1(1)] ok assms(3) 1 by (simp_all add: a_def)
  note aD = stillD [OF a(1)]
  define b where "b = (if powerStatePrev s \<noteq> None \<and> powerStatePrev s \<noteq> Some (v \<noteq> 0) then run_hooks c (powerChangeHooks s) a else a)"
  have ps: "powerStatePrev a = powerStatePrev s" "powerChangeHooks a = powerChangeHooks s" "rac_ok a"
    using aD(3,5,7) ok staticD(6) [of a s] by (simp_all add: calm_simps) (simp add: set_raw_def)
  have b: "look b = look a" "static b = static a" "probes b = probes a"
    using hooks_effect [OF ps(3)] by (simp_all add: b_def)
  define d where "d = b\<lparr>powerStatePrev := Some (v \<noteq> 0)\<rparr>"
  have d: "power_callback c (v \<noteq> 0) (foldl (\<lambda>s f. ?g f s) ?s fs) = d"
    by (simp add: power_callback_def Let_def a_def [symmetric] ps b_def d_def)
  have e: "rac_processKeyValue c POWER v s = foldl (\<lambda>s f. ?g f s) d fs'"
    using d by (simp add: rac_processKeyValue_def fs(1) publish_field_def)
  have bD: "raw POWER b = Some v" "powerTransitionInFrame b = powerTransitionInFrame s" "wishes b = wishes s" "raw MODE b = raw MODE s"
    using lookD(1,2,5) [OF b(1)] look_wishes [OF b(1)] aD(2,4) a(2) by simp_all (simp add: set_raw_def)
  have dD: "raw POWER d = Some v" "powerTransitionInFrame d = powerTransitionInFrame s" "wishes d = wishes s" "writes d = writes b"
    "powerStatePrev d = Some (v \<noteq> 0)" "raw MODE d = raw MODE s"
    using bD by (simp_all add: d_def raw_def wishes_def writes_def)
  have "hushed d" using assms(3) dD(1,2) by (auto simp: hushed_def powered_off_def) (simp_all add: set_raw_def raw_def)
  note z = fold [OF this fs(3) forget(2)]
  note zD = stillD [OF z(1)]
  show thesis
    by (rule that [of a]) (use a z(2) zD(1,2,3,4) dD in \<open>simp_all add: e b_def\<close>)
qed

subsection \<open>Whole frames\<close>

definition kept :: "rac \<Rightarrow> rac \<Rightarrow> bool" where
  "kept s t \<longleftrightarrow> writes t = writes s \<and> powerStatePrev t = powerStatePrev s \<and> powerTransitionInFrame t = powerTransitionInFrame s \<and>
     raw POWER t = raw POWER s \<and> static t = static s \<and> rac_ok t \<and> (powered_off s \<longrightarrow> wishes t = wishes s)"

lemma kept_trans: "kept s t \<Longrightarrow> kept t u \<Longrightarrow> kept s u"
  by (auto simp: kept_def powered_off_def)

lemma kept_refl: "rac_ok s \<Longrightarrow> kept s s"
  by (simp add: kept_def)

lemma keptD:
  assumes "kept s t"
  shows "rac_ok t" "hushed t = hushed s" "powered_off t = powered_off s" "powerStatePrev t = powerStatePrev s" "writes t = writes s"
    "static t = static s" "powered_off s \<Longrightarrow> wishes t = wishes s" "powerTransitionInFrame t = powerTransitionInFrame s"
  using assms by (auto simp: kept_def hushed_def powered_off_def)

text \<open>A tag that says nothing new of the power.\<close>

definition nothing_new :: "rac \<Rightarrow> nat \<times> nat \<Rightarrow> bool" where
  "nothing_new s e \<longleftrightarrow> fst e \<noteq> POWER \<or> snd e = 0 \<and> powered_off s \<and> powerStatePrev s = Some False"

lemma kept_key:
  assumes "rac_ok s" "hushed s" "nothing_new s (k, v)"
  shows "kept s (rac_processKeyValue c k v s)" "raw MODE (rac_processKeyValue c k v s) = (if k = MODE then Some v else raw MODE s)"
proof -
  have "kept s (rac_processKeyValue c k v s) \<and> raw MODE (rac_processKeyValue c k v s) = (if k = MODE then Some v else raw MODE s)"
  proof (cases "k = POWER \<and> rac_config_of s \<noteq> None")
    case True
    then have v: "v = 0" "powered_off s" "powerStatePrev s = Some False" using assms(3) by (auto simp: nothing_new_def)
    have same: "set_raw POWER (Some v) s = s" using v set_raw_same [of POWER s] by (simp add: powered_off_def)
    from True obtain u where u: "still u = still (set_raw POWER (Some v) s)" "wishes u = wishes s"
      "writes (rac_processKeyValue c POWER v s) =
        writes (if powerStatePrev s \<noteq> None \<and> powerStatePrev s \<noteq> Some (v \<noteq> 0) then run_hooks c (powerChangeHooks s) u else u)"
      "wishes (rac_processKeyValue c POWER v s) = wishes s" "raw POWER (rac_processKeyValue c POWER v s) = Some v"
      "powerStatePrev (rac_processKeyValue c POWER v s) = Some (v \<noteq> 0)"
      "powerTransitionInFrame (rac_processKeyValue c POWER v s) = powerTransitionInFrame s"
      "raw MODE (rac_processKeyValue c POWER v s) = raw MODE s"
      using power_key [OF assms(1), of v c] assms(2) unfolding same by blast
    then show ?thesis
      using True u v assms(1) stillD(1) [OF u(1)] ok_processKeyValue [OF assms(1)] by (simp add: kept_def same powered_off_def)
  next
    case False
    have np: "Power \<notin> set (fields_id s k)"
      using False no_power [OF assms(1), of k] assms(1) by (auto simp: rac_ok_def unconfigured_def)
    have t: "writes (set_raw k (Some v) s) = writes s" "powerStatePrev (set_raw k (Some v) s) = powerStatePrev s"
      "powerTransitionInFrame (set_raw k (Some v) s) = powerTransitionInFrame s" "raw POWER (set_raw k (Some v) s) = raw POWER s"
      using assms(3) by (auto simp: nothing_new_def powered_off_def) (simp_all add: set_raw_def)
    then have h: "hushed (set_raw k (Some v) s)" "powered_off (set_raw k (Some v) s) = powered_off s"
      using assms(2) by (simp_all add: hushed_def powered_off_def)
    note k = still_key(1) [OF np h(1), of c]
    show ?thesis
      using stillD(1-4) [OF k] t assms(1) ok_processKeyValue [OF assms(1)] still_key(2) [OF np h(1), of c] h(2) by (simp add: kept_def)
  qed
  then show "kept s (rac_processKeyValue c k v s)" "raw MODE (rac_processKeyValue c k v s) = (if k = MODE then Some v else raw MODE s)"
    by simp_all
qed

lemma kept_feed:
  assumes "rac_ok s" "hushed s" "list_all (nothing_new s) tlvs"
  shows "kept s (feed c tlvs s)" "list_all (\<lambda>e. fst e = MODE \<longrightarrow> snd e = m) tlvs \<Longrightarrow> raw MODE s = Some m \<Longrightarrow> raw MODE (feed c tlvs s) = Some m"
proof -
  have "kept s (feed c tlvs s) \<and>
      (list_all (\<lambda>e. fst e = MODE \<longrightarrow> snd e = m) tlvs \<longrightarrow> raw MODE s = Some m \<longrightarrow> raw MODE (feed c tlvs s) = Some m)"
    using assms
  proof (induction tlvs arbitrary: s)
    case Nil
    then show ?case by (simp add: feed_def kept_refl)
  next
    case (Cons e tlvs)
    obtain k v where e: "e = (k, v)" by (cases e) auto
    let ?t = "rac_processKeyValue c k v s"
    from Cons.prems kept_key [of s k v c] have k: "kept s ?t" "raw MODE ?t = (if k = MODE then Some v else raw MODE s)" by (simp_all add: e)
    have "nothing_new ?t = nothing_new s" using keptD(3,4) [OF k(1)] by (simp add: nothing_new_def fun_eq_iff)
    with Cons.IH [of ?t] Cons.prems keptD(1,2) [OF k(1)] k show ?case by (auto simp: feed_def e intro: kept_trans)
  qed
  then show "kept s (feed c tlvs s)"
    "list_all (\<lambda>e. fst e = MODE \<longrightarrow> snd e = m) tlvs \<Longrightarrow> raw MODE s = Some m \<Longrightarrow> raw MODE (feed c tlvs s) = Some m" by simp_all
qed

lemma wishes_after: "wishes (after_tags c tlvs can s) = wishes s"
proof -
  have "wishes (valuesReceived s) = wishes s" for s by (simp add: valuesReceived_def) (simp add: wishes_def log_out_def)
  then show ?thesis by (simp add: after_tags_def Let_def)
qed

lemma kept_flag: "wishes (s\<lparr>powerTransitionInFrame := x\<rparr>) = wishes s" "writes (s\<lparr>powerTransitionInFrame := x\<rparr>) = writes s"
  by (simp_all add: wishes_def writes_def)

lemma writes_after: "writes (after_tags c tlvs can s) = writes s"
  using rest_after(2) by (simp add: writes_rude)

text \<open>A frame of an appliance that stays off.\<close>

definition off :: "rac \<Rightarrow> bool" where
  "off s \<longleftrightarrow> rac_ok s \<and> powered_off s \<and> powerStatePrev s = Some False"

definition says_off :: "nat \<times> nat \<Rightarrow> bool" where
  "says_off e \<longleftrightarrow> (fst e = POWER \<longrightarrow> snd e = 0)"

lemma off_frame:
  assumes "off s" "list_all says_off tlvs"
  shows "off (rac_processTLV c tlvs can s)" "writes (rac_processTLV c tlvs can s) = writes s" "wishes (rac_processTLV c tlvs can s) = wishes s"
proof -
  have tr: "\<not> power_transition tlvs s"
    using assms by (auto simp: power_transition_def off_def says_off_def list_all_iff list_ex_iff)
  let ?p = "s\<lparr>powerTransitionInFrame := False\<rparr>"
  have p: "prepared tlvs s = ?p" using tr by (simp add: prepared_def)
  have ok: "rac_ok ?p" "hushed ?p" "powered_off ?p" "powerStatePrev ?p = Some False"
    using assms(1) by (simp_all add: off_def ok_flag hushed_def powered_off_def)
  have "list_all (nothing_new ?p) tlvs" using assms(2) ok by (auto simp: list_all_iff nothing_new_def says_off_def)
  note k = keptD [OF kept_feed(1) [OF ok(1,2) this, of c]]
  have v: "view (after_tags c tlvs can (feed c tlvs ?p)) = view (feed c tlvs ?p)" by (rule mildD(2) [OF mild_after])
  have "rac_ok (after_tags c tlvs can (feed c tlvs ?p))" by (rule ok_after [OF k(1)])
  moreover have "powered_off (after_tags c tlvs can (feed c tlvs ?p))" "powerStatePrev (after_tags c tlvs can (feed c tlvs ?p)) = Some False"
    using viewD(1,2) [OF v] k(3,4) ok(3,4) by (simp_all add: powered_off_def)
  ultimately show "off (rac_processTLV c tlvs can s)" by (simp add: rac_processTLV_eq p off_def ok_flag powered_off_def)
  show "writes (rac_processTLV c tlvs can s) = writes s" "wishes (rac_processTLV c tlvs can s) = wishes s"
    using k(5,7) ok(3) by (simp_all add: rac_processTLV_eq p kept_flag writes_after wishes_after)
qed

text \<open>A frame that switches the power: its hooks run, in a state \<open>u\<close> that knows the new power and the new mode.\<close>

lemma power_frame:
  assumes "rac_ok s" "power_transition tlvs s" "distinct (map fst tlvs)"
  obtains "writes (rac_processTLV c tlvs can s) = writes s" "rac_config_of s = None"
  | u v where "writes (rac_processTLV c tlvs can s) = writes (run_hooks c (powerChangeHooks s) u)" "(POWER, v) \<in> set tlvs"
    "raw POWER u = Some v" "rac_ok u" "static u = static s" "writes u = writes s" "powered_off s \<Longrightarrow> wishes u = wishes s"
    "\<And>m. (MODE, m) \<in> set tlvs \<Longrightarrow> raw MODE u = Some m" "powerStatePrev s = Some (v = 0)"
proof -
  let ?p = "prepared tlvs s"
  have p: "rac_ok ?p" "powerTransitionInFrame ?p" "writes ?p = writes s" "powerStatePrev ?p = powerStatePrev s"
    using assms rac_ok_cong [OF calm_prepared(1,2)] by (simp_all add: writes_rude)
      (auto simp: prepared_def set_raw_def split: option.split)
  have po: "powered_off ?p = powered_off s" "wishes ?p = wishes s" "static ?p = static s"
    by (simp_all only: calm_prepared) (auto simp: prepared_def powered_off_def wishes_def set_raw_def raw_def split: option.splits)
  have e: "writes (rac_processTLV c tlvs can s) = writes (feed c tlvs ?p)"
    by (simp add: rac_processTLV_eq kept_flag writes_after)
  from assms(2) obtain v where v: "(POWER, v) \<in> set tlvs" "powerStatePrev s = Some (v = 0)"
    by (auto simp: power_transition_def list_ex_iff split: option.splits)
  then obtain pre post where split: "tlvs = pre @ (POWER, v) # post" by (auto dest: split_list)
  have other: "list_all (\<lambda>e. fst e \<noteq> POWER) pre" "list_all (\<lambda>e. fst e \<noteq> POWER) post" using assms(3) by (force simp: split list_all_iff)+
  have new: "list_all (nothing_new t) pre" "list_all (nothing_new t) post" for t
    using other by (auto simp: list_all_iff nothing_new_def)
  have hp: "hushed ?p" using p(2) by (simp add: hushed_def)
  define a where "a = feed c pre ?p"
  note k = keptD [OF kept_feed(1) [OF p(1) hp new(1), of c, folded a_def]]
  have fl: "powerTransitionInFrame a" using k(8) p(2) by simp
  have feed: "feed c tlvs ?p = feed c post (rac_processKeyValue c POWER v a)"
    by (simp add: split feed_def a_def)
  have m: "raw MODE a = Some m" if mm: "(MODE, m) \<in> set tlvs" for m
  proof -
    have u: "list_all (\<lambda>e. fst e = MODE \<longrightarrow> snd e = m) tlvs"
      using mm assms(3) by (auto simp: list_all_iff dest: eq_key_imp_eq_value)
    then have "list_all (\<lambda>e. fst e = MODE \<longrightarrow> snd e = m) pre" by (simp add: split)
    moreover obtain t n where "find (\<lambda>(t, _). t = MODE) tlvs = Some (t, n)"
      using mm by (cases "find (\<lambda>(t, _). t = MODE) tlvs") (force simp: find_None_iff, auto)
    moreover from this have "n = m"
      using u by (auto simp: find_Some_iff list_all_iff) (metis nth_mem prod.collapse snd_conv fst_conv)
    ultimately have "raw MODE ?p = Some m" using assms(2) by (simp add: prepared_def)
    with kept_feed(2) [OF p(1) hp new(1)] \<open>list_all (\<lambda>e. fst e = MODE \<longrightarrow> snd e = m) pre\<close> show ?thesis by (simp add: a_def)
  qed
  show thesis
  proof (cases "rac_config_of s = None")
    case True
    then have "fields_id a = (\<lambda>_. [])" using k(1) staticD(3,8) [OF k(6)] po(3) staticD(8) [OF po(3)] by (simp add: rac_ok_def unconfigured_def)
    then have "rac_processKeyValue c POWER v a = set_raw POWER (Some v) a" by (simp add: rac_processKeyValue_def)
    moreover have "writes (set_raw POWER (Some v) a) = writes s" "powerTransitionInFrame (set_raw POWER (Some v) a)"
      using k(5) p(3) fl by (simp_all add: set_raw_def writes_def)
    moreover have "rac_ok (set_raw POWER (Some v) a)" using k(1) rac_ok_cong [of "set_raw POWER (Some v) a" a] by (simp add: calm_simps)
    ultimately have "writes (feed c tlvs ?p) = writes s"
      using keptD(5) [OF kept_feed(1) [of "set_raw POWER (Some v) a" post c]] new(2) feed by (simp add: hushed_def)
    then show ?thesis using that(1) True e by simp
  next
    case False
    have cf: "rac_config_of a \<noteq> None" using False staticD(8) [OF k(6)] staticD(8) [OF po(3)] by simp
    have "hushed (set_raw POWER (Some v) a)" using fl by (simp add: hushed_def) (simp add: set_raw_def)
    from power_key [OF k(1) cf this, of c] obtain u where u: "still u = still (set_raw POWER (Some v) a)" "wishes u = wishes a"
      "writes (rac_processKeyValue c POWER v a) =
        writes (if powerStatePrev a \<noteq> None \<and> powerStatePrev a \<noteq> Some (v \<noteq> 0) then run_hooks c (powerChangeHooks a) u else u)"
      "powerTransitionInFrame (rac_processKeyValue c POWER v a) = powerTransitionInFrame a" by metis
    have prev: "powerStatePrev a = Some (v = 0)" using k(4) p(4) v(2) by simp
    have hooks: "powerChangeHooks a = powerChangeHooks s" using staticD(6) [OF k(6)] staticD(6) [OF po(3)] by simp
    have okp: "rac_ok (rac_processKeyValue c POWER v a)" by (rule ok_processKeyValue [OF k(1)])
    have "writes (feed c tlvs ?p) = writes (rac_processKeyValue c POWER v a)"
      unfolding feed using u(4) fl by (intro keptD(5) [OF kept_feed(1) [OF okp _ new(2)]]) (simp add: hushed_def)
    then have w: "writes (rac_processTLV c tlvs can s) = writes (run_hooks c (powerChangeHooks s) u)"
      using u(3) prev hooks e by (cases "v = 0") simp_all
    note uD = stillD [OF u(1)]
    show ?thesis
    proof (rule that(2) [OF w v(1)])
      show "raw POWER u = Some v" "rac_ok u" using uD(2,7) k(1) rac_ok_cong [of "set_raw POWER (Some v) a" a] by (simp_all add: calm_simps)
      show "static u = static s" using uD(5) k(6) po(3) by (simp add: calm_simps)
      show "writes u = writes s" using uD(1) k(5) p(3) by simp
      show "powered_off s \<Longrightarrow> wishes u = wishes s" using u(2) k(7) po by simp
      show "(MODE, n) \<in> set tlvs \<Longrightarrow> raw MODE u = Some n" for n using uD(2) m by simp
      show "powerStatePrev s = Some (v = 0)" by (rule v(2))
    qed
  qed
qed

subsection \<open>What is re-applied\<close>

lemma subseq_concat: "subseq xs ys \<Longrightarrow> subseq (concat (map f xs)) (concat (map f ys))"
  by (induction xs ys rule: list_emb.induct) (auto intro: list_emb_append_mono list_emb_append2)

lemma hooks_off:
  assumes "rac_ok s" "powered_off s" "set hs \<subseteq> set POWER_HOOKS"
  shows "writes (run_hooks c hs s) = writes s"
  using assms
proof (induction hs arbitrary: s)
  case (Cons h hs)
  have "writes (run_hook c h s) = writes s"
    using Cons.prems(2,3) mildD(3) [OF mild_action] by (auto simp: POWER_HOOKS_def run_hook_def writes_rude)
  moreover have "rac_ok (run_hook c h s)" "powered_off (run_hook c h s)"
    using Cons.prems(1,2) calm_hooks [of c "[h]" s] rac_ok_cong [of "run_hook c h s" s] lookD(9) [OF hook_effect [OF Cons.prems(1), THEN conjunct1]]
    by (simp_all add: run_hooks_def)
  ultimately show ?case using Cons.IH [of "run_hook c h s"] Cons.prems(3) by (simp add: run_hooks_def)
qed (simp add: run_hooks_def)

lemma run_hooks_cons: "run_hooks c (h # hs) s = run_hooks c hs (run_hook c h s)"
  by (simp add: run_hooks_def)

lemma ok_hook: "rac_ok s \<Longrightarrow> rac_ok (run_hook c h s)" "fields_ha (run_hook c h s) = fields_ha s"
  using calm_hooks [of c "[h]" s] rac_ok_cong [of "run_hook c h s" s] staticD(4) [of "run_hook c h s" s] by (simp_all add: run_hooks_def)

lemma toggle_tag_bound: "toggle_tag t \<notin> {POWER, MODE}"
  by (simp add: toggle_tag_def split: toggle.split)

lemma setting_cong: "(\<And>i. i \<in> set ids \<Longrightarrow> f i = g i) \<Longrightarrow> setting ids f = setting ids g"
  by (simp add: setting_def cong: map_cong)

lemma toggle_hook_writes:
  assumes "rac_ok s" "\<not> powered_off s" "toggled t s" "right_mode t s" "writable_field (toggle_name t @ ''-'') s \<noteq> None"
  shows "writes (run_hook c (TogglePower t) s) = writes s @ [setting [toggle_tag t] (\<lambda>_. Some 1)]"
proof -
  obtain f where "writable_field (toggle_name t @ ''-'') s = Some f" using assms(5) by auto
  from command_toggle [OF assms(1) this, of c "''ON''"] show ?thesis
    using assms(2-4) by (simp add: run_hook_def Let_def) (rule setting_cong, simp add: set_raw_def)
qed

lemma hooks_write_wish:
  assumes "rac_ok s" "\<not> powered_off s" "toggled t s" "right_mode t s" "writable_field (toggle_name t @ ''-'') s \<noteq> None" "TogglePower t \<in> set hs"
  shows "\<exists>xs. writes (run_hooks c hs s) = writes s @ xs \<and> setting [toggle_tag t] (\<lambda>_. Some 1) \<in> set xs"
  using assms
proof (induction hs arbitrary: s)
  case (Cons h hs)
  have ok: "rac_ok (run_hook c h s)" by (rule ok_hook(1) [OF Cons.prems(1)])
  from hook_effect [OF Cons.prems(1), of c h] obtain xs where l: "look (run_hook c h s) = look s" and xs: "writes (run_hook c h s) = writes s @ xs"
    by blast
  from hooks_effect [OF ok, of c hs] obtain ys where ys: "writes (run_hooks c hs (run_hook c h s)) = writes s @ xs @ ys" using xs by auto
  show ?case
  proof (cases "h = TogglePower t")
    case True
    then have "xs = [setting [toggle_tag t] (\<lambda>_. Some 1)]" using toggle_hook_writes [OF Cons.prems(1-5)] xs by simp
    then show ?thesis using ys by (simp add: run_hooks_cons)
  next
    case False
    have "right_mode t (run_hook c h s)" using Cons.prems(4) lookD(2) [OF l] by (simp add: right_mode_def split: toggle.splits)
    moreover have "writable_field (toggle_name t @ ''-'') (run_hook c h s) \<noteq> None"
      using Cons.prems(5) ok_hook(2) [of c h s] by (simp add: writable_field_def)
    ultimately have "\<exists>zs. writes (run_hooks c hs (run_hook c h s)) = writes (run_hook c h s) @ zs \<and> setting [toggle_tag t] (\<lambda>_. Some 1) \<in> set zs"
      using Cons.prems False lookD(9,10) [OF l] by (intro Cons.IH [OF ok]) simp_all
    then show ?thesis using xs by (auto simp: run_hooks_cons)
  qed
qed simp

subsection \<open>Runs\<close>

text \<open>Once configured, the tables stay.\<close>

lemma static_processTLV:
  assumes "initialValuesReceived s"
  shows "static (rac_processTLV c tlvs can s) = static s" "filterInitialQueryTimeout (rac_processTLV c tlvs can s) = filterInitialQueryTimeout s"
proof -
  have "initialValuesReceived (feed c tlvs (prepared tlvs s))"
    using assms staticD(5) [OF calm_feed(1)] staticD(5) [OF calm_prepared(1)] by simp
  then have v: "valuesReceived (lift f (feed c tlvs (prepared tlvs s))) = lift f (feed c tlvs (prepared tlvs s))"
    "valuesReceived (lift f (lift g (feed c tlvs (prepared tlvs s)))) = lift f (lift g (feed c tlvs (prepared tlvs s)))" for f g
    by (simp_all add: valuesReceived_def lift_def Let_def)
  then have a: "static (after_tags c tlvs can (feed c tlvs (prepared tlvs s))) = static s"
    "probes (after_tags c tlvs can (feed c tlvs (prepared tlvs s))) = probes s"
    by (simp_all add: after_tags_def Let_def calm_simps)
  from a(1) show "static (rac_processTLV c tlvs can s) = static s" by (simp add: rac_processTLV_eq calm_simps)
  from a(2) show "filterInitialQueryTimeout (rac_processTLV c tlvs can s) = filterInitialQueryTimeout s"
    by (simp add: rac_processTLV_eq probes_def)
qed

lemma static_data:
  assumes "initialValuesReceived s" "\<not> filterInitialQueryTimeout s"
  shows "static (rac_processData c buf s) = static s"
proof -
  have l: "static (rac_processTLV c tlvs can (lift f s)) = static s"
    "filterInitialQueryTimeout (rac_processTLV c tlvs can (lift f s)) = filterInitialQueryTimeout s" for tlvs can f
    using static_processTLV [of "lift f s" c tlvs can] assms(1) by (simp_all add: calm_simps) (simp_all add: lift_def Let_def)
  have f: "static (processPrivData c k buf t) = static t" if "\<not> filterInitialQueryTimeout t" for t k buf
    using that by (simp add: processPrivData_def processFilterData_def Let_def)
  have r: "static (processPrivDataCmdResp x k t) = static t" for x k t
    by (simp add: processPrivDataCmdResp_def processFilterCmdResp_def)
  have "static t = static s" if "rac_processPushFrame c buf s = (x, t)" for x t
    using that l by (auto simp: rac_processPushFrame_def Let_def calm_simps split: if_splits option.splits)
  then show ?thesis
    using assms(2) by (auto simp: rac_processData_def Let_def l f r split: prod.split bool.split)
qed

lemma configuredD:
  assumes "rac_ok s" "rac_config_of s \<noteq> None"
  shows "initialValuesReceived s" "\<not> filterInitialQueryTimeout s" "\<not> tlvBlacklistDisableTimer s" "subseq (powerChangeHooks s) POWER_HOOKS"
    "\<exists>L. registered L s"
  using assms by (auto simp: rac_ok_def)

lemma static_stop: "static (rac_stopTimers s) = static s" "static (rac_drop s) = static s"
proof -
  have "static (s\<lparr>tlvBlacklistDisableTimer := False, increasedQueryIntervalTimeout := False, filterInitialQueryTimeout := False,
      filterQueryTimer := False\<rparr>) = static s" by (simp add: static_def)
  then show "static (rac_stopTimers s) = static s" by (simp add: rac_stopTimers_def Let_def calm_simps)
  then show "static (rac_drop s) = static s" by (simp add: rac_drop_def calm_simps)
qed

lemma static_step:
  assumes "rac_ok s" "rac_config_of s \<noteq> None"
  shows "static (rac_step s e) = static s"
proof -
  obtain c ev where e: "e = (c, ev)" by (cases e) auto
  note cf = configuredD [OF assms]
  show ?thesis
    by (cases ev) (use cf static_data static_stop calm_config in \<open>simp_all add: e calm_simps\<close>)
qed

text \<open>Events without a command in which every frame says that the appliance is off.\<close>

definition stays_off :: "string \<Rightarrow> clock \<times> rac_event \<Rightarrow> bool" where
  "stays_off model e \<longleftrightarrow> (case snd e of
     SetProperty _ _ \<Rightarrow> False
   | Data buf \<Rightarrow> list_all says_off (reported model buf)
   | _ \<Rightarrow> True)"

lemma off_housekeeping: "housekeeping s t \<Longrightarrow> off s \<Longrightarrow> off t \<and> writes t = writes s \<and> wishes t = wishes s"
  using viewD(1,2) [of t s] by (simp add: housekeeping_def off_def powered_off_def writes_rude)

lemma off_step:
  assumes "off s" "stays_off (modelId s) e"
  shows "off (rac_step s e) \<and> writes (rac_step s e) = writes s \<and> wishes (rac_step s e) = wishes s"
proof -
  have "rac_ok s" using assms(1) by (simp add: off_def)
  moreover have "\<And>p v. snd e \<noteq> SetProperty p v" using assms(2) by (auto simp: stays_off_def)
  ultimately obtain t u where t: "housekeeping s t" "housekeeping u (rac_step s e)"
    "u = t \<or> (\<exists>buf can. snd e = Data buf \<and> u = rac_processTLV (fst e) (reported (modelId s) buf) can t)" using step_split by blast
  note a = off_housekeeping [OF t(1) assms(1)]
  have "off u \<and> writes u = writes s \<and> wishes u = wishes s"
    using t(3) a assms(2) off_frame [of t] by (auto simp: stays_off_def)
  then show ?thesis using off_housekeeping [OF t(2)] by simp
qed

lemma off_steps:
  assumes "off s" "list_all (stays_off (modelId s)) es"
  shows "off (foldl rac_step s es) \<and> writes (foldl rac_step s es) = writes s \<and> wishes (foldl rac_step s es) = wishes s"
  using assms
proof (induction es arbitrary: s)
  case (Cons e es)
  have "modelId (rac_step s e) = modelId s" using ok_rac_step(2) Cons.prems(1) by (simp add: off_def)
  with Cons off_step [of s e] show ?case by simp
qed simp

lemma static_steps: "rac_ok s \<Longrightarrow> rac_config_of s \<noteq> None \<Longrightarrow> static (foldl rac_step s es) = static s"
proof (induction es arbitrary: s)
  case (Cons e es)
  have "static (rac_step s e) = static s" by (rule static_step [OF Cons.prems])
  then show ?case using Cons.IH [of "rac_step s e"] Cons.prems ok_rac_step(1) [of s e] staticD(8) [of "rac_step s e" s] by simp
qed simp

text \<open>The frame that switches the power.\<close>

lemma transition_view: "view t = view s \<Longrightarrow> power_transition tlvs t = power_transition tlvs s"
  using viewD(2) [of t s] by (simp add: power_transition_def)

lemma transition_data:
  assumes "rac_ok s" "power_transition (reported (modelId s) buf) s"
  obtains t can where "housekeeping s t" "static t = static s" "power_transition (reported (modelId s) buf) t"
    "writes (rac_processData c buf s) = writes (rac_processTLV c (reported (modelId s) buf) can t)"
proof -
  from data_split [OF assms(1), where c = c and buf = buf] obtain t u can where t: "housekeeping s t"
    "u = t \<and> reported (modelId s) buf = [] \<or> u = rac_processTLV c (reported (modelId s) buf) can t" "housekeeping u (rac_processData c buf s)" "static t = static s" .
  have "reported (modelId s) buf \<noteq> []" using assms(2) by (auto simp: power_transition_def split: option.splits)
  then have "u = rac_processTLV c (reported (modelId s) buf) can t" using t(2) by simp
  then show thesis using that [OF t(1,4)] t(1,3) transition_view [of t s] assms(2) by (simp add: housekeeping_def writes_rude)
qed

text \<open>
  C17. When the appliance is switched on or off by itself, the handler re-applies its wishes once: in the frame that
  brings the new power - wherever in it the power's tag stands - at most the tags of air cleaning, of the jet
  mode and of energy saving are written, each at most once and in this order, and when the frame says that
  the appliance is off nothing is written at all.
\<close>

theorem power_change_writes_each_wish_once:
  assumes "power_transition (reported model buf) (rac_run now model primary es)" "distinct (map fst (reported model buf))"
  shows "\<exists>xs. writes (rac_run now model primary (es @ [(c, Data buf)])) = writes (rac_run now model primary es) @ xs \<and>
    subseq (map written_tag xs) [0x20f, 0x323, 0x20d] \<and> ((POWER, 0) \<in> set (reported model buf) \<longrightarrow> xs = [])"
proof -
  let ?s = "rac_run now model primary es"
  have ok: "rac_ok ?s" "modelId ?s = model" by (rule ok_rac_run, rule model_run)
  have tr: "power_transition (reported (modelId ?s) buf) ?s" using assms(1) ok(2) by simp
  from transition_data [OF ok(1) tr, of c] obtain t can where t: "housekeeping ?s t" "static t = static ?s"
    "power_transition (reported model buf) t"
    "writes (rac_processData c buf ?s) = writes (rac_processTLV c (reported model buf) can t)" unfolding ok(2) by metis
  have okt: "rac_ok t" "writes t = writes ?s" using t(1) by (simp_all add: housekeeping_def writes_rude)
  from power_frame [OF okt(1) t(3) assms(2), of c can] show ?thesis
  proof cases
    case 1
    then show ?thesis using t(4) okt(2) by (intro exI [of _ "[]"]) (simp add: rac_run_snoc)
  next
    case (2 u v)
    have sub: "subseq (powerChangeHooks t) POWER_HOOKS" using okt(1) by (auto simp: rac_ok_def unconfigured_def split: if_splits)
    have "concat (map hook_tags POWER_HOOKS) = [0x20f, 0x323, 0x20d]" by (simp add: POWER_HOOKS_def hook_tags_def toggle_tag_def)
    then have h: "subseq (concat (map hook_tags (powerChangeHooks t))) [0x20f, 0x323, 0x20d]" "set (powerChangeHooks t) \<subseteq> set POWER_HOOKS"
      using subseq_concat [OF sub, of hook_tags] subseq_not_in [OF sub] by (metis, metis subsetI)
    from hooks_effect [OF 2(4), of c "powerChangeHooks t"] obtain xs where xs: "writes (run_hooks c (powerChangeHooks t) u) = writes u @ xs"
      "subseq (map written_tag xs) (concat (map hook_tags (powerChangeHooks t)))" by blast
    have "v = 0" if "(POWER, 0) \<in> set (reported model buf)" using that 2(2) assms(2) by (auto dest: eq_key_imp_eq_value)
    then have "xs = []" if "(POWER, 0) \<in> set (reported model buf)"
      using that hooks_off [OF 2(4) _ h(2), of c] 2(3) xs(1) by (simp add: powered_off_def)
    then show ?thesis using xs h(1) 2 t(4) okt(2) by (intro exI [of _ xs]) (auto simp: rac_run_snoc intro: subseq_order.order_trans)
  qed
qed

lemma rac_run_append: "rac_run now model primary (es @ es') = foldl rac_step (rac_run now model primary es) es'"
  by (simp add: rac_run_def)

lemma toggled_wishes: "wishes t = wishes s \<Longrightarrow> toggled x t = toggled x s"
  by (simp add: wishes_def toggled_def split: toggle.split)

lemma wish_while_off:
  fixes c :: clock
  assumes "off s" "writable_field (toggle_name t @ ''-'') s \<noteq> None"
  defines "s' \<equiv> rac_setProperty c (toggle_name t @ ''-'') ''ON'' s"
  shows "off s'" "writes s' = writes s" "toggled t s'" "static s' = static s"
proof -
  obtain f where "writable_field (toggle_name t @ ''-'') s = Some f" using assms(2) by auto
  from command_toggle [OF _ this, of c "''ON''"] assms(1) have s': "s' = set_toggled t True s"
    by (simp add: s'_def off_def Let_def)
  then have st: "static s' = static s" "probes s' = probes s" by (simp_all add: calm_simps)
  show "static s' = static s" by (rule st(1))
  show "writes s' = writes s" "toggled t s'" by (simp_all add: s') (simp add: toggled_def set_toggled_def split: toggle.split)
  show "off s'" using rac_ok_cong [OF st] assms(1) by (simp add: off_def) (auto simp: s' powered_off_def raw_def set_toggled_def split: toggle.split)
qed

lemma writable_configured:
  assumes "rac_ok s" "writable_field p s \<noteq> None"
  shows "rac_config_of s \<noteq> None"
  using assms by (auto simp: rac_ok_def unconfigured_def writable_field_def split: if_splits)

lemma toggle_hooked:
  assumes "rac_ok s" "writable_field (toggle_name t @ ''-'') s \<noteq> None"
  shows "TogglePower t \<in> set (powerChangeHooks s)"
proof -
  from assms(2) obtain f where f: "writable_field (toggle_name t @ ''-'') s = Some f" by auto
  then have F: "f = Toggle t" using field_by_name(1,2) [OF assms(1) f] by (cases t) (simp_all add: toggle_name_def)
  from configuredD(5) [OF assms(1) writable_configured [OF assms]] obtain L where L: "registered L s" by blast
  have "fields_ha s (toggle_name t @ ''-'') = Some f" using f by (auto simp: writable_field_def split: option.splits if_splits)
  then show ?thesis using L F by (auto simp: registered_def)
qed

text \<open>
  C18. Air cleaning or energy saving asked for while the appliance is off is remembered and not sent: nothing is
  written at the command nor while the appliance stays off, whatever it reports of the two settings meanwhile,
  and the frame that brings the appliance up (cooling, where energy saving is meant) makes the handler
  write the setting, switched on.
\<close>

theorem wish_kept_until_power_up:
  assumes "powered_off (rac_run now model primary es)" "powerStatePrev (rac_run now model primary es) = Some False"
    "writable_field (toggle_name t @ ''-'') (rac_run now model primary es) \<noteq> None" "list_all (stays_off model) meanwhile"
    "distinct (map fst (reported model buf))" "(POWER, v) \<in> set (reported model buf)" "v \<noteq> 0"
    "t = EnergySave \<longrightarrow> (MODE, 0) \<in> set (reported model buf)"
  shows "writes (rac_run now model primary (es @ (c, SetProperty (toggle_name t @ ''-'') ''ON'') # meanwhile)) = writes (rac_run now model primary es) \<and>
    (\<exists>xs. writes (rac_run now model primary (es @ (c, SetProperty (toggle_name t @ ''-'') ''ON'') # meanwhile @ [(c', Data buf)])) =
        writes (rac_run now model primary es) @ xs \<and> setting [toggle_tag t] (\<lambda>_. Some 1) \<in> set xs)"
proof -
  let ?s = "rac_run now model primary es"
  define s1 where "s1 = rac_setProperty c (toggle_name t @ ''-'') ''ON'' ?s"
  define s2 where "s2 = foldl rac_step s1 meanwhile"
  have s0: "off ?s" "modelId ?s = model" using assms(1,2) ok_rac_run model_run by (simp_all add: off_def)
  have ok0: "rac_ok ?s" by (rule ok_rac_run)
  note s1 = wish_while_off [OF s0(1) assms(3), of c, folded s1_def]
  have "modelId s1 = model" using staticD(1) [OF s1(4)] s0(2) by simp
  note s2 = off_steps [of s1 meanwhile, OF s1(1), unfolded this, OF assms(4), folded s2_def]
  have ok1: "rac_ok s1" "rac_config_of s1 \<noteq> None"
    using s1(1) writable_configured [OF ok0 assms(3)] staticD(8) [OF s1(4)] by (simp_all add: off_def)
  have st2: "static s2 = static ?s" using static_steps [OF ok1, of meanwhile] s1(4) by (simp add: s2_def)
  have ok2: "rac_ok s2" "modelId s2 = model" "powered_off s2" using s2 staticD(1) [OF st2] s0(2) by (simp_all add: off_def)
  have tr: "power_transition (reported (modelId s2) buf) s2"
    using assms(6,7) s2 ok2(2) by (auto simp: power_transition_def off_def list_ex_iff)
  from transition_data [OF ok2(1) tr, of c'] obtain w can where w: "housekeeping s2 w" "static w = static s2"
    "power_transition (reported model buf) w"
    "writes (rac_processData c' buf s2) = writes (rac_processTLV c' (reported model buf) can w)" unfolding ok2(2) by metis
  have okw: "rac_ok w" "writes w = writes s2" "wishes w = wishes s2" "powered_off w"
    using w(1) ok2(3) viewD(1) [of w s2] by (simp_all add: housekeeping_def writes_rude powered_off_def)
  have "\<exists>xs. writes (rac_processTLV c' (reported model buf) can w) = writes w @ xs \<and> setting [toggle_tag t] (\<lambda>_. Some 1) \<in> set xs"
    using power_frame [OF okw(1) w(3) assms(5), of c' can]
  proof cases
    case 1
    then show ?thesis using staticD(8) [OF w(2)] staticD(8) [OF st2] writable_configured [OF ok0 assms(3)] by simp
  next
    case (2 u v')
    have v: "v' = v" using 2(2) assms(5,6) by (auto dest: eq_key_imp_eq_value)
    have stu: "static u = static ?s" using 2(5) w(2) st2 by simp
    have "writable_field (toggle_name t @ ''-'') u \<noteq> None"
      using assms(3) staticD(4) [OF stu] by (simp add: writable_field_def)
    moreover have "TogglePower t \<in> set (powerChangeHooks w)"
      using toggle_hooked [OF ok0 assms(3)] staticD(6) [OF w(2)] staticD(6) [OF st2] by simp
    moreover have "toggled t u" using toggled_wishes [of u s1] s1(3) 2(7) okw s2 by simp
    moreover have "right_mode t u" using 2(8) assms(8) by (simp add: right_mode_def split: toggle.split)
    moreover have "\<not> powered_off u" using 2(3) v assms(7) by (simp add: powered_off_def)
    ultimately have "\<exists>xs. writes (run_hooks c' (powerChangeHooks w) u) = writes u @ xs \<and> setting [toggle_tag t] (\<lambda>_. Some 1) \<in> set xs"
      using hooks_write_wish [OF 2(4)] by blast
    then show ?thesis using 2(1,6) by simp
  qed
  moreover have "writes s2 = writes ?s" using s1(2) s2 by simp
  ultimately show ?thesis using w(4) okw(2) by (simp add: rac_run_append s1_def [symmetric] s2_def [symmetric])
qed

text \<open>
  C16. An appliance left alone is left alone: over any run without a command in which the appliance always
  reports the same power and the same mode - the handler's start, its configuration, refreshes, filter queries
  and pushes - not one setting is written to it, so that it never beeps.
\<close>

theorem idle_appliance_is_not_written:
  assumes "list_all (undisturbed b m model) es"
  shows "writes (rac_run now model primary es) = []"
proof -
  have "at_rest b m (rac_run now model primary es) \<and> rude (rac_run now model primary es) = rude (new_rac now model primary)"
    using assms
  proof (induction es rule: rev_induct)
    case Nil
    then show ?case by (simp add: rac_run_def new_rac_def at_rest_def raw_def Let_def log_out_def new_device_def queryCaps_def send_def out_def)
  next
    case (snoc e es)
    then show ?case using rest_step [OF ok_rac_run, of b m now model primary es e] by (simp add: rac_run_snoc model_run)
  qed
  moreover have "writes (new_rac now model primary) = []"
    by (simp add: writes_def new_rac_def Let_def log_out_def new_device_def queryCaps_def send_def out_def is_write_def tlv_packet_kind QUERY_HEADER_def)
  ultimately show ?thesis by (simp add: writes_rude)
qed

lemma option_eqI: "(\<And>x. a = Some x \<longleftrightarrow> b = Some x) \<Longrightarrow> a = b"
  by (cases a; cases b) auto

lemma subseq_distinct: "subseq xs ys \<Longrightarrow> distinct ys \<Longrightarrow> distinct xs"
  by (auto simp: subseq_conv_nths)

text \<open>
  C21. The tables are consistent at every moment: before the configuration there are no fields and no hooks;
  afterwards a field is found under its own tag and under its own name only, no two fields share a name,
  the power's field is there, and no hook is registered twice.
\<close>

theorem tables_are_consistent:
  "let s = rac_run now model primary es in
    (if rac_config_of s = None then fields_id s = (\<lambda>_. []) \<and> fields_ha s = Map.empty \<and> powerChangeHooks s = [] \<and> modeChangeHooks s = []
     else (\<exists>L. distinct (map (\<lambda>f. fullName (field_of f)) L) \<and> Power \<in> set L \<and>
         fields_id s = (\<lambda>i. filter (\<lambda>f. fd_id (field_of f) = Some i) L) \<and>
         fields_ha s ''filterreset'' \<in> {None, Some FilterReset} \<and>
         (fields_ha s)(''filterreset'' := None) = map_of (map (\<lambda>f. (fullName (field_of f), f)) L)) \<and>
       distinct (powerChangeHooks s) \<and> distinct (modeChangeHooks s))"
proof -
  let ?s = "rac_run now model primary es"
  have ok: "rac_ok ?s" by (rule ok_rac_run)
  show ?thesis
  proof (cases "rac_config_of ?s = None")
    case True
    then show ?thesis using ok by (simp add: rac_ok_def unconfigured_def)
  next
    case False
    then obtain L where L: "registered L ?s" "subseq (map name_of L) ALL_NAMES" "Power \<in> set (fields_id ?s POWER)"
      "subseq (powerChangeHooks ?s) POWER_HOOKS" "subseq (modeChangeHooks ?s) MODE_HOOKS"
      using ok by (auto simp: rac_ok_def)
    have d: "distinct (map name_of L)" by (rule subseq_distinct [OF L(2) names_distinct])
    have "distinct POWER_HOOKS" "distinct MODE_HOOKS" by (simp_all add: POWER_HOOKS_def MODE_HOOKS_def)
    then have h: "distinct (powerChangeHooks ?s)" "distinct (modeChangeHooks ?s)" using subseq_distinct L(4,5) by blast+
    have m: "map_of (map (\<lambda>f. (name_of f, f)) L) p = Some f \<longleftrightarrow> f \<in> set L \<and> p = name_of f" for p f
      using d by (subst map_of_eq_Some_iff) (auto simp: comp_def)
    have "((fields_ha ?s)(''filterreset'' := None)) p = map_of (map (\<lambda>f. (name_of f, f)) L) p" for p
      by (rule option_eqI) (use L(1) name_filterreset name_filterreset [THEN not_sym] in \<open>auto simp: m registered_def\<close>)
    then have map: "(fields_ha ?s)(''filterreset'' := None) = map_of (map (\<lambda>f. (fullName (field_of f), f)) L)"
      by (intro ext) (simp only: name_of_def)
    have r: "fields_ha ?s ''filterreset'' \<in> {None, Some FilterReset}"
    proof (cases "fields_ha ?s ''filterreset''")
      case (Some f)
      then have "f \<in> set L \<and> ''filterreset'' = name_of f \<or> f = FilterReset" using L(1) by (auto simp: registered_def)
      then show ?thesis using Some name_filterreset [of f] by auto
    qed simp
    have L': "Power \<in> set L" "fields_id ?s = (\<lambda>i. filter (\<lambda>f. fd_id (field_of f) = Some i) L)" using L(1,3) by (auto simp: registered_def)
    have "distinct (map (\<lambda>f. fullName (field_of f)) L)" using d by (simp only: name_of_def [abs_def])
    with map r L' h False show ?thesis unfolding Let_def by (simp only: if_False) blast
  qed
qed

text \<open>The fields that may only be written while the appliance is on.\<close>

definition needs_power :: "rac_field \<Rightarrow> bool" where
  "needs_power f \<longleftrightarrow> (case f of FanMode \<Rightarrow> True | SwingMode \<Rightarrow> True | SwingHorizontal \<Rightarrow> True | Toggle _ \<Rightarrow> True | Jet _ _ \<Rightarrow> True | _ \<Rightarrow> False)"

lemma needs_power_names:
  assumes "rac_ok s" "writable_field p s = Some f"
  shows "p = ''climate-fan_mode'' \<Longrightarrow> needs_power f" "p = ''climate-swing_mode'' \<Longrightarrow> needs_power f"
    "p = ''climate-swing_horizontal_mode'' \<Longrightarrow> needs_power f" "p = ''airclean-'' \<Longrightarrow> needs_power f"
    "p = ''energysave-'' \<Longrightarrow> needs_power f" "p = ''jet-'' \<Longrightarrow> needs_power f"
proof -
  show "needs_power f" if "p = ''jet-''"
  proof -
    obtain a b where "f = Jet a b" using field_by_name(3) [OF assms] \<open>p = ''jet-''\<close> by blast
    then show ?thesis by (simp add: needs_power_def)
  qed
qed (use field_by_name(4) [OF assms, THEN iffD1] field_by_name(5) [OF assms, THEN iffD1] field_by_name(6) [OF assms, THEN iffD1]
    field_by_name(1) [OF assms, THEN iffD1] field_by_name(2) [OF assms, THEN iffD1] in \<open>simp_all only: needs_power_def rac_field.case\<close>)

lemma needs_power_refused:
  assumes "needs_power f" "powered_off s"
  shows "\<not> fst (may_write c f v s)" "rac_log (snd (may_write c f v s)) = rac_log s" "rac_log (write_raw c f v s) = rac_log s"
proof -
  have t: "powered_off (set_toggled t b s) = powered_off s" "rac_log (set_toggled t b s) = rac_log s" for t b
    by (simp_all add: powered_off_def raw_def set_toggled_def split: toggle.split)
  show 1: "\<not> fst (may_write c f v s)" "rac_log (snd (may_write c f v s)) = rac_log s"
    using assms by (cases f; simp add: needs_power_def may_write_def Let_def t)+
  then show "rac_log (write_raw c f v s) = rac_log s" by (simp add: write_raw_def split_def Let_def split: option.split)
qed

text \<open>
  While the appliance is off, the airflow is not touched: a command for the fan's speed, for either swing, for
  air cleaning, for energy saving or for the jet mode makes the handler say nothing, neither to the appliance
  nor to Home Assistant, whatever its text.
\<close>

theorem airflow_refused_while_off:
  assumes "powered_off (rac_run now model primary es)"
    "p \<in> {''climate-fan_mode'', ''climate-swing_mode'', ''climate-swing_horizontal_mode'', ''airclean-'', ''energysave-'', ''jet-''}"
  shows "rac_log (rac_run now model primary (es @ [(c, SetProperty p val)])) = rac_log (rac_run now model primary es)"
proof -
  let ?s = "rac_run now model primary es"
  have "rac_log (rac_setProperty c p val ?s) = rac_log ?s"
  proof (cases "writable_field p ?s")
    case None
    then show ?thesis by (simp add: rac_setProperty_def)
  next
    case (Some f)
    have f: "needs_power f"
      using assms(2) by (elim insertE emptyE) (rule needs_power_names [OF ok_rac_run Some], assumption)+
    have w: "powered_off (jet_wish f val ?s)" "rac_log (jet_wish f val ?s) = rac_log ?s"
      using assms(1) by (simp_all add: jet_wish_def powered_off_def raw_def split: rac_field.split)
    from f have "f \<noteq> Mode" by (auto simp: needs_power_def)
    then show ?thesis
      using Some needs_power_refused(3) [OF f w(1)] w(2) by (simp add: rac_setProperty_def write_text_def split: written.split)
  qed
  then show ?thesis by (simp add: rac_run_snoc)
qed

subsection \<open>An appliance to try the theorems on\<close>

text \<open>Frames of an appliance, and what is read of them.\<close>

definition sample_elements :: "tag_value list \<Rightarrow> tlv list" where
  "sample_elements tlvs = map (\<lambda>(t, v). \<lparr>tlv_t = t, tlv_l = None, tlv_v = Some v\<rparr>) tlvs"

definition sample_frame :: "tag_value list \<Rightarrow> buffer" where
  "sample_frame tlvs = [0, 0, 4, 0, 0, 0, 0x87, 2, 4, 0, word_of_nat (length (build (sample_elements tlvs)))] @ build (sample_elements tlvs) @ [0, 0]"

lemma sample_frame:
  assumes "length (build (sample_elements tlvs)) \<le> 255"
  shows "\<not> is_push_frame (sample_frame tlvs)" "is_tlv_frame (sample_frame tlvs)" "\<not> is_priv_frame (sample_frame tlvs)"
    "\<not> is_priv_response (sample_frame tlvs)" "sample_frame tlvs ! 9 = 0"
    "parse (subarray 11 (length (sample_frame tlvs) - 2) (sample_frame tlvs)) = map canon (sample_elements tlvs)"
proof -
  have l: "unat (word_of_nat (length (build (sample_elements tlvs))) :: byte) = length (build (sample_elements tlvs))"
    using assms by (simp add: word_of_nat_byte_eq)
  show "\<not> is_push_frame (sample_frame tlvs)" "is_tlv_frame (sample_frame tlvs)" "\<not> is_priv_frame (sample_frame tlvs)"
    "\<not> is_priv_response (sample_frame tlvs)" "sample_frame tlvs ! 9 = 0"
    using l by (simp_all add: is_push_frame_def is_tlv_frame_def is_priv_frame_def is_priv_response_def uart_head_def declared_length_def sample_frame_def)
  have "subarray 11 (length (sample_frame tlvs) - 2) (sample_frame tlvs) = build (sample_elements tlvs)"
    by (simp add: sample_frame_def subarray_def)
  then show "parse (subarray 11 (length (sample_frame tlvs) - 2) (sample_frame tlvs)) = map canon (sample_elements tlvs)"
    using parse_build [of "sample_elements tlvs" "[]"] by simp
qed

lemma sample_reads:
  assumes "length (build (sample_elements tlvs)) \<le> 255"
  shows "reported m (sample_frame tlvs) = tag_values (map canon (sample_elements tlvs))"
    "rac_processData c (sample_frame tlvs) s =
      rac_processTLV c (tag_values (map canon (sample_elements tlvs))) True (lift (\<lambda>d. heard (d\<lparr>lastReplySequence := Some 0\<rparr>)) s)"
  by (simp_all add: reported_def rac_processData_def rac_processPushFrame_def sample_frame [OF assms])

definition sample_clock :: clock where "sample_clock = \<lparr>now_ms = 0, utc_date = (2026, 1, 1)\<rparr>"


definition first_frame :: buffer where
  "first_frame = sample_frame [(0x2da, 1), (0x2cc, 3), (0x2f1, 1), (POWER, 0), (MODE, 0), (0x1fa, 2), (0x1fe, 48), (0x1fd, 50), (0x20f, 0), (0x20d, 0)]"
definition off_frame :: buffer where "off_frame = sample_frame [(POWER, 0)]"
definition on_frame :: buffer where "on_frame = sample_frame [(MODE, 0), (POWER, 1)]"

definition sample_start :: "(clock \<times> rac_event) list" where
  "sample_start = [(sample_clock, Data first_frame), (sample_clock, MaskTimer), (sample_clock, Data off_frame)]"



lemma sample_lengths:
  "length (build (sample_elements [(0x2da, 1), (0x2cc, 3), (0x2f1, 1), (POWER, 0), (MODE, 0), (0x1fa, 2), (0x1fe, 48), (0x1fd, 50), (0x20f, 0), (0x20d, 0)])) \<le> 255"
  "length (build (sample_elements [(POWER, 0)])) \<le> 255" "length (build (sample_elements [(MODE, 0), (POWER, 1)])) \<le> 255"
  by (simp_all add: sample_elements_def build_def build_element_bytes)

lemma sample_tags:
  "reported m first_frame = [(0x2da, 1), (0x2cc, 3), (0x2f1, 1), (POWER, 0), (MODE, 0), (0x1fa, 2), (0x1fe, 48), (0x1fd, 50), (0x20f, 0), (0x20d, 0)]"
  "reported m off_frame = [(POWER, 0)]" "reported m on_frame = [(MODE, 0), (POWER, 1)]"
  unfolding first_frame_def off_frame_def on_frame_def sample_reads(1) [OF sample_lengths(1)] sample_reads(1) [OF sample_lengths(2)] sample_reads(1) [OF sample_lengths(3)]
  by (simp_all add: sample_elements_def tag_values_def canon_def canon_value_def)

lemma sample_data:
  assumes "buf \<in> {first_frame, off_frame, on_frame}"
  shows "rac_processData c buf s = rac_processTLV c (reported [] buf) True (lift (\<lambda>d. heard (d\<lparr>lastReplySequence := Some 0\<rparr>)) s)"
proof -
  from assms obtain tlvs where "buf = sample_frame tlvs" "length (build (sample_elements tlvs)) \<le> 255"
    unfolding first_frame_def off_frame_def on_frame_def using sample_lengths by blast
  then show ?thesis using sample_reads [of tlvs] by simp
qed

definition sample1 :: rac where "sample1 = rac_step (new_rac 0 ''RAC_056905_WW'' None) (sample_clock, Data first_frame)"


lemma unconfigured_feed:
  assumes "fields_id s = (\<lambda>_. [])"
  shows "raw k (feed c tlvs s) = (case map_of (rev tlvs) k of Some v \<Rightarrow> Some v | None \<Rightarrow> raw k s)"
    "query_caps_timeout (base (feed c tlvs s)) = query_caps_timeout (base s)" "powerStatePrev (feed c tlvs s) = powerStatePrev s"
    "powerTransitionInFrame (feed c tlvs s) = powerTransitionInFrame s"
proof -
  have "raw k (feed c tlvs s) = (case map_of (rev tlvs) k of Some v \<Rightarrow> Some v | None \<Rightarrow> raw k s) \<and>
      query_caps_timeout (base (feed c tlvs s)) = query_caps_timeout (base s) \<and> powerStatePrev (feed c tlvs s) = powerStatePrev s \<and>
      powerTransitionInFrame (feed c tlvs s) = powerTransitionInFrame s"
    using assms
  proof (induction tlvs arbitrary: s)
    case Nil
    then show ?case by (simp add: feed_def)
  next
    case (Cons e tlvs)
    obtain t v where e: "e = (t, v)" by (cases e) auto
    have k: "rac_processKeyValue c t v s = set_raw t (Some v) s" using Cons.prems by (simp add: rac_processKeyValue_def)
    have "fields_id (set_raw t (Some v) s) = (\<lambda>_. [])" using Cons.prems by (simp add: set_raw_def)
    from Cons.IH [OF this] show ?case
      by (simp add: e feed_def k map_add_def split: option.split) (simp add: set_raw_def)
  qed
  then show "raw k (feed c tlvs s) = (case map_of (rev tlvs) k of Some v \<Rightarrow> Some v | None \<Rightarrow> raw k s)"
    "query_caps_timeout (base (feed c tlvs s)) = query_caps_timeout (base s)" "powerStatePrev (feed c tlvs s) = powerStatePrev s"
    "powerTransitionInFrame (feed c tlvs s) = powerTransitionInFrame s" by simp_all
qed

lemma first_answer:
  assumes "query_caps_timeout (base s)" "marksCapsResponse tlvs" "rac_isValuesResponse tlvs" "\<not> initialValuesReceived s"
  shows "raw k (after_tags c tlvs True s) = raw k s" "initialValuesReceived (after_tags c tlvs True s)" "tlvBlacklistDisableTimer (after_tags c tlvs True s)"
    "fields_id (after_tags c tlvs True s) = fields_id s" "rac_config_of (after_tags c tlvs True s) = rac_config_of s"
    "outdoor_primary (after_tags c tlvs True s) = outdoor_primary s"
    "filterLifeTime (after_tags c tlvs True s) = filterLifeTime s" "powerStatePrev (after_tags c tlvs True s) = powerStatePrev s"
  using assms by (simp_all add: after_tags_def Let_def valuesReceived_def lift_def raw_def log_out_def query_def send_def out_def)

lemma sample1:
  "fields_id sample1 = (\<lambda>_. [])" "outdoor_primary sample1 = None"
  "initialValuesReceived sample1" "tlvBlacklistDisableTimer sample1" "filterLifeTime sample1 = 0" "rac_config_of sample1 = None"
  "powerStatePrev sample1 = None" 
  "raw k sample1 = [0x2da \<mapsto> 1, 0x2cc \<mapsto> 3, 0x2f1 \<mapsto> 1, POWER \<mapsto> 0, MODE \<mapsto> 0, 0x1fa \<mapsto> 2, 0x1fe \<mapsto> 48, 0x1fd \<mapsto> 50, 0x20f \<mapsto> 0, 0x20d \<mapsto> 0] k"
proof -
  define tlvs where "tlvs = reported [] first_frame"
  define s0 where "s0 = lift (\<lambda>d. heard (d\<lparr>lastReplySequence := Some 0\<rparr>)) (new_rac 0 ''RAC_056905_WW'' None)"
  have s0: "fields_id s0 = (\<lambda>_. [])" "outdoor_primary s0 = None" "\<not> initialValuesReceived s0" "filterLifeTime s0 = 0" "rac_config_of s0 = None"
    "powerStatePrev s0 = None" "raw k s0 = None" "query_caps_timeout (base s0)" "powerTransitionInFrame s0 = False" for k
    by (simp_all add: s0_def lift_def new_rac_def Let_def heard_def new_device_def queryCaps_def send_def out_def raw_def log_out_def)
  have "sample1 = rac_processTLV sample_clock tlvs True s0" by (simp add: sample1_def sample_data tlvs_def s0_def)
  moreover have "prepared tlvs s0 = s0" using s0(6,9) by (simp add: prepared_def power_transition_def)
  ultimately have 1: "sample1 = (after_tags sample_clock tlvs True (feed sample_clock tlvs s0))\<lparr>powerTransitionInFrame := False\<rparr>"
    using s0(9) by (simp add: rac_processTLV_eq)
  have m: "marksCapsResponse tlvs" "rac_isValuesResponse tlvs"
    unfolding tlvs_def sample_tags by (simp_all add: marksCapsResponse_def CAPS_RESPONSE_TAGS_def rac_isValuesResponse_def)
  note f = unconfigured_feed [OF s0(1), where c = sample_clock and tlvs = tlvs]
  have st: "static (feed sample_clock tlvs s0) = static s0" "probes (feed sample_clock tlvs s0) = probes s0" by simp_all
  have iv: "\<not> initialValuesReceived (feed sample_clock tlvs s0)" "query_caps_timeout (base (feed sample_clock tlvs s0))"
    using staticD(5) [OF st(1)] s0 f by simp_all
  note a = first_answer [OF iv(2) m iv(1), where c = sample_clock]
  show "fields_id sample1 = (\<lambda>_. [])" "outdoor_primary sample1 = None" "initialValuesReceived sample1" "tlvBlacklistDisableTimer sample1" "filterLifeTime sample1 = 0"
    "powerStatePrev sample1 = None" "rac_config_of sample1 = None"
    unfolding 1 using a staticD(2,3,8) [OF st(1)] s0 st(2) f by (simp_all add: probes_def)
  have "map_of (rev tlvs) k = [0x2da \<mapsto> 1, 0x2cc \<mapsto> 3, 0x2f1 \<mapsto> 1, POWER \<mapsto> 0, MODE \<mapsto> 0, 0x1fa \<mapsto> 2, 0x1fe \<mapsto> 48, 0x1fd \<mapsto> 50, 0x20f \<mapsto> 0, 0x20d \<mapsto> 0] k"
    unfolding tlvs_def sample_tags by simp
  then show "raw k sample1 = [0x2da \<mapsto> 1, 0x2cc \<mapsto> 3, 0x2f1 \<mapsto> 1, POWER \<mapsto> 0, MODE \<mapsto> 0, 0x1fa \<mapsto> 2, 0x1fe \<mapsto> 48, 0x1fd \<mapsto> 50, 0x20f \<mapsto> 0, 0x20d \<mapsto> 0] k"
    unfolding 1 using a(1) f(1) s0(7) by (simp del: fun_upd_apply split: option.split)
qed

lemma filed_toggle:
  assumes "building_ok s0 NS K PH MH b"
  shows "filed (Toggle t) (addModeDependentConfigSwitchField t b)"
proof -
  from assms obtain s config where "b = (s, Inr config)" by (rule building_okE)
  then have "filed (Toggle t) (add_field (Toggle t) True (set_component (toggle_name t) ''switch'' [] b))"
    by (cases t) (auto simp: filed_def add_field_def set_component_def push_new_def field_of_def fdef_def split: sum.split)
  then show ?thesis by (cases t) (simp_all add: addModeDependentConfigSwitchField_def only_if_def filed_simps)
qed

lemma air_cleaning_filed:
  assumes "unconfigured s" "tag_has 0x2cc 1 (fst (sensor_fields (basic_fields (s, Inr (initial_config s)))))"
  shows "filed (Toggle AirClean) (configured s)"
proof -
  have "building_ok s [] {''climate''} [] [] (s, Inr (initial_config s))"
    using assms by (auto simp: building_ok_def initial_config_def registered_def unconfigured_def)
  from filed_toggle [OF sensor_fields_ok [OF basic_fields_ok [OF this]]]
  have "filed (Toggle AirClean) (addModeDependentConfigSwitchField AirClean (sensor_fields (basic_fields (s, Inr (initial_config s)))))" .
  then have "filed (Toggle AirClean) (control_fields (sensor_fields (basic_fields (s, Inr (initial_config s)))))"
    using assms(2) by (simp add: control_fields_def Let_def only_if_def filed_simps filed_add filed_more split: option.split)
  then show ?thesis unfolding configured_def by (rule filed_end)
qed

text \<open>An air conditioner that has air cleaning, configured and heard to be off.\<close>

definition sample2 :: rac where "sample2 = rac_step sample1 (sample_clock, MaskTimer)"

lemma sample2:
  "rac_ok sample2" "rac_config_of sample2 \<noteq> None" "Toggle AirClean \<in> set (fields_id sample2 0x20f)" "raw POWER sample2 = Some 0" "powerStatePrev sample2 = None"
proof -
  have run: "sample1 = rac_run 0 ''RAC_056905_WW'' None [(sample_clock, Data first_frame)]"
    "sample2 = rac_run 0 ''RAC_056905_WW'' None [(sample_clock, Data first_frame), (sample_clock, MaskTimer)]"
    by (simp_all add: sample1_def sample2_def rac_run_def)
  then have ok: "rac_ok sample1" "rac_ok sample2" using ok_rac_run by metis+
  show "rac_ok sample2" by (rule ok(2))
  let ?s = "sample1\<lparr>tlvBlacklistDisableTimer := False\<rparr>"
  have t: "rac_ok ?s" by (rule rac_ok_probes [OF ok(1)]) simp_all
  have r: "raw k ?s = raw k sample1" for k by (simp add: raw_def)
  have two: "sample2 = initMakeSetConfig sample_clock ?s"
    using sample1(4) r sample1(8) [where k = "0x2f1"] by (simp add: sample2_def mask_disabled_def Let_def tag_has_def)
  show "rac_config_of sample2 \<noteq> None"
    unfolding two by (rule ok_configure(2) [OF t]) (use ok(1) sample1 in \<open>simp_all add: rac_ok_def\<close>)
  have u: "unconfigured ?s" using t sample1(6) by (simp add: rac_ok_def)
  have "housekeeping sample1 sample2"
    unfolding sample2_def using housekeeping_mask [OF ok(1) sample1(4)] sample1(4) by simp
  then show "raw POWER sample2 = Some 0" "powerStatePrev sample2 = None"
    using viewD(1,2) [of sample2 sample1] sample1(7) sample1(8) [where k = POWER] by (simp_all add: housekeeping_def)
  have "building_ok ?s [] {''climate''} [] [] (?s, Inr (initial_config ?s))"
    using u by (auto simp: building_ok_def initial_config_def registered_def unconfigured_def)
  from sensor_fields_ok [OF basic_fields_ok [OF this]] have "core (fst (sensor_fields (basic_fields (?s, Inr (initial_config ?s))))) = core ?s"
    by (rule building_okE) (simp only: fst_conv)
  then have "raw 0x2cc (fst (sensor_fields (basic_fields (?s, Inr (initial_config ?s))))) = raw 0x2cc ?s"
    using core_eqD(4) by (metis raw_def)
  then have o: "filed (Toggle AirClean) (configured ?s)"
    using r sample1(8) [where k = "0x2cc"] by (intro air_cleaning_filed [OF u]) (simp add: tag_has_def)
  from u obtain w config L where w: "configured ?s = (w, Inr config)" "initMakeSetConfig sample_clock ?s = (let s = setConfig config (retired w) w;
         s = (if filterLifeTime s \<noteq> 0 then (publishFilterData s)\<lparr>filterQueryTimer := True\<rparr> else s) in lift (query (now_ms sample_clock)) s)"
    by (rule initMakeSetConfig_ok)
  define v where "v = setConfig config (retired w) w"
  have "fields_id v = fields_id w" by (simp add: v_def setConfig_def publishConfig_def log_out_def)
  moreover have "fields_id ((publishFilterData v)\<lparr>filterQueryTimer := True\<rparr>) = fields_id v"
    using staticD(3) [OF calm_filter_data(1), of v] by simp
  ultimately have "fields_id sample2 = fields_id w"
    unfolding two w(2) Let_def v_def [symmetric] using staticD(3) [OF calm_simps(3)] by simp
  then show "Toggle AirClean \<in> set (fields_id sample2 0x20f)" using o by (simp add: filed_def w(1) field_of_def fdef_def)
qed

definition sample_off :: rac where "sample_off = rac_run 0 ''RAC_056905_WW'' None sample_start"

lemma sample_off:
  "powered_off sample_off" "powerStatePrev sample_off = Some False" "writable_field (toggle_name AirClean @ ''-'') sample_off \<noteq> None"
proof -
  define s where "s = (lift (\<lambda>d. heard (d\<lparr>lastReplySequence := Some 0\<rparr>)) sample2)\<lparr>powerTransitionInFrame := False\<rparr>"
  have off: "sample_off = rac_processData sample_clock off_frame sample2"
    by (simp add: sample_off_def rac_run_def sample_start_def sample2_def sample1_def)
  have s: "rac_ok s" "rac_config_of s \<noteq> None" "raw POWER s = Some 0" "powerStatePrev s = None"
  proof -
    show "rac_ok s" using sample2(1) unfolding s_def ok_flag ok_lift .
    show "rac_config_of s \<noteq> None" using sample2(2) by (simp add: s_def lift_def Let_def)
    show "raw POWER s = Some 0" "powerStatePrev s = None" using sample2(4,5) by (simp_all add: s_def lift_def Let_def raw_def heard_def out_def)
  qed
  have "set_raw POWER (Some 0) s = s" using set_raw_same [of POWER s] s(3) by simp
  then have "hushed (set_raw POWER (Some 0) s)" using s(3) by (simp add: hushed_def powered_off_def)
  from power_key [OF s(1,2) this, of sample_clock] have k: "raw POWER (rac_processKeyValue sample_clock POWER 0 s) = Some 0"
    "powerStatePrev (rac_processKeyValue sample_clock POWER 0 s) = Some False" by (metis, metis)
  have "prepared (reported [] off_frame) (lift (\<lambda>d. heard (d\<lparr>lastReplySequence := Some 0\<rparr>)) sample2) = s"
    using sample2(5) by (simp add: prepared_def power_transition_def s_def lift_def Let_def)
  then have e: "sample_off = (after_tags sample_clock (reported [] off_frame) True (rac_processKeyValue sample_clock POWER 0 s))
      \<lparr>powerTransitionInFrame := powerTransitionInFrame (lift (\<lambda>d. heard (d\<lparr>lastReplySequence := Some 0\<rparr>)) sample2)\<rparr>"
    unfolding off by (simp add: sample_data rac_processTLV_eq) (simp add: sample_tags feed_def)
  have "view (after_tags sample_clock tlvs True t) = view t" for tlvs t by (rule mildD(2) [OF mild_after])
  from viewD(1,2) [OF this] show "powered_off sample_off" "powerStatePrev sample_off = Some False"
    unfolding e using k by (simp_all add: powered_off_def)
  have "static sample_off = static sample2"
    unfolding off using configuredD [OF sample2(1,2)] by (intro static_data)
  then have cf: "rac_config_of sample_off \<noteq> None" "Toggle AirClean \<in> set (fields_id sample_off 0x20f)"
    using staticD(3,8) [of sample_off sample2] sample2(2,3) by simp_all
  have ok: "rac_ok sample_off" unfolding sample_off_def by (rule ok_rac_run)
  obtain L where L: "registered L sample_off" using configuredD(5) [OF ok cf(1)] by blast
  then have "fields_ha sample_off (name_of (Toggle AirClean)) = Some (Toggle AirClean)" using cf(2) by (auto simp: registered_def)
  then show "writable_field (toggle_name AirClean @ ''-'') sample_off \<noteq> None"
    by (simp add: writable_field_def toggle_name_def field_facts)
qed

lemma wish_kept_until_power_up_witness:
  "\<exists>xs. writes (rac_run 0 ''RAC_056905_WW'' None (sample_start @ (sample_clock, SetProperty ''airclean-'' ''ON'') # [(sample_clock, Data off_frame)] @
      [(sample_clock, Data on_frame)])) = writes sample_off @ xs \<and> setting [0x20f] (\<lambda>_. Some 1) \<in> set xs"
  using wish_kept_until_power_up [where t = AirClean and now = 0 and model = "''RAC_056905_WW''" and primary = None and es = sample_start and
      meanwhile = "[(sample_clock, Data off_frame)]" and buf = on_frame and v = 1 and c = sample_clock and c' = sample_clock]
    sample_off sample_tags
  by (simp add: sample_off_def toggle_name_def toggle_tag_def stays_off_def says_off_def)

lemma power_change_writes_each_wish_once_witness:
  "\<exists>xs. writes (rac_run 0 ''RAC_056905_WW'' None (sample_start @ [(sample_clock, Data on_frame)])) = writes sample_off @ xs \<and>
    subseq (map written_tag xs) [0x20f, 0x323, 0x20d]"
  using power_change_writes_each_wish_once [where now = 0 and model = "''RAC_056905_WW''" and primary = None and es = sample_start and
      buf = on_frame and c = sample_clock] sample_off sample_tags
  by (auto simp: sample_off_def power_transition_def)

lemma idle_appliance_is_not_written_witness:
  "writes (rac_run 0 ''RAC_056905_WW'' None sample_start) = []"
  by (rule idle_appliance_is_not_written [where b = False and m = 0])
    (simp add: sample_start_def undisturbed_def sample_tags says_rest_def)

lemma airflow_refused_while_off_witness:
  "rac_log (rac_run 0 ''RAC_056905_WW'' None (sample_start @ [(sample_clock, SetProperty ''climate-fan_mode'' ''high'')])) = rac_log sample_off"
  unfolding sample_off_def by (rule airflow_refused_while_off) (simp_all add: sample_off [unfolded sample_off_def])

end
