(* ===== verification/Hostname.thy ===== *)
theory Hostname
  imports Prelude
begin

text \<open>
  Host names: \<open>util/hostname.ts\<close>, and the lower case of \<open>toLowerCase\<close> on the ASCII letters. A
  name is a string of bytes; one with a byte beyond ASCII is no host name.
\<close>

definition lower :: "char \<Rightarrow> char" where
  "lower c = (if of_char c \<ge> (65 :: nat) \<and> of_char c \<le> (90 :: nat) then char_of (of_char c + 32 :: nat) else c)"

definition label_char :: "char \<Rightarrow> bool" where
  "label_char c \<longleftrightarrow> alnum c \<or> c = CHR ''-''"

text \<open>\<open>/^[a-z0-9](?:[a-z0-9-]{0,61}[a-z0-9])?$/i\<close>\<close>

definition dns_label :: "string \<Rightarrow> bool" where
  "dns_label l \<longleftrightarrow> l \<noteq> [] \<and> length l \<le> 63 \<and> alnum (hd l) \<and> alnum (last l) \<and> list_all label_char l"

definition isDNSHostname :: "string \<Rightarrow> bool" where
  "isDNSHostname v \<longleftrightarrow> 1 \<le> length v \<and> length v \<le> 253 \<and>
    list_all (\<lambda>c. alnum c \<or> c \<in> {CHR ''.'', CHR ''-''}) v \<and> list_all dns_label (split_on CHR ''.'' v)"

end
