(* ===== verification/SniRouter.thy ===== *)
theory SniRouter
  imports Hostname
begin

text \<open>
  Which host an appliance asked for, before any certificate is offered:
  \<open>cloud/sni_router.ts\<close>. \<open>readServerName\<close> reads a TLS ClientHello; a read out of range throws
  and is caught, so it is \<open>None\<close>, like every other reason to have no name. \<open>peek\<close> is the loop
  over what the socket has to read, \<open>sni_step\<close> the server with all its connections.
\<close>

definition MAX_HELLO_BYTES :: nat where "MAX_HELLO_BYTES = 8 * 1024"
definition MAX_PENDING_PREFACES :: nat where "MAX_PENDING_PREFACES = 64"

subsection \<open>The ClientHello\<close>

definition read16 :: "buffer \<Rightarrow> nat \<Rightarrow> nat option" where
  "read16 b i = (if i + 2 \<le> length b then Some (unat (b ! i) * 256 + unat (b ! (i + 1))) else None)"

definition ascii :: "buffer \<Rightarrow> string" where
  "ascii b = map (\<lambda>x. char_of (unat x mod 128)) b"

function find_name :: "buffer \<Rightarrow> nat \<Rightarrow> nat \<Rightarrow> string option" where
  "find_name hello extensionsEnd at =
    (if at + 4 \<le> extensionsEnd then
       (case (read16 hello at, read16 hello (at + 2)) of
          (Some type, Some len) \<Rightarrow>
            let body = at + 4 in
            if type = 0 \<and> body + 5 \<le> extensionsEnd then
              (case read16 hello (body + 3) of
                 Some nameLength \<Rightarrow>
                   let start = body + 5 in
                   if idx hello (body + 2) \<noteq> Some 0 \<or> start + nameLength > extensionsEnd then None
                   else Some (ascii (subarray start (start + nameLength) hello))
               | None \<Rightarrow> None)
            else find_name hello extensionsEnd (body + len)
        | _ \<Rightarrow> None)
     else None)"
  by pat_completeness auto
termination
  by (relation "measure (\<lambda>(hello, extensionsEnd, at). extensionsEnd - at)") auto

declare find_name.simps [simp del]

definition readServerName :: "buffer \<Rightarrow> string option" where
  "readServerName hello =
    (if length hello < 47 \<or> hello ! 0 \<noteq> 0x16 \<or> hello ! 5 \<noteq> 0x01 then None
     else
       let at = 43 + 1 + unat (hello ! 43) in
       (case read16 hello at of
          None \<Rightarrow> None
        | Some cipherSuites \<Rightarrow>
            let at = at + 2 + cipherSuites in
            (case idx hello at of
               None \<Rightarrow> None
             | Some compression \<Rightarrow>
                 let at = at + 1 + unat compression in
                 if at + 2 > length hello then None
                 else (case read16 hello at of
                     None \<Rightarrow> None
                   | Some n \<Rightarrow> find_name hello (min (n + at + 2) (length hello)) (at + 2)))))"

subsection \<open>Host patterns\<close>

text \<open>
  A pattern becomes a regular expression: every special character is escaped except \<open>*\<close>, which
  becomes \<open>.*\<close>, and \<open>?\<close>, which stays what it is to a regular expression. After a character a
  \<open>?\<close> makes it optional, a second one (and the first one after \<open>*\<close>) makes the quantifier lazy,
  which changes nothing between \<open>^\<close> and \<open>$\<close>; one more, or one at the beginning, is the
  \<open>SyntaxError\<close> \<open>None\<close>.
\<close>

datatype host_tok = Lit char | Opt char | Star

fun host_toks :: "string \<Rightarrow> host_tok list option" where
  "host_toks [] = Some []"
| "host_toks [c] = (if c = CHR ''?'' then None else Some [if c = CHR ''*'' then Star else Lit c])"
| "host_toks (c # d # cs) =
    (if c = CHR ''?'' then None
     else if d \<noteq> CHR ''?'' then map_option ((#) (if c = CHR ''*'' then Star else Lit c)) (host_toks (d # cs))
     else if c = CHR ''*'' then map_option ((#) Star) (host_toks cs)
     else if cs \<noteq> [] \<and> hd cs = CHR ''?'' then map_option ((#) (Opt c)) (host_toks (tl cs))
     else map_option ((#) (Opt c)) (host_toks cs))"

definition same_char :: "char \<Rightarrow> char \<Rightarrow> bool" where
  "same_char a b \<longleftrightarrow> lower a = lower b"

definition line_end :: "char \<Rightarrow> bool" where
  "line_end c \<longleftrightarrow> c = CHR 0x0A \<or> c = CHR 0x0D"

fun tok_match :: "host_tok list \<Rightarrow> string \<Rightarrow> bool" where
  "tok_match [] s = (s = [])"
| "tok_match (Lit c # ts) s = (case s of x # xs \<Rightarrow> same_char x c \<and> tok_match ts xs | [] \<Rightarrow> False)"
| "tok_match (Opt c # ts) s = (tok_match ts s \<or> (case s of x # xs \<Rightarrow> same_char x c \<and> tok_match ts xs | [] \<Rightarrow> False))"
| "tok_match (Star # ts) [] = tok_match ts []"
| "tok_match (Star # ts) (x # xs) = (tok_match ts (x # xs) \<or> (\<not> line_end x \<and> tok_match (Star # ts) xs))"

definition matchesHostPattern :: "string \<Rightarrow> string \<Rightarrow> bool option" where
  "matchesHostPattern hostname pattern = map_option (\<lambda>ts. tok_match ts hostname) (host_toks pattern)"

text \<open>\<open>patterns.some\<close>: the first pattern that matches, or throws, decides.\<close>

fun some_match :: "string list \<Rightarrow> string \<Rightarrow> bool option" where
  "some_match [] h = Some False"
| "some_match (p # ps) h =
    (case matchesHostPattern h p of None \<Rightarrow> None | Some True \<Rightarrow> Some True | Some False \<Rightarrow> some_match ps h)"

subsection \<open>One connection\<close>

record sni_options =
  passThrough :: "string list"
  stall :: "string list"

datatype fate = Peeking | Locally | Spliced string | Stalled string | Destroyed | Gone | Thrown

definition route_host :: "sni_options \<Rightarrow> string \<Rightarrow> fate" where
  "route_host cfg hostname =
    (case some_match (passThrough cfg) hostname of
       None \<Rightarrow> Thrown
     | Some True \<Rightarrow> Spliced hostname
     | Some False \<Rightarrow> (case some_match (stall cfg) hostname of
         None \<Rightarrow> Thrown | Some True \<Rightarrow> Stalled hostname | Some False \<Rightarrow> Locally))"

text \<open>
  The loop of \<open>onReadable\<close>: the bytes put back or sent on are \<open>buffered\<close>, the chunks not read
  stay on the socket. An empty name is falsy and does not count as a name.
\<close>

fun peek :: "sni_options \<Rightarrow> buffer \<Rightarrow> buffer list \<Rightarrow> fate \<times> buffer \<times> buffer list" where
  "peek cfg buffered [] = (Peeking, buffered, [])"
| "peek cfg buffered (chunk # rest) =
    (let buffered = buffered @ chunk in
     case readServerName buffered of
       Some (c # cs) \<Rightarrow> (route_host cfg (c # cs), buffered, rest)
     | _ \<Rightarrow> if length buffered \<ge> MAX_HELLO_BYTES then (Locally, buffered, rest) else peek cfg buffered rest)"

subsection \<open>The server\<close>

record sni_conn =
  sc_buffered :: buffer
  sc_settled :: bool
  sc_fate :: fate

record sni_server =
  sc_pending :: nat
  sc_conns :: "sni_conn list"

datatype sni_event =
    Connection
  | Readable nat "buffer list"
  | SocketEnd nat
  | SocketError nat
  | SocketClose nat
  | PrefaceTimeout nat

text \<open>\<open>stopPeeking\<close>, and what the caller of it makes of the connection.\<close>

definition stop_peeking :: "nat \<Rightarrow> fate \<Rightarrow> buffer \<Rightarrow> sni_server \<Rightarrow> sni_server" where
  "stop_peeking i f b s =
    (if i < length (sc_conns s) \<and> \<not> sc_settled (sc_conns s ! i)
     then s\<lparr>sc_pending := sc_pending s - 1,
            sc_conns := (sc_conns s)[i := \<lparr>sc_buffered = b, sc_settled = True, sc_fate = f\<rparr>]\<rparr>
     else s)"

definition on_readable :: "sni_options \<Rightarrow> nat \<Rightarrow> buffer list \<Rightarrow> sni_server \<Rightarrow> sni_server" where
  "on_readable cfg i chunks s =
    (if i < length (sc_conns s) \<and> \<not> sc_settled (sc_conns s ! i) then
       (case peek cfg (sc_buffered (sc_conns s ! i)) chunks of
          (Peeking, b, _) \<Rightarrow> s\<lparr>sc_conns := (sc_conns s)[i := (sc_conns s ! i)\<lparr>sc_buffered := b\<rparr>]\<rparr>
        | (Thrown, b, _) \<Rightarrow> s\<lparr>sc_conns := (sc_conns s)[i := (sc_conns s ! i)\<lparr>sc_buffered := b, sc_fate := Thrown\<rparr>]\<rparr>
        | (f, b, _) \<Rightarrow> stop_peeking i f b s)
     else s)"

definition accept_socket :: "sni_server \<Rightarrow> sni_server" where
  "accept_socket s =
    (if sc_pending s \<ge> MAX_PENDING_PREFACES
     then s\<lparr>sc_conns := sc_conns s @ [\<lparr>sc_buffered = [], sc_settled = True, sc_fate = Destroyed\<rparr>]\<rparr>
     else s\<lparr>sc_pending := sc_pending s + 1,
            sc_conns := sc_conns s @ [\<lparr>sc_buffered = [], sc_settled = False, sc_fate = Peeking\<rparr>]\<rparr>)"

fun sni_step :: "sni_options \<Rightarrow> sni_server \<Rightarrow> sni_event \<Rightarrow> sni_server" where
  "sni_step cfg s Connection = accept_socket s"
| "sni_step cfg s (Readable i chunks) = on_readable cfg i chunks s"
| "sni_step cfg s (SocketEnd i) = stop_peeking i Locally (sc_buffered (sc_conns s ! i)) s"
| "sni_step cfg s (SocketError i) = stop_peeking i Destroyed (sc_buffered (sc_conns s ! i)) s"
| "sni_step cfg s (SocketClose i) = stop_peeking i Gone (sc_buffered (sc_conns s ! i)) s"
| "sni_step cfg s (PrefaceTimeout i) = stop_peeking i Destroyed (sc_buffered (sc_conns s ! i)) s"

definition sni_run :: "sni_options \<Rightarrow> sni_event list \<Rightarrow> sni_server" where
  "sni_run cfg evs = foldl (sni_step cfg) \<lparr>sc_pending = 0, sc_conns = []\<rparr> evs"

subsection \<open>A name, once read, does not change\<close>

lemma read16_append: "read16 b i = Some v \<Longrightarrow> read16 (b @ m) i = Some v"
  by (auto simp: read16_def nth_append split: if_splits)

lemma subarray_append: "n \<le> length b \<Longrightarrow> subarray i n (b @ m) = subarray i n b"
  by (cases "i \<le> length b") (simp_all add: subarray_def)

lemma find_name_room: "find_name b e at = Some n \<Longrightarrow> at + 9 \<le> e"
proof (induction b e at rule: find_name.induct)
  case (1 b e at)
  then show ?case
    by (subst (asm) (2) find_name.simps) (force simp: Let_def split: if_splits option.splits)
qed

lemma find_name_append:
  "find_name b e at = Some n \<Longrightarrow> e \<le> e' \<Longrightarrow> e \<le> length b \<Longrightarrow> find_name (b @ m) e' at = Some n"
proof (induction b e at rule: find_name.induct)
  case (1 b e at)
  have r: "at + 4 \<le> e" "at + 4 \<le> e'" using find_name_room [OF 1(2)] 1(3) by simp_all
  obtain t l where t: "read16 b at = Some t" "read16 b (at + 2) = Some l"
    using 1(2) r by (subst (asm) find_name.simps) (auto split: option.splits)
  note t' = read16_append [OF t(1), of m] read16_append [OF t(2), of m]
  show ?case
  proof (cases "t = 0 \<and> at + 9 \<le> e")
    case True
    then have c: "t = 0 \<and> at + 4 + 5 \<le> e" "t = 0 \<and> at + 4 + 5 \<le> e'" using 1(3) by simp_all
    have "\<exists>k. read16 b (at + 7) = Some k \<and> idx b (at + 6) = Some 0 \<and> at + 9 + k \<le> e \<and>
        n = ascii (subarray (at + 9) (at + 9 + k) b)"
      using 1(2) r t c by (subst (asm) find_name.simps) (auto simp: Let_def add.assoc add.commute [of 6 at] split: option.splits if_splits)
    then obtain k where k: "read16 b (at + 7) = Some k" "idx b (at + 6) = Some 0" "at + 9 + k \<le> e"
        "n = ascii (subarray (at + 9) (at + 9 + k) b)" by blast
    then have "read16 (b @ m) (at + 7) = Some k" "idx (b @ m) (at + 6) = Some 0"
        "subarray (at + 9) (at + 9 + k) (b @ m) = subarray (at + 9) (at + 9 + k) b"
      using read16_append [OF k(1)] le_trans [OF k(3) 1(4)] k(2) by (auto simp: idx_append js_simps subarray_append)
    then show ?thesis
      using r t' c k 1(3) by (subst find_name.simps) (simp add: Let_def add.assoc add.commute [of 6 at])
  next
    case False
    have rest: "find_name b e (at + 4 + l) = Some n"
      using 1(2) r t False by (subst (asm) find_name.simps) (auto simp: Let_def add.assoc split: if_splits)
    then have "t \<noteq> 0" using False find_name_room [OF rest] by auto
    moreover have "find_name (b @ m) e' (at + 4 + l) = Some n"
      using 1(1) [OF r(1) refl t refl] False rest 1(3,4) by (simp add: add.assoc)
    ultimately show ?thesis
      using r t' by (subst find_name.simps) (simp add: Let_def add.assoc)
  qed
qed

lemma readServerName_append:
  assumes "readServerName b = Some n"
  shows "readServerName (b @ m) = Some n"
proof -
  define at1 where "at1 = 44 + unat (b ! 43)"
  have h: "\<not> length b < 47" "b ! 0 = 0x16" "b ! 5 = 1"
    using assms by (auto simp: readServerName_def split: if_splits)
  obtain cs where cs: "read16 b at1 = Some cs"
    using assms h by (auto simp: readServerName_def at1_def Let_def split: option.splits)
  define at2 where "at2 = at1 + 2 + cs"
  obtain cm where cm: "idx b at2 = Some cm"
    using assms h cs by (auto simp: readServerName_def at1_def at2_def Let_def split: option.splits)
  define at3 where "at3 = at2 + 1 + unat cm"
  have at3: "at3 + 2 \<le> length b"
    using assms h cs cm by (auto simp: readServerName_def at1_def at2_def at3_def Let_def split: option.splits if_splits)
  obtain k where k: "read16 b at3 = Some k"
    using assms h cs cm at3 by (auto simp: readServerName_def at1_def at2_def at3_def Let_def split: option.splits if_splits)
  have n: "find_name b (min (k + at3 + 2) (length b)) (at3 + 2) = Some n"
    using assms h cs cm at3 k by (auto simp: readServerName_def at1_def at2_def at3_def Let_def split: if_splits)
  have "find_name (b @ m) (min (k + at3 + 2) (length (b @ m))) (at3 + 2) = Some n"
    by (rule find_name_append [OF n]) auto
  moreover have "(b @ m) ! i = b ! i" if "i \<le> 43" for i using that h by (simp add: nth_append)
  moreover note read16_append [OF cs] read16_append [OF k] at3
  moreover have "idx (b @ m) at2 = Some cm" using cm by (auto simp: idx_append js_simps)
  ultimately show ?thesis
    using h by (simp add: readServerName_def Let_def at3_def at2_def at1_def)
qed

definition decision :: "sni_options \<Rightarrow> buffer \<Rightarrow> fate" where
  "decision cfg b = (case readServerName b of Some (c # cs) \<Rightarrow> route_host cfg (c # cs) | _ \<Rightarrow> Peeking)"

text \<open>
  C8. The decision does not depend on how the ClientHello is cut into reads: within the bound
  on its length, the appliance is routed by the name in everything it has sent, it keeps being
  read exactly while that names no host, and no byte is lost: what is handed on and what is
  still unread make up what was sent.
\<close>

theorem sni_decision_fragmentation:
  assumes "length (concat chunks) < MAX_HELLO_BYTES"
    and "peek cfg [] chunks = (f, b, rest)"
  shows "f = decision cfg (concat chunks) \<and> b @ concat rest = concat chunks"
proof -
  have "f = decision cfg (pre @ concat chunks) \<and> b @ concat rest = pre @ concat chunks"
    if "length (pre @ concat chunks) < MAX_HELLO_BYTES" "peek cfg pre chunks = (f, b, rest)"
      "decision cfg pre = Peeking" "\<And>c cs. readServerName pre \<noteq> Some (c # cs)" for pre
    using that
  proof (induction chunks arbitrary: pre)
    case Nil
    then show ?case by auto
  next
    case (Cons chunk chunks)
    show ?case
    proof (cases "\<exists>c cs. readServerName (pre @ chunk) = Some (c # cs)")
      case True
      then obtain c cs where n: "readServerName (pre @ chunk) = Some (c # cs)" by blast
      have "readServerName (pre @ chunk @ concat chunks) = Some (c # cs)"
        using readServerName_append [OF n, of "concat chunks"] by simp
      then show ?thesis using Cons.prems(2) n by (auto simp: decision_def)
    next
      case False
      then have none: "\<And>c cs. readServerName (pre @ chunk) \<noteq> Some (c # cs)" by blast
      then have "decision cfg (pre @ chunk) = Peeking" by (auto simp: decision_def split: option.split list.split)
      moreover have "peek cfg (pre @ chunk) chunks = (f, b, rest)"
        using Cons.prems(1,2) none by (auto simp: Let_def split: option.splits list.splits if_splits)
      ultimately show ?thesis using Cons.IH [of "pre @ chunk"] Cons.prems(1) none by simp
    qed
  qed
  from this [of "[]"] show ?thesis using assms by (simp add: decision_def readServerName_def)
qed

text \<open>A real ClientHello of the TLS specification, with its server name among other extensions.\<close>

definition w16 :: "nat \<Rightarrow> buffer" where
  "w16 n = [word_of_nat (n div 256), word_of_nat (n mod 256)]"

definition tls_ext :: "nat \<times> buffer \<Rightarrow> buffer" where
  "tls_ext e = w16 (fst e) @ w16 (length (snd e)) @ snd e"

definition sni_ext :: "buffer \<Rightarrow> nat \<times> buffer" where
  "sni_ext name = (0, w16 (length name + 3) @ [0] @ w16 (length name) @ name)"

definition client_hello :: "buffer \<Rightarrow> buffer \<Rightarrow> buffer \<Rightarrow> buffer \<Rightarrow> (nat \<times> buffer) list \<Rightarrow> buffer" where
  "client_hello head sid ciphers comps exts =
    head @ [word_of_nat (length sid)] @ sid @ w16 (length ciphers) @ ciphers @ [word_of_nat (length comps)] @ comps @
    w16 (length (concat (map tls_ext exts))) @ concat (map tls_ext exts)"

lemma length_w16 [simp]: "length (w16 n) = 2"
  by (simp add: w16_def)

lemma read16_w16: "n < 65536 \<Longrightarrow> i = length pre \<Longrightarrow> read16 (pre @ w16 n @ post) i = Some n"
  by (simp add: read16_def w16_def nth_append unat_of_nat)

lemma read16_w16_at: "n < 65536 \<Longrightarrow> drop i b = w16 n @ post \<Longrightarrow> i \<le> length b \<Longrightarrow> read16 b i = Some n"
  using read16_w16 [of n i "take i b" post] by (metis append_take_drop_id length_take min.absorb2)

lemma find_name_skip:
  assumes "drop at b = tls_ext (t, body) @ post" "t \<noteq> 0" "t < 65536" "length body < 65536"
    and "at + 4 \<le> e" "at \<le> length b"
  shows "find_name b e at = find_name b e (at + 4 + length body)"
proof -
  have "read16 b at = Some t"
    using assms by (intro read16_w16_at [where post = "w16 (length body) @ body @ post"]) (simp_all add: tls_ext_def)
  moreover have "read16 b (at + 2) = Some (length body)"
  proof (rule read16_w16_at [where post = "body @ post"])
    have "drop (at + 2) b = drop 2 (drop at b)" by (simp add: add.commute)
    then show "drop (at + 2) b = w16 (length body) @ body @ post" by (simp add: assms(1) tls_ext_def)
    have "length (drop at b) \<ge> 4" by (simp add: assms(1) tls_ext_def)
    then show "at + 2 \<le> length b" by simp
  qed fact
  ultimately show ?thesis using assms(2,5) by (subst find_name.simps) simp
qed

lemma find_name_found:
  assumes "drop at b = tls_ext (sni_ext name) @ post" "length name < 65536 - 5" "at + 9 + length name \<le> e" "e \<le> length b"
  shows "find_name b e at = Some (ascii name)"
proof -
  have at: "at \<le> length b" using assms(3,4) by simp
  have d: "drop (at + k) b = drop k (tls_ext (sni_ext name) @ post)" for k
    using assms(1) by (metis add.commute drop_drop)
  have five: "Suc (Suc (Suc (Suc (Suc (length name))))) = length name + 5" by simp
  have "read16 b at = Some 0" using read16_w16_at [of 0 at b] assms(1) at by (simp add: tls_ext_def sni_ext_def)
  moreover have "read16 b (at + 2) = Some (length name + 5)"
    using read16_w16_at [of "length name + 5" "at + 2" b] d [of 2] assms(2,3,4)
    by (simp add: tls_ext_def sni_ext_def five)
  moreover have "read16 b (at + 4 + 3) = Some (length name)"
    using read16_w16_at [of "length name" "at + 7" b] d [of 7] assms(2,3,4)
    by (simp add: tls_ext_def sni_ext_def w16_def add.commute [of 7])
  moreover have "idx b (at + 4 + 2) = Some 0"
  proof -
    have "b ! (at + 6) = drop (at + 6) b ! 0" using assms(3,4) by simp
    also have "\<dots> = 0" unfolding d [of 6] by (simp add: tls_ext_def sni_ext_def w16_def)
    finally show ?thesis using assms(3,4) by (simp add: js_simps add.commute [of 6])
  qed
  moreover have "subarray (at + 4 + 5) (at + 4 + 5 + length name) b = name"
    using d [of 9] by (simp add: subarray_def tls_ext_def sni_ext_def w16_def add.commute [of 9])
  ultimately show ?thesis using assms(3) by (subst find_name.simps) (simp add: Let_def)
qed

lemma find_name_exts:
  assumes "drop at b = concat (map tls_ext before) @ tls_ext (sni_ext name) @ post"
    and "\<forall>(t, body) \<in> set before. t \<noteq> 0 \<and> t < 65536 \<and> length body < 65536"
    and "length name < 65536 - 5" and "at + length (concat (map tls_ext before)) + 9 + length name \<le> e" and "e \<le> length b"
  shows "find_name b e at = Some (ascii name)"
  using assms
proof (induction "before" arbitrary: at)
  case Nil
  then show ?case by (simp add: find_name_found)
next
  case (Cons ext exts)
  obtain t body where e: "ext = (t, body)" by (cases ext)
  have l: "length (tls_ext ext) = 4 + length body" by (simp add: e tls_ext_def)
  have "find_name b e at = find_name b e (at + 4 + length body)"
    using Cons.prems l by (intro find_name_skip [where t = t and post = "concat (map tls_ext exts) @ tls_ext (sni_ext name) @ post"])
      (auto simp: e)
  moreover have "drop (at + 4 + length body) b = concat (map tls_ext exts) @ tls_ext (sni_ext name) @ post"
  proof -
    have "drop (at + 4 + length body) b = drop (length (tls_ext ext)) (drop at b)" by (simp add: l add.commute add.left_commute)
    then show ?thesis by (simp add: Cons.prems(1))
  qed
  ultimately show ?case using Cons.IH [of "at + 4 + length body"] Cons.prems l by (simp add: add.assoc)
qed

text \<open>
  The name in a ClientHello is found: whatever session, cipher suites, compression methods
  and other extensions surround it, and whatever follows the message, \<open>readServerName\<close> gives the
  name of the first server name extension.
\<close>

theorem client_hello_name:
  assumes "length head = 43" "head ! 0 = 0x16" "head ! 5 = 1"
    and "length sid < 256" "length ciphers < 65536" "length comps < 256" "length name < 65536 - 5"
    and "\<forall>(t, body) \<in> set before. t \<noteq> 0 \<and> t < 65536 \<and> length body < 65536"
    and "length (concat (map tls_ext (before @ sni_ext name # after))) < 65536"
  shows "readServerName (client_hello head sid ciphers comps (before @ sni_ext name # after) @ rest) = Some (ascii name)"
proof -
  define exts where "exts = concat (map tls_ext (before @ sni_ext name # after))"
  define b where "b = client_hello head sid ciphers comps (before @ sni_ext name # after) @ rest"
  have b: "b = head @ [word_of_nat (length sid)] @ sid @ w16 (length ciphers) @ ciphers @ [word_of_nat (length comps)] @ comps @
      w16 (length exts) @ exts @ rest"
    by (simp add: b_def client_hello_def exts_def)
  define at1 at2 at3 where "at1 = 44 + length sid" and "at2 = at1 + 2 + length ciphers" and "at3 = at2 + 1 + length comps"
  note ats = at1_def at2_def at3_def
  have h: "b ! 0 = 0x16" "b ! 5 = 1" "unat (b ! 43) = length sid" "length b \<ge> 47"
    using assms(1-4) by (simp_all add: b nth_append unat_of_nat)
  have drops: "drop at3 b = w16 (length exts) @ exts @ rest" "drop (at3 + 2) b = exts @ rest"
  proof -
    have "b = (head @ [word_of_nat (length sid)] @ sid @ w16 (length ciphers) @ ciphers @ [word_of_nat (length comps)] @ comps) @
        w16 (length exts) @ exts @ rest" by (simp add: b)
    moreover have "length (head @ [word_of_nat (length sid)] @ sid @ w16 (length ciphers) @ ciphers @
        [word_of_nat (length comps)] @ comps) = at3" using assms(1) by (simp add: ats)
    ultimately show *: "drop at3 b = w16 (length exts) @ exts @ rest" by (metis append_eq_conv_conj)
    have "drop (at3 + 2) b = drop 2 (drop at3 b)" by (simp add: add.commute)
    then show "drop (at3 + 2) b = exts @ rest" unfolding * by simp
  qed
  have r1: "read16 b at1 = Some (length ciphers)"
    using assms(1,5) by (intro read16_w16_at [where post = "ciphers @ [word_of_nat (length comps)] @ comps @ w16 (length exts) @ exts @ rest"])
      (simp_all add: b ats)
  have r2: "idx b at2 = Some (word_of_nat (length comps))"
    using assms(1) by (simp add: b ats js_simps nth_append)
  have u: "unat (word_of_nat (length comps) :: byte) = length comps" using assms(6) by (simp add: unat_of_nat)
  have r3: "read16 b at3 = Some (length exts)"
    using assms(1,9) drops(1) by (intro read16_w16_at [where post = "exts @ rest"]) (simp_all add: exts_def, simp add: b ats)
  have len: "length b = at3 + 2 + length exts + length rest" using assms(1) by (simp add: b ats)
  have "find_name b (min (length exts + at3 + 2) (length b)) (at3 + 2) = Some (ascii name)"
  proof (rule find_name_exts)
    show "drop (at3 + 2) b = concat (map tls_ext before) @ tls_ext (sni_ext name) @ concat (map tls_ext after) @ rest"
      unfolding drops(2) by (simp add: exts_def)
    show "at3 + 2 + length (concat (map tls_ext before)) + 9 + length name \<le> min (length exts + at3 + 2) (length b)"
      by (simp add: len exts_def tls_ext_def sni_ext_def)
  qed (use assms in \<open>auto simp: len\<close>)
  then show ?thesis
    using h r1 r2 r3 len u unfolding b_def [symmetric]
    by (simp add: readServerName_def Let_def ats add.commute add.left_commute)
qed

theorem client_hello_name_witness:
  "readServerName (client_hello (0x16 # replicate 4 0 @ [1] @ replicate 37 0) [7, 7] [0x13, 0x01] [0]
      [(10, [0, 29]), sni_ext (map word_of_nat [107, 46, 99])] @ [0xff]) = Some ''k.c''"
proof -
  have "readServerName (client_hello (0x16 # replicate 4 0 @ [1] @ replicate 37 0) [7, 7] [0x13, 0x01] [0]
      ([(10, [0, 29])] @ sni_ext (map word_of_nat [107, 46, 99]) # []) @ [0xff]) = Some (ascii (map word_of_nat [107, 46, 99]))"
    by (rule client_hello_name) (simp_all add: tls_ext_def sni_ext_def nth_append)
  moreover have "ascii (map word_of_nat [107, 46, 99]) = ''k.c''" by code_simp
  ultimately show ?thesis by simp
qed

theorem sni_decision_fragmentation_witness:
  "peek \<lparr>passThrough = [], stall = []\<rparr> [] [[0x16, 3], [1, 0]] = (Peeking, [0x16, 3, 1, 0], []) \<and>
    decision \<lparr>passThrough = [], stall = []\<rparr> [0x16, 3, 1, 0] = Peeking"
proof -
  have p: "peek \<lparr>passThrough = [], stall = []\<rparr> [] [[0x16, 3], [1, 0]] = (Peeking, [0x16, 3, 1, 0], [])"
    by (simp add: readServerName_def MAX_HELLO_BYTES_def)
  then show ?thesis using sni_decision_fragmentation [OF _ p] by (simp add: MAX_HELLO_BYTES_def)
qed

subsection \<open>What a pattern matches\<close>

definition same_text :: "string \<Rightarrow> string \<Rightarrow> bool" where
  "same_text a b \<longleftrightarrow> list_all2 same_char a b"

lemma tok_match_lits:
  "tok_match (map Lit s @ ts) h \<longleftrightarrow> (\<exists>q h'. h = q @ h' \<and> same_text q s \<and> tok_match ts h')"
proof (induction s arbitrary: h)
  case Nil
  then show ?case by (simp add: same_text_def)
next
  case (Cons c s)
  show ?case
  proof (cases h)
    case Nil
    then show ?thesis by (simp add: same_text_def)
  next
    case (Cons x xs)
    then show ?thesis using Cons.IH
      by (auto simp: same_text_def Cons_eq_append_conv list_all2_Cons2)
  qed
qed

lemma tok_match_star:
  "tok_match (Star # ts) h \<longleftrightarrow> (\<exists>g h'. h = g @ h' \<and> list_all (\<lambda>c. \<not> line_end c) g \<and> tok_match ts h')"
proof (induction h)
  case (Cons x xs)
  show ?case
  proof
    assume A: "tok_match (Star # ts) (x # xs)"
    show "\<exists>g h'. x # xs = g @ h' \<and> list_all (\<lambda>c. \<not> line_end c) g \<and> tok_match ts h'"
    proof (cases "tok_match ts (x # xs)")
      case True
      show ?thesis by (rule exI [of _ "[]"], rule exI [of _ "x # xs"]) (simp add: True)
    next
      case False
      then obtain g h' where "\<not> line_end x" "xs = g @ h'" "list_all (\<lambda>c. \<not> line_end c) g" "tok_match ts h'"
        using A Cons.IH by (auto simp del: tok_match.simps(2,3))
      then show ?thesis by (intro exI [of _ "x # g"] exI [of _ h']) simp
    qed
  next
    assume "\<exists>g h'. x # xs = g @ h' \<and> list_all (\<lambda>c. \<not> line_end c) g \<and> tok_match ts h'"
    then show "tok_match (Star # ts) (x # xs)" using Cons.IH by (auto simp: Cons_eq_append_conv)
  qed
qed simp

fun glob_toks :: "string list \<Rightarrow> host_tok list" where
  "glob_toks [] = []"
| "glob_toks [s] = map Lit s"
| "glob_toks (s # ss) = map Lit s @ Star # glob_toks ss"

text \<open>Something of the host name for every piece between stars, with a gap before each further piece.\<close>

fun globs :: "string list \<Rightarrow> string \<Rightarrow> bool" where
  "globs [] h = (h = [])"
| "globs [s] h = same_text h s"
| "globs (s # ss) h = (\<exists>q g h'. h = q @ g @ h' \<and> same_text q s \<and> list_all (\<lambda>c. \<not> line_end c) g \<and> globs ss h')"

lemma glob_toks_match: "tok_match (glob_toks ss) h = globs ss h"
proof (induction ss arbitrary: h rule: glob_toks.induct)
  case (2 s)
  show ?case using tok_match_lits [of s "[]" h] by auto
next
  case (3 s s' ss)
  show ?case by (simp add: tok_match_lits tok_match_star 3) blast
qed simp

lemma host_toks_split: "CHR ''?'' \<notin> set p \<Longrightarrow> host_toks p = Some (glob_toks (split_on CHR ''*'' p))"
proof (induction p rule: host_toks.induct)
  case (3 c d cs)
  obtain r rs where r: "split_on CHR ''*'' (d # cs) = r # rs" using split_on_neq_Nil by (metis neq_Nil_conv)
  have "host_toks (d # cs) = Some (glob_toks (r # rs))" unfolding r [symmetric] using 3(5) by (intro 3(1)) auto
  moreover have "c \<noteq> CHR ''?''" "d \<noteq> CHR ''?''" using 3(5) by auto
  ultimately have "host_toks (c # d # cs) = Some ((if c = CHR ''*'' then Star else Lit c) # glob_toks (r # rs))"
    by simp
  also have "(if c = CHR ''*'' then Star else Lit c) # glob_toks (r # rs) = glob_toks (split_on CHR ''*'' (c # d # cs))"
    unfolding split_on.simps(2) [of _ c] r by (cases rs) auto
  finally show ?case .
qed auto

text \<open>
  A pattern of letters and stars means what its comment says: the host name is the pieces
  of the pattern in order, letters compared without case, with any run of characters (none of
  them a line end) in place of each star.
\<close>

theorem host_pattern_meaning:
  assumes "CHR ''?'' \<notin> set pattern"
  shows "matchesHostPattern hostname pattern = Some (globs (split_on CHR ''*'' pattern) hostname)"
  using host_toks_split [OF assms] by (simp add: matchesHostPattern_def glob_toks_match)

theorem host_pattern_meaning_witness:
  "matchesHostPattern ''kic-mclip.LGTHINQ.com'' ''*.lgthinq.com'' = Some True"
proof -
  have "globs [[], ''.lgthinq.com''] ''kic-mclip.LGTHINQ.com''"
    unfolding globs.simps
    by (rule exI [of _ "[]"], rule exI [of _ "''kic-mclip''"], rule exI [of _ "''.LGTHINQ.com''"]) code_simp
  moreover have "split_on CHR ''*'' ''*.lgthinq.com'' = [[], ''.lgthinq.com'']" by code_simp
  ultimately show ?thesis using host_pattern_meaning [of "''*.lgthinq.com''" "''kic-mclip.LGTHINQ.com''"] by simp
qed

text \<open>The comment gives a meaning to \<open>*\<close> only, but \<open>?\<close> is one of the regular expression too.\<close>

lemma question_mark_is_a_quantifier:
  "matchesHostPattern ''lg.com'' ''lgx?.com'' = Some True" "matchesHostPattern ''lgx?.com'' ''lgx?.com'' = Some False"
  "matchesHostPattern ''a'' ''?'' = None"
  by code_simp+

subsection \<open>How many connections are being read\<close>

definition peeking_conns :: "sni_server \<Rightarrow> nat" where
  "peeking_conns s = length (filter (\<lambda>c. \<not> sc_settled c) (sc_conns s))"

lemma filter_update:
  "i < length xs \<Longrightarrow> length (filter P (xs[i := x])) + (if P (xs ! i) then 1 else 0) = length (filter P xs) + (if P x then 1 else 0)"
proof (induction xs arbitrary: i)
  case (Cons y ys)
  then show ?case by (cases i) auto
qed simp

definition sni_ok :: "sni_server \<Rightarrow> bool" where
  "sni_ok s \<longleftrightarrow> sc_pending s = peeking_conns s \<and> sc_pending s \<le> MAX_PENDING_PREFACES"

lemma sni_ok_stop: "sni_ok s \<Longrightarrow> sni_ok (stop_peeking i f b s)"
  using filter_update [of i "sc_conns s" "\<lambda>c. \<not> sc_settled c" "\<lparr>sc_buffered = b, sc_settled = True, sc_fate = f\<rparr>"]
  by (auto simp: stop_peeking_def peeking_conns_def sni_ok_def)

lemma sni_ok_keep:
  assumes "sni_ok s" "i < length (sc_conns s)" "\<not> sc_settled (sc_conns s ! i)" "\<not> sc_settled c"
  shows "sni_ok (s\<lparr>sc_conns := (sc_conns s)[i := c]\<rparr>)"
  using assms filter_update [of i "sc_conns s" "\<lambda>c. \<not> sc_settled c" c] by (simp add: peeking_conns_def sni_ok_def)

lemma sni_ok_readable: "sni_ok s \<Longrightarrow> sni_ok (on_readable cfg i chunks s)"
  by (auto simp: on_readable_def sni_ok_stop sni_ok_keep split: prod.split fate.split)

lemma sni_ok_step: "sni_ok s \<Longrightarrow> sni_ok (sni_step cfg s ev)"
  by (cases ev) (auto simp: sni_ok_stop sni_ok_readable, auto simp: accept_socket_def sni_ok_def peeking_conns_def)

text \<open>
  At most 64 connections are being read at a time, the counter is exactly their number,
  whatever happens to the sockets and in whatever order, and a connection beyond that is closed.
\<close>

theorem sni_pending_bounded:
  "sc_pending (sni_run cfg evs) = peeking_conns (sni_run cfg evs) \<and> sc_pending (sni_run cfg evs) \<le> MAX_PENDING_PREFACES"
proof -
  have "sni_ok (foldl (sni_step cfg) s evs)" if "sni_ok s" for s
    using that by (induction evs arbitrary: s) (auto simp: sni_ok_step)
  moreover have "sni_ok \<lparr>sc_pending = 0, sc_conns = []\<rparr>" by (simp add: sni_ok_def peeking_conns_def)
  ultimately have "sni_ok (sni_run cfg evs)" by (simp only: sni_run_def)
  then show ?thesis unfolding sni_ok_def .
qed

end
