(* ===== verification/SniCertificates.thy ===== *)
theory SniCertificates
  imports Hostname Hex
begin

text \<open>
  Leaf certificates on demand: \<open>util/sni-certificates.ts\<close>. The certificate itself ('c) and the
  runs of \<open>openssl\<close> that make it are outside; what they are given is \<open>openssl_runs\<close> and
  \<open>extension_file\<close>. A \<open>PendingCertificate\<close> is a task, named by its place in \<open>cs_tasks\<close>; its
  promise is settled when \<open>ct_answer\<close> is set. The events are the calls of \<open>issue\<close> and \<open>close\<close>,
  a generation that comes back, a deadline, and the end of \<open>close\<close>.
\<close>

definition MAX_ACTIVE :: nat where "MAX_ACTIVE = 2"
definition MAX_QUEUED :: nat where "MAX_QUEUED = 16"
definition MAX_CACHE :: nat where "MAX_CACHE = 64"

datatype cert_error = InvalidHostname | ProviderClosed | QueueFull | DeadlineExpired | Cancelled | GenerationFailed

record 'c cert_task =
  ct_host :: string
  ct_started :: bool
  ct_aborted :: bool
  ct_answer :: "(cert_error + 'c) option"

record 'c cert_state =
  cs_cache :: "(string \<times> 'c) list"
  cs_pending :: "(string \<times> nat) list"
  cs_queue :: "nat list"
  cs_active :: nat
  cs_closed :: bool
  cs_tasks :: "'c cert_task list"

definition new_certificates :: "'c cert_state" where
  "new_certificates = \<lparr>cs_cache = [], cs_pending = [], cs_queue = [], cs_active = 0, cs_closed = False, cs_tasks = []\<rparr>"

subsection \<open>What openssl is given\<close>

definition extension_file :: "string \<Rightarrow> string" where
  "extension_file hostname = join_with CHR 0x0A
    [''basicConstraints=critical,CA:FALSE'', ''keyUsage=critical,digitalSignature,keyEncipherment'',
     ''extendedKeyUsage=serverAuth'', ''subjectAltName=DNS:'' @ hostname, []]"

definition openssl_runs :: "string \<Rightarrow> string \<Rightarrow> buffer \<Rightarrow> string list list" where
  "openssl_runs dir hostname serial =
    [[''genrsa'', ''-out'', dir @ ''/leaf-key.pem'', ''2048''],
     [''req'', ''-new'', ''-key'', dir @ ''/leaf-key.pem'', ''-out'', dir @ ''/leaf.csr'', ''-subj'', ''/CN='' @ hostname],
     [''x509'', ''-req'', ''-in'', dir @ ''/leaf.csr'', ''-CA'', dir @ ''/ca-cert.pem'', ''-CAkey'', dir @ ''/ca-key.pem'',
      ''-set_serial'', ''0x'' @ to_hex serial, ''-out'', dir @ ''/leaf-cert.pem'', ''-days'', ''825'', ''-sha256'',
      ''-extfile'', dir @ ''/extensions.cnf'']]"

subsection \<open>The provider\<close>

definition set_task :: "nat \<Rightarrow> ('c cert_task \<Rightarrow> 'c cert_task) \<Rightarrow> 'c cert_state \<Rightarrow> 'c cert_state" where
  "set_task t f s = s\<lparr>cs_tasks := (cs_tasks s)[t := f (cs_tasks s ! t)]\<rparr>"

text \<open>\<open>drain\<close> starts the tasks at the head of the queue while there is a place.\<close>

definition start_one :: "nat \<Rightarrow> 'c cert_state \<Rightarrow> 'c cert_state" where
  "start_one t s = set_task t (\<lambda>k. k\<lparr>ct_started := True\<rparr>) (s\<lparr>cs_active := cs_active s + 1\<rparr>)"

fun start_tasks :: "nat list \<Rightarrow> 'c cert_state \<Rightarrow> 'c cert_state" where
  "start_tasks [] s = s\<lparr>cs_queue := []\<rparr>"
| "start_tasks (t # q) s =
    (if \<not> cs_closed s \<and> cs_active s < MAX_ACTIVE
     then start_tasks q (start_one t s)
     else s\<lparr>cs_queue := t # q\<rparr>)"

definition drain :: "'c cert_state \<Rightarrow> 'c cert_state" where
  "drain s = start_tasks (cs_queue s) s"

text \<open>\<open>finish\<close> takes the task out everywhere, settles its promise and drains the queue.\<close>

definition retire :: "nat \<Rightarrow> cert_error + 'c \<Rightarrow> 'c cert_state \<Rightarrow> 'c cert_state" where
  "retire t answer s =
    set_task t (\<lambda>k. k\<lparr>ct_answer := Some answer\<rparr>)
      (s\<lparr>cs_pending := AList.delete (ct_host (cs_tasks s ! t)) (cs_pending s),
         cs_queue := filter (\<lambda>i. i \<noteq> t) (cs_queue s),
         cs_active := (if ct_started (cs_tasks s ! t) then cs_active s - 1 else cs_active s)\<rparr>)"

definition finish :: "nat \<Rightarrow> cert_error + 'c \<Rightarrow> 'c cert_state \<Rightarrow> 'c cert_state" where
  "finish t answer s = drain (retire t answer s)"

definition normal_host :: "string \<Rightarrow> string" where
  "normal_host serverName =
    (let h = map lower (trim serverName) in if h \<noteq> [] \<and> last h = CHR ''.'' then butlast h else h)"

text \<open>A new task: pending, and the last of the queue.\<close>

definition enqueue :: "string \<Rightarrow> 'c cert_state \<Rightarrow> 'c cert_state" where
  "enqueue h s =
    s\<lparr>cs_tasks := cs_tasks s @ [\<lparr>ct_host = h, ct_started = False, ct_aborted = False, ct_answer = None\<rparr>],
      cs_pending := AList.update h (length (cs_tasks s)) (cs_pending s), cs_queue := cs_queue s @ [length (cs_tasks s)]\<rparr>"

text \<open>The promise \<open>issue\<close> returns: settled at once, or the one of a task.\<close>

datatype 'c promised = Settled "cert_error + 'c" | OfTask nat

definition issue :: "string \<Rightarrow> 'c cert_state \<Rightarrow> 'c cert_state \<times> 'c promised" where
  "issue serverName s =
    (let hostname = normal_host serverName in
     if \<not> isDNSHostname hostname then (s, Settled (Inl InvalidHostname))
     else if cs_closed s then (s, Settled (Inl ProviderClosed))
     else (case map_of (cs_cache s) hostname of
         Some cached \<Rightarrow>
           (s\<lparr>cs_cache := AList.update hostname cached (AList.delete hostname (cs_cache s))\<rparr>, Settled (Inr cached))
       | None \<Rightarrow> (case map_of (cs_pending s) hostname of
           Some t \<Rightarrow> (s, OfTask t)
         | None \<Rightarrow>
             if cs_active s \<ge> MAX_ACTIVE \<and> length (cs_queue s) \<ge> MAX_QUEUED then (s, Settled (Inl QueueFull))
             else (drain (enqueue hostname s), OfTask (length (cs_tasks s))))))"

definition unanswered :: "nat \<Rightarrow> 'c cert_state \<Rightarrow> bool" where
  "unanswered t s \<longleftrightarrow> t < length (cs_tasks s) \<and> ct_answer (cs_tasks s ! t) = None"

text \<open>A generation that comes back: with a certificate, or without one.\<close>

definition generated :: "nat \<Rightarrow> 'c option \<Rightarrow> 'c cert_state \<Rightarrow> 'c cert_state" where
  "generated t result s =
    (if \<not> unanswered t s \<or> \<not> ct_started (cs_tasks s ! t) then s
     else case result of
         None \<Rightarrow> finish t (Inl GenerationFailed) s
       | Some issued \<Rightarrow>
           if ct_aborted (cs_tasks s ! t) then finish t (Inl Cancelled) s
           else
             let cache = AList.update (ct_host (cs_tasks s ! t)) issued (cs_cache s);
                 cache = (if length cache > MAX_CACHE then tl cache else cache)
             in finish t (Inr issued) (s\<lparr>cs_cache := cache\<rparr>))"

definition deadline :: "nat \<Rightarrow> 'c cert_state \<Rightarrow> 'c cert_state" where
  "deadline t s =
    (if \<not> unanswered t s then s
     else
       let s = set_task t (\<lambda>k. k\<lparr>ct_aborted := True\<rparr>) s
       in if ct_started (cs_tasks s ! t) then s else finish t (Inl DeadlineExpired) s)"

definition close_one :: "'c cert_state \<Rightarrow> nat \<Rightarrow> 'c cert_state" where
  "close_one s t =
    (let s = set_task t (\<lambda>k. k\<lparr>ct_aborted := True\<rparr>) s
     in if ct_started (cs_tasks s ! t) then s else finish t (Inl ProviderClosed) s)"

definition close_provider :: "'c cert_state \<Rightarrow> 'c cert_state" where
  "close_provider s = foldl close_one (s\<lparr>cs_closed := True\<rparr>) (map snd (cs_pending s))"

datatype 'c cert_event =
    Issue string
  | Generated nat "'c option"
  | Deadline nat
  | CloseProvider
  | AllSettled

fun cert_step :: "'c cert_state \<Rightarrow> 'c cert_event \<Rightarrow> 'c cert_state" where
  "cert_step s (Issue name) = fst (issue name s)"
| "cert_step s (Generated t result) = generated t result s"
| "cert_step s (Deadline t) = deadline t s"
| "cert_step s CloseProvider = close_provider s"
| "cert_step s AllSettled = (if cs_closed s \<and> cs_pending s = [] then s\<lparr>cs_cache := []\<rparr> else s)"

definition cert_run :: "'c cert_event list \<Rightarrow> 'c cert_state" where
  "cert_run evs = foldl cert_step new_certificates evs"

subsection \<open>The invariant\<close>

definition started :: "nat \<Rightarrow> 'c cert_state \<Rightarrow> bool" where
  "started t s \<longleftrightarrow> ct_started (cs_tasks s ! t)"

definition host_of :: "nat \<Rightarrow> 'c cert_state \<Rightarrow> string" where
  "host_of t s = ct_host (cs_tasks s ! t)"

definition generating :: "'c cert_state \<Rightarrow> nat set" where
  "generating s = {t. unanswered t s \<and> started t s}"

definition cert_core :: "nat list \<Rightarrow> 'c cert_state \<Rightarrow> bool" where
  "cert_core q s \<longleftrightarrow>
    (distinct (map fst (cs_pending s)) \<and> (\<forall>h t. (h, t) \<in> set (cs_pending s) \<longleftrightarrow> unanswered t s \<and> host_of t s = h)) \<and>
    (distinct q \<and> set q = {t. unanswered t s \<and> \<not> started t s} \<and> length q \<le> MAX_QUEUED + 1) \<and>
    (cs_active s = card (generating s) \<and> cs_active s \<le> MAX_ACTIVE) \<and>
    (distinct (map fst (cs_cache s)) \<and> length (cs_cache s) \<le> MAX_CACHE) \<and>
    (\<forall>t < length (cs_tasks s). isDNSHostname (host_of t s))"

definition cert_ok :: "'c cert_state \<Rightarrow> bool" where
  "cert_ok s \<longleftrightarrow> cert_core (cs_queue s) s \<and> length (cs_queue s) \<le> MAX_QUEUED \<and>
    (cs_closed s \<or> cs_queue s = [] \<or> cs_active s = MAX_ACTIVE)"

lemma set_task_fields [simp]:
  "cs_cache (set_task t f s) = cs_cache s" "cs_pending (set_task t f s) = cs_pending s"
  "cs_queue (set_task t f s) = cs_queue s" "cs_active (set_task t f s) = cs_active s"
  "cs_closed (set_task t f s) = cs_closed s" "length (cs_tasks (set_task t f s)) = length (cs_tasks s)"
  by (simp_all add: set_task_def)

lemma set_task_nth: "i < length (cs_tasks s) \<Longrightarrow> cs_tasks (set_task t f s) ! i = (if i = t then f (cs_tasks s ! t) else cs_tasks s ! i)"
  by (simp add: set_task_def nth_list_update)

lemma finite_generating [simp]: "finite (generating s)"
  by (rule finite_subset [of _ "{..<length (cs_tasks s)}"]) (auto simp: generating_def unanswered_def)

text \<open>Starting a task: it leaves the queue and is being generated.\<close>

lemma start_one_nth:
  "i < length (cs_tasks s) \<Longrightarrow> cs_tasks (start_one t s) ! i =
    (if i = t then (cs_tasks s ! t)\<lparr>ct_started := True\<rparr> else cs_tasks s ! i)"
  by (simp add: start_one_def set_task_def nth_list_update)

lemma start_one_fields:
  "cs_cache (start_one t s) = cs_cache s" "cs_pending (start_one t s) = cs_pending s"
  "cs_active (start_one t s) = cs_active s + 1" "cs_closed (start_one t s) = cs_closed s"
  "length (cs_tasks (start_one t s)) = length (cs_tasks s)"
  "unanswered i (start_one t s) = unanswered i s"
  "i < length (cs_tasks s) \<Longrightarrow> host_of i (start_one t s) = host_of i s"
  "i < length (cs_tasks s) \<Longrightarrow> started i (start_one t s) = (i = t \<or> started i s)"
proof -
  show fs: "cs_cache (start_one t s) = cs_cache s" "cs_pending (start_one t s) = cs_pending s"
    "cs_active (start_one t s) = cs_active s + 1" "cs_closed (start_one t s) = cs_closed s"
    "length (cs_tasks (start_one t s)) = length (cs_tasks s)"
    by (simp_all add: start_one_def)
  show "unanswered i (start_one t s) = unanswered i s"
    by (cases "i < length (cs_tasks s)") (simp_all add: unanswered_def start_one_nth fs)
  show "i < length (cs_tasks s) \<Longrightarrow> host_of i (start_one t s) = host_of i s"
    "i < length (cs_tasks s) \<Longrightarrow> started i (start_one t s) = (i = t \<or> started i s)"
    by (simp_all add: host_of_def started_def start_one_nth)
qed

lemma retire_nth:
  "i < length (cs_tasks s) \<Longrightarrow> cs_tasks (retire t a s) ! i =
    (if i = t then (cs_tasks s ! t)\<lparr>ct_answer := Some a\<rparr> else cs_tasks s ! i)"
  by (simp add: retire_def set_task_def nth_list_update)

lemma retire_fields:
  "cs_cache (retire t a s) = cs_cache s" "cs_pending (retire t a s) = AList.delete (host_of t s) (cs_pending s)"
  "cs_queue (retire t a s) = filter (\<lambda>i. i \<noteq> t) (cs_queue s)"
  "cs_active (retire t a s) = (if started t s then cs_active s - 1 else cs_active s)" "cs_closed (retire t a s) = cs_closed s"
  "length (cs_tasks (retire t a s)) = length (cs_tasks s)"
  "unanswered i (retire t a s) \<longleftrightarrow> unanswered i s \<and> i \<noteq> t"
  "i < length (cs_tasks s) \<Longrightarrow> host_of i (retire t a s) = host_of i s"
  "i < length (cs_tasks s) \<Longrightarrow> started i (retire t a s) = started i s"
proof -
  show fs: "cs_cache (retire t a s) = cs_cache s" "cs_pending (retire t a s) = AList.delete (host_of t s) (cs_pending s)"
    "cs_queue (retire t a s) = filter (\<lambda>i. i \<noteq> t) (cs_queue s)"
    "cs_active (retire t a s) = (if started t s then cs_active s - 1 else cs_active s)" "cs_closed (retire t a s) = cs_closed s"
    "length (cs_tasks (retire t a s)) = length (cs_tasks s)"
    by (simp_all add: retire_def host_of_def started_def)
  show "unanswered i (retire t a s) \<longleftrightarrow> unanswered i s \<and> i \<noteq> t"
    by (cases "i < length (cs_tasks s)") (simp_all add: unanswered_def retire_nth fs)
  show "i < length (cs_tasks s) \<Longrightarrow> host_of i (retire t a s) = host_of i s"
    "i < length (cs_tasks s) \<Longrightarrow> started i (retire t a s) = started i s"
    by (simp_all add: host_of_def started_def retire_nth)
qed

lemma unanswered_bound: "unanswered t s \<Longrightarrow> t < length (cs_tasks s)"
  by (simp add: unanswered_def)

lemma cert_coreD:
  assumes "cert_core q s"
  shows "distinct (map fst (cs_pending s))" "(x, i) \<in> set (cs_pending s) \<longleftrightarrow> unanswered i s \<and> host_of i s = x"
    "distinct q" "set q = {t. unanswered t s \<and> \<not> started t s}" "length q \<le> MAX_QUEUED + 1"
    "cs_active s = card (generating s)" "cs_active s \<le> MAX_ACTIVE"
    "distinct (map fst (cs_cache s))" "length (cs_cache s) \<le> MAX_CACHE"
    "t < length (cs_tasks s) \<Longrightarrow> isDNSHostname (host_of t s)"
  using assms unfolding cert_core_def by blast+

lemma cert_coreI:
  assumes "distinct (map fst (cs_pending s))" "\<And>x i. (x, i) \<in> set (cs_pending s) \<longleftrightarrow> unanswered i s \<and> host_of i s = x"
    "distinct q" "set q = {t. unanswered t s \<and> \<not> started t s}" "length q \<le> MAX_QUEUED + 1"
    "cs_active s = card (generating s)" "cs_active s \<le> MAX_ACTIVE"
    "distinct (map fst (cs_cache s))" "length (cs_cache s) \<le> MAX_CACHE"
    "\<And>t. t < length (cs_tasks s) \<Longrightarrow> isDNSHostname (host_of t s)"
  shows "cert_core q s"
  using assms unfolding cert_core_def by blast

lemma core_start:
  assumes "cert_core (t # q) s" "cs_active s < MAX_ACTIVE"
  shows "cert_core q (start_one t s)"
proof (rule cert_coreI)
  note c = cert_coreD [OF assms(1)]
  have "t \<in> set (t # q)" by simp
  then have t: "unanswered t s" "\<not> started t s" unfolding c(4) by auto
  have "generating (start_one t s) = insert t (generating s)"
    using t unanswered_bound by (fastforce simp: generating_def start_one_fields)
  moreover have "t \<notin> generating s" using t by (simp add: generating_def)
  ultimately show "cs_active (start_one t s) = card (generating (start_one t s))"
    using c(6) by (simp add: start_one_fields)
  have "set q = set (t # q) - {t}" using c(3) by auto
  also have "\<dots> = {i. unanswered i (start_one t s) \<and> \<not> started i (start_one t s)}"
    unfolding c(4) using unanswered_bound by (fastforce simp: start_one_fields)
  finally show "set q = {i. unanswered i (start_one t s) \<and> \<not> started i (start_one t s)}" .
  show "(x, i) \<in> set (cs_pending (start_one t s)) \<longleftrightarrow> unanswered i (start_one t s) \<and> host_of i (start_one t s) = x" for x i
    using c(2) unanswered_bound by (fastforce simp: start_one_fields)
qed (use cert_coreD [OF assms(1)] assms(2) in \<open>auto simp: start_one_fields\<close>)

lemma cert_core_queue [simp]: "cert_core q (s\<lparr>cs_queue := r\<rparr>) = cert_core q s"
  by (simp add: cert_core_def unanswered_def started_def host_of_def generating_def)

lemma core_start_tasks:
  "cert_core q s \<Longrightarrow> cert_core (cs_queue (start_tasks q s)) (start_tasks q s) \<and>
    (cs_closed (start_tasks q s) \<or> cs_queue (start_tasks q s) = [] \<or> cs_active (start_tasks q s) = MAX_ACTIVE) \<and>
    length (cs_queue (start_tasks q s)) \<le> length q \<and> cs_closed (start_tasks q s) = cs_closed s"
proof (induction q s rule: start_tasks.induct)
  case (1 s)
  then show ?case by simp
next
  case (2 t q s)
  show ?case
  proof (cases "\<not> cs_closed s \<and> cs_active s < MAX_ACTIVE")
    case True
    then have "start_tasks (t # q) s = start_tasks q (start_one t s)" by simp
    then show ?thesis
      using 2(1) [OF True core_start [OF 2(2)]] True by (metis start_one_fields(4) le_SucI length_Cons)
  next
    case False
    then show ?thesis using 2(2) cert_coreD(7) [OF 2(2)] by auto
  qed
qed

lemma ok_drain:
  assumes "cert_core (cs_queue s) s" "length (cs_queue s) \<le> MAX_QUEUED \<or> (cs_active s < MAX_ACTIVE \<and> \<not> cs_closed s)"
  shows "cert_ok (drain s)"
proof -
  note d = core_start_tasks [OF assms(1)]
  have "length (cs_queue (drain s)) \<le> MAX_QUEUED"
  proof (cases "length (cs_queue s) \<le> MAX_QUEUED")
    case True
    then show ?thesis using d by (simp add: drain_def)
  next
    case False
    then have room: "cs_active s < MAX_ACTIVE" "\<not> cs_closed s" using assms(2) by auto
    obtain t q where q: "cs_queue s = t # q" using False by (cases "cs_queue s") auto
    have "length q \<le> MAX_QUEUED" using cert_coreD(5) [OF assms(1)] by (simp add: q)
    moreover have "cert_core q (start_one t s)"
      using assms(1) room by (intro core_start) (simp_all add: q)
    note core_start_tasks [OF this]
    ultimately show ?thesis using room by (simp add: drain_def q)
  qed
  then show ?thesis using d unfolding cert_ok_def drain_def by blast
qed

lemma core_retire:
  assumes "cert_core (cs_queue s) s" "unanswered t s"
  shows "cert_core (cs_queue (retire t a s)) (retire t a s)"
proof (rule cert_coreI)
  note c = cert_coreD [OF assms(1)] and b = unanswered_bound
  have gen: "generating (retire t a s) = generating s - {t}"
    using b by (fastforce simp: generating_def retire_fields)
  show "cs_active (retire t a s) = card (generating (retire t a s))"
  proof (cases "started t s")
    case True
    then have "t \<in> generating s" using assms(2) by (simp add: generating_def)
    then show ?thesis using True c(6) by (simp add: gen retire_fields)
  next
    case False
    then have "generating s - {t} = generating s" by (auto simp: generating_def)
    then show ?thesis using False c(6) by (simp add: gen retire_fields)
  qed
  show "set (cs_queue (retire t a s)) = {i. unanswered i (retire t a s) \<and> \<not> started i (retire t a s)}"
    using c(4) b by (fastforce simp: retire_fields)
  show "(x, i) \<in> set (cs_pending (retire t a s)) \<longleftrightarrow> unanswered i (retire t a s) \<and> host_of i (retire t a s) = x" for x i
  proof -
    have "i = t" if "unanswered i s" "host_of i s = host_of t s" for i
      using c(2) [of "host_of t s" i] c(2) [of "host_of t s" t] that assms(2) eq_key_imp_eq_value [OF c(1)] by blast
    moreover have "(x, i) \<in> set (cs_pending (retire t a s)) \<longleftrightarrow> (x, i) \<in> set (cs_pending s) \<and> x \<noteq> host_of t s"
      by (auto simp: AList.delete_eq retire_fields)
    ultimately show ?thesis using c(2) [of x i] b by (fastforce simp: retire_fields)
  qed
  show "length (cs_queue (retire t a s)) \<le> MAX_QUEUED + 1"
    using c(5) le_trans [OF length_filter_le] by (simp add: retire_fields)
qed (use cert_coreD [OF assms(1)] distinct_delete in \<open>auto simp: retire_fields\<close>)

lemma ok_finish:
  assumes "cert_core (cs_queue s) s" "length (cs_queue s) \<le> MAX_QUEUED" "unanswered t s"
  shows "cert_ok (finish t a s)"
  unfolding finish_def
  using assms le_trans [OF length_filter_le]
  by (intro ok_drain core_retire disjI1) (auto simp: retire_fields)


text \<open>Aborting a task changes nothing the invariant reads.\<close>

lemma abort_fields:
  "unanswered i (set_task t (\<lambda>k. k\<lparr>ct_aborted := True\<rparr>) s) = unanswered i s"
  "i < length (cs_tasks s) \<Longrightarrow> started i (set_task t (\<lambda>k. k\<lparr>ct_aborted := True\<rparr>) s) = started i s"
  "i < length (cs_tasks s) \<Longrightarrow> host_of i (set_task t (\<lambda>k. k\<lparr>ct_aborted := True\<rparr>) s) = host_of i s"
  by (cases "i < length (cs_tasks s)"; simp add: unanswered_def set_task_nth)
    (simp_all add: started_def host_of_def set_task_nth)

lemma core_abort:
  assumes "cert_core q s"
  shows "cert_core q (set_task t (\<lambda>k. k\<lparr>ct_aborted := True\<rparr>) s)"
proof (rule cert_coreI)
  let ?s = "set_task t (\<lambda>k. k\<lparr>ct_aborted := True\<rparr>) s"
  note c = cert_coreD [OF assms] and b = unanswered_bound
  have g: "generating ?s = generating s" using b by (fastforce simp: generating_def abort_fields)
  show "cs_active ?s = card (generating ?s)" using c(6) by (simp add: g)
  show "set q = {i. unanswered i ?s \<and> \<not> started i ?s}" using c(4) b by (fastforce simp: abort_fields)
  show "(x, i) \<in> set (cs_pending ?s) \<longleftrightarrow> unanswered i ?s \<and> host_of i ?s = x" for x i
    using c(2) [of x i] b by (fastforce simp: abort_fields)
qed (use cert_coreD [OF assms] in \<open>auto simp: abort_fields\<close>)

lemma core_closed: "cert_core q (s\<lparr>cs_closed := b\<rparr>) = cert_core q s"
  by (simp add: cert_core_def unanswered_def started_def host_of_def generating_def)

lemma core_cache:
  "cert_core q s \<Longrightarrow> distinct (map fst c) \<Longrightarrow> length c \<le> MAX_CACHE \<Longrightarrow> cert_core q (s\<lparr>cs_cache := c\<rparr>)"
  by (simp add: cert_core_def unanswered_def started_def host_of_def generating_def)

lemma cert_okD:
  "cert_ok s \<Longrightarrow> cert_core (cs_queue s) s" "cert_ok s \<Longrightarrow> length (cs_queue s) \<le> MAX_QUEUED"
  by (simp_all add: cert_ok_def)

lemma ok_cache:
  "cert_ok s \<Longrightarrow> distinct (map fst c) \<Longrightarrow> length c \<le> MAX_CACHE \<Longrightarrow> cert_ok (s\<lparr>cs_cache := c\<rparr>)"
  by (simp add: cert_ok_def core_cache)

lemma ok_abort: "cert_ok s \<Longrightarrow> cert_ok (set_task t (\<lambda>k. k\<lparr>ct_aborted := True\<rparr>) s)"
  by (simp add: cert_ok_def core_abort)

lemma ok_deadline: "cert_ok s \<Longrightarrow> cert_ok (deadline t s)"
  by (auto simp: deadline_def Let_def ok_abort abort_fields dest: cert_okD intro!: ok_finish core_abort)

lemma cache_after_update:
  assumes "distinct (map fst c)" "length c \<le> MAX_CACHE"
  shows "distinct (map fst (let c = AList.update k v c in if length c > MAX_CACHE then tl c else c)) \<and>
    length (let c = AList.update k v c in if length c > MAX_CACHE then tl c else c) \<le> MAX_CACHE"
proof -
  have "distinct (map fst (AList.update k v c))" using assms(1) by (rule distinct_update)
  moreover have "length (AList.update k v c) \<le> Suc (length c)" by (induction c) auto
  ultimately show ?thesis using assms(2) by (auto simp: Let_def map_tl distinct_tl)
qed

lemma ok_generated: "cert_ok s \<Longrightarrow> cert_ok (generated t result s)"
proof -
  assume ok: "cert_ok s"
  note k = cert_okD [OF ok]
  have f: "cert_ok (finish t a s)" if "unanswered t s" for a using ok_finish [OF k that] .
  have g: "cert_ok (finish t a (s\<lparr>cs_cache := c\<rparr>))"
    if "unanswered t s" "distinct (map fst c)" "length c \<le> MAX_CACHE" for a c
    using ok_finish [of "s\<lparr>cs_cache := c\<rparr>" t a] core_cache [OF k(1) that(2,3)] k(2) that(1) by (simp add: unanswered_def)
  note cu = cache_after_update [OF cert_coreD(8,9) [OF k(1)]]
  show ?thesis
    unfolding generated_def
    using ok f g [OF _ conjunct1 [OF cu] conjunct2 [OF cu]] by (auto simp: Let_def split: option.splits)
qed


text \<open>Closing: every pending task is aborted; those that have not started are answered.\<close>

lemma start_tasks_fields:
  "unanswered i (start_tasks q s) = unanswered i s \<and> length (cs_tasks (start_tasks q s)) = length (cs_tasks s) \<and>
   cs_pending (start_tasks q s) = cs_pending s \<and> cs_cache (start_tasks q s) = cs_cache s \<and>
   cs_closed (start_tasks q s) = cs_closed s"
proof (induction q s rule: start_tasks.induct)
  case (1 s)
  show ?case by (simp add: unanswered_def)
next
  case (2 t q s)
  show ?case
  proof (cases "\<not> cs_closed s \<and> cs_active s < MAX_ACTIVE")
    case True
    then show ?thesis using 2 [OF True] by (simp add: start_one_fields)
  next
    case False
    then show ?thesis by (auto simp: unanswered_def)
  qed
qed

lemma finish_fields:
  "unanswered i (finish t a s) \<longleftrightarrow> unanswered i s \<and> i \<noteq> t"
  "cs_closed (finish t a s) = cs_closed s" "cs_cache (finish t a s) = cs_cache s"
  "cs_pending (finish t a s) = AList.delete (host_of t s) (cs_pending s)"
  by (simp_all add: finish_def drain_def start_tasks_fields retire_fields)

lemma close_one_ok:
  assumes "cert_ok s" "cs_closed s" "unanswered t s"
  shows "cert_ok (close_one s t)" "cs_closed (close_one s t)"
    "unanswered i s \<Longrightarrow> i \<noteq> t \<Longrightarrow> unanswered i (close_one s t)"
proof -
  note a = ok_abort [OF assms(1), of t]
  show "cert_ok (close_one s t)"
    unfolding close_one_def Let_def
    using a assms(3) ok_finish [OF cert_okD [OF a]] by (auto simp: abort_fields)
  show "cs_closed (close_one s t)"
    by (simp add: close_one_def Let_def finish_fields assms(2))
  show "unanswered i s \<Longrightarrow> i \<noteq> t \<Longrightarrow> unanswered i (close_one s t)"
    by (simp add: close_one_def Let_def finish_fields abort_fields)
qed

lemma close_all_ok:
  "cert_ok s \<Longrightarrow> cs_closed s \<Longrightarrow> distinct ts \<Longrightarrow> (\<And>t. t \<in> set ts \<Longrightarrow> unanswered t s) \<Longrightarrow>
    cert_ok (foldl close_one s ts)"
proof (induction ts arbitrary: s)
  case Nil
  then show ?case by simp
next
  case (Cons t ts)
  note un = Cons.prems(4)
  have "unanswered t s" using un by simp
  note c = close_one_ok [OF Cons.prems(1,2) this]
  show ?case
    unfolding foldl_Cons
  proof (rule Cons.IH [OF c(1,2)])
    show "distinct ts" using Cons.prems(3) by simp
    show "unanswered i (close_one s t)" if "i \<in> set ts" for i
      using c(3) un that Cons.prems(3) by (metis distinct.simps(2) list.set_intros(2))
  qed
qed

lemma pending_tasks_distinct:
  assumes "cert_core q s"
  shows "distinct (map snd (cs_pending s))"
proof -
  note c = cert_coreD [OF assms]
  have "distinct (cs_pending s)" using c(1) by (simp add: distinct_map)
  moreover have "inj_on snd (set (cs_pending s))"
    using c(2) by (fastforce simp: inj_on_def)
  ultimately show ?thesis by (simp add: distinct_map)
qed

lemma ok_close: "cert_ok s \<Longrightarrow> cert_ok (close_provider s)"
proof -
  assume ok: "cert_ok s"
  note k = cert_okD [OF ok]
  have "cert_ok (s\<lparr>cs_closed := True\<rparr>)" using k by (simp add: cert_ok_def core_closed)
  moreover have "unanswered t (s\<lparr>cs_closed := True\<rparr>)" if "t \<in> set (map snd (cs_pending s))" for t
    using that cert_coreD(2) [OF k(1)] by (auto simp: unanswered_def)
  ultimately show ?thesis
    unfolding close_provider_def by (intro close_all_ok pending_tasks_distinct [OF k(1)]) simp_all
qed

text \<open>A new task: it is the last of the queue.\<close>

lemma update_new_key: "k \<notin> fst ` set xs \<Longrightarrow> AList.update k v xs = xs @ [(k, v)]"
  by (induction xs) auto

lemma enqueue_fields:
  "cs_cache (enqueue h s) = cs_cache s" "cs_active (enqueue h s) = cs_active s" "cs_closed (enqueue h s) = cs_closed s"
  "cs_pending (enqueue h s) = AList.update h (length (cs_tasks s)) (cs_pending s)"
  "cs_queue (enqueue h s) = cs_queue s @ [length (cs_tasks s)]" "length (cs_tasks (enqueue h s)) = Suc (length (cs_tasks s))"
  "unanswered i (enqueue h s) \<longleftrightarrow> unanswered i s \<or> i = length (cs_tasks s)"
  "i < length (cs_tasks s) \<Longrightarrow> host_of i (enqueue h s) = host_of i s"
  "i < length (cs_tasks s) \<Longrightarrow> started i (enqueue h s) = started i s"
  "host_of (length (cs_tasks s)) (enqueue h s) = h" "\<not> started (length (cs_tasks s)) (enqueue h s)"
  by (auto simp: enqueue_def unanswered_def host_of_def started_def nth_append)

lemma core_enqueue:
  assumes "cert_core (cs_queue s) s" "length (cs_queue s) \<le> MAX_QUEUED" "isDNSHostname h" "map_of (cs_pending s) h = None"
  shows "cert_core (cs_queue (enqueue h s)) (enqueue h s)"
proof (rule cert_coreI)
  let ?n = "length (cs_tasks s)"
  note c = cert_coreD [OF assms(1)] and b = unanswered_bound
  have n: "\<not> unanswered ?n s" using b by blast
  have fresh: "h \<notin> fst ` set (cs_pending s)" using assms(4) by (simp add: map_of_eq_None_iff)
  have upd: "cs_pending (enqueue h s) = cs_pending s @ [(h, ?n)]"
    using fresh by (simp add: enqueue_fields update_new_key)
  show "distinct (map fst (cs_pending (enqueue h s)))" using c(1) fresh by (simp add: upd)
  show "(x, i) \<in> set (cs_pending (enqueue h s)) \<longleftrightarrow> unanswered i (enqueue h s) \<and> host_of i (enqueue h s) = x" for x i
    using c(2) [of x i] b [of i s] n by (cases "i = ?n") (auto simp: upd enqueue_fields(6-))
  have g: "generating (enqueue h s) = generating s"
    using b n by (fastforce simp: generating_def enqueue_fields)
  show "cs_active (enqueue h s) = card (generating (enqueue h s))" using c(6) by (simp add: g enqueue_fields)
  show "set (cs_queue (enqueue h s)) = {i. unanswered i (enqueue h s) \<and> \<not> started i (enqueue h s)}"
    using c(4) b n by (fastforce simp: enqueue_fields)
  show "distinct (cs_queue (enqueue h s))" using c(3,4) n by (simp add: enqueue_fields)
  show "isDNSHostname (host_of t (enqueue h s))" if "t < length (cs_tasks (enqueue h s))" for t
    using that c(10) [of t] assms(3) by (cases "t = ?n") (auto simp: enqueue_fields)
qed (use cert_coreD [OF assms(1)] assms(2) in \<open>auto simp: enqueue_fields\<close>)


lemma ok_issue:
  assumes "cert_ok s"
  shows "cert_ok (fst (issue name s))"
proof -
  let ?h = "normal_host name"
  note k = cert_okD [OF assms] and c = cert_coreD [OF cert_okD(1) [OF assms]]
  have hit: "cert_ok (s\<lparr>cs_cache := AList.update ?h v (AList.delete ?h (cs_cache s))\<rparr>)" if "map_of (cs_cache s) ?h = Some v" for v
  proof (rule ok_cache [OF assms])
    let ?d = "AList.delete ?h (cs_cache s)"
    have "?h \<notin> fst ` set ?d" by (auto simp: AList.delete_eq)
    note u = update_new_key [OF this]
    have "?h \<in> fst ` set (cs_cache s)" using that by (metis domI dom_map_of_conv_image_fst)
    then have "length ?d < length (cs_cache s)" unfolding AList.delete_eq by (auto intro!: length_filter_less)
    then show "length (AList.update ?h v ?d) \<le> MAX_CACHE" using c(9) by (simp add: u)
    show "distinct (map fst (AList.update ?h v ?d))" using c(8) by (intro distinct_update distinct_delete)
  qed
  have new: "cert_ok (drain (enqueue ?h s))"
    if "isDNSHostname ?h" "\<not> cs_closed s" "map_of (cs_pending s) ?h = None" "cs_active s < MAX_ACTIVE \<or> length (cs_queue s) < MAX_QUEUED"
    using that k by (intro ok_drain core_enqueue) (auto simp: enqueue_fields)
  show ?thesis
    unfolding issue_def Let_def using assms hit new by (auto split: option.splits simp: not_le)
qed

lemma ok_step: "cert_ok s \<Longrightarrow> cert_ok (cert_step s e)"
  by (cases e) (auto intro: ok_issue ok_generated ok_deadline ok_close ok_cache)

lemma ok_run: "cert_ok (cert_run evs)"
proof -
  have "cert_ok (foldl cert_step s evs)" if "cert_ok s" for s
    using that by (induction evs arbitrary: s) (auto intro: ok_step)
  moreover have "cert_ok (new_certificates :: 'a cert_state)"
    by (simp add: cert_ok_def cert_core_def new_certificates_def unanswered_def generating_def)
  ultimately show ?thesis unfolding cert_run_def by blast
qed

subsection \<open>Properties\<close>

text \<open>
  Whatever hosts are asked for, whatever comes back and whenever, the provider runs at most
  \<open>MAX_ACTIVE\<close> generations, \<open>active\<close> counts exactly the tasks that started and are not answered, the
  queue holds exactly the tasks that wait and never more than \<open>MAX_QUEUED\<close>, the cache holds at most
  \<open>MAX_CACHE\<close> certificates, one per host, and no two unanswered tasks are for the same host. While
  the provider is open, a task waits only when every place is taken.
\<close>

theorem issuance_bounded:
  "cs_active (cert_run evs) = card {t. unanswered t (cert_run evs) \<and> started t (cert_run evs)} \<and>
   cs_active (cert_run evs) \<le> MAX_ACTIVE \<and>
   set (cs_queue (cert_run evs)) = {t. unanswered t (cert_run evs) \<and> \<not> started t (cert_run evs)} \<and>
   distinct (cs_queue (cert_run evs)) \<and> length (cs_queue (cert_run evs)) \<le> MAX_QUEUED \<and>
   distinct (map fst (cs_cache (cert_run evs))) \<and> length (cs_cache (cert_run evs)) \<le> MAX_CACHE \<and>
   inj_on (\<lambda>t. host_of t (cert_run evs)) {t. unanswered t (cert_run evs)} \<and>
   (cs_closed (cert_run evs) \<or> cs_queue (cert_run evs) = [] \<or> cs_active (cert_run evs) = MAX_ACTIVE)"
proof -
  let ?s = "cert_run evs"
  note ok = ok_run [of evs]
  note k = cert_okD [OF ok] and c = cert_coreD [OF cert_okD(1) [OF ok]]
  have "inj_on (\<lambda>t. host_of t ?s) {t. unanswered t ?s}"
    using c(2) eq_key_imp_eq_value [OF c(1)] by (auto simp: inj_on_def)
  moreover have "cs_closed ?s \<or> cs_queue ?s = [] \<or> cs_active ?s = MAX_ACTIVE"
    using ok by (simp add: cert_ok_def)
  ultimately show ?thesis using c k(2) by (simp add: generating_def)
qed

lemma dns_name_char: "isDNSHostname h \<Longrightarrow> c \<in> set h \<Longrightarrow> alnum c \<or> c \<in> {CHR ''.'', CHR ''-''}"
  by (auto simp: isDNSHostname_def list_all_iff)

text \<open>
  Every host a generation is started for consists of letters, digits, dots and hyphens, so the
  extension file has exactly its five lines with the one \<open>subjectAltName\<close>, the host's own, and the
  subject given to \<open>openssl req\<close> has the one component \<open>CN\<close>: a client's SNI name cannot add lines or
  arguments to a certificate request.
\<close>

theorem certificate_request_not_injectable:
  "list_all (\<lambda>k.
     list_all (\<lambda>c. alnum c \<or> c = CHR ''.'' \<or> c = CHR ''-'') (ct_host k) \<and>
     split_on CHR 0x0A (extension_file (ct_host k)) =
       [''basicConstraints=critical,CA:FALSE'', ''keyUsage=critical,digitalSignature,keyEncipherment'',
        ''extendedKeyUsage=serverAuth'', ''subjectAltName=DNS:'' @ ct_host k, []] \<and>
     split_on CHR ''/'' (last (openssl_runs dir (ct_host k) serial ! 1)) = [[], ''CN='' @ ct_host k]) (cs_tasks (cert_run evs))"
proof (unfold list_all_iff, intro ballI conjI)
  fix k assume "k \<in> set (cs_tasks (cert_run evs))"
  then obtain t where "t < length (cs_tasks (cert_run evs))" "k = cs_tasks (cert_run evs) ! t" by (auto simp: in_set_conv_nth)
  then have dns: "isDNSHostname (ct_host k)"
    using cert_coreD(10) [OF cert_okD(1) [OF ok_run [of evs]]] by (simp add: host_of_def)
  note ch = dns_name_char [OF dns]
  show "alnum c \<or> c = CHR ''.'' \<or> c = CHR ''-''" if "c \<in> set (ct_host k)" for c using ch [OF that] by simp
  have nl: "CHR 0x0A \<notin> set (ct_host k)" and sl: "CHR ''/'' \<notin> set (ct_host k)"
    using ch [of "CHR 0x0A"] ch [of "CHR ''/''"] by (auto simp: alnum_def alpha_def digit_def)
  show "split_on CHR 0x0A (extension_file (ct_host k)) =
       [''basicConstraints=critical,CA:FALSE'', ''keyUsage=critical,digitalSignature,keyEncipherment'',
        ''extendedKeyUsage=serverAuth'', ''subjectAltName=DNS:'' @ ct_host k, []]"
    unfolding extension_file_def using nl by (intro split_join) auto
  have "split_on CHR ''/'' ([] @ CHR ''/'' # (''CN='' @ ct_host k)) = [[], ''CN='' @ ct_host k]"
    using sl by (subst split_on_append) auto
  then show "split_on CHR ''/'' (last (openssl_runs dir (ct_host k) serial ! 1)) = [[], ''CN='' @ ct_host k]"
    by (simp add: openssl_runs_def)
qed

end
