(* ===== verification/Registry.thy ===== *)
theory Registry
  imports Prelude
begin

text \<open>
  The contract of everything that stands for appliances under their identifiers: objects are
  numbers, \<open>ids\<close> gives the identifier of each. An object is opened when no other of its identifier
  is open, used while it is open, and shut once. The acceptor's devices, the Home Assistant
  handlers and the bridged devices keep this contract; \<open>registry\<close> is the interface.
\<close>

datatype reg_event = Open nat | Use nat | Shut nat

type_synonym registry = "string \<rightharpoonup> nat"

definition is_open :: "string list \<Rightarrow> nat \<Rightarrow> registry \<Rightarrow> bool" where
  "is_open ids d m \<longleftrightarrow> d < length ids \<and> m (ids ! d) = Some d"

fun reg_step :: "string list \<Rightarrow> registry \<Rightarrow> reg_event \<Rightarrow> registry option" where
  "reg_step ids m (Open d) = (if d < length ids \<and> m (ids ! d) = None then Some (m(ids ! d \<mapsto> d)) else None)"
| "reg_step ids m (Use d) = (if is_open ids d m then Some m else None)"
| "reg_step ids m (Shut d) = (if is_open ids d m then Some (m(ids ! d := None)) else None)"

fun reg_run :: "string list \<Rightarrow> registry \<Rightarrow> reg_event list \<Rightarrow> registry option" where
  "reg_run ids m [] = Some m"
| "reg_run ids m (e # es) = (case reg_step ids m e of None \<Rightarrow> None | Some m' \<Rightarrow> reg_run ids m' es)"

lemma reg_run_append:
  "reg_run ids m (es @ fs) = (case reg_run ids m es of None \<Rightarrow> None | Some m' \<Rightarrow> reg_run ids m' fs)"
  by (induction es arbitrary: m) (auto split: option.splits)

lemma reg_step_more: "reg_step ids m e = Some m' \<Longrightarrow> reg_step (ids @ js) m e = Some m'"
  by (cases e) (auto simp: is_open_def nth_append split: if_splits)

lemma reg_run_more: "reg_run ids m es = Some m' \<Longrightarrow> reg_run (ids @ js) m es = Some m'"
  by (induction es arbitrary: m) (auto split: option.splits simp: reg_step_more)

text \<open>The registry is what the events say: who was opened last under an identifier, unless shut.\<close>

lemma reg_step_own:
  assumes "reg_step ids m e = Some m'" "\<And>i d. m i = Some d \<Longrightarrow> d < length ids \<and> ids ! d = i" "m' i = Some d"
  shows "d < length ids \<and> ids ! d = i"
proof -
  have "m i = Some d \<or> d < length ids \<and> ids ! d = i"
    using assms(1,3) by (cases e) (auto simp: is_open_def split: if_splits)
  then show ?thesis using assms(2) by blast
qed

lemma reg_run_own:
  "reg_run ids m es = Some m' \<Longrightarrow> (\<And>i d. m i = Some d \<Longrightarrow> d < length ids \<and> ids ! d = i) \<Longrightarrow>
    m' i = Some d \<Longrightarrow> d < length ids \<and> ids ! d = i"
proof (induction es arbitrary: m)
  case Nil
  then show ?case by simp
next
  case (Cons e es)
  from Cons.prems(1) obtain n where n: "reg_step ids m e = Some n" "reg_run ids n es = Some m'"
    by (auto split: option.splits)
  show ?case using reg_step_own [OF n(1) Cons.prems(2)] by (intro Cons.IH [OF n(2) _ Cons.prems(3)]) blast
qed

lemma reg_run_opened:
  "reg_run ids m es = Some m' \<Longrightarrow> m' i = Some d \<Longrightarrow> m i = Some d \<or> Open d \<in> set es"
proof (induction es arbitrary: m)
  case Nil
  then show ?case by simp
next
  case (Cons e es)
  from Cons.prems(1) obtain n where n: "reg_step ids m e = Some n" "reg_run ids n es = Some m'"
    by (auto split: option.splits)
  from Cons.IH [OF n(2) Cons.prems(2)] show ?case
    using n(1) by (cases e) (auto split: if_splits)
qed

lemma reg_run_still_open:
  "reg_run ids m es = Some m' \<Longrightarrow> is_open ids d m \<Longrightarrow> Shut d \<notin> set es \<Longrightarrow> is_open ids d m'"
proof (induction es arbitrary: m)
  case Nil
  then show ?case by simp
next
  case (Cons e es)
  from Cons.prems(1) obtain n where n: "reg_step ids m e = Some n" "reg_run ids n es = Some m'"
    by (auto split: option.splits)
  have "is_open ids d n"
    using n(1) Cons.prems(2,3) by (cases e) (auto simp: is_open_def split: if_splits)
  then show ?case using Cons.IH [OF n(2)] Cons.prems(3) by simp
qed

text \<open>An object that is used was opened before and not shut since.\<close>

lemma reg_run_use:
  assumes "reg_run ids Map.empty (xs @ Use d # ys) = Some m"
  shows "Open d \<in> set xs" "\<exists>as bs. xs = as @ Open d # bs \<and> Shut d \<notin> set bs"
proof -
  obtain n where n: "reg_run ids Map.empty xs = Some n" "is_open ids d n"
    using assms by (auto simp: reg_run_append split: option.splits if_splits)
  then have o: "n (ids ! d) = Some d" by (simp add: is_open_def)
  from reg_run_opened [OF n(1) o] show op: "Open d \<in> set xs" by simp
  have "\<exists>as bs. xs = as @ Open d # bs \<and> Shut d \<notin> set bs"
    using n
  proof (induction xs arbitrary: n rule: rev_induct)
    case Nil
    then show ?case by (auto simp: is_open_def)
  next
    case (snoc e es)
    from snoc.prems(1) obtain k where k: "reg_run ids Map.empty es = Some k" "reg_step ids k e = Some n"
      by (auto simp: reg_run_append split: option.splits)
    show ?case
    proof (cases "e = Open d")
      case True
      then show ?thesis by (intro exI [of _ es] exI [of _ "[]"]) simp
    next
      case False
      have "is_open ids d k" "e \<noteq> Shut d" using k(2) snoc.prems(2) False by (cases e; auto simp: is_open_def split: if_splits)+
      with snoc.IH [OF k(1)] obtain as bs where "es = as @ Open d # bs" "Shut d \<notin> set bs" by blast
      then show ?thesis using \<open>e \<noteq> Shut d\<close> by (intro exI [of _ as] exI [of _ "bs @ [e]"]) simp
    qed
  qed
  then show "\<exists>as bs. xs = as @ Open d # bs \<and> Shut d \<notin> set bs" .
qed

subsection \<open>The interface\<close>

locale registry =
  fixes ids :: "'s \<Rightarrow> string list"
    and log :: "'s \<Rightarrow> reg_event list"
    and held :: "'s \<Rightarrow> string \<Rightarrow> nat option"
    and reachable :: "'s \<Rightarrow> bool"
  assumes keeps: "reachable s \<Longrightarrow> reg_run (ids s) Map.empty (log s) = Some (held s)"
begin

lemma held_id: "reachable s \<Longrightarrow> held s i = Some d \<Longrightarrow> d < length (ids s) \<and> ids s ! d = i"
  by (rule reg_run_own [OF keeps]) auto

lemma held_unique: "reachable s \<Longrightarrow> held s i = Some d \<Longrightarrow> held s j = Some d \<Longrightarrow> i = j"
  using held_id by metis

lemma held_opened: "reachable s \<Longrightarrow> held s i = Some d \<Longrightarrow> Open d \<in> set (log s)"
  using reg_run_opened [OF keeps] by auto

lemma used_open: "reachable s \<Longrightarrow> log s = xs @ Use d # ys \<Longrightarrow> \<exists>as bs. xs = as @ Open d # bs \<and> Shut d \<notin> set bs"
  using reg_run_use(2) keeps by metis

end

end
