(* ===== verification/Thinq2Device.thy ===== *)
theory Thinq2Device
  imports AccessInv RouterStore Hex Registry
begin

text \<open>
  Appliances on the internal broker: \<open>cloud/thinq2/device.ts\<close> and \<open>generateDeployResponse\<close> of
  \<open>cloud/thinq2/provisioning.ts\<close>. A broker client is its number; a \<open>Device\<close> object is its place in
  \<open>devices\<close>. What the acceptor does to the outside is \<open>flow\<close>: the events it and its devices emit,
  in order, and what it publishes, as the JSON value behind the text.

  \<open>Client.destroy\<close> is synchronous: the broker publishes the client's will if the policy allows it
  (\<open>client_will\<close>), which comes back to the acceptor, and then reports the disconnection. A client
  is destroyed once (\<open>gone\<close>). Since a will is handled inside the handler that caused it,
  \<open>destroy_client\<close> has fuel; \<open>destroy_fuel\<close> shows that two levels are all there ever are.

  The JSON parser and the clock are in the environment. Listeners return.
\<close>

record metadata =
  modelId :: "json option"
  modelName :: "json option"
  swVersion :: "json option"
  deviceType :: "json option"

record t2_device =
  dv_topic :: string
  dv_id :: string
  dv_meta :: metadata
  dv_source :: "string option"
  deployProfile :: "json option"

datatype flow =
    NewDevice nat
  | DropDevice string
  | Close nat
  | Data nat buffer
  | BridgeMessage nat json
  | SendData nat buffer
  | Publish string json

record acceptor =
  clientsById :: "string \<rightharpoonup> nat"
  deviceObj :: "nat \<rightharpoonup> nat"
  deployMsg :: "nat \<rightharpoonup> json"
  gone :: "nat list"
  devices :: "t2_device list"
  flow :: "flow list"

record world =
  parse_json :: "string \<Rightarrow> json option"
  now_ms :: int
  utc_year :: nat
  utc_rest :: "nat list"
  client_source :: "nat \<Rightarrow> string option"
  client_remote :: "nat \<Rightarrow> string option"
  client_will :: "nat \<Rightarrow> (string \<times> string) option"

definition new_acceptor :: acceptor where
  "new_acceptor = \<lparr>clientsById = Map.empty, deviceObj = Map.empty, deployMsg = Map.empty, gone = [], devices = [], flow = []\<rparr>"

definition emit_flow :: "flow \<Rightarrow> acceptor \<Rightarrow> acceptor" where
  "emit_flow e a = a\<lparr>flow := flow a @ [e]\<rparr>"

definition device_of :: "nat \<Rightarrow> acceptor \<Rightarrow> t2_device" where
  "device_of d a = devices a ! d"

subsection \<open>What a device sends\<close>

definition dev_send :: "world \<Rightarrow> nat \<Rightarrow> string \<Rightarrow> int \<Rightarrow> json \<Rightarrow> acceptor \<Rightarrow> acceptor" where
  "dev_send w d cmd ty body a =
    emit_flow (Publish (dv_topic (device_of d a))
      (JObj [(''did'', JStr (dv_id (device_of d a))), (''mid'', JNum (now_ms w)), (''cmd'', JStr cmd), (''type'', JNum ty), (''data'', body)])) a"

definition send_packet :: "world \<Rightarrow> nat \<Rightarrow> buffer \<Rightarrow> acceptor \<Rightarrow> acceptor" where
  "send_packet w d buf a = dev_send w d ''packet'' 1 (JStr (to_hex buf)) (emit_flow (SendData d buf) a)"

definition forward_message :: "nat \<Rightarrow> json \<Rightarrow> acceptor \<Rightarrow> acceptor" where
  "forward_message d msg a =
    emit_flow (Publish (dv_topic (device_of d a)) msg)
      (case field ''data'' msg of
         Some (JStr s) \<Rightarrow>
           if field ''cmd'' msg \<in> {Some (JStr ''packet''), Some (JStr ''ack'')} then emit_flow (SendData d (from_hex s)) a else a
       | _ \<Rightarrow> a)"

subsection \<open>Checking a message\<close>

definition MAX_PROVISIONING_TEXT_LENGTH :: nat where "MAX_PROVISIONING_TEXT_LENGTH = 128"

fun boundedText :: "json option \<Rightarrow> bool" where
  "boundedText (Some (JStr s)) \<longleftrightarrow> s \<noteq> [] \<and> length s \<le> MAX_PROVISIONING_TEXT_LENGTH \<and> trim s \<noteq> []"
| "boundedText _ \<longleftrightarrow> False"

definition boundedOptionalText :: "json option \<Rightarrow> bool" where
  "boundedOptionalText v \<longleftrightarrow> v = Some (JStr []) \<or> boundedText v"

fun objectRecord :: "json option \<Rightarrow> json option" where
  "objectRecord (Some (JObj kvs)) = Some (JObj kvs)"
| "objectRecord _ = None"

definition field_of :: "string \<Rightarrow> json option \<Rightarrow> json option" where
  "field_of k v = (case v of None \<Rightarrow> None | Some j \<Rightarrow> field k j)"

definition validMessage :: "json option \<Rightarrow> string \<Rightarrow> json option" where
  "validMessage pl did =
    (case objectRecord pl of
       Some m \<Rightarrow> if field ''did'' m = Some (JStr did) then Some m else None
     | None \<Rightarrow> None)"

definition optional_field_ok :: "json \<Rightarrow> string \<Rightarrow> bool" where
  "optional_field_ok info k \<longleftrightarrow> field k info = None \<or> boundedOptionalText (field k info)"

definition validDeployMessage :: "json option \<Rightarrow> string \<Rightarrow> json option" where
  "validDeployMessage pl did =
    (case validMessage pl did of
       None \<Rightarrow> None
     | Some m \<Rightarrow>
         if field ''cmd'' m \<noteq> Some (JStr ''preDeploy'') \<and> field ''cmd'' m \<noteq> Some (JStr ''deploy'') \<or> \<not> boundedText (field ''kind'' m)
         then None
         else (case objectRecord (field_of ''appInfo'' (objectRecord (field ''data'' m))) of
             None \<Rightarrow> None
           | Some info \<Rightarrow>
               if \<not> boundedText (field ''modelName'' info) then None
               else if \<not> list_all (optional_field_ok info) [''softVer'', ''DeviceType''] then None
               else Some m))"

text \<open>The \<open>did\<close> of a message that passed \<open>validMessage\<close>.\<close>

fun str_of :: "json option \<Rightarrow> string" where
  "str_of (Some (JStr s)) = s"
| "str_of _ = []"

definition did_of :: "json \<Rightarrow> string" where
  "did_of m = str_of (field ''did'' m)"

definition or_null :: "json option \<Rightarrow> json" where
  "or_null v = (case v of Some j \<Rightarrow> j | None \<Rightarrow> JNull)"

definition generateDeployResponse :: "world \<Rightarrow> json \<Rightarrow> json" where
  "generateDeployResponse w m =
    JObj [(''did'', JStr (did_of m)), (''mid'', JNum (now_ms w)), (''cmd'', JStr ''completeProvisioning''), (''type'', JNum 0),
      (''data'', JObj [(''result'', JNum 0), (''host'', JStr ''message''),
        (''appInfo'', JObj [(''host'', JStr ''message''),
          (''publication'', JObj [(''message'', JStr (''clip/message/devices/'' @ did_of m)),
            (''provisioning'', JStr (''clip/provisioning/devices/'' @ did_of m))])]),
        (''provisioningType'', or_null (field ''cmd'' m)), (''deployInterval'', JNum 600)])]"

subsection \<open>The acceptor\<close>

definition disconnected :: "nat \<Rightarrow> acceptor \<Rightarrow> acceptor" where
  "disconnected c a =
    (case deviceObj a c of
       None \<Rightarrow> a
     | Some d \<Rightarrow>
         let i = dv_id (device_of d a);
             a = (if clientsById a i = Some c then a\<lparr>clientsById := (clientsById a)(i := None)\<rparr> else a);
             a = emit_flow (DropDevice i) a;
             a = emit_flow (Close d) a
         in a\<lparr>deviceObj := (deviceObj a)(c := None)\<rparr>)"

definition undeploy :: "nat \<Rightarrow> acceptor \<Rightarrow> acceptor" where
  "undeploy c a = (let a = disconnected c a in a\<lparr>deployMsg := (deployMsg a)(c := None)\<rparr>)"

definition meta_of :: "json \<Rightarrow> metadata" where
  "meta_of m =
    (let info = field_of ''appInfo'' (field ''data'' m)
     in \<lparr>modelId = field ''kind'' m, modelName = field_of ''modelName'' info,
         swVersion = field_of ''softVer'' info, deviceType = field_of ''DeviceType'' info\<rparr>)"

definition device_for :: "world \<Rightarrow> string \<Rightarrow> json \<Rightarrow> nat \<Rightarrow> t2_device" where
  "device_for w i m c =
    \<lparr>dv_topic = ''lime/devices/'' @ i, dv_id = i, dv_meta = meta_of m,
     dv_source = (case client_source w c of Some addr \<Rightarrow> Some addr | None \<Rightarrow> client_remote w c), deployProfile = Some m\<rparr>"

definition register :: "world \<Rightarrow> string \<Rightarrow> json \<Rightarrow> nat \<Rightarrow> acceptor \<Rightarrow> acceptor" where
  "register w i m c a =
    (let d = length (devices a)
     in emit_flow (NewDevice d)
          (a\<lparr>clientsById := (clientsById a)(i \<mapsto> c), devices := devices a @ [device_for w i m c],
             deviceObj := (deviceObj a)(c \<mapsto> d)\<rparr>))"

definition completeProvisioning :: "(nat \<Rightarrow> acceptor \<Rightarrow> acceptor) \<Rightarrow> world \<Rightarrow> string \<Rightarrow> json option \<Rightarrow> nat \<Rightarrow> acceptor \<Rightarrow> acceptor" where
  "completeProvisioning kill w i pl c a =
    (if \<not> isSafeDeviceId i then a
     else if field_of ''cmd'' (validMessage pl i) \<noteq> Some (JStr ''completeProvisioning_ack'') then a
     else (case deployMsg a c of
         None \<Rightarrow> a
       | Some m \<Rightarrow>
           if did_of m \<noteq> i then a
           else if deviceObj a c \<noteq> None then a
           else register w i m c (case clientsById a i of Some other \<Rightarrow> kill other a | None \<Rightarrow> a)))"

text \<open>The seven bytes: year, then month, date, hours, minutes, seconds and day as \<open>Date\<close> gives them.\<close>

definition timeSyncRequest :: "world \<Rightarrow> nat \<Rightarrow> acceptor \<Rightarrow> acceptor" where
  "timeSyncRequest w c a =
    (case deviceObj a c of
       None \<Rightarrow> a
     | Some d \<Rightarrow> dev_send w d ''resp_timesync'' 1 (JStr (b64_encode (utc_year w mod 100 # utc_rest w) @ ''=='')) a)"

text \<open>A message on the appliance's own topic that is neither an acknowledgement nor a time request.\<close>

definition device_message :: "json \<Rightarrow> nat \<Rightarrow> acceptor \<Rightarrow> acceptor" where
  "device_message m d a =
    emit_flow (BridgeMessage d m)
      (case field ''data'' m of
         Some (JStr s) \<Rightarrow> if field ''cmd'' m = Some (JStr ''device_packet'') then emit_flow (Data d (from_hex s)) a else a
       | _ \<Rightarrow> a)"

text \<open>The latest announcement is kept with the client and its device.\<close>

definition keep_deploy :: "json \<Rightarrow> nat \<Rightarrow> acceptor \<Rightarrow> acceptor" where
  "keep_deploy deploy c a =
    (let a = a\<lparr>deployMsg := (deployMsg a)(c \<mapsto> deploy)\<rparr>
     in case deviceObj a c of
          None \<Rightarrow> a
        | Some d \<Rightarrow> a\<lparr>devices := (devices a)[d := (device_of d a)\<lparr>deployProfile := Some deploy\<rparr>]\<rparr>)"

definition provisioning :: "world \<Rightarrow> json option \<Rightarrow> string \<Rightarrow> nat \<Rightarrow> acceptor \<Rightarrow> acceptor" where
  "provisioning w pl i c a =
    (case validMessage pl i of
       None \<Rightarrow> a
     | Some m \<Rightarrow>
         if field ''cmd'' m = Some (JStr ''undeploy'') then
           (if (\<exists>k \<in> set_option (deployMsg a c). did_of k \<noteq> did_of m) \<or>
               (\<exists>d \<in> set_option (deviceObj a c). dv_id (device_of d a) \<noteq> did_of m)
            then a else undeploy c a)
         else (case validDeployMessage (Some m) i of
             None \<Rightarrow> a
           | Some deploy \<Rightarrow>
               if (\<exists>k \<in> set_option (deployMsg a c). did_of k \<noteq> did_of deploy) \<or>
                  (\<exists>d \<in> set_option (deviceObj a c). dv_id (device_of d a) \<noteq> did_of deploy)
               then a
               else
                 emit_flow (Publish (''lime/devices/'' @ did_of deploy) (generateDeployResponse w deploy)) (keep_deploy deploy c a)))"

definition mqtt :: "(nat \<Rightarrow> acceptor \<Rightarrow> acceptor) \<Rightarrow> world \<Rightarrow> string \<Rightarrow> json option \<Rightarrow> nat \<Rightarrow> acceptor \<Rightarrow> acceptor" where
  "mqtt kill w t pl c a =
    (case parseDeviceTopic t of
       Some (Message, i) \<Rightarrow>
         (case validMessage pl i of
            None \<Rightarrow> a
          | Some m \<Rightarrow>
              if field ''cmd'' m = Some (JStr ''completeProvisioning_ack'') then completeProvisioning kill w (did_of m) (Some m) c a
              else (case deviceObj a c of
                  None \<Rightarrow> a
                | Some d \<Rightarrow>
                    if did_of m \<noteq> dv_id (device_of d a) then a
                    else if field ''cmd'' m = Some (JStr ''req_timesync'') then timeSyncRequest w c a
                    else device_message m d a))
     | Some (Provisioning, i) \<Rightarrow> provisioning w pl i c a
     | _ \<Rightarrow> a)"

text \<open>The broker's \<open>publish\<close> listener; a packet of the server itself has no client.\<close>

definition on_publish :: "(nat \<Rightarrow> acceptor \<Rightarrow> acceptor) \<Rightarrow> world \<Rightarrow> string \<Rightarrow> string \<Rightarrow> nat option \<Rightarrow> acceptor \<Rightarrow> acceptor" where
  "on_publish kill w t pl client a =
    (case client of
       None \<Rightarrow> a
     | Some c \<Rightarrow>
         if last_occurrence ''clip/'' t \<noteq> None then mqtt kill w t (parseDevicePayload (parse_json w) pl) c a else a)"

fun destroy_client :: "nat \<Rightarrow> world \<Rightarrow> nat \<Rightarrow> acceptor \<Rightarrow> acceptor" where
  "destroy_client 0 w c a = a"
| "destroy_client (Suc fuel) w c a =
    (if c \<in> set (gone a) then a
     else
       let a = a\<lparr>gone := c # gone a\<rparr>
       in disconnected c
            (case client_will w c of
               None \<Rightarrow> a
             | Some (t, pl) \<Rightarrow> on_publish (destroy_client fuel w) w t pl (Some c) a))"

text \<open>
  What reaches the acceptor: packets the broker accepted from a client it still has, clients it
  destroys, and what the owners of its devices send through them, at any time.
\<close>

datatype acc_event =
    Published world string string "nat option"
  | Destroyed world nat
  | Sends world nat buffer
  | Forwards nat json

fun acc_step :: "acceptor \<Rightarrow> acc_event \<Rightarrow> acceptor" where
  "acc_step a (Published w t pl client) =
    (if client \<in> Some ` set (gone a) then a else on_publish (destroy_client 2 w) w t pl client a)"
| "acc_step a (Destroyed w c) = destroy_client 2 w c a"
| "acc_step a (Sends w d buf) = (if d < length (devices a) then send_packet w d buf a else a)"
| "acc_step a (Forwards d msg) = (if d < length (devices a) then forward_message d msg a else a)"

definition acc_run :: "acc_event list \<Rightarrow> acceptor" where
  "acc_run evs = foldl acc_step new_acceptor evs"

subsection \<open>The registry the flow describes\<close>

text \<open>A device is announced, reports, and closes: the events of the contract in the flow.\<close>

definition reg_events :: "flow list \<Rightarrow> reg_event list" where
  "reg_events es = concat (map (\<lambda>e. case e of NewDevice d \<Rightarrow> [Open d] | Close d \<Rightarrow> [Shut d] | Data d _ \<Rightarrow> [Use d]
    | BridgeMessage d _ \<Rightarrow> [Use d] | _ \<Rightarrow> []) es)"

lemma reg_events_append [simp]: "reg_events (xs @ ys) = reg_events xs @ reg_events ys"
  by (simp add: reg_events_def)

lemma reg_events_Cons [simp]: "reg_events (e # es) = (case e of NewDevice d \<Rightarrow> [Open d] | Close d \<Rightarrow> [Shut d] | Data d _ \<Rightarrow> [Use d]
    | BridgeMessage d _ \<Rightarrow> [Use d] | _ \<Rightarrow> []) @ reg_events es" "reg_events [] = []"
  by (simp_all add: reg_events_def)

definition ids_of :: "acceptor \<Rightarrow> string list" where
  "ids_of a = map dv_id (devices a)"

definition open_devices :: "acceptor \<Rightarrow> registry" where
  "open_devices a = map_comp (deviceObj a) (clientsById a)"

definition announced :: "flow list \<Rightarrow> nat list" where
  "announced es = concat (map (\<lambda>e. case e of NewDevice d \<Rightarrow> [d] | _ \<Rightarrow> []) es)"

subsection \<open>The invariant\<close>

definition meta_ok :: "metadata \<Rightarrow> bool" where
  "meta_ok m \<longleftrightarrow> boundedText (modelId m) \<and> boundedText (modelName m) \<and>
    list_all (\<lambda>v. v = None \<or> boundedOptionalText v) [swVersion m, deviceType m]"

definition device_ok :: "t2_device \<Rightarrow> bool" where
  "device_ok dev \<longleftrightarrow> isSafeDeviceId (dv_id dev) \<and> dv_topic dev = ''lime/devices/'' @ dv_id dev \<and> meta_ok (dv_meta dev)"

definition acc_ok :: "acceptor \<Rightarrow> bool" where
  "acc_ok a \<longleftrightarrow>
    (\<forall>c d. deviceObj a c = Some d \<longrightarrow> d < length (devices a) \<and> clientsById a (dv_id (device_of d a)) = Some c) \<and>
    (\<forall>i c. clientsById a i = Some c \<longrightarrow> (\<exists>d. deviceObj a c = Some d \<and> dv_id (device_of d a) = i)) \<and>
    list_all device_ok (devices a) \<and>
    (\<forall>c m. deployMsg a c = Some m \<longrightarrow> validDeployMessage (Some m) (did_of m) = Some m) \<and>
    reg_run (ids_of a) Map.empty (reg_events (flow a)) = Some (open_devices a) \<and>
    announced (flow a) = [0..<length (devices a)]"

lemma acc_okD:
  assumes "acc_ok a"
  shows "deviceObj a c = Some d \<Longrightarrow> d < length (devices a)"
    "deviceObj a c = Some d \<Longrightarrow> clientsById a (dv_id (device_of d a)) = Some c"
    "clientsById a i = Some c \<Longrightarrow> \<exists>d. deviceObj a c = Some d \<and> dv_id (device_of d a) = i"
    "list_all device_ok (devices a)"
    "deployMsg a c = Some m \<Longrightarrow> validDeployMessage (Some m) (did_of m) = Some m"
    "reg_run (ids_of a) Map.empty (reg_events (flow a)) = Some (open_devices a)"
    "announced (flow a) = [0..<length (devices a)]"
  using assms unfolding acc_ok_def by blast+

lemma acc_okI:
  assumes "\<And>c d. deviceObj a c = Some d \<Longrightarrow> d < length (devices a)"
    "\<And>c d. deviceObj a c = Some d \<Longrightarrow> clientsById a (dv_id (device_of d a)) = Some c"
    "\<And>i c. clientsById a i = Some c \<Longrightarrow> \<exists>d. deviceObj a c = Some d \<and> dv_id (device_of d a) = i"
    "list_all device_ok (devices a)"
    "\<And>c m. deployMsg a c = Some m \<Longrightarrow> validDeployMessage (Some m) (did_of m) = Some m"
    "reg_run (ids_of a) Map.empty (reg_events (flow a)) = Some (open_devices a)"
    "announced (flow a) = [0..<length (devices a)]"
  shows "acc_ok a"
  using assms unfolding acc_ok_def by blast

lemma emit_flow_fields [simp]:
  "clientsById (emit_flow e a) = clientsById a" "deviceObj (emit_flow e a) = deviceObj a" "deployMsg (emit_flow e a) = deployMsg a"
  "gone (emit_flow e a) = gone a" "devices (emit_flow e a) = devices a" "flow (emit_flow e a) = flow a @ [e]"
  "device_of d (emit_flow e a) = device_of d a" "ids_of (emit_flow e a) = ids_of a" "open_devices (emit_flow e a) = open_devices a"
  by (simp_all add: emit_flow_def device_of_def ids_of_def open_devices_def)

lemma announced_append [simp]: "announced (xs @ ys) = announced xs @ announced ys"
  by (simp add: announced_def)

lemma announced_Cons [simp]: "announced (e # es) = (case e of NewDevice d \<Rightarrow> [d] | _ \<Rightarrow> []) @ announced es"
  "announced [] = []"
  by (simp_all add: announced_def)

text \<open>What leaves the registry as it is.\<close>

lemma ok_emit:
  assumes "acc_ok a" "reg_run (ids_of a) (open_devices a) (reg_events [e]) = Some (open_devices a)" "announced [e] = []"
  shows "acc_ok (emit_flow e a)"
  by (rule acc_okI) (use acc_okD [OF assms(1)] assms(2,3) in \<open>auto simp: reg_run_append\<close>)

lemma open_deviceI:
  "acc_ok a \<Longrightarrow> deviceObj a c = Some d \<Longrightarrow> is_open (ids_of a) d (open_devices a)"
  using acc_okD(1,2) [of a c d] by (auto simp: is_open_def ids_of_def open_devices_def device_of_def map_comp_def)

lemma ok_gone [simp]: "acc_ok (a\<lparr>gone := g\<rparr>) = acc_ok a"
  by (simp add: acc_ok_def device_of_def ids_of_def open_devices_def)


subsection \<open>The handlers keep it\<close>

lemma disconnected_eq:
  assumes "acc_ok a" "deviceObj a c = Some d"
  defines "i \<equiv> dv_id (device_of d a)"
  shows "disconnected c a =
    a\<lparr>clientsById := (clientsById a)(i := None), deviceObj := (deviceObj a)(c := None), flow := flow a @ [DropDevice i, Close d]\<rparr>"
  using acc_okD(2) [OF assms(1,2)] assms(2) unfolding i_def disconnected_def
  by (simp add: Let_def emit_flow_def device_of_def)

lemma disconnected_none [simp]: "deviceObj a c = None \<Longrightarrow> disconnected c a = a"
  by (simp add: disconnected_def)

lemma disconnected_fields:
  assumes "acc_ok a"
  shows "deviceObj (disconnected c a) = (deviceObj a)(c := None)" "devices (disconnected c a) = devices a"
    "deployMsg (disconnected c a) = deployMsg a" "gone (disconnected c a) = gone a"
proof -
  have "deviceObj (disconnected c a) = (deviceObj a)(c := None) \<and> devices (disconnected c a) = devices a \<and>
    deployMsg (disconnected c a) = deployMsg a \<and> gone (disconnected c a) = gone a"
    by (cases "deviceObj a c") (auto simp: disconnected_eq [OF assms] intro: ext)
  then show "deviceObj (disconnected c a) = (deviceObj a)(c := None)" "devices (disconnected c a) = devices a"
    "deployMsg (disconnected c a) = deployMsg a" "gone (disconnected c a) = gone a" by blast+
qed

lemma ok_disconnected:
  assumes "acc_ok a"
  shows "acc_ok (disconnected c a)"
proof (cases "deviceObj a c")
  case None
  then show ?thesis using assms by simp
next
  case (Some d)
  let ?i = "dv_id (device_of d a)" and ?b = "disconnected c a"
  note eq = disconnected_eq [OF assms Some] and k = acc_okD [OF assms]
  have op: "is_open (ids_of a) d (open_devices a)" using open_deviceI [OF assms Some] .
  have i: "ids_of a ! d = ?i" using k(1) [OF Some] by (simp add: ids_of_def device_of_def)
  have ow: "clientsById a ?i = Some c" by (rule k(2) [OF Some])
  have other: "c' = c" if "clientsById a j = Some c'" "deviceObj a c' = Some d" for j c'
    using k(2) [OF that(2)] ow by simp
  show ?thesis
  proof (rule acc_okI)
    show "e < length (devices ?b)" if "deviceObj ?b x = Some e" for x e
      using that k(1) [of x e] by (auto simp: eq split: if_splits)
    show "clientsById ?b (dv_id (device_of e ?b)) = Some x" if "deviceObj ?b x = Some e" for x e
      using that k(2) [of x e] ow by (auto simp: eq device_of_def split: if_splits)
    show "\<exists>e. deviceObj ?b x = Some e \<and> dv_id (device_of e ?b) = j" if "clientsById ?b j = Some x" for j x
      using that k(3) [of j x] Some by (auto simp: eq device_of_def split: if_splits)
    have "open_devices ?b = (open_devices a)(?i := None)"
      using k(3) Some by (fastforce simp: eq open_devices_def map_comp_def intro!: ext split: option.splits)
    then show "reg_run (ids_of ?b) Map.empty (reg_events (flow ?b)) = Some (open_devices ?b)"
      using k(6) op i unfolding eq by (auto simp: reg_run_append ids_of_def is_open_def)
  qed (use k in \<open>auto simp: eq device_of_def\<close>)
qed

lemma open_devices_upd [simp]:
  "open_devices (a\<lparr>deployMsg := x\<rparr>) = open_devices a" "open_devices (a\<lparr>devices := y\<rparr>) = open_devices a"
  "ids_of (a\<lparr>deployMsg := x\<rparr>) = ids_of a" "device_of d (a\<lparr>deployMsg := x\<rparr>) = device_of d a"
  by (simp_all add: open_devices_def ids_of_def device_of_def)

lemma ok_deployMsg:
  assumes "acc_ok a" "\<And>m. v = Some m \<Longrightarrow> validDeployMessage (Some m) (did_of m) = Some m"
  shows "acc_ok (a\<lparr>deployMsg := (deployMsg a)(c := v)\<rparr>)"
  by (rule acc_okI) (use acc_okD [OF assms(1)] assms(2) in \<open>auto split: if_splits\<close>)

text \<open>Keeping the latest announcement with the device.\<close>

lemma ok_profile:
  assumes "acc_ok a" "d < length (devices a)"
  shows "acc_ok (a\<lparr>devices := (devices a)[d := (device_of d a)\<lparr>deployProfile := p\<rparr>]\<rparr>)"
proof -
  let ?b = "a\<lparr>devices := (devices a)[d := (device_of d a)\<lparr>deployProfile := p\<rparr>]\<rparr>"
  note k = acc_okD [OF assms(1)]
  have same: "dv_id (device_of e ?b) = dv_id (device_of e a)" for e
    by (cases "e = d") (simp_all add: device_of_def assms(2))
  have ids: "ids_of ?b = ids_of a"
    using assms(2) by (simp add: ids_of_def map_update device_of_def list_update_same_conv)
  have "device_ok (device_of d a)" using k(4) assms(2) by (simp add: list_all_length device_of_def)
  then have "device_ok ((device_of d a)\<lparr>deployProfile := p\<rparr>)" by (simp add: device_ok_def)
  then have "list_all device_ok (devices ?b)"
    using k(4) assms(2) by (auto simp: list_all_iff dest: subsetD [OF set_update_subset_insert])
  then show ?thesis
    by (intro acc_okI) (use k same ids in \<open>auto\<close>)
qed

lemma did_valid: "validMessage pl i = Some m \<Longrightarrow> did_of m = i \<and> pl = Some m \<and> validMessage (Some m) i = Some m"
  by (cases pl rule: objectRecord.cases) (auto simp: validMessage_def did_of_def split: option.splits if_splits)

lemma deploy_valid:
  assumes "validDeployMessage pl i = Some m"
  shows "did_of m = i" "pl = Some m" "validDeployMessage (Some m) (did_of m) = Some m"
proof -
  have "validMessage pl i = Some m"
    using assms by (auto simp: validDeployMessage_def split: option.splits if_splits)
  note v = did_valid [OF this]
  show "did_of m = i" "pl = Some m" using v by auto
  then show "validDeployMessage (Some m) (did_of m) = Some m" using assms by simp
qed

lemma ok_keep_deploy:
  assumes "acc_ok a" "validDeployMessage x j = Some m"
  shows "acc_ok (keep_deploy m c a)"
proof -
  define b where "b = a\<lparr>deployMsg := (deployMsg a)(c \<mapsto> m)\<rparr>"
  have b: "acc_ok b" unfolding b_def using deploy_valid(3) [OF assms(2)] by (intro ok_deployMsg assms) auto
  show ?thesis
    unfolding keep_deploy_def Let_def b_def [symmetric]
    using acc_okD(1) [OF b, of c] ok_profile [OF b] b by (cases "deviceObj b c") simp_all
qed

lemma ok_undeploy: "acc_ok a \<Longrightarrow> acc_ok (undeploy c a)"
  unfolding undeploy_def Let_def by (rule ok_deployMsg [OF ok_disconnected]) simp_all

lemma ok_publish: "acc_ok a \<Longrightarrow> acc_ok (emit_flow (Publish t v) a)"
  by (rule ok_emit) simp_all

lemma ok_provisioning:
  assumes "acc_ok a"
  shows "acc_ok (provisioning w pl i c a)"
proof -
  have keep: "acc_ok (emit_flow (Publish t v) (keep_deploy m c a))" if "validDeployMessage x j = Some m" for t v m x j
    using ok_keep_deploy [OF assms that] by (rule ok_publish)
  show ?thesis
    unfolding provisioning_def using assms ok_undeploy [OF assms] keep
    by (simp split: option.split del: emit_flow_fields)
qed

lemma bounded_kind:
  assumes "validDeployMessage (Some m) i = Some m"
  shows "boundedText (field ''kind'' m)"
    "boundedText (field_of ''modelName'' (field_of ''appInfo'' (field ''data'' m)))"
    "k \<in> {''softVer'', ''DeviceType''} \<Longrightarrow> field_of k (field_of ''appInfo'' (field ''data'' m)) = None \<or>
       boundedOptionalText (field_of k (field_of ''appInfo'' (field ''data'' m)))"
proof -
  have rec: "objectRecord v = Some x \<Longrightarrow> v = Some x" for v x by (cases v rule: objectRecord.cases) auto
  from assms have kd: "boundedText (field ''kind'' m)"
    by (auto simp: validDeployMessage_def split: option.splits if_splits)
  from assms obtain info where info: "objectRecord (field_of ''appInfo'' (objectRecord (field ''data'' m))) = Some info"
    and nm: "boundedText (field ''modelName'' info)" and opt: "list_all (optional_field_ok info) [''softVer'', ''DeviceType'']"
    by (auto simp: validDeployMessage_def split: option.splits if_splits)
  obtain x where x: "objectRecord (field ''data'' m) = Some x" "field ''appInfo'' x = Some info"
    using info by (cases "objectRecord (field ''data'' m)") (auto simp: field_of_def dest: rec)
  have "field_of ''appInfo'' (field ''data'' m) = Some info" using rec [OF x(1)] x(2) by (simp add: field_of_def)
  then show "boundedText (field ''kind'' m)"
    "boundedText (field_of ''modelName'' (field_of ''appInfo'' (field ''data'' m)))"
    "k \<in> {''softVer'', ''DeviceType''} \<Longrightarrow> field_of k (field_of ''appInfo'' (field ''data'' m)) = None \<or>
       boundedOptionalText (field_of k (field_of ''appInfo'' (field ''data'' m)))"
    using kd nm opt by (auto simp: field_of_def optional_field_ok_def)
qed

text \<open>Registering a client for an identifier nobody holds.\<close>

lemma ok_register:
  assumes "acc_ok a" "clientsById a i = None" "deviceObj a c = None" "isSafeDeviceId i"
    "validDeployMessage (Some m) (did_of m) = Some m"
  shows "acc_ok (register w i m c a)"
proof -
  let ?b = "register w i m c a" and ?d = "length (devices a)"
  note k = acc_okD [OF assms(1)]
  define dev where "dev = device_for w i m c"
  have dev: "dv_id dev = i" "device_ok dev"
    using assms(4) bounded_kind(1,2) [OF assms(5)] bounded_kind(3) [OF assms(5), of "''softVer''"]
      bounded_kind(3) [OF assms(5), of "''DeviceType''"]
    by (simp_all add: dev_def device_for_def device_ok_def meta_ok_def meta_of_def Let_def)
  have b: "?b = emit_flow (NewDevice ?d) (a\<lparr>clientsById := (clientsById a)(i \<mapsto> c), devices := devices a @ [dev], deviceObj := (deviceObj a)(c \<mapsto> ?d)\<rparr>)"
    by (simp add: register_def dev_def Let_def)
  have at: "device_of e ?b = (if e = ?d then dev else device_of e a)" if "e \<le> ?d" for e
    using that by (auto simp: b device_of_def nth_append)
  have db: "deviceObj ?b = (deviceObj a)(c \<mapsto> ?d)" "clientsById ?b = (clientsById a)(i \<mapsto> c)" by (simp_all add: b)
  have ne: "dv_id (device_of e a) \<noteq> i" if "deviceObj a x = Some e" for e x using k(2) [OF that] assms(2) by auto
  have op: "open_devices ?b = (open_devices a)(i \<mapsto> ?d)"
  proof
    fix j
    show "open_devices ?b j = ((open_devices a)(i \<mapsto> ?d)) j"
      using k(3) [of j] assms(3) by (cases "clientsById a j") (auto simp: b open_devices_def map_comp_def)
  qed
  show ?thesis
  proof (rule acc_okI)
    show "e < length (devices ?b)" if "deviceObj ?b x = Some e" for x e
      using that k(1) [of x e] by (auto simp: b split: if_splits)
    show "clientsById ?b (dv_id (device_of e ?b)) = Some x" if "deviceObj ?b x = Some e" for x e
    proof (cases "x = c")
      case True
      then have "e = ?d" using that by (simp add: db)
      then show ?thesis unfolding True using at [of ?d] dev(1) by (simp add: db)
    next
      case False
      then have x: "deviceObj a x = Some e" using that by (simp add: b)
      show ?thesis using k(1,2) [OF x] ne [OF x] at [of e] by (simp add: b)
    qed
    show "\<exists>e. deviceObj ?b x = Some e \<and> dv_id (device_of e ?b) = j" if "clientsById ?b j = Some x" for j x
    proof (cases "j = i")
      case True
      then have xc: "x = c" using that by (simp add: db)
      show ?thesis unfolding xc True using at [of ?d] dev(1) by (simp add: db)
    next
      case False
      then have "clientsById a j = Some x" using that by (simp add: db)
      from k(3) [OF this] obtain e where e: "deviceObj a x = Some e" "dv_id (device_of e a) = j" by blast
      then show ?thesis using at [of e] k(1) [OF e(1)] assms(3) by (intro exI [of _ e]) (auto simp: db)
    qed
    have "reg_run (ids_of a @ [i]) Map.empty (reg_events (flow a)) = Some (open_devices a)"
      using k(6) by (rule reg_run_more)
    moreover have "open_devices a i = None" using assms(2) by (simp add: open_devices_def map_comp_def)
    moreover have "ids_of ?b = ids_of a @ [i]" by (simp add: b ids_of_def dev(1))
    moreover have "flow ?b = flow a @ [NewDevice ?d]" by (simp add: b)
    moreover have "length (ids_of a) = ?d" by (simp add: ids_of_def)
    ultimately show "reg_run (ids_of ?b) Map.empty (reg_events (flow ?b)) = Some (open_devices ?b)"
      by (simp add: op reg_run_append nth_append)
  qed (use k dev(2) in \<open>auto simp: b\<close>)
qed


text \<open>
  A handler that registers nobody: it keeps the registry, and at most the client's own device goes.
\<close>

definition tame :: "nat \<Rightarrow> acceptor \<Rightarrow> acceptor \<Rightarrow> bool" where
  "tame c a b \<longleftrightarrow> acc_ok b \<and> ids_of b = ids_of a \<and> gone b = gone a \<and>
    (deviceObj b = deviceObj a \<or> deviceObj b = (deviceObj a)(c := None))"

lemma tame_refl: "acc_ok a \<Longrightarrow> tame c a a"
  by (simp add: tame_def)

lemma tame_emit: "tame c a b \<Longrightarrow> acc_ok (emit_flow e b) \<Longrightarrow> tame c a (emit_flow e b)"
  by (simp add: tame_def)

lemma tame_keep_deploy:
  assumes "acc_ok a" "validDeployMessage x j = Some m"
  shows "tame c a (keep_deploy m c a)"
proof (cases "deviceObj a c")
  case None
  then show ?thesis using ok_keep_deploy [OF assms, of c] by (simp add: tame_def keep_deploy_def)
next
  case (Some d)
  then have "d < length (devices a)" using acc_okD(1) [OF assms(1)] by blast
  then show ?thesis using ok_keep_deploy [OF assms, of c] Some
    by (simp add: tame_def keep_deploy_def ids_of_def map_update device_of_def list_update_same_conv)
qed

lemma tame_undeploy: "acc_ok a \<Longrightarrow> tame c a (undeploy c a)"
  using ok_undeploy [of a c] disconnected_fields [of a c] by (simp add: tame_def undeploy_def Let_def) (simp add: ids_of_def)

lemma tame_provisioning:
  assumes "acc_ok a"
  shows "tame c a (provisioning w pl i c a)"
proof -
  have keep: "tame c a (emit_flow (Publish t v) (keep_deploy m c a))" if "validDeployMessage x j = Some m" for t v m x j
    using tame_emit [OF tame_keep_deploy [OF assms that] ok_publish [OF ok_keep_deploy [OF assms that]]] .
  show ?thesis
    unfolding provisioning_def using tame_refl [OF assms] tame_undeploy [OF assms] keep
    by (simp split: option.split del: emit_flow_fields)
qed

lemma ok_device_message: "acc_ok a \<Longrightarrow> deviceObj a c = Some d \<Longrightarrow> acc_ok (device_message m d a)"
  unfolding device_message_def using open_deviceI [of a c d]
  by (auto split: option.split json.split intro!: ok_emit)

lemma device_message_fields:
  "deviceObj (device_message m d a) = deviceObj a" "ids_of (device_message m d a) = ids_of a" "gone (device_message m d a) = gone a"
  by (simp_all add: device_message_def split: option.split json.split)

lemma tame_device:
  assumes "acc_ok a" "deviceObj a c = Some d"
  shows "tame c a (device_message m d a)" "tame c a (timeSyncRequest w c a)"
  using ok_device_message [OF assms] assms ok_publish [OF assms(1)]
  by (simp_all add: tame_def device_message_fields timeSyncRequest_def dev_send_def)

lemma complete_registered: "deviceObj a c \<noteq> None \<Longrightarrow> completeProvisioning kill w i pl c a = a"
  by (auto simp: completeProvisioning_def split: option.split)

lemma tame_mqtt:
  assumes "acc_ok a" "deviceObj a c \<noteq> None"
  shows "tame c a (mqtt kill w t pl c a)"
proof -
  obtain d where d: "deviceObj a c = Some d" using assms(2) by blast
  show ?thesis
    unfolding mqtt_def
    using tame_refl [OF assms(1)] tame_provisioning [OF assms(1)] tame_device [OF assms(1) d]
    by (simp add: complete_registered [OF assms(2)] d split: option.split topic_kind.split prod.split)
qed

lemma tame_on_publish:
  "acc_ok a \<Longrightarrow> deviceObj a c \<noteq> None \<Longrightarrow> tame c a (on_publish kill w t pl (Some c) a)"
  by (simp add: on_publish_def tame_mqtt tame_refl del: not_None_eq)

lemma on_publish_by:
  assumes "\<And>i p c. client = Some c \<Longrightarrow> completeProvisioning kill w i p c a = completeProvisioning kill' w i p c a"
  shows "on_publish kill w t pl client a = on_publish kill' w t pl client a"
proof (cases client)
  case None
  then show ?thesis by (simp add: on_publish_def)
next
  case (Some c)
  have eq: "completeProvisioning kill w i p c a = completeProvisioning kill' w i p c a" for i p using assms [OF Some] .
  show ?thesis unfolding on_publish_def mqtt_def Some option.case eq ..
qed

lemma on_publish_registered:
  "deviceObj a c \<noteq> None \<Longrightarrow> on_publish kill w t pl (Some c) a = on_publish kill' w t pl (Some c) a"
  by (rule on_publish_by) (simp add: complete_registered)

text \<open>What destroying the client of a device does; the fuel below the first level is not used.\<close>

definition removes :: "nat \<Rightarrow> acceptor \<Rightarrow> acceptor \<Rightarrow> bool" where
  "removes c a b \<longleftrightarrow> acc_ok b \<and> deviceObj b = (deviceObj a)(c := None) \<and> gone b = c # gone a \<and> ids_of b = ids_of a \<and>
    (\<forall>i. clientsById a i = Some c \<longrightarrow> clientsById b i = None)"

lemma tame_gone [simp]: "deviceObj (a\<lparr>gone := g\<rparr>) = deviceObj a" "ids_of (a\<lparr>gone := g\<rparr>) = ids_of a"
  "clientsById (a\<lparr>gone := g\<rparr>) = clientsById a"
  by (simp_all add: ids_of_def)

lemma device_id: "d < length (devices a) \<Longrightarrow> dv_id (device_of d a) = ids_of a ! d"
  by (simp add: ids_of_def device_of_def)

lemma removes_disconnected:
  assumes "acc_ok a" "deviceObj a c \<noteq> None" "tame c (a\<lparr>gone := c # gone a\<rparr>) b"
  shows "removes c a (disconnected c b)"
proof -
  let ?b = "disconnected c b"
  have ok: "acc_ok ?b" using assms(3) by (intro ok_disconnected) (simp add: tame_def)
  have b: "acc_ok b" using assms(3) by (simp add: tame_def)
  note f = disconnected_fields [OF b, of c]
  have obj: "deviceObj ?b = (deviceObj a)(c := None)" using assms(3) by (auto simp: f tame_def)
  have ids: "ids_of ?b = ids_of a" using assms(3) f(2) by (simp add: ids_of_def tame_def)
  have "clientsById ?b i = None" if i: "clientsById a i = Some c" for i
  proof (rule ccontr)
    assume "clientsById ?b i \<noteq> None"
    then obtain x where "clientsById ?b i = Some x" by blast
    from acc_okD(3) [OF ok this] obtain e where e: "deviceObj ?b x = Some e" "dv_id (device_of e ?b) = i" by blast
    then have ne: "x \<noteq> c" and xa: "deviceObj a x = Some e" by (auto simp: obj split: if_splits)
    have "dv_id (device_of e a) = i"
      using e acc_okD(1) [OF ok e(1)] acc_okD(1) [OF assms(1) xa] by (simp add: device_id ids)
    then show False using acc_okD(2) [OF assms(1) xa] i ne by simp
  qed
  moreover have "gone ?b = c # gone a" using assms(3) by (simp add: f tame_def)
  ultimately show ?thesis using ok obj ids by (simp add: removes_def)
qed

lemma destroy_owner:
  assumes "acc_ok a" "deviceObj a c \<noteq> None" "c \<notin> set (gone a)"
  shows "removes c a (destroy_client (Suc n) w c a)" "destroy_client (Suc n) w c a = destroy_client (Suc 0) w c a"
proof -
  let ?a = "a\<lparr>gone := c # gone a\<rparr>"
  have t: "tame c ?a (case client_will w c of None \<Rightarrow> ?a | Some (t, pl) \<Rightarrow> on_publish kill w t pl (Some c) ?a)" for kill
    using tame_on_publish [of ?a c] tame_refl [of ?a c] assms(1,2) by (simp split: option.split prod.split)
  then show "removes c a (destroy_client (Suc n) w c a)"
    using removes_disconnected [OF assms(1,2) t] assms(3) by (simp add: Let_def)
  have "on_publish (destroy_client n w) w t pl (Some c) ?a = on_publish (destroy_client 0 w) w t pl (Some c) ?a" for t pl
    by (rule on_publish_registered) (simp add: assms(2))
  then show "destroy_client (Suc n) w c a = destroy_client (Suc 0) w c a"
    using assms(3) by (simp add: Let_def split: option.split prod.split)
qed


text \<open>A handler of a client without a device may register one, in the place of another client's.\<close>

definition admits :: "nat \<Rightarrow> acceptor \<Rightarrow> acceptor \<Rightarrow> bool" where
  "admits c a b \<longleftrightarrow> acc_ok b \<and> (\<forall>x. x \<noteq> c \<longrightarrow> deviceObj b x = deviceObj a x \<or> deviceObj b x = None) \<and>
    (\<forall>x \<in> set (gone b). x \<in> set (gone a) \<or> x \<noteq> c \<and> deviceObj b x = None)"

lemma tame_admits: "tame c a b \<Longrightarrow> admits c a b"
  by (auto simp: tame_def admits_def)

lemma admits_refl: "acc_ok a \<Longrightarrow> admits c a a"
  by (simp add: admits_def)

lemma register_fields:
  "deviceObj (register w i m c a) = (deviceObj a)(c \<mapsto> length (devices a))" "gone (register w i m c a) = gone a"
  by (simp_all add: register_def Let_def)

definition evicts :: "(nat \<Rightarrow> acceptor \<Rightarrow> acceptor) \<Rightarrow> acceptor \<Rightarrow> bool" where
  "evicts kill a \<longleftrightarrow> (\<forall>i other. clientsById a i = Some other \<longrightarrow> removes other a (kill other a))"

lemma admits_complete:
  assumes "acc_ok a" "deviceObj a c = None" "evicts kill a"
  shows "admits c a (completeProvisioning kill w i pl c a)"
proof -
  have reg: "admits c a (register w i m c (case clientsById a i of Some other \<Rightarrow> kill other a | None \<Rightarrow> a))"
    if "isSafeDeviceId i" "deployMsg a c = Some m" for m
  proof (cases "clientsById a i")
    case None
    then show ?thesis
      using ok_register [OF assms(1) None assms(2) that(1) acc_okD(5) [OF assms(1) that(2)]]
      by (simp add: admits_def register_fields)
  next
    case (Some other)
    then have "removes other a (kill other a)" using assms(3) by (simp add: evicts_def)
    then have r: "acc_ok (kill other a)" "deviceObj (kill other a) = (deviceObj a)(other := None)"
      "gone (kill other a) = other # gone a" "clientsById (kill other a) i = None"
      using Some by (auto simp: removes_def)
    obtain d where d: "deviceObj a other = Some d" using acc_okD(3) [OF assms(1) Some] by blast
    then have "other \<noteq> c" using assms(2) by auto
    moreover have "deviceObj (kill other a) c = None" using assms(2) by (simp add: r(2))
    note ok_register [OF r(1,4) this that(1) acc_okD(5) [OF assms(1) that(2)]]
    ultimately show ?thesis
      by (simp add: Some admits_def register_fields r(2,3))
  qed
  then show ?thesis
    unfolding completeProvisioning_def using admits_refl [OF assms(1)] by (simp split: option.split)
qed

lemma admits_on_publish:
  assumes "acc_ok a" "evicts kill a"
  shows "admits c a (on_publish kill w t pl (Some c) a)"
proof (cases "deviceObj a c")
  case None
  note adm = admits_complete [OF assms(1) None assms(2)]
  show ?thesis
    unfolding on_publish_def mqtt_def
    using admits_refl [OF assms(1)] tame_admits [OF tame_provisioning [OF assms(1)]] adm None
    by (simp split: option.split topic_kind.split prod.split)
next
  case (Some d)
  then show ?thesis by (intro tame_admits tame_on_publish assms(1)) simp
qed

text \<open>The invariant between events: also, a client that is gone has no device.\<close>

definition acc_inv :: "acceptor \<Rightarrow> bool" where
  "acc_inv a \<longleftrightarrow> acc_ok a \<and> list_all (\<lambda>c. deviceObj a c = None) (gone a)"

lemma destroy_evicts:
  assumes "acc_ok a" "\<forall>x \<in> set (gone a). deviceObj a x = None"
  shows "evicts (destroy_client (Suc n) w) a"
  unfolding evicts_def
proof (intro allI impI)
  fix i other assume "clientsById a i = Some other"
  then have "deviceObj a other \<noteq> None" using acc_okD(3) [OF assms(1)] by fastforce
  then show "removes other a (destroy_client (Suc n) w other a)"
    using assms(2) by (intro destroy_owner(1) assms(1)) auto
qed

lemma inv_published:
  assumes "acc_inv a" "c \<notin> set (gone a)"
  shows "acc_inv (on_publish (destroy_client (Suc n) w) w t pl (Some c) a)"
proof -
  have a: "acc_ok a" "\<forall>x \<in> set (gone a). deviceObj a x = None" using assms(1) by (auto simp: acc_inv_def list_all_iff)
  have "admits c a (on_publish (destroy_client (Suc n) w) w t pl (Some c) a)"
    by (rule admits_on_publish [OF a(1) destroy_evicts [OF a]])
  then show ?thesis using a(2) assms(2) by (fastforce simp: acc_inv_def admits_def list_all_iff)
qed

lemma inv_destroyed:
  assumes "acc_inv a"
  shows "acc_inv (destroy_client (Suc (Suc n)) w c a)"
proof (cases "c \<in> set (gone a)")
  case True
  then show ?thesis using assms by simp
next
  case False
  have a: "acc_ok a" "\<forall>x \<in> set (gone a). deviceObj a x = None" using assms by (auto simp: acc_inv_def list_all_iff)
  show ?thesis
  proof (cases "deviceObj a c")
    case None
    let ?a = "a\<lparr>gone := c # gone a\<rparr>"
    define b where "b = (case client_will w c of None \<Rightarrow> ?a | Some (t, pl) \<Rightarrow> on_publish (destroy_client (Suc n) w) w t pl (Some c) ?a)"
    have ok: "acc_ok ?a" using a(1) by simp
    have un: "\<forall>x \<in> set (gone ?a). deviceObj ?a x = None" using a(2) None by auto
    have "admits c ?a b"
      unfolding b_def using admits_on_publish [OF ok destroy_evicts [OF ok un]] admits_refl [OF ok]
      by (simp split: option.split prod.split)
    then have b: "acc_ok b" "\<And>x. x \<in> set (gone b) \<Longrightarrow> x \<noteq> c \<Longrightarrow> deviceObj b x = None"
      using a(2) by (fastforce simp: admits_def)+
    have "destroy_client (Suc (Suc n)) w c a = disconnected c b" using False by (simp add: Let_def b_def)
    moreover have "acc_inv (disconnected c b)"
      using ok_disconnected [OF b(1)] b(2) by (auto simp: acc_inv_def disconnected_fields [OF b(1)] list_all_iff)
    ultimately show ?thesis by simp
  next
    case (Some d)
    then have "removes c a (destroy_client (Suc (Suc n)) w c a)" by (intro destroy_owner(1) a(1) False) simp
    then show ?thesis using a(2) by (auto simp: acc_inv_def removes_def list_all_iff)
  qed
qed

lemma ok_sends:
  assumes "acc_ok a" "d < length (devices a)"
  shows "acc_ok (send_packet w d buf a)" "acc_ok (forward_message d msg a)"
proof -
  have s: "acc_ok (emit_flow (SendData d b) a)" for b
    using assms by (intro ok_emit) (simp_all add: ids_of_def)
  show "acc_ok (send_packet w d buf a)" using ok_publish [OF s] by (simp add: send_packet_def dev_send_def)
  show "acc_ok (forward_message d msg a)"
    unfolding forward_message_def using ok_publish [OF s] ok_publish [OF assms(1)]
    by (simp split: option.split json.split)
qed

lemma sends_fields:
  "deviceObj (send_packet w d buf a) = deviceObj a" "gone (send_packet w d buf a) = gone a"
  "deviceObj (forward_message d msg a) = deviceObj a" "gone (forward_message d msg a) = gone a"
  by (simp_all add: send_packet_def dev_send_def forward_message_def split: option.split json.split)

lemma inv_step: "acc_inv a \<Longrightarrow> acc_inv (acc_step a e)"
proof (induction a e rule: acc_step.induct)
  case (1 a w t pl client)
  then show ?case using inv_published [of a _ 1] by (cases client) (auto simp: on_publish_def numeral_2_eq_2 image_iff)
next
  case (2 a w c)
  then show ?case using inv_destroyed [of a 0] by (simp add: numeral_2_eq_2 del: destroy_client.simps)
qed (use ok_sends in \<open>auto simp: acc_inv_def sends_fields\<close>)

lemma inv_run: "acc_inv (acc_run evs)"
proof -
  have "acc_inv (foldl acc_step a evs)" if "acc_inv a" for a
    using that by (induction evs arbitrary: a) (auto intro: inv_step)
  moreover have "acc_inv new_acceptor"
    by (simp add: acc_inv_def acc_ok_def new_acceptor_def ids_of_def open_devices_def map_comp_def)
  ultimately show ?thesis unfolding acc_run_def by blast
qed


interpretation acceptor: registry ids_of "\<lambda>a. reg_events (flow a)" open_devices acc_inv
  by unfold_locales (auto simp: acc_inv_def dest: acc_okD(6))

subsection \<open>Where reports come from\<close>

text \<open>The packets an event brings: the one published, and the wills of clients it destroys.\<close>

fun packet_of :: "acc_event \<Rightarrow> nat \<Rightarrow> string \<Rightarrow> bool" where
  "packet_of (Published w t pl client) c t' \<longleftrightarrow> client = Some c \<and> t = t' \<or> map_option fst (client_will w c) = Some t'"
| "packet_of (Destroyed w _) c t' \<longleftrightarrow> map_option fst (client_will w c) = Some t'"
| "packet_of _ _ _ \<longleftrightarrow> False"

definition sourced :: "(nat \<Rightarrow> string \<Rightarrow> bool) \<Rightarrow> acceptor \<Rightarrow> flow \<Rightarrow> bool" where
  "sourced src a e \<longleftrightarrow>
    (\<forall>d x y. e = Data d x \<or> e = BridgeMessage d y \<longrightarrow>
      (\<exists>c t. deviceObj a c = Some d \<and> src c t \<and> parseDeviceTopic t = Some (Message, dv_id (device_of d a))))"

definition adds :: "(flow \<Rightarrow> bool) \<Rightarrow> acceptor \<Rightarrow> acceptor \<Rightarrow> bool" where
  "adds P a b \<longleftrightarrow> (\<exists>fs. flow b = flow a @ fs \<and> list_all P fs)"

lemma adds_refl: "adds P a a"
  by (simp add: adds_def)

lemma adds_same: "flow b = flow a \<Longrightarrow> adds P a b"
  by (simp add: adds_def)

lemma adds_trans: "adds P a b \<Longrightarrow> adds P b c \<Longrightarrow> adds P a c"
  by (force simp: adds_def)

lemma adds_emit: "adds P a b \<Longrightarrow> P e \<Longrightarrow> adds P a (emit_flow e b)"
  by (force simp: adds_def)

lemma sourced_other [simp]:
  "sourced src a (Publish t v)" "sourced src a (DropDevice i)" "sourced src a (Close d)" "sourced src a (NewDevice d)"
  "sourced src a (SendData d b)"
  by (simp_all add: sourced_def)

lemma adds_disconnected: "adds (sourced src x) a b \<Longrightarrow> adds (sourced src x) a (disconnected c b)"
  unfolding disconnected_def Let_def
  by (cases "deviceObj b c") (auto simp: adds_def)

lemma adds_provisioning: "adds (sourced src x) a (provisioning w pl i c a)"
proof -
  have "adds (sourced src x) a (undeploy c a)"
    using adds_disconnected [OF adds_refl, of src x a c] by (simp add: undeploy_def Let_def adds_def)
  moreover have "adds (sourced src x) a (emit_flow (Publish t v) (keep_deploy m c a))" for t v m
    by (intro adds_emit adds_same) (simp_all add: keep_deploy_def Let_def split: option.split)
  ultimately show ?thesis
    unfolding provisioning_def by (simp add: adds_refl split: option.split del: emit_flow_fields)
qed

lemma adds_mqtt:
  assumes "src c t" "\<And>other. adds (sourced src x) a (kill other a)" "deviceObj x = deviceObj a" "\<And>d. device_of d x = device_of d a"
  shows "adds (sourced src x) a (on_publish kill w t pl (Some c) a)"
proof -
  have comp: "adds (sourced src x) a (completeProvisioning kill w j q c a)" for j q
  proof -
    have "adds (sourced src x) b (register w j m c b)" for b m
      unfolding register_def Let_def by (intro adds_emit adds_same) simp_all
    then have "adds (sourced src x) a (register w j m c (kill other a))" for m other using assms(2) adds_trans by blast
    then show ?thesis
      unfolding completeProvisioning_def register_def Let_def
      by (simp add: adds_refl adds_emit adds_same split: option.split)
  qed
  have msg: "adds (sourced src x) a (device_message m d a)"
    if "deviceObj a c = Some d" "parseDeviceTopic t = Some (Message, i)" "validMessage p i = Some m" "did_of m = dv_id (device_of d a)" for m d i p
  proof -
    have "sourced src x (BridgeMessage d y)" "sourced src x (Data d z)" for y z
      using that did_valid [OF that(3)] assms(1,3,4) by (auto simp: sourced_def)
    then show ?thesis unfolding device_message_def by (simp add: adds_emit adds_refl split: option.split json.split)
  qed
  have tim: "adds (sourced src x) a (timeSyncRequest w c a)"
    by (simp add: timeSyncRequest_def dev_send_def adds_emit adds_refl split: option.split)
  show ?thesis
    unfolding on_publish_def mqtt_def
    using adds_refl adds_provisioning comp msg tim
    by (simp split: option.split topic_kind.split prod.split)
qed

lemma adds_destroy:
  assumes "\<And>c t. map_option fst (client_will w c) = Some t \<Longrightarrow> src c t" "deviceObj x = deviceObj a" "\<And>d. device_of d x = device_of d a"
  shows "adds (sourced src x) a (destroy_client n w c a)"
  using assms(2,3)
proof (induction n arbitrary: c a)
  case 0
  then show ?case by (simp add: adds_refl)
next
  case (Suc n)
  let ?a = "a\<lparr>gone := c # gone a\<rparr>"
  have k: "adds (sourced src x) ?a (destroy_client n w other ?a)" for other
    using Suc.prems by (intro Suc.IH) (simp_all add: device_of_def)
  have "adds (sourced src x) ?a (on_publish (destroy_client n w) w t pl (Some c) ?a)" if "client_will w c = Some (t, pl)" for t pl
    using assms(1) [of c t] that k Suc.prems by (intro adds_mqtt) (simp_all add: device_of_def)
  then have "adds (sourced src x) ?a (disconnected c (case client_will w c of None \<Rightarrow> ?a | Some (t, pl) \<Rightarrow> on_publish (destroy_client n w) w t pl (Some c) ?a))"
    by (intro adds_disconnected) (simp add: adds_refl split: option.split prod.split)
  then have "adds (sourced src x) a (disconnected c (case client_will w c of None \<Rightarrow> ?a | Some (t, pl) \<Rightarrow> on_publish (destroy_client n w) w t pl (Some c) ?a))"
    by (simp add: adds_def)
  then show ?case by (simp add: adds_refl Let_def)
qed

subsection \<open>Properties\<close>

text \<open>
  C5. The acceptor implements the registry: in whatever order packets, wills and disconnections
  arrive, the sequence of events it emits is one the specification allows - an identifier never has
  two open devices, a device opens once, closes once and reports only while open - and leads to
  exactly the devices its index of clients holds; every device was announced once, in order.
\<close>

theorem acceptor_refines_registry:
  "reg_run (ids_of (acc_run evs)) Map.empty (reg_events (flow (acc_run evs))) = Some (open_devices (acc_run evs)) \<and>
   announced (flow (acc_run evs)) = [0..<length (devices (acc_run evs))]"
  using acceptor.keeps [OF inv_run, of evs] inv_run [of evs] acc_okD(7) [of "acc_run evs"] by (simp add: acc_inv_def)


text \<open>
  C36. Every device the acceptor ever made has a safe identifier, the downlink topic of that
  identifier, a model id and a model name that are non-blank texts of at most 128 characters, and a
  version and type that are absent, empty or such texts.
\<close>

theorem devices_well_formed: "list_all device_ok (devices (acc_run evs))"
  using inv_run [of evs] acc_okD(4) [of "acc_run evs"] by (simp add: acc_inv_def)


lemma on_publish_cong:
  assumes "\<And>i other. clientsById a i = Some other \<Longrightarrow> kill other a = kill' other a"
  shows "on_publish kill w t pl client a = on_publish kill' w t pl client a"
proof -
  have "(case clientsById a i of None \<Rightarrow> a | Some other \<Rightarrow> kill other a) = (case clientsById a i of None \<Rightarrow> a | Some other \<Rightarrow> kill' other a)" for i
    using assms by (simp split: option.split)
  then have "completeProvisioning kill w i p c a = completeProvisioning kill' w i p c a" for i p c
    unfolding completeProvisioning_def by presburger
  then show ?thesis by (rule on_publish_by)
qed

text \<open>
  C40. Destroying clients ends: a will can lead to the destruction of one more client, whose own will
  leads to none, so with more than two levels of fuel every step does what it does with two.
\<close>

theorem destroy_fuel:
  "destroy_client (2 + n) w c (acc_run evs) = destroy_client 2 w c (acc_run evs) \<and>
   on_publish (destroy_client (2 + n) w) w t pl client (acc_run evs) = on_publish (destroy_client 2 w) w t pl client (acc_run evs)"
proof -
  let ?a = "acc_run evs"
  have a: "acc_ok ?a" "\<forall>x \<in> set (gone ?a). deviceObj ?a x = None"
    using inv_run [of evs] by (auto simp: acc_inv_def list_all_iff)
  have owner: "destroy_client (Suc k) w x b = destroy_client (Suc 0) w x b"
    if "acc_ok b" "\<forall>x \<in> set (gone b). deviceObj b x = None" "clientsById b i = Some x" for k x b i
  proof -
    have "deviceObj b x \<noteq> None" using acc_okD(3) [OF that(1,3)] by auto
    then show ?thesis using that(2) by (intro destroy_owner(2) that(1)) auto
  qed
  have "destroy_client (Suc (Suc n)) w c ?a = destroy_client (Suc (Suc 0)) w c ?a"
  proof (cases "deviceObj ?a c")
    case (Some d)
    show ?thesis
    proof (cases "c \<in> set (gone ?a)")
      case False
      then show ?thesis using destroy_owner(2) [OF a(1), of c "Suc _" w] Some by simp
    qed simp
  next
    case None
    let ?b = "?a\<lparr>gone := c # gone ?a\<rparr>"
    have b: "acc_ok ?b" "\<forall>x \<in> set (gone ?b). deviceObj ?b x = None" using a None by auto
    have "on_publish (destroy_client (Suc n) w) w t pl (Some c) ?b = on_publish (destroy_client (Suc 0) w) w t pl (Some c) ?b" for t pl
      by (rule on_publish_cong) (rule owner [OF b])
    then show ?thesis
      by (simp only: destroy_client.simps(2) [of "Suc _"] Let_def)
  qed
  moreover have "on_publish (destroy_client (Suc (Suc n)) w) w t pl client ?a = on_publish (destroy_client (Suc (Suc 0)) w) w t pl client ?a"
    by (rule on_publish_cong) (metis owner [OF a])
  ultimately show ?thesis by (simp add: numeral_2_eq_2 del: destroy_client.simps)
qed

text \<open>
  Provisioning works: from every reachable state, a live connection that is bound to nothing and
  sends a valid announcement for an identifier and then the acknowledgement holds that identifier's
  new device, made from what it announced, whoever held it before; the announcement is answered on
  the appliance's own downlink, and the new device is the last thing announced.
\<close>

theorem provisioning_registers:
  assumes "c \<notin> set (gone (acc_run evs))" "deviceObj (acc_run evs) c = None" "deployMsg (acc_run evs) c = None"
    "last_occurrence ''clip/'' t1 \<noteq> None" "parseDeviceTopic t1 = Some (Provisioning, i)"
    "validDeployMessage (parseDevicePayload (parse_json w) p1) i = Some m"
    "last_occurrence ''clip/'' t2 \<noteq> None" "parseDeviceTopic t2 = Some (Message, i)"
    "validMessage (parseDevicePayload (parse_json w) p2) i = Some ack" "field ''cmd'' ack = Some (JStr ''completeProvisioning_ack'')"
  shows "let a = acc_run (evs @ [Published w t1 p1 (Some c)]); b = acc_run (evs @ [Published w t1 p1 (Some c), Published w t2 p2 (Some c)])
    in last (flow a) = Publish (''lime/devices/'' @ i) (generateDeployResponse w m) \<and>
       clientsById b i = Some c \<and> deviceObj b c = Some (length (devices a)) \<and>
       device_of (length (devices a)) b = device_for w i m c \<and> length (devices b) = Suc (length (devices a)) \<and> last (flow b) = NewDevice (length (devices a))"
proof -
  let ?s = "acc_run evs"
  note dv = deploy_valid [OF assms(6)]
  define a where "a = acc_step ?s (Published w t1 p1 (Some c))"
  have vm: "validMessage (Some m) i = Some m" "field ''cmd'' m \<noteq> Some (JStr ''undeploy'')"
    "validDeployMessage (Some m) i = Some m"
    using assms(6) dv(2) by (auto simp: validDeployMessage_def split: option.splits if_splits)
  have a: "a = emit_flow (Publish (''lime/devices/'' @ i) (generateDeployResponse w m)) (?s\<lparr>deployMsg := (deployMsg ?s)(c \<mapsto> m)\<rparr>)"
    using assms(1-5) vm dv(1,2)
    by (simp add: a_def image_iff on_publish_def mqtt_def provisioning_def keep_deploy_def Let_def)
  have inv: "acc_inv a" unfolding a_def by (intro inv_step inv_run)
  have ok: "acc_ok a" "\<forall>x \<in> set (gone a). deviceObj a x = None" using inv by (auto simp: acc_inv_def list_all_iff)
  have live: "c \<notin> set (gone a)" "deviceObj a c = None" "deployMsg a c = Some m" using assms(1,2) by (simp_all add: a)
  note ad = did_valid [OF assms(9)]
  have safe: "isSafeDeviceId i" using assms(8) parseDeviceTopic_safe by blast
  define k where "k = (case clientsById a i of Some other \<Rightarrow> destroy_client 2 w other a | None \<Rightarrow> a)"
  define b where "b = acc_step a (Published w t2 p2 (Some c))"
  have b: "b = register w i m c k"
    using live assms(7-10) ad dv(1) safe
    by (simp add: b_def k_def image_iff on_publish_def mqtt_def completeProvisioning_def field_of_def)
  have "ids_of k = ids_of a"
    unfolding k_def using destroy_evicts [OF ok, of 1 w] by (auto simp: evicts_def removes_def numeral_2_eq_2 split: option.split)
  from map_eq_imp_length_eq [OF this [unfolded ids_of_def]] have len: "length (devices k) = length (devices a)" .
  have "acc_run (evs @ [Published w t1 p1 (Some c)]) = a"
    "acc_run (evs @ [Published w t1 p1 (Some c), Published w t2 p2 (Some c)]) = b"
    by (simp_all add: acc_run_def a_def b_def)
  then show ?thesis
    unfolding Let_def b by (simp add: len register_def Let_def device_of_def nth_append) (simp add: a)
qed


definition demo_deploy :: json where
  "demo_deploy = JObj [(''did'', JStr ''a1''), (''cmd'', JStr ''deploy''), (''kind'', JStr ''RAC''),
    (''data'', JObj [(''appInfo'', JObj [(''modelName'', JStr ''R'')])])]"

definition demo_ack :: json where
  "demo_ack = JObj [(''did'', JStr ''a1''), (''cmd'', JStr ''completeProvisioning_ack'')]"

definition demo_world :: world where
  "demo_world = \<lparr>parse_json = (\<lambda>t. if t = ''D'' then Some demo_deploy else Some demo_ack), now_ms = 0, utc_year = 2025,
    utc_rest = [0, 1, 0, 0, 0, 3], client_source = (\<lambda>_. None), client_remote = (\<lambda>_. Some ''10.0.0.7''), client_will = (\<lambda>_. None)\<rparr>"

lemma provisioning_registers_witness:
  "let a = acc_run ([] @ [Published demo_world ''clip/provisioning/devices/a1'' ''D'' (Some 4)]);
       b = acc_run ([] @ [Published demo_world ''clip/provisioning/devices/a1'' ''D'' (Some 4),
                          Published demo_world ''clip/message/devices/a1'' ''A'' (Some 4)])
   in last (flow a) = Publish (''lime/devices/'' @ ''a1'') (generateDeployResponse demo_world demo_deploy) \<and>
      clientsById b ''a1'' = Some 4 \<and> deviceObj b 4 = Some (length (devices a)) \<and>
      device_of (length (devices a)) b = device_for demo_world ''a1'' demo_deploy 4 \<and> length (devices b) = Suc (length (devices a)) \<and>
      last (flow b) = NewDevice (length (devices a))"
proof (rule provisioning_registers [where ack = demo_ack])
  show "4 \<notin> set (gone (acc_run []))" "deviceObj (acc_run []) 4 = None" "deployMsg (acc_run []) 4 = None"
    by (simp_all add: acc_run_def new_acceptor_def)
  show "last_occurrence ''clip/'' ''clip/provisioning/devices/a1'' \<noteq> None"
    "parseDeviceTopic ''clip/provisioning/devices/a1'' = Some (Provisioning, ''a1'')"
    "last_occurrence ''clip/'' ''clip/message/devices/a1'' \<noteq> None"
    "parseDeviceTopic ''clip/message/devices/a1'' = Some (Message, ''a1'')"
    by code_simp+
  have pay: "parseDevicePayload (parse_json demo_world) ''D'' = Some demo_deploy"
    "parseDevicePayload (parse_json demo_world) ''A'' = Some demo_ack"
    by (simp_all add: parseDevicePayload_def demo_world_def demo_deploy_def demo_ack_def ends_with_def)
  show "validDeployMessage (parseDevicePayload (parse_json demo_world) ''D'') ''a1'' = Some demo_deploy"
    unfolding pay by (simp add: validDeployMessage_def validMessage_def demo_deploy_def field_of_def optional_field_ok_def
        MAX_PROVISIONING_TEXT_LENGTH_def trim_def is_space_def)
  show "validMessage (parseDevicePayload (parse_json demo_world) ''A'') ''a1'' = Some demo_ack"
    "field ''cmd'' demo_ack = Some (JStr ''completeProvisioning_ack'')"
    unfolding pay by (simp_all add: validMessage_def demo_ack_def)
qed

end
