(* ===== verification/DeviceManager.thy ===== *)
theory DeviceManager
  imports Thinq2Device
begin

text \<open>
  The list of connected appliances: \<open>cloud/devmgr.ts\<close>. The manager hears of a device object when an
  acceptor hands it over (\<open>Open\<close>) and when it closes (\<open>Shut\<close>); what a device is used for passes it
  by. \<open>ids\<close> are the identifiers of the objects.
\<close>

datatype mgr_output = NewDeviceOut nat | DropDeviceOut string

record manager =
  allDevices :: "string \<rightharpoonup> nat"
  mgr_out :: "mgr_output list"

definition new_manager :: manager where
  "new_manager = \<lparr>allDevices = Map.empty, mgr_out = []\<rparr>"

definition mgr_accept :: "string list \<Rightarrow> nat \<Rightarrow> manager \<Rightarrow> manager" where
  "mgr_accept ids d m = m\<lparr>allDevices := (allDevices m)(ids ! d \<mapsto> d), mgr_out := mgr_out m @ [NewDeviceOut d]\<rparr>"

definition mgr_close :: "string list \<Rightarrow> nat \<Rightarrow> manager \<Rightarrow> manager" where
  "mgr_close ids d m =
    (if allDevices m (ids ! d) = Some d
     then m\<lparr>allDevices := (allDevices m)(ids ! d := None), mgr_out := mgr_out m @ [DropDeviceOut (ids ! d)]\<rparr>
     else m)"

fun mgr_step :: "string list \<Rightarrow> manager \<Rightarrow> reg_event \<Rightarrow> manager" where
  "mgr_step ids m (Open d) = mgr_accept ids d m"
| "mgr_step ids m (Use d) = m"
| "mgr_step ids m (Shut d) = mgr_close ids d m"

definition mgr_run :: "string list \<Rightarrow> reg_event list \<Rightarrow> manager" where
  "mgr_run ids es = foldl (mgr_step ids) new_manager es"

lemma mgr_run_snoc: "mgr_run ids (es @ [e]) = mgr_step ids (mgr_run ids es) e"
  by (simp add: mgr_run_def)

lemma mgr_run_Nil [simp]: "allDevices (mgr_run ids []) = Map.empty"
  by (simp add: mgr_run_def new_manager_def)

lemma manager_own: "allDevices (mgr_run ids es) i = Some d \<Longrightarrow> ids ! d = i"
proof (induction es arbitrary: i d rule: rev_induct)
  case Nil
  then show ?case by simp
next
  case (snoc e es)
  have "allDevices (mgr_run ids es) i = Some d \<or> ids ! d = i"
    using snoc.prems by (cases e) (auto simp: mgr_run_snoc mgr_accept_def mgr_close_def split: if_splits)
  then show ?case using snoc.IH by blast
qed

definition not_opened :: "string list \<Rightarrow> string \<Rightarrow> reg_event \<Rightarrow> bool" where
  "not_opened ids i e \<longleftrightarrow> (case e of Open x \<Rightarrow> ids ! x \<noteq> i | _ \<Rightarrow> True)"

text \<open>
  Whatever the acceptors do, and however their devices share identifiers, the manager lists under
  an identifier the object handed over last, as long as that object has not closed: a late close of
  an object that was replaced removes nothing.
\<close>

theorem manager_lists_latest:
  "allDevices (mgr_run ids es) i = Some d \<longleftrightarrow>
    (\<exists>before after. es = before @ Open d # after \<and> ids ! d = i \<and> Shut d \<notin> set after \<and> list_all (not_opened ids i) after)"
proof (induction es rule: rev_induct)
  case Nil
  then show ?case by simp
next
  case (snoc e es)
  let ?P = "\<lambda>es before after. es = before @ Open d # after \<and> ids ! d = i \<and> Shut d \<notin> set after \<and> list_all (not_opened ids i) after"
  have step: "(\<exists>before after. ?P (es @ [e]) before after) \<longleftrightarrow>
    e = Open d \<and> ids ! d = i \<or> (\<exists>before after. ?P es before after) \<and> e \<noteq> Shut d \<and> not_opened ids i e"
  proof
    assume "\<exists>before after. ?P (es @ [e]) before after"
    then obtain xs ys where p: "?P (es @ [e]) xs ys" by blast
    show "e = Open d \<and> ids ! d = i \<or> (\<exists>before after. ?P es before after) \<and> e \<noteq> Shut d \<and> not_opened ids i e"
    proof (cases ys rule: rev_cases)
      case Nil
      then show ?thesis using p by simp
    next
      case (snoc zs z)
      then have "es = xs @ Open d # zs" "z = e" using p by auto
      then show ?thesis using p snoc by auto
    qed
  next
    assume "e = Open d \<and> ids ! d = i \<or> (\<exists>before after. ?P es before after) \<and> e \<noteq> Shut d \<and> not_opened ids i e"
    then show "\<exists>before after. ?P (es @ [e]) before after"
    proof
      assume "e = Open d \<and> ids ! d = i"
      then show ?thesis by (intro exI [of _ es] exI [of _ "[]"]) simp
    next
      assume r: "(\<exists>before after. ?P es before after) \<and> e \<noteq> Shut d \<and> not_opened ids i e"
      then obtain xs ys where p: "?P es xs ys" by blast
      have "?P (es @ [e]) xs (ys @ [e])" using p conjunct2 [OF r] by auto
      then show ?thesis by blast
    qed
  qed
  show ?case
    unfolding step snoc.IH [symmetric] mgr_run_snoc
    using manager_own [of ids es i d] by (cases e) (auto simp: mgr_accept_def mgr_close_def not_opened_def)
qed

text \<open>Fed by a source that keeps the contract, the manager is its registry.\<close>

lemma manager_follows:
  "reg_run ids Map.empty es = Some m \<Longrightarrow> allDevices (mgr_run ids es) = m"
proof (induction es arbitrary: m rule: rev_induct)
  case Nil
  then show ?case by simp
next
  case (snoc e es)
  then obtain n where n: "reg_run ids Map.empty es = Some n" "reg_step ids n e = Some m"
    by (auto simp: reg_run_append split: option.splits)
  from snoc.IH [OF n(1)] n(2) show ?case
    by (cases e) (auto simp: mgr_run_snoc mgr_accept_def mgr_close_def is_open_def split: if_splits)
qed

text \<open>
  C13. The acceptor and the manager agree: after any traffic the manager lists exactly the devices the
  acceptor's clients hold, under the same identifiers.
\<close>

theorem manager_agrees_with_acceptor:
  "allDevices (mgr_run (ids_of (acc_run evs)) (reg_events (flow (acc_run evs)))) = open_devices (acc_run evs)"
  by (rule manager_follows [OF acceptor.keeps [OF inv_run]])

end
