(* ===== verification/Thinq1Device.thy ===== *)
theory Thinq1Device
  imports Framing DeviceManager
begin

text \<open>
  ThinQ 1 appliances: the connection of \<open>cloud/thinq1/connection.ts\<close>, a length-prefixed stream of
  JSON requests, and \<open>Device\<close> and \<open>DeviceAcceptor\<close> of \<open>cloud/thinq1/device.ts\<close>. Connections and
  devices are numbered in the order of their making; what the objects emit, and what is written
  to the sockets, is in the log. Destroying a socket takes effect at once, its \<open>close\<close> event
  comes later; after \<open>destroy\<close> a socket delivers no data and no end.

  \<open>JSON.parse\<close> of a payload's text, the base64 decoder and the metadata the HTTP endpoint has stored
  are in the environment of an event, and so is which listeners throw.
\<close>

datatype t1_error = BadJson | InvalidRequest | InvalidHeader | InvalidId | Thrown

datatype t1_out =
    NewDevice1 nat
  | DropDevice1 string
  | Report nat buffer
  | Response nat json
  | Closed1 nat
  | SendData1 nat json
  | Ack nat json
  | Sent nat json
  | ConnFailed nat

record t1_env =
  parse_request :: "buffer \<Rightarrow> json option"
  unbase64 :: "string \<Rightarrow> buffer"
  known_meta :: "string \<Rightarrow> metadata option"
  listener_throws :: "t1_out \<Rightarrow> bool"

record t1_conn =
  c_id :: "string option"
  c_failed :: bool
  c_split :: splitter
  c_destroyed :: bool
  c_closed :: bool
  c_timer :: bool
  c_dev :: "nat option"
  c_deviceObj :: "nat option"

record t1_device =
  td_con :: nat
  td_id :: string
  td_meta :: metadata
  lastReport :: "buffer option"

record t1_state =
  conns :: "t1_conn list"
  connectionsById :: "string \<rightharpoonup> nat"
  t1_devices :: "t1_device list"
  t1_log :: "t1_out list"

definition new_t1 :: t1_state where
  "new_t1 = \<lparr>conns = [], connectionsById = Map.empty, t1_devices = [], t1_log = []\<rparr>"

definition set_conn :: "nat \<Rightarrow> (t1_conn \<Rightarrow> t1_conn) \<Rightarrow> t1_state \<Rightarrow> t1_state" where
  "set_conn c f s = s\<lparr>conns := (conns s)[c := f (conns s ! c)]\<rparr>"

definition say :: "t1_out \<Rightarrow> t1_state \<Rightarrow> t1_state" where
  "say x s = s\<lparr>t1_log := t1_log s @ [x]\<rparr>"

definition emit1 :: "t1_env \<Rightarrow> t1_out \<Rightarrow> t1_state \<Rightarrow> t1_state \<times> t1_error option" where
  "emit1 env x s = (say x s, if listener_throws env x then Some Thrown else None)"

definition attempt :: "t1_state \<times> t1_error option \<Rightarrow> (t1_state \<Rightarrow> t1_state \<times> t1_error option) \<Rightarrow> t1_state \<times> t1_error option" where
  "attempt r f = (case r of (s, Some e) \<Rightarrow> (s, Some e) | (s, None) \<Rightarrow> f s)"


subsection \<open>The connection\<close>

definition destroy1 :: "nat \<Rightarrow> t1_state \<Rightarrow> t1_state" where
  "destroy1 c s = set_conn c (\<lambda>x. x\<lparr>c_destroyed := True\<rparr>) s"

definition conn_fail :: "nat \<Rightarrow> t1_state \<Rightarrow> t1_state" where
  "conn_fail c s =
    (if c_failed (conns s ! c) then s
     else destroy1 c (say (ConnFailed c) (set_conn c (\<lambda>x. x\<lparr>c_failed := True\<rparr>) s)))"

definition request_id :: "json option \<Rightarrow> t1_error + string" where
  "request_id r =
    (case r of
       None \<Rightarrow> Inl BadJson
     | Some (JObj kvs) \<Rightarrow>
         (case map_of kvs ''Header'' of
            Some (JObj h) \<Rightarrow>
              (case map_of h ''x-lgedm-deviceId'' of
                 Some (JStr i) \<Rightarrow> if i = [] then Inl InvalidId else Inr i
               | _ \<Rightarrow> Inl InvalidId)
          | _ \<Rightarrow> Inl InvalidHeader)
     | Some _ \<Rightarrow> Inl InvalidRequest)"

text \<open>\<open>request?.Body?.k\<close>.\<close>

definition body_field :: "string \<Rightarrow> json \<Rightarrow> json option" where
  "body_field k r = (case field ''Body'' r of None \<Rightarrow> None | Some b \<Rightarrow> field k b)"

definition status_data :: "t1_env \<Rightarrow> json \<Rightarrow> buffer option" where
  "status_data env r =
    (case (body_field ''Format'' r, body_field ''Data'' r) of
       (Some (JStr f), Some (JStr d)) \<Rightarrow> if f = ''B64'' then Some (unbase64 env d) else None
     | _ \<Rightarrow> None)"

text \<open>What \<open>JSON.stringify\<close> is given: a \<open>CmdWId\<close> that is undefined is left out.\<close>

definition ack :: "string \<Rightarrow> json \<Rightarrow> json" where
  "ack i r =
    JObj [(''Header'', JObj [(''x-lgedm-deviceId'', JStr i)]),
          (''Body'', JObj ((case body_field ''CmdWId'' r of None \<Rightarrow> [] | Some v \<Rightarrow> [(''CmdWId'', v)]) @ [(''ReturnCode'', JStr ''0000'')]))]"


subsection \<open>The acceptor's listeners\<close>

definition make_device :: "nat \<Rightarrow> string \<Rightarrow> metadata \<Rightarrow> t1_state \<Rightarrow> t1_state" where
  "make_device c i m s =
    (let d = length (t1_devices s)
     in set_conn c (\<lambda>x. x\<lparr>c_dev := Some d, c_deviceObj := Some d\<rparr>)
          (s\<lparr>t1_devices := t1_devices s @ [\<lparr>td_con = c, td_id = i, td_meta = m, lastReport = None\<rparr>]\<rparr>))"

definition on_init :: "t1_env \<Rightarrow> nat \<Rightarrow> string \<Rightarrow> t1_state \<Rightarrow> t1_state \<times> t1_error option" where
  "on_init env c i s =
    (if \<not> isSafeDeviceId i then (destroy1 c s, None)
     else (case known_meta env i of
         None \<Rightarrow> (destroy1 c s, None)
       | Some m \<Rightarrow>
           let s = (case connectionsById s i of None \<Rightarrow> s | Some existing \<Rightarrow> destroy1 existing s);
               s = s\<lparr>connectionsById := (connectionsById s)(i \<mapsto> c)\<rparr>;
               d = length (t1_devices s)
           in emit1 env (NewDevice1 d) (make_device c i m s)))"

definition on_status :: "t1_env \<Rightarrow> nat \<Rightarrow> buffer \<Rightarrow> t1_state \<Rightarrow> t1_state \<times> t1_error option" where
  "on_status env c b s =
    (case c_dev (conns s ! c) of
       None \<Rightarrow> (s, None)
     | Some d \<Rightarrow> emit1 env (Report d b) (s\<lparr>t1_devices := (t1_devices s)[d := (t1_devices s ! d)\<lparr>lastReport := Some b\<rparr>]\<rparr>))"

definition on_response :: "t1_env \<Rightarrow> nat \<Rightarrow> json \<Rightarrow> t1_state \<Rightarrow> t1_state \<times> t1_error option" where
  "on_response env c b s = (case c_dev (conns s ! c) of None \<Rightarrow> (s, None) | Some d \<Rightarrow> emit1 env (Response d b) s)"

definition on_close :: "nat \<Rightarrow> t1_state \<Rightarrow> t1_state" where
  "on_close c s =
    (let s = set_conn c (\<lambda>x. x\<lparr>c_closed := True, c_destroyed := True, c_timer := False\<rparr>) s
     in case c_dev (conns s ! c) of
          None \<Rightarrow> s
        | Some d \<Rightarrow>
            let i = td_id (t1_devices s ! d);
                s = (if connectionsById s i = Some c
                     then say (DropDevice1 i) (s\<lparr>connectionsById := (connectionsById s)(i := None)\<rparr>) else s)
            in if c_deviceObj (conns s ! c) = Some d
               then set_conn c (\<lambda>x. x\<lparr>c_deviceObj := None\<rparr>) (say (Closed1 d) s) else s)"


subsection \<open>The frames\<close>

definition handle_request :: "t1_env \<Rightarrow> nat \<Rightarrow> json option \<Rightarrow> t1_state \<Rightarrow> t1_state \<times> t1_error option" where
  "handle_request env c request s =
    (case request_id request of
       Inl e \<Rightarrow> (s, Some e)
     | Inr i \<Rightarrow>
         let r = the request
         in attempt (if c_id (conns s ! c) = None then on_init env c i (set_conn c (\<lambda>x. x\<lparr>c_id := Some i\<rparr>) s) else (s, None))
           (\<lambda>s. attempt (case status_data env r of None \<Rightarrow> (s, None) | Some b \<Rightarrow> on_status env c b s)
             (\<lambda>s. if body_field ''ReturnCode'' r \<noteq> None then on_response env c (the (field ''Body'' r)) s
                  else (say (Ack c (ack i r)) s, None))))"

definition on_payload :: "t1_env \<Rightarrow> nat \<Rightarrow> t1_state \<Rightarrow> buffer \<Rightarrow> t1_state \<times> t1_error option" where
  "on_payload env c s p =
    (case handle_request env c (parse_request env p) (set_conn c (\<lambda>x. x\<lparr>c_timer := True\<rparr>) s) of
       (s, None) \<Rightarrow> (s, None)
     | (s, Some e) \<Rightarrow> (conn_fail c s, Some e))"

text \<open>The default \<open>maxPayloadLength\<close>.\<close>

definition MAX_PAYLOAD :: int where "MAX_PAYLOAD = 65536"

definition on_data :: "t1_env \<Rightarrow> nat \<Rightarrow> buffer \<Rightarrow> t1_state \<Rightarrow> t1_state" where
  "on_data env c buf s =
    (case split (on_payload env c) MAX_PAYLOAD (c_split (conns s ! c), s) buf of
       ((sp, s), e) \<Rightarrow>
         let s = set_conn c (\<lambda>x. x\<lparr>c_split := sp\<rparr>) s
         in if e = None then s else conn_fail c s)"

definition on_end :: "nat \<Rightarrow> t1_state \<Rightarrow> t1_state" where
  "on_end c s =
    (case split_end (c_split (conns s ! c)) :: splitter \<times> t1_error frame_error option of
       (sp, e) \<Rightarrow>
         let s = set_conn c (\<lambda>x. x\<lparr>c_split := sp\<rparr>) s
         in if e = None then s else conn_fail c s)"

text \<open>\<open>Device.send\<close>: the body with a fresh \<open>CmdWId\<close>.\<close>

definition dev_send1 :: "nat \<Rightarrow> (string \<times> json) list \<Rightarrow> string \<Rightarrow> t1_state \<Rightarrow> t1_state" where
  "dev_send1 d body uuid s =
    (let dev = t1_devices s ! d in
     say (Sent (td_con dev)
       (JObj [(''Header'', JObj [(''x-lgedm-deviceId'', JStr (td_id dev))]),
              (''Body'', JObj (AList.update ''CmdWId'' (JStr (''n-'' @ uuid)) body))]))
       (say (SendData1 d (JObj body)) s))"


subsection \<open>Runs\<close>

datatype t1_event =
    Accept
  | SockData t1_env nat buffer
  | SockEnd nat
  | SockError nat
  | SockClose nat
  | IdleTimeout nat
  | SendTo nat "(string \<times> json) list" string

definition accept1 :: "t1_state \<Rightarrow> t1_state" where
  "accept1 s = s\<lparr>conns := conns s @ [\<lparr>c_id = None, c_failed = False, c_split = init_splitter, c_destroyed = False, c_closed = False,
     c_timer = True, c_dev = None, c_deviceObj = None\<rparr>]\<rparr>"

definition live :: "nat \<Rightarrow> t1_state \<Rightarrow> bool" where
  "live c s \<longleftrightarrow> c < length (conns s) \<and> \<not> c_closed (conns s ! c)"

definition flowing :: "nat \<Rightarrow> t1_state \<Rightarrow> bool" where
  "flowing c s \<longleftrightarrow> live c s \<and> \<not> c_destroyed (conns s ! c)"

fun t1_step :: "t1_state \<Rightarrow> t1_event \<Rightarrow> t1_state" where
  "t1_step s Accept = accept1 s"
| "t1_step s (SockData env c buf) = (if flowing c s then on_data env c buf s else s)"
| "t1_step s (SockEnd c) = (if flowing c s then on_end c s else s)"
| "t1_step s (SockError c) = (if live c s then conn_fail c s else s)"
| "t1_step s (SockClose c) = (if live c s then on_close c s else s)"
| "t1_step s (IdleTimeout c) =
    (if live c s \<and> c_timer (conns s ! c) then destroy1 c (set_conn c (\<lambda>x. x\<lparr>c_timer := False\<rparr>) s) else s)"
| "t1_step s (SendTo d body uuid) = (if d < length (t1_devices s) then dev_send1 d body uuid s else s)"

definition t1_run :: "t1_event list \<Rightarrow> t1_state" where
  "t1_run es = foldl t1_step new_t1 es"


end
