(* ===== verification/Thinq1Safety.thy ===== *)
theory Thinq1Safety
  imports Thinq1Device
begin

text \<open>
  The invariant of the ThinQ 1 acceptor and what follows from it: the device manager lists exactly
  the indexed connections, reports come from the connection that owns the device, a connection that
  failed is silent, and requests are acknowledged in order.
\<close>

subsection \<open>What the operations leave alone\<close>

lemma set_conn_fields [simp]:
  "length (conns (set_conn c f s)) = length (conns s)" "connectionsById (set_conn c f s) = connectionsById s"
  "t1_devices (set_conn c f s) = t1_devices s" "t1_log (set_conn c f s) = t1_log s"
  by (simp_all add: set_conn_def)

lemma conn_set: "k < length (conns s) \<Longrightarrow> conns (set_conn c f s) ! k = (if k = c then f (conns s ! k) else conns s ! k)"
  by (simp add: set_conn_def nth_list_update)

lemma say_fields [simp]:
  "conns (say x s) = conns s" "connectionsById (say x s) = connectionsById s" "t1_devices (say x s) = t1_devices s"
  "t1_log (say x s) = t1_log s @ [x]"
  by (simp_all add: say_def)

definition ids1 :: "t1_state \<Rightarrow> string list" where
  "ids1 s = map td_id (t1_devices s)"

lemma length_ids1 [simp]: "length (ids1 s) = length (t1_devices s)"
  by (simp add: ids1_def)

text \<open>What the manager hears of the log.\<close>

fun reg1 :: "t1_out \<Rightarrow> reg_event list" where
  "reg1 (NewDevice1 d) = [Open d]"
| "reg1 (Report d _) = [Use d]"
| "reg1 (Response d _) = [Use d]"
| "reg1 (Closed1 d) = [Shut d]"
| "reg1 _ = []"

definition reg1_events :: "t1_out list \<Rightarrow> reg_event list" where
  "reg1_events xs = concat (map reg1 xs)"

lemma reg1_events_simps [simp]: "reg1_events [] = []" "reg1_events (xs @ ys) = reg1_events xs @ reg1_events ys"
  "reg1_events (x # xs) = reg1 x @ reg1_events xs"
  by (simp_all add: reg1_events_def)

text \<open>The device an output names.\<close>

fun device_in :: "t1_out \<Rightarrow> nat option" where
  "device_in (NewDevice1 d) = Some d"
| "device_in (Report d _) = Some d"
| "device_in (Response d _) = Some d"
| "device_in (Closed1 d) = Some d"
| "device_in (SendData1 d _) = Some d"
| "device_in _ = None"

definition mentions :: "nat \<Rightarrow> t1_out \<Rightarrow> bool" where
  "mentions n x \<longleftrightarrow> (case device_in x of None \<Rightarrow> True | Some d \<Rightarrow> d < n)"

definition listed :: "t1_state \<Rightarrow> string \<Rightarrow> nat option" where
  "listed s i = (case connectionsById s i of None \<Rightarrow> None | Some c \<Rightarrow> c_dev (conns s ! c))"

definition managed :: "t1_state \<Rightarrow> string \<Rightarrow> nat option" where
  "managed s = allDevices (mgr_run (ids1 s) (reg1_events (t1_log s)))"

lemma mgr_run_ids:
  "list_all (\<lambda>e. case e of Open d \<Rightarrow> d < length ids | Shut d \<Rightarrow> d < length ids | Use d \<Rightarrow> True) es \<Longrightarrow>
    mgr_run (ids @ js) es = mgr_run ids es"
  by (induction es rule: rev_induct) (auto simp: mgr_run_snoc mgr_accept_def mgr_close_def nth_append mgr_run_def split: reg_event.splits)

lemma reg1_in_range: "list_all (mentions n) xs \<Longrightarrow>
    list_all (\<lambda>e. case e of Open d \<Rightarrow> d < n | Shut d \<Rightarrow> d < n | Use d \<Rightarrow> True) (reg1_events xs)"
proof (induction xs)
  case (Cons x xs)
  then show ?case by (cases x) (auto simp: mentions_def)
qed simp


subsection \<open>The invariant\<close>

definition conn_ok :: "t1_state \<Rightarrow> nat \<Rightarrow> bool" where
  "conn_ok s c \<longleftrightarrow>
    (\<forall>d. c_dev (conns s ! c) = Some d \<longrightarrow> d < length (t1_devices s) \<and> td_con (t1_devices s ! d) = c \<and>
      c_id (conns s ! c) = Some (td_id (t1_devices s ! d)) \<and> isSafeDeviceId (td_id (t1_devices s ! d))) \<and>
    c_deviceObj (conns s ! c) = (if c_closed (conns s ! c) then None else c_dev (conns s ! c)) \<and>
    (c_failed (conns s ! c) \<longrightarrow> c_destroyed (conns s ! c)) \<and> (c_closed (conns s ! c) \<longrightarrow> c_destroyed (conns s ! c)) \<and>
    (c_failed (conns s ! c) \<longleftrightarrow> ConnFailed c \<in> set (t1_log s))"

definition t1_ok :: "t1_state \<Rightarrow> bool" where
  "t1_ok s \<longleftrightarrow>
    (\<forall>c < length (conns s). conn_ok s c) \<and>
    (\<forall>d < length (t1_devices s). td_con (t1_devices s ! d) < length (conns s) \<and> c_dev (conns s ! td_con (t1_devices s ! d)) = Some d) \<and>
    (\<forall>i c. connectionsById s i = Some c \<longrightarrow> c < length (conns s) \<and> \<not> c_closed (conns s ! c) \<and>
      (\<exists>d. c_dev (conns s ! c) = Some d \<and> td_id (t1_devices s ! d) = i)) \<and>
    (\<forall>c. ConnFailed c \<in> set (t1_log s) \<longrightarrow> c < length (conns s)) \<and>
    list_all (mentions (length (t1_devices s))) (t1_log s) \<and>
    managed s = listed s"

lemma t1_okD:
  assumes "t1_ok s"
  shows "c < length (conns s) \<Longrightarrow> conn_ok s c"
    "d < length (t1_devices s) \<Longrightarrow> td_con (t1_devices s ! d) < length (conns s) \<and> c_dev (conns s ! td_con (t1_devices s ! d)) = Some d"
    "connectionsById s i = Some c \<Longrightarrow> c < length (conns s) \<and> \<not> c_closed (conns s ! c) \<and>
      (\<exists>d. c_dev (conns s ! c) = Some d \<and> td_id (t1_devices s ! d) = i)"
    "ConnFailed c \<in> set (t1_log s) \<Longrightarrow> c < length (conns s)"
    "list_all (mentions (length (t1_devices s))) (t1_log s)" "managed s = listed s"
  using assms unfolding t1_ok_def by blast+

lemma ok_new: "t1_ok new_t1"
  by (auto simp: t1_ok_def new_t1_def listed_def managed_def fun_eq_iff)

text \<open>A change of a connection that touches neither its device nor its failure.\<close>

definition inert :: "(t1_conn \<Rightarrow> t1_conn) \<Rightarrow> t1_conn \<Rightarrow> bool" where
  "inert f x \<longleftrightarrow> c_dev (f x) = c_dev x \<and> c_deviceObj (f x) = c_deviceObj x \<and> c_closed (f x) = c_closed x \<and>
    c_failed (f x) = c_failed x \<and> (c_destroyed x \<longrightarrow> c_destroyed (f x)) \<and> (c_dev x \<noteq> None \<longrightarrow> c_id (f x) = c_id x)"

lemma ok_set_conn:
  assumes "t1_ok s" "inert f (conns s ! c)"
  shows "t1_ok (set_conn c f s)"
proof -
  have dev: "k < length (conns s) \<Longrightarrow> c_dev (conns (set_conn c f s) ! k) = c_dev (conns s ! k) \<and>
      c_closed (conns (set_conn c f s) ! k) = c_closed (conns s ! k)" for k
    using assms(2) by (simp add: conn_set inert_def)
  have "conn_ok (set_conn c f s) k" if "k < length (conns s)" for k
    using t1_okD(1) [OF assms(1) that] assms(2) that by (auto simp: conn_ok_def conn_set inert_def)
  moreover have "listed (set_conn c f s) = listed s"
    using t1_okD(3) [OF assms(1)] dev by (fastforce simp: listed_def fun_eq_iff split: option.split)
  moreover have "managed (set_conn c f s) = managed s" by (simp add: managed_def ids1_def)
  ultimately show ?thesis
    using t1_okD(2-6) [OF assms(1)] dev unfolding t1_ok_def by simp
qed

text \<open>An output that opens and shuts nothing.\<close>

lemma ok_say:
  assumes "t1_ok s" "mentions (length (t1_devices s)) x" "reg1 x = [] \<or> (\<exists>d. reg1 x = [Use d])" "\<And>c. x \<noteq> ConnFailed c"
  shows "t1_ok (say x s)"
proof -
  have "managed (say x s) = managed s" using assms(3) by (auto simp: managed_def ids1_def mgr_run_snoc)
  moreover have "listed (say x s) = listed s" by (rule ext) (simp add: listed_def split: option.split)
  moreover have "ConnFailed c \<noteq> x" for c using assms(4) by metis
  ultimately show ?thesis
    using assms(1,2) unfolding t1_ok_def conn_ok_def by simp
qed

lemma ok_conn_fail:
  assumes "t1_ok s" "c < length (conns s)"
  shows "t1_ok (conn_fail c s)"
proof (cases "c_failed (conns s ! c)")
  case True
  then show ?thesis using assms(1) by (simp add: conn_fail_def)
next
  case False
  let ?t = "conn_fail c s"
  have c: "conns ?t ! k = (if k = c then (conns s ! k)\<lparr>c_failed := True, c_destroyed := True\<rparr> else conns s ! k)"
    if "k < length (conns s)" for k
    using that False by (simp add: conn_fail_def destroy1_def conn_set)
  have f: "length (conns ?t) = length (conns s)" "t1_devices ?t = t1_devices s" "connectionsById ?t = connectionsById s"
    "t1_log ?t = t1_log s @ [ConnFailed c]"
    using False by (simp_all add: conn_fail_def destroy1_def)
  have "conn_ok ?t k" if "k < length (conns s)" for k
    using t1_okD(1) [OF assms(1) that] that by (auto simp: conn_ok_def c f)
  moreover have "listed ?t = listed s"
    using t1_okD(3) [OF assms(1)] by (fastforce simp: listed_def fun_eq_iff c f split: option.split)
  moreover have "managed ?t = managed s" by (simp add: managed_def ids1_def f)
  ultimately show ?thesis
    using t1_okD(2-6) [OF assms(1)] assms(2) unfolding t1_ok_def by (auto simp: c f mentions_def)
qed

subsection \<open>Opening and closing a device\<close>

lemma managed_snoc:
  "managed (say x s) = allDevices (foldl (mgr_step (ids1 s)) (mgr_run (ids1 s) (reg1_events (t1_log s))) (reg1 x))"
  by (simp add: managed_def ids1_def mgr_run_def)

lemma ok_open:
  assumes ok: "t1_ok s" and c: "c < length (conns s)" "\<not> c_closed (conns s ! c)" "c_id (conns s ! c) = Some i" "c_dev (conns s ! c) = None"
    and i: "isSafeDeviceId i"
  shows "t1_ok (say (NewDevice1 (length (t1_devices s))) (make_device c i m (s\<lparr>connectionsById := (connectionsById s)(i \<mapsto> c)\<rparr>)))"
    (is "t1_ok ?t")
proof -
  let ?d = "length (t1_devices s)"
  define t where "t = ?t"
  have con: "conns t ! k = (if k = c then (conns s ! k)\<lparr>c_dev := Some ?d, c_deviceObj := Some ?d\<rparr> else conns s ! k)"
    if "k < length (conns s)" for k
    using that by (simp add: t_def make_device_def Let_def conn_set)
  have f: "length (conns t) = length (conns s)" "connectionsById t = (connectionsById s)(i \<mapsto> c)"
    "t1_devices t = t1_devices s @ [\<lparr>td_con = c, td_id = i, td_meta = m, lastReport = None\<rparr>]"
    "t1_log t = t1_log s @ [NewDevice1 ?d]"
    by (simp_all add: t_def make_device_def Let_def)
  have conn: "conn_ok t k" if "k < length (conns s)" for k
    using t1_okD(1) [OF ok that] that c i by (auto simp: conn_ok_def con f nth_append)
  have dev: "td_con (t1_devices t ! d) < length (conns s) \<and> c_dev (conns t ! td_con (t1_devices t ! d)) = Some d"
    if "d < Suc ?d" for d
    using t1_okD(2) [OF ok, of d] that c by (cases "d = ?d") (auto simp: con f nth_append)
  have idx: "k < length (conns s) \<and> \<not> c_closed (conns t ! k) \<and> (\<exists>d. c_dev (conns t ! k) = Some d \<and> td_id (t1_devices t ! d) = j)"
    if "connectionsById t j = Some k" for j k
  proof (cases "j = i")
    case True
    then show ?thesis using that c by (simp add: f con)
  next
    case False
    then have "connectionsById s j = Some k" using that by (simp add: f)
    from t1_okD(3) [OF ok this] obtain d where k: "k < length (conns s)" "\<not> c_closed (conns s ! k)" "c_dev (conns s ! k) = Some d"
      "td_id (t1_devices s ! d) = j" by blast
    then have "d < ?d" "k \<noteq> c" using t1_okD(1) [OF ok k(1)] c(4) by (auto simp: conn_ok_def)
    then show ?thesis using k by (simp add: con f nth_append)
  qed
  have lst: "listed t = (listed s)(i \<mapsto> ?d)"
  proof (rule ext)
    fix j
    show "listed t j = ((listed s)(i \<mapsto> ?d)) j"
    proof (cases "j = i \<or> connectionsById s j = None")
      case True
      then show ?thesis using c by (auto simp: listed_def f con)
    next
      case False
      then obtain k where k: "connectionsById s j = Some k" by blast
      then have "k < length (conns s)" "k \<noteq> c" using t1_okD(3) [OF ok k] c(4) by auto
      then show ?thesis using False k by (simp add: listed_def f con)
    qed
  qed
  have "list_all (\<lambda>e. case e of Open d \<Rightarrow> d < length (ids1 s) | Shut d \<Rightarrow> d < length (ids1 s) | Use d \<Rightarrow> True) (reg1_events (t1_log s))"
    using reg1_in_range [OF t1_okD(5) [OF ok]] unfolding length_ids1 .
  from mgr_run_ids [OF this] have man: "managed t = (managed s)(i \<mapsto> ?d)"
    by (simp add: managed_def ids1_def f mgr_run_snoc mgr_accept_def nth_append)
  have "list_all (mentions (Suc ?d)) (t1_log t)"
    using t1_okD(5) [OF ok] by (auto simp: f mentions_def list_all_iff split: option.splits)
  then show ?thesis
    using conn dev idx t1_okD(4) [OF ok] t1_okD(6) [OF ok] unfolding t_def [symmetric] t1_ok_def lst man by (auto simp: f)
qed

lemma ok_on_close:
  assumes ok: "t1_ok s" and c: "c < length (conns s)" "\<not> c_closed (conns s ! c)"
  shows "t1_ok (on_close c s)"
proof (cases "c_dev (conns s ! c)")
  case None
  define t where "t = set_conn c (\<lambda>x. x\<lparr>c_closed := True, c_destroyed := True, c_timer := False\<rparr>) s"
  have con: "conns t ! k = (if k = c then (conns s ! k)\<lparr>c_closed := True, c_destroyed := True, c_timer := False\<rparr> else conns s ! k)"
    if "k < length (conns s)" for k using that by (simp add: t_def conn_set)
  have f: "length (conns t) = length (conns s)" "t1_devices t = t1_devices s" "connectionsById t = connectionsById s" "t1_log t = t1_log s"
    by (simp_all add: t_def)
  have no: "connectionsById s j \<noteq> Some c" for j using t1_okD(3) [OF ok, of j c] None by auto
  have t: "on_close c s = t" using None c by (simp add: on_close_def Let_def conn_set t_def)
  have "conn_ok t k" if "k < length (conns s)" for k
    using t1_okD(1) [OF ok that] that None by (auto simp: conn_ok_def con f)
  moreover have "listed t = listed s"
    using no t1_okD(3) [OF ok] by (auto simp: listed_def fun_eq_iff con f split: option.split)
  moreover have "managed t = managed s" by (simp add: managed_def ids1_def f)
  moreover have "\<not> c_closed (conns t ! k) \<and> (\<exists>d. c_dev (conns s ! k) = Some d \<and> td_id (t1_devices s ! d) = j) \<and> k < length (conns s)"
    if "connectionsById s j = Some k" for j k
    using t1_okD(3) [OF ok that] no [of j] that by (cases "k = c") (auto simp: con)
  moreover have "c_dev (conns t ! k) = c_dev (conns s ! k)" if "k < length (conns s)" for k using that by (simp add: con)
  ultimately show ?thesis using t1_okD(2,4,5,6) [OF ok] unfolding t t1_ok_def by (auto simp: f)
next
  case (Some d)
  define i where "i = td_id (t1_devices s ! d)"
  have d: "d < length (t1_devices s)" "td_con (t1_devices s ! d) = c" using t1_okD(1) [OF ok c(1)] Some by (auto simp: conn_ok_def)
  have obj: "c_deviceObj (conns s ! c) = Some d" using t1_okD(1) [OF ok c(1)] Some c(2) by (simp add: conn_ok_def)
  let ?own = "connectionsById s i = Some c"
  let ?t = "on_close c s"
  have con: "conns ?t ! k = (if k = c then (conns s ! k)\<lparr>c_closed := True, c_destroyed := True, c_timer := False, c_deviceObj := None\<rparr> else conns s ! k)"
    if "k < length (conns s)" for k
    using that Some obj c by (simp add: on_close_def Let_def conn_set i_def [symmetric])
  have f: "length (conns ?t) = length (conns s)" "t1_devices ?t = t1_devices s"
    "connectionsById ?t = (if ?own then (connectionsById s)(i := None) else connectionsById s)"
    "t1_log ?t = t1_log s @ (if ?own then [DropDevice1 i] else []) @ [Closed1 d]"
    using Some obj c by (simp_all add: on_close_def Let_def conn_set i_def [symmetric])
  have conn: "conn_ok ?t k" if "k < length (conns s)" for k
    using t1_okD(1) [OF ok that] that by (auto simp: conn_ok_def con f)
  have other: "connectionsById ?t j = Some k \<Longrightarrow> connectionsById s j = Some k \<and> k \<noteq> c" for j k
    using t1_okD(3) [OF ok, of j k] Some by (auto simp: f i_def split: if_splits)
  have lst: "listed ?t = (if ?own then (listed s)(i := None) else listed s)"
  proof (rule ext)
    fix j
    have eq: "connectionsById ?t j = (if ?own \<and> j = i then None else connectionsById s j)" by (simp add: f)
    show "listed ?t j = (if ?own then (listed s)(i := None) else listed s) j"
    proof (cases "connectionsById ?t j")
      case None
      then show ?thesis using eq by (auto simp: listed_def split: if_splits)
    next
      case (Some k)
      note o = other [OF Some]
      then have "k < length (conns s)" using t1_okD(3) [OF ok] by blast
      then have "c_dev (conns ?t ! k) = c_dev (conns s ! k)" by (simp add: con)
      moreover have "\<not> (?own \<and> j = i)" using o by auto
      ultimately show ?thesis using Some o by (simp add: listed_def)
    qed
  qed
  have "listed s i = Some d \<longleftrightarrow> ?own"
    using t1_okD(1,3) [OF ok] Some d(2) by (fastforce simp: listed_def conn_ok_def split: option.splits)
  then have man: "managed ?t = (if ?own then (managed s)(i := None) else managed s)"
    using t1_okD(6) [OF ok] d
    by (auto simp: managed_def ids1_def f mgr_run_snoc mgr_close_def i_def)
  have "list_all (mentions (length (t1_devices s))) (t1_log ?t)" using t1_okD(5) [OF ok] d(1) by (simp add: f mentions_def)
  moreover have "k < length (conns s) \<and> \<not> c_closed (conns ?t ! k) \<and> (\<exists>e. c_dev (conns s ! k) = Some e \<and> td_id (t1_devices s ! e) = j)"
    if "connectionsById ?t j = Some k" for j k
    using other [OF that] t1_okD(3) [OF ok, of j k] by (auto simp: con)
  moreover have "c_dev (conns ?t ! k) = c_dev (conns s ! k)" if "k < length (conns s)" for k using that by (simp add: con)
  moreover have "ConnFailed k \<in> set (t1_log ?t) \<longleftrightarrow> ConnFailed k \<in> set (t1_log s)" for k by (simp add: f)
  ultimately show ?thesis
    using conn t1_okD(2,4,6) [OF ok] unfolding t1_ok_def lst man by (auto simp: f(1,2))
qed

subsection \<open>The handlers\<close>

text \<open>The log of an operation, and the devices it leaves as they are known.\<close>

definition logs :: "(t1_out \<Rightarrow> t1_state \<Rightarrow> bool) \<Rightarrow> t1_state \<Rightarrow> t1_state \<Rightarrow> bool" where
  "logs P s t \<longleftrightarrow> length (conns t) = length (conns s) \<and> (\<exists>ds. map td_con (t1_devices t) = map td_con (t1_devices s) @ ds) \<and>
    (\<exists>xs. t1_log t = t1_log s @ xs \<and> (\<forall>x \<in> set xs. P x t))"

definition stable :: "(t1_out \<Rightarrow> t1_state \<Rightarrow> bool) \<Rightarrow> bool" where
  "stable P \<longleftrightarrow> (\<forall>x s t ds. map td_con (t1_devices t) = map td_con (t1_devices s) @ ds \<longrightarrow> P x s \<longrightarrow> P x t)"

lemma logs_refl: "logs P s s"
  by (simp add: logs_def)

lemma logs_trans: "stable P \<Longrightarrow> logs P a b \<Longrightarrow> logs P b c \<Longrightarrow> logs P a c"
proof -
  assume st: "stable P" and ab: "logs P a b" and bc: "logs P b c"
  from ab obtain ds xs where a: "map td_con (t1_devices b) = map td_con (t1_devices a) @ ds"
    "t1_log b = t1_log a @ xs" "\<forall>x \<in> set xs. P x b" "length (conns b) = length (conns a)" unfolding logs_def by blast
  from bc obtain es ys where b: "map td_con (t1_devices c) = map td_con (t1_devices b) @ es"
    "t1_log c = t1_log b @ ys" "\<forall>x \<in> set ys. P x c" "length (conns c) = length (conns b)" unfolding logs_def by blast
  have "\<forall>x \<in> set xs. P x c" using st a(3) b(1) unfolding stable_def by blast
  with a b have "t1_log c = t1_log a @ (xs @ ys) \<and> (\<forall>x \<in> set (xs @ ys). P x c)"
    "map td_con (t1_devices c) = map td_con (t1_devices a) @ (ds @ es)" "length (conns c) = length (conns a)" by auto
  then show "logs P a c" unfolding logs_def by blast
qed

lemma logs_set_conn: "logs P s (set_conn c f s)"
  by (simp add: logs_def)

lemma logs_say: "P x (say x s) \<Longrightarrow> logs P s (say x s)"
  by (simp add: logs_def)

text \<open>A connection in the middle of a read: it may have been destroyed, but neither closed nor failed.\<close>

definition reading :: "nat \<Rightarrow> t1_state \<Rightarrow> bool" where
  "reading c s \<longleftrightarrow> t1_ok s \<and> c < length (conns s) \<and> \<not> c_closed (conns s ! c) \<and> \<not> c_failed (conns s ! c)"

text \<open>Where an output comes from.\<close>

definition owner :: "t1_state \<Rightarrow> nat \<Rightarrow> nat option" where
  "owner s d = (if d < length (t1_devices s) then Some (td_con (t1_devices s ! d)) else None)"

fun from_frame :: "t1_env \<Rightarrow> (buffer \<Rightarrow> bool) \<Rightarrow> nat \<Rightarrow> t1_out \<Rightarrow> t1_state \<Rightarrow> bool" where
  "from_frame env Q c (Report d b) s \<longleftrightarrow> owner s d = Some c \<and>
     (\<exists>p r. Q p \<and> parse_request env p = Some r \<and> status_data env r = Some b)"
| "from_frame env Q c (Response d b) s \<longleftrightarrow> owner s d = Some c \<and>
     (\<exists>p r. Q p \<and> parse_request env p = Some r \<and> field ''Body'' r = Some b \<and> body_field ''ReturnCode'' r \<noteq> None)"
| "from_frame env Q c (Ack k j) s \<longleftrightarrow> k = c \<and>
     (\<exists>p i r. Q p \<and> parse_request env p = Some r \<and> request_id (Some r) = Inr i \<and> j = ack i r)"
| "from_frame env Q c (NewDevice1 d) s \<longleftrightarrow> owner s d = Some c"
| "from_frame env Q c _ s \<longleftrightarrow> False"

lemma stable_from_frame: "stable (from_frame env Q c)"
proof -
  have own: "owner t d = owner s d" if "map td_con (t1_devices t) = map td_con (t1_devices s) @ ds" "owner s d = Some c" for s t ds d
  proof -
    have d: "d < length (t1_devices s)" using that(2) by (simp add: owner_def split: if_splits)
    have "length (t1_devices t) = length (t1_devices s) + length ds" using arg_cong [OF that(1), of length] by simp
    moreover have "map td_con (t1_devices t) ! d = map td_con (t1_devices s) ! d" using d by (simp add: that(1) nth_append)
    ultimately show ?thesis using d by (simp add: owner_def)
  qed
  have "from_frame env Q c x t" if "map td_con (t1_devices t) = map td_con (t1_devices s) @ ds" "from_frame env Q c x s" for x s t ds
    using that(2) own [OF that(1)] by (cases x) auto
  then show ?thesis by (auto simp: stable_def)
qed

lemma reading_set: "reading c s \<Longrightarrow> inert f (conns s ! k) \<Longrightarrow> reading c (set_conn k f s)"
  by (auto simp: reading_def ok_set_conn conn_set inert_def)

lemma reading_say:
  "reading c s \<Longrightarrow> mentions (length (t1_devices s)) x \<Longrightarrow> reg1 x = [] \<or> (\<exists>d. reg1 x = [Use d]) \<Longrightarrow> (\<And>c. x \<noteq> ConnFailed c) \<Longrightarrow>
    reading c (say x s)"
  by (simp add: reading_def ok_say)

lemma inert_destroy [simp]: "inert (\<lambda>x. x\<lparr>c_destroyed := True\<rparr>) x" "inert (\<lambda>x. x\<lparr>c_timer := b\<rparr>) x" "inert (\<lambda>x. x\<lparr>c_split := sp\<rparr>) x"
  by (simp_all add: inert_def)

lemma ok_same_devices:
  assumes "t1_ok s" "length ds = length (t1_devices s)" "\<And>d. td_con (ds ! d) = td_con (t1_devices s ! d)"
    "\<And>d. td_id (ds ! d) = td_id (t1_devices s ! d)"
  shows "t1_ok (s\<lparr>t1_devices := ds\<rparr>)"
proof -
  have "map td_id ds = map td_id (t1_devices s)" using assms(2,4) by (simp add: list_eq_iff_nth_eq)
  then have "managed (s\<lparr>t1_devices := ds\<rparr>) = managed s" by (simp add: managed_def ids1_def)
  moreover have "listed (s\<lparr>t1_devices := ds\<rparr>) = listed s" by (rule ext) (simp add: listed_def split: option.split)
  ultimately show ?thesis using assms(1) unfolding t1_ok_def conn_ok_def by (simp add: assms(2-4))
qed

definition goes :: "t1_env \<Rightarrow> (buffer \<Rightarrow> bool) \<Rightarrow> nat \<Rightarrow> t1_state \<Rightarrow> t1_state \<times> t1_error option \<Rightarrow> bool" where
  "goes env Q c s r \<longleftrightarrow> reading c (fst r) \<and> logs (from_frame env Q c) s (fst r)"

lemma goes_same: "reading c s \<Longrightarrow> goes env Q c s (s, e)"
  by (simp add: goes_def logs_refl)

lemma goes_after: "logs (from_frame env Q c) s t \<Longrightarrow> goes env Q c t r \<Longrightarrow> goes env Q c s r"
  unfolding goes_def using logs_trans [OF stable_from_frame] by blast

lemma goes_attempt:
  assumes "goes env Q c s r" "\<And>t. reading c t \<Longrightarrow> goes env Q c t (f t)"
  shows "goes env Q c s (attempt r f)"
proof (cases r)
  case (Pair t e)
  then have "goes env Q c t (f t)" using assms by (simp add: goes_def)
  then show ?thesis
    using assms(1) Pair by (auto simp: attempt_def goes_def intro: logs_trans [OF stable_from_frame] split: option.split)
qed

lemma goes_emit:
  assumes "reading c s" "mentions (length (t1_devices s)) x" "reg1 x = [] \<or> (\<exists>d. reg1 x = [Use d])" "\<And>c. x \<noteq> ConnFailed c"
    "from_frame env Q c x (say x s)"
  shows "goes env Q c s (emit1 env x s)" "goes env Q c s (say x s, e)"
  using reading_say [OF assms(1-4)] logs_say [of "from_frame env Q c", OF assms(5)] by (simp_all add: goes_def emit1_def)

lemma owner_dev: "reading c s \<Longrightarrow> c_dev (conns s ! c) = Some d \<Longrightarrow> owner s d = Some c \<and> d < length (t1_devices s)"
  using t1_okD(1) [of s c] by (auto simp: reading_def conn_ok_def owner_def)

lemma goes_on_init:
  assumes r: "reading c s" and c: "c_id (conns s ! c) = Some i" "c_dev (conns s ! c) = None"
  shows "goes env Q c s (on_init env c i s)"
proof -
  have d: "goes env Q c s (destroy1 k s, e)" for k e
    using reading_set [OF r, of "\<lambda>x. x\<lparr>c_destroyed := True\<rparr>" k] by (simp add: goes_def destroy1_def logs_set_conn)
  show ?thesis
  proof (cases "isSafeDeviceId i")
    case False
    then show ?thesis using d by (simp add: on_init_def)
  next
    case safe: True
    show ?thesis
    proof (cases "known_meta env i")
      case None
      then show ?thesis using safe d by (simp add: on_init_def)
    next
      case (Some m)
      define u where "u = (case connectionsById s i of None \<Rightarrow> s | Some existing \<Rightarrow> destroy1 existing s)"
      have u: "reading c u" "logs (from_frame env Q c) s u" "c_id (conns u ! c) = Some i" "c_dev (conns u ! c) = None"
        using d r c by (auto simp: u_def goes_def destroy1_def conn_set reading_def logs_refl split: option.split)
      let ?t = "say (NewDevice1 (length (t1_devices u))) (make_device c i m (u\<lparr>connectionsById := (connectionsById u)(i \<mapsto> c)\<rparr>))"
      have "t1_ok ?t" using u(1,3,4) safe by (intro ok_open) (auto simp: reading_def)
      moreover have "\<not> c_closed (conns ?t ! c) \<and> \<not> c_failed (conns ?t ! c) \<and> length (conns ?t) = length (conns u)"
        using u(1) by (simp add: make_device_def Let_def conn_set reading_def)
      ultimately have "reading c ?t" using u(1) by (simp add: reading_def)
      moreover have "logs (from_frame env Q c) u ?t"
        by (simp add: logs_def make_device_def Let_def owner_def)
      ultimately have "goes env Q c s (?t, e)" for e
        using logs_trans [OF stable_from_frame u(2)] by (simp add: goes_def)
      then show ?thesis using safe Some by (simp add: on_init_def Let_def emit1_def u_def [symmetric])
    qed
  qed
qed

lemma goes_on_status:
  assumes r: "reading c s" and p: "Q p" "parse_request env p = Some r" "status_data env r = Some b"
  shows "goes env Q c s (on_status env c b s)"
proof (cases "c_dev (conns s ! c)")
  case None
  then show ?thesis using goes_same [OF r] by (simp add: on_status_def)
next
  case (Some d)
  let ?t = "s\<lparr>t1_devices := (t1_devices s)[d := (t1_devices s ! d)\<lparr>lastReport := Some b\<rparr>]\<rparr>"
  note o = owner_dev [OF r Some]
  have con: "td_con ((t1_devices s)[d := (t1_devices s ! d)\<lparr>lastReport := Some b\<rparr>] ! k) = td_con (t1_devices s ! k)"
    "td_id ((t1_devices s)[d := (t1_devices s ! d)\<lparr>lastReport := Some b\<rparr>] ! k) = td_id (t1_devices s ! k)" for k
    using o by (cases "k = d"; simp)+
  have t: "reading c ?t" using r ok_same_devices [of s "(t1_devices s)[d := (t1_devices s ! d)\<lparr>lastReport := Some b\<rparr>]"] con
    by (simp add: reading_def)
  have "map td_con (t1_devices ?t) = map td_con (t1_devices s)" using con(1) by (simp add: list_eq_iff_nth_eq)
  then have "logs (from_frame env Q c) s ?t" by (simp add: logs_def)
  moreover have "owner ?t d = Some c" using o con(1) by (simp add: owner_def split: if_splits)
  then have "goes env Q c ?t (emit1 env (Report d b) ?t)"
    using o p by (intro goes_emit [OF t]) (auto simp: mentions_def owner_def)
  ultimately have "goes env Q c s (emit1 env (Report d b) ?t)" by (rule goes_after)
  then show ?thesis using Some by (simp add: on_status_def)
qed

lemma goes_on_response:
  assumes r: "reading c s" and p: "Q p" "parse_request env p = Some r" "body_field ''ReturnCode'' r \<noteq> None"
  shows "goes env Q c s (on_response env c (the (field ''Body'' r)) s)"
proof (cases "c_dev (conns s ! c)")
  case None
  then show ?thesis using goes_same [OF r] by (simp add: on_response_def)
next
  case (Some d)
  note o = owner_dev [OF r Some]
  obtain b where b: "field ''Body'' r = Some b" using p(3) by (cases "field ''Body'' r") (auto simp: body_field_def)
  have "goes env Q c s (emit1 env (Response d b) s)"
    using o p b by (intro goes_emit [OF r]) (auto simp: mentions_def owner_def)
  then show ?thesis using Some b by (simp add: on_response_def)
qed

lemma goes_handle_request:
  assumes r: "reading c s" and p: "Q p"
  shows "goes env Q c s (handle_request env c (parse_request env p) s)"
proof (cases "request_id (parse_request env p)")
  case (Inl e)
  then show ?thesis using goes_same [OF r] by (simp add: handle_request_def)
next
  case (Inr i)
  then obtain q where q: "parse_request env p = Some q" by (cases "parse_request env p") (auto simp: request_id_def)
  have init: "goes env Q c s (if c_id (conns s ! c) = None then on_init env c i (set_conn c (\<lambda>x. x\<lparr>c_id := Some i\<rparr>) s) else (s, None))"
  proof (cases "c_id (conns s ! c) = None")
    case True
    let ?t = "set_conn c (\<lambda>x. x\<lparr>c_id := Some i\<rparr>) s"
    have "c_dev (conns s ! c) = None" using t1_okD(1) [of s c] r True by (cases "c_dev (conns s ! c)") (auto simp: reading_def conn_ok_def)
    then have "goes env Q c ?t (on_init env c i ?t)"
      using r by (intro goes_on_init reading_set) (auto simp: reading_def conn_set inert_def)
    then show ?thesis using True goes_after [OF logs_set_conn] by simp
  next
    case False
    then show ?thesis using goes_same [OF r] by auto
  qed
  have status: "goes env Q c t (case status_data env q of None \<Rightarrow> (t, None) | Some b \<Rightarrow> on_status env c b t)" if "reading c t" for t
    using goes_same [OF that] goes_on_status [of c t Q p env q, OF that p q] by (simp split: option.split)
  have reply: "goes env Q c t (if body_field ''ReturnCode'' q \<noteq> None then on_response env c (the (field ''Body'' q)) t
      else (say (Ack c (ack i q)) t, None))" if "reading c t" for t
    using goes_on_response [of c t Q p env q, OF that p q] goes_emit(2) [OF that, of "Ack c (ack i q)" env Q None] p q Inr
    by (auto simp: mentions_def)
  have q': "request_id (Some q) = Inr i" using Inr q by simp
  show ?thesis
    unfolding handle_request_def q q' Let_def option.sel sum.case
    by (intro goes_attempt init status reply)
qed

subsection \<open>Steps\<close>

text \<open>The log of a read: a failure is its end.\<close>

definition ends :: "(t1_out \<Rightarrow> t1_state \<Rightarrow> bool) \<Rightarrow> nat \<Rightarrow> t1_state \<Rightarrow> t1_state \<Rightarrow> bool" where
  "ends P c s t \<longleftrightarrow> length (conns t) = length (conns s) \<and> (\<exists>ds. map td_con (t1_devices t) = map td_con (t1_devices s) @ ds) \<and>
    (\<exists>xs. (t1_log t = t1_log s @ xs \<or> t1_log t = t1_log s @ xs @ [ConnFailed c] \<and> c_failed (conns t ! c)) \<and> (\<forall>x \<in> set xs. P x t))"

lemma ends_logs: "logs P s t \<Longrightarrow> ends P c s t"
  unfolding ends_def logs_def by blast

lemma ends_trans: "stable P \<Longrightarrow> ends P c r s \<Longrightarrow> \<not> c_failed (conns s ! c) \<Longrightarrow> ends P c s t \<Longrightarrow> ends P c r t"
proof -
  assume st: "stable P" and ab: "ends P c r s" "\<not> c_failed (conns s ! c)" and bc: "ends P c s t"
  from ab obtain ds xs where a: "map td_con (t1_devices s) = map td_con (t1_devices r) @ ds"
    "t1_log s = t1_log r @ xs" "\<forall>x \<in> set xs. P x s" "length (conns s) = length (conns r)" unfolding ends_def by blast
  from bc obtain es ys where b: "map td_con (t1_devices t) = map td_con (t1_devices s) @ es"
    "t1_log t = t1_log s @ ys \<or> t1_log t = t1_log s @ ys @ [ConnFailed c] \<and> c_failed (conns t ! c)"
    "\<forall>x \<in> set ys. P x t" "length (conns t) = length (conns s)" unfolding ends_def by blast
  have "\<forall>x \<in> set xs. P x t" using st a(3) b(1) unfolding stable_def by blast
  then have "\<forall>x \<in> set (xs @ ys). P x t" using b(3) by auto
  moreover have "t1_log t = t1_log r @ (xs @ ys) \<or> t1_log t = t1_log r @ (xs @ ys) @ [ConnFailed c] \<and> c_failed (conns t ! c)"
    using a(2) b(2) by auto
  moreover have "map td_con (t1_devices t) = map td_con (t1_devices r) @ (ds @ es)" "length (conns t) = length (conns r)"
    using a b by auto
  ultimately show "ends P c r t" unfolding ends_def by blast
qed

lemma ends_fail: "stable P \<Longrightarrow> ends P c s t \<Longrightarrow> c < length (conns t) \<Longrightarrow> ends P c s (conn_fail c t)"
proof (cases "c_failed (conns t ! c)")
  case False
  assume "stable P" and e: "ends P c s t" "c < length (conns t)"
  have "ends P c t (conn_fail c t)"
    unfolding ends_def by (intro conjI exI [of _ "[]"]) (use e False in \<open>simp_all add: conn_fail_def destroy1_def conn_set\<close>)
  then show ?thesis using ends_trans [OF \<open>stable P\<close> e(1) False] by blast
qed (simp add: conn_fail_def)

lemma ends_split:
  assumes "stable P" "ends P c s t" "c < length (conns t)"
  shows "ends P c s (set_conn c (\<lambda>x. x\<lparr>c_split := sp\<rparr>) t)"
proof -
  let ?t = "set_conn c (\<lambda>x. x\<lparr>c_split := sp\<rparr>) t"
  obtain ds xs where x: "map td_con (t1_devices t) = map td_con (t1_devices s) @ ds" "length (conns t) = length (conns s)"
    "t1_log t = t1_log s @ xs \<or> t1_log t = t1_log s @ xs @ [ConnFailed c] \<and> c_failed (conns t ! c)" "\<forall>x \<in> set xs. P x t"
    using assms(2) unfolding ends_def by blast
  have "\<forall>x \<in> set xs. P x ?t" using x(4) assms(1) unfolding stable_def by (metis append_Nil2 set_conn_fields(3))
  moreover have "c_failed (conns ?t ! c) = c_failed (conns t ! c)" using assms(3) by (simp add: conn_set)
  ultimately show ?thesis using x(1-3) unfolding ends_def by auto
qed

lemma length_conn_fail [simp]: "length (conns (conn_fail c s)) = length (conns s)"
  by (simp add: conn_fail_def destroy1_def)

text \<open>A callback keeps the connection readable, or ends in its failure.\<close>

lemma payload_step:
  assumes r: "reading c s" and p: "Q p"
  shows "(snd (on_payload env c s p) = None \<longrightarrow> reading c (fst (on_payload env c s p))) \<and>
    (t1_ok (fst (on_payload env c s p)) \<and> c < length (conns (fst (on_payload env c s p)))) \<and>
    ends (from_frame env Q c) c s (fst (on_payload env c s p))"
proof -
  let ?s = "set_conn c (\<lambda>x. x\<lparr>c_timer := True\<rparr>) s"
  have "goes env Q c ?s (handle_request env c (parse_request env p) ?s)"
    using reading_set [OF r, of "\<lambda>x. x\<lparr>c_timer := True\<rparr>" c] p by (intro goes_handle_request) simp_all
  then have "goes env Q c s (handle_request env c (parse_request env p) ?s)" by (rule goes_after [OF logs_set_conn])
  then obtain t e where h: "handle_request env c (parse_request env p) ?s = (t, e)" "reading c t" "logs (from_frame env Q c) s t"
    by (cases "handle_request env c (parse_request env p) ?s") (simp add: goes_def)
  then have "t1_ok t" "c < length (conns t)" by (simp_all add: reading_def)
  then show ?thesis
    using h ok_conn_fail [of t c] ends_logs [OF h(3), of c] ends_fail [OF stable_from_frame ends_logs [OF h(3)]]
    by (auto simp: on_payload_def split: option.split)
qed

definition stream :: "nat \<Rightarrow> t1_state \<Rightarrow> buffer \<Rightarrow> buffer" where
  "stream c s buf = (case accum (c_split (conns s ! c)) of None \<Rightarrow> [] | Some a \<Rightarrow> a) @ buf"

definition part_of :: "buffer \<Rightarrow> buffer \<Rightarrow> bool" where
  "part_of whole p \<longleftrightarrow> (\<exists>a b. whole = a @ p @ b)"

lemma ok_split: "t1_ok s \<Longrightarrow> t1_ok (set_conn c (\<lambda>x. x\<lparr>c_split := sp\<rparr>) s)"
  by (simp add: ok_set_conn)

lemma data_step:
  assumes "reading c s"
  shows "t1_ok (on_data env c buf s) \<and> ends (from_frame env (part_of (stream c s buf)) c) c s (on_data env c buf s)"
proof -
  let ?P = "from_frame env (part_of (stream c s buf)) c"
  have ok: "t1_ok s" "c < length (conns s)" using assms by (simp_all add: reading_def)
  obtain sp t e where r: "split (on_payload env c) MAX_PAYLOAD (c_split (conns s ! c), s) buf = ((sp, t), e)"
    by (cases "split (on_payload env c) MAX_PAYLOAD (c_split (conns s ! c), s) buf") auto
  have t: "t1_ok t \<and> c < length (conns t) \<and> ends ?P c s t"
  proof (cases "failed (c_split (conns s ! c))")
    case True
    then show ?thesis using r ok by (simp add: split_def ends_logs [OF logs_refl])
  next
    case False
    have "t = snd (fst (split_loop (on_payload env c) MAX_PAYLOAD (stream c s buf) s))"
      using split_unfold [of "on_payload env c" MAX_PAYLOAD "(c_split (conns s ! c), s)" buf] r False by (simp add: stream_def) (metis snd_conv)
    moreover have "(t1_ok (snd (fst (split_loop (on_payload env c) MAX_PAYLOAD (stream c s buf) s))) \<and>
        c < length (conns (snd (fst (split_loop (on_payload env c) MAX_PAYLOAD (stream c s buf) s))))) \<and>
        ends ?P c s (snd (fst (split_loop (on_payload env c) MAX_PAYLOAD (stream c s buf) s)))"
    proof (rule split_loop_inv [where I = "reading c" and J = "\<lambda>t. t1_ok t \<and> c < length (conns t)" and R = "ends ?P c"
          and Q = "part_of (stream c s buf)"])
      show "ends ?P c a a" for a by (rule ends_logs [OF logs_refl])
      show "ends ?P c a b \<Longrightarrow> reading c b \<Longrightarrow> ends ?P c b d \<Longrightarrow> ends ?P c a d" for a b d
        using ends_trans [OF stable_from_frame] by (simp add: reading_def)
      show "reading c u \<Longrightarrow> t1_ok u \<and> c < length (conns u)" for u by (simp add: reading_def)
      show "stream c s buf = a @ p @ b \<Longrightarrow> part_of (stream c s buf) p" for a p b by (auto simp: part_of_def)
    qed (use assms payload_step in auto)
    ultimately show ?thesis by simp
  qed
  let ?u = "set_conn c (\<lambda>x. x\<lparr>c_split := sp\<rparr>) t"
  have "t1_ok ?u \<and> c < length (conns ?u) \<and> ends ?P c s ?u"
    using t ok_split ends_split [OF stable_from_frame] by auto
  then show ?thesis
    using ok_conn_fail ends_fail [OF stable_from_frame] by (simp add: on_data_def r Let_def)
qed

lemma ok_t1_step: "t1_ok s \<Longrightarrow> t1_ok (t1_step s e)"
proof (cases e)
  case Accept
  assume ok: "t1_ok s"
  have n: "conns (accept1 s) ! k = conns s ! k" if "k < length (conns s)" for k using that by (simp add: accept1_def nth_append)
  have "conn_ok (accept1 s) k" if "k < length (conns (accept1 s))" for k
  proof (cases "k < length (conns s)")
    case True
    then show ?thesis using t1_okD(1) [OF ok True] by (simp add: conn_ok_def n) (simp add: accept1_def)
  next
    case False
    then have "k = length (conns s)" using that by (simp add: accept1_def)
    then show ?thesis using t1_okD(4) [OF ok, of k] by (auto simp: conn_ok_def accept1_def)
  qed
  moreover have "listed (accept1 s) = listed s"
    using t1_okD(3) [OF ok] n by (fastforce simp: listed_def fun_eq_iff accept1_def split: option.split)
  moreover have "managed (accept1 s) = managed s" by (simp add: managed_def ids1_def accept1_def)
  moreover have "connectionsById (accept1 s) = connectionsById s" "t1_devices (accept1 s) = t1_devices s" "t1_log (accept1 s) = t1_log s"
    "length (conns (accept1 s)) = Suc (length (conns s))" by (simp_all add: accept1_def)
  ultimately show ?thesis
    using t1_okD(2-6) [OF ok] n unfolding t1_ok_def Accept t1_step.simps by (fastforce simp: less_Suc_eq)
next
  case (SockData env c buf)
  assume ok: "t1_ok s"
  have "flowing c s \<Longrightarrow> reading c s" using t1_okD(1) [OF ok, of c] ok by (auto simp: flowing_def live_def reading_def conn_ok_def)
  then show ?thesis using ok data_step by (auto simp: SockData)
next
  case (SockEnd c)
  assume ok: "t1_ok s"
  then show ?thesis
    using ok_conn_fail [OF ok_split [OF ok]] ok_split [OF ok]
    by (auto simp: SockEnd on_end_def Let_def flowing_def live_def split: prod.split)
next
  case (SockError c)
  assume "t1_ok s"
  then show ?thesis by (simp add: SockError live_def ok_conn_fail)
next
  case (SockClose c)
  assume "t1_ok s"
  then show ?thesis by (simp add: SockClose live_def ok_on_close)
next
  case (IdleTimeout c)
  assume "t1_ok s"
  then show ?thesis by (simp add: IdleTimeout destroy1_def ok_set_conn)
next
  case (SendTo d body uuid)
  assume "t1_ok s"
  then show ?thesis by (simp add: SendTo dev_send1_def Let_def ok_say mentions_def)
qed

lemma ok_t1_run: "t1_ok (t1_run es)"
proof (induction es rule: rev_induct)
  case Nil
  then show ?case using ok_new by (simp add: t1_run_def)
next
  case (snoc e es)
  then show ?case using ok_t1_step by (simp add: t1_run_def)
qed

subsection \<open>The properties\<close>

text \<open>
  The manager follows the ThinQ 1 acceptor although an appliance that reconnects is announced
  anew before the close of its old connection is heard: after any traffic the manager lists under an
  identifier exactly the device of the connection the acceptor has indexed there; that connection is
  not closed and the device has the identifier, a safe one.
\<close>

theorem manager_agrees_with_thinq1:
  "let s = t1_run es; listing = allDevices (mgr_run (ids1 s) (reg1_events (t1_log s))) in
     listing i = (case connectionsById s i of None \<Rightarrow> None | Some c \<Rightarrow> c_deviceObj (conns s ! c)) \<and>
     (case connectionsById s i of None \<Rightarrow> True | Some c \<Rightarrow> c < length (conns s) \<and> \<not> c_closed (conns s ! c) \<and>
       (\<exists>d. c_deviceObj (conns s ! c) = Some d \<and> d < length (t1_devices s) \<and> td_con (t1_devices s ! d) = c \<and>
         td_id (t1_devices s ! d) = i \<and> isSafeDeviceId i))"
proof -
  note ok = ok_t1_run [of es]
  show ?thesis
  proof (cases "connectionsById (t1_run es) i")
    case None
    then show ?thesis using t1_okD(6) [OF ok] by (simp add: Let_def managed_def [symmetric] listed_def)
  next
    case (Some c)
    from t1_okD(3) [OF ok Some] obtain d where d: "c < length (conns (t1_run es))" "\<not> c_closed (conns (t1_run es) ! c)"
      "c_dev (conns (t1_run es) ! c) = Some d" "td_id (t1_devices (t1_run es) ! d) = i" by blast
    then show ?thesis
      using t1_okD(1) [OF ok d(1)] t1_okD(6) [OF ok] Some by (auto simp: Let_def managed_def [symmetric] listed_def conn_ok_def)
  qed
qed

text \<open>Where the outputs of one event come from.\<close>

definition sourced1 :: "t1_event \<Rightarrow> t1_state \<Rightarrow> t1_state \<Rightarrow> t1_out \<Rightarrow> bool" where
  "sourced1 e s t x \<longleftrightarrow>
    (case x of
       Report d b \<Rightarrow> (case e of SockData env c buf \<Rightarrow> from_frame env (part_of (stream c s buf)) c x t | _ \<Rightarrow> False)
     | Response d b \<Rightarrow> (case e of SockData env c buf \<Rightarrow> from_frame env (part_of (stream c s buf)) c x t | _ \<Rightarrow> False)
     | Ack c j \<Rightarrow> (case e of SockData env c' buf \<Rightarrow> from_frame env (part_of (stream c' s buf)) c' x t | _ \<Rightarrow> False)
     | _ \<Rightarrow> True)"

text \<open>
  C12. Reports, responses and acknowledgements come from the connection's own frames: whatever a step
  reports for a device was in a request inside the bytes its own connection sent - the base64 data of a
  \<open>B64\<close> body, or a body with a return code - and an acknowledgement answers such a request on the same
  connection.
\<close>

theorem thinq1_reports_come_from_owner:
  "list_all (sourced1 e (t1_run es) (t1_run (es @ [e]))) (drop (length (t1_log (t1_run es))) (t1_log (t1_run (es @ [e]))))"
proof -
  define s where "s = t1_run es"
  have ok: "t1_ok s" by (simp add: s_def ok_t1_run)
  have t: "t1_run (es @ [e]) = t1_step s e" by (simp add: t1_run_def s_def)
  have "\<exists>xs. t1_log (t1_step s e) = t1_log s @ xs \<and> (\<forall>x \<in> set xs. sourced1 e s (t1_step s e) x)"
  proof (cases e)
    case (SockData env c buf)
    show ?thesis
    proof (cases "flowing c s")
      case True
      then have "reading c s" using t1_okD(1) [OF ok, of c] ok by (auto simp: flowing_def live_def reading_def conn_ok_def)
      then obtain xs where "t1_log (on_data env c buf s) = t1_log s @ xs \<or> t1_log (on_data env c buf s) = t1_log s @ xs @ [ConnFailed c]"
        "\<forall>x \<in> set xs. from_frame env (part_of (stream c s buf)) c x (on_data env c buf s)"
        using data_step unfolding ends_def by blast
      moreover have "from_frame env (part_of (stream c s buf)) c x (on_data env c buf s) \<Longrightarrow> sourced1 e s (on_data env c buf s) x" for x
        by (cases x) (simp_all add: SockData sourced1_def)
      moreover have "sourced1 e s (on_data env c buf s) (ConnFailed c)" by (simp add: sourced1_def)
      ultimately show ?thesis using True SockData by auto
    next
      case False
      then show ?thesis by (simp add: SockData)
    qed
  next
    case (SockEnd c)
    then show ?thesis
      by (auto simp: on_end_def Let_def conn_fail_def destroy1_def sourced1_def split: prod.split)
  next
    case (SockClose c)
    then show ?thesis
      by (auto simp: on_close_def Let_def sourced1_def split: option.split)
  next
    case (SendTo d body uuid)
    then show ?thesis by (simp add: dev_send1_def Let_def sourced1_def)
  qed (auto simp: accept1_def conn_fail_def destroy1_def sourced1_def)
  then show ?thesis unfolding t s_def [symmetric] by (auto simp: list_all_iff)
qed

subsection \<open>A connection that failed\<close>

fun origin1 :: "t1_state \<Rightarrow> t1_out \<Rightarrow> nat option" where
  "origin1 s (NewDevice1 d) = owner s d"
| "origin1 s (Report d _) = owner s d"
| "origin1 s (Response d _) = owner s d"
| "origin1 s (Ack c _) = Some c"
| "origin1 s _ = None"

definition quiet :: "t1_state \<Rightarrow> bool" where
  "quiet s \<longleftrightarrow> (\<forall>pre x post c. t1_log s = pre @ x # post \<longrightarrow> origin1 s x = Some c \<longrightarrow> ConnFailed c \<notin> set pre)"

lemma origin1_grown:
  assumes "map td_con (t1_devices t) = map td_con (t1_devices s) @ ds" "mentions (length (t1_devices s)) x"
  shows "origin1 t x = origin1 s x"
proof -
  have len: "length (t1_devices t) = length (t1_devices s) + length ds" using arg_cong [OF assms(1), of length] by simp
  have "td_con (t1_devices t ! d) = td_con (t1_devices s ! d)" if "d < length (t1_devices s)" for d
    using that assms(1) len nth_map [of d "t1_devices t" td_con] by (simp add: nth_append)
  then show ?thesis using assms(2) len by (cases x) (auto simp: owner_def mentions_def)
qed

lemma quiet_grown:
  assumes "quiet s" "t1_ok s" and ds: "map td_con (t1_devices t) = map td_con (t1_devices s) @ ds" and log: "t1_log t = t1_log s @ xs"
    and new: "\<And>ys x zs c. xs = ys @ x # zs \<Longrightarrow> origin1 t x = Some c \<Longrightarrow> ConnFailed c \<notin> set (t1_log s @ ys)"
  shows "quiet t"
  unfolding quiet_def
proof (intro allI impI)
  fix pre x post c
  assume l: "t1_log t = pre @ x # post" and o: "origin1 t x = Some c"
  from l log consider (old) us where "t1_log s = pre @ x # us" | (new) ys where "pre = t1_log s @ ys" "xs = ys @ x # post"
    by (auto simp: append_eq_append_conv2 append_eq_Cons_conv Cons_eq_append_conv)
  then show "ConnFailed c \<notin> set pre"
  proof cases
    case old
    have "mentions (length (t1_devices s)) x" using t1_okD(5) [OF assms(2)] by (simp add: old)
    then have "origin1 s x = Some c" using origin1_grown [OF ds] o by simp
    then show ?thesis using assms(1) old unfolding quiet_def by blast
  next
    case new
    then show ?thesis using assms(5) o by simp
  qed
qed

lemma quiet_step:
  assumes "quiet s" and ok: "t1_ok s"
  shows "quiet (t1_step s e)"
proof -
  have other: "quiet t" if "map td_con (t1_devices t) = map td_con (t1_devices s)" "t1_log t = t1_log s @ xs"
    "\<forall>x \<in> set xs. origin1 t x = None" for t xs
    by (rule quiet_grown [OF assms, of t "[]" xs]) (use that in auto)
  show ?thesis
  proof (cases e)
    case Accept
    then show ?thesis using other [of _ "[]"] by (simp add: accept1_def)
  next
    case (SockData env c buf)
    show ?thesis
    proof (cases "flowing c s")
      case True
      then have r: "reading c s" using t1_okD(1) [OF ok, of c] ok by (auto simp: flowing_def live_def reading_def conn_ok_def)
      then have f: "ConnFailed c \<notin> set (t1_log s)" using t1_okD(1) [OF ok, of c] by (simp add: reading_def conn_ok_def)
      obtain ds xs where x: "map td_con (t1_devices (on_data env c buf s)) = map td_con (t1_devices s) @ ds"
        "t1_log (on_data env c buf s) = t1_log s @ xs \<or> t1_log (on_data env c buf s) = t1_log s @ xs @ [ConnFailed c]"
        "\<forall>x \<in> set xs. from_frame env (part_of (stream c s buf)) c x (on_data env c buf s)"
        using data_step [OF r] unfolding ends_def by blast
      have src: "origin1 (on_data env c buf s) x = Some k \<longrightarrow> k = c" "x \<noteq> ConnFailed k" if "x \<in> set xs" for x k
        using x(3) that by (cases x; fastforce)+
      obtain zs where zs: "t1_log (on_data env c buf s) = t1_log s @ xs @ zs" "zs = [] \<or> zs = [ConnFailed c]" using x(2) by auto
      have "quiet (on_data env c buf s)"
      proof (rule quiet_grown [OF assms x(1) zs(1)])
        fix ys x vs k
        assume split: "xs @ zs = ys @ x # vs" and o: "origin1 (on_data env c buf s) x = Some k"
        have "x \<in> set (xs @ zs)" by (simp add: split)
        then have x: "x \<in> set xs" using zs(2) o by auto
        then have "k = c" using src(1) o by blast
        moreover have "set ys \<subseteq> set xs"
          using split zs(2) o by (cases vs rule: rev_cases) auto
        ultimately show "ConnFailed k \<notin> set (t1_log s @ ys)" using f src(2) by auto
      qed
      then show ?thesis using True by (simp add: SockData)
    qed (simp add: SockData assms(1))
  next
    case (SockEnd c)
    show ?thesis
      unfolding SockEnd
      by (rule other [of _ "if flowing c s \<and> snd (split_end (c_split (conns s ! c)) :: splitter \<times> t1_error frame_error option) \<noteq> None
             \<and> \<not> c_failed (conns s ! c) then [ConnFailed c] else []"])
        (auto simp: on_end_def Let_def conn_fail_def destroy1_def flowing_def live_def conn_set split: prod.split)
  next
    case (SockError c)
    show ?thesis
      unfolding SockError
      by (rule other [of _ "if live c s \<and> \<not> c_failed (conns s ! c) then [ConnFailed c] else []"])
        (auto simp: conn_fail_def destroy1_def)
  next
    case (SockClose c)
    have "\<exists>xs. t1_log (on_close c s) = t1_log s @ xs \<and> (\<forall>x \<in> set xs. \<forall>t. origin1 t x = None)"
      by (auto simp: on_close_def Let_def split: option.split)
    then obtain xs where "t1_log (on_close c s) = t1_log s @ xs" "\<forall>x \<in> set xs. \<forall>t. origin1 t x = None" by blast
    then have "quiet (on_close c s)" by (intro other) (auto simp: on_close_def Let_def split: option.split)
    then show ?thesis using assms(1) by (simp add: SockClose)
  next
    case (IdleTimeout c)
    then show ?thesis using assms(1) other [of _ "[]"] by (simp add: destroy1_def)
  next
    case (SendTo d body uuid)
    show ?thesis
      unfolding SendTo
      by (rule other [of _ "if d < length (t1_devices s) then [SendData1 d (JObj body), Sent (td_con (t1_devices s ! d))
            (JObj [(''Header'', JObj [(''x-lgedm-deviceId'', JStr (td_id (t1_devices s ! d)))]),
              (''Body'', JObj (AList.update ''CmdWId'' (JStr (''n-'' @ uuid)) body))])] else []"])
        (auto simp: dev_send1_def Let_def)
  qed
qed

lemma quiet_run: "quiet (t1_run es)"
proof (induction es rule: rev_induct)
  case Nil
  then show ?case by (simp add: t1_run_def new_t1_def quiet_def)
next
  case (snoc e es)
  then show ?case using quiet_step ok_t1_run [of es] by (simp add: t1_run_def)
qed

text \<open>
  A failure is final: after a connection has failed - on a bad frame, a bad request, a listener's
  exception or a socket error - nothing it sent is announced, reported or acknowledged any more, not
  even the rest of the read that failed.
\<close>

theorem thinq1_failure_is_final:
  assumes "t1_log (t1_run es) = pre @ ConnFailed c # post"
  shows "list_all (\<lambda>x. origin1 (t1_run es) x \<noteq> Some c) post"
  unfolding list_all_iff
proof (intro ballI notI)
  fix x
  assume x: "x \<in> set post" and o: "origin1 (t1_run es) x = Some c"
  obtain as bs where "post = as @ x # bs" using split_list [OF x] by blast
  then have "t1_log (t1_run es) = (pre @ ConnFailed c # as) @ x # bs" using assms by simp
  then have "ConnFailed c \<notin> set (pre @ ConnFailed c # as)" using quiet_run [of es] o unfolding quiet_def by blast
  then show False by simp
qed

lemma thinq1_failure_is_final_witness:
  "let env = \<lparr>parse_request = (\<lambda>p. if p = [1] then Some (JObj [(''Header'', JObj [(''x-lgedm-deviceId'', JStr ''a'')])]) else None),
      unbase64 = (\<lambda>_. []), known_meta = (\<lambda>_. None), listener_throws = (\<lambda>_. False)\<rparr>;
     s = t1_run [Accept, SockData env 0 [0, 0, 0, 1, 1, 0, 0, 0, 1, 2, 0, 0, 0, 1, 1], Accept, SockData env 1 [0, 0, 0, 1, 1]] in
   \<exists>post. post \<noteq> [] \<and> list_all (\<lambda>x. origin1 s x \<noteq> Some 0) post \<and> (\<exists>x. t1_log s = [x] @ ConnFailed 0 # post \<and> origin1 s x = Some 0)"
proof -
  define env where "env = \<lparr>parse_request = (\<lambda>p. if p = [1 :: byte] then Some (JObj [(''Header'', JObj [(''x-lgedm-deviceId'', JStr ''a'')])]) else None),
      unbase64 = (\<lambda>_. []), known_meta = (\<lambda>_. None), listener_throws = (\<lambda>_. False)\<rparr>"
  define s where "s = t1_run [Accept, SockData env 0 [0, 0, 0, 1, 1, 0, 0, 0, 1, 2, 0, 0, 0, 1, 1], Accept, SockData env 1 [0, 0, 0, 1, 1]]"
  have l: "t1_log s = [Ack 0 (ack ''a'' (JObj [(''Header'', JObj [(''x-lgedm-deviceId'', JStr ''a'')])]))] @ ConnFailed 0 #
      [Ack 1 (ack ''a'' (JObj [(''Header'', JObj [(''x-lgedm-deviceId'', JStr ''a'')])]))]"
    unfolding s_def env_def by code_simp
  from thinq1_failure_is_final [OF l [unfolded s_def]] show ?thesis
    unfolding Let_def env_def [symmetric] s_def [symmetric] using l by auto
qed

subsection \<open>Acknowledgements\<close>

definition acks :: "nat \<Rightarrow> t1_out list \<Rightarrow> json list" where
  "acks c xs = concat (map (\<lambda>x. case x of Ack k j \<Rightarrow> if k = c then [j] else [] | _ \<Rightarrow> []) xs)"

text \<open>What a payload has to be answered with.\<close>

definition reply :: "t1_env \<Rightarrow> buffer \<Rightarrow> json list" where
  "reply env p = (case (parse_request env p, request_id (parse_request env p)) of
     (Some r, Inr i) \<Rightarrow> if body_field ''ReturnCode'' r = None then [ack i r] else []
   | _ \<Rightarrow> [])"

definition well_formed :: "t1_env \<Rightarrow> buffer \<Rightarrow> bool" where
  "well_formed env p \<longleftrightarrow> int (length p) \<le> MAX_PAYLOAD \<and> (case request_id (parse_request env p) of Inl _ \<Rightarrow> False | Inr _ \<Rightarrow> True)"

lemma acks_simps [simp]: "acks c [] = []" "acks c (xs @ ys) = acks c xs @ acks c ys"
  "acks c (x # xs) = (case x of Ack k j \<Rightarrow> if k = c then [j] else [] | _ \<Rightarrow> []) @ acks c xs"
  by (simp_all add: acks_def)

lemma payload_acks:
  assumes calm: "\<And>x. \<not> listener_throws env x" and w: "well_formed env p"
  shows "snd (on_payload env c s p) = None \<and> acks c (t1_log (fst (on_payload env c s p))) = acks c (t1_log s) @ reply env p"
proof -
  obtain i where i: "request_id (parse_request env p) = Inr i" using w by (auto simp: well_formed_def split: sum.splits)
  then obtain r where r: "parse_request env p = Some r" by (cases "parse_request env p") (auto simp: request_id_def)
  let ?s = "set_conn c (\<lambda>x. x\<lparr>c_timer := True\<rparr>) s"
  have init: "snd (on_init env c i t) = None \<and> acks c (t1_log (fst (on_init env c i t))) = acks c (t1_log t)" for t
    using calm by (auto simp: on_init_def emit1_def destroy1_def make_device_def Let_def split: option.split)
  define t where "t = fst (if c_id (conns ?s ! c) = None then on_init env c i (set_conn c (\<lambda>x. x\<lparr>c_id := Some i\<rparr>) ?s) else (?s, None))"
  have t: "(if c_id (conns ?s ! c) = None then on_init env c i (set_conn c (\<lambda>x. x\<lparr>c_id := Some i\<rparr>) ?s) else (?s, None)) = (t, None)"
    "acks c (t1_log t) = acks c (t1_log s)"
    using init [of "set_conn c (\<lambda>x. x\<lparr>c_id := Some i\<rparr>) ?s"] by (auto simp: t_def prod_eq_iff)
  define u where "u = fst (case status_data env r of None \<Rightarrow> (t, None) | Some b \<Rightarrow> on_status env c b t)"
  have u: "(case status_data env r of None \<Rightarrow> (t, None) | Some b \<Rightarrow> on_status env c b t) = (u, None)" "acks c (t1_log u) = acks c (t1_log s)"
    using t(2) calm by (auto simp: u_def on_status_def emit1_def prod_eq_iff split: option.split)
  have "snd (handle_request env c (parse_request env p) ?s) = None \<and>
      acks c (t1_log (fst (handle_request env c (parse_request env p) ?s))) = acks c (t1_log s) @ reply env p"
    using i calm unfolding handle_request_def r
    by (simp add: t(1) attempt_def u reply_def r) (auto simp: on_response_def emit1_def u(2) split: option.split)
  then show ?thesis by (cases "handle_request env c (parse_request env p) ?s") (simp add: on_payload_def)
qed

lemma deliver_acks:
  "(\<And>x. \<not> listener_throws env x) \<Longrightarrow> list_all (well_formed env) ps \<Longrightarrow>
    acks c (t1_log (deliver (on_payload env c) s ps)) = acks c (t1_log s) @ concat (map (reply env) ps)"
proof (induction ps arbitrary: s)
  case (Cons p ps)
  then show ?case using payload_acks [of env p c s] by simp
qed simp

text \<open>
  Requests are acknowledged in order: when no frame is pending, reading the frames of well-formed
  requests writes exactly one acknowledgement for each that is not itself a response, in their order
  and with their own identifiers, whatever else the listeners do, and leaves nothing pending.
\<close>

theorem thinq1_requests_acknowledged:
  assumes "flowing c (t1_run es)" "accum (c_split (conns (t1_run es) ! c)) \<in> {None, Some []}" "\<not> failed (c_split (conns (t1_run es) ! c))"
    and calm: "\<And>x. \<not> listener_throws env x" and w: "list_all (well_formed env) ps" and f: "list_all2 (\<lambda>p f. Framing.make p = Inr f) ps fs"
  shows "let t = t1_run (es @ [SockData env c (concat fs)]) in
    acks c (t1_log t) = acks c (t1_log (t1_run es)) @ concat (map (reply env) ps) \<and> \<not> c_failed (conns t ! c) \<and>
    accum (c_split (conns t ! c)) = Some []"
proof -
  define s where "s = t1_run es"
  have ok: "t1_ok s" by (simp add: s_def ok_t1_run)
  have r: "reading c s" using t1_okD(1) [OF ok, of c] ok assms(1) by (auto simp: s_def [symmetric] flowing_def live_def reading_def conn_ok_def)
  let ?d = "deliver (on_payload env c) s ps"
  have "split_loop (on_payload env c) MAX_PAYLOAD (concat fs @ []) s = split_loop (on_payload env c) MAX_PAYLOAD [] ?d"
    by (rule split_loop_frames_inv [OF f, where I = "reading c"])
      (use w r payload_acks [OF calm] payload_step [where Q = "\<lambda>_. True"] in \<open>auto simp: list_all_iff well_formed_def\<close>)
  then have split: "split (on_payload env c) MAX_PAYLOAD (c_split (conns s ! c), s) (concat fs) = ((\<lparr>accum = Some [], failed = False\<rparr>, ?d), None)"
    using assms(2,3) by (auto simp: split_def s_def [symmetric] split_loop.simps [of _ _ "[]"])
  have d: "reading c ?d"
    using r w
  proof (induction ps arbitrary: s)
    case (Cons p ps)
    have "reading c (fst (on_payload env c s p))"
      using payload_step [of c s "\<lambda>_. True" p env] payload_acks [OF calm, of p c s] Cons.prems by simp
    then show ?case using Cons.IH Cons.prems(2) by simp
  qed simp
  have "t1_run (es @ [SockData env c (concat fs)]) = set_conn c (\<lambda>x. x\<lparr>c_split := \<lparr>accum = Some [], failed = False\<rparr>\<rparr>) ?d"
    using assms(1) by (simp add: t1_run_def) (simp add: t1_run_def [symmetric] s_def [symmetric] on_data_def split Let_def)
  then show ?thesis
    using deliver_acks [OF calm w, of c s] d by (simp add: Let_def s_def [symmetric] conn_set reading_def)
qed

lemma thinq1_requests_acknowledged_witness:
  "let env = \<lparr>parse_request = (\<lambda>p. if p = [1] then Some (JObj [(''Header'', JObj [(''x-lgedm-deviceId'', JStr ''a'')])]) else None),
      unbase64 = (\<lambda>_. []), known_meta = (\<lambda>_. None), listener_throws = (\<lambda>_. False)\<rparr>;
     t = t1_run [Accept, SockData env 0 (concat [[0, 0, 0, 1, 1], [0, 0, 0, 1, 1]])] in
   acks 0 (t1_log t) = concat (map (reply env) [[1], [1]]) \<and> length (acks 0 (t1_log t)) = 2"
proof -
  define env where "env = \<lparr>parse_request = (\<lambda>p. if p = [1 :: byte] then Some (JObj [(''Header'', JObj [(''x-lgedm-deviceId'', JStr ''a'')])]) else None),
      unbase64 = (\<lambda>_. []), known_meta = (\<lambda>_. None), listener_throws = (\<lambda>_. False)\<rparr>"
  have f: "flowing 0 (t1_run [Accept])" "c_split (conns (t1_run [Accept]) ! 0) = init_splitter" "t1_log (t1_run [Accept]) = []"
    by (simp_all add: t1_run_def new_t1_def accept1_def flowing_def live_def)
  have e: "\<not> listener_throws env x" "list_all (well_formed env) [[1], [1]]" "length (concat (map (reply env) [[1], [1]])) = 2" for x
    by (simp_all add: env_def well_formed_def request_id_def MAX_PAYLOAD_def reply_def body_field_def)
  have "list_all2 (\<lambda>p f. Framing.make p = (Inr f :: t1_error frame_error + buffer)) [[1], [1]] [[0, 0, 0, 1, 1], [0, 0, 0, 1, 1]]" by (simp add: Framing.make_def)
  from thinq1_requests_acknowledged [OF f(1) _ _ e(1,2) this] show ?thesis
    using e(3) f unfolding Let_def env_def [symmetric] by (simp add: init_splitter_def)
qed

end
