(* ===== verification/HaBridge.thy ===== *)
theory HaBridge
  imports Registry
begin

text \<open>
  The handlers of Home Assistant: the class \<open>Bridge\<close> of \<open>cloud/ha_bridge.ts\<close>. A handler is its place
  in \<open>handlers\<close>; its class is the name the tables give it. The events are a new device, the close of
  a device, a grace timer, and what Home Assistant asks. A timer is its number; one that was cleared
  is not in \<open>timers\<close> and never fires. What is done to handlers, in order, is \<open>ha_calls\<close>.
\<close>

text \<open>\<open>t1deviceTypes\<close> and \<open>t2deviceTypes\<close>: model and handler class.\<close>

definition t1deviceTypes :: "(string \<times> string) list" where
  "t1deviceTypes = [(''WTDN3'', ''WTDN3''), (''AIR_910604_WW'', ''AIR_910604_WW''), (''DHUM_056905_WW'', ''DHUM_056905_WW_ThinQ1'')]"

definition t2deviceTypes :: "(string \<times> string) list" where
  "t2deviceTypes =
    [(''POT_056905_WW'', ''POT_056905_WW''), (''RAC_056905_WW'', ''RAC_056905_WW''), (''PAC_910604_WW'', ''PAC_910604_WW''),
     (''RAC_0B0001_WW'', ''RAC_056905_WW''), (''WINF_056905_WW'', ''RAC_056905_WW''), (''WIN_056905_WW'', ''WIN_056905_WW''),
     (''DHUM_056905_WW'', ''DHUM_056905_WW''), (''2REF11EIDA__4'', ''Dev_2REF11EIDA__4''), (''2REF11EBIVPC4'', ''Dev_2REF11EBIVPC4''),
     (''2REF12EJIS__2'', ''Dev_2REF12EJIS__2''), (''2RES1VE61NFA2'', ''Dev_2RES1VE61NFA2''), (''2REB1GLVB1__2'', ''Dev_2REB1GLVB1__2''),
     (''2RES1VE600FWC'', ''Dev_2RES1VE600FWC''), (''2RES2VE300UA2'', ''Dev_2RES2VE300UA2''), (''Y_V8_Y___W.B32QEUK'', ''Y_V8_Y___W_B32QEUK''),
     (''F_V7_Y___W.B_2QEUK'', ''F_V8_Y___W_B_2QEUK''), (''F_V8_Y___W.B_2QEUK'', ''F_V8_Y___W_B_2QEUK''), (''Y_V8_F___W.B_2QEUK'', ''Y_V8_F___W_B_2QEUK''),
     (''F_V__Y___W.B_2QEUK'', ''F_V8_Y___W_B_2QEUK''), (''VCDWL2QEUK'', ''VCDWL2QEUK''), (''F_V__F___W.B_1QEUK'', ''F_V__F___W_B_1QEUK''),
     (''F_VB_F___W.B_2QEUK'', ''F_VB_F___W_B_2QEUK''), (''T1789EFH_F'', ''T1789EFH_F''), (''Hd0C_F'', ''Hd0C_F''),
     (''RV13U6AM8W_D_US_WIFI'', ''RV13U6AM8W_D_US_WIFI''), (''F3L2CYU__'', ''F3L2CYU__''), (''RV13B6BSD_D_US_WIFI'', ''RV13B6BSD_D_US_WIFI''),
     (''F21VDT_AKOR'', ''F21VDT_AKOR''), (''RH16KR'', ''RH16KR''), (''RH16_N_KR'', ''RH16KR''), (''2REK1G03VI1902'', ''Dev_2REK1G03VI1902''),
     (''Pd0F_F'', ''Pd0F_F''), (''D121111'', ''D121111'')]"

record appliance =
  ap_id :: string
  ap_platform :: platform
  ap_modelId :: "string option"
  ap_modelName :: "string option"

record ha_handler =
  hd_id :: string
  hd_device :: nat
  hd_class :: string

datatype ha_call =
    Constructed nat
  | Started nat
  | StopTimers nat
  | Dropped nat
  | PublishConfig nat
  | SetProperty nat string string

record ha_bridge =
  haDevices :: "(string \<times> nat) list"
  pendingDrops :: "string \<rightharpoonup> nat \<times> nat"
  timers :: "(nat \<times> nat) list"
  next_timer :: nat
  handlers :: "ha_handler list"
  ha_calls :: "ha_call list"

definition new_ha_bridge :: ha_bridge where
  "new_ha_bridge = \<lparr>haDevices = [], pendingDrops = Map.empty, timers = [], next_timer = 0, handlers = [], ha_calls = []\<rparr>"

definition call :: "ha_call \<Rightarrow> ha_bridge \<Rightarrow> ha_bridge" where
  "call c b = b\<lparr>ha_calls := ha_calls b @ [c]\<rparr>"

text \<open>A table is asked for the model id, then for the model name.\<close>

definition table_get :: "(string \<times> string) list \<Rightarrow> string option \<Rightarrow> string option" where
  "table_get table k = (case k of None \<Rightarrow> None | Some name \<Rightarrow> map_of table name)"

definition handlerFor :: "(string \<times> string) list \<Rightarrow> appliance \<Rightarrow> string option" where
  "handlerFor table ap =
    (case table_get table (ap_modelId ap) of
       Some c \<Rightarrow> Some c
     | None \<Rightarrow> if ap_modelName ap = Some [] then None else table_get table (ap_modelName ap))"

definition handler_class :: "appliance \<Rightarrow> string option" where
  "handler_class ap = (case ap_platform ap of Thinq1 \<Rightarrow> handlerFor t1deviceTypes ap | Thinq2 \<Rightarrow> handlerFor t2deviceTypes ap)"

definition clear_timer :: "nat \<Rightarrow> ha_bridge \<Rightarrow> ha_bridge" where
  "clear_timer k b = b\<lparr>timers := AList.delete k (timers b)\<rparr>"

definition clear_pending :: "string \<Rightarrow> ha_bridge \<Rightarrow> ha_bridge" where
  "clear_pending i b =
    (case pendingDrops b i of
       None \<Rightarrow> b
     | Some (h, k) \<Rightarrow> (clear_timer k b)\<lparr>pendingDrops := (pendingDrops b)(i := None)\<rparr>)"

definition silence_superseded :: "string \<Rightarrow> ha_bridge \<Rightarrow> ha_bridge" where
  "silence_superseded i b = (case map_of (haDevices b) i of None \<Rightarrow> b | Some old \<Rightarrow> call (StopTimers old) b)"

definition ha_new_device :: "nat \<Rightarrow> appliance \<Rightarrow> ha_bridge \<Rightarrow> ha_bridge" where
  "ha_new_device dev ap b =
    (case handler_class ap of
       None \<Rightarrow> b
     | Some c \<Rightarrow>
         let h = length (handlers b);
             b = b\<lparr>handlers := handlers b @ [\<lparr>hd_id = ap_id ap, hd_device = dev, hd_class = c\<rparr>]\<rparr>;
             b = call (Constructed h) b;
             b = clear_pending (ap_id ap) b;
             b = silence_superseded (ap_id ap) b;
             b = b\<lparr>haDevices := AList.update (ap_id ap) h (haDevices b)\<rparr>
         in call (Started h) b)"

definition drop_device :: "nat \<Rightarrow> ha_bridge \<Rightarrow> ha_bridge" where
  "drop_device h b =
    (let i = hd_id (handlers b ! h) in
     if map_of (haDevices b) i \<noteq> Some h then b
     else
       let b = (case pendingDrops b i of None \<Rightarrow> b | Some (_, k) \<Rightarrow> clear_timer k b);
           k = next_timer b
       in b\<lparr>timers := timers b @ [(k, h)], next_timer := Suc k, pendingDrops := (pendingDrops b)(i \<mapsto> (h, k))\<rparr>)"

text \<open>The timer of \<open>dropDevice\<close>.\<close>

definition grace_over :: "nat \<Rightarrow> ha_bridge \<Rightarrow> ha_bridge" where
  "grace_over k b =
    (case map_of (timers b) k of
       None \<Rightarrow> b
     | Some h \<Rightarrow>
         let i = hd_id (handlers b ! h);
             b = clear_timer k b;
             b = (if map_of (haDevices b) i = Some h then call (Dropped h) (b\<lparr>haDevices := AList.delete i (haDevices b)\<rparr>) else b)
         in if pendingDrops b i = Some (h, k) then b\<lparr>pendingDrops := (pendingDrops b)(i := None)\<rparr> else b)"

definition refreshDiscovery :: "ha_bridge \<Rightarrow> ha_bridge" where
  "refreshDiscovery b = foldl (\<lambda>b h. call (PublishConfig h) b) b (map snd (haDevices b))"

definition ha_set_property :: "string \<Rightarrow> string \<Rightarrow> string \<Rightarrow> ha_bridge \<Rightarrow> ha_bridge" where
  "ha_set_property i prop v b = (case map_of (haDevices b) i of None \<Rightarrow> b | Some h \<Rightarrow> call (SetProperty h prop v) b)"

text \<open>A device's close reaches the handler that was made for it.\<close>

datatype ha_event =
    HaNew nat appliance
  | HaClose nat
  | GraceOver nat
  | Discovery
  | HaSet string string string

fun ha_step :: "ha_bridge \<Rightarrow> ha_event \<Rightarrow> ha_bridge" where
  "ha_step b (HaNew dev ap) = ha_new_device dev ap b"
| "ha_step b (HaClose dev) = foldl (\<lambda>b h. if hd_device (handlers b ! h) = dev then drop_device h b else b) b [0..<length (handlers b)]"
| "ha_step b (GraceOver k) = grace_over k b"
| "ha_step b Discovery = refreshDiscovery b"
| "ha_step b (HaSet i prop v) = ha_set_property i prop v b"

definition ha_run :: "ha_event list \<Rightarrow> ha_bridge" where
  "ha_run es = foldl ha_step new_ha_bridge es"


subsection \<open>The invariant\<close>

definition handler_events :: "ha_call list \<Rightarrow> reg_event list" where
  "handler_events cs = concat (map (\<lambda>c. case c of Started h \<Rightarrow> [Open h] | StopTimers h \<Rightarrow> [Shut h] | Dropped h \<Rightarrow> [Shut h]
    | PublishConfig h \<Rightarrow> [Use h] | SetProperty h _ _ \<Rightarrow> [Use h] | Constructed _ \<Rightarrow> []) cs)"

lemma handler_events_append [simp]: "handler_events (xs @ ys) = handler_events xs @ handler_events ys"
  by (simp add: handler_events_def)

lemma handler_events_Cons [simp]: "handler_events (c # cs) = (case c of Started h \<Rightarrow> [Open h] | StopTimers h \<Rightarrow> [Shut h] | Dropped h \<Rightarrow> [Shut h]
    | PublishConfig h \<Rightarrow> [Use h] | SetProperty h _ _ \<Rightarrow> [Use h] | Constructed _ \<Rightarrow> []) @ handler_events cs" "handler_events [] = []"
  by (simp_all add: handler_events_def)

definition handler_ids :: "ha_bridge \<Rightarrow> string list" where
  "handler_ids b = map hd_id (handlers b)"

definition registered :: "ha_bridge \<Rightarrow> registry" where
  "registered b = map_of (haDevices b)"

definition ha_ok :: "ha_bridge \<Rightarrow> bool" where
  "ha_ok b \<longleftrightarrow>
    distinct (map fst (haDevices b)) \<and>
    reg_run (handler_ids b) Map.empty (handler_events (ha_calls b)) = Some (registered b) \<and>
    distinct (map fst (timers b)) \<and> (\<forall>(k, h) \<in> set (timers b). k < next_timer b) \<and>
    (\<forall>i h k. pendingDrops b i = Some (h, k) \<longrightarrow> (k, h) \<in> set (timers b) \<and> registered b i = Some h) \<and>
    (\<forall>(k, h) \<in> set (timers b). h < length (handlers b) \<and> pendingDrops b (handler_ids b ! h) = Some (h, k))"

lemma ha_okD:
  assumes "ha_ok b"
  shows "distinct (map fst (haDevices b))" "reg_run (handler_ids b) Map.empty (handler_events (ha_calls b)) = Some (registered b)"
    "distinct (map fst (timers b))" "(k, h) \<in> set (timers b) \<Longrightarrow> k < next_timer b"
    "pendingDrops b i = Some (h, k) \<Longrightarrow> (k, h) \<in> set (timers b)" "pendingDrops b i = Some (h, k) \<Longrightarrow> registered b i = Some h"
    "(k, h) \<in> set (timers b) \<Longrightarrow> h < length (handlers b)"
    "(k, h) \<in> set (timers b) \<Longrightarrow> pendingDrops b (handler_ids b ! h) = Some (h, k)"
  using assms unfolding ha_ok_def by fast+

lemma ha_okI:
  assumes "distinct (map fst (haDevices b))" "reg_run (handler_ids b) Map.empty (handler_events (ha_calls b)) = Some (registered b)"
    "distinct (map fst (timers b))" "\<And>k h. (k, h) \<in> set (timers b) \<Longrightarrow> k < next_timer b"
    "\<And>i h k. pendingDrops b i = Some (h, k) \<Longrightarrow> (k, h) \<in> set (timers b)"
    "\<And>i h k. pendingDrops b i = Some (h, k) \<Longrightarrow> registered b i = Some h"
    "\<And>k h. (k, h) \<in> set (timers b) \<Longrightarrow> h < length (handlers b)"
    "\<And>k h. (k, h) \<in> set (timers b) \<Longrightarrow> pendingDrops b (handler_ids b ! h) = Some (h, k)"
  shows "ha_ok b"
  using assms unfolding ha_ok_def by fast

lemma registered_id: "ha_ok b \<Longrightarrow> registered b i = Some h \<Longrightarrow> h < length (handlers b) \<and> handler_ids b ! h = i"
  using reg_run_own [OF ha_okD(2)] by (fastforce simp: handler_ids_def)

lemma call_fields [simp]:
  "haDevices (call c b) = haDevices b" "pendingDrops (call c b) = pendingDrops b" "timers (call c b) = timers b"
  "next_timer (call c b) = next_timer b" "handlers (call c b) = handlers b" "ha_calls (call c b) = ha_calls b @ [c]"
  "registered (call c b) = registered b" "handler_ids (call c b) = handler_ids b"
  by (simp_all add: call_def registered_def handler_ids_def)

lemma ok_call:
  assumes "ha_ok b" "reg_run (handler_ids b) (registered b) (handler_events [c]) = Some (registered b)"
  shows "ha_ok (call c b)"
  by (rule ha_okI) (use ha_okD [OF assms(1)] assms(2) in \<open>auto simp: reg_run_append\<close>)

text \<open>Taking a timer that is pending away.\<close>

lemma ok_clear_pending:
  assumes "ha_ok b"
  shows "ha_ok (clear_pending i b)" "pendingDrops (clear_pending i b) i = None"
    "haDevices (clear_pending i b) = haDevices b" "handlers (clear_pending i b) = handlers b"
    "ha_calls (clear_pending i b) = ha_calls b" "next_timer (clear_pending i b) = next_timer b"
proof -
  have "ha_ok (clear_pending i b) \<and> pendingDrops (clear_pending i b) i = None \<and>
    haDevices (clear_pending i b) = haDevices b \<and> handlers (clear_pending i b) = handlers b \<and>
    ha_calls (clear_pending i b) = ha_calls b \<and> next_timer (clear_pending i b) = next_timer b"
  proof (cases "pendingDrops b i")
    case None
    then show ?thesis using assms by (simp add: clear_pending_def)
  next
    case (Some p)
    obtain h k where p: "p = (h, k)" by (cases p)
    note o = ha_okD [OF assms]
    have hk: "(k, h) \<in> set (timers b)" "registered b i = Some h" using o(5,6) Some p by auto
    let ?b = "clear_pending i b"
    have b: "?b = b\<lparr>timers := AList.delete k (timers b), pendingDrops := (pendingDrops b)(i := None)\<rparr>"
      using Some by (simp add: clear_pending_def clear_timer_def p)
    have t: "(k', h') \<in> set (timers ?b) \<longleftrightarrow> (k', h') \<in> set (timers b) \<and> k' \<noteq> k" for k' h'
      by (auto simp: b AList.delete_eq)
    have ids: "handler_ids ?b = handler_ids b" "registered ?b = registered b" by (simp_all add: b handler_ids_def registered_def)
    have i: "handler_ids b ! h = i" using registered_id [OF assms hk(2)] by blast
    have "ha_ok ?b"
    proof (rule ha_okI)
      show "(k', h') \<in> set (timers ?b)" if "pendingDrops ?b j = Some (h', k')" for j h' k'
      proof -
        have j: "j \<noteq> i" "pendingDrops b j = Some (h', k')" using that by (auto simp: b split: if_splits)
        then have "handler_ids b ! h' = j" using o(6) registered_id [OF assms] by blast
        moreover have "h' = h" if "k' = k" using eq_key_imp_eq_value [OF o(3)] o(5) [OF j(2)] hk(1) that by blast
        ultimately show ?thesis using o(5) [OF j(2)] j(1) i t by blast
      qed
      show "pendingDrops ?b (handler_ids ?b ! h') = Some (h', k')" if "(k', h') \<in> set (timers ?b)" for k' h'
      proof -
        have m: "(k', h') \<in> set (timers b)" "k' \<noteq> k" using that t by auto
        then have "handler_ids b ! h' \<noteq> i" using o(8) [OF m(1)] Some p by auto
        then show ?thesis using o(8) [OF m(1)] by (simp add: ids) (simp add: b)
      qed
      show "distinct (map fst (timers ?b))" using o(3) by (simp add: b distinct_delete)
      show "registered ?b j = Some h'" if "pendingDrops ?b j = Some (h', k')" for j h' k'
        using that o(6) by (auto simp: ids) (auto simp: b split: if_splits)
    qed (use o t ids in \<open>auto simp: b\<close>)
    then show ?thesis by (simp add: b)
  qed
  then show "ha_ok (clear_pending i b)" "pendingDrops (clear_pending i b) i = None"
    "haDevices (clear_pending i b) = haDevices b" "handlers (clear_pending i b) = handlers b"
    "ha_calls (clear_pending i b) = ha_calls b" "next_timer (clear_pending i b) = next_timer b" by blast+
qed


lemma ok_new_handler:
  assumes "ha_ok b"
  shows "ha_ok (b\<lparr>handlers := handlers b @ [x]\<rparr>)"
proof (rule ha_okI)
  note o = ha_okD [OF assms]
  let ?b = "b\<lparr>handlers := handlers b @ [x]\<rparr>"
  have ids: "handler_ids ?b = handler_ids b @ [hd_id x]" "registered ?b = registered b"
    by (simp_all add: handler_ids_def registered_def)
  show "reg_run (handler_ids ?b) Map.empty (handler_events (ha_calls ?b)) = Some (registered ?b)"
    using o(2) by (simp add: ids reg_run_more)
  show "pendingDrops ?b (handler_ids ?b ! h) = Some (h, k)" if "(k, h) \<in> set (timers ?b)" for k h
    using that o(7,8) [of k h] by (simp add: ids nth_append handler_ids_def)
  show "h < length (handlers ?b)" if "(k, h) \<in> set (timers ?b)" for k h
    using that o(7) [of k h] by simp
qed (use ha_okD [OF assms] in \<open>simp_all add: registered_def\<close>)

lemma map_of_update: "map_of (AList.update k v xs) = (map_of xs)(k \<mapsto> v)"
  by (rule update_conv')

text \<open>Registering the handler that was just made, in the place of the one that is silenced.\<close>

definition install :: "string \<Rightarrow> nat \<Rightarrow> ha_bridge \<Rightarrow> ha_bridge" where
  "install i h b = call (Started h) ((silence_superseded i b)\<lparr>haDevices := AList.update i h (haDevices (silence_superseded i b))\<rparr>)"

lemma ok_install:
  assumes "ha_ok b" "pendingDrops b i = None" "h < length (handlers b)" "handler_ids b ! h = i"
  shows "ha_ok (install i h b)"
proof (rule ha_okI)
  note o = ha_okD [OF assms(1)]
  let ?b = "install i h b"
  have f: "haDevices ?b = AList.update i h (haDevices b)" "pendingDrops ?b = pendingDrops b" "timers ?b = timers b"
    "next_timer ?b = next_timer b" "handlers ?b = handlers b" "handler_ids ?b = handler_ids b" "registered ?b = (registered b)(i \<mapsto> h)"
    by (simp_all add: install_def silence_superseded_def call_def handler_ids_def registered_def map_of_update split: option.split)
  have calls: "ha_calls ?b = ha_calls b @ (case registered b i of None \<Rightarrow> [] | Some old \<Rightarrow> [StopTimers old]) @ [Started h]"
    by (simp add: install_def silence_superseded_def call_def registered_def split: option.split)
  show "reg_run (handler_ids ?b) Map.empty (handler_events (ha_calls ?b)) = Some (registered ?b)"
  proof (cases "registered b i")
    case None
    then show ?thesis using o(2) assms(3,4) by (simp add: f calls reg_run_append handler_ids_def)
  next
    case (Some old)
    then have "is_open (handler_ids b) old (registered b)" "handler_ids b ! old = i"
      using registered_id [OF assms(1) Some] by (auto simp: is_open_def handler_ids_def)
    then show ?thesis using o(2) assms(3,4) Some by (simp add: f calls reg_run_append handler_ids_def)
  qed
  show "registered ?b j = Some h'" if "pendingDrops ?b j = Some (h', k)" for j h' k
    using that o(6) assms(2) by (auto simp: f)
  show "distinct (map fst (haDevices ?b))" using o(1) by (simp add: f distinct_update)
  show "distinct (map fst (timers ?b))" using o(3) by (simp add: f)
  show "k < next_timer ?b" "h' < length (handlers ?b)" "pendingDrops ?b (handler_ids ?b ! h') = Some (h', k)"
    if "(k, h') \<in> set (timers ?b)" for k h' using that o(4,7,8) [of k h'] by (simp_all add: f)
  show "(k, h') \<in> set (timers ?b)" if "pendingDrops ?b j = Some (h', k)" for j h' k using that o(5) by (simp add: f)
qed

lemma ok_ha_new: "ha_ok b \<Longrightarrow> ha_ok (ha_new_device dev ap b)"
proof -
  assume ok: "ha_ok b"
  show ?thesis
  proof (cases "handler_class ap")
    case None
    then show ?thesis using ok by (simp add: ha_new_device_def)
  next
    case (Some c)
    let ?h = "length (handlers b)" and ?i = "ap_id ap"
    let ?b = "call (Constructed ?h) (b\<lparr>handlers := handlers b @ [\<lparr>hd_id = ?i, hd_device = dev, hd_class = c\<rparr>]\<rparr>)"
    have b: "ha_ok ?b" by (intro ok_call ok_new_handler ok) simp
    note c = ok_clear_pending [OF b, of ?i]
    have "ha_ok (install ?i ?h (clear_pending ?i ?b))"
      using c(1,2) by (rule ok_install) (simp_all add: c(4) handler_ids_def nth_append)
    then show ?thesis using Some by (simp add: ha_new_device_def Let_def install_def)
  qed
qed

text \<open>Scheduling a drop, and the timer that carries it out.\<close>

definition schedule :: "nat \<Rightarrow> ha_bridge \<Rightarrow> ha_bridge" where
  "schedule h b = b\<lparr>timers := timers b @ [(next_timer b, h)], next_timer := Suc (next_timer b),
    pendingDrops := (pendingDrops b)(hd_id (handlers b ! h) \<mapsto> (h, next_timer b))\<rparr>"

lemma drop_device_eq:
  "drop_device h b = (if registered b (hd_id (handlers b ! h)) = Some h then schedule h (clear_pending (hd_id (handlers b ! h)) b) else b)"
  by (simp add: drop_device_def schedule_def clear_pending_def clear_timer_def registered_def Let_def split: option.split prod.split)

lemma ok_schedule:
  assumes "ha_ok b" "registered b (hd_id (handlers b ! h)) = Some h" "pendingDrops b (hd_id (handlers b ! h)) = None"
  shows "ha_ok (schedule h b)"
proof (rule ha_okI)
  note o = ha_okD [OF assms(1)]
  let ?b = "schedule h b" and ?i = "hd_id (handlers b ! h)"
  have h: "h < length (handlers b)" "handler_ids b ! h = ?i" using registered_id [OF assms(1,2)] by auto
  have ids: "handler_ids ?b = handler_ids b" "registered ?b = registered b" by (simp_all add: schedule_def handler_ids_def registered_def)
  show "distinct (map fst (timers ?b))" using o(3,4) by (fastforce simp: schedule_def)
  show "k < next_timer ?b" if "(k, h') \<in> set (timers ?b)" for k h' using that o(4) [of k h'] by (auto simp: schedule_def)
  show "(k, h') \<in> set (timers ?b)" if "pendingDrops ?b j = Some (h', k)" for j h' k
    using that o(5) by (auto simp: schedule_def split: if_splits)
  show "registered ?b j = Some h'" if "pendingDrops ?b j = Some (h', k)" for j h' k
    using that o(6) assms(2) unfolding ids by (auto simp: schedule_def split: if_splits)
  show "h' < length (handlers ?b)" if "(k, h') \<in> set (timers ?b)" for k h' using that o(7) h(1) by (auto simp: schedule_def)
  show "pendingDrops ?b (handler_ids ?b ! h') = Some (h', k)" if "(k, h') \<in> set (timers ?b)" for k h'
    using that o(8) [of k h'] assms(3) h unfolding ids by (auto simp: schedule_def)
  show "reg_run (handler_ids ?b) Map.empty (handler_events (ha_calls ?b)) = Some (registered ?b)"
    using o(2) unfolding ids by (simp add: schedule_def)
  show "distinct (map fst (haDevices ?b))" using o(1) by (simp add: schedule_def)
qed

lemma ok_drop_device: "ha_ok b \<Longrightarrow> ha_ok (drop_device h b)"
proof -
  assume ok: "ha_ok b"
  let ?i = "hd_id (handlers b ! h)"
  note c = ok_clear_pending [OF ok, of ?i]
  have "registered (clear_pending ?i b) = registered b" by (simp add: registered_def c(3))
  then show ?thesis unfolding drop_device_eq
    using ok by (auto intro!: ok_schedule c(1) simp: c(2,4))
qed

lemma grace_over_eq:
  assumes "ha_ok b" "map_of (timers b) k = Some h"
  defines "i \<equiv> hd_id (handlers b ! h)"
  shows "grace_over k b = call (Dropped h) ((clear_pending i b)\<lparr>haDevices := AList.delete i (haDevices b)\<rparr>)"
    "pendingDrops b i = Some (h, k)" "registered b i = Some h"
proof -
  note o = ha_okD [OF assms(1)]
  have m: "(k, h) \<in> set (timers b)" using assms(2) by (rule map_of_SomeD)
  have i: "handler_ids b ! h = i" using o(7) [OF m] by (simp add: handler_ids_def i_def)
  show p: "pendingDrops b i = Some (h, k)" using o(8) [OF m] i by simp
  show r: "registered b i = Some h" using o(6) [OF p] .
  show "grace_over k b = call (Dropped h) ((clear_pending i b)\<lparr>haDevices := AList.delete i (haDevices b)\<rparr>)"
    using r assms(2) p
    by (simp add: grace_over_def Let_def i_def clear_timer_def clear_pending_def call_def registered_def)
qed

lemma ok_grace_over:
  assumes "ha_ok b"
  shows "ha_ok (grace_over k b)"
proof (cases "map_of (timers b) k")
  case None
  then show ?thesis using assms by (simp add: grace_over_def)
next
  case (Some h)
  let ?i = "hd_id (handlers b ! h)"
  note eq = grace_over_eq [OF assms Some]
  note c = ok_clear_pending [OF assms, of ?i] and o = ha_okD [OF ok_clear_pending(1) [OF assms, of ?i]]
  let ?c = "clear_pending ?i b"
  let ?b = "call (Dropped h) (?c\<lparr>haDevices := AList.delete ?i (haDevices b)\<rparr>)"
  have f: "haDevices ?b = AList.delete ?i (haDevices b)" "registered ?b = (registered b)(?i := None)" "registered ?c = registered b"
    "handler_ids ?b = handler_ids b" "handler_ids ?c = handler_ids b" "pendingDrops ?b = pendingDrops ?c" "timers ?b = timers ?c"
    "next_timer ?b = next_timer ?c" "handlers ?b = handlers b"
    by (simp_all add: registered_def handler_ids_def c(3,4) call_def delete_conv')
  have "ha_ok ?b"
  proof (rule ha_okI)
    have "is_open (handler_ids b) h (registered b)" "handler_ids b ! h = ?i"
      using registered_id [OF assms eq(3)] eq(3) by (auto simp: is_open_def handler_ids_def)
    then show "reg_run (handler_ids ?b) Map.empty (handler_events (ha_calls ?b)) = Some (registered ?b)"
      using o(2) unfolding f by (simp add: f reg_run_append)
    show "registered ?b j = Some h'" if "pendingDrops ?b j = Some (h', k')" for j h' k'
      using that o(6) [of j h' k'] c(2) unfolding f by auto
    show "distinct (map fst (haDevices ?b))" using ha_okD(1) [OF assms] by (simp add: f distinct_delete)
    show "pendingDrops ?b (handler_ids ?b ! h') = Some (h', k')" if "(k', h') \<in> set (timers ?b)" for k' h'
      using that o(8) [of k' h'] unfolding f by simp
  qed (use o c(4) in \<open>auto simp: f\<close>)
  then show ?thesis by (simp add: eq(1))
qed


lemma ok_publishing:
  "ha_ok b \<Longrightarrow> set hs \<subseteq> ran (registered b) \<Longrightarrow> ha_ok (foldl (\<lambda>b h. call (PublishConfig h) b) b hs)"
proof (induction hs arbitrary: b)
  case Nil
  then show ?case by simp
next
  case (Cons h hs)
  then obtain i where i: "registered b i = Some h" by (auto simp: ran_def)
  then have "ha_ok (call (PublishConfig h) b)"
    using registered_id [OF Cons.prems(1) i] Cons.prems(1) by (intro ok_call) (simp_all add: is_open_def handler_ids_def)
  then show ?case using Cons by simp
qed

lemma fold_closing:
  assumes "\<And>b h. P b \<Longrightarrow> P (drop_device h b)" "P b"
  shows "P (foldl (\<lambda>b h. if hd_device (handlers b ! h) = dev then drop_device h b else b) b hs)"
  using assms(2) by (induction hs arbitrary: b) (auto intro: assms(1))

lemma ok_ha_step: "ha_ok b \<Longrightarrow> ha_ok (ha_step b e)"
proof (induction b e rule: ha_step.induct)
  case (4 b)
  note ok = "4"
  then have "set (map snd (haDevices b)) \<subseteq> ran (registered b)"
    using ha_okD(1) [OF ok] by (auto simp: registered_def ran_distinct)
  then show ?case using ok_publishing [OF ok] by (simp add: refreshDiscovery_def)
next
  case (5 b i q v)
  note ok = "5"
  show ?case
  proof (cases "map_of (haDevices b) i")
    case (Some h)
    then have "registered b i = Some h" by (simp add: registered_def)
    from registered_id [OF ok this] this show ?thesis
      using ok Some by (auto simp: ha_set_property_def is_open_def handler_ids_def intro!: ok_call)
  qed (simp add: ok ha_set_property_def)
qed (auto intro: ok_ha_new ok_grace_over fold_closing [of ha_ok] ok_drop_device)

lemma ok_ha_run: "ha_ok (ha_run es)"
proof -
  have "ha_ok (foldl ha_step b es)" if "ha_ok b" for b
    using that by (induction es arbitrary: b) (auto intro: ok_ha_step)
  moreover have "ha_ok new_ha_bridge" by (simp add: ha_ok_def new_ha_bridge_def registered_def)
  ultimately show ?thesis unfolding ha_run_def by blast
qed

interpretation ha: registry handler_ids "\<lambda>b. handler_events (ha_calls b)" registered ha_ok
  by unfold_locales (rule ha_okD(2))

subsection \<open>Properties\<close>

text \<open>
  C4. One voice per appliance: under every order of connections, closes, timers and requests an
  identifier has at most one handler at work. A handler is started after the one it replaces was
  silenced, is asked to publish or to set something only while it is registered, and is silenced or
  dropped once; the registered handlers are those at work.
\<close>

theorem one_handler_per_appliance:
  "reg_run (handler_ids (ha_run es)) Map.empty (handler_events (ha_calls (ha_run es))) = Some (registered (ha_run es))"
  by (rule ha.keeps [OF ok_ha_run])

definition drop_due :: "ha_bridge \<Rightarrow> ha_event \<Rightarrow> ha_call \<Rightarrow> bool" where
  "drop_due b e c \<longleftrightarrow> (case c of
     Dropped h \<Rightarrow> (\<exists>k. e = GraceOver k \<and> pendingDrops b (handler_ids b ! h) = Some (h, k) \<and> registered b (handler_ids b ! h) = Some h)
   | _ \<Rightarrow> True)"

definition appends :: "(ha_call \<Rightarrow> bool) \<Rightarrow> ha_bridge \<Rightarrow> ha_bridge \<Rightarrow> bool" where
  "appends P b c \<longleftrightarrow> (\<exists>cs. ha_calls c = ha_calls b @ cs \<and> list_all P cs)"

lemma appends_same: "ha_calls c = ha_calls b \<Longrightarrow> appends P b c"
  by (simp add: appends_def)

lemma appends_trans: "appends P a b \<Longrightarrow> appends P b c \<Longrightarrow> appends P a c"
  by (force simp: appends_def)

lemma calls_drop_device: "ha_calls (drop_device h b) = ha_calls b"
  by (simp add: drop_device_eq schedule_def clear_pending_def clear_timer_def split: option.split prod.split)

lemma calls_publishing: "ha_calls (foldl (\<lambda>b h. call (PublishConfig h) b) b hs) = ha_calls b @ map PublishConfig hs"
  by (induction hs arbitrary: b) simp_all

text \<open>
  An appliance is published offline only by a grace timer that ran out: the handler was then the
  registered one of its identifier, and its drop was the one pending. A handler that was replaced in
  time is never dropped.
\<close>

theorem offline_only_after_grace:
  "list_all (drop_due (ha_run es) e) (drop (length (ha_calls (ha_run es))) (ha_calls (ha_run (es @ [e]))))"
proof -
  let ?b = "ha_run es"
  have "appends (drop_due ?b e) ?b (ha_step ?b e)"
  proof (cases e)
    case (HaNew dev ap)
    show ?thesis
      by (simp add: HaNew appends_def ha_new_device_def Let_def silence_superseded_def clear_pending_def clear_timer_def call_def drop_due_def
          split: option.split prod.split)
  next
    case (HaClose dev)
    have "ha_calls (foldl (\<lambda>b h. if hd_device (handlers b ! h) = dev then drop_device h b else b) b hs) = ha_calls b" for b hs
      by (induction hs arbitrary: b) (simp_all add: calls_drop_device)
    then show ?thesis by (simp add: HaClose appends_same)
  next
    case (GraceOver k)
    show ?thesis
    proof (cases "map_of (timers ?b) k")
      case None
      then show ?thesis by (simp add: GraceOver grace_over_def appends_def)
    next
      case (Some h)
      note eq = grace_over_eq [OF ok_ha_run Some]
      have "h < length (handlers ?b)" using ha_okD(7) [OF ok_ha_run map_of_SomeD [OF Some]] .
      then have "handler_ids ?b ! h = hd_id (handlers ?b ! h)" by (simp add: handler_ids_def)
      then show ?thesis
        using eq(2,3) ok_clear_pending(5) [OF ok_ha_run] by (simp add: GraceOver eq(1) appends_def drop_due_def)
    qed
  next
    case Discovery
    then show ?thesis by (simp add: refreshDiscovery_def appends_def calls_publishing list_all_iff drop_due_def)
  next
    case (HaSet i q v)
    then show ?thesis by (simp add: ha_set_property_def appends_def drop_due_def split: option.split)
  qed
  moreover have "ha_run (es @ [e]) = ha_step ?b e" by (simp add: ha_run_def)
  ultimately show ?thesis by (auto simp: appends_def)
qed


text \<open>A registered handler of a device that closed waits for its drop, until the timers have run.\<close>

definition waits :: "nat \<Rightarrow> ha_bridge \<Rightarrow> bool" where
  "waits dev b \<longleftrightarrow> (\<forall>i h. registered b i = Some h \<longrightarrow> hd_device (handlers b ! h) = dev \<longrightarrow> pendingDrops b i \<noteq> None)"

lemma drop_device_fields:
  assumes "ha_ok b"
  shows "registered (drop_device h b) = registered b" "handlers (drop_device h b) = handlers b"
    "pendingDrops b i \<noteq> None \<Longrightarrow> pendingDrops (drop_device h b) i \<noteq> None"
    "registered b (hd_id (handlers b ! h)) = Some h \<Longrightarrow> pendingDrops (drop_device h b) (hd_id (handlers b ! h)) \<noteq> None"
  by (auto simp: drop_device_eq schedule_def registered_def clear_pending_def clear_timer_def split: option.split prod.split)

lemma closing_waits:
  assumes "ha_ok b"
  shows "waits dev (ha_step b (HaClose dev))"
proof -
  let ?f = "\<lambda>b h. if hd_device (handlers b ! h) = dev then drop_device h b else b"
  let ?Q = "\<lambda>hs c. ha_ok c \<and> registered c = registered b \<and> handlers c = handlers b \<and>
    (\<forall>h \<in> set hs. hd_device (handlers b ! h) = dev \<longrightarrow> registered b (hd_id (handlers b ! h)) = Some h \<longrightarrow>
       pendingDrops c (hd_id (handlers b ! h)) \<noteq> None)"
  have "?Q hs (foldl ?f b hs)" for hs
  proof (induction hs rule: rev_induct)
    case Nil
    then show ?case using assms by simp
  next
    case (snoc h hs)
    let ?c = "foldl ?f b hs"
    have ok: "ha_ok ?c" using snoc.IH by blast
    show ?case using snoc.IH drop_device_fields [OF ok, where h = h] ok_drop_device [OF ok, of h] by auto
  qed
  then have q: "?Q [0..<length (handlers b)] (ha_step b (HaClose dev))" by simp
  show ?thesis
    unfolding waits_def
  proof (intro allI impI)
    fix i h assume r: "registered (ha_step b (HaClose dev)) i = Some h" "hd_device (handlers (ha_step b (HaClose dev)) ! h) = dev"
    then have "registered b i = Some h" using q by simp
    from registered_id [OF assms this] this show "pendingDrops (ha_step b (HaClose dev)) i \<noteq> None"
      using q r(2) by (auto simp: handler_ids_def)
  qed
qed

lemma grace_over_fields:
  assumes "ha_ok b"
  shows "timers (grace_over k b) = AList.delete k (timers b)" "handlers (grace_over k b) = handlers b"
    "waits dev b \<Longrightarrow> waits dev (grace_over k b)"
proof -
  have "timers (grace_over k b) = AList.delete k (timers b) \<and> handlers (grace_over k b) = handlers b \<and> (waits dev b \<longrightarrow> waits dev (grace_over k b))"
  proof (cases "map_of (timers b) k")
    case None
    then have "AList.delete k (timers b) = timers b" by (simp add: delete_idem map_of_eq_None_iff)
    then show ?thesis using None by (simp add: grace_over_def)
  next
    case (Some h)
    let ?i = "hd_id (handlers b ! h)"
    note eq = grace_over_eq [OF assms Some] and c = ok_clear_pending [OF assms, of ?i]
    have p: "pendingDrops (clear_pending ?i b) j = (if j = ?i then None else pendingDrops b j)" for j
      by (simp add: clear_pending_def clear_timer_def split: option.split prod.split)
    have "registered (grace_over k b) = (registered b)(?i := None)"
      by (simp add: eq(1) registered_def call_def delete_conv')
    moreover have "timers (grace_over k b) = AList.delete k (timers b)"
      using eq(2) by (simp add: eq(1) clear_pending_def clear_timer_def)
    ultimately show ?thesis using c(4) p by (auto simp: waits_def eq(1))
  qed
  then show "timers (grace_over k b) = AList.delete k (timers b)" "handlers (grace_over k b) = handlers b"
    "waits dev b \<Longrightarrow> waits dev (grace_over k b)" by blast+
qed

lemma all_graces_over:
  "ha_ok b \<Longrightarrow> waits dev b \<Longrightarrow> set (map fst (timers b)) \<subseteq> set ks \<Longrightarrow>
    let c = foldl ha_step b (map GraceOver ks) in ha_ok c \<and> waits dev c \<and> timers c = [] \<and> handlers c = handlers b"
proof (induction ks arbitrary: b)
  case Nil
  then show ?case by simp
next
  case (Cons k ks)
  note g = grace_over_fields [OF Cons.prems(1), where k = k]
  have "set (map fst (timers (grace_over k b))) \<subseteq> set ks" using Cons.prems(3) by (auto simp: g(1) AList.delete_eq)
  from Cons.IH [OF ok_grace_over [OF Cons.prems(1)] g(3) [OF Cons.prems(2)] this] show ?case by (simp add: g(2))
qed

text \<open>
  C7. A device that went away does not stay online: when it has closed and the grace timers then
  running have run out, no registered handler stands for it, and every handler made for it has been
  silenced or dropped.
\<close>

theorem disconnected_goes_offline:
  "let b = ha_run (es @ [HaClose dev]); c = ha_run (es @ [HaClose dev] @ map (GraceOver \<circ> fst) (timers b)) in
     list_all (\<lambda>(i, h). hd_device (handlers c ! h) \<noteq> dev) (haDevices c) \<and>
     list_all (\<lambda>h. hd_device (handlers c ! h) \<noteq> dev \<or> Open h \<notin> set (handler_events (ha_calls c)) \<or>
       Shut h \<in> set (handler_events (ha_calls c))) [0..<length (handlers c)]"
proof -
  define b where "b = ha_run (es @ [HaClose dev])"
  define c where "c = ha_run (es @ [HaClose dev] @ map (GraceOver \<circ> fst) (timers b))"
  have b: "b = ha_step (ha_run es) (HaClose dev)" by (simp add: b_def ha_run_def)
  have c: "c = foldl ha_step b (map GraceOver (map fst (timers b)))"
    by (simp add: c_def b_def ha_run_def)
  have ok: "ha_ok b" "ha_ok c" unfolding b_def c_def by (rule ok_ha_run)+
  have "waits dev b" unfolding b by (rule closing_waits [OF ok_ha_run])
  from all_graces_over [OF ok(1) this subset_refl] have w: "waits dev c" "timers c = []" by (simp_all add: c Let_def)
  have none: "pendingDrops c i = None" for i using ha_okD(5) [OF ok(2), of i] w(2) by (cases "pendingDrops c i") auto
  have reg: "hd_device (handlers c ! h) \<noteq> dev" if "registered c i = Some h" for i h
    using w(1) none that unfolding waits_def by blast
  have "list_all (\<lambda>(i, h). hd_device (handlers c ! h) \<noteq> dev) (haDevices c)"
    using reg ha_okD(1) [OF ok(2)] by (fastforce simp: list_all_iff registered_def)
  moreover have "Shut h \<in> set (handler_events (ha_calls c))"
    if "hd_device (handlers c ! h) = dev" "Open h \<in> set (handler_events (ha_calls c))" for h
  proof (rule ccontr)
    assume s: "Shut h \<notin> set (handler_events (ha_calls c))"
    note op = that(2)
    obtain as bs where split: "handler_events (ha_calls c) = as @ Open h # bs" using split_list [OF op] by blast
    then obtain m where m: "reg_run (handler_ids c) m bs = Some (registered c)" "is_open (handler_ids c) h m"
      using ha_okD(2) [OF ok(2)] by (auto simp: reg_run_append is_open_def split: option.splits if_splits)
    have "is_open (handler_ids c) h (registered c)" using reg_run_still_open [OF m] s split by simp
    then show False using reg that(1) by (auto simp: is_open_def)
  qed
  ultimately show ?thesis unfolding Let_def b_def [symmetric] c_def [symmetric] by (auto simp: list_all_iff)
qed

definition demo_appliance :: appliance where
  "demo_appliance = \<lparr>ap_id = ''a'', ap_platform = Thinq2, ap_modelId = Some ''RAC_056905_WW'', ap_modelName = None\<rparr>"

lemma disconnected_goes_offline_witness:
  "let es = [HaNew 0 demo_appliance]; c = ha_run (es @ [HaClose 0, GraceOver 0]) in
     timers (ha_run (es @ [HaClose 0])) = [(0, 0)] \<and> handler_events (ha_calls c) = [Open 0, Shut 0] \<and>
     Shut 0 \<in> set (handler_events (ha_calls c))"
proof -
  let ?es = "[HaNew 0 demo_appliance]"
  have t: "timers (ha_run (?es @ [HaClose 0])) = [(0, 0)]" by code_simp
  have e: "handler_events (ha_calls (ha_run (?es @ [HaClose 0, GraceOver 0]))) = [Open 0, Shut 0]" by code_simp
  have n: "length (handlers (ha_run (?es @ [HaClose 0, GraceOver 0]))) = 1" "hd_device (handlers (ha_run (?es @ [HaClose 0, GraceOver 0])) ! 0) = 0"
    by code_simp+
  show ?thesis
    using disconnected_goes_offline [of ?es 0] t e n by (simp add: Let_def)
qed

end
