(* ===== verification/HaDiscovery.thy ===== *)
theory HaDiscovery
  imports JsValues Complex_Main
begin

text \<open>
  Discovery documents for Home Assistant: their validation (\<open>util/ha_mqtt_validation.ts\<close>), the names of
  entities (\<open>util/entity_naming.ts\<close>), translation (\<open>util/ha_locale.ts\<close>) and the placeholders
  that \<open>cloud/homeassistant.ts\<close> fills in.

  A document is a JavaScript value in memory; a text is the sequence of its bytes in UTF-8. An object is the
  list of its properties in order, without \<open>undefined\<close> ones. Components are objects, as their type says. Of
  the texts that \<open>Number\<close> reads the model knows decimals; the words a set is asked for are never numbers, so
  that the text of a number only has to be no word. Replacements have no dollar sign.
\<close>

subsection \<open>Values\<close>

datatype doc = DNull | DBool bool | DNum rat | DStr string | DArr "doc list" | DObj "(string \<times> doc) list"

type_synonym obj = "(string \<times> doc) list"

definition utf8 :: "nat list \<Rightarrow> string" where "utf8 = map char_of"

definition as_obj :: "doc option \<Rightarrow> obj" where
  "as_obj v = (case v of Some (DObj kvs) \<Rightarrow> kvs | _ \<Rightarrow> [])"

definition doc_truthy :: "doc option \<Rightarrow> bool" where
  "doc_truthy v \<longleftrightarrow> (case v of None \<Rightarrow> False | Some DNull \<Rightarrow> False | Some (DBool b) \<Rightarrow> b | Some (DNum r) \<Rightarrow> r \<noteq> 0 | Some (DStr s) \<Rightarrow> s \<noteq> [] | _ \<Rightarrow> True)"

text \<open>\<open>String(v)\<close>.\<close>

definition show_int :: "int \<Rightarrow> string" where
  "show_int n = (if n < 0 then ''-'' @ show_nat (nat (- n)) else show_nat (nat n))"

definition number_text :: "rat \<Rightarrow> string" where
  "number_text r = (case quotient_of r of (n, d) \<Rightarrow> show_int n @ (if d = 1 then '''' else ''/'' @ show_int d))"

fun js_string :: "doc \<Rightarrow> string" where
  "js_string DNull = ''null''"
| "js_string (DBool b) = (if b then ''true'' else ''false'')"
| "js_string (DNum r) = number_text r"
| "js_string (DStr s) = s"
| "js_string (DArr vs) = join_with CHR '','' (map (\<lambda>v. if v = DNull then '''' else js_string v) vs)"
| "js_string (DObj kvs) = ''[object Object]''"

definition js_string_or_undefined :: "doc option \<Rightarrow> string" where
  "js_string_or_undefined v = (case v of Some d \<Rightarrow> js_string d | None \<Rightarrow> ''undefined'')"

text \<open>\<open>Number(v ?? d)\<close>; \<open>None\<close> is not a finite number.\<close>

definition decimal_number :: "string \<Rightarrow> rat option" where
  "decimal_number text =
    (let t = trim text; neg = t \<noteq> [] \<and> hd t = CHR ''-''; u = (if neg \<or> t \<noteq> [] \<and> hd t = CHR ''+'' then tl t else t);
         whole = takeWhile digit u; rest = drop (length whole) u;
         sign = (if neg then - 1 else 1 :: rat) in
     if t = [] then Some 0
     else if rest = [] \<and> whole \<noteq> [] then Some (sign * of_nat (decimal whole))
     else if rest \<noteq> [] \<and> hd rest = CHR ''.'' \<and> list_all digit (tl rest) \<and> (whole \<noteq> [] \<or> tl rest \<noteq> [])
       then Some (sign * (of_nat (decimal (whole @ tl rest)) / 10 ^ length (tl rest)))
     else None)"

definition js_to_number :: "doc \<Rightarrow> rat option" where
  "js_to_number v = (case v of DNull \<Rightarrow> Some 0 | DBool b \<Rightarrow> Some (if b then 1 else 0) | DNum r \<Rightarrow> Some r | DStr t \<Rightarrow> decimal_number t | _ \<Rightarrow> None)"

definition number_or :: "rat \<Rightarrow> doc option \<Rightarrow> rat option" where
  "number_or d v = (case v of None \<Rightarrow> Some d | Some DNull \<Rightarrow> Some d | Some x \<Rightarrow> js_to_number x)"

subsection \<open>Validation\<close>

definition SUPPORTED_COMPONENTS :: "string list" where
  "SUPPORTED_COMPONENTS = [''alarm_control_panel'', ''binary_sensor'', ''button'', ''camera'', ''climate'', ''cover'', ''date'', ''datetime'',
     ''device_automation'', ''device_tracker'', ''event'', ''fan'', ''humidifier'', ''image'', ''infrared'', ''lawn_mower'', ''light'', ''lock'',
     ''notify'', ''number'', ''scene'', ''select'', ''sensor'', ''siren'', ''switch'', ''tag'', ''text'', ''time'', ''update'', ''vacuum'',
     ''valve'', ''water_heater'']"

definition READ_ONLY_COMPONENTS :: "string list" where "READ_ONLY_COMPONENTS = [''binary_sensor'', ''sensor'']"
definition READ_WRITE_COMPONENTS :: "string list" where "READ_WRITE_COMPONENTS = [''fan'', ''number'', ''select'', ''switch'']"
definition ENTITY_CATEGORIES :: "string list" where "ENTITY_CATEGORIES = [''config'', ''diagnostic'']"
definition AVAILABILITY_MODES :: "string list" where "AVAILABILITY_MODES = [''all'', ''any'', ''latest'']"
definition CLIMATE_MODES :: "string list" where "CLIMATE_MODES = [''off'', ''heat'', ''cool'', ''heat_cool'', ''auto'', ''dry'', ''fan_only'']"
definition CLIMATE_PRECISIONS :: "rat list" where "CLIMATE_PRECISIONS = [1 / 10, 1 / 2, 1]"
definition SENSOR_STATE_CLASSES :: "string list" where "SENSOR_STATE_CLASSES = [''measurement'', ''total'', ''total_increasing'']"

definition MICROGRAMS :: string where "MICROGRAMS = utf8 [0xc2, 0xb5] @ ''g/m'' @ utf8 [0xc2, 0xb3]"
definition DEGREES :: string where "DEGREES = utf8 [0xc2, 0xb0]"

definition SENSOR_DEVICE_CLASS_UNITS :: "(string \<times> string list) list" where
  "SENSOR_DEVICE_CLASS_UNITS = [(''duration'', [''ms'', ''s'', ''min'', ''h'', ''d'']), (''energy'', [''Wh'', ''kWh'']), (''humidity'', [''%'']),
     (''pm1'', [MICROGRAMS]), (''pm10'', [MICROGRAMS]), (''pm25'', [MICROGRAMS]), (''power'', [''mW'', ''W'', ''kW'']),
     (''temperature'', [DEGREES @ ''C'', DEGREES @ ''F'', ''K'']), (''volume'', [''mL'', ''L''])]"

definition nonEmptyString :: "doc option \<Rightarrow> bool" where
  "nonEmptyString v \<longleftrightarrow> (case v of Some (DStr s) \<Rightarrow> s \<noteq> [] | _ \<Rightarrow> False)"

definition concrete :: "string \<Rightarrow> bool" where
  "concrete t \<longleftrightarrow> t \<noteq> [] \<and> CHR 0x00 \<notin> set t \<and> CHR ''+'' \<notin> set t \<and> CHR ''#'' \<notin> set t"

definition validTopic :: "doc option \<Rightarrow> bool" where
  "validTopic v \<longleftrightarrow> (case v of Some (DStr t) \<Rightarrow> concrete t | _ \<Rightarrow> False)"

definition issue_if :: "bool \<Rightarrow> string \<Rightarrow> string list" where
  "issue_if b text = (if b then [text] else [])"

definition validateEnum :: "obj \<Rightarrow> string \<Rightarrow> string \<Rightarrow> string list" where
  "validateEnum part key path =
    (case map_of part key of
       None \<Rightarrow> []
     | Some (DArr values) \<Rightarrow>
         if values = [] \<or> list_ex (\<lambda>v. \<not> nonEmptyString (Some v)) values then [path @ ''.'' @ key @ '' must be a non-empty list of non-empty strings'']
         else issue_if (\<not> distinct values) (path @ ''.'' @ key @ '' contains duplicate values'')
     | Some _ \<Rightarrow> [path @ ''.'' @ key @ '' must be a non-empty list of non-empty strings''])"

definition validate_select_sensor :: "string \<Rightarrow> obj \<Rightarrow> string \<Rightarrow> string list" where
  "validate_select_sensor platform part path =
    (if platform = ''select'' then validateEnum part ''options'' path else []) @
    (if platform = ''sensor'' \<and> map_of part ''options'' \<noteq> None then
       validateEnum part ''options'' path @
       issue_if (map_of part ''device_class'' \<noteq> Some (DStr ''enum'')) (path @ ''.options requires device_class enum'') @
       issue_if (map_of part ''state_class'' \<noteq> None \<or> map_of part ''unit_of_measurement'' \<noteq> None)
         (path @ ''.options cannot be combined with state_class or unit_of_measurement'')
     else []) @
    (if platform = ''sensor'' then
       issue_if (case map_of part ''state_class'' of Some c \<Rightarrow> js_string c \<notin> set SENSOR_STATE_CLASSES | None \<Rightarrow> False)
         (path @ ''.state_class is not supported by Home Assistant'') @
       issue_if (case (map_of SENSOR_DEVICE_CLASS_UNITS (js_string_or_undefined (map_of part ''device_class'')), map_of part ''unit_of_measurement'') of
           (Some units, Some u) \<Rightarrow> js_string u \<notin> set units | _ \<Rightarrow> False)
         (path @ ''.unit_of_measurement is invalid for device_class '' @ js_string_or_undefined (map_of part ''device_class''))
     else [])"

definition validate_number :: "obj \<Rightarrow> string \<Rightarrow> string list" where
  "validate_number part path =
    issue_if (case (number_or 0 (map_of part ''min''), number_or 100 (map_of part ''max'')) of (Some a, Some b) \<Rightarrow> a > b | _ \<Rightarrow> True)
      (path @ '' has an invalid min/max range'') @
    issue_if (case number_or 1 (map_of part ''step'') of Some s \<Rightarrow> s < 1 / 1000 | None \<Rightarrow> True) (path @ ''.step must be at least 0.001'')"

definition validate_climate :: "obj \<Rightarrow> string \<Rightarrow> string list" where
  "validate_climate part path =
    concat (map (\<lambda>k. validateEnum part k path) [''modes'', ''fan_modes'', ''swing_modes'', ''swing_horizontal_modes'', ''preset_modes'']) @
    issue_if (case map_of part ''modes'' of Some (DArr ms) \<Rightarrow> list_ex (\<lambda>m. \<not> nonEmptyString (Some m) \<or> js_string m \<notin> set CLIMATE_MODES) ms | _ \<Rightarrow> False)
      (path @ ''.modes contains a non-standard Home Assistant HVAC mode'') @
    issue_if (case map_of part ''precision'' of Some p \<Rightarrow> (case js_to_number p of Some r \<Rightarrow> r \<notin> set CLIMATE_PRECISIONS | None \<Rightarrow> True) | None \<Rightarrow> False)
      (path @ ''.precision must be 0.1, 0.5, or 1'') @
    issue_if (case (map_of part ''min_temp'', map_of part ''max_temp'') of
        (Some a, Some b) \<Rightarrow> (case (js_to_number a, js_to_number b) of (Some x, Some y) \<Rightarrow> x > y | _ \<Rightarrow> False) | _ \<Rightarrow> False)
      (path @ '' has an invalid temperature range'') @
    issue_if (doc_truthy (map_of part ''target_humidity_state_topic'') \<and> \<not> doc_truthy (map_of part ''target_humidity_command_topic''))
      (path @ ''.target_humidity_state_topic requires target_humidity_command_topic'')"

definition validate_humidifier :: "obj \<Rightarrow> string \<Rightarrow> string list" where
  "validate_humidifier part path =
    issue_if (\<not> validTopic (map_of part ''target_humidity_command_topic'')) (path @ ''.target_humidity_command_topic is required for humidifier'') @
    validateEnum part ''modes'' path @
    issue_if ((map_of part ''modes'' = None) \<noteq> (map_of part ''mode_command_topic'' = None))
      (path @ ''.modes and mode_command_topic must be used together'') @
    issue_if (case (number_or 0 (map_of part ''min_humidity''), number_or 100 (map_of part ''max_humidity'')) of
        (Some a, Some b) \<Rightarrow> a \<ge> b \<or> b > 100 | _ \<Rightarrow> True) (path @ '' has an invalid humidity range'')"

definition validate_fan :: "obj \<Rightarrow> string \<Rightarrow> string list" where
  "validate_fan part path =
    validateEnum part ''preset_modes'' path @
    issue_if ((map_of part ''preset_modes'' = None) \<noteq> (map_of part ''preset_mode_command_topic'' = None))
      (path @ ''.preset_modes and preset_mode_command_topic must be used together'')"

definition validateComponent :: "string \<Rightarrow> obj \<Rightarrow> string list" where
  "validateComponent i part =
    (let path = ''components.'' @ i in
     case map_of part ''platform'' of
       Some (DStr platform) \<Rightarrow>
         if platform = [] \<or> platform \<notin> set SUPPORTED_COMPONENTS then [path @ ''.platform is not a supported MQTT component'']
         else if length part = 1 then []
         else
           issue_if (\<not> nonEmptyString (map_of part ''unique_id'')) (path @ ''.unique_id is required'') @
           issue_if (map_of part ''name'' = Some (DStr '''')) (path @ ''.name should be null for a device's main entity, not an empty string'') @
           issue_if (case map_of part ''entity_category'' of Some c \<Rightarrow> js_string c \<notin> set ENTITY_CATEGORIES | None \<Rightarrow> False)
             (path @ ''.entity_category must be config or diagnostic'') @
           concat (map (\<lambda>(key, value). issue_if (ends_with ''_topic'' key \<and> \<not> validTopic (Some value))
             (path @ ''.'' @ key @ '' is not a valid concrete MQTT topic'')) part) @
           issue_if (platform \<in> set READ_ONLY_COMPONENTS \<and> \<not> validTopic (map_of part ''state_topic'')) (path @ ''.state_topic is required for '' @ platform) @
           issue_if (platform \<in> set READ_WRITE_COMPONENTS \<and> \<not> validTopic (map_of part ''command_topic'')) (path @ ''.command_topic is required for '' @ platform) @
           issue_if (platform = ''button'' \<and> \<not> validTopic (map_of part ''command_topic'')) (path @ ''.command_topic is required for button'') @
           validate_select_sensor platform part path @
           (if platform = ''number'' then validate_number part path else []) @
           (if platform = ''climate'' then validate_climate part path else []) @
           (if platform = ''humidifier'' then validate_humidifier part path else []) @
           (if platform = ''fan'' then validate_fan part path else [])
     | _ \<Rightarrow> [path @ ''.platform is not a supported MQTT component''])"

definition validateAvailability :: "doc option \<Rightarrow> string list" where
  "validateAvailability v = (case v of
     None \<Rightarrow> []
   | Some (DArr entries) \<Rightarrow>
       if entries = [] then [''availability must be a non-empty list'']
       else concat (map (\<lambda>(i, entry). issue_if (\<not> validTopic (map_of (as_obj (Some entry)) ''topic'')) (''availability.'' @ show_nat i @ ''.topic is invalid''))
         (enumerate 0 entries))
   | Some _ \<Rightarrow> [''availability must be a non-empty list''])"

definition validateDeviceDiscovery :: "obj \<Rightarrow> string list" where
  "validateDeviceDiscovery config =
    (let device = map_of config ''device''; origin = map_of config ''origin'';
         early = issue_if (\<not> doc_truthy device \<or> \<not> doc_truthy (map_of (as_obj device) ''identifiers'') \<and> \<not> doc_truthy (map_of (as_obj device) ''connections''))
             ''device must have identifiers or connections'' @
           issue_if (\<not> doc_truthy origin \<or> \<not> nonEmptyString (map_of (as_obj origin) ''name'')) ''origin.name is required''
     in case map_of config ''components'' of
          Some (DObj parts) \<Rightarrow>
            early @
            issue_if (case map_of config ''availability_mode'' of Some m \<Rightarrow> js_string m \<notin> set AVAILABILITY_MODES | None \<Rightarrow> False)
              ''availability_mode must be all, any, or latest'' @
            validateAvailability (map_of config ''availability'') @
            concat (map (\<lambda>(i, part). validateComponent i (as_obj (Some part))) parts)
        | _ \<Rightarrow> early @ [''components must be an object''])"

subsection \<open>Names of entities\<close>

definition NAME_PREFIX :: string where "NAME_PREFIX = ''rethink''"

definition MAIN_ENTITY :: "(string \<times> string) list" where "MAIN_ENTITY = [(''climate'', ''climate''), (''dehumidifier'', ''humidifier'')]"

definition entityObjectId :: "string \<Rightarrow> string \<Rightarrow> string \<Rightarrow> string option" where
  "entityObjectId deviceName key platform =
    (if deviceName = [] then None
     else Some (if map_of MAIN_ENTITY key = Some platform then NAME_PREFIX @ ''_'' @ deviceName
       else NAME_PREFIX @ ''_'' @ deviceName @ ''_'' @ key))"

definition removal :: "obj \<Rightarrow> bool" where
  "removal part \<longleftrightarrow> length part = 1 \<and> map_of part ''platform'' \<noteq> None"

definition nameEntity :: "string \<Rightarrow> string \<Rightarrow> doc \<Rightarrow> doc" where
  "nameEntity deviceName key v = (case v of
     DObj part \<Rightarrow>
       if removal part then v
       else (case map_of part ''object_id'' of
           Some (DStr _) \<Rightarrow> v
         | _ \<Rightarrow> (case entityObjectId deviceName key (js_string_or_undefined (map_of part ''platform'')) of
               Some i \<Rightarrow> if i = [] then v else DObj (AList.update ''object_id'' (DStr i) part)
             | None \<Rightarrow> v))
   | _ \<Rightarrow> v)"

definition nameEntities :: "obj \<Rightarrow> obj" where
  "nameEntities config =
    (case map_of (as_obj (map_of config ''device'')) ''name'' of
       Some (DStr deviceName) \<Rightarrow>
         if deviceName = [] then config
         else (case map_of config ''components'' of
             Some (DObj parts) \<Rightarrow> AList.update ''components'' (DObj (map (\<lambda>(key, v). (key, nameEntity deviceName key v)) parts)) config
           | _ \<Rightarrow> config)
     | _ \<Rightarrow> config)"

subsection \<open>Translation\<close>

datatype language = English | Korean

definition HA_PROTOCOL_VALUES :: "string list" where
  "HA_PROTOCOL_VALUES = [''ON'', ''OFF'', ''online'', ''offline'', ''off'', ''cool'', ''heat'', ''dry'', ''fan_only'', ''auto'', ''idle'', ''cooling'',
     ''heating'', ''drying'', ''fan'', ''None'', ''unknown'', ''unavailable'', ''PRESS'']"

text \<open>The tables are arguments; those of the code are in \<open>HaTables\<close>.\<close>

type_synonym table = "(string \<times> string) list"

definition localize_with :: "table \<Rightarrow> language \<Rightarrow> string \<Rightarrow> string" where
  "localize_with values lang value =
    (if lang \<noteq> Korean \<or> value \<in> set HA_PROTOCOL_VALUES then value
     else (case map_of values value of Some l \<Rightarrow> l | None \<Rightarrow> value))"

definition reverse_table :: "table \<Rightarrow> table" where
  "reverse_table values =
    map (\<lambda>(english, korean). (korean, english)) (filter (\<lambda>(english, korean). length (filter (\<lambda>(_, k). k = korean) values) = 1) values)"

definition delocalize_with :: "table \<Rightarrow> language \<Rightarrow> string \<Rightarrow> string" where
  "delocalize_with values lang value =
    (if lang \<noteq> Korean then value else (case map_of (reverse_table values) value of Some e \<Rightarrow> e | None \<Rightarrow> value))"

definition AUTO_LABEL :: string where "AUTO_LABEL = utf8 [0xec, 0x9e, 0x90, 0xeb, 0x8f, 0x99]"
definition ON_LABEL :: string where "ON_LABEL = utf8 [0xec, 0xbc, 0x9c, 0xec, 0xa7, 0x90]"
definition OFF_LABEL :: string where "OFF_LABEL = utf8 [0xea, 0xba, 0xbc, 0xec, 0xa7, 0x90]"
definition POWER_LABEL :: string where
  "POWER_LABEL = utf8 [0xec, 0x86, 0x8c, 0xeb, 0xb9, 0x84, 0x20, 0xec, 0xa0, 0x84, 0xeb, 0xa0, 0xa5]"

definition option_label :: "table \<Rightarrow> doc \<Rightarrow> doc" where
  "option_label values v = (case v of
     DStr s \<Rightarrow> DStr (if s = ''auto'' then AUTO_LABEL else if s = ''on'' then ON_LABEL else if s = ''off'' then OFF_LABEL else localize_with values Korean s)
   | _ \<Rightarrow> v)"

definition LABELLED_KEYS :: "string list" where
  "LABELLED_KEYS = [''options'', ''fan_modes'', ''swing_modes'', ''swing_horizontal_modes'', ''preset_modes'', ''modes'']"

definition update_present :: "(doc \<Rightarrow> doc) \<Rightarrow> string \<Rightarrow> obj \<Rightarrow> obj" where
  "update_present g key part = map (\<lambda>(k, v). (k, if k = key then g v else v)) part"

definition localize_name :: "table \<Rightarrow> obj \<Rightarrow> obj" where
  "localize_name names part = update_present (\<lambda>v. case v of
     DStr n \<Rightarrow> DStr (if n = ''Power'' \<and> map_of part ''device_class'' = Some (DStr ''power'') then POWER_LABEL
       else (case map_of names n of Some l \<Rightarrow> l | None \<Rightarrow> n))
   | _ \<Rightarrow> v) ''name'' part"

definition localize_component :: "table \<Rightarrow> table \<Rightarrow> obj \<Rightarrow> obj" where
  "localize_component names values part =
    foldl (\<lambda>part key. if key = ''modes'' \<and> map_of part ''platform'' = Some (DStr ''climate'') then part
        else update_present (\<lambda>v. case v of DArr vs \<Rightarrow> DArr (map (option_label values) vs) | _ \<Rightarrow> v) key part)
      (localize_name names part) LABELLED_KEYS"

definition in_object :: "(obj \<Rightarrow> obj) \<Rightarrow> doc \<Rightarrow> doc" where
  "in_object g v = (case v of DObj part \<Rightarrow> DObj (g part) | _ \<Rightarrow> v)"

definition localize_discovery_with :: "table \<Rightarrow> table \<Rightarrow> language \<Rightarrow> obj \<Rightarrow> obj" where
  "localize_discovery_with names values lang config =
    (if lang \<noteq> Korean then config
     else update_present (in_object (update_present (\<lambda>v. case v of
           DStr n \<Rightarrow> DStr (case map_of names n of Some l \<Rightarrow> l | None \<Rightarrow> n) | _ \<Rightarrow> v) ''name'')) ''device''
       (update_present (in_object (map (\<lambda>(key, v). (key, in_object (localize_component names values) v)))) ''components'' config))"

subsection \<open>Placeholders\<close>

text \<open>\<open>str.replaceAll(pattern, replacement)\<close>, for a pattern that is not empty.\<close>

fun replace_from :: "nat \<Rightarrow> string \<Rightarrow> string \<Rightarrow> string \<Rightarrow> string" where
  "replace_from (Suc k) p r s = replace_from k p r (tl s)"
| "replace_from 0 p r [] = []"
| "replace_from 0 p r (c # s) = (if p \<noteq> [] \<and> starts_with p (c # s) then r @ replace_from (length p - 1) p r s else c # replace_from 0 p r s)"


definition replaceAll :: "string \<Rightarrow> string \<Rightarrow> string \<Rightarrow> string" where
  "replaceAll p r s = replace_from 0 p r s"

definition fill_in :: "table \<Rightarrow> string \<Rightarrow> string" where
  "fill_in replacements s = foldl (\<lambda>s (p, r). replaceAll p r s) s replacements"

fun recursiveReplace :: "table \<Rightarrow> doc \<Rightarrow> doc" where
  "recursiveReplace rs (DArr vs) = DArr (map (recursiveReplace rs) vs)"
| "recursiveReplace rs (DObj kvs) = DObj (map (\<lambda>(k, v). (k, recursiveReplace rs v)) kvs)"
| "recursiveReplace rs (DStr s) = DStr (fill_in rs s)"
| "recursiveReplace rs v = v"

text \<open>The texts of a document, in the order a walk meets them.\<close>

fun texts :: "doc \<Rightarrow> string list" where
  "texts (DArr vs) = concat (map texts vs)"
| "texts (DObj kvs) = concat (map (\<lambda>(k, v). texts v) kvs)"
| "texts (DStr s) = [s]"
| "texts v = []"

definition own_property :: "string \<Rightarrow> string option" where
  "own_property t = (case strip_prefix ''$this/'' t of
     Some p \<Rightarrow> if CHR ''/'' \<in> set p \<or> p = ''availability'' then None else Some p
   | None \<Rightarrow> None)"

definition stateProperties :: "obj \<Rightarrow> string set" where
  "stateProperties config = set (List.map_filter own_property (texts (DObj config)))"

end
