(* ===== verification/HaTables.thy ===== *)
theory HaTables
  imports HaDiscovery
begin

text \<open>
  The Korean tables of \<open>util/ha_locale.ts\<close> and its three functions. A label is written as its bytes
  in UTF-8; a table is cut where the source has a comment or a blank line. No key of the tables names a property that
  every object has, and asking for such a name is outside the model.
\<close>

definition KOREAN_NAMES_1 :: table where
  "KOREAN_NAMES_1 = [
     (''LG Air Conditioner'', utf8 [76, 71, 32, 236, 151, 144, 236, 150, 180, 236, 187, 168]),
     (''LG Air Purifier'', utf8 [76, 71, 32, 234, 179, 181, 234, 184, 176, 236, 178, 173, 236, 160, 149, 234, 184, 176]),
     (''LG Dehumidifier'', utf8 [76, 71, 32, 236, 160, 156, 236, 138, 181, 234, 184, 176]),
     (''LG Dishwasher'', utf8 [76, 71, 32, 236, 139, 157, 234, 184, 176, 236, 132, 184, 236, 178, 153, 234, 184, 176]),
     (''LG Dryer'', utf8 [76, 71, 32, 236, 157, 152, 235, 165, 152, 234, 177, 180, 236, 161, 176, 234, 184, 176]),
     (''LG Fridge'', utf8 [76, 71, 32, 235, 131, 137, 236, 158, 165, 234, 179, 160]),
     (''LG Kimchi Refrigerator'', utf8 [76, 71, 32, 234, 185, 128, 236, 185, 152, 235, 131, 137, 236, 158, 165, 234, 179, 160]),
     (''LG Mini Washer'', utf8 [76, 71, 32, 235, 175, 184, 235, 139, 136, 236, 155, 140, 236, 139, 156]),
     (''LG Washer'', utf8 [76, 71, 32, 236, 132, 184, 237, 131, 129, 234, 184, 176]),
     (''Power'', utf8 [236, 160, 132, 236, 155, 144]),
     (''Status'', utf8 [236, 131, 129, 237, 131, 156]),
     (''status'', utf8 [236, 131, 129, 237, 131, 156]),
     (''Previous status'', utf8 [236, 157, 180, 236, 160, 132, 32, 236, 131, 129, 237, 131, 156]),
     (''previous_status'', utf8 [236, 157, 180, 236, 160, 132, 32, 236, 131, 129, 237, 131, 156]),
     (''Process state'', utf8 [234, 179, 181, 236, 160, 149, 32, 236, 131, 129, 237, 131, 156]),
     (''process_status'', utf8 [234, 179, 181, 236, 160, 149, 32, 236, 131, 129, 237, 131, 156]),
     (''process'', utf8 [234, 179, 181, 236, 160, 149]),
     (''Run completed'', utf8 [236, 154, 180, 236, 160, 132, 32, 236, 153, 132, 235, 163, 140]),
     (''Remaining time'', utf8 [235, 130, 168, 236, 157, 128, 32, 236, 139, 156, 234, 176, 132]),
     (''remaining_time'', utf8 [235, 130, 168, 236, 157, 128, 32, 236, 139, 156, 234, 176, 132]),
     (''Initial time'', utf8 [236, 160, 132, 236, 178, 180, 32, 236, 139, 156, 234, 176, 132]),
     (''initial_time'', utf8 [236, 160, 132, 236, 178, 180, 32, 236, 139, 156, 234, 176, 132]),
     (''Reserve time'', utf8 [236, 152, 136, 236, 149, 189, 32, 236, 139, 156, 234, 176, 132]),
     (''reserve_time'', utf8 [236, 152, 136, 236, 149, 189, 32, 236, 139, 156, 234, 176, 132]),
     (''Course'', utf8 [236, 189, 148, 236, 138, 164]),
     (''course'', utf8 [236, 189, 148, 236, 138, 164]),
     (''downloaded_course'', utf8 [235, 139, 164, 236, 154, 180, 235, 161, 156, 235, 147, 156, 32, 236, 189, 148, 236, 138, 164]),
     (''current_download_course'', utf8 [236, 160, 128, 236, 158, 165, 235, 144, 156, 32, 235, 139, 164, 236, 154, 180, 235, 161, 156, 235, 147, 156, 32, 236, 189, 148, 236, 138, 164]),
     (''Stored download course'', utf8 [236, 160, 128, 236, 158, 165, 235, 144, 156, 32, 235, 139, 164, 236, 154, 180, 235, 161, 156, 235, 147, 156, 32, 236, 189, 148, 236, 138, 164]),
     (''Product chime'', utf8 [236, 160, 156, 237, 146, 136, 32, 236, 149, 140, 235, 166, 188, 236, 157, 140]),
     (''Tub sterilization reminder'', utf8 [237, 134, 181, 236, 130, 180, 234, 183, 160, 32, 236, 149, 140, 235, 166, 188, 235, 147, 177]),
     (''Front time display'', utf8 [236, 160, 132, 235, 169, 180, 32, 236, 139, 156, 234, 176, 132, 32, 237, 145, 156, 236, 139, 156]),
     (''Rinse aid level'', utf8 [235, 166, 176, 236, 138, 164, 32, 237, 136, 172, 236, 158, 133, 235, 159, 137]),
     (''Water hardness level'', utf8 [235, 172, 188, 32, 234, 178, 189, 235, 143, 132, 32, 235, 160, 136, 235, 178, 168]),
     (''Dual zone'', utf8 [235, 147, 128, 236, 150, 188, 236, 161, 180]),
     (''Half load zone'', utf8 [235, 182, 128, 235, 182, 132, 236, 132, 184, 236, 178, 153]),
     (''Safe rinse'', utf8 [236, 149, 136, 236, 139, 172, 237, 151, 185, 234, 181, 188]),
     (''High temperature sanitize'', utf8 [234, 179, 160, 236, 152, 168, 236, 130, 180, 234, 183, 160]),
     (''High temperature dry'', utf8 [234, 179, 160, 236, 152, 168, 234, 177, 180, 236, 161, 176]),
     (''Control lock'', utf8 [235, 178, 132, 237, 138, 188, 236, 158, 160, 234, 184, 136]),
     (''Delay active'', utf8 [236, 152, 136, 236, 149, 189, 32, 237, 153, 156, 236, 132, 177]),
     (''operation_course'', utf8 [236, 154, 180, 236, 160, 132, 32, 236, 189, 148, 236, 138, 164]),
     (''Soil level'', utf8 [236, 152, 164, 236, 151, 188, 235, 143, 132]),
     (''soil'', utf8 [236, 152, 164, 236, 151, 188, 235, 143, 132]),
     (''Spin'', utf8 [237, 131, 136, 236, 136, 152]),
     (''spin'', utf8 [237, 131, 136, 236, 136, 152]),
     (''Temperature'', utf8 [236, 152, 168, 235, 143, 132]),
     (''water_temp'', utf8 [235, 172, 188, 32, 236, 152, 168, 235, 143, 132]),
     (''Rinse'', utf8 [237, 151, 185, 234, 181, 188]),
     (''rinse'', utf8 [237, 151, 185, 234, 181, 188]),
     (''dry_level'', utf8 [234, 177, 180, 236, 161, 176, 32, 236, 160, 149, 235, 143, 132]),
     (''Dry level'', utf8 [234, 177, 180, 236, 161, 176, 32, 236, 160, 149, 235, 143, 132]),
     (''eco_hybrid'', utf8 [236, 160, 136, 236, 149, 189, 234, 177, 180, 236, 161, 176]),
     (''Anti crease'', utf8 [234, 181, 172, 234, 185, 128, 32, 235, 176, 169, 236, 167, 128]),
     (''Smart Care'', utf8 [236, 138, 164, 235, 167, 136, 237, 138, 184, 236, 188, 128, 236, 150, 180]),
     (''Reservation active'', utf8 [236, 152, 136, 236, 149, 189, 32, 237, 153, 156, 236, 132, 177]),
     (''Air sterilization'', utf8 [234, 179, 181, 234, 184, 176, 32, 236, 130, 180, 234, 183, 160]),
     (''Cold wash'', utf8 [236, 176, 172, 235, 172, 188, 32, 236, 132, 184, 237, 131, 129]),
     (''Convertible'', utf8 [235, 167, 158, 236, 182, 164, 32, 235, 179, 180, 234, 180, 128, 236, 139, 164]),
     (''Cycle'', utf8 [236, 189, 148, 236, 138, 164]),
     (''Cycle count'', utf8 [236, 154, 180, 236, 160, 132, 32, 237, 154, 159, 236, 136, 152]),
     (''Damp Dry Signal'', utf8 [235, 139, 164, 235, 166, 188, 236, 167, 136, 32, 236, 149, 140, 235, 166, 188]),
     (''Delay Wash'', utf8 [236, 152, 136, 236, 149, 189, 32, 236, 132, 184, 237, 131, 129]),
     (''Delay Wash time remaining'', utf8 [236, 152, 136, 236, 149, 189, 32, 236, 132, 184, 237, 131, 129, 32, 235, 130, 168, 236, 157, 128, 32, 236, 139, 156, 234, 176, 132]),
     (''Delay end'', utf8 [236, 162, 133, 235, 163, 140, 32, 236, 152, 136, 236, 149, 189]),
     (''Detergent dispenser'', utf8 [236, 132, 184, 236, 160, 156, 32, 236, 158, 144, 235, 143, 153, 32, 237, 136, 172, 236, 158, 133]),
     (''Detergent dose'', utf8 [236, 132, 184, 236, 160, 156, 32, 237, 136, 172, 236, 158, 133, 235, 159, 137]),
     (''Door open count today'', utf8 [236, 152, 164, 235, 138, 152, 32, 235, 172, 184, 32, 236, 151, 180, 235, 166, 188, 32, 237, 154, 159, 236, 136, 152]),
     (''Door open duration today'', utf8 [236, 152, 164, 235, 138, 152, 32, 235, 172, 184, 32, 236, 151, 180, 235, 166, 188, 32, 236, 139, 156, 234, 176, 132]),
     (''Door open warning'', utf8 [235, 172, 184, 32, 236, 151, 180, 235, 166, 188, 32, 234, 178, 189, 234, 179, 160]),
     (''Drum running'', utf8 [235, 147, 156, 235, 159, 188, 32, 237, 154, 140, 236, 160, 132]),
     (''Drying mode'', utf8 [234, 177, 180, 236, 161, 176, 32, 235, 170, 168, 235, 147, 156]),
     (''EcoHybrid'', utf8 [236, 151, 144, 236, 189, 148, 32, 237, 149, 152, 236, 157, 180, 235, 184, 140, 235, 166, 172, 235, 147, 156]),
     (''Energy'', utf8 [236, 151, 144, 235, 132, 136, 236, 167, 128]),
     (''Energy Saver'', utf8 [236, 160, 136, 236, 160, 132]),
     (''Error message'', utf8 [236, 152, 164, 235, 165, 152, 32, 235, 130, 180, 236, 154, 169]),
     (''Express cool'', utf8 [237, 138, 185, 234, 184, 137, 32, 235, 131, 137, 236, 158, 165]),
     (''Express freeze'', utf8 [237, 138, 185, 234, 184, 137, 32, 235, 131, 137, 235, 143, 153]),
     (''Extra rinse'', utf8 [236, 182, 148, 234, 176, 128, 32, 237, 151, 185, 234, 181, 188]),
     (''Extra rinse count'', utf8 [236, 182, 148, 234, 176, 128, 32, 237, 151, 185, 234, 181, 188, 32, 237, 154, 159, 236, 136, 152]),
     (''Fast mode'', utf8 [236, 190, 140, 236, 134, 141, 32, 235, 170, 168, 235, 147, 156]),
     (''Filter remaining time'', utf8 [237, 149, 132, 237, 132, 176, 32, 235, 130, 168, 236, 157, 128, 32, 236, 139, 156, 234, 176, 132]),
     (''Freezer'', utf8 [235, 131, 137, 235, 143, 153, 236, 139, 164]),
     (''Freezer door'', utf8 [235, 131, 137, 235, 143, 153, 236, 139, 164, 32, 235, 172, 184]),
     (''Fridge'', utf8 [235, 131, 137, 236, 158, 165, 236, 139, 164]),
     (''Fridge door'', utf8 [235, 131, 137, 236, 158, 165, 236, 139, 164, 32, 235, 172, 184]),
     (''Initial time estimate'', utf8 [236, 152, 136, 236, 131, 129, 32, 236, 160, 132, 236, 178, 180, 32, 236, 139, 156, 234, 176, 132]),
     (''Intensive wash'', utf8 [234, 176, 149, 235, 160, 165, 32, 236, 132, 184, 237, 131, 129]),
     (''LG Portable AC'', utf8 [76, 71, 32, 236, 157, 180, 235, 143, 153, 236, 139, 157, 32, 236, 151, 144, 236, 150, 180, 236, 187, 168]),
     (''LG Refrigerator'', utf8 [76, 71, 32, 235, 131, 137, 236, 158, 165, 234, 179, 160]),
     (''Monitor status'', utf8 [235, 170, 168, 235, 139, 136, 237, 132, 176, 32, 236, 131, 129, 237, 131, 156]),
     (''top_room_temperature'', utf8 [236, 131, 129, 236, 185, 184, 32, 236, 152, 168, 235, 143, 132]),
     (''middle_room_temperature'', utf8 [236, 164, 145, 236, 185, 184, 32, 236, 152, 168, 235, 143, 132]),
     (''bottom_room_temperature'', utf8 [237, 149, 152, 236, 185, 184, 32, 236, 152, 168, 235, 143, 132]),
     (''Top room'', utf8 [236, 131, 129, 236, 185, 184]),
     (''Middle room'', utf8 [236, 164, 145, 236, 185, 184]),
     (''Bottom room'', utf8 [237, 149, 152, 236, 185, 184]),
     (''door'', utf8 [235, 172, 184]),
     (''display_lock'', utf8 [236, 161, 176, 236, 158, 145, 237, 140, 144, 32, 236, 158, 160, 234, 184, 136])]"

definition KOREAN_NAMES_2 :: table where
  "KOREAN_NAMES_2 = [
     (''one_touch_filter'', utf8 [236, 155, 144, 237, 132, 176, 236, 185, 152, 32, 237, 131, 136, 236, 183, 168]),
     (''monitor_status'', utf8 [235, 170, 168, 235, 139, 136, 237, 132, 176, 32, 236, 131, 129, 237, 131, 156]),
     (''Night glare prevention'', utf8 [236, 149, 188, 234, 176, 132, 32, 235, 136, 136, 235, 182, 128, 236, 139, 172, 32, 235, 176, 169, 236, 167, 128]),
     (''Pre-wash'', utf8 [236, 152, 136, 235, 185, 132, 32, 236, 132, 184, 237, 131, 129]),
     (''Reduce static'', utf8 [236, 160, 149, 236, 160, 132, 234, 184, 176, 32, 234, 176, 144, 236, 134, 140]),
     (''Reset filter usage'', utf8 [237, 149, 132, 237, 132, 176, 32, 236, 130, 172, 236, 154, 169, 235, 159, 137, 32, 236, 180, 136, 234, 184, 176, 237, 153, 148]),
     (''Shabbat Mode'', utf8 [236, 149, 136, 236, 139, 157, 236, 157, 188, 32, 235, 170, 168, 235, 147, 156]),
     (''Compressor'', utf8 [236, 149, 149, 236, 182, 149, 234, 184, 176]),
     (''Sleep time'', utf8 [236, 183, 168, 236, 185, 168, 32, 236, 139, 156, 234, 176, 132]),
     (''Start time'', utf8 [236, 139, 156, 236, 158, 145, 32, 236, 139, 156, 234, 176, 132]),
     (''Smart care+'', utf8 [236, 138, 164, 235, 167, 136, 237, 138, 184, 236, 188, 128, 236, 150, 180, 43]),
     (''Softener dispenser'', utf8 [236, 132, 172, 236, 156, 160, 236, 156, 160, 236, 151, 176, 236, 160, 156, 32, 236, 158, 144, 235, 143, 153, 32, 237, 136, 172, 236, 158, 133]),
     (''Softener dose'', utf8 [236, 132, 172, 236, 156, 160, 236, 156, 160, 236, 151, 176, 236, 160, 156, 32, 237, 136, 172, 236, 158, 133, 235, 159, 137]),
     (''Stop time'', utf8 [236, 162, 133, 235, 163, 140, 32, 236, 139, 156, 234, 176, 132]),
     (''Steam'', utf8 [236, 138, 164, 237, 140, 128]),
     (''Turbo Steam'', utf8 [237, 132, 176, 235, 179, 180, 32, 236, 138, 164, 237, 140, 128]),
     (''TurboWash'', utf8 [237, 132, 176, 235, 179, 180, 236, 155, 140, 236, 139, 156]),
     (''Wrinkle Care'', utf8 [234, 181, 172, 234, 185, 128, 32, 235, 176, 169, 236, 167, 128]),
     (''tub_clean_count'', utf8 [237, 134, 181, 236, 130, 180, 234, 183, 160, 32, 237, 155, 132, 32, 236, 154, 180, 236, 160, 132, 32, 237, 154, 159, 236, 136, 152]),
     (''Washes since drum clean'', utf8 [237, 134, 181, 236, 132, 184, 236, 178, 153, 32, 237, 155, 132, 32, 236, 132, 184, 237, 131, 129, 32, 237, 154, 159, 236, 136, 152]),
     (''Error'', utf8 [236, 152, 164, 235, 165, 152]),
     (''error'', utf8 [236, 152, 164, 235, 165, 152]),
     (''Error code'', utf8 [236, 152, 164, 235, 165, 152, 32, 236, 189, 148, 235, 147, 156]),
     (''error_message'', utf8 [236, 152, 164, 235, 165, 152, 32, 235, 130, 180, 236, 154, 169]),
     (''Door'', utf8 [235, 172, 184]),
     (''Door lock'', utf8 [235, 172, 184, 32, 236, 158, 160, 234, 184, 136]),
     (''Child lock'', utf8 [235, 178, 132, 237, 138, 188, 32, 236, 158, 160, 234, 184, 136]),
     (''Remote start'', utf8 [236, 155, 144, 234, 178, 169, 32, 236, 139, 156, 236, 158, 145]),
     (''Remote start enabled'', utf8 [236, 155, 144, 234, 178, 169, 32, 236, 139, 156, 236, 158, 145, 32, 237, 151, 136, 236, 154, 169]),
     (''Start'', utf8 [236, 139, 156, 236, 158, 145]),
     (''Pause'', utf8 [236, 157, 188, 236, 139, 156, 236, 160, 149, 236, 167, 128]),
     (''Power off'', utf8 [236, 160, 132, 236, 155, 144, 32, 235, 129, 132, 234, 184, 176]),
     (''Humidity'', utf8 [236, 138, 181, 235, 143, 132]),
     (''Operation mode'', utf8 [236, 154, 180, 236, 160, 132, 32, 235, 170, 168, 235, 147, 156]),
     (''Fan speed'', utf8 [235, 176, 148, 235, 158, 140, 32, 236, 132, 184, 234, 184, 176]),
     (''Fan RPM'', utf8 [237, 140, 172, 32, 237, 154, 140, 236, 160, 132, 236, 136, 152]),
     (''action'', utf8 [236, 154, 180, 236, 160, 132, 32, 236, 131, 129, 237, 131, 156]),
     (''airClean'', utf8 [234, 179, 181, 234, 184, 176, 236, 178, 173, 236, 160, 149]),
     (''current_humidity'', utf8 [237, 152, 132, 236, 158, 172, 32, 236, 138, 181, 235, 143, 132]),
     (''current_temperature'', utf8 [237, 152, 132, 236, 158, 172, 32, 236, 152, 168, 235, 143, 132]),
     (''fan_mode'', utf8 [235, 176, 148, 235, 158, 140, 32, 236, 132, 184, 234, 184, 176]),
     (''mode'', utf8 [236, 154, 180, 236, 160, 132, 32, 235, 170, 168, 235, 147, 156]),
     (''power'', utf8 [236, 160, 132, 236, 155, 144]),
     (''swing_horizontal_mode'', utf8 [236, 162, 140, 236, 154, 176, 32, 235, 176, 148, 235, 158, 140, 32, 235, 176, 169, 237, 150, 165]),
     (''swing_mode'', utf8 [236, 131, 129, 237, 149, 152, 32, 235, 176, 148, 235, 158, 140, 32, 235, 176, 169, 237, 150, 165]),
     (''target_humidity'', utf8 [235, 170, 169, 237, 145, 156, 32, 236, 138, 181, 235, 143, 132]),
     (''temperature'', utf8 [236, 132, 164, 236, 160, 149, 32, 236, 152, 168, 235, 143, 132]),
     (''Filter Remaining Life'', utf8 [237, 149, 132, 237, 132, 176, 32, 236, 158, 148, 235, 159, 137]),
     (''Filter remaining'', utf8 [237, 149, 132, 237, 132, 176, 32, 236, 158, 148, 235, 159, 137]),
     (''Filter used time'', utf8 [237, 149, 132, 237, 132, 176, 32, 236, 130, 172, 236, 154, 169, 32, 236, 139, 156, 234, 176, 132]),
     (''Filter life time'', utf8 [237, 149, 132, 237, 132, 176, 32, 236, 136, 152, 235, 170, 133]),
     (''Filter usage last reset'', utf8 [237, 149, 132, 237, 132, 176, 32, 236, 180, 136, 234, 184, 176, 237, 153, 148, 32, 235, 130, 160, 236, 167, 156]),
     (''Air purify'', utf8 [234, 179, 181, 234, 184, 176, 236, 178, 173, 236, 160, 149]),
     (''Energy saving'', utf8 [236, 160, 136, 236, 160, 132]),
     (''Auto dry'', utf8 [236, 158, 144, 235, 143, 153, 234, 177, 180, 236, 161, 176]),
     (''AI dry strength'', utf8 [65, 73, 234, 177, 180, 236, 161, 176, 32, 235, 176, 148, 235, 158, 140, 32, 236, 132, 184, 234, 184, 176]),
     (''Auto dry progress'', utf8 [236, 158, 144, 235, 143, 153, 234, 177, 180, 236, 161, 176, 32, 236, 167, 132, 237, 150, 137, 235, 165, 160]),
     (''Auto dry remaining'', utf8 [236, 158, 144, 235, 143, 153, 234, 177, 180, 236, 161, 176, 32, 235, 130, 168, 236, 157, 128, 32, 236, 139, 156, 234, 176, 132]),
     (''Jet'', utf8 [236, 190, 140, 236, 134, 141]),
     (''Jet cool'', utf8 [236, 190, 140, 236, 134, 141, 32, 235, 131, 137, 235, 176, 169]),
     (''Jet heat'', utf8 [236, 190, 140, 236, 134, 141, 32, 235, 130, 156, 235, 176, 169]),
     (''Sleep timer'', utf8 [236, 183, 168, 236, 185, 168, 32, 236, 152, 136, 236, 149, 189]),
     (''Turn-on timer'', utf8 [236, 188, 156, 236, 167, 144, 32, 236, 152, 136, 236, 149, 189]),
     (''Turn-off timer'', utf8 [234, 186, 188, 236, 167, 144, 32, 236, 152, 136, 236, 149, 189]),
     (''Current temperature'', utf8 [237, 152, 132, 236, 158, 172, 32, 236, 152, 168, 235, 143, 132]),
     (''Target temperature'', utf8 [236, 132, 164, 236, 160, 149, 32, 236, 152, 168, 235, 143, 132]),
     (''Fridge temperature'', utf8 [235, 131, 137, 236, 158, 165, 236, 139, 164, 32, 236, 152, 168, 235, 143, 132]),
     (''Freezer temperature'', utf8 [235, 131, 137, 235, 143, 153, 236, 139, 164, 32, 236, 152, 168, 235, 143, 132]),
     (''Express Freeze'', utf8 [237, 138, 185, 234, 184, 137, 32, 235, 131, 137, 235, 143, 153]),
     (''Express Cool'', utf8 [237, 138, 185, 234, 184, 137, 32, 235, 131, 137, 236, 158, 165]),
     (''Lock'', utf8 [236, 158, 160, 234, 184, 136]),
     (''Control panel lock'', utf8 [236, 161, 176, 236, 158, 145, 32, 237, 140, 168, 235, 132, 144, 32, 236, 158, 160, 234, 184, 136]),
     (''Humidity sensor mode'', utf8 [236, 138, 181, 235, 143, 132, 32, 236, 132, 188, 236, 132, 156, 32, 235, 170, 168, 235, 147, 156]),
     (''Humidity sensor'', utf8 [236, 138, 181, 235, 143, 132, 32, 236, 132, 188, 236, 132, 156]),
     (''Air quality sensor'', utf8 [234, 179, 181, 234, 184, 176, 236, 167, 136, 32, 236, 132, 188, 236, 132, 156]),
     (''Button sound'', utf8 [236, 160, 156, 237, 146, 136, 32, 235, 178, 132, 237, 138, 188, 236, 157, 140]),
     (''Water tank full'', utf8 [235, 172, 188, 237, 134, 181, 32, 234, 176, 128, 235, 147, 157, 32, 236, 176, 184]),
     (''Target humidity'', utf8 [235, 170, 169, 237, 145, 156, 32, 236, 138, 181, 235, 143, 132]),
     (''Display'', utf8 [236, 160, 156, 237, 146, 136, 32, 237, 153, 148, 235, 169, 180]),
     (''Sound'', utf8 [236, 160, 156, 237, 146, 136, 32, 236, 134, 140, 235, 166, 172]),
     (''Temperature step'', utf8 [236, 152, 168, 235, 143, 132, 32, 235, 139, 168, 236, 156, 132]),
     (''Status display'', utf8 [236, 160, 156, 237, 146, 136, 32, 236, 131, 129, 237, 131, 156, 32, 237, 145, 156, 236, 139, 156, 235, 182, 128]),
     (''Water tank light'', utf8 [235, 172, 188, 237, 134, 181, 32, 236, 161, 176, 235, 170, 133]),
     (''Clean dry'', utf8 [234, 179, 181, 234, 184, 176, 236, 160, 156, 234, 183, 160]),
     (''UVnano'', ''UVnano''),
     (''Turn-off reservation'', utf8 [234, 186, 188, 236, 167, 144, 32, 236, 152, 136, 236, 149, 189]),
     (''Capacity nominal'', utf8 [236, 160, 149, 234, 178, 169, 32, 236, 154, 169, 235, 159, 137]),
     (''EEV opening'', utf8 [236, 160, 132, 236, 158, 144, 237, 140, 189, 236, 176, 189, 235, 176, 184, 235, 184, 140, 32, 234, 176, 156, 235, 143, 132]),
     (''Pipe liquid temperature'', utf8 [236, 149, 161, 234, 180, 128, 32, 236, 152, 168, 235, 143, 132]),
     (''Pipe gas temperature'', utf8 [234, 176, 128, 236, 138, 164, 234, 180, 128, 32, 236, 152, 168, 235, 143, 132]),
     (''ODU HEX temperature'', utf8 [236, 139, 164, 236, 153, 184, 234, 184, 176, 32, 236, 151, 180, 234, 181, 144, 237, 153, 152, 234, 184, 176, 32, 236, 152, 168, 235, 143, 132]),
     (''ODU air temperature'', utf8 [236, 139, 164, 236, 153, 184, 234, 184, 176, 32, 237, 157, 161, 236, 158, 133, 32, 236, 152, 168, 235, 143, 132])]"

definition KOREAN_VALUES_1 :: table where
  "KOREAN_VALUES_1 = [
     (''POWEROFF'', utf8 [236, 160, 132, 236, 155, 144, 32, 234, 186, 188, 236, 167, 144]),
     (''INITIAL'', utf8 [235, 140, 128, 234, 184, 176]),
     (''PAUSE'', utf8 [236, 157, 188, 236, 139, 156, 236, 160, 149, 236, 167, 128]),
     (''ERROR_AUTO_OFF'', utf8 [236, 152, 164, 235, 165, 152, 32, 237, 155, 132, 32, 236, 158, 144, 235, 143, 153, 32, 234, 186, 188, 236, 167, 144]),
     (''RESERVED'', utf8 [236, 152, 136, 236, 149, 189]),
     (''DETECTING'', utf8 [234, 176, 144, 236, 167, 128, 32, 236, 164, 145]),
     (''ADD_DRAIN'', utf8 [236, 182, 148, 234, 176, 128, 32, 235, 176, 176, 236, 136, 152]),
     (''DETERGENT_AMOUNT'', utf8 [236, 132, 184, 236, 160, 156, 235, 159, 137, 32, 234, 176, 144, 236, 167, 128]),
     (''RUNNING'', utf8 [236, 154, 180, 236, 160, 132, 32, 236, 164, 145]),
     (''PREWASH'', utf8 [236, 152, 136, 235, 185, 132, 32, 236, 132, 184, 237, 131, 129]),
     (''RINSING'', utf8 [237, 151, 185, 234, 181, 188, 32, 236, 164, 145]),
     (''RINSEHOLD'', utf8 [237, 151, 185, 234, 181, 188, 32, 235, 140, 128, 234, 184, 176]),
     (''SPINNING'', utf8 [237, 131, 136, 236, 136, 152, 32, 236, 164, 145]),
     (''DRYING'', utf8 [234, 177, 180, 236, 161, 176, 32, 236, 164, 145]),
     (''END'', utf8 [236, 153, 132, 235, 163, 140]),
     (''REFRESHING'', utf8 [236, 139, 160, 236, 132, 160, 32, 236, 188, 128, 236, 150, 180]),
     (''FROZEN_PREVENT_INITIAL'', utf8 [235, 143, 153, 234, 178, 176, 32, 235, 176, 169, 236, 167, 128, 32, 236, 164, 128, 235, 185, 132]),
     (''FROZEN_PREVENT_RUNNING'', utf8 [235, 143, 153, 234, 178, 176, 32, 235, 176, 169, 236, 167, 128, 32, 236, 154, 180, 236, 160, 132]),
     (''FROZEN_PREVENT_PAUSE'', utf8 [235, 143, 153, 234, 178, 176, 32, 235, 176, 169, 236, 167, 128, 32, 236, 157, 188, 236, 139, 156, 236, 160, 149, 236, 167, 128]),
     (''DIAGNOSIS'', utf8 [236, 138, 164, 235, 167, 136, 237, 138, 184, 32, 236, 167, 132, 235, 139, 168]),
     (''ERROR'', utf8 [236, 152, 164, 235, 165, 152]),
     (''STANDBY'', utf8 [235, 140, 128, 234, 184, 176]),
     (''POWERFAIL'', utf8 [236, 160, 149, 236, 160, 132]),
     (''NIGHTDRY'', utf8 [236, 149, 188, 234, 176, 132, 32, 234, 177, 180, 236, 161, 176]),
     (''CANCEL'', utf8 [236, 183, 168, 236, 134, 140]),
     (''STEAM'', utf8 [236, 138, 164, 237, 140, 128]),
     (''DRY_LV1'', utf8 [234, 177, 180, 236, 161, 176, 32, 49, 235, 139, 168, 234, 179, 132]),
     (''DRY_LV2'', utf8 [234, 177, 180, 236, 161, 176, 32, 50, 235, 139, 168, 234, 179, 132]),
     (''DRY_LV3'', utf8 [234, 177, 180, 236, 161, 176, 32, 51, 235, 139, 168, 234, 179, 132]),
     (''COOL'', utf8 [236, 134, 161, 237, 146, 141, 32, 235, 131, 137, 234, 176, 129]),
     (''ANTI_CREASE'', utf8 [234, 181, 172, 234, 185, 128, 32, 235, 176, 169, 236, 167, 128]),
     (''MONITOR_FAIL'', utf8 [236, 160, 144, 234, 178, 128, 32, 237, 149, 132, 236, 154, 148]),
     (''MONITOR_NOT_WORKING'', utf8 [236, 158, 145, 235, 143, 153, 32, 236, 164, 145, 236, 167, 128]),
     (''MONITOR_NORMAL'', utf8 [236, 160, 149, 236, 131, 129]),
     (''NONE'', utf8 [236, 151, 134, 236, 157, 140]),
     (''NO'', utf8 [236, 132, 160, 237, 131, 157, 32, 236, 149, 136, 32, 237, 149, 168]),
     (''LIGHT'', utf8 [236, 149, 189]),
     (''NORMAL'', utf8 [237, 145, 156, 236, 164, 128]),
     (''HEAVY'', utf8 [234, 176, 149]),
     (''VERY_HEAVY'', utf8 [235, 167, 164, 236, 154, 176, 32, 234, 176, 149]),
     (''EXTRA_HEAVY'', utf8 [236, 181, 156, 234, 176, 149]),
     (''VERY_LOW'', utf8 [235, 167, 164, 236, 154, 176, 32, 236, 149, 189]),
     (''LOW'', utf8 [236, 149, 189]),
     (''MEDIUM'', utf8 [236, 164, 145]),
     (''HIGH'', utf8 [234, 176, 149]),
     (''EXTRA_HIGH'', utf8 [236, 181, 156, 234, 176, 149]),
     (''COLD'', utf8 [235, 131, 137, 236, 136, 152]),
     (''DAMP'', utf8 [236, 132, 172, 236, 132, 184]),
     (''LESS'', utf8 [236, 149, 189]),
     (''IRON'', utf8 [237, 145, 156, 236, 164, 128]),
     (''CUPBOARD'', utf8 [237, 145, 156, 236, 164, 128, 43]),
     (''VERY_DRY'', utf8 [234, 176, 149, 235, 160, 165]),
     (''ECO'', utf8 [236, 151, 144, 236, 189, 148]),
     (''ENERGY'', utf8 [236, 151, 144, 235, 132, 136, 236, 167, 128]),
     (''SPEED'', utf8 [236, 138, 164, 237, 148, 188, 235, 147, 156]),
     (''TURBO'', utf8 [237, 132, 176, 235, 179, 180]),
     (''WIND'', utf8 [235, 176, 148, 235, 158, 140, 32, 234, 177, 180, 236, 161, 176]),
     (''30_C'', utf8 [51, 48, 194, 176, 67]),
     (''40_C'', utf8 [52, 48, 194, 176, 67]),
     (''60_C'', utf8 [54, 48, 194, 176, 67]),
     (''95_C'', utf8 [57, 53, 194, 176, 67]),
     (''30_MIN'', utf8 [51, 48, 235, 182, 132, 32, 234, 177, 180, 236, 161, 176]),
     (''60_MIN'', utf8 [54, 48, 235, 182, 132, 32, 234, 177, 180, 236, 161, 176]),
     (''90_MIN'', utf8 [57, 48, 235, 182, 132, 32, 234, 177, 180, 236, 161, 176]),
     (''120_MIN'', utf8 [49, 50, 48, 235, 182, 132, 32, 234, 177, 180, 236, 161, 176]),
     (''150_MIN'', utf8 [49, 53, 48, 235, 182, 132, 32, 234, 177, 180, 236, 161, 176]),
     (''AUTO'', utf8 [236, 158, 144, 235, 143, 153]),
     (''INTENSIVE'', utf8 [234, 176, 149, 235, 160, 165]),
     (''DELICATE'', utf8 [236, 132, 172, 236, 132, 184]),
     (''NORMAL_ECO'', utf8 [237, 145, 156, 236, 164, 128, 47, 236, 151, 144, 236, 189, 148]),
     (''RINSE'', utf8 [237, 151, 185, 234, 181, 188]),
     (''SOAK'', utf8 [235, 182, 136, 235, 166, 188]),
     (''REFRESH'', utf8 [235, 166, 172, 237, 148, 132, 235, 160, 136, 236, 137, 172]),
     (''STEAM_TUB_CLEAN'', utf8 [236, 138, 164, 237, 140, 128, 237, 134, 181, 236, 130, 180, 234, 183, 160]),
     (''STEAM_REFRESH'', utf8 [236, 138, 164, 237, 140, 128, 235, 166, 172, 237, 148, 132, 235, 160, 136, 236, 139, 156]),
     (''EXPRESS'', utf8 [234, 184, 137, 236, 134, 141]),
     (''MACHINE_CLEAN'', utf8 [234, 184, 176, 234, 184, 176, 32, 236, 132, 184, 236, 178, 153]),
     (''SHORT_MODE'', utf8 [235, 139, 168, 236, 182, 149, 32, 236, 189, 148, 236, 138, 164]),
     (''DOWNLOAD_CYCLE'', utf8 [235, 139, 164, 236, 154, 180, 235, 161, 156, 235, 147, 156, 32, 236, 189, 148, 236, 138, 164]),
     (''UPPER'', utf8 [236, 156, 132]),
     (''LOWER'', utf8 [236, 149, 132, 235, 158, 152]),
     (''POTS_AND_PANS'', utf8 [235, 131, 132, 235, 185, 132, 194, 183, 237, 140, 172]),
     (''POTS_PANS'', utf8 [235, 131, 132, 235, 185, 132, 194, 183, 237, 140, 172]),
     (''CASSEROLES'', utf8 [236, 186, 144, 236, 132, 156, 235, 161, 164]),
     (''GLASSWARE'', utf8 [236, 156, 160, 235, 166, 172, 236, 160, 156, 237, 146, 136]),
     (''GLASSWARES'', utf8 [236, 156, 160, 235, 166, 172, 236, 160, 156, 237, 146, 136]),
     (''NIGHT_CARE'', utf8 [236, 149, 188, 234, 176, 132, 32, 236, 188, 128, 236, 150, 180]),
     (''GRILLED_DISHES'', utf8 [234, 181, 172, 236, 157, 180, 32, 236, 154, 148, 235, 166, 172]),
     (''GRILLED_MEAT'', utf8 [234, 181, 172, 236, 157, 180, 32, 236, 154, 148, 235, 166, 172]),
     (''GREASY_DISHES'', utf8 [234, 184, 176, 235, 166, 132, 234, 184, 176, 32, 235, 167, 142, 236, 157, 128, 32, 236, 139, 157, 234, 184, 176]),
     (''GREASY_TABLEWARE'', utf8 [234, 184, 176, 235, 166, 132, 234, 184, 176, 32, 235, 167, 142, 236, 157, 128, 32, 236, 139, 157, 234, 184, 176]),
     (''PRESSED_DISHES'', utf8 [235, 136, 132, 235, 165, 180, 234, 178, 140, 32, 235, 182, 153, 236, 157, 128, 32, 236, 139, 157, 234, 184, 176]),
     (''PRESSED_TABLEWARE'', utf8 [235, 136, 132, 235, 165, 180, 234, 178, 140, 32, 235, 182, 153, 236, 157, 128, 32, 236, 139, 157, 234, 184, 176]),
     (''FISH_DISH'', utf8 [236, 131, 157, 236, 132, 160, 32, 236, 154, 148, 235, 166, 172]),
     (''SELFCLEANING'', utf8 [237, 134, 181, 236, 130, 180, 234, 183, 160])]"

definition KOREAN_VALUES_2 :: table where
  "KOREAN_VALUES_2 = [
     (''POWER'', utf8 [234, 176, 149, 235, 160, 165, 32, 234, 177, 180, 236, 161, 176]),
     (''MINIMIZEWRINKLES'', utf8 [234, 181, 172, 234, 185, 128, 32, 236, 153, 132, 237, 153, 148, 32, 234, 177, 180, 236, 161, 176]),
     (''FULLSIZELOAD'', utf8 [235, 139, 164, 235, 159, 137, 32, 234, 177, 180, 236, 161, 176]),
     (''DEODORIZATION'', utf8 [235, 166, 172, 237, 148, 132, 235, 160, 136, 236, 137, 172]),
     (''SMALLLOAD'', utf8 [236, 134, 140, 235, 159, 137, 32, 234, 177, 180, 236, 161, 176]),
     (''GYMCLOTHES'', utf8 [236, 154, 180, 235, 143, 153, 235, 179, 181]),
     (''RAINYSEASON'', utf8 [236, 158, 165, 235, 167, 136, 236, 178, 160]),
     (''ECONOMICDRY'', utf8 [236, 160, 136, 236, 149, 189, 234, 177, 180, 236, 161, 176]),
     (''EASYIRON'', utf8 [236, 180, 137, 236, 180, 137, 32, 234, 177, 180, 236, 161, 176]),
     (''BIGSIZEITEM'', utf8 [237, 129, 176, 32, 235, 185, 168, 235, 158, 152, 32, 234, 177, 180, 236, 161, 176]),
     (''NOT_SELECTED'', utf8 [236, 132, 160, 237, 131, 157, 32, 236, 149, 136, 32, 237, 149, 168]),
     (''SMALL_LOAD'', utf8 [236, 134, 140, 235, 159, 137, 32, 236, 132, 184, 237, 131, 129]),
     (''COLD_WASH'', utf8 [236, 176, 172, 235, 172, 188, 32, 236, 132, 184, 237, 131, 129]),
     (''SKIN_CARE'', utf8 [236, 138, 164, 237, 130, 168, 32, 236, 188, 128, 236, 150, 180]),
     (''RAINY_DAY'', utf8 [236, 158, 165, 235, 167, 136, 236, 178, 160, 32, 236, 132, 184, 237, 131, 129]),
     (''SWEAT_STAIN'', utf8 [235, 149, 128, 236, 150, 188, 235, 163, 169, 32, 236, 160, 156, 234, 177, 176]),
     (''SINGLE_GARMENTS'', utf8 [237, 149, 156, 235, 178, 140, 32, 236, 132, 184, 237, 131, 129]),
     (''KIDS_WEAR'', utf8 [237, 130, 164, 236, 166, 136, 236, 152, 183]),
     (''SHIRT'', utf8 [236, 153, 128, 236, 157, 180, 236, 133, 148, 236, 184, 160]),
     (''SCHOOL_UNIFORM'', utf8 [234, 181, 144, 235, 179, 181]),
     (''STATIC_REDUCE'', utf8 [236, 160, 149, 236, 160, 132, 234, 184, 176, 32, 236, 160, 156, 234, 177, 176]),
     (''SPIN_ONLY'', utf8 [237, 131, 136, 236, 136, 152, 32, 235, 139, 168, 235, 143, 133]),
     (''DEODORIZATION_WASHER'', utf8 [235, 131, 132, 236, 131, 136, 32, 236, 160, 156, 234, 177, 176]),
     (''CLOTH_CARE'', utf8 [236, 152, 183, 234, 176, 144, 32, 235, 179, 180, 237, 152, 184]),
     (''SMART_RINSE'', utf8 [236, 149, 136, 236, 139, 172, 32, 237, 151, 185, 234, 181, 188]),
     (''SPEEDWASH'', utf8 [236, 138, 164, 237, 148, 188, 235, 147, 156, 32, 236, 155, 140, 236, 139, 156]),
     (''SOAKING'', utf8 [235, 182, 136, 235, 166, 188]),
     (''NO_ERROR'', utf8 [236, 152, 164, 235, 165, 152, 32, 236, 151, 134, 236, 157, 140]),
     (''ERROR_IE'', utf8 [234, 184, 137, 236, 136, 152, 32, 236, 152, 164, 235, 165, 152, 32, 40, 73, 69, 41]),
     (''ERROR_OE'', utf8 [235, 176, 176, 236, 136, 152, 32, 236, 152, 164, 235, 165, 152, 32, 40, 79, 69, 41]),
     (''ERROR_UE'', utf8 [237, 131, 136, 236, 136, 152, 32, 235, 182, 136, 234, 183, 160, 237, 152, 149, 32, 236, 152, 164, 235, 165, 152, 32, 40, 85, 69, 41]),
     (''ERROR_DE1'', utf8 [235, 143, 132, 236, 150, 180, 32, 236, 151, 180, 235, 166, 188, 32, 236, 152, 164, 235, 165, 152, 32, 40, 100, 69, 41]),
     (''ERROR_PE'', utf8 [236, 136, 152, 236, 156, 132, 32, 236, 132, 188, 236, 132, 156, 32, 236, 152, 164, 235, 165, 152, 32, 40, 80, 69, 41]),
     (''ERROR_DO'', utf8 [235, 130, 180, 235, 182, 128, 32, 235, 154, 156, 234, 187, 145, 32, 236, 151, 180, 235, 166, 188, 32, 236, 152, 164, 235, 165, 152, 32, 40, 100, 79, 41]),
     (''ERROR_LE'', utf8 [235, 170, 168, 237, 132, 176, 32, 236, 158, 160, 234, 185, 128, 32, 236, 152, 164, 235, 165, 152, 32, 40, 76, 69, 41]),
     (''ERROR_AE'', utf8 [237, 129, 180, 235, 159, 172, 236, 185, 152, 32, 236, 152, 164, 235, 165, 152, 32, 40, 65, 69, 41]),
     (''ERROR_TE'', utf8 [236, 152, 168, 235, 143, 132, 32, 236, 132, 188, 236, 132, 156, 32, 236, 152, 164, 235, 165, 152, 32, 40, 116, 69, 41]),
     (''ERROR_FE'', utf8 [234, 179, 188, 234, 184, 137, 236, 136, 152, 32, 236, 152, 164, 235, 165, 152, 32, 40, 70, 69, 41]),
     (''ERROR_DE2'', utf8 [235, 143, 132, 236, 150, 180, 32, 236, 158, 160, 234, 184, 136, 32, 236, 152, 164, 235, 165, 152, 32, 40, 100, 69, 50, 41]),
     (''ERROR_FF'', utf8 [235, 143, 153, 234, 178, 176, 32, 236, 152, 164, 235, 165, 152, 32, 40, 70, 70, 41]),
     (''ERROR_E7'', utf8 [236, 160, 129, 236, 158, 172, 32, 236, 152, 164, 235, 165, 152, 32, 40, 69, 55, 41]),
     (''MELODY_DEFAULT'', utf8 [234, 184, 176, 235, 179, 184, 236, 157, 140]),
     (''MELODY_VIVALDI_WINTER'', utf8 [235, 185, 132, 235, 176, 156, 235, 148, 148, 32, 234, 178, 168, 236, 154, 184]),
     (''MELODY_JINGLE_BELLS_CHORUS'', utf8 [236, 167, 149, 234, 184, 128, 235, 178, 168, 32, 237, 149, 169, 236, 176, 189]),
     (''MELODY_WE_WISH_YOU_A_MERRY_CHRISTMAS'', utf8 [236, 156, 132, 32, 236, 156, 132, 236, 139, 156, 32, 236, 156, 160, 32, 236, 150, 180, 32, 235, 169, 148, 235, 166, 172, 32, 237, 129, 172, 235, 166, 172, 236, 138, 164, 235, 167, 136, 236, 138, 164]),
     (''MELODY_BEETHOVEN_PASTORALE'', utf8 [235, 178, 160, 237, 134, 160, 235, 178, 164, 32, 236, 160, 132, 236, 155, 144]),
     (''MELODY_VIVALDI_SPRING'', utf8 [235, 185, 132, 235, 176, 156, 235, 148, 148, 32, 235, 180, 132]),
     (''MELODY_DVORAK_HUMORESQUE'', utf8 [235, 147, 156, 235, 179, 180, 235, 165, 180, 236, 158, 145, 32, 236, 156, 160, 235, 170, 168, 235, 160, 136, 236, 138, 164, 237, 129, 172]),
     (''MELODY_ELGAR_SALUT_D_AMOUR'', utf8 [236, 151, 152, 234, 176, 128, 32, 236, 130, 172, 235, 158, 145, 236, 157, 152, 32, 236, 157, 184, 236, 130, 172]),
     (''MELODY_VIVALDI_AUTUMN'', utf8 [235, 185, 132, 235, 176, 156, 235, 148, 148, 32, 234, 176, 128, 236, 157, 132]),
     (''MELODY_DANCE_OF_THE_SUGAR_PLUM_FAIRY'', utf8 [236, 130, 172, 237, 131, 149, 32, 236, 154, 148, 236, 160, 149, 236, 157, 152, 32, 236, 182, 164]),
     (''MELODY_RADETZKY_MARSCH'', utf8 [235, 157, 188, 235, 141, 176, 236, 184, 160, 237, 130, 164, 32, 237, 150, 137, 236, 167, 132, 234, 179, 161]),
     (''MELODY_JINGLE_BELLS_INTRO'', utf8 [236, 167, 149, 234, 184, 128, 235, 178, 168, 32, 236, 160, 132, 236, 163, 188]),
     (''ERROR_CE'', utf8 [67, 69, 32, 236, 151, 144, 235, 159, 172]),
     (''ERROR_DHE'', utf8 [100, 72, 69, 32, 236, 151, 144, 235, 159, 172]),
     (''ERROR_PF'', utf8 [80, 70, 32, 236, 151, 144, 235, 159, 172]),
     (''ERROR_DCE'', utf8 [100, 67, 69, 32, 236, 151, 144, 235, 159, 172]),
     (''ERROR_EE'', utf8 [69, 69, 32, 236, 151, 144, 235, 159, 172]),
     (''ERROR_PS'', utf8 [235, 185, 132, 236, 160, 149, 236, 131, 129, 32, 236, 160, 132, 236, 149, 149, 32, 236, 157, 184, 234, 176, 128, 32, 40, 80, 83, 41]),
     (''ERROR_LOE'', utf8 [236, 132, 184, 236, 160, 156, 32, 237, 136, 172, 236, 158, 133, 234, 181, 172, 32, 236, 151, 180, 235, 166, 188, 32, 236, 151, 144, 235, 159, 172, 32, 40, 76, 79, 69, 41]),
     (''ERROR_TE1'', utf8 [236, 152, 168, 235, 143, 132, 32, 236, 132, 188, 236, 132, 156, 32, 236, 151, 144, 235, 159, 172, 32, 40, 84, 69, 49, 41]),
     (''ERROR_TE2'', utf8 [236, 152, 168, 235, 143, 132, 32, 236, 132, 188, 236, 132, 156, 32, 236, 151, 144, 235, 159, 172, 32, 40, 84, 69, 50, 41]),
     (''ERROR_CE1'', utf8 [236, 187, 180, 237, 148, 132, 235, 160, 136, 236, 132, 156, 32, 236, 151, 144, 235, 159, 172, 32, 40, 67, 69, 49, 41]),
     (''ERROR_DRAINMOTOR'', utf8 [237, 142, 140, 237, 148, 132, 32, 236, 151, 144, 235, 159, 172, 32, 40, 79, 69, 41]),
     (''ERROR_EMPTYWATER'', utf8 [235, 172, 188, 32, 235, 185, 132, 236, 154, 176, 234, 184, 176, 32, 236, 149, 140, 235, 166, 188]),
     (''ERROR_DOOR'', utf8 [235, 172, 184, 32, 236, 151, 180, 235, 166, 188, 32, 236, 151, 144, 235, 159, 172, 32, 40, 100, 69, 49, 41]),
     (''ERROR_NOFILTER'', utf8 [237, 149, 132, 237, 132, 176, 32, 236, 151, 134, 236, 157, 140, 32, 236, 151, 144, 235, 159, 172, 32, 40, 73, 70, 41]),
     (''ERROR_F1'', utf8 [234, 179, 160, 236, 152, 168, 32, 234, 176, 144, 236, 167, 128, 32, 236, 151, 144, 235, 159, 172, 32, 40, 70, 49, 41]),
     (''ERROR_LE1'', utf8 [235, 170, 168, 237, 132, 176, 32, 235, 169, 136, 236, 182, 164, 32, 40, 76, 69, 49, 41]),
     (''ERROR_LE2'', utf8 [236, 187, 180, 237, 148, 132, 235, 160, 136, 236, 132, 156, 32, 236, 151, 144, 235, 159, 172, 32, 40, 76, 69, 50, 41]),
     (''ERROR_LE3'', utf8 [237, 140, 172, 32, 235, 170, 168, 237, 132, 176, 32, 236, 151, 144, 235, 159, 172, 32, 40, 76, 69, 51, 41]),
     (''ERROR_AE_DRYER'', utf8 [236, 187, 180, 237, 148, 132, 235, 160, 136, 236, 132, 156, 32, 236, 151, 144, 235, 159, 172, 32, 40, 65, 69, 41]),
     (''ERROR_DE4'', utf8 [235, 143, 132, 236, 150, 180, 32, 236, 132, 188, 236, 132, 156, 32, 236, 151, 144, 235, 159, 172, 32, 40, 100, 69, 52, 41]),
     (''FIRMWARE'', utf8 [236, 151, 133, 235, 141, 176, 236, 157, 180, 237, 138, 184, 32, 236, 164, 145]),
     (''TOWELS'', utf8 [237, 131, 128, 236, 155, 148]),
     (''BULKYITEM'', utf8 [236, 157, 180, 235, 182, 136]),
     (''EASYCARE'', utf8 [236, 133, 148, 236, 184, 160]),
     (''COTTONNORMAL'', utf8 [237, 145, 156, 236, 164, 128]),
     (''SPORTWEAR'', utf8 [234, 184, 176, 235, 138, 165, 236, 132, 177, 236, 157, 152, 235, 165, 152]),
     (''QUICKDRY'', utf8 [236, 134, 140, 235, 159, 137, 234, 184, 137, 236, 134, 141]),
     (''WOOL'', utf8 [236, 154, 184, 47, 236, 132, 172, 236, 132, 184]),
     (''RACKDRY'', utf8 [236, 132, 160, 235, 176, 152, 32, 234, 177, 180, 236, 161, 176]),
     (''TIMEDRY'', utf8 [236, 139, 156, 234, 176, 132, 234, 177, 180, 236, 161, 176]),
     (''COOLAIR'', utf8 [236, 134, 161, 237, 146, 141]),
     (''WARMAIR'', utf8 [236, 152, 168, 237, 146, 141]),
     (''CONDENSERCARE'', utf8 [236, 189, 152, 235, 141, 180, 236, 132, 156, 32, 236, 188, 128, 236, 150, 180]),
     (''BEDDING_BRUSH'', utf8 [236, 185, 168, 234, 181, 172, 237, 132, 184, 234, 184, 176]),
     (''ALLERGYCARE'', utf8 [236, 130, 180, 234, 183, 160]),
     (''PADDINGREFRESH'', utf8 [237, 140, 168, 235, 148, 169, 235, 166, 172, 237, 148, 132, 235, 160, 136, 236, 137, 172]),
     (''WATERREPELLENT'', utf8 [236, 149, 132, 236, 155, 131, 235, 143, 132, 236, 150, 180, 235, 166, 172, 237, 148, 132, 235, 160, 136, 236, 137, 172])]"

definition KOREAN_VALUES_3 :: table where
  "KOREAN_VALUES_3 = [
     (''DOWNLOADED'', utf8 [235, 139, 164, 236, 154, 180, 235, 161, 156, 235, 147, 156, 236, 189, 148, 236, 138, 164]),
     (''NORMAL_WASH'', utf8 [237, 145, 156, 236, 164, 128, 236, 132, 184, 237, 131, 129]),
     (''STAIN_CARE'', utf8 [236, 176, 140, 235, 147, 160, 235, 149, 140]),
     (''BABY_WEAR'', utf8 [236, 149, 132, 234, 184, 176, 236, 152, 183]),
     (''ECO_BOIL'', utf8 [236, 149, 140, 235, 156, 176, 236, 130, 182, 236, 157, 140]),
     (''ALLERGY_CARE'', utf8 [236, 149, 140, 235, 159, 172, 236, 167, 128, 236, 188, 128, 236, 150, 180]),
     (''STEAM_STYLING'', utf8 [236, 138, 164, 237, 140, 128, 236, 138, 164, 237, 131, 128, 236, 157, 188, 235, 167, 129]),
     (''RINSE_SPIN'', utf8 [237, 151, 185, 234, 181, 188, 43, 237, 131, 136, 236, 136, 152]),
     (''LINGERIE_WOOL'', utf8 [235, 158, 128, 236, 160, 156, 235, 166, 172, 47, 236, 154, 184]),
     (''COLOR_CARE'', utf8 [236, 187, 172, 235, 159, 172, 236, 188, 128, 236, 150, 180]),
     (''QUIET_WASH'', utf8 [236, 161, 176, 236, 154, 169, 236, 161, 176, 236, 154, 169]),
     (''smart'', utf8 [236, 138, 164, 235, 167, 136, 237, 138, 184]),
     (''fast'', utf8 [236, 190, 140, 236, 134, 141]),
     (''silent'', utf8 [236, 160, 128, 236, 134, 140, 236, 157, 140]),
     (''concentrated_drying'', utf8 [236, 167, 145, 236, 164, 145, 32, 234, 177, 180, 236, 161, 176]),
     (''clothing_drying'', utf8 [236, 157, 152, 235, 165, 152, 32, 234, 177, 180, 236, 161, 176]),
     (''operating_only'', utf8 [236, 154, 180, 236, 160, 132, 32, 236, 164, 145, 236, 151, 144, 235, 167, 140]),
     (''always'', utf8 [237, 149, 173, 236, 131, 129]),
     (''lowest'', utf8 [236, 181, 156, 236, 149, 189]),
     (''very_low'', utf8 [235, 167, 164, 236, 154, 176, 32, 236, 149, 189]),
     (''weak_wind'', utf8 [236, 149, 189, 237, 146, 141]),
     (''medium_wind'', utf8 [236, 164, 145, 237, 146, 141]),
     (''strong_wind'', utf8 [234, 176, 149, 237, 146, 141]),
     (''low'', utf8 [236, 149, 189]),
     (''medium_low'', utf8 [236, 164, 145, 236, 149, 189]),
     (''medium'', utf8 [236, 164, 145]),
     (''medium_high'', utf8 [236, 164, 145, 234, 176, 149]),
     (''high'', utf8 [234, 176, 149]),
     (''power'', utf8 [237, 140, 140, 236, 155, 140]),
     (''very high'', utf8 [236, 181, 156, 234, 176, 149]),
     (''very low'', utf8 [236, 181, 156, 236, 149, 189]),
     (''level_1'', utf8 [49, 235, 139, 168]),
     (''level_2'', utf8 [50, 235, 139, 168]),
     (''level_3'', utf8 [51, 235, 139, 168]),
     (''level_4'', utf8 [52, 235, 139, 168]),
     (''level_5'', utf8 [53, 235, 139, 168]),
     (''natural'', utf8 [236, 158, 144, 236, 151, 176, 237, 146, 141]),
     (''swing'', utf8 [237, 154, 140, 236, 160, 132]),
     (''focus_left'', utf8 [236, 162, 140, 236, 184, 161, 236, 167, 145, 236, 164, 145]),
     (''focus_center'', utf8 [236, 164, 145, 236, 149, 153, 236, 167, 145, 236, 164, 145]),
     (''focus_right'', utf8 [236, 154, 176, 236, 184, 161, 236, 167, 145, 236, 164, 145]),
     (''position_1'', utf8 [236, 156, 132, 236, 185, 152, 49]),
     (''position_2'', utf8 [236, 156, 132, 236, 185, 152, 50]),
     (''position_3'', utf8 [236, 156, 132, 236, 185, 152, 51]),
     (''position_4'', utf8 [236, 156, 132, 236, 185, 152, 52]),
     (''position_5'', utf8 [236, 156, 132, 236, 185, 152, 53]),
     (''position_6'', utf8 [236, 156, 132, 236, 185, 152, 54]),
     (''disabled'', utf8 [234, 186, 188, 236, 167, 144]),
     (''30_minutes'', utf8 [51, 48, 235, 182, 132]),
     (''1_hours'', utf8 [49, 236, 139, 156, 234, 176, 132]),
     (''2_hours'', utf8 [50, 236, 139, 156, 234, 176, 132]),
     (''3_hours'', utf8 [51, 236, 139, 156, 234, 176, 132]),
     (''4_hours'', utf8 [52, 236, 139, 156, 234, 176, 132]),
     (''5_hours'', utf8 [53, 236, 139, 156, 234, 176, 132]),
     (''6_hours'', utf8 [54, 236, 139, 156, 234, 176, 132]),
     (''7_hours'', utf8 [55, 236, 139, 156, 234, 176, 132]),
     (''8_hours'', utf8 [56, 236, 139, 156, 234, 176, 132]),
     (''9_hours'', utf8 [57, 236, 139, 156, 234, 176, 132]),
     (''10_hours'', utf8 [49, 48, 236, 139, 156, 234, 176, 132]),
     (''11_hours'', utf8 [49, 49, 236, 139, 156, 234, 176, 132]),
     (''12_hours'', utf8 [49, 50, 236, 139, 156, 234, 176, 132]),
     (''on'', utf8 [236, 188, 156, 236, 167, 144]),
     (''long power'', utf8 [235, 161, 177, 237, 140, 140, 236, 155, 140]),
     (''half_degree'', utf8 [48, 46, 53, 235, 143, 132]),
     (''one_degree'', utf8 [49, 235, 143, 132]),
     (''kimchi_medium'', utf8 [235, 167, 155, 236, 167, 128, 237, 130, 180, 32, 234, 185, 128, 236, 185, 152, 32, 236, 164, 145]),
     (''kimchi_high'', utf8 [235, 167, 155, 236, 167, 128, 237, 130, 180, 32, 234, 185, 128, 236, 185, 152, 32, 234, 176, 149]),
     (''kimchi_low'', utf8 [235, 167, 155, 236, 167, 128, 237, 130, 180, 32, 234, 185, 128, 236, 185, 152, 32, 236, 149, 189]),
     (''fridge_medium'', utf8 [235, 131, 137, 236, 158, 165, 32, 236, 164, 145]),
     (''fridge_high'', utf8 [235, 131, 137, 236, 158, 165, 32, 234, 176, 149]),
     (''fridge_low'', utf8 [235, 131, 137, 236, 158, 165, 32, 236, 149, 189]),
     (''freezer'', utf8 [235, 131, 137, 235, 143, 153]),
     (''fermenting'', utf8 [236, 157, 181, 237, 158, 152]),
     (''fermentation_done'', utf8 [235, 167, 155, 236, 167, 128, 237, 130, 180, 32, 234, 185, 128, 236, 185, 152, 32, 236, 164, 145, 32, 194, 183, 32, 236, 157, 181, 237, 158, 152, 32, 236, 153, 132, 235, 163, 140]),
     (''produce_medium'', utf8 [236, 149, 188, 236, 177, 132, 47, 234, 179, 188, 236, 157, 188, 32, 236, 164, 145]),
     (''produce_high'', utf8 [236, 149, 188, 236, 177, 132, 47, 234, 179, 188, 236, 157, 188, 32, 234, 176, 149]),
     (''produce_low'', utf8 [236, 149, 188, 236, 177, 132, 47, 234, 179, 188, 236, 157, 188, 32, 236, 149, 189]),
     (''meat_fish'', utf8 [236, 156, 161, 235, 165, 152, 47, 236, 131, 157, 236, 132, 160]),
     (''lacto_kimchi'', utf8 [236, 156, 160, 236, 130, 176, 234, 183, 160, 32, 234, 185, 128, 236, 185, 152, 43]),
     (''lacto_kimchi_step_1'', utf8 [236, 156, 160, 236, 130, 176, 234, 183, 160, 32, 234, 185, 128, 236, 185, 152, 43, 32, 49, 47, 51, 235, 139, 168, 234, 179, 132]),
     (''lacto_kimchi_step_2'', utf8 [236, 156, 160, 236, 130, 176, 234, 183, 160, 32, 234, 185, 128, 236, 185, 152, 43, 32, 50, 47, 51, 235, 139, 168, 234, 179, 132]),
     (''lacto_kimchi_step_3'', utf8 [236, 156, 160, 236, 130, 176, 234, 183, 160, 32, 234, 185, 128, 236, 185, 152, 43, 32, 51, 47, 51, 235, 139, 168, 234, 179, 132]),
     (''rice_grain'', utf8 [236, 140, 128, 47, 236, 158, 161, 234, 179, 161]),
     (''bought_kimchi'', utf8 [234, 181, 172, 236, 158, 133, 32, 234, 185, 128, 236, 185, 152]),
     (''long_storage'', utf8 [236, 152, 164, 235, 158, 152, 32, 235, 179, 180, 234, 180, 128]),
     (''top_off'', utf8 [236, 131, 129, 236, 185, 184, 32, 234, 186, 188, 236, 167, 144]),
     (''middle_off'', utf8 [236, 164, 145, 236, 185, 184, 32, 234, 186, 188, 236, 167, 144]),
     (''bottom_off'', utf8 [237, 149, 152, 236, 185, 184, 32, 234, 186, 188, 236, 167, 144])]"

definition KOREAN_NAMES :: table where "KOREAN_NAMES = KOREAN_NAMES_1 @ KOREAN_NAMES_2"
definition KOREAN_VALUES :: table where "KOREAN_VALUES = KOREAN_VALUES_1 @ KOREAN_VALUES_2 @ KOREAN_VALUES_3"

definition localizeValue :: "language \<Rightarrow> string \<Rightarrow> string" where
  "localizeValue = localize_with KOREAN_VALUES"

definition delocalizeValue :: "language \<Rightarrow> string \<Rightarrow> string" where
  "delocalizeValue = delocalize_with KOREAN_VALUES"

definition localizeDiscovery :: "language \<Rightarrow> obj \<Rightarrow> obj" where
  "localizeDiscovery = localize_discovery_with KOREAN_NAMES KOREAN_VALUES"

end
