(* ===== verification/HaConnection.thy ===== *)
theory HaConnection
  imports HaTables
begin

text \<open>
  The connection to Home Assistant, \<open>cloud/homeassistant.ts\<close>: a step function over what the MQTT client and
  the server's other parts ask of it. Messages, subscriptions and emitted events are the list \<open>ha_log\<close>;
  a payload is its decoded text, a discovery message the document it is the JSON of. Timers are the sets
  of identifiers they run for. What the server names an appliance is part of the event.
\<close>

record ha_config =
  lang :: language
  discovery_prefix :: string
  rethink_prefix :: string

datatype ha_out =
    Subscribe string
  | Unsubscribe string
  | Text string string bool
  | Config string doc
  | EmitDiscovery
  | EmitSetProperty string string string
  | EmitStatus bool

record ha_conn =
  isConnected :: bool
  publishedAvailability :: "string set"
  localizedCommandValues :: "string \<rightharpoonup> (string \<rightharpoonup> string)"
  localizedStateValues :: "string \<rightharpoonup> (string \<rightharpoonup> string)"
  liveProperties :: "string \<rightharpoonup> string set"
  sweepTimers :: "string set"
  ha_log :: "ha_out list"

definition new_conn :: ha_conn where
  "new_conn = \<lparr>isConnected = False, publishedAvailability = {}, localizedCommandValues = Map.empty, localizedStateValues = Map.empty,
     liveProperties = Map.empty, sweepTimers = {}, ha_log = []\<rparr>"

definition tell :: "ha_out list \<Rightarrow> ha_conn \<Rightarrow> ha_conn" where
  "tell xs s = s\<lparr>ha_log := ha_log s @ xs\<rparr>"

definition topic_of :: "ha_config \<Rightarrow> string \<Rightarrow> string \<Rightarrow> string" where
  "topic_of cf i p = rethink_prefix cf @ ''/'' @ i @ ''/'' @ p"

definition value_key :: "string \<Rightarrow> string \<Rightarrow> string" where
  "value_key i p = i @ ''/'' @ p"

subsection \<open>The connection\<close>

definition connected :: "ha_config \<Rightarrow> ha_conn \<Rightarrow> ha_conn" where
  "connected cf s =
    tell [Subscribe (discovery_prefix cf @ ''/status''), Subscribe (rethink_prefix cf @ ''/+/+/set''), Subscribe (rethink_prefix cf @ ''/+/availability''),
        Text (rethink_prefix cf @ ''/availability'') ''online'' True, EmitDiscovery, EmitStatus True]
      (s\<lparr>publishedAvailability := {}, isConnected := True\<rparr>)"

definition disconnected :: "ha_conn \<Rightarrow> ha_conn" where
  "disconnected s = tell [EmitStatus False] (s\<lparr>sweepTimers := {}, liveProperties := Map.empty, isConnected := False\<rparr>)"

definition clearIfOrphaned :: "string \<Rightarrow> string \<Rightarrow> string \<Rightarrow> string \<Rightarrow> ha_conn \<Rightarrow> ha_conn" where
  "clearIfOrphaned i p topic message s =
    (if i \<notin> sweepTimers s \<or> message = [] then s
     else if (case liveProperties s i of Some ps \<Rightarrow> p \<in> ps | None \<Rightarrow> False) then s
     else tell [Text topic [] True] s)"

definition original_value :: "ha_config \<Rightarrow> string \<Rightarrow> string \<Rightarrow> string \<Rightarrow> ha_conn \<Rightarrow> string" where
  "original_value cf i p text s =
    (case localizedCommandValues s (value_key i p) of
       Some m \<Rightarrow> (case m text of Some v \<Rightarrow> v | None \<Rightarrow> delocalizeValue (lang cf) text)
     | None \<Rightarrow> delocalizeValue (lang cf) text)"

definition received :: "ha_config \<Rightarrow> string \<Rightarrow> string \<Rightarrow> bool \<Rightarrow> ha_conn \<Rightarrow> ha_conn" where
  "received cf topic message retain s =
    (let s = (if topic = discovery_prefix cf @ ''/status'' \<and> message = ''online'' then tell [EmitDiscovery] s else s) in
     case strip_prefix (rethink_prefix cf @ ''/'') topic of
       None \<Rightarrow> s
     | Some rest \<Rightarrow>
         (case split_on CHR ''/'' rest of
            [i, p, k] \<Rightarrow> if k = ''set'' then tell [EmitSetProperty i p (original_value cf i p message s)] s else s
          | [i, p] \<Rightarrow>
              let s = (if p \<noteq> ''availability'' \<and> retain then clearIfOrphaned i p topic message s else s)
              in if p = ''availability'' \<and> message = ''online'' \<and> retain \<and> i \<notin> publishedAvailability s then tell [Text topic ''offline'' True] s
                 else s
          | _ \<Rightarrow> s))"

subsection \<open>Labels\<close>

definition VALUE_KEYS :: "(string \<times> string \<times> string) list" where
  "VALUE_KEYS = [(''options'', ''command_topic'', ''state_topic''),
     (''fan_modes'', ''fan_mode_command_topic'', ''fan_mode_state_topic''),
     (''swing_modes'', ''swing_mode_command_topic'', ''swing_mode_state_topic''),
     (''swing_horizontal_modes'', ''swing_horizontal_mode_command_topic'', ''swing_horizontal_mode_state_topic''),
     (''preset_modes'', ''preset_mode_command_topic'', ''preset_mode_state_topic''),
     (''modes'', ''mode_command_topic'', ''mode_state_topic'')]"

text \<open>The two regular expressions; a dot is no line break.\<close>

definition one_line :: "string \<Rightarrow> bool" where
  "one_line p \<longleftrightarrow> p \<noteq> [] \<and> CHR 0x0a \<notin> set p \<and> CHR 0x0d \<notin> set p"

definition state_property :: "doc option \<Rightarrow> string option" where
  "state_property v = (case v of
     Some (DStr t) \<Rightarrow> (case strip_prefix ''$this/'' t of Some p \<Rightarrow> if one_line p then Some p else None | None \<Rightarrow> None)
   | _ \<Rightarrow> None)"

definition command_property :: "doc option \<Rightarrow> string option" where
  "command_property v = (case v of
     Some (DStr t) \<Rightarrow> (case strip_prefix ''$this/'' t of
         Some r \<Rightarrow> if ends_with ''/set'' r \<and> one_line (take (length r - 4) r) then Some (take (length r - 4) r) else None
       | None \<Rightarrow> None)
   | _ \<Rightarrow> None)"

fun text_pairs :: "doc list \<Rightarrow> doc list \<Rightarrow> (string \<times> string) list" where
  "text_pairs (DStr v # vs) (DStr l # ls) = (v, l) # text_pairs vs ls"
| "text_pairs (_ # vs) (_ # ls) = text_pairs vs ls"
| "text_pairs _ _ = []"

definition map_from :: "('a \<times> 'b) list \<Rightarrow> 'a \<rightharpoonup> 'b" where
  "map_from kvs = foldl (\<lambda>m (k, v). m(k \<mapsto> v)) Map.empty kvs"

definition register_key :: "string \<Rightarrow> obj \<Rightarrow> obj \<Rightarrow> ha_conn \<Rightarrow> string \<times> string \<times> string \<Rightarrow> ha_conn" where
  "register_key i source translated s = (\<lambda>(valuesKey, commandKey, stateKey).
    case (map_of source valuesKey, map_of translated valuesKey) of
      (Some (DArr values), Some (DArr labels)) \<Rightarrow>
        let pairs = text_pairs values labels;
            s = (case command_property (map_of source commandKey) of
                Some p \<Rightarrow> s\<lparr>localizedCommandValues := (localizedCommandValues s)(value_key i p \<mapsto> map_from (map (\<lambda>(v, l). (l, v)) pairs))\<rparr>
              | None \<Rightarrow> s)
        in (case state_property (map_of source stateKey) of
              Some p \<Rightarrow> s\<lparr>localizedStateValues := (localizedStateValues s)(value_key i p \<mapsto> map_from pairs)\<rparr>
            | None \<Rightarrow> s)
    | _ \<Rightarrow> s)"

definition parts_of :: "obj \<Rightarrow> (string \<times> doc) list" where
  "parts_of config = as_obj (map_of config ''components'')"

definition registerLocalizedCommands :: "ha_config \<Rightarrow> string \<Rightarrow> obj \<Rightarrow> obj \<Rightarrow> ha_conn \<Rightarrow> ha_conn" where
  "registerLocalizedCommands cf i original localized s =
    (if lang cf \<noteq> Korean then s
     else foldl (\<lambda>s (key, part). case map_of (parts_of localized) key of
         None \<Rightarrow> s
       | Some part' \<Rightarrow> foldl (register_key i (as_obj (Some part)) (as_obj (Some part'))) s VALUE_KEYS) s (parts_of original))"

subsection \<open>Discovery\<close>

definition sweepRetainedState :: "ha_config \<Rightarrow> string \<Rightarrow> obj \<Rightarrow> ha_conn \<Rightarrow> ha_conn" where
  "sweepRetainedState cf i config s =
    (let properties = stateProperties config; previous = liveProperties s i;
         s = s\<lparr>liveProperties := (liveProperties s)(i \<mapsto> properties)\<rparr>
     in if previous = Some properties then s
        else (if i \<in> sweepTimers s then s else tell [Subscribe (topic_of cf i ''+'')] s)\<lparr>sweepTimers := insert i (sweepTimers s)\<rparr>)"

definition sweep_over :: "ha_config \<Rightarrow> string \<Rightarrow> ha_conn \<Rightarrow> ha_conn" where
  "sweep_over cf i s =
    (if i \<in> sweepTimers s then tell [Unsubscribe (topic_of cf i ''+'')] (s\<lparr>sweepTimers := sweepTimers s - {i}\<rparr>) else s)"

definition replacements :: "ha_config \<Rightarrow> string \<Rightarrow> table" where
  "replacements cf i = [(''$this'', rethink_prefix cf @ ''/'' @ i), (''$rethink'', rethink_prefix cf), (''$deviceid'', i)]"

definition with_name :: "string option \<Rightarrow> obj \<Rightarrow> obj" where
  "with_name registered config = (case registered of
     Some n \<Rightarrow> if n = [] then config else update_present (in_object (AList.update ''name'' (DStr n))) ''device'' config
   | None \<Rightarrow> config)"

text \<open>The document as it is published, before the placeholders are filled in.\<close>

definition announced :: "ha_config \<Rightarrow> string option \<Rightarrow> obj \<Rightarrow> obj" where
  "announced cf registered config =
    nameEntities (with_name registered (localizeDiscovery (lang cf) config))"

text \<open>
  \<open>publishConfig\<close>, and the caller's document afterwards: without a translation the caller's own object is
  the one that gets the name and the object identifiers.
\<close>

definition publishConfig :: "ha_config \<Rightarrow> string \<Rightarrow> string option \<Rightarrow> obj \<Rightarrow> ha_conn \<Rightarrow> ha_conn \<times> obj" where
  "publishConfig cf i registered config s =
    (let localized = announced cf registered config;
         config' = (if lang cf = Korean then config else localized)
     in if validateDeviceDiscovery localized \<noteq> [] then (s, config')
        else (sweepRetainedState cf i localized
            (tell [Config (discovery_prefix cf @ ''/device/rethink/'' @ i @ ''/config'') (recursiveReplace (replacements cf i) (DObj localized))]
              (registerLocalizedCommands cf i config' localized s)), config'))"

subsection \<open>Values\<close>

definition clearRetainedProperty :: "ha_config \<Rightarrow> string \<Rightarrow> string \<Rightarrow> ha_conn \<Rightarrow> ha_conn" where
  "clearRetainedProperty cf i p s = tell [Text (topic_of cf i p) [] True] s"

definition shown_value :: "ha_config \<Rightarrow> string \<Rightarrow> string \<Rightarrow> string \<Rightarrow> ha_conn \<Rightarrow> string" where
  "shown_value cf i p v s =
    (case localizedStateValues s (value_key i p) of
       Some m \<Rightarrow> (case m v of Some l \<Rightarrow> l | None \<Rightarrow> localizeValue (lang cf) v)
     | None \<Rightarrow> localizeValue (lang cf) v)"

definition publishProperty :: "ha_config \<Rightarrow> string \<Rightarrow> string \<Rightarrow> string \<Rightarrow> bool \<Rightarrow> ha_conn \<Rightarrow> ha_conn" where
  "publishProperty cf i p v retain s =
    (let s = (if p = ''availability'' then s\<lparr>publishedAvailability := insert i (publishedAvailability s)\<rparr> else s)
     in tell [Text (topic_of cf i p) (shown_value cf i p v s) retain] s)"

subsection \<open>Runs\<close>

datatype hc_event =
    Connected
  | Disconnected
  | Received string string bool
  | PublishConfig string "string option" obj
  | PublishProperty string string string bool
  | ClearRetained string string
  | SweepOver string

fun hc_step :: "ha_config \<Rightarrow> ha_conn \<Rightarrow> hc_event \<Rightarrow> ha_conn" where
  "hc_step cf s Connected = connected cf s"
| "hc_step cf s Disconnected = disconnected s"
| "hc_step cf s (Received topic message retain) = received cf topic message retain s"
| "hc_step cf s (PublishConfig i n config) = fst (publishConfig cf i n config s)"
| "hc_step cf s (PublishProperty i p v retain) = publishProperty cf i p v retain s"
| "hc_step cf s (ClearRetained i p) = clearRetainedProperty cf i p s"
| "hc_step cf s (SweepOver i) = sweep_over cf i s"

definition hc_run :: "ha_config \<Rightarrow> hc_event list \<Rightarrow> ha_conn" where
  "hc_run cf es = foldl (hc_step cf) new_conn es"

end
