(* ===== verification/HaSafety.thy ===== *)
theory HaSafety
  imports HaConnection
begin

text \<open>
  What the connection to Home Assistant keeps in every run: which values a sweep may clear, which
  retained availability it takes back, that every topic it announces is concrete, that a label means the
  value it stands for, and how entities are named.
\<close>

named_theorems ha_simps

subsection \<open>What a step leaves alone\<close>

lemma told_fields [ha_simps]: "isConnected (tell xs s) = isConnected s" "publishedAvailability (tell xs s) = publishedAvailability s"
  "localizedCommandValues (tell xs s) = localizedCommandValues s" "localizedStateValues (tell xs s) = localizedStateValues s"
  "liveProperties (tell xs s) = liveProperties s" "sweepTimers (tell xs s) = sweepTimers s" "ha_log (tell xs s) = ha_log s @ xs"
  by (simp_all add: tell_def)

lemma tell_tell [ha_simps]: "tell xs (tell ys s) = tell (ys @ xs) s"
  by (simp add: tell_def)

lemma tell_Nil [simp]: "tell [] s = s"
  by (simp add: tell_def)

lemma clearIfOrphaned_eq:
  "clearIfOrphaned i p t m s =
    tell (if i \<in> sweepTimers s \<and> m \<noteq> [] \<and> p \<notin> (case liveProperties s i of Some ps \<Rightarrow> ps | None \<Rightarrow> {}) then [Text t [] True] else []) s"
  by (auto simp: clearIfOrphaned_def split: option.split)

lemma tell_if: "(if b then tell xs s else s) = tell (if b then xs else []) s"
  by (simp add: tell_def)

text \<open>The three shapes of a topic under the server's prefix.\<close>

lemma topic_shapes:
  obtains (three) i p k where "xs = [i, p, k]" | (two) i p where "xs = [i, p]" | (other) "length xs \<noteq> 2" "length xs \<noteq> 3"
proof -
  consider "length xs = 2" | "length xs = 3" | "length xs \<noteq> 2" "length xs \<noteq> 3" by blast
  then show thesis by cases (use two three other in \<open>auto simp: numeral_2_eq_2 numeral_3_eq_3 length_Suc_conv\<close>)
qed

lemma other_shape [simp]:
  "length xs \<noteq> 2 \<Longrightarrow> length xs \<noteq> 3 \<Longrightarrow> (case xs of [i, p, k] \<Rightarrow> f i p k | [i, p] \<Rightarrow> g i p | _ \<Rightarrow> h) = h"
  by (auto split: list.split)

lemma tells [simp]: "\<exists>xs. s = tell xs s" "\<exists>xs. tell ys s = tell xs s"
  by (metis tell_Nil) blast

lemma received_tells: "\<exists>xs. received cf t m r s = tell xs s"
  unfolding received_def Let_def tell_if clearIfOrphaned_eq
  by (cases "strip_prefix (rethink_prefix cf @ ''/'') t"; simp add: ha_simps;
      cases "split_on CHR ''/'' (the (strip_prefix (rethink_prefix cf @ ''/'') t))" rule: topic_shapes; simp add: ha_simps)

lemma received_fields [ha_simps]: "publishedAvailability (received cf t m r s) = publishedAvailability s"
  "localizedCommandValues (received cf t m r s) = localizedCommandValues s"
  "localizedStateValues (received cf t m r s) = localizedStateValues s"
  "liveProperties (received cf t m r s) = liveProperties s" "sweepTimers (received cf t m r s) = sweepTimers s"
  using received_tells [of cf t m r s] by (auto simp: ha_simps)

lemma foldl_fixed: "(\<And>x s. x \<in> set xs \<Longrightarrow> g (f s x) = g s) \<Longrightarrow> g (foldl f s xs) = g s"
  by (induction xs arbitrary: s) auto

lemma register_key_fields [ha_simps]: "publishedAvailability (register_key i a b s k) = publishedAvailability s"
  "liveProperties (register_key i a b s k) = liveProperties s" "sweepTimers (register_key i a b s k) = sweepTimers s"
  "ha_log (register_key i a b s k) = ha_log s"
  by (simp_all add: register_key_def Let_def split: prod.split option.split doc.split)

lemma labels_fields [ha_simps]: "publishedAvailability (registerLocalizedCommands cf i a b s) = publishedAvailability s"
  "liveProperties (registerLocalizedCommands cf i a b s) = liveProperties s"
  "sweepTimers (registerLocalizedCommands cf i a b s) = sweepTimers s" "ha_log (registerLocalizedCommands cf i a b s) = ha_log s"
  by (simp_all add: registerLocalizedCommands_def ha_simps foldl_fixed split: prod.split option.split)

lemma sweep_fields [ha_simps]: "publishedAvailability (sweepRetainedState cf i c s) = publishedAvailability s"
  "localizedCommandValues (sweepRetainedState cf i c s) = localizedCommandValues s"
  "localizedStateValues (sweepRetainedState cf i c s) = localizedStateValues s"
  "liveProperties (sweepRetainedState cf i c s) = (liveProperties s)(i \<mapsto> stateProperties c)"
  "sweepTimers (sweepRetainedState cf i c s) = (if liveProperties s i = Some (stateProperties c) then sweepTimers s else insert i (sweepTimers s))"
  by (simp_all add: sweepRetainedState_def Let_def ha_simps)

lemma publishConfig_fields [ha_simps]: "publishedAvailability (fst (publishConfig cf i n c s)) = publishedAvailability s"
  "liveProperties (fst (publishConfig cf i n c s)) =
    (if validateDeviceDiscovery (announced cf n c) \<noteq> [] then liveProperties s
     else (liveProperties s)(i \<mapsto> stateProperties (announced cf n c)))"
  "sweepTimers (fst (publishConfig cf i n c s)) =
    (if validateDeviceDiscovery (announced cf n c) \<noteq> [] \<or> liveProperties s i = Some (stateProperties (announced cf n c)) then sweepTimers s
     else insert i (sweepTimers s))"
  by (simp_all add: publishConfig_def Let_def ha_simps)

lemma publishProperty_fields [ha_simps]: "liveProperties (publishProperty cf i p v r s) = liveProperties s"
  "sweepTimers (publishProperty cf i p v r s) = sweepTimers s"
  "localizedCommandValues (publishProperty cf i p v r s) = localizedCommandValues s"
  "localizedStateValues (publishProperty cf i p v r s) = localizedStateValues s"
  "publishedAvailability (publishProperty cf i p v r s) =
    (if p = ''availability'' then insert i (publishedAvailability s) else publishedAvailability s)"
  by (simp_all add: publishProperty_def Let_def ha_simps)

lemma small_fields [ha_simps]: "publishedAvailability (disconnected s) = publishedAvailability s" "publishedAvailability (connected cf s) = {}"
  "liveProperties (disconnected s) = Map.empty" "sweepTimers (disconnected s) = {}"
  "liveProperties (connected cf s) = liveProperties s" "sweepTimers (connected cf s) = sweepTimers s"
  "publishedAvailability (sweep_over cf i s) = publishedAvailability s" "liveProperties (sweep_over cf i s) = liveProperties s"
  "sweepTimers (sweep_over cf i s) = sweepTimers s - {i}"
  "publishedAvailability (clearRetainedProperty cf i p s) = publishedAvailability s"
  "liveProperties (clearRetainedProperty cf i p s) = liveProperties s" "sweepTimers (clearRetainedProperty cf i p s) = sweepTimers s"
  by (simp_all add: disconnected_def connected_def sweep_over_def clearRetainedProperty_def ha_simps)

lemma small_maps [ha_simps]: "localizedCommandValues (disconnected s) = localizedCommandValues s"
  "localizedStateValues (disconnected s) = localizedStateValues s"
  "localizedCommandValues (connected cf s) = localizedCommandValues s" "localizedStateValues (connected cf s) = localizedStateValues s"
  "localizedCommandValues (sweep_over cf i s) = localizedCommandValues s" "localizedStateValues (sweep_over cf i s) = localizedStateValues s"
  "localizedCommandValues (clearRetainedProperty cf i p s) = localizedCommandValues s"
  "localizedStateValues (clearRetainedProperty cf i p s) = localizedStateValues s"
  by (simp_all add: disconnected_def connected_def sweep_over_def clearRetainedProperty_def ha_simps)

lemma hc_run_snoc [simp]: "hc_run cf (es @ [e]) = hc_step cf (hc_run cf es) e"
  by (simp add: hc_run_def)

lemma hc_run_Nil [simp]: "hc_run cf [] = new_conn"
  by (simp add: hc_run_def)

text \<open>What a step says, after all that was said before.\<close>

definition sent_by :: "ha_config \<Rightarrow> ha_conn \<Rightarrow> hc_event \<Rightarrow> ha_out list" where
  "sent_by cf s e = drop (length (ha_log s)) (ha_log (hc_step cf s e))"

lemma split_topic: "CHR ''/'' \<notin> set i \<Longrightarrow> CHR ''/'' \<notin> set p \<Longrightarrow> split_on CHR ''/'' (i @ CHR ''/'' # p) = [i, p]"
  by (simp add: split_on_append)

lemma strip_topic: "strip_prefix (rethink_prefix cf @ ''/'') (topic_of cf i p) = Some (i @ CHR ''/'' # p)"
  by (simp add: topic_of_def strip_prefix_eq)


subsection \<open>Retained values\<close>

text \<open>
  What an appliance's window is, told from the events alone: the properties of the last document that was
  accepted on this connection, and whether a sweep is on.
\<close>

definition announces :: "ha_config \<Rightarrow> string \<Rightarrow> hc_event \<Rightarrow> string set option" where
  "announces cf i e = (case e of
     PublishConfig j n c \<Rightarrow> if j = i \<and> validateDeviceDiscovery (announced cf n c) = [] then Some (stateProperties (announced cf n c)) else None
   | _ \<Rightarrow> None)"

fun window_step :: "ha_config \<Rightarrow> string \<Rightarrow> string set option \<times> bool \<Rightarrow> hc_event \<Rightarrow> string set option \<times> bool" where
  "window_step cf i (ps, b) e = (case announces cf i e of
     Some qs \<Rightarrow> (Some qs, b \<or> ps \<noteq> Some qs)
   | None \<Rightarrow> if e = Disconnected then (None, False) else (ps, b \<and> e \<noteq> SweepOver i))"

definition window :: "ha_config \<Rightarrow> string \<Rightarrow> hc_event list \<Rightarrow> string set option \<times> bool" where
  "window cf i es = foldl (window_step cf i) (None, False) es"

definition window_of :: "string \<Rightarrow> ha_conn \<Rightarrow> string set option \<times> bool" where
  "window_of i s = (liveProperties s i, i \<in> sweepTimers s)"

lemma window_step_refines: "window_of i (hc_step cf s e) = window_step cf i (window_of i s) e"
  by (cases e) (auto simp: window_of_def announces_def ha_simps)

lemma window_run: "window_of i (hc_run cf es) = window cf i es"
proof (induction es rule: rev_induct)
  case Nil
  then show ?case by (simp add: window_of_def window_def new_conn_def)
next
  case (snoc e es)
  then show ?case by (simp add: window_step_refines window_def)
qed

definition phantom_step :: "string \<Rightarrow> bool \<Rightarrow> hc_event \<Rightarrow> bool" where
  "phantom_step i b e = (case e of
     Connected \<Rightarrow> False | PublishProperty j p v r \<Rightarrow> b \<or> j = i \<and> p = ''availability'' | _ \<Rightarrow> b)"

lemma phantom_run: "i \<in> publishedAvailability (hc_run cf es) \<longleftrightarrow> foldl (phantom_step i) False es"
proof (induction es rule: rev_induct)
  case Nil
  then show ?case by (simp add: new_conn_def)
next
  case (snoc e es)
  then show ?case by (cases e) (auto simp: phantom_step_def ha_simps)
qed

text \<open>What a retained message makes the connection say.\<close>

lemma retained_answer:
  assumes "CHR ''/'' \<notin> set i" "CHR ''/'' \<notin> set p"
  shows "sent_by cf s (Received (topic_of cf i p) m True) =
    (if topic_of cf i p = discovery_prefix cf @ ''/status'' \<and> m = ''online'' then [EmitDiscovery] else []) @
    (if p = ''availability''
     then if m = ''online'' \<and> i \<notin> publishedAvailability s then [Text (topic_of cf i p) ''offline'' True] else []
     else if i \<in> sweepTimers s \<and> m \<noteq> [] \<and> p \<notin> (case liveProperties s i of Some ps \<Rightarrow> ps | None \<Rightarrow> {})
       then [Text (topic_of cf i p) [] True] else [])"
  using assms
  by (simp add: sent_by_def received_def Let_def strip_topic split_topic tell_if clearIfOrphaned_eq ha_simps)


subsection \<open>Topics\<close>

lemma set_replace_from: "set (replace_from k p r s) \<subseteq> set r \<union> set s"
proof (induction k p r s rule: replace_from.induct)
  case (1 k p r s)
  then show ?case by (cases s) auto
qed (auto split: if_splits)

lemma concrete_replaceAll: "concrete r \<Longrightarrow> concrete s \<Longrightarrow> concrete (replaceAll p r s)"
  using set_replace_from [of 0 p r s] by (cases s) (auto simp: concrete_def replaceAll_def)

lemma concrete_fill_in: "\<forall>(p, r) \<in> set rs. concrete r \<Longrightarrow> concrete s \<Longrightarrow> concrete (fill_in rs s)"
  by (induction rs arbitrary: s) (auto simp: fill_in_def concrete_replaceAll)

lemma concrete_replacements:
  "concrete (rethink_prefix cf) \<Longrightarrow> concrete i \<Longrightarrow> \<forall>(p, r) \<in> set (replacements cf i). concrete r"
  by (auto simp: replacements_def concrete_def)

lemma issue_if_Nil [simp]: "issue_if b t = [] \<longleftrightarrow> \<not> b"
  by (simp add: issue_if_def)

lemma not_a_topic: "\<not> ends_with ''_topic'' ''platform''"
  by (simp add: ends_with_def)

lemma validated_component:
  "validateDeviceDiscovery d = [] \<Longrightarrow> (key, DObj part) \<in> set (parts_of d) \<Longrightarrow> validateComponent key part = []"
  unfolding validateDeviceDiscovery_def Let_def parts_of_def
  by (auto simp: as_obj_def split: option.splits doc.splits)

lemma validated_topic:
  assumes "validateComponent key part = []" "(k, v) \<in> set part" "ends_with ''_topic'' k"
  shows "validTopic (Some v)"
proof -
  from assms(1) obtain pl where pl: "map_of part ''platform'' = Some (DStr pl)" "pl \<in> set SUPPORTED_COMPONENTS" "pl \<noteq> []"
    unfolding validateComponent_def Let_def by (auto split: option.splits doc.splits if_splits)
  have "length part \<noteq> 1"
  proof
    assume "length part = 1"
    then obtain a where "part = [a]" by (auto simp: length_Suc_conv)
    with pl(1) assms(2,3) show False by (auto simp: not_a_topic split: if_splits)
  qed
  with assms(1) pl have "\<forall>(key, value) \<in> set part. \<not> (ends_with ''_topic'' key \<and> \<not> validTopic (Some value))"
    unfolding validateComponent_def Let_def by (auto simp del: set_concat)
  with assms(2,3) show ?thesis by auto
qed

lemma config_sent:
  "sent_by cf s (PublishConfig i n c) =
    (if validateDeviceDiscovery (announced cf n c) \<noteq> [] then []
     else Config (discovery_prefix cf @ ''/device/rethink/'' @ i @ ''/config'') (recursiveReplace (replacements cf i) (DObj (announced cf n c))) #
       (if liveProperties s i = Some (stateProperties (announced cf n c)) \<or> i \<in> sweepTimers s then [] else [Subscribe (topic_of cf i ''+'')]))"
  by (simp add: sent_by_def publishConfig_def Let_def sweepRetainedState_def ha_simps)

lemma parts_replaced:
  "parts_of (map (\<lambda>(k, v). (k, recursiveReplace rs v)) d) = map (\<lambda>(k, v). (k, recursiveReplace rs v)) (parts_of d)"
  by (auto simp: parts_of_def as_obj_def map_of_map split: option.splits doc.splits)

definition demo_ha :: "language \<Rightarrow> ha_config" where
  "demo_ha l = \<lparr>lang = l, discovery_prefix = ''homeassistant'', rethink_prefix = ''rethink''\<rparr>"

definition demo_select :: "doc list \<Rightarrow> obj" where
  "demo_select options = [(''platform'', DStr ''select''), (''unique_id'', DStr ''$deviceid-course''), (''options'', DArr options),
     (''command_topic'', DStr ''$this/course/set''), (''state_topic'', DStr ''$this/course'')]"

definition demo_with :: "obj \<Rightarrow> obj \<Rightarrow> obj" where
  "demo_with name part = [(''availability'', DArr [DObj [(''topic'', DStr ''$this/availability'')]]),
     (''device'', DObj ((''identifiers'', DStr ''$deviceid'') # name)), (''origin'', DObj [(''name'', DStr ''rethink'')]),
     (''components'', DObj [(''course'', DObj part), (''old'', DObj [(''platform'', DStr ''sensor'')])])]"

definition demo_document :: obj where
  "demo_document = demo_with [] (demo_select [DStr ''auto'', DStr ''on''])"

definition demo_labels :: "language \<Rightarrow> doc list" where
  "demo_labels l = (if l = Korean then [DStr AUTO_LABEL, DStr ON_LABEL] else [DStr ''auto'', DStr ''on''])"

lemmas demo_simps = demo_with_def demo_select_def demo_document_def demo_labels_def demo_ha_def

lemma demo_announced: "announced (demo_ha l) (Some ''Washer'') demo_document =
  demo_with [(''name'', DStr ''Washer'')] (demo_select (demo_labels l) @ [(''object_id'', DStr ''rethink_Washer_course'')])"
  by (cases l) (simp_all add: demo_simps announced_def localizeDiscovery_def localize_discovery_with_def with_name_def update_present_def in_object_def
    nameEntities_def as_obj_def nameEntity_def removal_def entityObjectId_def MAIN_ENTITY_def js_string_or_undefined_def NAME_PREFIX_def
    localize_component_def localize_name_def LABELLED_KEYS_def option_label_def)

lemma demo_accepted: "validateDeviceDiscovery (announced (demo_ha l) (Some ''Washer'') demo_document) = []"
  unfolding demo_announced
  by (cases l) (simp_all add: demo_simps validateDeviceDiscovery_def issue_if_def doc_truthy_def as_obj_def nonEmptyString_def
    validateAvailability_def validTopic_def concrete_def validateComponent_def SUPPORTED_COMPONENTS_def READ_ONLY_COMPONENTS_def
    READ_WRITE_COMPONENTS_def validate_select_sensor_def validateEnum_def ends_with_def AUTO_LABEL_def ON_LABEL_def utf8_def)

lemma demo_state: "stateProperties (announced (demo_ha l) (Some ''Washer'') demo_document) = {''course''}"
  unfolding demo_announced
  by (cases l) (simp_all add: demo_simps stateProperties_def own_property_def strip_prefix_def starts_with_def List.map_filter_simps
    AUTO_LABEL_def ON_LABEL_def utf8_def char_of_def)

definition demo_events :: "language \<Rightarrow> hc_event list" where
  "demo_events l = [Connected, PublishConfig ''w1'' (Some ''Washer'') demo_document]"

lemma demo_window: "window (demo_ha l) ''w1'' (demo_events l) = (Some {''course''}, True)"
  by (simp add: window_def demo_events_def announces_def demo_accepted demo_state)

text \<open>
  C23. A retained value is cleared by a sweep exactly when a sweep of that appliance is on, the topic holds something,
  and the last document that was accepted on this connection reads no such state.
\<close>

theorem sweep_clears_exactly_the_orphans:
  assumes "CHR ''/'' \<notin> set i" "CHR ''/'' \<notin> set p" "p \<noteq> ''availability''"
  shows "Text (topic_of cf i p) [] True \<in> set (sent_by cf (hc_run cf es) (Received (topic_of cf i p) m True)) \<longleftrightarrow>
    snd (window cf i es) \<and> m \<noteq> [] \<and> p \<notin> (case fst (window cf i es) of Some ps \<Rightarrow> ps | None \<Rightarrow> {})"
proof -
  have w: "liveProperties (hc_run cf es) i = fst (window cf i es)" "i \<in> sweepTimers (hc_run cf es) \<longleftrightarrow> snd (window cf i es)"
    by (simp_all flip: window_run add: window_of_def)
  show ?thesis using assms by (simp add: retained_answer w)
qed

theorem sweep_clears_exactly_the_orphans_witness:
  "Text (topic_of (demo_ha English) ''w1'' ''filterused'') [] True \<in> set (sent_by (demo_ha English) (hc_run (demo_ha English) (demo_events English))
      (Received (topic_of (demo_ha English) ''w1'' ''filterused'') ''42'' True)) \<and>
   Text (topic_of (demo_ha English) ''w1'' ''course'') [] True \<notin> set (sent_by (demo_ha English) (hc_run (demo_ha English) (demo_events English))
      (Received (topic_of (demo_ha English) ''w1'' ''course'') ''LOW'' True))"
  using sweep_clears_exactly_the_orphans [of "''w1''" "''filterused''" "demo_ha English" "demo_events English" "''42''"]
    sweep_clears_exactly_the_orphans [of "''w1''" "''course''" "demo_ha English" "demo_events English" "''LOW''"]
  by (simp add: demo_window)

text \<open>
  C28. A retained \<open>online\<close> of an appliance is taken back exactly when its availability has not been published since the
  connection was last made.
\<close>

theorem phantom_availability_is_taken_back:
  assumes "CHR ''/'' \<notin> set i"
  shows "Text (topic_of cf i ''availability'') ''offline'' True
      \<in> set (sent_by cf (hc_run cf es) (Received (topic_of cf i ''availability'') ''online'' True)) \<longleftrightarrow>
    \<not> foldl (phantom_step i) False es"
  using assms by (simp add: retained_answer phantom_run)

theorem phantom_availability_is_taken_back_witness:
  "Text (topic_of (demo_ha English) ''w1'' ''availability'') ''offline'' True \<in> set (sent_by (demo_ha English)
      (hc_run (demo_ha English) [PublishProperty ''w1'' ''availability'' ''online'' True, Disconnected, Connected])
      (Received (topic_of (demo_ha English) ''w1'' ''availability'') ''online'' True))"
  using phantom_availability_is_taken_back [of "''w1''" "demo_ha English" "[PublishProperty ''w1'' ''availability'' ''online'' True, Disconnected, Connected]"]
  by (simp add: phantom_step_def)


text \<open>
  C29. Every topic of a component in a document that is published is a concrete one, not empty and without wildcards,
  whatever the handler filled in, when the prefix and the appliance's identifier are.
\<close>

theorem announced_topics_are_concrete:
  assumes "Config t (DObj d) \<in> set (sent_by cf s (PublishConfig i n c))"
    and "concrete (rethink_prefix cf)" "concrete i"
    and "(key, DObj part) \<in> set (parts_of d)" "(k, v) \<in> set part" "ends_with ''_topic'' k"
  shows "\<exists>topic. v = DStr topic \<and> concrete topic"
proof -
  let ?rs = "replacements cf i" and ?doc = "announced cf n c"
  from assms(1) have ok: "validateDeviceDiscovery ?doc = []" and d: "d = map (\<lambda>(k, v). (k, recursiveReplace ?rs v)) ?doc"
    by (auto simp: config_sent split: if_splits)
  from assms(4) obtain part0 where p0: "(key, part0) \<in> set (parts_of ?doc)" "recursiveReplace ?rs part0 = DObj part"
    unfolding d parts_replaced by auto
  from p0(2) obtain kvs where kvs: "part0 = DObj kvs" "part = map (\<lambda>(k, v). (k, recursiveReplace ?rs v)) kvs"
    by (cases part0) auto
  from assms(5) kvs(2) obtain v0 where v0: "(k, v0) \<in> set kvs" "v = recursiveReplace ?rs v0" by auto
  have "validTopic (Some v0)"
    using validated_topic [OF validated_component [OF ok]] p0(1) kvs(1) v0(1) assms(6) by blast
  then obtain t0 where "v0 = DStr t0" "concrete t0" by (auto simp: validTopic_def split: doc.splits)
  then show ?thesis using concrete_fill_in [OF concrete_replacements [OF assms(2,3)]] v0(2) by simp
qed

end
