(* ===== verification/HaLabels.thy ===== *)
theory HaLabels
  imports HaSafety
begin

text \<open>
  Names and labels on their way to Home Assistant and back: the identifiers entities get, what becomes of a
  handler's own document, and that the label a user picks comes back as the value it was shown for.
\<close>

subsection \<open>Object identifiers\<close>

lemma map_of_update_present [ha_simps]:
  "map_of (update_present g key part) k = (if k = key then map_option g (map_of part k) else map_of part k)"
  by (induction part) (auto simp: update_present_def)

lemma map_of_keyed [ha_simps]: "map_of (map (\<lambda>(k, v). (k, f k v)) xs) k = map_option (f k) (map_of xs k)"
  by (induction xs) auto

lemma map_of_updated [ha_simps]: "map_of (AList.update k v part) j = (if j = k then Some v else map_of part j)"
  by (simp add: update_conv')

lemma MAIN_ENTITY_inj: "map_of MAIN_ENTITY k = Some p \<Longrightarrow> map_of MAIN_ENTITY l = Some p \<Longrightarrow> k = l"
  by (auto simp: MAIN_ENTITY_def split: if_splits)

lemma entityObjectId_inj: "n \<noteq> [] \<Longrightarrow> entityObjectId n k p = entityObjectId n l p \<Longrightarrow> k = l"
  by (auto simp: entityObjectId_def dest: MAIN_ENTITY_inj split: if_splits)

lemma nameEntity_new:
  assumes "n \<noteq> []" "\<not> removal part" "\<forall>s. map_of part ''object_id'' \<noteq> Some (DStr s)"
  obtains i where "entityObjectId n k (js_string_or_undefined (map_of part ''platform'')) = Some i"
    "nameEntity n k (DObj part) = DObj (AList.update ''object_id'' (DStr i) part)"
proof -
  obtain i where i: "entityObjectId n k (js_string_or_undefined (map_of part ''platform'')) = Some i" "i \<noteq> []"
    using assms(1) by (auto simp: entityObjectId_def NAME_PREFIX_def)
  with assms show thesis by (auto simp: nameEntity_def split: option.split doc.split intro!: that)
qed

lemma nameEntity_twice: "m \<noteq> [] \<Longrightarrow> nameEntity n k (nameEntity m k v) = nameEntity m k v"
proof (cases v)
  case (DObj part)
  assume m: "m \<noteq> []"
  show ?thesis
  proof (cases "removal part \<or> (\<exists>s. map_of part ''object_id'' = Some (DStr s))")
    case True
    with DObj show ?thesis by (auto simp: nameEntity_def)
  next
    case False
    with m obtain i where "nameEntity m k v = DObj (AList.update ''object_id'' (DStr i) part)"
      unfolding DObj by (blast elim: nameEntity_new)
    moreover have "map_of (AList.update ''object_id'' (DStr i) part) ''object_id'' = Some (DStr i)" by (simp add: ha_simps)
    ultimately show ?thesis by (simp add: nameEntity_def)
  qed
qed (auto simp: nameEntity_def)

definition device_name :: "obj \<Rightarrow> doc option" where
  "device_name config = map_of (as_obj (map_of config ''device'')) ''name''"

lemma parts_named:
  "device_name config = Some (DStr dn) \<Longrightarrow> dn \<noteq> [] \<Longrightarrow>
    parts_of (nameEntities config) = map (\<lambda>(k, v). (k, nameEntity dn k v)) (parts_of config)"
  by (auto simp: nameEntities_def device_name_def parts_of_def as_obj_def ha_simps split: option.splits doc.splits)

lemma parts_with_name [ha_simps]: "parts_of (with_name registered config) = parts_of config"
  by (simp add: with_name_def parts_of_def ha_simps split: option.split)

lemma device_registered:
  "n \<noteq> [] \<Longrightarrow> map_of config ''device'' = Some (DObj dev) \<Longrightarrow> device_name (with_name (Some n) config) = Some (DStr n)"
  by (simp add: device_name_def with_name_def ha_simps in_object_def as_obj_def)

lemma english_same: "localizeDiscovery English config = config"
  by (simp add: localizeDiscovery_def localize_discovery_with_def)

lemma device_nameEntities [ha_simps]: "map_of (nameEntities config) ''device'' = map_of config ''device''"
  by (simp add: nameEntities_def ha_simps split: option.split doc.split)

lemma english_parts:
  assumes "lang cf = English" "n \<noteq> []" "map_of config ''device'' = Some (DObj dev)"
  shows "parts_of (announced cf (Some n) config) = map (\<lambda>(k, v). (k, nameEntity n k v)) (parts_of config)"
  unfolding announced_def assms(1) english_same
  by (simp add: parts_named [OF device_registered [OF assms(2,3)] assms(2)] ha_simps)

text \<open>
  C30. Without a translation the handler's own document gets the object identifiers, so that once an appliance has been
  announced under one name its entities keep that name in their identifiers, whatever it is called afterwards;
  with a translation they follow the name.
\<close>

theorem untranslated_identifiers_keep_the_first_name:
  assumes "map_of config ''device'' = Some (DObj dev)" "n1 \<noteq> []" "n2 \<noteq> []"
  shows "parts_of (announced cf (Some n2) (snd (publishConfig cf i (Some n1) config s))) =
    parts_of (announced cf (Some (if lang cf = Korean then n2 else n1)) config)"
proof (cases "lang cf")
  case English
  let ?c = "announced cf (Some n1) config"
  have c: "snd (publishConfig cf i (Some n1) config s) = ?c" using English by (simp add: publishConfig_def Let_def)
  have "map_of ?c ''device'' = Some (in_object (AList.update ''name'' (DStr n1)) (DObj dev))"
    unfolding announced_def English english_same by (simp add: ha_simps with_name_def assms)
  then have d: "map_of ?c ''device'' = Some (DObj (AList.update ''name'' (DStr n1) dev))" by (simp add: in_object_def)
  show ?thesis
    unfolding c english_parts [OF English assms(3) d] using english_parts [OF English assms(2,1)] English
    by (simp add: nameEntity_twice assms(2) split_def)
qed (simp add: publishConfig_def Let_def)

text \<open>
  Two entities of one document, of the same platform and without identifiers of their own, get different ones.
\<close>

theorem entities_get_different_identifiers:
  assumes "device_name config = Some (DStr dn)" "dn \<noteq> []" "k1 \<noteq> k2"
    and "map_of (parts_of config) k1 = Some (DObj a)" "map_of (parts_of config) k2 = Some (DObj b)"
    and "\<not> removal a" "\<not> removal b" "map_of a ''object_id'' = None" "map_of b ''object_id'' = None"
    and "map_of a ''platform'' = map_of b ''platform''"
  shows "\<exists>a' b'. map_of (parts_of (nameEntities config)) k1 = Some (DObj a') \<and> map_of (parts_of (nameEntities config)) k2 = Some (DObj b') \<and>
    map_of a' ''object_id'' \<noteq> map_of b' ''object_id''"
proof -
  from nameEntity_new [OF assms(2,6), where k = k1] assms(8) obtain i where i: "entityObjectId dn k1 (js_string_or_undefined (map_of a ''platform'')) = Some i"
      "nameEntity dn k1 (DObj a) = DObj (AList.update ''object_id'' (DStr i) a)"
    by auto
  from nameEntity_new [OF assms(2,7), where k = k2] assms(9) obtain j where j: "entityObjectId dn k2 (js_string_or_undefined (map_of b ''platform'')) = Some j"
      "nameEntity dn k2 (DObj b) = DObj (AList.update ''object_id'' (DStr j) b)"
    by auto
  have "i \<noteq> j" using entityObjectId_inj assms(2,3,10) i(1) j(1) by metis
  then show ?thesis by (simp add: parts_named [OF assms(1,2)] assms(4,5) i(2) j(2) ha_simps)
qed


subsection \<open>Labels in a document\<close>

definition label_of :: "obj \<Rightarrow> string \<Rightarrow> doc \<Rightarrow> doc" where
  "label_of part vk v = (if vk = ''modes'' \<and> map_of part ''platform'' = Some (DStr ''climate'') then v else option_label KOREAN_VALUES v)"

definition labelled :: "table \<Rightarrow> obj \<Rightarrow> string \<Rightarrow> obj" where
  "labelled values part key = (if key = ''modes'' \<and> map_of part ''platform'' = Some (DStr ''climate'') then part
     else update_present (\<lambda>v. case v of DArr vs \<Rightarrow> DArr (map (option_label values) vs) | _ \<Rightarrow> v) key part)"

lemma localize_component_labelled: "localize_component names values part = foldl (labelled values) (localize_name names part) LABELLED_KEYS"
  by (simp add: localize_component_def labelled_def [abs_def] cong: foldl_cong)

lemma labelled_other: "k \<noteq> key \<Longrightarrow> map_of (labelled values part key) k = map_of part k"
  by (simp add: labelled_def ha_simps)

lemma foldl_labelled_other: "k \<notin> set keys \<Longrightarrow> map_of (foldl (labelled values) part keys) k = map_of part k"
  by (induction keys arbitrary: part) (auto simp: labelled_other)

lemma foldl_labelled:
  assumes "distinct keys" "key \<in> set keys" "map_of part key = Some (DArr vs)" "''platform'' \<notin> set keys"
  shows "map_of (foldl (labelled KOREAN_VALUES) part keys) key = Some (DArr (map (label_of part key) vs))"
proof -
  from assms(2) obtain as bs where keys: "keys = as @ key # bs" by (auto simp: in_set_conv_decomp)
  let ?p = "foldl (labelled KOREAN_VALUES) part as"
  have p: "map_of ?p key = Some (DArr vs)" "map_of ?p ''platform'' = map_of part ''platform''"
    using assms keys by (simp_all add: foldl_labelled_other)
  have "map_of (labelled KOREAN_VALUES ?p key) key = Some (DArr (map (label_of part key) vs))"
    using p by (auto simp: labelled_def label_of_def ha_simps map_idI)
  then show ?thesis using assms(1) keys by (simp add: foldl_labelled_other)
qed

lemma LABELLED_KEYS_facts: "distinct LABELLED_KEYS" "''platform'' \<notin> set LABELLED_KEYS" "''name'' \<notin> set LABELLED_KEYS"
  "''object_id'' \<notin> set LABELLED_KEYS"
  by (simp_all add: LABELLED_KEYS_def)

lemma localized_list:
  assumes "key \<in> set LABELLED_KEYS" "map_of part key = Some (DArr vs)"
  shows "map_of (localize_component names KOREAN_VALUES part) key = Some (DArr (map (label_of part key) vs))"
proof -
  let ?p = "localize_name names part"
  have k: "key \<noteq> ''name''" using assms(1) LABELLED_KEYS_facts(3) by auto
  then have "map_of ?p key = Some (DArr vs)" and e: "label_of ?p key = label_of part key"
    using assms(2) by (simp_all add: localize_name_def ha_simps label_of_def fun_eq_iff)
  from foldl_labelled [OF LABELLED_KEYS_facts(1) assms(1) this(1) LABELLED_KEYS_facts(2)] show ?thesis
    by (simp add: localize_component_labelled e)
qed

lemma localized_platform: "map_of (localize_component names values part) ''platform'' = map_of part ''platform''"
  by (simp add: localize_component_labelled foldl_labelled_other LABELLED_KEYS_facts localize_name_def ha_simps)

lemma length_update_present [ha_simps]: "length (update_present g k part) = length part"
  by (simp add: update_present_def)

lemma length_labelled: "length (labelled values part key) = length part"
  by (simp add: labelled_def ha_simps)

lemma length_foldl_labelled: "length (foldl (labelled values) part keys) = length part"
  by (induction keys arbitrary: part) (simp_all add: length_labelled)

lemma length_localized: "length (localize_component names values part) = length part"
  by (simp add: localize_component_labelled length_foldl_labelled localize_name_def ha_simps)

text \<open>A component of a document that is published in Korean.\<close>

lemma nameEntity_object:
  obtains q where "nameEntity n k (DObj part) = DObj q" "\<And>j. j \<noteq> ''object_id'' \<Longrightarrow> map_of q j = map_of part j" "length part \<le> length q"
proof -
  have l: "length part \<le> length (AList.update ''object_id'' v part)" for v :: doc
    by (induction part) auto
  show thesis
    by (rule that [of "case nameEntity n k (DObj part) of DObj q \<Rightarrow> q | _ \<Rightarrow> []"])
      (auto simp: nameEntity_def ha_simps l split: option.split doc.split)
qed

lemma parts_nameEntities:
  obtains "parts_of (nameEntities config) = parts_of config"
  | n where "parts_of (nameEntities config) = map (\<lambda>(k, v). (k, nameEntity n k v)) (parts_of config)"
proof (cases "\<exists>dn. device_name config = Some (DStr dn) \<and> dn \<noteq> []")
  case True
  with parts_named that(2) show thesis by blast
next
  case False
  then have "nameEntities config = config"
    by (auto simp: nameEntities_def device_name_def split: option.split doc.split)
  with that(1) show thesis by simp
qed

lemma korean_part:
  assumes "lang cf = Korean" "map_of (parts_of config) key = Some (DObj part)"
  obtains q where "map_of (parts_of (announced cf n config)) key = Some (DObj q)"
    "\<And>j. j \<noteq> ''object_id'' \<Longrightarrow> map_of q j = map_of (localize_component KOREAN_NAMES KOREAN_VALUES part) j" "length part \<le> length q"
proof -
  let ?c = "with_name n (localizeDiscovery (lang cf) config)" and ?q = "localize_component KOREAN_NAMES KOREAN_VALUES part"
  have c: "map_of (parts_of ?c) key = Some (DObj ?q)"
    unfolding parts_with_name using assms(2)
    by (auto simp: assms(1) localizeDiscovery_def localize_discovery_with_def parts_of_def as_obj_def in_object_def ha_simps
        split: option.splits doc.splits)
  show thesis
  proof (rule parts_nameEntities [of ?c])
    assume "parts_of (nameEntities ?c) = parts_of ?c"
    with c show thesis by (intro that [of ?q]) (auto simp: announced_def length_localized)
  next
    fix m
    assume m: "parts_of (nameEntities ?c) = map (\<lambda>(k, v). (k, nameEntity m k v)) (parts_of ?c)"
    obtain q where "nameEntity m key (DObj ?q) = DObj q" "\<And>j. j \<noteq> ''object_id'' \<Longrightarrow> map_of q j = map_of ?q j" "length ?q \<le> length q"
      by (rule nameEntity_object [of m key ?q]) blast
    with m c show thesis by (intro that [of q]) (auto simp: announced_def length_localized ha_simps)
  qed
qed


subsection \<open>Labels and values\<close>

lemma text_pairs_zip: "set (text_pairs vs ls) = {(v, l). (DStr v, DStr l) \<in> set (zip vs ls)}"
  by (induction vs ls rule: text_pairs.induct) auto

lemma map_from_eq: "map_from kvs = map_of (rev kvs)"
  unfolding map_from_def
  by (induction kvs rule: rev_induct) auto

lemma map_from_unique: "(k, v) \<in> set kvs \<Longrightarrow> (\<And>w. (k, w) \<in> set kvs \<Longrightarrow> w = v) \<Longrightarrow> map_from kvs k = Some v"
  unfolding map_from_eq by (metis map_of_SomeD set_rev weak_map_of_SomeI)

lemma zip_distinct: "distinct ls \<Longrightarrow> (v, l) \<in> set (zip vs ls) \<Longrightarrow> (w, l) \<in> set (zip vs ls) \<Longrightarrow> v = w"
  by (auto simp: set_zip distinct_conv_nth)

lemma foldl_written:
  assumes "x \<in> set xs" "\<And>s. g (f s x) = Some m" "\<And>y s. y \<in> set xs \<Longrightarrow> g (f s y) = g s \<or> g (f s y) = Some m"
  shows "g (foldl f s xs) = Some m"
  using assms
proof (induction xs arbitrary: s)
  case (Cons y ys)
  show ?case
  proof (cases "x \<in> set ys")
    case True
    with Cons show ?thesis by simp
  next
    case False
    with Cons.prems have "g (f s y) = Some m" by auto
    moreover have "g t = Some m \<Longrightarrow> g (foldl f t zs) = Some m" if "set zs \<subseteq> set ys" for t zs
      using that Cons.prems(3) by (induction zs arbitrary: t) (auto, metis)
    ultimately show ?thesis by simp
  qed
qed simp

lemma value_key_inj:
  assumes "CHR ''/'' \<notin> set i" "CHR ''/'' \<notin> set j"
  shows "value_key i p = value_key j q \<longleftrightarrow> i = j \<and> p = q"
proof
  assume "value_key i p = value_key j q"
  then have e: "i @ CHR ''/'' # p = j @ CHR ''/'' # q" by (simp add: value_key_def)
  then have "split_on CHR ''/'' (i @ CHR ''/'' # p) = split_on CHR ''/'' (j @ CHR ''/'' # q)" by simp
  then have "i = j" unfolding split_on_append [OF assms(1)] split_on_append [OF assms(2)] by simp
  with e show "i = j \<and> p = q" by simp
qed simp

lemma value_key_same [simp]: "value_key i p = value_key i q \<longleftrightarrow> p = q"
  by (simp add: value_key_def)

lemma register_key_values:
  "localizedCommandValues (register_key i a b s (vk, ck, sk)) =
    (case (map_of a vk, map_of b vk, command_property (map_of a ck)) of
       (Some (DArr vs), Some (DArr ls), Some p) \<Rightarrow>
         (localizedCommandValues s)(value_key i p \<mapsto> map_from (map (\<lambda>(v, l). (l, v)) (text_pairs vs ls)))
     | _ \<Rightarrow> localizedCommandValues s)"
  "localizedStateValues (register_key i a b s (vk, ck, sk)) =
    (case (map_of a vk, map_of b vk, state_property (map_of a sk)) of
       (Some (DArr vs), Some (DArr ls), Some p) \<Rightarrow> (localizedStateValues s)(value_key i p \<mapsto> map_from (text_pairs vs ls))
     | _ \<Rightarrow> localizedStateValues s)"
  by (simp_all add: register_key_def Let_def split: option.split doc.split)

lemma published_values:
  "localizedCommandValues (fst (publishConfig cf i n c s)) = (if validateDeviceDiscovery (announced cf n c) \<noteq> [] then localizedCommandValues s
     else localizedCommandValues (registerLocalizedCommands cf i (if lang cf = Korean then c else announced cf n c) (announced cf n c) s))"
  "localizedStateValues (fst (publishConfig cf i n c s)) = (if validateDeviceDiscovery (announced cf n c) \<noteq> [] then localizedStateValues s
     else localizedStateValues (registerLocalizedCommands cf i (if lang cf = Korean then c else announced cf n c) (announced cf n c) s))"
  by (simp_all add: publishConfig_def Let_def ha_simps)

lemma register_key_elsewhere:
  assumes "CHR ''/'' \<notin> set i" "CHR ''/'' \<notin> set j" "j \<noteq> i"
  shows "localizedCommandValues (register_key j a b s k) (value_key i p) = localizedCommandValues s (value_key i p)"
    "localizedStateValues (register_key j a b s k) (value_key i p) = localizedStateValues s (value_key i p)"
  using assms by (cases k; auto simp: register_key_values value_key_inj split: option.split doc.split)+

lemma register_elsewhere:
  assumes "CHR ''/'' \<notin> set i" "CHR ''/'' \<notin> set j" "j \<noteq> i"
  shows "localizedCommandValues (registerLocalizedCommands cf j a b s) (value_key i p) = localizedCommandValues s (value_key i p)"
    "localizedStateValues (registerLocalizedCommands cf j a b s) (value_key i p) = localizedStateValues s (value_key i p)"
  unfolding registerLocalizedCommands_def
  by (auto split: option.split prod.split simp: register_key_elsewhere [OF assms]
      intro!: foldl_fixed [where g = "\<lambda>s. localizedCommandValues s (value_key i p)"] foldl_fixed [where g = "\<lambda>s. localizedStateValues s (value_key i p)"])

definition about_others :: "string \<Rightarrow> hc_event list \<Rightarrow> bool" where
  "about_others i es \<longleftrightarrow> (\<forall>e \<in> set es. case e of PublishConfig j n c \<Rightarrow> j \<noteq> i \<and> CHR ''/'' \<notin> set j | _ \<Rightarrow> True)"

lemma values_kept:
  assumes "CHR ''/'' \<notin> set i" "about_others i es"
  shows "localizedCommandValues (foldl (hc_step cf) s es) (value_key i p) = localizedCommandValues s (value_key i p) \<and>
    localizedStateValues (foldl (hc_step cf) s es) (value_key i p) = localizedStateValues s (value_key i p)"
  using assms(2)
proof (induction es arbitrary: s)
  case (Cons e es)
  then have "about_others i es" by (simp add: about_others_def)
  moreover have "localizedCommandValues (hc_step cf s e) (value_key i p) = localizedCommandValues s (value_key i p) \<and>
      localizedStateValues (hc_step cf s e) (value_key i p) = localizedStateValues s (value_key i p)"
    using Cons.prems by (cases e) (auto simp: ha_simps published_values about_others_def register_elsewhere [OF assms(1)])
  ultimately show ?case using Cons.IH by simp
qed simp


subsection \<open>Round trip\<close>

text \<open>A property is commanded, or shown, by one list of one component.\<close>

definition only_commander :: "obj \<Rightarrow> string \<Rightarrow> string \<Rightarrow> string \<Rightarrow> bool" where
  "only_commander config key vk p \<longleftrightarrow> (\<forall>(key', v) \<in> set (parts_of config). \<forall>(vk', ck', sk') \<in> set VALUE_KEYS.
     command_property (map_of (as_obj (Some v)) ck') = Some p \<longrightarrow> key' = key \<and> vk' = vk)"

definition only_reader :: "obj \<Rightarrow> string \<Rightarrow> string \<Rightarrow> string \<Rightarrow> bool" where
  "only_reader config key vk p \<longleftrightarrow> (\<forall>(key', v) \<in> set (parts_of config). \<forall>(vk', ck', sk') \<in> set VALUE_KEYS.
     state_property (map_of (as_obj (Some v)) sk') = Some p \<longrightarrow> key' = key \<and> vk' = vk)"

lemma VALUE_KEYS_distinct: "(vk, ck, sk) \<in> set VALUE_KEYS \<Longrightarrow> (vk, ck', sk') \<in> set VALUE_KEYS \<Longrightarrow> ck' = ck \<and> sk' = sk"
  by (auto simp: VALUE_KEYS_def)

lemma VALUE_KEYS_labelled: "(vk, ck, sk) \<in> set VALUE_KEYS \<Longrightarrow> vk \<in> set LABELLED_KEYS"
  by (auto simp: VALUE_KEYS_def LABELLED_KEYS_def)

text \<open>What the appliance's tables hold after a document, for any field \<open>g\<close> of them a key is the only one to write.\<close>

lemma registered:
  assumes ko: "lang cf = Korean" and parts: "distinct (map fst (parts_of config))"
    and part: "map_of (parts_of config) key = Some (DObj part)" and q: "map_of (parts_of doc) key = Some (DObj q)"
    and vk: "(vk, ck, sk) \<in> set VALUE_KEYS"
    and writes: "\<And>s. g (register_key i part q s (vk, ck, sk)) = Some m"
    and others: "\<And>key' v k w s. (key', v) \<in> set (parts_of config) \<Longrightarrow> k \<in> set VALUE_KEYS \<Longrightarrow> key' \<noteq> key \<or> k \<noteq> (vk, ck, sk) \<Longrightarrow>
      g (register_key i (as_obj (Some v)) (as_obj (Some w)) s k) = g s"
  shows "g (registerLocalizedCommands cf i config doc s) = Some m"
proof -
  let ?one = "\<lambda>s (key, v). case map_of (parts_of doc) key of None \<Rightarrow> s
    | Some w \<Rightarrow> foldl (register_key i (as_obj (Some v)) (as_obj (Some w))) s VALUE_KEYS"
  have here: "g (foldl (register_key i part q) s VALUE_KEYS) = Some m" for s
  proof (rule foldl_written [where g = g and f = "register_key i part q", OF vk writes])
    fix k s assume "k \<in> set VALUE_KEYS"
    then show "g (register_key i part q s k) = g s \<or> g (register_key i part q s k) = Some m"
      using writes others [of key "DObj part" k "DObj q"] map_of_SomeD [OF part] by (cases "k = (vk, ck, sk)") (auto simp: as_obj_def)
  qed
  have "g (foldl ?one s (parts_of config)) = Some m"
  proof (rule foldl_written [where g = g and f = ?one, OF map_of_SomeD [OF part]])
    show "g (?one s (key, DObj part)) = Some m" for s using q here by (simp add: as_obj_def)
    fix y s assume y: "y \<in> set (parts_of config)"
    show "g (?one s y) = g s \<or> g (?one s y) = Some m"
    proof (cases "fst y = key")
      case True
      then have "y = (key, DObj part)" using y part parts by (cases y) (metis fst_conv map_of_eq_Some_iff option.inject)
      then show ?thesis using q here by (simp add: as_obj_def)
    next
      case False
      then have "g (register_key i (as_obj (Some (snd y))) (as_obj (Some w)) s k) = g s" if "k \<in> set VALUE_KEYS" for w s k
        using others [of "fst y" "snd y" k w s] y that by simp
      then show ?thesis by (auto simp: split_def split: option.split intro!: foldl_fixed [where g = g])
    qed
  qed
  then show ?thesis using ko by (simp add: registerLocalizedCommands_def)
qed

lemma only_other:
  assumes "only_commander config key vk p" "(vk, ck, sk) \<in> set VALUE_KEYS" "(key', v) \<in> set (parts_of config)" "k \<in> set VALUE_KEYS"
    "key' \<noteq> key \<or> k \<noteq> (vk, ck, sk)"
  shows "localizedCommandValues (register_key i (as_obj (Some v)) b s k) (value_key i p) = localizedCommandValues s (value_key i p)"
proof -
  obtain vk' ck' sk' where k: "k = (vk', ck', sk')" by (cases k)
  have "command_property (map_of (as_obj (Some v)) ck') \<noteq> Some p"
  proof
    assume "command_property (map_of (as_obj (Some v)) ck') = Some p"
    then have e: "key' = key" "vk' = vk" using assms(1,3,4) unfolding only_commander_def k by auto
    with assms(4) VALUE_KEYS_distinct [OF assms(2)] have "k = (vk, ck, sk)" unfolding k by simp
    with assms(5) e show False by simp
  qed
  then show ?thesis by (auto simp: k register_key_values split: option.split doc.split)
qed

lemma only_other_state:
  assumes "only_reader config key vk p" "(vk, ck, sk) \<in> set VALUE_KEYS" "(key', v) \<in> set (parts_of config)" "k \<in> set VALUE_KEYS"
    "key' \<noteq> key \<or> k \<noteq> (vk, ck, sk)"
  shows "localizedStateValues (register_key i (as_obj (Some v)) b s k) (value_key i p) = localizedStateValues s (value_key i p)"
proof -
  obtain vk' ck' sk' where k: "k = (vk', ck', sk')" by (cases k)
  have "state_property (map_of (as_obj (Some v)) sk') \<noteq> Some p"
  proof
    assume "state_property (map_of (as_obj (Some v)) sk') = Some p"
    then have e: "key' = key" "vk' = vk" using assms(1,3,4) unfolding only_reader_def k by auto
    with assms(4) VALUE_KEYS_distinct [OF assms(2)] have "k = (vk, ck, sk)" unfolding k by simp
    with assms(5) e show False by simp
  qed
  then show ?thesis by (auto simp: k register_key_values split: option.split doc.split)
qed


text \<open>Lists whose labels the validation keeps apart.\<close>

definition checked_lists :: "(string \<times> string) list" where
  "checked_lists = [(''select'', ''options''), (''climate'', ''modes''), (''climate'', ''fan_modes''), (''climate'', ''swing_modes''),
     (''climate'', ''swing_horizontal_modes''), (''climate'', ''preset_modes''), (''humidifier'', ''modes''), (''fan'', ''preset_modes'')]"

lemma two_keys: "map_of q a = Some x \<Longrightarrow> map_of q b = Some y \<Longrightarrow> a \<noteq> b \<Longrightarrow> length q \<noteq> 1"
  by (auto simp: length_Suc_conv split: if_splits)

lemma validated_list:
  assumes "validateComponent key q = []" "map_of q ''platform'' = Some (DStr pl)" "(pl, vk) \<in> set checked_lists"
    and "map_of q vk = Some (DArr ls)"
  shows "distinct ls"
proof -
  have "vk \<noteq> ''platform''" using assms(3) by (auto simp: checked_lists_def)
  with two_keys [OF assms(2,4)] have "length q \<noteq> 1" by simp
  with assms(1,2,3) have "validateEnum q vk (''components.'' @ key) = []"
    unfolding validateComponent_def Let_def checked_lists_def
    by (auto simp: validate_select_sensor_def validate_climate_def validate_humidifier_def validate_fan_def split: if_splits)
  with assms(4) show ?thesis by (simp add: validateEnum_def split: if_splits)
qed

lemma korean_list:
  assumes "lang cf = Korean" "map_of (parts_of config) key = Some (DObj part)" "(vk, ck, sk) \<in> set VALUE_KEYS"
    and "map_of part vk = Some (DArr values)" "map_of (parts_of (announced cf n config)) key = Some (DObj q)"
  shows "map_of q vk = Some (DArr (map (label_of part vk) values))" "map_of q ''platform'' = map_of part ''platform''"
proof -
  have vk: "vk \<in> set LABELLED_KEYS" using VALUE_KEYS_labelled [OF assms(3)] .
  then have "vk \<noteq> ''object_id''" using LABELLED_KEYS_facts(4) by auto
  obtain q' where q': "map_of (parts_of (announced cf n config)) key = Some (DObj q')"
    "\<And>j. j \<noteq> ''object_id'' \<Longrightarrow> map_of q' j = map_of (localize_component KOREAN_NAMES KOREAN_VALUES part) j"
    using korean_part [OF assms(1,2), of n] by blast
  with assms(5) have "q' = q" by simp
  with q'(2) localized_list [OF vk assms(4)] \<open>vk \<noteq> ''object_id''\<close> localized_platform show
    "map_of q vk = Some (DArr (map (label_of part vk) values))" "map_of q ''platform'' = map_of part ''platform''"
    by simp_all
qed

lemma hc_run_append: "hc_run cf (es @ e # later) = foldl (hc_step cf) (hc_step cf (hc_run cf es) e) later"
  by (simp add: hc_run_def)

lemma strip_set_topic:
  "CHR ''/'' \<notin> set i \<Longrightarrow> CHR ''/'' \<notin> set p \<Longrightarrow>
    sent_by cf s (Received (topic_of cf i p @ ''/set'') m r) =
      (if topic_of cf i p @ ''/set'' = discovery_prefix cf @ ''/status'' \<and> m = ''online'' then [EmitDiscovery] else []) @
      [EmitSetProperty i p (original_value cf i p m s)]"
  by (simp add: sent_by_def received_def Let_def topic_of_def strip_prefix_def starts_with_def split_on_append tell_if ha_simps original_value_def)

text \<open>
  C22. What the user picks is what the appliance is told: the label that a Korean document shows for a value of a checked
  list, sent to that list's command topic, is given to the handler as that value, whatever the connection did
  before and whatever else it does afterwards for other appliances.
\<close>

theorem label_picked_is_the_value_meant:
  assumes "lang cf = Korean" "validateDeviceDiscovery (announced cf n config) = []"
    and "distinct (map fst (parts_of config))" "map_of (parts_of config) key = Some (DObj part)"
    and "(vk, ck, sk) \<in> set VALUE_KEYS" "map_of part ''platform'' = Some (DStr pl)" "(pl, vk) \<in> set checked_lists"
    and "map_of part vk = Some (DArr values)" "command_property (map_of part ck) = Some p" "only_commander config key vk p"
    and "map_of (parts_of (announced cf n config)) key = Some (DObj q)" "map_of q vk = Some (DArr labels)"
    and "(DStr v, DStr l) \<in> set (zip values labels)"
    and "CHR ''/'' \<notin> set i" "CHR ''/'' \<notin> set p" "about_others i later"
  shows "EmitSetProperty i p v
    \<in> set (sent_by cf (hc_run cf (es @ PublishConfig i n config # later)) (Received (topic_of cf i p @ ''/set'') l r))"
proof -
  let ?doc = "announced cf n config" and ?s = "hc_run cf es"
  let ?m = "map_from (map (\<lambda>(v, l). (l, v)) (text_pairs values labels))"
  note list = korean_list [OF assms(1,4,5,8,11)]
  have "validateComponent key q = []" using validated_component [OF assms(2)] map_of_SomeD [OF assms(11)] by blast
  then have "distinct labels" using validated_list assms(6,7,12) list(2) by metis
  then have m: "?m l = Some v"
    using assms(13) by (intro map_from_unique) (auto simp: text_pairs_zip dest: zip_distinct)
  have "localizedCommandValues (registerLocalizedCommands cf i config ?doc ?s) (value_key i p) = Some ?m"
    by (rule registered [OF assms(1,3,4,11,5), where g = "\<lambda>s. localizedCommandValues s (value_key i p)"])
      (use assms(8,9,12) only_other [OF assms(10,5)] in \<open>auto simp: register_key_values\<close>)
  then have "localizedCommandValues (hc_run cf (es @ PublishConfig i n config # later)) (value_key i p) = Some ?m"
    using assms(1,2) values_kept [OF assms(14,16)] by (simp add: hc_run_append published_values)
  with m show ?thesis by (simp add: strip_set_topic [OF assms(14,15)] original_value_def)
qed

text \<open>
  What is shown is what can be picked: a value of a list, published as the state the list reads, is shown by the
  label of that list in the Korean document.
\<close>

theorem state_is_shown_by_its_label:
  assumes "lang cf = Korean" "validateDeviceDiscovery (announced cf n config) = []"
    and "distinct (map fst (parts_of config))" "map_of (parts_of config) key = Some (DObj part)"
    and "(vk, ck, sk) \<in> set VALUE_KEYS"
    and "map_of part vk = Some (DArr values)" "state_property (map_of part sk) = Some p" "only_reader config key vk p"
    and "map_of (parts_of (announced cf n config)) key = Some (DObj q)" "map_of q vk = Some (DArr labels)"
    and "(DStr v, DStr l) \<in> set (zip values labels)"
    and "CHR ''/'' \<notin> set i" "about_others i later"
  shows "sent_by cf (hc_run cf (es @ PublishConfig i n config # later)) (PublishProperty i p v r) = [Text (topic_of cf i p) l r]"
proof -
  let ?doc = "announced cf n config" and ?s = "hc_run cf es" and ?m = "map_from (text_pairs values labels)"
  have labels: "labels = map (label_of part vk) values"
    using korean_list(1) [OF assms(1,4,5,6,9)] assms(10) by simp
  have m: "?m v = Some l"
    using assms(11) by (intro map_from_unique) (auto simp: text_pairs_zip labels zip_map2 zip_same_conv_map, metis doc.inject(3))
  have "localizedStateValues (registerLocalizedCommands cf i config ?doc ?s) (value_key i p) = Some ?m"
    by (rule registered [OF assms(1,3,4,9,5), where g = "\<lambda>s. localizedStateValues s (value_key i p)"])
      (use assms(6,7,10) only_other_state [OF assms(8,5)] in \<open>auto simp: register_key_values\<close>)
  then have "localizedStateValues (hc_run cf (es @ PublishConfig i n config # later)) (value_key i p) = Some ?m"
    using assms(1,2) values_kept [OF assms(12,13)] by (simp add: hc_run_append published_values)
  with m show ?thesis
    by (cases "p = ''availability''") (simp_all add: sent_by_def publishProperty_def Let_def shown_value_def ha_simps)
qed


text \<open>The washer of the examples, announced in Korean.\<close>

lemma demo_device: "map_of demo_document ''device'' = Some (DObj [(''identifiers'', DStr ''$deviceid'')])" "lang (demo_ha l) = l"
  by (simp_all add: demo_document_def demo_with_def demo_ha_def)

lemma demo_parts: "parts_of demo_document = [(''course'', DObj (demo_select [DStr ''auto'', DStr ''on''])), (''old'', DObj [(''platform'', DStr ''sensor'')])]"
  "parts_of (announced (demo_ha l) (Some ''Washer'') demo_document) =
    [(''course'', DObj (demo_select (demo_labels l) @ [(''object_id'', DStr ''rethink_Washer_course'')])), (''old'', DObj [(''platform'', DStr ''sensor'')])]"
  unfolding demo_announced by (simp_all add: parts_of_def as_obj_def demo_document_def demo_with_def)

lemma demo_topics: "command_property (map_of (demo_select vs) ''command_topic'') = Some ''course''"
  "state_property (map_of (demo_select vs) ''state_topic'') = Some ''course''"
  by (simp_all add: demo_select_def command_property_def state_property_def strip_prefix_def starts_with_def ends_with_def one_line_def)

lemma demo_only: "only_commander demo_document ''course'' ''options'' ''course''" "only_reader demo_document ''course'' ''options'' ''course''"
  by (simp_all add: only_commander_def only_reader_def demo_parts as_obj_def VALUE_KEYS_def demo_select_def command_property_def state_property_def)

theorem label_picked_is_the_value_meant_witness:
  "EmitSetProperty ''w1'' ''course'' ''auto''
    \<in> set (sent_by (demo_ha Korean) (hc_run (demo_ha Korean) [Connected, PublishConfig ''w1'' (Some ''Washer'') demo_document, Disconnected])
      (Received ''rethink/w1/course/set'' AUTO_LABEL False))"
  using label_picked_is_the_value_meant [of "demo_ha Korean" "Some ''Washer''" demo_document "''course''" "demo_select [DStr ''auto'', DStr ''on'']"
      "''options''" "''command_topic''" "''state_topic''" "''select''" "[DStr ''auto'', DStr ''on'']" "''course''"
      "demo_select (demo_labels Korean) @ [(''object_id'', DStr ''rethink_Washer_course'')]" "demo_labels Korean" "''auto''" AUTO_LABEL
      "''w1''" "[Disconnected]" "[Connected]" False]
  by (simp add: demo_accepted demo_parts demo_topics demo_only about_others_def)
    (simp add: demo_ha_def VALUE_KEYS_def demo_select_def checked_lists_def demo_labels_def topic_of_def)

theorem state_is_shown_by_its_label_witness:
  "sent_by (demo_ha Korean) (hc_run (demo_ha Korean) [Connected, PublishConfig ''w1'' (Some ''Washer'') demo_document])
      (PublishProperty ''w1'' ''course'' ''on'' True) = [Text ''rethink/w1/course'' ON_LABEL True]"
  using state_is_shown_by_its_label [of "demo_ha Korean" "Some ''Washer''" demo_document "''course''" "demo_select [DStr ''auto'', DStr ''on'']"
      "''options''" "''command_topic''" "''state_topic''" "[DStr ''auto'', DStr ''on'']" "''course''"
      "demo_select (demo_labels Korean) @ [(''object_id'', DStr ''rethink_Washer_course'')]" "demo_labels Korean" "''on''" ON_LABEL
      "''w1''" "[]" "[Connected]" True]
  by (simp add: demo_accepted demo_parts demo_topics demo_only about_others_def)
    (simp add: demo_ha_def VALUE_KEYS_def demo_select_def demo_labels_def topic_of_def)

theorem untranslated_identifiers_keep_the_first_name_witness:
  "map_of (parts_of (announced (demo_ha English) (Some ''Dryer'') (snd (publishConfig (demo_ha English) ''w1'' (Some ''Washer'') demo_document new_conn)))) ''course'' =
    Some (DObj (demo_select [DStr ''auto'', DStr ''on''] @ [(''object_id'', DStr ''rethink_Washer_course'')]))"
  using untranslated_identifiers_keep_the_first_name [of demo_document "[(''identifiers'', DStr ''$deviceid'')]" "''Washer''" "''Dryer''" "demo_ha English" "''w1''" new_conn]
  by (simp add: demo_device demo_parts demo_labels_def)


definition two_sensors :: obj where
  "two_sensors = [(''device'', DObj [(''name'', DStr ''Washer'')]), (''components'', DObj
     [(''run'', DObj [(''platform'', DStr ''sensor''), (''unique_id'', DStr ''a'')]), (''spin'', DObj [(''platform'', DStr ''sensor''), (''unique_id'', DStr ''b'')])])]"

theorem entities_get_different_identifiers_witness:
  "\<exists>a b. map_of (parts_of (nameEntities two_sensors)) ''run'' = Some (DObj a) \<and> map_of (parts_of (nameEntities two_sensors)) ''spin'' = Some (DObj b) \<and>
     map_of a ''object_id'' \<noteq> map_of b ''object_id''"
  by (rule entities_get_different_identifiers [where dn = "''Washer''" and a = "[(''platform'', DStr ''sensor''), (''unique_id'', DStr ''a'')]"
        and b = "[(''platform'', DStr ''sensor''), (''unique_id'', DStr ''b'')]"])
    (simp_all add: two_sensors_def device_name_def parts_of_def as_obj_def removal_def)

theorem announced_topics_are_concrete_witness:
  "\<exists>d part topic. Config ''homeassistant/device/rethink/w1/config'' (DObj d)
      \<in> set (sent_by (demo_ha English) new_conn (PublishConfig ''w1'' (Some ''Washer'') demo_document)) \<and>
    (''course'', DObj part) \<in> set (parts_of d) \<and> (''state_topic'', DStr topic) \<in> set part \<and> concrete topic"
proof -
  let ?r = "recursiveReplace (replacements (demo_ha English) ''w1'')"
  let ?doc = "announced (demo_ha English) (Some ''Washer'') demo_document"
  let ?d = "map (\<lambda>(k, v). (k, ?r v)) ?doc"
  let ?q = "demo_select [DStr ''auto'', DStr ''on''] @ [(''object_id'', DStr ''rethink_Washer_course'')]"
  let ?part = "map (\<lambda>(k, v). (k, ?r v)) ?q"
  have sent: "Config ''homeassistant/device/rethink/w1/config'' (DObj ?d)
      \<in> set (sent_by (demo_ha English) new_conn (PublishConfig ''w1'' (Some ''Washer'') demo_document))"
    by (simp add: config_sent demo_accepted) (simp add: demo_ha_def)
  have part: "(''course'', DObj ?part) \<in> set (parts_of ?d)"
    by (simp add: parts_replaced demo_parts demo_labels_def)
  have topic: "(''state_topic'', ?r (DStr ''$this/course'')) \<in> set ?part"
    by (force simp: demo_select_def)
  have "\<exists>topic. ?r (DStr ''$this/course'') = DStr topic \<and> concrete topic"
    by (rule announced_topics_are_concrete [OF sent _ _ part topic])
      (simp_all add: demo_ha_def concrete_def ends_with_def)
  with sent part topic show ?thesis by metis
qed

text \<open>
  A label goes back to the value it is the label of when no other value of the table has that label, and stays what
  it is when another one does.
\<close>

theorem unambiguous_labels_are_undone:
  assumes "map_of tbl v = Some l"
  shows "delocalize_with tbl Korean l = (if count_list (map snd tbl) l = 1 then v else l)"
proof -
  have n: "length (filter (\<lambda>(_, k). k = l) tbl) = count_list (map snd tbl) l"
    by (induction tbl) auto
  have "map_of (reverse_table tbl) l = (if count_list (map snd tbl) l = 1 then Some v else None)"
  proof (cases "count_list (map snd tbl) l = 1")
    case True
    have one: "w = v" if "(w, l) \<in> set tbl" for w
    proof -
      let ?f = "filter (\<lambda>(_, k). k = l) tbl"
      obtain x where x: "?f = [x]" using n True by (auto simp: length_Suc_conv)
      have "(w, l) \<in> set ?f" "(v, l) \<in> set ?f" using that map_of_SomeD [OF assms] by simp_all
      then show ?thesis unfolding x by auto
    qed
    have "(l, v) \<in> set (reverse_table tbl)" using map_of_SomeD [OF assms] n True by (force simp: reverse_table_def)
    moreover have "(l, w) \<in> set (reverse_table tbl) \<Longrightarrow> w = v" for w using one by (auto simp: reverse_table_def)
    ultimately show ?thesis using True by (metis map_of_SomeD weak_map_of_SomeI)
  next
    case False
    have "l \<notin> fst ` set (reverse_table tbl)" using n False by (auto simp: reverse_table_def)
    then show ?thesis using False by (simp add: map_of_eq_None_iff)
  qed
  then show ?thesis by (simp add: delocalize_with_def)
qed

theorem unambiguous_labels_are_undone_witness:
  "delocalize_with [(''LOW'', ''weak''), (''LIGHT'', ''weak''), (''HIGH'', ''strong'')] Korean ''strong'' = ''HIGH'' \<and>
   delocalize_with [(''LOW'', ''weak''), (''LIGHT'', ''weak''), (''HIGH'', ''strong'')] Korean ''weak'' = ''weak''"
  using unambiguous_labels_are_undone [of "[(''LOW'', ''weak''), (''LIGHT'', ''weak''), (''HIGH'', ''strong'')]" "''HIGH''" "''strong''"]
    unambiguous_labels_are_undone [of "[(''LOW'', ''weak''), (''LIGHT'', ''weak''), (''HIGH'', ''strong'')]" "''LOW''" "''weak''"]
  by simp

end
