(* ===== verification/BridgeState.thy ===== *)
theory BridgeState
  imports JsValues MqttTopic
begin

text \<open>
  What the bridge keeps on disk: \<open>bridge/state.ts\<close>. A file holds what \<open>JSON.parse\<close> makes of
  its text: a document, or something that is not one. A file that cannot be read is there
  (\<open>existsSync\<close>) and its read fails with another error than \<open>ENOENT\<close>. Every operation is the
  list of file system calls it makes, in order; \<open>refuses\<close> says which calls the system turns
  down, and a refused write may leave anything in the file it was writing.
\<close>

datatype content = Doc json | Garbled | Unreadable

type_synonym files = "string \<rightharpoonup> content"

datatype fs_call = WriteFile string content | RenameFile string string | UnlinkFile string

record fs_env =
  refuses :: "fs_call \<Rightarrow> bool"
  torn :: "fs_call \<Rightarrow> content option"

fun fs_apply :: "fs_call \<Rightarrow> files \<Rightarrow> files" where
  "fs_apply (WriteFile p c) fs = fs(p \<mapsto> c)"
| "fs_apply (RenameFile a b) fs = (case fs a of None \<Rightarrow> fs | Some c \<Rightarrow> (fs(a := None))(b \<mapsto> c))"
| "fs_apply (UnlinkFile p) fs = fs(p := None)"

text \<open>What a call that fails, or a crash while it runs, leaves behind.\<close>

fun fs_broken :: "fs_env \<Rightarrow> fs_call \<Rightarrow> files \<Rightarrow> files" where
  "fs_broken env (WriteFile p c) fs = fs(p := torn env (WriteFile p c))"
| "fs_broken env _ fs = fs"

definition fs_do :: "fs_env \<Rightarrow> fs_call \<Rightarrow> files \<Rightarrow> (files, unit) outcome" where
  "fs_do env call fs =
    (if refuses env call then (fs_broken env call fs, Inl ''fs'') else (fs_apply call fs, Inr ()))"

datatype read_error = ENOENT | OtherError

definition readFile :: "string \<Rightarrow> files \<Rightarrow> read_error + content" where
  "readFile p fs = (case fs p of None \<Rightarrow> Inl ENOENT | Some Unreadable \<Rightarrow> Inl OtherError | Some c \<Rightarrow> Inr c)"

definition parsed :: "read_error + content \<Rightarrow> json option" where
  "parsed r = (case r of Inr (Doc v) \<Rightarrow> Some v | _ \<Rightarrow> None)"

subsection \<open>Paths\<close>

definition intentPath :: "string \<Rightarrow> string \<Rightarrow> string + string" where
  "intentPath base i = (if isSafeDeviceId i then Inr (base @ ''/intent_'' @ i @ ''.json'') else Inl ''Invalid appliance identifier'')"

definition oauth2Path :: "string \<Rightarrow> string" where
  "oauth2Path base = base @ ''/oauth2.json''"

definition devicePath :: "string \<Rightarrow> string \<Rightarrow> string + string" where
  "devicePath base i = (if isSafeDeviceId i then Inr (base @ ''/device_'' @ i @ ''.json'') else Inl ''Invalid appliance identifier'')"

definition archivePath :: "string \<Rightarrow> string \<Rightarrow> string + string" where
  "archivePath base i =
    (if isSafeDeviceId i then Inr (base @ ''/device_'' @ i @ ''.archived.json'') else Inl ''Invalid appliance identifier'')"

subsection \<open>Operations\<close>

definition write_calls :: "string \<Rightarrow> content \<Rightarrow> fs_call list" where
  "write_calls p c = [WriteFile (p @ ''.tmp'') c, RenameFile (p @ ''.tmp'') p]"

fun fs_calls :: "fs_env \<Rightarrow> fs_call list \<Rightarrow> files \<Rightarrow> (files, unit) outcome" where
  "fs_calls env [] fs = (fs, Inr ())"
| "fs_calls env (c # cs) fs = and_then (fs_do env c fs) (\<lambda>fs _. fs_calls env cs fs)"

definition writeAtomically :: "fs_env \<Rightarrow> string \<Rightarrow> content \<Rightarrow> files \<Rightarrow> (files, unit) outcome" where
  "writeAtomically env p c fs = fs_calls env (write_calls p c) fs"

definition removeIfPresent :: "fs_env \<Rightarrow> string \<Rightarrow> files \<Rightarrow> (files, unit) outcome" where
  "removeIfPresent env p fs = (if fs p \<noteq> None then fs_do env (UnlinkFile p) fs else (fs, Inr ()))"

definition getEnabled :: "string \<Rightarrow> string \<Rightarrow> files \<Rightarrow> bool option" where
  "getEnabled base i fs =
    (case intentPath base i of
       Inl e \<Rightarrow> Some False
     | Inr p \<Rightarrow> (case readFile p fs of
         Inl ENOENT \<Rightarrow> None
       | Inl OtherError \<Rightarrow> Some False
       | Inr (Doc (JBool b)) \<Rightarrow> Some b
       | Inr _ \<Rightarrow> Some False))"

definition setEnabled :: "fs_env \<Rightarrow> string \<Rightarrow> string \<Rightarrow> bool \<Rightarrow> files \<Rightarrow> (files, unit) outcome" where
  "setEnabled env base i enabled fs =
    (case intentPath base i of
       Inl e \<Rightarrow> (fs, Inl e)
     | Inr p \<Rightarrow> writeAtomically env p (Doc (JBool enabled)) fs)"

definition getCredentials :: "string \<Rightarrow> files \<Rightarrow> json option" where
  "getCredentials base fs = parsed (readFile (oauth2Path base) fs)"

definition setCredentials :: "fs_env \<Rightarrow> string \<Rightarrow> json option \<Rightarrow> files \<Rightarrow> (files, unit) outcome" where
  "setCredentials env base credentials fs =
    (case credentials of
       Some v \<Rightarrow> if truthy (Some v) then writeAtomically env (oauth2Path base) (Doc v) fs
                 else removeIfPresent env (oauth2Path base) fs
     | None \<Rightarrow> removeIfPresent env (oauth2Path base) fs)"

definition getDeviceState :: "string \<Rightarrow> string \<Rightarrow> files \<Rightarrow> json option" where
  "getDeviceState base i fs = (case devicePath base i of Inl e \<Rightarrow> None | Inr p \<Rightarrow> parsed (readFile p fs))"

definition setDeviceState :: "fs_env \<Rightarrow> string \<Rightarrow> string \<Rightarrow> json option \<Rightarrow> files \<Rightarrow> (files, unit) outcome" where
  "setDeviceState env base i st fs =
    (case devicePath base i of
       Inl e \<Rightarrow> (fs, Inl e)
     | Inr p \<Rightarrow> (case st of
         Some v \<Rightarrow> if truthy (Some v) then writeAtomically env p (Doc v) fs else removeIfPresent env p fs
       | None \<Rightarrow> removeIfPresent env p fs))"

text \<open>\<open>JSON.stringify\<close> of the parsed state is the document itself.\<close>

definition archiveDeviceState :: "fs_env \<Rightarrow> string \<Rightarrow> string \<Rightarrow> files \<Rightarrow> (files, bool) outcome" where
  "archiveDeviceState env base i fs =
    (case getDeviceState base i fs of
       None \<Rightarrow> (fs, Inr False)
     | Some v \<Rightarrow>
         if \<not> truthy (Some v) then (fs, Inr False)
         else (case (archivePath base i, devicePath base i) of
             (Inr a, Inr p) \<Rightarrow>
               and_then (writeAtomically env a (Doc v) fs) (\<lambda>fs _.
                 and_then (removeIfPresent env p fs) (\<lambda>fs _. (fs, Inr True)))
           | (Inl e, _) \<Rightarrow> (fs, Inl e)
           | (_, Inl e) \<Rightarrow> (fs, Inl e)))"

definition hasArchivedDeviceState :: "string \<Rightarrow> string \<Rightarrow> files \<Rightarrow> bool" where
  "hasArchivedDeviceState base i fs =
    (case archivePath base i of Inl e \<Rightarrow> False | Inr p \<Rightarrow> (case readFile p fs of Inl e \<Rightarrow> False | Inr c \<Rightarrow> True))"

definition restoreDeviceState :: "fs_env \<Rightarrow> string \<Rightarrow> string \<Rightarrow> files \<Rightarrow> (files, bool) outcome" where
  "restoreDeviceState env base i fs =
    (if truthy (getDeviceState base i fs) then (fs, Inr False)
     else (case (archivePath base i, devicePath base i) of
         (Inr a, Inr p) \<Rightarrow>
           (case readFile a fs of
              Inl ENOENT \<Rightarrow> (fs, Inr False)
            | Inl OtherError \<Rightarrow> (fs, Inl ''read'')
            | Inr archived \<Rightarrow> and_then (writeAtomically env p archived fs) (\<lambda>fs _. (fs, Inr True)))
       | (Inl e, _) \<Rightarrow> (fs, Inl e)
       | (_, Inl e) \<Rightarrow> (fs, Inl e)))"

subsection \<open>Crashes\<close>

text \<open>
  Every state a crash can leave: before the first call, while one runs, and after the last. A
  call the system refuses leaves one of them too.
\<close>

fun crash_points :: "fs_env \<Rightarrow> fs_call list \<Rightarrow> files \<Rightarrow> files list" where
  "crash_points env [] fs = [fs]"
| "crash_points env (c # cs) fs = fs # fs_broken env c fs # crash_points env cs (fs_apply c fs)"

lemma crash_points_first [simp]: "fs \<in> set (crash_points env cs fs)"
  by (cases cs) auto

lemma crash_points_append:
  "set (crash_points env (cs @ ds) fs) = set (crash_points env cs fs) \<union> set (crash_points env ds (fold fs_apply cs fs))"
  by (induction cs arbitrary: fs) auto

lemma fs_calls_crash: "fst (fs_calls env cs fs) \<in> set (crash_points env cs fs)"
  by (induction cs arbitrary: fs) (auto simp: fs_do_def)

lemma fs_calls_Inr: "fs_calls env cs fs = (fs', Inr u) \<Longrightarrow> fs' = fold fs_apply cs fs"
  by (induction cs arbitrary: fs) (auto simp: fs_do_def split: if_splits)

lemma write_crash:
  "fs' \<in> set (crash_points env (write_calls p c) fs) \<Longrightarrow> q \<noteq> p @ ''.tmp'' \<Longrightarrow> fs' q = fs q \<or> (q = p \<and> fs' q = Some c)"
  by (cases "q = p") (auto simp: write_calls_def)

lemma write_done: "fold fs_apply (write_calls p c) fs = fs(p @ ''.tmp'' := None, p \<mapsto> c)"
  by (auto simp: write_calls_def)

lemma writeAtomically_Inr: "writeAtomically env p c fs = (fs', Inr u) \<Longrightarrow> fs' = fs(p @ ''.tmp'' := None, p \<mapsto> c)"
  using fs_calls_Inr write_done by (metis writeAtomically_def)

lemma removeIfPresent_Inr: "removeIfPresent env p fs = (fs', Inr u) \<Longrightarrow> fs' = fs(p := None)"
  by (auto simp: removeIfPresent_def fs_do_def fun_upd_idem_iff split: if_splits)

lemma paths_differ:
  assumes "devicePath base i = Inr p" "archivePath base i = Inr a"
  shows "p \<noteq> a" "p \<noteq> a @ ''.tmp''" "a \<noteq> p @ ''.tmp''"
proof -
  have p: "p = base @ ''/device_'' @ i @ ''.json''" and a: "a = base @ ''/device_'' @ i @ ''.archived.json''"
    using assms by (auto simp: devicePath_def archivePath_def split: if_splits)
  show "p \<noteq> a" by (simp add: p a)
  have "last p = CHR ''n''" "last a = CHR ''n''" by (simp_all add: p a)
  then show "p \<noteq> a @ ''.tmp''" "a \<noteq> p @ ''.tmp''" by auto
qed

lemma safe_paths: "devicePath base i = Inr p \<Longrightarrow> \<exists>a. archivePath base i = Inr a"
  by (auto simp: devicePath_def archivePath_def split: if_splits)

text \<open>
  C10. A registration is never half written: whatever call the file system refuses, and wherever
  a crash interrupts it, saving a device's registration leaves the file as it was or with the
  whole new document, and touches no other file but its own temporary one.
\<close>

theorem registration_write_is_atomic:
  assumes "devicePath base i = Inr p" and "truthy (Some v)"
    and "fs' = fst (setDeviceState env base i (Some v) fs) \<or> fs' \<in> set (crash_points env (write_calls p (Doc v)) fs)"
    and "q \<noteq> p @ ''.tmp''"
  shows "fs' q = fs q \<or> (q = p \<and> fs' q = Some (Doc v))"
proof -
  have "fst (setDeviceState env base i (Some v) fs) \<in> set (crash_points env (write_calls p (Doc v)) fs)"
    using assms(1,2) fs_calls_crash by (simp add: setDeviceState_def writeAtomically_def)
  then show ?thesis using assms(3,4) write_crash by blast
qed

theorem registration_write_is_atomic_witness:
  "fst (setDeviceState \<lparr>refuses = \<lambda>c. c = RenameFile ''/d/device_w1.json.tmp'' ''/d/device_w1.json'', torn = \<lambda>_. None\<rparr>
      ''/d'' ''w1'' (Some (JBool True)) [''/d/device_w1.json'' \<mapsto> Doc (JStr ''old'')]) ''/d/device_w1.json'' = Some (Doc (JStr ''old''))"
proof -
  let ?env = "\<lparr>refuses = \<lambda>c. c = RenameFile ''/d/device_w1.json.tmp'' ''/d/device_w1.json'', torn = \<lambda>_. None\<rparr>"
  let ?fs = "[''/d/device_w1.json'' \<mapsto> Doc (JStr ''old'')]"
  have p: "devicePath ''/d'' ''w1'' = Inr ''/d/device_w1.json''" by code_simp
  have "fst (setDeviceState ?env ''/d'' ''w1'' (Some (JBool True)) ?fs) ''/d/device_w1.json'' = ?fs ''/d/device_w1.json'' \<or>
      (''/d/device_w1.json'' = ''/d/device_w1.json'' \<and>
        fst (setDeviceState ?env ''/d'' ''w1'' (Some (JBool True)) ?fs) ''/d/device_w1.json'' = Some (Doc (JBool True)))"
    by (rule registration_write_is_atomic [where env = ?env and fs = ?fs, OF p _ disjI1 [OF refl]]) simp_all
  then show ?thesis
    by (simp add: setDeviceState_def p writeAtomically_def write_calls_def fs_do_def)
qed

text \<open>
  Putting a registration aside never loses it: whichever call of \<open>archiveDeviceState\<close> fails,
  and wherever a crash interrupts it, the whole document is still in the device's file or in
  its archive.
\<close>

theorem archive_never_loses:
  assumes "getDeviceState base i fs = Some v" and "truthy (Some v)"
    and "devicePath base i = Inr p" and "archivePath base i = Inr a"
    and "fs' = fst (archiveDeviceState env base i fs) \<or>
      fs' \<in> set (crash_points env (write_calls a (Doc v) @ [UnlinkFile p]) fs)"
  shows "fs' p = Some (Doc v) \<or> fs' a = Some (Doc v)"
proof -
  have here: "fs p = Some (Doc v)"
    using assms(1,3) by (auto simp: getDeviceState_def parsed_def readFile_def split: option.splits content.splits)
  note d = paths_differ [OF assms(3,4)]
  have first: "fs'' p = Some (Doc v)" if "fs'' \<in> set (crash_points env (write_calls a (Doc v)) fs)" for fs''
    using write_crash [OF that, of p] d here by auto
  have crash: "fs'' p = Some (Doc v) \<or> fs'' a = Some (Doc v)"
    if "fs'' \<in> set (crash_points env (write_calls a (Doc v) @ [UnlinkFile p]) fs)" for fs''
    using that first d unfolding crash_points_append write_done by auto
  have "fst (archiveDeviceState env base i fs) \<in> set (crash_points env (write_calls a (Doc v) @ [UnlinkFile p]) fs)"
  proof (cases "writeAtomically env a (Doc v) fs")
    case (Pair fs1 r)
    have arch: "archiveDeviceState env base i fs = and_then (fs1, r) (\<lambda>fs _. and_then (removeIfPresent env p fs) (\<lambda>fs _. (fs, Inr True)))"
      using assms(1-4) Pair by (simp add: archiveDeviceState_def)
    show ?thesis
    proof (cases r)
      case (Inl e)
      then show ?thesis using Pair fs_calls_crash [of env "write_calls a (Doc v)" fs]
        by (simp add: arch writeAtomically_def crash_points_append)
    next
      case (Inr u)
      then have "fs1 = fold fs_apply (write_calls a (Doc v)) fs" using Pair fs_calls_Inr by (metis writeAtomically_def)
      then show ?thesis using Inr by (auto simp: arch crash_points_append removeIfPresent_def fs_do_def)
    qed
  qed
  then show ?thesis using assms(5) crash by blast
qed

theorem archive_never_loses_witness:
  "fst (archiveDeviceState \<lparr>refuses = \<lambda>c. c = UnlinkFile ''/d/device_w1.json'', torn = \<lambda>_. None\<rparr>
      ''/d'' ''w1'' [''/d/device_w1.json'' \<mapsto> Doc (JStr ''reg'')]) ''/d/device_w1.json'' = Some (Doc (JStr ''reg'')) \<or>
   fst (archiveDeviceState \<lparr>refuses = \<lambda>c. c = UnlinkFile ''/d/device_w1.json'', torn = \<lambda>_. None\<rparr>
      ''/d'' ''w1'' [''/d/device_w1.json'' \<mapsto> Doc (JStr ''reg'')]) ''/d/device_w1.archived.json'' = Some (Doc (JStr ''reg''))"
proof -
  have p: "devicePath ''/d'' ''w1'' = Inr ''/d/device_w1.json''" by code_simp
  have a: "archivePath ''/d'' ''w1'' = Inr ''/d/device_w1.archived.json''" by code_simp
  show ?thesis
    by (rule archive_never_loses [of "''/d''" "''w1''", OF _ _ p a disjI1])
       (simp_all add: getDeviceState_def p readFile_def parsed_def)
qed

subsection \<open>The promise of the storage\<close>

text \<open>What the bridge relies on, whatever storage it is given: the laws of a call that succeeded.\<close>

locale registration_store =
  fixes get :: "'i \<Rightarrow> 's \<Rightarrow> 'v option"
    and put :: "'i \<Rightarrow> 'v \<Rightarrow> 's \<Rightarrow> ('s, unit) outcome"
    and archive :: "'i \<Rightarrow> 's \<Rightarrow> ('s, bool) outcome"
    and restore :: "'i \<Rightarrow> 's \<Rightarrow> ('s, bool) outcome"
    and archived :: "'i \<Rightarrow> 's \<Rightarrow> bool"
    and registration :: "'v \<Rightarrow> bool"
  assumes put_get: "registration v \<Longrightarrow> put i v s = (s', Inr ()) \<Longrightarrow> get i s' = Some v"
    and archive_moves: "archive i s = (s', Inr True) \<Longrightarrow> get i s' = None \<and> archived i s'"
    and archive_has: "get i s = Some v \<Longrightarrow> registration v \<Longrightarrow> archive i s = (s', Inr b) \<Longrightarrow> b"
    and restore_archived: "archive i s = (s', Inr True) \<Longrightarrow> restore i s' = (s'', Inr b) \<Longrightarrow> b \<and> get i s'' = get i s"
    and restore_keeps: "get i s = Some v \<Longrightarrow> registration v \<Longrightarrow> restore i s = (s, Inr False)"
begin

lemma round_trip:
  assumes "registration v" "put i v s = (s1, Inr ())" "archive i s1 = (s2, Inr b)" "restore i s2 = (s3, Inr b')"
  shows "b \<and> b' \<and> get i s2 = None \<and> get i s3 = Some v"
proof -
  have g: "get i s1 = Some v" using assms(1,2) by (rule put_get)
  then have b using archive_has assms(1,3) by blast
  then have ar: "archive i s1 = (s2, Inr True)" using assms(3) by simp
  show ?thesis using archive_moves [OF ar] restore_archived [OF ar assms(4)] g \<open>b\<close> by simp
qed

lemma newer_wins:
  assumes "archive i s = (s1, Inr True)" "registration v" "put i v s1 = (s2, Inr ())"
  shows "restore i s2 = (s2, Inr False)"
  using put_get [OF assms(2,3)] assms(2) by (rule restore_keeps)

end

lemma archive_True:
  assumes "archiveDeviceState env base i fs = (fs', Inr True)"
  obtains v p a where "getDeviceState base i fs = Some v" "truthy (Some v)" "devicePath base i = Inr p" "archivePath base i = Inr a"
    "fs' = (fs(a @ ''.tmp'' := None, a \<mapsto> Doc v))(p := None)"
  using assms by (fastforce simp: archiveDeviceState_def and_then_Inr
      dest!: writeAtomically_Inr removeIfPresent_Inr split: option.splits if_splits sum.splits)

interpretation store: registration_store "getDeviceState base" "\<lambda>i v. setDeviceState env base i (Some v)"
    "archiveDeviceState env base" "restoreDeviceState env base" "hasArchivedDeviceState base" "\<lambda>v. truthy (Some v)"
  for env base
proof
  show "getDeviceState base i fs' = Some v"
    if "truthy (Some v)" "setDeviceState env base i (Some v) fs = (fs', Inr ())" for v i fs fs'
    using that by (auto simp: setDeviceState_def getDeviceState_def readFile_def parsed_def
        dest!: writeAtomically_Inr split: sum.splits)
  show "getDeviceState base i fs' = None \<and> hasArchivedDeviceState base i fs'"
    if "archiveDeviceState env base i fs = (fs', Inr True)" for i fs fs'
    using that
  proof (rule archive_True)
    fix v p a
    assume p: "devicePath base i = Inr p" and a: "archivePath base i = Inr a"
      and fs': "fs' = (fs(a @ ''.tmp'' := None, a \<mapsto> Doc v))(p := None)"
    show ?thesis
      using paths_differ [OF p a] by (simp add: getDeviceState_def hasArchivedDeviceState_def p a fs' readFile_def parsed_def)
  qed
  show b if "getDeviceState base i fs = Some v" "truthy (Some v)" "archiveDeviceState env base i fs = (fs', Inr b)" for i fs fs' v b
    using that by (auto simp: archiveDeviceState_def and_then_Inr split: sum.splits)
  show "b \<and> getDeviceState base i fs'' = getDeviceState base i fs"
    if "archiveDeviceState env base i fs = (fs', Inr True)" "restoreDeviceState env base i fs' = (fs'', Inr b)" for i fs fs' fs'' b
    using that(1)
  proof (rule archive_True)
    fix v p a
    assume v: "getDeviceState base i fs = Some v" and p: "devicePath base i = Inr p" and a: "archivePath base i = Inr a"
      and fs': "fs' = (fs(a @ ''.tmp'' := None, a \<mapsto> Doc v))(p := None)"
    have "getDeviceState base i fs' = None" "fs' a = Some (Doc v)"
      using paths_differ [OF p a] by (simp_all add: getDeviceState_def p fs' readFile_def parsed_def)
    then have "b \<and> fs'' = fs'(p @ ''.tmp'' := None, p \<mapsto> Doc v)"
      using that(2) by (auto simp: restoreDeviceState_def p a readFile_def and_then_Inr dest!: writeAtomically_Inr)
    then have "b" "getDeviceState base i fs'' = Some v" by (simp_all add: getDeviceState_def p readFile_def parsed_def)
    then show ?thesis by (simp add: v)
  qed
  show "restoreDeviceState env base i fs = (fs, Inr False)" if "getDeviceState base i fs = Some v" "truthy (Some v)" for i fs v
    using that by (simp add: restoreDeviceState_def)
qed

text \<open>
  C35. Archive and restore: a registration that was saved, put aside and brought back, each
  without an error, is the one that was saved, it is not there in between, and a registration
  made in between is not overwritten by the archived one.
\<close>

theorem archive_restore_roundtrip:
  assumes "truthy (Some v)" and "setDeviceState env base i (Some v) fs = (fs1, Inr ())"
    and "archiveDeviceState env base i fs1 = (fs2, Inr b)"
    and "restoreDeviceState env base i fs2 = (fs3, Inr b')"
  shows "b \<and> b' \<and> getDeviceState base i fs2 = None \<and> getDeviceState base i fs3 = Some v \<and>
    (truthy (Some w) \<and> setDeviceState env base i (Some w) fs2 = (fs4, Inr ()) \<longrightarrow>
      restoreDeviceState env base i fs4 = (fs4, Inr False))"
proof -
  have r: "b \<and> b' \<and> getDeviceState base i fs2 = None \<and> getDeviceState base i fs3 = Some v"
    using assms by (rule store.round_trip)
  then have "archiveDeviceState env base i fs1 = (fs2, Inr True)" using assms(3) by simp
  then show ?thesis using r store.newer_wins by blast
qed

theorem archive_restore_roundtrip_witness:
  "getDeviceState ''/d'' ''w1'' (fst (restoreDeviceState \<lparr>refuses = \<lambda>_. False, torn = \<lambda>_. None\<rparr> ''/d'' ''w1''
    (fst (archiveDeviceState \<lparr>refuses = \<lambda>_. False, torn = \<lambda>_. None\<rparr> ''/d'' ''w1''
      (fst (setDeviceState \<lparr>refuses = \<lambda>_. False, torn = \<lambda>_. None\<rparr> ''/d'' ''w1'' (Some (JStr ''reg'')) Map.empty)))))) =
   Some (JStr ''reg'')"
proof -
  let ?env = "\<lparr>refuses = \<lambda>_. False, torn = \<lambda>_. None\<rparr>"
  define fs1 where "fs1 = fst (setDeviceState ?env ''/d'' ''w1'' (Some (JStr ''reg'')) Map.empty)"
  define fs2 where "fs2 = fst (archiveDeviceState ?env ''/d'' ''w1'' fs1)"
  define fs3 where "fs3 = fst (restoreDeviceState ?env ''/d'' ''w1'' fs2)"
  have p: "devicePath ''/d'' ''w1'' = Inr ''/d/device_w1.json''" by code_simp
  have a: "archivePath ''/d'' ''w1'' = Inr ''/d/device_w1.archived.json''" by code_simp
  have 1: "setDeviceState ?env ''/d'' ''w1'' (Some (JStr ''reg'')) Map.empty = (fs1, Inr ())"
    and fs1: "fs1 = [''/d/device_w1.json'' \<mapsto> Doc (JStr ''reg'')]"
    by (auto simp: fs1_def setDeviceState_def p writeAtomically_def write_calls_def fs_do_def)
  have 2: "archiveDeviceState ?env ''/d'' ''w1'' fs1 = (fs2, Inr True)"
    and fs2: "fs2 = [''/d/device_w1.archived.json'' \<mapsto> Doc (JStr ''reg'')]"
    by (auto simp: fs2_def fs1 archiveDeviceState_def getDeviceState_def readFile_def parsed_def p a
        writeAtomically_def write_calls_def fs_do_def removeIfPresent_def)
  have 3: "restoreDeviceState ?env ''/d'' ''w1'' fs2 = (fs3, Inr True)"
    by (simp add: fs3_def fs2 restoreDeviceState_def getDeviceState_def readFile_def parsed_def p a
        writeAtomically_def write_calls_def fs_do_def)
  show ?thesis
    using archive_restore_roundtrip [OF _ 1 2 3] unfolding fs3_def fs2_def fs1_def by simp
qed

text \<open>
  The identifier rule allows dots, so the device file of one appliance can be the archive of
  another.
\<close>

lemma archive_path_collision:
  "isSafeDeviceId (i @ ''.archived'') \<Longrightarrow> archivePath base i = devicePath base (i @ ''.archived'') \<or> i = []"
  by (auto simp: archivePath_def devicePath_def isSafeDeviceId_def)

end
