(* ===== verification/CloudThinq1.thy ===== *)
theory CloudThinq1
  imports Framing JsValues
begin

text \<open>
  The bridge's connection to the ThinQ 1 cloud: \<open>bridge/thinq1connection.ts\<close>. \<open>start\<close> first asks the
  gateway over HTTPS, then opens a TLS socket that carries length-prefixed JSON both ways. The
  answer of the gateway, the events of the socket, its connect timeout and the heartbeat timer are
  events of the step function; what the object emits and writes is in its log. The socket exists from the
  stage \<open>Connecting\<close> on; a destroyed socket (\<open>Dying\<close>) still delivers an error and its close. Random command
  identifiers are part of the events. Listeners return.
\<close>

subsection \<open>Texts\<close>

definition replace_all :: "char \<Rightarrow> string \<Rightarrow> string \<Rightarrow> string" where
  "replace_all c r s = concat (map (\<lambda>x. if x = c then r else [x]) s)"

definition escapeXmlText :: "string \<Rightarrow> string" where
  "escapeXmlText value =
    replace_all CHR 0x27 ''&apos;'' (replace_all CHR 0x22 ''&quot;''
      (replace_all CHR ''>'' ''&gt;'' (replace_all CHR ''<'' ''&lt;'' (replace_all CHR ''&'' ''&amp;'' value))))"

definition gateway_request :: "string \<Rightarrow> string" where
  "gateway_request modelName =
    ''<lgedmRoot><countryCode>WW</countryCode><modelName>'' @ escapeXmlText modelName @
    ''</modelName><itemList><item>THINQ_TIME_SYNC_URI</item><elementList><elementCode>pushDetailYn</elementCode><elementValue>Y</elementValue></elementList></itemList></lgedmRoot>''"

text \<open>\<open>buf.toString('base64')\<close>.\<close>

definition base64_digit :: "nat \<Rightarrow> char" where
  "base64_digit n = ''ABCDEFGHIJKLMNOPQRSTUVWXYZabcdefghijklmnopqrstuvwxyz0123456789+/'' ! n"

fun to_base64 :: "buffer \<Rightarrow> string" where
  "to_base64 [] = []"
| "to_base64 [a] = [base64_digit (unat a div 4), base64_digit (unat a mod 4 * 16), CHR ''='', CHR ''='']"
| "to_base64 [a, b] =
    [base64_digit (unat a div 4), base64_digit (unat a mod 4 * 16 + unat b div 16), base64_digit (unat b mod 16 * 4), CHR ''='']"
| "to_base64 (a # b # c # bs) =
    base64_digit (unat a div 4) # base64_digit (unat a mod 4 * 16 + unat b div 16) #
    base64_digit (unat b mod 16 * 4 + unat c div 64) # base64_digit (unat c mod 64) # to_base64 bs"


subsection \<open>The connection\<close>

datatype up1_out = UpConnected | UpData json | UpClose | UpError string | UpWrite json

datatype up1_stage = NoType | Requesting | Over | Connecting | Running | Dying | Gone

record up1 =
  up_id :: string
  up_stage :: up1_stage
  up_lastState :: "buffer option"
  up_isLive :: bool
  up_alive :: bool
  up_destroyed :: bool
  up_closed :: bool
  up_split :: splitter
  up_log :: "up1_out list"

definition up_emit :: "up1_out \<Rightarrow> up1 \<Rightarrow> up1" where
  "up_emit x u = u\<lparr>up_log := up_log u @ [x]\<rparr>"

text \<open>\<open>writeJSON\<close>: \<open>this.socket?.write\<close>; \<open>destroy\<close> has cleared \<open>this.socket\<close>.\<close>

definition writeJSON :: "json \<Rightarrow> up1 \<Rightarrow> up1" where
  "writeJSON j u = (if up_destroyed u \<or> up_stage u \<in> {NoType, Requesting, Over} then u else up_emit (UpWrite j) u)"

definition message1 :: "string \<Rightarrow> (string \<times> json) list \<Rightarrow> json" where
  "message1 i body = JObj [(''Header'', JObj [(''x-lgedm-deviceId'', JStr i)]), (''Body'', JObj body)]"

definition sendAlive :: "string \<Rightarrow> up1 \<Rightarrow> up1" where
  "sendAlive uuid u = writeJSON (message1 (up_id u) [(''CmdWId'', JStr uuid), (''Cmd'', JStr ''Alive'')]) u"

definition dev_info :: "string \<Rightarrow> buffer \<Rightarrow> up1 \<Rightarrow> json" where
  "dev_info uuid b u = message1 (up_id u)
    [(''CmdWId'', JStr uuid), (''Cmd'', JStr ''DevInfo''), (''Format'', JStr ''B64''), (''Data'', JStr (to_base64 b))]"

definition send1 :: "buffer \<Rightarrow> up1 \<Rightarrow> up1" where
  "send1 b u =
    (let u = u\<lparr>up_lastState := Some b\<rparr> in
     if up_isLive u
     then writeJSON (message1 (up_id u) [(''CmdWId'', JStr (''n-'' @ up_id u)), (''ReturnCode'', JStr ''0000''),
       (''Format'', JStr ''B64''), (''Data'', JStr (to_base64 b))]) u
     else u)"

definition destroy_socket :: "up1 \<Rightarrow> up1" where
  "destroy_socket u = (if up_stage u \<in> {Connecting, Running} then u\<lparr>up_stage := Dying\<rparr> else u)"

definition fail1 :: "string \<Rightarrow> up1 \<Rightarrow> up1" where
  "fail1 e u =
    (if up_destroyed u \<or> up_closed u then u
     else up_emit UpClose (up_emit (UpError e) (destroy_socket (u\<lparr>up_closed := True, up_alive := False\<rparr>))))"

definition destroy_up :: "up1 \<Rightarrow> up1" where
  "destroy_up u = destroy_socket (u\<lparr>up_destroyed := True, up_alive := False\<rparr>)"

definition new_up1 :: "string \<Rightarrow> string option \<Rightarrow> up1" where
  "new_up1 i deviceType =
    \<lparr>up_id = i, up_stage = (if deviceType \<in> {None, Some []} then NoType else Requesting), up_lastState = None, up_isLive = False,
     up_alive = False, up_destroyed = False, up_closed = False, up_split = init_splitter, up_log = []\<rparr>"

text \<open>The callback of the splitter: exceptions are caught and logged, so it never throws.\<close>

definition from_cloud :: "(buffer \<Rightarrow> json option) \<Rightarrow> up1 \<Rightarrow> buffer \<Rightarrow> up1 \<times> unit option" where
  "from_cloud parse u p =
    (if up_destroyed u then (u, None)
     else case (case parse p of Some j \<Rightarrow> field ''Body'' j | None \<Rightarrow> None) of
       Some (JObj kvs) \<Rightarrow>
         let body = JObj kvs in
         if map_of kvs ''CmdOpt'' = Some (JStr ''Start'')
         then (case up_lastState u of None \<Rightarrow> u\<lparr>up_isLive := True\<rparr> | Some b \<Rightarrow> send1 b (u\<lparr>up_isLive := True\<rparr>), None)
         else if map_of kvs ''CmdOpt'' = Some (JStr ''Stop'') then (u\<lparr>up_isLive := False\<rparr>, None)
         else let u = up_emit (UpData body) u in
           (if map_of kvs ''ReturnCode'' \<noteq> None then u
            else writeJSON (message1 (up_id u)
              ((case map_of kvs ''CmdWId'' of None \<Rightarrow> [] | Some v \<Rightarrow> [(''CmdWId'', v)]) @ [(''ReturnCode'', JStr ''0000'')])) u, None)
     | Some (JArr xs) \<Rightarrow> (writeJSON (message1 (up_id u) [(''ReturnCode'', JStr ''0000'')]) (up_emit (UpData (JArr xs)) u), None)
     | _ \<Rightarrow> (u, None))"

definition up_data :: "(buffer \<Rightarrow> json option) \<Rightarrow> buffer \<Rightarrow> up1 \<Rightarrow> up1" where
  "up_data parse buf u =
    (case split (from_cloud parse) 65536 (up_split u, u) buf of
       ((sp, u), e) \<Rightarrow>
         let u = u\<lparr>up_split := sp\<rparr> in if e = None then u else fail1 ''bad frame'' u)"

definition up_end :: "up1 \<Rightarrow> up1" where
  "up_end u =
    (case split_end (up_split u) :: splitter \<times> unit frame_error option of
       (sp, e) \<Rightarrow> let u = u\<lparr>up_split := sp\<rparr> in if e = None then u else fail1 ''truncated frame'' u)"

text \<open>The callback of \<open>tls.connect\<close>.\<close>

definition on_secure :: "string \<Rightarrow> string \<Rightarrow> up1 \<Rightarrow> up1" where
  "on_secure uuid uuid' u =
    (if up_destroyed u then destroy_socket u
     else
       let u = up_emit UpConnected (u\<lparr>up_stage := Running\<rparr>);
           u = sendAlive uuid (u\<lparr>up_alive := True\<rparr>)
       in case up_lastState u of None \<Rightarrow> u | Some b \<Rightarrow> writeJSON (dev_info uuid' b u) u)"

definition on_gone :: "up1 \<Rightarrow> up1" where
  "on_gone u =
    (let u = u\<lparr>up_stage := Gone\<rparr> in
     if up_destroyed u \<or> up_closed u then u else up_emit UpClose (u\<lparr>up_closed := True, up_alive := False\<rparr>))"

datatype up1_event =
    Rejected string
  | Answered bool
  | Secured string string
  | Received "buffer \<Rightarrow> json option" buffer
  | Finished
  | Faulted string
  | TimedOutConnecting
  | ClosedSocket
  | AliveTick string
  | SendState buffer
  | Destroy

fun up1_step :: "up1 \<Rightarrow> up1_event \<Rightarrow> up1" where
  "up1_step u (Rejected e) =
    (if up_stage u = NoType then fail1 ''ThinQ1 device type is missing'' (u\<lparr>up_stage := Over\<rparr>)
     else if up_stage u = Requesting then fail1 e (u\<lparr>up_stage := Over\<rparr>) else u)"
| "up1_step u (Answered good) =
    (if up_stage u \<noteq> Requesting then u
     else if \<not> good then fail1 ''ThinQ1 gateway metadata request failed'' (u\<lparr>up_stage := Over\<rparr>)
     else if up_destroyed u then u\<lparr>up_stage := Over\<rparr> else u\<lparr>up_stage := Connecting\<rparr>)"
| "up1_step u (Secured uuid uuid') = (if up_stage u = Connecting then on_secure uuid uuid' u else u)"
| "up1_step u (Received parse buf) = (if up_stage u = Running then up_data parse buf u else u)"
| "up1_step u Finished = (if up_stage u = Running then up_end u else u)"
| "up1_step u (Faulted e) = (if up_stage u \<in> {Connecting, Running, Dying} then up_emit (UpError e) u else u)"
| "up1_step u TimedOutConnecting = (if up_stage u = Connecting then destroy_socket u else u)"
| "up1_step u ClosedSocket = (if up_stage u \<in> {Connecting, Running, Dying} then on_gone u else u)"
| "up1_step u (AliveTick uuid) = (if up_alive u then sendAlive uuid u else u)"
| "up1_step u (SendState b) = send1 b u"
| "up1_step u Destroy = destroy_up u"

definition up1_run :: "string \<Rightarrow> string option \<Rightarrow> up1_event list \<Rightarrow> up1" where
  "up1_run i deviceType es = foldl up1_step (new_up1 i deviceType) es"

subsection \<open>The invariant\<close>

definition closes :: "up1_out list \<Rightarrow> nat" where
  "closes xs = length (filter (\<lambda>x. x = UpClose) xs)"

definition is_switch :: "json \<Rightarrow> bool" where
  "is_switch b \<longleftrightarrow> field ''CmdOpt'' b = Some (JStr ''Start'') \<or> field ''CmdOpt'' b = Some (JStr ''Stop'')"

definition reply1 :: "string \<Rightarrow> json \<Rightarrow> json" where
  "reply1 i b = message1 i ((case field ''CmdWId'' b of None \<Rightarrow> [] | Some v \<Rightarrow> [(''CmdWId'', v)]) @ [(''ReturnCode'', JStr ''0000'')])"

text \<open>Every body handed on is no switch, and the next thing done is its acknowledgement, if it asks for one.\<close>

fun paired :: "string \<Rightarrow> up1_out list \<Rightarrow> bool" where
  "paired i [] = True"
| "paired i (UpData b # xs) =
    (\<not> is_switch b \<and> paired i xs \<and>
     (field ''ReturnCode'' b = None \<longrightarrow> (case xs of UpWrite j # _ \<Rightarrow> j = reply1 i b | _ \<Rightarrow> False)))"
| "paired i (_ # xs) = paired i xs"

lemma paired_append: "paired i xs \<Longrightarrow> paired i ys \<Longrightarrow> paired i (xs @ ys)"
proof (induction i xs rule: paired.induct)
  case (2 i b xs)
  then show ?case by (cases xs) auto
qed auto

lemma paired_snoc: "paired i xs \<Longrightarrow> (\<And>b. x \<noteq> UpData b) \<Longrightarrow> paired i (xs @ [x])"
  by (rule paired_append) (cases x; auto)+

definition up_ok :: "up1 \<Rightarrow> bool" where
  "up_ok u \<longleftrightarrow> closes (up_log u) = (if up_closed u then 1 else 0) \<and>
    (up_stage u \<in> {Over, Gone} \<longrightarrow> up_destroyed u \<or> up_closed u) \<and>
    (up_alive u \<longleftrightarrow> up_stage u = Running) \<and>
    (up_stage u \<in> {Connecting, Running} \<longrightarrow> \<not> up_destroyed u \<and> \<not> up_closed u) \<and>
    (up_stage u \<in> {NoType, Requesting} \<longrightarrow> \<not> up_closed u) \<and>
    paired (up_id u) (up_log u)"

lemma closes_simps [simp]: "closes [] = 0" "closes (xs @ ys) = closes xs + closes ys" "closes (x # xs) = (if x = UpClose then 1 else 0) + closes xs"
  by (simp_all add: closes_def)

lemmas up_defs = up_emit_def writeJSON_def destroy_socket_def sendAlive_def send1_def dev_info_def Let_def

lemma ok_fail1: "up_ok u \<Longrightarrow> up_stage u \<notin> {NoType, Requesting} \<Longrightarrow> up_ok (fail1 e u)"
  by (auto simp: up_ok_def fail1_def up_defs intro!: paired_append paired_snoc)

lemma ok_fail_over: "up_ok u \<Longrightarrow> up_stage u \<in> {NoType, Requesting} \<Longrightarrow> up_ok (fail1 e (u\<lparr>up_stage := Over\<rparr>))"
  by (auto simp: up_ok_def fail1_def up_defs intro!: paired_append paired_snoc)

lemma ok_send1: "up_ok u \<Longrightarrow> up_ok (send1 b u)"
  by (auto simp: up_ok_def up_defs intro!: paired_snoc)

text \<open>While frames are read the connection runs.\<close>

definition running :: "up1 \<Rightarrow> bool" where
  "running u \<longleftrightarrow> up_ok u \<and> up_stage u = Running"

lemma running_send1: "running u \<Longrightarrow> running (send1 b u)"
  using ok_send1 by (auto simp: running_def up_defs)

lemma running_from_cloud: "running u \<Longrightarrow> snd (from_cloud parse u p) = None \<and> running (fst (from_cloud parse u p))"
proof -
  assume r: "running u"
  then have u: "up_ok u" "up_stage u = Running" "\<not> up_destroyed u" "\<not> up_closed u" by (auto simp: running_def up_ok_def)
  have live: "running (u\<lparr>up_isLive := b\<rparr>)" for b using r by (simp add: running_def up_ok_def)
  have one: "running (up_emit (UpData b) u)" if "\<not> is_switch b" "field ''ReturnCode'' b \<noteq> None" for b
  proof -
    have "paired (up_id u) [UpData b]" using that by simp
    then show ?thesis using u by (simp add: running_def up_ok_def up_emit_def paired_append)
  qed
  have two: "running (writeJSON (reply1 (up_id u) b) (up_emit (UpData b) u))" if "\<not> is_switch b" for b
  proof -
    have "paired (up_id u) [UpData b, UpWrite (reply1 (up_id u) b)]" using that by simp
    then show ?thesis using u by (simp add: running_def up_ok_def up_emit_def writeJSON_def paired_append)
  qed
  show ?thesis
  proof (cases "case parse p of Some j \<Rightarrow> field ''Body'' j | None \<Rightarrow> None")
    case None
    then show ?thesis using r u by (simp add: from_cloud_def)
  next
    case (Some body)
    show ?thesis
    proof (cases body)
      case (JObj kvs)
      show ?thesis
      proof (cases "is_switch body")
        case True
        then show ?thesis using u Some JObj live running_send1 [OF live]
          by (auto simp: from_cloud_def is_switch_def Let_def split: option.split)
      next
        case False
        then show ?thesis using u Some JObj one [OF False] two [OF False]
          by (auto simp: from_cloud_def is_switch_def reply1_def Let_def up_emit_def)
      qed
    next
      case (JArr xs)
      then show ?thesis using u Some two [of body] by (auto simp: from_cloud_def is_switch_def reply1_def up_emit_def)
    qed (use r u Some in \<open>simp_all add: from_cloud_def\<close>)
  qed
qed

lemma ok_up_data: "running u \<Longrightarrow> up_ok (up_data parse buf u)"
proof -
  assume r: "running u"
  have loop: "running (snd (fst (split_loop (from_cloud parse) 65536 acc u))) \<and> True" for acc
    by (rule split_loop_inv [where I = running and J = running and R = "\<lambda>_ _. True" and Q = "\<lambda>_. True"])
      (use running_from_cloud r in auto)
  obtain sp t e where s: "split (from_cloud parse) 65536 (up_split u, u) buf = ((sp, t), e)"
    by (cases "split (from_cloud parse) 65536 (up_split u, u) buf") auto
  have "running t"
  proof (cases "failed (up_split u)")
    case True
    then show ?thesis using s r by (simp add: split_def)
  next
    case False
    then show ?thesis using loop s split_unfold [of "from_cloud parse" 65536 "(up_split u, u)" buf] by (simp, metis snd_conv)
  qed
  then have "up_ok (t\<lparr>up_split := sp\<rparr>)" "up_stage t = Running" by (simp_all add: running_def up_ok_def)
  then show ?thesis using ok_fail1 by (simp add: up_data_def s Let_def)
qed

lemma ok_up1_step: "up_ok u \<Longrightarrow> up_ok (up1_step u e)"
proof (cases e)
  case (Rejected m)
  assume "up_ok u"
  then show ?thesis using ok_fail_over [of u] by (simp add: Rejected)
next
  case (Answered good)
  assume "up_ok u"
  then show ?thesis using ok_fail_over [of u] by (auto simp: Answered up_ok_def)
next
  case (Secured a b)
  assume "up_ok u"
  then show ?thesis
    by (auto simp: Secured up_ok_def on_secure_def up_defs split: option.split intro!: paired_append paired_snoc)
next
  case (Received parse buf)
  assume "up_ok u"
  then show ?thesis using ok_up_data by (simp add: Received running_def)
next
  case Finished
  assume "up_ok u"
  then have "up_ok (u\<lparr>up_split := sp\<rparr>)" for sp by (simp add: up_ok_def)
  then show ?thesis using ok_fail1 \<open>up_ok u\<close> by (simp add: Finished up_end_def Let_def split: prod.split)
next
  case (Faulted m)
  assume "up_ok u"
  then show ?thesis by (auto simp: Faulted up_ok_def up_emit_def intro!: paired_snoc)
next
  case TimedOutConnecting
  assume "up_ok u"
  then show ?thesis by (auto simp: TimedOutConnecting up_ok_def destroy_socket_def)
next
  case ClosedSocket
  assume "up_ok u"
  then show ?thesis by (auto simp: ClosedSocket up_ok_def on_gone_def up_emit_def Let_def intro!: paired_snoc)
next
  case (AliveTick uuid)
  assume "up_ok u"
  then show ?thesis by (auto simp: AliveTick up_ok_def up_defs intro!: paired_snoc)
next
  case (SendState b)
  assume "up_ok u"
  then show ?thesis by (simp add: SendState ok_send1)
next
  case Destroy
  assume "up_ok u"
  then show ?thesis by (auto simp: Destroy up_ok_def destroy_up_def destroy_socket_def)
qed

lemma ok_up1_run: "up_ok (up1_run i ty es) \<and> up_id (up1_run i ty es) = i"
proof (induction es rule: rev_induct)
  case Nil
  then show ?case by (simp add: up1_run_def new_up1_def up_ok_def)
next
  case (snoc e es)
  have send: "up_id (send1 b u) = up_id u" for b u by (simp add: up_defs)
  have cloud: "up_id (fst (from_cloud parse u p)) = up_id u" for parse u p
    by (auto simp: from_cloud_def up_defs split: option.split json.split)
  have data: "up_id (up_data parse buf u) = up_id u" for parse buf u
  proof -
    have "True \<and> up_id (snd (fst (split_loop (from_cloud parse) 65536 acc u))) = up_id u" for acc
      by (rule split_loop_inv [where I = "\<lambda>_. True" and J = "\<lambda>_. True" and R = "\<lambda>a b. up_id b = up_id a" and Q = "\<lambda>_. True"])
        (use cloud in auto)
    then show ?thesis
      by (auto simp: up_data_def split_def fail1_def up_emit_def destroy_socket_def Let_def split: prod.split option.split)
        (metis fst_conv snd_conv)+
  qed
  have "up_id (up1_step u e) = up_id u" for u
    by (cases e) (auto simp: send data fail1_def on_secure_def on_gone_def up_end_def destroy_up_def up_defs split: option.split prod.split)
  then show ?case using snoc ok_up1_step by (simp add: up1_run_def)
qed

text \<open>
  The bridge always learns of the end of a cloud connection: \<open>close\<close> is emitted at most once, it has
  been emitted whenever the gateway request has failed or the socket has closed - unless the bridge had
  destroyed the connection itself - and the heartbeat runs exactly while the connection does.
\<close>

theorem cloud_connection_end_is_told:
  "let u = up1_run i deviceType es in
     length (filter (\<lambda>x. x = UpClose) (up_log u)) \<le> 1 \<and>
     (up_stage u \<in> {Over, Gone} \<longrightarrow> up_destroyed u \<or> UpClose \<in> set (up_log u)) \<and>
     (up_alive u \<longleftrightarrow> up_stage u = Running)"
proof -
  have c: "closes xs = 1 \<Longrightarrow> UpClose \<in> set xs" for xs by (induction xs) (auto split: if_splits)
  show ?thesis
    using ok_up1_run [of i deviceType es] c [of "up_log (up1_run i deviceType es)"] unfolding Let_def closes_def [symmetric]
    by (auto simp: up_ok_def)
qed

text \<open>
  The cloud's commands reach the appliance once and unchanged: in every run each body handed on is
  neither a start nor a stop of the monitoring, and if it carries no return code, the very next thing the
  connection does is to acknowledge it under its own command identifier.
\<close>

theorem cloud_commands_acknowledged: "paired i (up_log (up1_run i deviceType es))"
  using conjunct1 [OF ok_up1_run [of i deviceType es], unfolded up_ok_def] conjunct2 [OF ok_up1_run [of i deviceType es]] by simp

definition silent_but_errors :: "up1_out list \<Rightarrow> bool" where
  "silent_but_errors xs \<longleftrightarrow> list_all (\<lambda>x. case x of UpError _ \<Rightarrow> True | _ \<Rightarrow> False) xs"

text \<open>
  A destroyed connection is silent: after \<open>destroy\<close> nothing is emitted or written any more, whatever the
  gateway, the socket and the timers still deliver; only an error of the socket is passed on.
\<close>

theorem destroyed_connection_is_silent:
  "silent_but_errors (drop (length (up_log (up1_run i deviceType es))) (up_log (up1_run i deviceType (es @ Destroy # more_events))))"
proof -
  define s where "s = up1_run i deviceType es"
  have "up_ok (foldl up1_step (up1_step s Destroy) evs) \<and> up_destroyed (foldl up1_step (up1_step s Destroy) evs) \<and>
      (\<exists>xs. up_log (foldl up1_step (up1_step s Destroy) evs) = up_log s @ xs \<and> silent_but_errors xs)" for evs
  proof (induction evs rule: rev_induct)
    case Nil
    then show ?case
      using ok_up1_step [of s Destroy] ok_up1_run [of i deviceType es] by (simp add: s_def destroy_up_def destroy_socket_def silent_but_errors_def)
  next
    case (snoc e evs)
    define u where "u = foldl up1_step (up1_step s Destroy) evs"
    from snoc obtain xs where u: "up_ok u" "up_destroyed u" "up_log u = up_log s @ xs" "silent_but_errors xs" unfolding u_def by blast
    have st: "up_stage u \<notin> {Connecting, Running}" "\<not> up_alive u" using u(1,2) by (auto simp: up_ok_def)
    have "up_destroyed (up1_step u e) \<and> (\<exists>ys. up_log (up1_step u e) = up_log u @ ys \<and> silent_but_errors ys)"
      using u(2) st by (cases e) (auto simp: fail1_def destroy_up_def on_gone_def up_defs silent_but_errors_def)
    then obtain ys where "up_destroyed (up1_step u e)" "up_log (up1_step u e) = up_log s @ (xs @ ys)" "silent_but_errors (xs @ ys)"
      using u(3,4) by (auto simp: silent_but_errors_def)
    then show ?case unfolding foldl_append foldl.simps u_def [symmetric] using ok_up1_step [OF u(1)] by blast
  qed
  from this [of more_events] show ?thesis by (auto simp: up1_run_def s_def)
qed


subsection \<open>The gateway request\<close>

fun unescape :: "string \<Rightarrow> string" where
  "unescape [] = []"
| "unescape (c # cs) =
    (if c \<noteq> CHR ''&'' then c # unescape cs
     else if take 4 cs = ''amp;'' then CHR ''&'' # unescape (drop 4 cs)
     else if take 3 cs = ''lt;'' then CHR ''<'' # unescape (drop 3 cs)
     else if take 3 cs = ''gt;'' then CHR ''>'' # unescape (drop 3 cs)
     else if take 5 cs = ''quot;'' then CHR 0x22 # unescape (drop 5 cs)
     else if take 5 cs = ''apos;'' then CHR 0x27 # unescape (drop 5 cs)
     else c # unescape cs)"

definition xml_char :: "char \<Rightarrow> string" where
  "xml_char c =
    (if c = CHR ''&'' then ''&amp;'' else if c = CHR ''<'' then ''&lt;'' else if c = CHR ''>'' then ''&gt;''
     else if c = CHR 0x22 then ''&quot;'' else if c = CHR 0x27 then ''&apos;'' else [c])"

lemma replace_all_Nil [simp]: "replace_all c r [] = []"
  by (simp add: replace_all_def)

lemma replace_all_append [simp]: "replace_all c r (xs @ ys) = replace_all c r xs @ replace_all c r ys"
  by (simp add: replace_all_def)

lemma replace_all_Cons [simp]: "replace_all c r (x # xs) = (if x = c then r else [x]) @ replace_all c r xs"
  by (simp add: replace_all_def)

text \<open>The replacements one after the other are a translation of each character.\<close>

lemma escape_chars: "escapeXmlText v = concat (map xml_char v)"
proof (induction v)
  case (Cons c v)
  have "escapeXmlText (c # v) = xml_char c @ escapeXmlText v" by (simp add: escapeXmlText_def xml_char_def)
  then show ?case using Cons by simp
qed (simp add: escapeXmlText_def)

text \<open>
  The appliance's model name cannot change the gateway request: escaped, it contains no bracket and no
  quote, and reading the entities back gives exactly the name.
\<close>

theorem model_name_is_escaped:
  "list_all (\<lambda>c. c \<notin> {CHR ''<'', CHR ''>'', CHR 0x22, CHR 0x27}) (escapeXmlText v) \<and> unescape (escapeXmlText v) = v"
proof -
  have "list_all (\<lambda>c. c \<notin> {CHR ''<'', CHR ''>'', CHR 0x22, CHR 0x27}) (xml_char c)" for c by (simp add: xml_char_def)
  then have "list_all (\<lambda>c. c \<notin> {CHR ''<'', CHR ''>'', CHR 0x22, CHR 0x27}) (concat (map xml_char v))"
    by (induction v) (auto simp: list_all_iff)
  moreover have "unescape (xml_char c @ xs) = c # unescape xs" for c xs
    by (simp add: xml_char_def)
  then have "unescape (concat (map xml_char v)) = v" by (induction v) simp_all
  ultimately show ?thesis by (simp only: escape_chars)
qed

end
