(* ===== verification/CloudThinq2.thy ===== *)
theory CloudThinq2
  imports Hex JsValues
begin

text \<open>
  The bridge's connection to the ThinQ 2 cloud: \<open>bridge/thinq2connection.ts\<close>, an MQTT client that speaks
  for one appliance. The client's events are the events of the step function; \<open>announceToCloud\<close> is cut at
  its first \<open>await\<close>, and \<open>Announced\<close> is its second half. What the object emits, subscribes to and publishes
  is in its log; messages that carry a number of the connection's own counter are \<open>Own\<close>, the appliance's
  envelopes that are passed on are \<open>Passed\<close>. Listeners return.
\<close>

datatype up2_out =
    Up2Connected
  | Up2Message json
  | Up2Data buffer
  | Up2Close
  | Up2Error string
  | Subscribe string
  | Own string json
  | Passed string json
  | EndClient

record up2_state =
  subTopic :: string
  pubTopic :: string
  provTopic :: string
  countryCode :: json

record up2 =
  u2_id :: string
  u2_modelName :: json
  u2_state :: up2_state
  u2_profile :: "(string \<times> json) list option"
  u2_mid :: nat
  u2_destroyed :: bool
  u2_announcing :: nat
  u2_log :: "up2_out list"

definition new_up2 :: "string \<Rightarrow> json \<Rightarrow> up2_state \<Rightarrow> (string \<times> json) list option \<Rightarrow> up2" where
  "new_up2 i model st profile =
    \<lparr>u2_id = i, u2_modelName = model, u2_state = st, u2_profile = profile, u2_mid = 10000, u2_destroyed = False, u2_announcing = 0, u2_log = []\<rparr>"

definition u2_say :: "up2_out \<Rightarrow> up2 \<Rightarrow> up2" where
  "u2_say x u = u\<lparr>u2_log := u2_log u @ [x]\<rparr>"

definition next_mid :: "up2 \<Rightarrow> up2" where
  "next_mid u = u\<lparr>u2_mid := u2_mid u + 1\<rparr>"

definition provisioning_ack :: "up2 \<Rightarrow> json" where
  "provisioning_ack u = JObj
    [(''mid'', JNum (int (u2_mid u))), (''did'', JStr (u2_id u)), (''kind'', u2_modelName u), (''cmd'', JStr ''completeProvisioning_ack''),
     (''rssi'', JNum (-48)), (''fs'', JStr ''idle''), (''data'', JNull), (''type'', JNum 1)]"

definition device_packet :: "string \<Rightarrow> up2 \<Rightarrow> json" where
  "device_packet d u = JObj
    [(''mid'', JNum (int (u2_mid u))), (''did'', JStr (u2_id u)), (''kind'', u2_modelName u), (''cmd'', JStr ''device_packet''),
     (''rssi'', JNum (-48)), (''fs'', JStr ''idle''), (''data'', JStr d), (''type'', JNum 1)]"

definition pre_deploy :: "up2 \<Rightarrow> json" where
  "pre_deploy u =
    (let cc = countryCode (u2_state u) in JObj
    [(''mid'', JNum (int (u2_mid u))), (''did'', JStr (u2_id u)), (''kind'', u2_modelName u), (''cmd'', JStr ''preDeploy''),
     (''rssi'', JNum (-48)), (''fs'', JStr ''idle''),
     (''data'', JObj
       [(''appInfo'', JObj
          [(''modelName'', u2_modelName u), (''modelLanguage'', cc), (''softVer'', JStr ''690409''), (''ruleVer'', JStr ''2.0.11''),
           (''countryCode'', cc), (''subCountryCode'', cc), (''appVersion'', JStr ''clip_hna_v1.9.183''), (''modemType'', JStr ''RTK_RTL8711am''),
           (''regionalCode'', JStr ''eic''), (''timezone'', JStr ''+0100''), (''svcCode'', JStr ''SVC202''), (''HomeApSsid'', JStr ''whatever''),
           (''DeviceType'', JStr []), (''ruleEngine'', JStr ''y''), (''protocolVer'', JStr ''1''), (''oneshot'', JStr ''y''),
           (''size'', JNum 1572864),
           (''fwUpgradeInfo'', JObj [(''upgSched'', JObj [(''cmd'', JStr ''none''), (''upgUtc'', JStr ''0'')])])]),
        (''platformInfo'', JObj
          [(''provisioningKey'', u2_modelName u), (''version'', JStr ''clip_v2.00.15.05-RTK_RTL8711am-SDK-8-RELEASE'')])]),
     (''type'', JNum 0)])"

text \<open>\<open>payload.cmd\<close> and \<open>payload.data\<close>; reading them of \<open>null\<close> throws, which is caught and logged.\<close>

definition on_message :: "string \<Rightarrow> json option \<Rightarrow> up2 \<Rightarrow> up2" where
  "on_message topic payload u =
    (if u2_destroyed u \<or> topic \<noteq> subTopic (u2_state u) then u
     else case payload of
       None \<Rightarrow> u
     | Some p \<Rightarrow>
         if p = JNull then u
         else if field ''cmd'' p = Some (JStr ''completeProvisioning'')
         then let u = next_mid u in u2_say (Own (pubTopic (u2_state u)) (provisioning_ack u)) u
         else
           let u = u2_say (Up2Message p) u
           in case (field ''cmd'' p, field ''data'' p) of
                (Some (JStr c), Some (JStr d)) \<Rightarrow> if c = ''packet'' then u2_say (Up2Data (from_hex d)) u else u
              | _ \<Rightarrow> u)"

definition on_connect :: "up2 \<Rightarrow> up2" where
  "on_connect u =
    (if u2_destroyed u then u
     else u2_say (Subscribe (subTopic (u2_state u))) (u2_say Up2Connected (u\<lparr>u2_announcing := u2_announcing u + 1\<rparr>)))"

definition announced2 :: "up2 \<Rightarrow> up2" where
  "announced2 u =
    (let u = next_mid (u\<lparr>u2_announcing := u2_announcing u - 1\<rparr>) in
     u2_say (Own (provTopic (u2_state u))
       (case u2_profile u of Some kvs \<Rightarrow> JObj (AList.update ''mid'' (JNum (int (u2_mid u))) kvs) | None \<Rightarrow> pre_deploy u)) u)"

definition announce_failed :: "string \<Rightarrow> up2 \<Rightarrow> up2" where
  "announce_failed e u = (if u2_destroyed u then u else u2_say Up2Close (u2_say (Up2Error e) u))"

text \<open>\<open>send\<close> takes a text or a buffer; a buffer is written in upper case hexadecimal.\<close>

definition upper :: "char \<Rightarrow> char" where
  "upper c = (if of_char c \<ge> (97 :: nat) \<and> of_char c \<le> (122 :: nat) then char_of (of_char c - 32 :: nat) else c)"

definition upper_hex :: "buffer \<Rightarrow> string" where
  "upper_hex b = map upper (to_hex b)"

definition send2 :: "string + buffer \<Rightarrow> up2 \<Rightarrow> up2" where
  "send2 data u =
    (let d = (case data of Inl s \<Rightarrow> s | Inr b \<Rightarrow> upper_hex b); u = next_mid u
     in u2_say (Own (pubTopic (u2_state u)) (device_packet d u)) u)"

definition sendMessage :: "json \<Rightarrow> up2 \<Rightarrow> up2" where
  "sendMessage p u = u2_say (Passed (pubTopic (u2_state u)) p) u"

definition destroy2 :: "up2 \<Rightarrow> up2" where
  "destroy2 u = u2_say EndClient (u\<lparr>u2_destroyed := True\<rparr>)"

datatype up2_event =
    MqttMessage string "json option"
  | MqttConnect
  | Announced
  | AnnounceFailed string
  | MqttClose
  | MqttError string
  | Send2 "string + buffer"
  | SendMessage json
  | Destroy2

fun up2_step :: "up2 \<Rightarrow> up2_event \<Rightarrow> up2" where
  "up2_step u (MqttMessage t p) = on_message t p u"
| "up2_step u MqttConnect = on_connect u"
| "up2_step u Announced = (if u2_announcing u > 0 then announced2 u else u)"
| "up2_step u (AnnounceFailed e) = announce_failed e u"
| "up2_step u MqttClose = (if u2_destroyed u then u else u2_say Up2Close u)"
| "up2_step u (MqttError e) = (if u2_destroyed u then u else u2_say (Up2Error e) u)"
| "up2_step u (Send2 d) = send2 d u"
| "up2_step u (SendMessage p) = sendMessage p u"
| "up2_step u Destroy2 = destroy2 u"

definition up2_run :: "up2 \<Rightarrow> up2_event list \<Rightarrow> up2" where
  "up2_run u es = foldl up2_step u es"


subsection \<open>What the bridge hears\<close>

definition emitted :: "up2_out list \<Rightarrow> up2_out list" where
  "emitted xs = filter (\<lambda>x. case x of Up2Connected \<Rightarrow> True | Up2Message _ \<Rightarrow> True | Up2Data _ \<Rightarrow> True | Up2Close \<Rightarrow> True | Up2Error _ \<Rightarrow> True | _ \<Rightarrow> False) xs"

text \<open>What one event of the client makes the connection emit, as a function of the event alone.\<close>

definition command_of :: "json \<Rightarrow> up2_out list" where
  "command_of p =
    (if p = JNull \<or> field ''cmd'' p = Some (JStr ''completeProvisioning'') then []
     else Up2Message p # (case (field ''cmd'' p, field ''data'' p) of
       (Some (JStr c), Some (JStr d)) \<Rightarrow> if c = ''packet'' then [Up2Data (from_hex d)] else [] | _ \<Rightarrow> []))"

fun emission :: "string \<Rightarrow> up2_event \<Rightarrow> up2_out list" where
  "emission sub (MqttMessage t p) = (if t = sub then (case p of None \<Rightarrow> [] | Some p \<Rightarrow> command_of p) else [])"
| "emission sub MqttConnect = [Up2Connected]"
| "emission sub (AnnounceFailed e) = [Up2Error e, Up2Close]"
| "emission sub MqttClose = [Up2Close]"
| "emission sub (MqttError e) = [Up2Error e]"
| "emission sub _ = []"

lemma emitted_simps [simp]: "emitted [] = []" "emitted (xs @ ys) = emitted xs @ emitted ys"
  "emitted (x # xs) = (case x of Up2Connected \<Rightarrow> [x] | Up2Message _ \<Rightarrow> [x] | Up2Data _ \<Rightarrow> [x] | Up2Close \<Rightarrow> [x] | Up2Error _ \<Rightarrow> [x] | _ \<Rightarrow> []) @ emitted xs"
  by (simp_all add: emitted_def split: up2_out.split)

lemmas u2_defs = u2_say_def next_mid_def on_message_def on_connect_def announced2_def announce_failed_def send2_def sendMessage_def destroy2_def Let_def

lemma step_emits:
  "emitted (u2_log (up2_step u e)) = emitted (u2_log u) @ (if u2_destroyed u then [] else emission (subTopic (u2_state u)) e) \<and>
   u2_state (up2_step u e) = u2_state u \<and> (u2_destroyed (up2_step u e) \<longleftrightarrow> u2_destroyed u \<or> e = Destroy2)"
  by (cases e) (auto simp: u2_defs command_of_def split: option.split json.split sum.split)

text \<open>
  C25. The ThinQ 2 cloud's commands reach the appliance, each once, in order and with their envelope: what the
  connection emits is, event by event up to its destruction, what the events say - every message on its own
  topic that is not the end of provisioning, followed by its packet where it has one; connects, errors and
  closes as they come - and nothing after it was destroyed.
\<close>

theorem cloud2_commands_delivered:
  "emitted (u2_log (up2_run (new_up2 i model st profile) es)) =
    concat (map (emission (subTopic st)) (takeWhile (\<lambda>e. e \<noteq> Destroy2) es))"
proof -
  let ?r = "up2_run (new_up2 i model st profile)"
  have "emitted (u2_log (?r es)) = concat (map (emission (subTopic st)) (takeWhile (\<lambda>e. e \<noteq> Destroy2) es)) \<and>
      u2_state (?r es) = st \<and> (u2_destroyed (?r es) \<longleftrightarrow> Destroy2 \<in> set es)"
  proof (induction es rule: rev_induct)
    case Nil
    then show ?case by (simp add: up2_run_def new_up2_def)
  next
    case (snoc e es)
    show ?case
    proof (cases "Destroy2 \<in> set es")
      case True
      then show ?thesis using snoc step_emits [of "?r es" e] by (auto simp: up2_run_def takeWhile_append)
    next
      case False
      then have tw: "takeWhile (\<lambda>e. e \<noteq> Destroy2) (es @ xs) = es @ takeWhile (\<lambda>e. e \<noteq> Destroy2) xs" for xs
        by (intro takeWhile_append2) auto
      have tw0: "takeWhile (\<lambda>e. e \<noteq> Destroy2) es = es" using tw [of "[]"] by (simp only: append_Nil2 takeWhile.simps)
      show ?thesis
        using snoc [unfolded tw0] step_emits [of "?r es" e] False by (auto simp: up2_run_def tw)
    qed
  qed
  then show ?thesis by blast
qed


subsection \<open>What the cloud hears\<close>

definition own :: "up2_out list \<Rightarrow> json list" where
  "own xs = concat (map (\<lambda>x. case x of Own _ j \<Rightarrow> [j] | _ \<Rightarrow> []) xs)"

lemma own_simps [simp]: "own [] = []" "own (xs @ ys) = own xs @ own ys" "own (x # xs) = (case x of Own _ j \<Rightarrow> [j] | _ \<Rightarrow> []) @ own xs"
  by (simp_all add: own_def)

text \<open>
  The connection numbers its own messages: acknowledgements, announcements and packets carry the numbers
  10001, 10002 and so on in the order they are published, none missing and none twice, whether an
  announcement is the appliance's own or the built-in one.
\<close>

theorem own_messages_numbered:
  "let u = up2_run (new_up2 i model st profile) es in
     map (field ''mid'') (own (u2_log u)) = map (\<lambda>k. Some (JNum (int k))) [10001..<10001 + length (own (u2_log u))] \<and>
     u2_mid u = 10000 + length (own (u2_log u))"
proof (induction es rule: rev_induct)
  case Nil
  then show ?case by (simp add: up2_run_def new_up2_def)
next
  case (snoc e es)
  define u where "u = up2_run (new_up2 i model st profile) es"
  have "own (u2_log (up2_step u e)) = own (u2_log u) \<and> u2_mid (up2_step u e) = u2_mid u \<or>
      (\<exists>j. own (u2_log (up2_step u e)) = own (u2_log u) @ [j] \<and> field ''mid'' j = Some (JNum (int (u2_mid u + 1))) \<and>
        u2_mid (up2_step u e) = u2_mid u + 1)"
    by (cases e)
      (auto simp: u2_defs provisioning_ack_def device_packet_def pre_deploy_def update_conv' split: option.split json.split)
  then show ?case
  proof (elim disjE exE conjE)
    fix j
    assume j: "own (u2_log (up2_step u e)) = own (u2_log u) @ [j]" "field ''mid'' j = Some (JNum (int (u2_mid u + 1)))"
      "u2_mid (up2_step u e) = u2_mid u + 1"
    have r: "up2_run (new_up2 i model st profile) (es @ [e]) = up2_step u e" by (simp add: up2_run_def u_def)
    have "[10001..<10001 + Suc n] = [10001..<10001 + n] @ [10001 + n]" for n
      by (simp only: add_Suc_right upt_Suc_append le_add1)
    then show ?thesis using j snoc unfolding r Let_def u_def [symmetric] by simp
  qed (use snoc in \<open>simp add: up2_run_def u_def Let_def\<close>)
qed

lemma upper_hex_value: "n < 16 \<Longrightarrow> hex_value (upper (hex_digit n)) = Some n"
  by (drule less_16_cases) (auto simp: hex_digit_def upper_def hex_value_def)

lemma from_upper_hex: "from_hex (upper_hex b) = b"
proof (induction b)
  case Nil
  then show ?case by (simp add: upper_hex_def to_hex_def)
next
  case (Cons x b)
  have "unat x div 16 < 16" by (simp add: less_mult_imp_div_less)
  with Cons show ?case by (simp add: upper_hex_def to_hex_def upper_hex_value)
qed

text \<open>
  An appliance's packet arrives at the cloud as it was: \<open>send\<close> publishes one message on the connection's
  topic, for the connection's device, whose data decode to exactly the packet's bytes.
\<close>

theorem cloud2_packet_roundtrip:
  "\<exists>m. u2_log (send2 (Inr packet) u) = u2_log u @ [Own (pubTopic (u2_state u)) m] \<and> field ''cmd'' m = Some (JStr ''device_packet'') \<and>
    field ''did'' m = Some (JStr (u2_id u)) \<and> (\<exists>d. field ''data'' m = Some (JStr d) \<and> from_hex d = packet)"
  by (simp add: send2_def u2_say_def next_mid_def device_packet_def Let_def from_upper_hex)

end
