(* ===== verification/Subprocess.thy ===== *)
theory Subprocess
  imports Prelude
begin

text \<open>
  Running a child process with bounded output: \<open>bridge/util.ts\<close>. The child, its pipes and the
  timer are the events; the state is the closure of the promise, \<open>sp_result\<close> what it settled
  with (the bytes of the text, or the message of the error). Killing the process group is
  counted in \<open>sp_kills\<close>.
\<close>

definition DEFAULT_TIMEOUT_MS :: int where "DEFAULT_TIMEOUT_MS = 30000"
definition DEFAULT_MAX_OUTPUT_BYTES :: int where "DEFAULT_MAX_OUTPUT_BYTES = 1024 * 1024"
definition MAX_TIMEOUT_MS :: int where "MAX_TIMEOUT_MS = 2147483647"

datatype sp_error = OutputLimit | StartFailed | TimedOut | BySignal | BadStatus

definition isSafeInteger :: "int \<Rightarrow> bool" where
  "isSafeInteger v \<longleftrightarrow> \<bar>v\<bar> \<le> 2 ^ 53 - 1"

text \<open>\<open>Inl\<close> is the \<open>RangeError\<close>.\<close>

definition optionNumber :: "int option \<Rightarrow> int \<Rightarrow> bool \<Rightarrow> string + int" where
  "optionNumber v fallback allowZero =
    (case v of
       None \<Rightarrow> Inr fallback
     | Some n \<Rightarrow>
         if \<not> isSafeInteger n \<or> (if allowZero then n < 0 else n \<le> 0) \<or> (\<not> allowZero \<and> n > MAX_TIMEOUT_MS)
         then Inl ''Invalid subprocess option'' else Inr n)"

record sp_state =
  sp_output :: "buffer list"
  sp_outputBytes :: nat
  sp_failure :: "sp_error option"
  sp_settled :: bool
  sp_kills :: nat
  sp_terminating :: bool
  sp_result :: "(sp_error + buffer) option"

definition sp_start :: sp_state where
  "sp_start = \<lparr>sp_output = [], sp_outputBytes = 0, sp_failure = None, sp_settled = False, sp_kills = 0,
     sp_terminating = False, sp_result = None\<rparr>"

datatype sp_event =
    Timeout
  | Stdout buffer
  | Stderr buffer
  | StdinError
  | ChildError
  | Close "int option" "string option"

definition terminate :: "sp_state \<Rightarrow> sp_state" where
  "terminate s = (if sp_terminating s then s else s\<lparr>sp_terminating := True, sp_kills := sp_kills s + 1\<rparr>)"

definition fail :: "sp_error \<Rightarrow> sp_state \<Rightarrow> sp_state" where
  "fail e s =
    (if sp_settled s then s
     else terminate (if sp_failure s = None then s\<lparr>sp_failure := Some e\<rparr> else s))"

definition on_stdout :: "nat \<Rightarrow> buffer \<Rightarrow> sp_state \<Rightarrow> sp_state" where
  "on_stdout maxOutputBytes chunk s =
    (if int (length chunk) > int maxOutputBytes - int (sp_outputBytes s) then fail OutputLimit s
     else s\<lparr>sp_output := sp_output s @ [chunk], sp_outputBytes := sp_outputBytes s + length chunk\<rparr>)"

definition on_close :: "int option \<Rightarrow> string option \<Rightarrow> sp_state \<Rightarrow> sp_state" where
  "on_close code signal s =
    (if sp_settled s then s
     else s\<lparr>sp_settled := True, sp_result := Some
       (case sp_failure s of
          Some e \<Rightarrow> Inl e
        | None \<Rightarrow> if signal \<noteq> None \<and> signal \<noteq> Some [] then Inl BySignal
                  else if code \<noteq> Some 0 then Inl BadStatus
                  else Inr (concat (sp_output s)))\<rparr>)"

text \<open>The timer is cleared when the promise settles, and \<open>error\<close> is listened to once.\<close>

fun sp_step :: "nat \<Rightarrow> sp_state \<Rightarrow> sp_event \<Rightarrow> sp_state" where
  "sp_step m s Timeout = (if sp_settled s then s else fail TimedOut s)"
| "sp_step m s (Stdout chunk) = on_stdout m chunk s"
| "sp_step m s (Stderr chunk) = s"
| "sp_step m s StdinError = s"
| "sp_step m s ChildError = fail StartFailed s"
| "sp_step m s (Close code signal) = on_close code signal s"

definition sp_run :: "nat \<Rightarrow> sp_event list \<Rightarrow> sp_state" where
  "sp_run m evs = foldl (sp_step m) sp_start evs"

text \<open>The whole call: options that are out of range throw, a \<open>spawn\<close> that throws rejects.\<close>

definition subprocess :: "bool \<Rightarrow> int option \<Rightarrow> int option \<Rightarrow> sp_event list \<Rightarrow> string + (sp_error + buffer) option" where
  "subprocess spawned timeoutMs maxOutputBytes evs =
    (case optionNumber timeoutMs DEFAULT_TIMEOUT_MS False of
       Inl e \<Rightarrow> Inl e
     | Inr t \<Rightarrow> (case optionNumber maxOutputBytes DEFAULT_MAX_OUTPUT_BYTES True of
         Inl e \<Rightarrow> Inl e
       | Inr m \<Rightarrow> Inr (if \<not> spawned then Some (Inl StartFailed) else sp_result (sp_run (nat m) evs))))"

subsection \<open>What it answers\<close>

fun calm :: "sp_event \<Rightarrow> bool" where
  "calm Timeout = False"
| "calm ChildError = False"
| "calm (Close _ _) = False"
| "calm _ = True"

fun stdout_of :: "sp_event \<Rightarrow> buffer" where
  "stdout_of (Stdout chunk) = chunk"
| "stdout_of _ = []"

definition stdout_bytes :: "sp_event list \<Rightarrow> buffer" where
  "stdout_bytes evs = concat (map stdout_of evs)"

lemma settled_step: "sp_settled s \<Longrightarrow> sp_result (sp_step m s ev) = sp_result s \<and> sp_settled (sp_step m s ev)"
  by (cases ev) (auto simp: fail_def on_stdout_def on_close_def)

lemma settled_run: "sp_settled s \<Longrightarrow> sp_result (foldl (sp_step m) s evs) = sp_result s"
  by (induction evs arbitrary: s) (auto simp: settled_step)

lemma unsettled_step:
  "\<not> sp_settled s \<Longrightarrow> (\<forall>code signal. ev \<noteq> Close code signal) \<Longrightarrow>
    \<not> sp_settled (sp_step m s ev) \<and> sp_result (sp_step m s ev) = sp_result s"
  by (cases ev) (auto simp: fail_def on_stdout_def terminate_def)

lemma failed_step: "\<not> sp_settled s \<Longrightarrow> (\<forall>code signal. ev \<noteq> Close code signal) \<Longrightarrow> sp_failure s = Some e \<Longrightarrow>
    sp_failure (sp_step m s ev) = Some e"
  by (cases ev) (auto simp: fail_def on_stdout_def terminate_def)

lemma failed_run:
  "\<not> sp_settled s \<Longrightarrow> sp_result s = None \<Longrightarrow> sp_failure s = Some e \<Longrightarrow>
    sp_result (foldl (sp_step m) s evs) \<in> {None, Some (Inl e)}"
proof (induction evs arbitrary: s)
  case (Cons ev evs)
  show ?case
  proof (cases "\<exists>code signal. ev = Close code signal")
    case True
    then show ?thesis using Cons.prems by (auto simp: on_close_def settled_run)
  next
    case False
    then show ?thesis
      using Cons unsettled_step [of s ev m] failed_step [of s ev e m] by simp
  qed
qed simp

text \<open>The state while nothing has gone wrong: the chunks read so far, and their length.\<close>

definition reading :: "nat \<Rightarrow> buffer \<Rightarrow> sp_state \<Rightarrow> bool" where
  "reading m bs s \<longleftrightarrow> \<not> sp_settled s \<and> sp_failure s = None \<and> sp_result s = None \<and> concat (sp_output s) = bs \<and>
    sp_outputBytes s = length bs \<and> length bs \<le> m"

lemma reading_run:
  assumes "reading m bs s"
  shows "sp_result (foldl (sp_step m) s evs) = Some (Inr t) \<longleftrightarrow>
    (\<exists>pre post sig. evs = pre @ Close (Some 0) sig # post \<and> sig \<in> {None, Some []} \<and> list_all calm pre \<and>
       t = bs @ stdout_bytes pre \<and> length t \<le> m)" (is "_ \<longleftrightarrow> ?R evs bs")
  using assms
proof (induction evs arbitrary: s bs)
  case Nil
  then show ?case by (simp add: reading_def)
next
  case (Cons ev evs)
  have failed: ?case if "\<not> calm ev \<or> length (bs @ stdout_of ev) > m" "\<forall>code signal. ev \<noteq> Close code signal"
      "sp_failure (sp_step m s ev) = Some e" for e
  proof -
    have "sp_result (foldl (sp_step m) s (ev # evs)) \<in> {None, Some (Inl e)}"
      using failed_run [of "sp_step m s ev" e m evs] unsettled_step [OF _ that(2), of s m] that(3) Cons.prems
      by (simp add: reading_def)
    moreover have "\<not> ?R (ev # evs) bs"
      using that(1,2) by (auto simp: Cons_eq_append_conv stdout_bytes_def)
    ultimately show ?thesis by auto
  qed
  have more: ?case if "calm ev" "reading m (bs @ stdout_of ev) (sp_step m s ev)"
  proof -
    note calm = that(1)
    have "?R (ev # evs) bs = ?R evs (bs @ stdout_of ev)"
    proof
      assume "?R (ev # evs) bs"
      then obtain pre post sig where r: "ev # evs = pre @ Close (Some 0) sig # post" "sig \<in> {None, Some []}" "list_all calm pre"
        "t = bs @ stdout_bytes pre" "length t \<le> m"
        by blast
      then obtain pre' where "pre = ev # pre'" using calm by (cases pre) auto
      then show "?R evs (bs @ stdout_of ev)" using r by (auto simp: stdout_bytes_def)
    next
      assume "?R evs (bs @ stdout_of ev)"
      then obtain pre post sig where r: "evs = pre @ Close (Some 0) sig # post" "sig \<in> {None, Some []}" "list_all calm pre"
        "t = (bs @ stdout_of ev) @ stdout_bytes pre" "length t \<le> m"
        by blast
      then have "ev # evs = (ev # pre) @ Close (Some 0) sig # post \<and> sig \<in> {None, Some []} \<and> list_all calm (ev # pre) \<and>
          t = bs @ stdout_bytes (ev # pre) \<and> length t \<le> m"
        using calm by (simp add: stdout_bytes_def)
      then show "?R (ev # evs) bs" by blast
    qed
    then show ?thesis using Cons.IH [OF that(2)] by simp
  qed
  show ?case
  proof (cases ev)
    case (Stdout chunk)
    show ?thesis
    proof (cases "length (bs @ chunk) > m")
      case True
      then show ?thesis using Cons.prems
        by (intro failed [of OutputLimit]) (auto simp: Stdout reading_def on_stdout_def fail_def terminate_def)
    next
      case False
      then show ?thesis using Cons.prems
        by (intro more) (auto simp: Stdout reading_def on_stdout_def)
    qed
  next
    case (Close code signal)
    have "sp_result (foldl (sp_step m) s (ev # evs)) = sp_result (on_close code signal s)"
      using Close settled_run [of "on_close code signal s" m evs] Cons.prems by (simp add: reading_def on_close_def)
    also have "\<dots> = Some (Inr t) \<longleftrightarrow> code = Some 0 \<and> signal \<in> {None, Some []} \<and> t = bs"
      using Cons.prems by (auto simp: on_close_def reading_def)
    also have "\<dots> \<longleftrightarrow> ?R (ev # evs) bs"
    proof
      assume "code = Some 0 \<and> signal \<in> {None, Some []} \<and> t = bs"
      then have "ev # evs = [] @ Close (Some 0) signal # evs \<and> signal \<in> {None, Some []} \<and> list_all calm [] \<and>
          t = bs @ stdout_bytes [] \<and> length t \<le> m"
        using Cons.prems Close by (simp add: stdout_bytes_def reading_def)
      then show "?R (ev # evs) bs" by blast
    next
      assume "?R (ev # evs) bs"
      then show "code = Some 0 \<and> signal \<in> {None, Some []} \<and> t = bs"
        using Close by (auto simp: Cons_eq_append_conv stdout_bytes_def)
    qed
    finally show ?thesis .
  next
    case Timeout
    then show ?thesis using Cons.prems by (intro failed [of TimedOut]) (auto simp: reading_def fail_def terminate_def)
  next
    case ChildError
    then show ?thesis using Cons.prems by (intro failed [of StartFailed]) (auto simp: reading_def fail_def terminate_def)
  next
    case (Stderr chunk)
    then show ?thesis using Cons.prems by (intro more) auto
  next
    case StdinError
    then show ?thesis using Cons.prems by (intro more) auto
  qed
qed

text \<open>
  A subprocess answers with a text exactly when it was started and it closed with status
  zero and no signal before any failure and before the deadline; the text is all it wrote up
  to there, in order, and no longer than the bound. In every other case there is no text.
\<close>

theorem subprocess_answer:
  "subprocess spawned timeoutMs maxBytes evs = Inr (Some (Inr t)) \<longleftrightarrow>
    (\<exists>d m pre post sig. optionNumber timeoutMs DEFAULT_TIMEOUT_MS False = Inr d \<and>
       optionNumber maxBytes DEFAULT_MAX_OUTPUT_BYTES True = Inr m \<and> spawned \<and>
       evs = pre @ Close (Some 0) sig # post \<and> sig \<in> {None, Some []} \<and> list_all calm pre \<and>
       t = stdout_bytes pre \<and> length t \<le> nat m)"
proof -
  have "reading m [] sp_start" for m by (simp add: reading_def sp_start_def)
  note r = reading_run [OF this, of _ _ t]
  show ?thesis
    by (cases "optionNumber timeoutMs DEFAULT_TIMEOUT_MS False"; cases "optionNumber maxBytes DEFAULT_MAX_OUTPUT_BYTES True")
      (auto simp: subprocess_def sp_run_def r)
qed

lemma one_kill: "sp_kills (sp_run m evs) \<le> 1"
proof -
  have "sp_kills (foldl (sp_step m) s evs) \<le> 1"
    if "sp_kills s \<le> (if sp_terminating s then 1 else 0)" for s
    using that
  proof (induction evs arbitrary: s)
    case (Cons ev evs)
    have "sp_kills (sp_step m s ev) \<le> (if sp_terminating (sp_step m s ev) then 1 else 0)"
      using Cons.prems by (cases ev) (auto simp: fail_def terminate_def on_stdout_def on_close_def)
    then show ?case using Cons.IH by simp
  qed (auto split: if_splits)
  then show ?thesis by (simp add: sp_run_def sp_start_def)
qed

end
