(* ===== verification/BridgePolicy.thy ===== *)
theory BridgePolicy
  imports Dnat
begin

text \<open>
  Which appliances the cloud bridge is for: the class \<open>BridgePolicy\<close> of \<open>bridge/policy.ts\<close>. \<open>addr\<close> is
  the source address of the connected device, if it is connected and has one.
\<close>

definition policy_entry :: "string \<Rightarrow> string option \<Rightarrow> store \<Rightarrow> device_entry option" where
  "policy_entry i addr st =
    (case find (\<lambda>e. de_deviceId e = Some i) (devices (config st)) of
       Some e \<Rightarrow> Some e
     | None \<Rightarrow> find (\<lambda>e. de_autoLink e \<noteq> Some False \<and> de_deviceId e \<in> {None, Some []} \<and> addr = Some (de_ip e)) (devices (config st)))"

definition policy_mode :: "string \<Rightarrow> string option \<Rightarrow> store \<Rightarrow> entry_mode" where
  "policy_mode i addr st = (case policy_entry i addr st of Some e \<Rightarrow> entryMode e | None \<Rightarrow> Local)"

definition forwarding :: "string \<Rightarrow> string option \<Rightarrow> store \<Rightarrow> bool" where
  "forwarding i addr st =
    (case policy_entry i addr st of
       None \<Rightarrow> False
     | Some e \<Rightarrow> entryMode e = Dnat \<and> dnatDesired e = Some True \<and> de_entryId e \<notin> set (released st))"

end
