(* ===== verification/BridgedDevice.thy ===== *)
theory BridgedDevice
  imports BridgePolicy BridgeState Registry
begin

text \<open>
  One appliance on its way to the cloud: the class \<open>BridgedDevice\<close> of \<open>bridge/index.ts\<close>. An object is
  its place in \<open>objs\<close>, a connection to the cloud its place in \<open>conn_owner\<close>, which says whose it is.
  \<open>Connection\<close> is outside: its constructor and its \<open>send\<close> may throw, which the environment says, and
  its events come back as steps. \<open>link_log\<close> is what is done to connections and appliances. A
  listener that was removed and a timer that was cleared do nothing: \<open>bd_listening\<close>, \<open>bd_timer\<close>.
\<close>

record down =
  dn_id :: string
  dn_platform :: platform
  dn_addr :: "string option"
  dn_type :: "string option"

record link_env =
  last_report :: "nat \<Rightarrow> buffer option"
  new_throws :: "nat \<Rightarrow> string option"
  send_throws :: "nat \<Rightarrow> string option"

record bridged =
  bd_up :: platform
  bd_down :: nat
  bd_destroyed :: bool
  bd_connected :: bool
  bd_error :: "string option"
  bd_conn :: "nat option"
  bd_timer :: bool
  bd_listening :: bool

datatype link_event =
    ConnOpen nat
  | ConnSend nat buffer
  | ConnMessage nat json
  | ConnDestroy nat
  | DownSend nat nat json
  | DownForward nat nat json
  | Changed nat

record links =
  objs :: "bridged list"
  conn_owner :: "nat list"
  link_log :: "link_event list"

definition obj :: "nat \<Rightarrow> 'a links_scheme \<Rightarrow> bridged" where
  "obj b s = objs s ! b"

definition set_obj :: "nat \<Rightarrow> (bridged \<Rightarrow> bridged) \<Rightarrow> 'a links_scheme \<Rightarrow> 'a links_scheme" where
  "set_obj b f s = s\<lparr>objs := (objs s)[b := f (obj b s)]\<rparr>"

definition link :: "link_event \<Rightarrow> 'a links_scheme \<Rightarrow> 'a links_scheme" where
  "link e s = s\<lparr>link_log := link_log s @ [e]\<rparr>"

definition disconnect :: "nat \<Rightarrow> 'a links_scheme \<Rightarrow> 'a links_scheme" where
  "disconnect b s =
    (case bd_conn (obj b s) of
       None \<Rightarrow> s
     | Some c \<Rightarrow>
         let s = set_obj b (\<lambda>x. x\<lparr>bd_conn := None, bd_connected := False\<rparr>) s;
             s = link (Changed b) (link (ConnDestroy c) s)
         in if bd_destroyed (obj b s) then s else set_obj b (\<lambda>x. x\<lparr>bd_timer := True\<rparr>) s)"

definition open_conn :: "nat \<Rightarrow> 'a links_scheme \<Rightarrow> 'a links_scheme" where
  "open_conn b s =
    (let c = length (conn_owner s)
     in set_obj b (\<lambda>x. x\<lparr>bd_conn := Some c\<rparr>) (link (ConnOpen c) (s\<lparr>conn_owner := conn_owner s @ [b]\<rparr>)))"

definition connect :: "(nat \<Rightarrow> down) \<Rightarrow> link_env \<Rightarrow> nat \<Rightarrow> 'a links_scheme \<Rightarrow> ('a links_scheme, unit) outcome" where
  "connect dn env b s =
    (if bd_destroyed (obj b s) \<or> bd_conn (obj b s) \<noteq> None then (s, Inr ())
     else
       let s = set_obj b (\<lambda>x. x\<lparr>bd_connected := False\<rparr>) s;
           c = length (conn_owner s); d = bd_down (obj b s)
       in if bd_up (obj b s) \<noteq> dn_platform (dn d) then (s, Inr ())
          else (case new_throws env c of
              Some e \<Rightarrow> (s, Inl e)
            | None \<Rightarrow>
                let s = open_conn b s
                in if bd_up (obj b s) = Thinq2 then (s, Inr ())
                   else (case last_report env d of
                       None \<Rightarrow> (s, Inr ())
                     | Some r \<Rightarrow>
                         let s = link (ConnSend c r) s
                         in (s, case send_throws env c of Some e \<Rightarrow> Inl e | None \<Rightarrow> Inr ()))))"

definition reconnectNow :: "(nat \<Rightarrow> down) \<Rightarrow> link_env \<Rightarrow> nat \<Rightarrow> 'a links_scheme \<Rightarrow> 'a links_scheme" where
  "reconnectNow dn env b s =
    (case connect dn env b s of
       (s, Inr _) \<Rightarrow> s
     | (s, Inl e) \<Rightarrow>
         if bd_destroyed (obj b s) then s
         else
           let s = set_obj b (\<lambda>x. x\<lparr>bd_error := Some e\<rparr>) s
           in if bd_conn (obj b s) \<noteq> None then disconnect b s
              else link (Changed b) (set_obj b (\<lambda>x. x\<lparr>bd_timer := True\<rparr>) s))"

definition forward_failed :: "nat \<Rightarrow> string option \<Rightarrow> 'a links_scheme \<Rightarrow> 'a links_scheme" where
  "forward_failed b err s =
    (case err of None \<Rightarrow> s | Some e \<Rightarrow> disconnect b (set_obj b (\<lambda>x. x\<lparr>bd_error := Some e\<rparr>) s))"

definition onDownstreamData :: "link_env \<Rightarrow> nat \<Rightarrow> buffer \<Rightarrow> 'a links_scheme \<Rightarrow> 'a links_scheme" where
  "onDownstreamData env b pk s =
    (case bd_conn (obj b s) of
       None \<Rightarrow> s
     | Some c \<Rightarrow> forward_failed b (send_throws env c) (link (ConnSend c pk) s))"

definition onDownstreamMessage :: "link_env \<Rightarrow> nat \<Rightarrow> json \<Rightarrow> 'a links_scheme \<Rightarrow> 'a links_scheme" where
  "onDownstreamMessage env b msg s =
    (case bd_conn (obj b s) of
       None \<Rightarrow> s
     | Some c \<Rightarrow>
         if bd_up (obj b s) \<noteq> Thinq2 then s
         else forward_failed b (send_throws env c) (link (ConnMessage c msg) s))"

definition destroy_bridged :: "nat \<Rightarrow> 'a links_scheme \<Rightarrow> 'a links_scheme" where
  "destroy_bridged b s =
    (let c = bd_conn (obj b s);
         s = set_obj b (\<lambda>x. x\<lparr>bd_destroyed := True, bd_connected := False, bd_conn := None, bd_listening := False, bd_timer := False\<rparr>) s
     in case c of None \<Rightarrow> s | Some c \<Rightarrow> link (ConnDestroy c) s)"

text \<open>The constructor: an object of the wrong platform is made but never connects.\<close>

definition new_bridged :: "(nat \<Rightarrow> down) \<Rightarrow> link_env \<Rightarrow> platform \<Rightarrow> nat \<Rightarrow> 'a links_scheme \<Rightarrow> 'a links_scheme" where
  "new_bridged dn env up d s =
    (let b = length (objs s);
         fits = (up = dn_platform (dn d));
         s = s\<lparr>objs := objs s @ [\<lparr>bd_up = up, bd_down = d, bd_destroyed = False, bd_connected = False, bd_error = None,
                                   bd_conn = None, bd_timer = False, bd_listening = fits\<rparr>]\<rparr>
     in if fits then reconnectNow dn env b s else s)"

subsection \<open>What comes back\<close>

datatype conn_event = Connected | ConnError string | ConnClosed | FromCloud json

text \<open>The listeners of a connection act only while it is its object's connection.\<close>

definition on_conn :: "(nat \<Rightarrow> down) \<Rightarrow> nat \<Rightarrow> conn_event \<Rightarrow> 'a links_scheme \<Rightarrow> 'a links_scheme" where
  "on_conn dn c ev s =
    (if c \<ge> length (conn_owner s) then s
     else
       let b = conn_owner s ! c
       in if bd_conn (obj b s) \<noteq> Some c then s
          else (case ev of
              Connected \<Rightarrow> link (Changed b) (set_obj b (\<lambda>x. x\<lparr>bd_connected := True, bd_error := None\<rparr>) s)
            | ConnError e \<Rightarrow> link (Changed b) (set_obj b (\<lambda>x. x\<lparr>bd_connected := False, bd_error := Some e\<rparr>) s)
            | ConnClosed \<Rightarrow> disconnect b s
            | FromCloud msg \<Rightarrow> link (if bd_up (obj b s) = Thinq1 then DownSend c (bd_down (obj b s)) msg
                                   else DownForward c (bd_down (obj b s)) msg) s))"

definition reconnect_due :: "(nat \<Rightarrow> down) \<Rightarrow> link_env \<Rightarrow> nat \<Rightarrow> 'a links_scheme \<Rightarrow> 'a links_scheme" where
  "reconnect_due dn env b s =
    (if b < length (objs s) \<and> bd_timer (obj b s) then reconnectNow dn env b (set_obj b (\<lambda>x. x\<lparr>bd_timer := False\<rparr>) s) else s)"

definition down_data :: "link_env \<Rightarrow> nat \<Rightarrow> buffer \<Rightarrow> 'a links_scheme \<Rightarrow> 'a links_scheme" where
  "down_data env d pk s =
    foldl (\<lambda>s b. if bd_listening (obj b s) \<and> bd_down (obj b s) = d \<and> bd_up (obj b s) = Thinq1 then onDownstreamData env b pk s else s) s [0..<length (objs s)]"

definition down_message :: "link_env \<Rightarrow> nat \<Rightarrow> json \<Rightarrow> 'a links_scheme \<Rightarrow> 'a links_scheme" where
  "down_message env d msg s =
    foldl (\<lambda>s b. if bd_listening (obj b s) \<and> bd_down (obj b s) = d \<and> bd_up (obj b s) = Thinq2 then onDownstreamMessage env b msg s else s) s [0..<length (objs s)]"

definition down_close :: "nat \<Rightarrow> 'a links_scheme \<Rightarrow> 'a links_scheme" where
  "down_close d s =
    foldl (\<lambda>s b. if bd_listening (obj b s) \<and> bd_down (obj b s) = d then destroy_bridged b s else s) s [0..<length (objs s)]"

end
