(* ===== verification/Bridge.thy ===== *)
theory Bridge
  imports BridgedDevice "HOL-Library.AList"
begin

text \<open>
  The bridge of all appliances: the class \<open>Bridge\<close> of \<open>bridge/index.ts\<close>, on the files of
  \<open>bridge/state.ts\<close> and the policy of \<open>bridge/policy.ts\<close>. \<open>dn\<close> says what the appliances' device
  objects are; \<open>br_present\<close> is the manager's list. The environment of a step is the router store (if
  there is a policy), the directory, and what the file system and the connections do in it.

  \<open>serialize\<close> runs the actions of an identifier one after the other: \<open>br_queue\<close> holds those that
  wait. A renewal is the only one that waits for something outside; while it does, it is
  \<open>br_running\<close>, with the device and the generation it began with, and other actions wait. What an
  action answers is \<open>Answer\<close>.
\<close>

datatype action = Reconcile | Enable | Restore | Renew

datatype bridge_event =
    BridgeStarted string
  | BridgeStopped string
  | StatusChanged string
  | DeviceNamesChanged
  | LoggedOut
  | Answer string action "string option"

record bridge = links +
  br_files :: files
  br_intent :: "string \<rightharpoonup> bool"
  br_map :: "(string \<times> nat) list"
  br_gens :: "string \<Rightarrow> nat"
  br_names :: "(string \<times> string) list"
  br_loading :: nat
  br_queue :: "string \<Rightarrow> action list"
  br_running :: "string \<rightharpoonup> nat \<times> nat"
  br_present :: "(string \<times> nat) list"
  br_log :: "bridge_event list"

record bridge_env =
  be_link :: link_env
  be_fs :: fs_env
  be_base :: string
  be_store :: "store option"

definition tell :: "bridge_event \<Rightarrow> bridge \<Rightarrow> bridge" where
  "tell e s = s\<lparr>br_log := br_log s @ [e]\<rparr>"

definition present :: "string \<Rightarrow> bridge \<Rightarrow> nat option" where
  "present i s = map_of (br_present s) i"

definition bridged_as :: "string \<Rightarrow> bridge \<Rightarrow> nat option" where
  "bridged_as i s = map_of (br_map s) i"

subsection \<open>What is wanted\<close>

definition hasSavedState :: "bridge_env \<Rightarrow> string \<Rightarrow> bridge \<Rightarrow> bool" where
  "hasSavedState env i s = truthy (getDeviceState (be_base env) i (br_files s))"

definition hasArchivedState :: "bridge_env \<Rightarrow> string \<Rightarrow> bridge \<Rightarrow> bool" where
  "hasArchivedState env i s = hasArchivedDeviceState (be_base env) i (br_files s)"

definition addr_of :: "(nat \<Rightarrow> down) \<Rightarrow> string \<Rightarrow> bridge \<Rightarrow> string option" where
  "addr_of dn i s = (case present i s of None \<Rightarrow> None | Some d \<Rightarrow> dn_addr (dn d))"

definition br_mode :: "(nat \<Rightarrow> down) \<Rightarrow> bridge_env \<Rightarrow> string \<Rightarrow> bridge \<Rightarrow> entry_mode" where
  "br_mode dn env i s = (case be_store env of None \<Rightarrow> Local | Some st \<Rightarrow> policy_mode i (addr_of dn i s) st)"

definition wanted :: "(nat \<Rightarrow> down) \<Rightarrow> bridge_env \<Rightarrow> string \<Rightarrow> bridge \<Rightarrow> bool" where
  "wanted dn env i s =
    (if br_mode dn env i s = Dnat then (case be_store env of None \<Rightarrow> False | Some st \<Rightarrow> forwarding i (addr_of dn i s) st)
     else (case getEnabled (be_base env) i (br_files s) of
         Some b \<Rightarrow> b
       | None \<Rightarrow> (case br_intent s i of Some b \<Rightarrow> b | None \<Rightarrow> hasSavedState env i s)))"

definition setIntent :: "bridge_env \<Rightarrow> string \<Rightarrow> bool \<Rightarrow> bridge \<Rightarrow> (bridge, unit) outcome" where
  "setIntent env i enabled s =
    (case setEnabled (be_fs env) (be_base env) i enabled (br_files s) of
       (fs, Inl e) \<Rightarrow> (s\<lparr>br_files := fs\<rparr>, Inl e)
     | (fs, Inr _) \<Rightarrow> (s\<lparr>br_files := fs, br_intent := (br_intent s)(i \<mapsto> enabled)\<rparr>, Inr ()))"

record bridge_details =
  bd_mode :: entry_mode
  bridgeEnabled :: bool
  bridgeActive :: bool
  cloudConnected :: bool
  bridgeSaved :: bool
  bridgeArchived :: bool
  bridgeBusy :: bool
  bridgeError :: "string option"
  setupRequired :: bool

definition details :: "(nat \<Rightarrow> down) \<Rightarrow> bridge_env \<Rightarrow> string \<Rightarrow> bridge \<Rightarrow> bridge_details" where
  "details dn env i s =
    (let active = map_option (\<lambda>b. obj b s) (bridged_as i s) in
     \<lparr>bd_mode = br_mode dn env i s, bridgeEnabled = wanted dn env i s, bridgeActive = (active \<noteq> None),
      cloudConnected = (case active of Some b \<Rightarrow> bd_connected b | None \<Rightarrow> False), bridgeSaved = hasSavedState env i s,
      bridgeArchived = hasArchivedState env i s, bridgeBusy = (br_queue s i \<noteq> [] \<or> br_running s i \<noteq> None),
      bridgeError = (case active of Some b \<Rightarrow> bd_error b | None \<Rightarrow> None), setupRequired = (\<not> hasSavedState env i s)\<rparr>)"

definition br_status :: "string \<Rightarrow> bridge \<Rightarrow> bool option" where
  "br_status i s = (case present i s of None \<Rightarrow> None | Some d \<Rightarrow> Some (bridged_as i s \<noteq> None))"

subsection \<open>Starting and stopping\<close>

text \<open>\<open>'rtiServer' in state\<close> throws for a value that is no object.\<close>

fun load_saved :: "json option \<Rightarrow> string + platform option" where
  "load_saved (Some (JObj kvs)) =
    (if field ''rtiServer'' (JObj kvs) \<noteq> None then Inr (Some Thinq1)
     else if field ''mqttServer'' (JObj kvs) \<noteq> None then Inr (Some Thinq2)
     else Inr None)"
| "load_saved (Some (JArr _)) = Inr None"
| "load_saved v = (if truthy v then Inl ''TypeError'' else Inr None)"

definition loadSavedDevice :: "bridge_env \<Rightarrow> string \<Rightarrow> bridge \<Rightarrow> string + platform option" where
  "loadSavedDevice env i s = load_saved (getDeviceState (be_base env) i (br_files s))"

definition stop :: "string \<Rightarrow> bridge \<Rightarrow> bridge" where
  "stop i s =
    (let s = s\<lparr>br_gens := (br_gens s)(i := br_gens s i + 1)\<rparr> in
     case bridged_as i s of
       None \<Rightarrow> s
     | Some b \<Rightarrow> destroy_bridged b (tell (BridgeStopped i) (s\<lparr>br_map := AList.delete i (br_map s)\<rparr>)))"

definition launch :: "(nat \<Rightarrow> down) \<Rightarrow> bridge_env \<Rightarrow> platform \<Rightarrow> nat \<Rightarrow> bridge \<Rightarrow> bridge" where
  "launch dn env up d s =
    (let b = length (objs s); s = new_bridged dn (be_link env) up d s
     in tell (BridgeStarted (dn_id (dn d))) (s\<lparr>br_map := AList.update (dn_id (dn d)) b (br_map s)\<rparr>))"

definition start :: "(nat \<Rightarrow> down) \<Rightarrow> bridge_env \<Rightarrow> nat \<Rightarrow> bridge \<Rightarrow> (bridge, unit) outcome" where
  "start dn env d s =
    (let i = dn_id (dn d) in
     if \<not> wanted dn env i s then (s, Inr ())
     else if (case bridged_as i s of Some b \<Rightarrow> bd_down (obj b s) = d | None \<Rightarrow> False) then (s, Inr ())
     else
       let s = stop i s
       in case loadSavedDevice env i s of
            Inl e \<Rightarrow> (s, Inl e)
          | Inr None \<Rightarrow> (s, Inr ())
          | Inr (Some up) \<Rightarrow> (launch dn env up d s, Inr ()))"

definition start_present :: "(nat \<Rightarrow> down) \<Rightarrow> bridge_env \<Rightarrow> string \<Rightarrow> bridge \<Rightarrow> (bridge, unit) outcome" where
  "start_present dn env i s = (case present i s of None \<Rightarrow> (s, Inr ()) | Some d \<Rightarrow> start dn env d s)"

subsection \<open>Actions\<close>

definition reconcile :: "(nat \<Rightarrow> down) \<Rightarrow> bridge_env \<Rightarrow> string \<Rightarrow> bridge \<Rightarrow> (bridge, unit) outcome" where
  "reconcile dn env i s =
    and_then (if \<not> wanted dn env i s then (stop i s, Inr ()) else start_present dn env i s)
      (\<lambda>s _. (tell (StatusChanged i) s, Inr ()))"

definition enable_action :: "(nat \<Rightarrow> down) \<Rightarrow> bridge_env \<Rightarrow> string \<Rightarrow> bridge \<Rightarrow> (bridge, unit) outcome" where
  "enable_action dn env i s =
    (if \<not> hasSavedState env i s then (s, Inl ''Registration required. Choose Restore or Set up registration.'')
     else and_then (setIntent env i True s) (\<lambda>s _. and_then (start_present dn env i s)
       (\<lambda>s _. (tell (StatusChanged i) s, Inr ()))))"

definition restore_action :: "(nat \<Rightarrow> down) \<Rightarrow> bridge_env \<Rightarrow> string \<Rightarrow> bridge \<Rightarrow> (bridge, unit) outcome" where
  "restore_action dn env i s =
    (if hasSavedState env i s then (s, Inl ''Current registration takes precedence; renewal is explicit.'')
     else (case restoreDeviceState (be_fs env) (be_base env) i (br_files s) of
         (fs, Inl e) \<Rightarrow> (s\<lparr>br_files := fs\<rparr>, Inl e)
       | (fs, Inr False) \<Rightarrow> (s\<lparr>br_files := fs\<rparr>, Inl ''No archived registration is available to restore.'')
       | (fs, Inr True) \<Rightarrow>
           let s = s\<lparr>br_files := fs\<rparr>
           in and_then (if wanted dn env i s then start_present dn env i s else (s, Inr ()))
                (\<lambda>s _. (tell (StatusChanged i) s, Inr ()))))"

text \<open>What a renewal does once \<open>register\<close> has answered: its failure, or the new registration.\<close>

definition renew_done :: "(nat \<Rightarrow> down) \<Rightarrow> bridge_env \<Rightarrow> string \<Rightarrow> nat \<Rightarrow> nat \<Rightarrow> string + json \<Rightarrow> bridge \<Rightarrow> (bridge, unit) outcome" where
  "renew_done dn env i d generation result s =
    (case result of
       Inl e \<Rightarrow> (s, Inl e)
     | Inr registration \<Rightarrow>
         if present i s \<noteq> Some d \<or> br_gens s i \<noteq> generation
         then (s, Inl ''Appliance or forwarding changed during registration. Previous local registration retained; refresh before retrying.'')
         else (case setDeviceState (be_fs env) (be_base env) i (Some registration) (br_files s) of
             (fs, Inl e) \<Rightarrow> (s\<lparr>br_files := fs\<rparr>, Inl e)
           | (fs, Inr _) \<Rightarrow>
               let s = stop i (s\<lparr>br_files := fs\<rparr>)
               in and_then (if wanted dn env i s then start dn env d s else (s, Inr ()))
                    (\<lambda>s _. (tell (StatusChanged i) s, Inr ()))))"

text \<open>The end of an action: its answer, and the end of the queue.\<close>

definition settle :: "string \<Rightarrow> action \<Rightarrow> (bridge, unit) outcome \<Rightarrow> bridge" where
  "settle i act r =
    (case r of (s, answer) \<Rightarrow>
       let s = tell (Answer i act (case answer of Inl e \<Rightarrow> Some e | Inr _ \<Rightarrow> None)) s
       in if br_queue s i = [] then tell (StatusChanged i) s else s)"

definition run_action :: "(nat \<Rightarrow> down) \<Rightarrow> bridge_env \<Rightarrow> string \<Rightarrow> action \<Rightarrow> bridge \<Rightarrow> bridge" where
  "run_action dn env i act s =
    (case act of
       Reconcile \<Rightarrow> settle i act (reconcile dn env i s)
     | Enable \<Rightarrow> settle i act (enable_action dn env i s)
     | Restore \<Rightarrow> settle i act (restore_action dn env i s)
     | Renew \<Rightarrow> (case present i s of
           None \<Rightarrow> settle i act (s, Inl ''Appliance is not connected to Rethink. Wait for its next connection.'')
         | Some d \<Rightarrow> s\<lparr>br_running := (br_running s)(i \<mapsto> (d, br_gens s i))\<rparr>))"

definition run_next :: "(nat \<Rightarrow> down) \<Rightarrow> bridge_env \<Rightarrow> string \<Rightarrow> bridge \<Rightarrow> bridge" where
  "run_next dn env i s =
    (case (br_running s i, br_queue s i) of
       (None, act # acts) \<Rightarrow> run_action dn env i act (s\<lparr>br_queue := (br_queue s)(i := acts)\<rparr>)
     | _ \<Rightarrow> s)"

definition serialize :: "string \<Rightarrow> action \<Rightarrow> bridge \<Rightarrow> bridge" where
  "serialize i act s = s\<lparr>br_queue := (br_queue s)(i := br_queue s i @ [act])\<rparr>"

definition enable_bridge :: "(nat \<Rightarrow> down) \<Rightarrow> bridge_env \<Rightarrow> string \<Rightarrow> bridge \<Rightarrow> bridge" where
  "enable_bridge dn env i s =
    (if br_mode dn env i s = Dnat then tell (Answer i Enable (Some ''DNAT forwarding follows DNAT. Use the DNAT control.'')) s
     else serialize i Enable s)"

definition disable_bridge :: "bridge_env \<Rightarrow> string \<Rightarrow> bridge \<Rightarrow> (bridge, unit) outcome" where
  "disable_bridge env i s = and_then (setIntent env i False s) (\<lambda>s _. (tell (StatusChanged i) (stop i s), Inr ()))"

definition reconcileAll :: "bridge \<Rightarrow> bridge" where
  "reconcileAll s = foldl (\<lambda>s i. serialize i Reconcile s) s (map fst (br_present s))"


subsection \<open>The account\<close>

definition isLoggedIn :: "bridge_env \<Rightarrow> bridge \<Rightarrow> bool" where
  "isLoggedIn env s = truthy (getCredentials (be_base env) (br_files s))"

text \<open>\<open>refreshDeviceNames\<close>: without credentials the names go; with them the list is asked for.\<close>

definition refreshDeviceNames :: "bridge_env \<Rightarrow> bridge \<Rightarrow> bridge" where
  "refreshDeviceNames env s =
    (if \<not> isLoggedIn env s then (if br_names s \<noteq> [] then tell DeviceNamesChanged (s\<lparr>br_names := []\<rparr>) else s)
     else s\<lparr>br_loading := br_loading s + 1\<rparr>)"

text \<open>The list of identifiers and names comes back, or does not.\<close>

definition names_loaded :: "(string \<times> string) list option \<Rightarrow> bridge \<Rightarrow> bridge" where
  "names_loaded result s =
    (if br_loading s = 0 then s
     else
       let s = s\<lparr>br_loading := br_loading s - 1\<rparr>
       in case result of
            None \<Rightarrow> s
          | Some items \<Rightarrow>
              tell DeviceNamesChanged
                (s\<lparr>br_names := foldl (\<lambda>m (i, alias). AList.update i alias m) [] (filter (\<lambda>(i, alias). alias \<noteq> []) items)\<rparr>))"

definition logout :: "bridge_env \<Rightarrow> bridge \<Rightarrow> (bridge, unit) outcome" where
  "logout env s =
    (case setCredentials (be_fs env) (be_base env) None (br_files s) of
       (fs, Inl e) \<Rightarrow> (s\<lparr>br_files := fs\<rparr>, Inl e)
     | (fs, Inr _) \<Rightarrow> (tell LoggedOut (tell DeviceNamesChanged (s\<lparr>br_files := fs, br_names := []\<rparr>)), Inr ()))"

subsection \<open>Steps\<close>

definition manager_new :: "(nat \<Rightarrow> down) \<Rightarrow> bridge_env \<Rightarrow> nat \<Rightarrow> bridge \<Rightarrow> bridge" where
  "manager_new dn env d s = fst (start dn env d (s\<lparr>br_present := AList.update (dn_id (dn d)) d (br_present s)\<rparr>))"

text \<open>A device closes: the manager drops it if it lists it, then the bridged device hears of it.\<close>

definition device_closed :: "(nat \<Rightarrow> down) \<Rightarrow> nat \<Rightarrow> bridge \<Rightarrow> bridge" where
  "device_closed dn d s =
    (let i = dn_id (dn d);
         s = (if present i s = Some d then stop i (s\<lparr>br_present := AList.delete i (br_present s)\<rparr>) else s)
     in down_close d s)"

datatype bridge_step =
    ManagerNew nat
  | DeviceClosed nat
  | DownData nat buffer
  | DownMessage nat json
  | Conn nat conn_event
  | ReconnectDue nat
  | CallEnable string
  | CallDisable string
  | CallRestore string
  | CallRenew string
  | CallReconcile string
  | CallReconcileAll
  | RunNext string
  | Registered string "string + json"
  | RefreshNames
  | NamesLoaded "(string \<times> string) list option"
  | Logout

definition registered_now :: "(nat \<Rightarrow> down) \<Rightarrow> bridge_env \<Rightarrow> string \<Rightarrow> string + json \<Rightarrow> bridge \<Rightarrow> bridge" where
  "registered_now dn env i result s =
    (case br_running s i of
       None \<Rightarrow> s
     | Some (d, generation) \<Rightarrow>
         settle i Renew (renew_done dn env i d generation result (s\<lparr>br_running := (br_running s)(i := None)\<rparr>)))"

fun bridge_do :: "(nat \<Rightarrow> down) \<Rightarrow> bridge \<Rightarrow> bridge_env \<times> bridge_step \<Rightarrow> bridge" where
  "bridge_do dn s (env, ManagerNew d) = manager_new dn env d s"
| "bridge_do dn s (env, DeviceClosed d) = device_closed dn d s"
| "bridge_do dn s (env, DownData d pk) = down_data (be_link env) d pk s"
| "bridge_do dn s (env, DownMessage d msg) = down_message (be_link env) d msg s"
| "bridge_do dn s (env, Conn c ev) = on_conn dn c ev s"
| "bridge_do dn s (env, ReconnectDue b) = reconnect_due dn (be_link env) b s"
| "bridge_do dn s (env, CallEnable i) = enable_bridge dn env i s"
| "bridge_do dn s (env, CallDisable i) = fst (disable_bridge env i s)"
| "bridge_do dn s (env, CallRestore i) = serialize i Restore s"
| "bridge_do dn s (env, CallRenew i) = serialize i Renew s"
| "bridge_do dn s (env, CallReconcile i) = serialize i Reconcile s"
| "bridge_do dn s (env, CallReconcileAll) = reconcileAll s"
| "bridge_do dn s (env, RunNext i) = run_next dn env i s"
| "bridge_do dn s (env, Registered i result) = registered_now dn env i result s"
| "bridge_do dn s (env, RefreshNames) = refreshDeviceNames env s"
| "bridge_do dn s (env, NamesLoaded result) = names_loaded result s"
| "bridge_do dn s (env, Logout) = fst (logout env s)"

text \<open>The constructor starts every appliance that is already there.\<close>

definition new_bridge :: "(nat \<Rightarrow> down) \<Rightarrow> bridge_env \<Rightarrow> files \<Rightarrow> nat list \<Rightarrow> bridge" where
  "new_bridge dn env fs ds =
    (let s = \<lparr>objs = [], conn_owner = [], link_log = [], br_files = fs, br_intent = Map.empty, br_map = [], br_gens = \<lambda>_. 0,
              br_names = [], br_loading = 0, br_queue = \<lambda>_. [], br_running = Map.empty,
              br_present = foldl (\<lambda>m d. AList.update (dn_id (dn d)) d m) [] ds, br_log = []\<rparr>
     in refreshDeviceNames env (foldl (\<lambda>s d. fst (start dn env d s)) s (map snd (br_present s))))"

definition bridge_run :: "(nat \<Rightarrow> down) \<Rightarrow> bridge_env \<Rightarrow> files \<Rightarrow> nat list \<Rightarrow> (bridge_env \<times> bridge_step) list \<Rightarrow> bridge" where
  "bridge_run dn env fs ds es = foldl (bridge_do dn) (new_bridge dn env fs ds) es"

subsection \<open>Registration with the account\<close>

text \<open>
  \<open>register\<close> as the calls it makes on the account, in order, and its result. The answers of the
  account are the record \<open>api\<close>; a call that fails is \<open>Inl\<close>. The state of a ThinQ 1 device comes from
  the gateway, that of a ThinQ 2 device from pairing.
\<close>

datatype api_call =
    Auth
  | ListDevices
  | RemoveDevice string
  | Gateway
  | PrepareNewT2Device
  | Pair string
  | AddDevice string string string bool

record api =
  api_auth :: "string + unit"
  api_list :: "string + string list"
  api_remove :: "string + unit"
  api_gateway :: "string + json"
  api_otp :: "string + json"
  api_pair :: "string + json"
  api_add :: "string + unit"

type_synonym 'a api_run = "(api_call list, 'a) outcome"

definition ask :: "api_call \<Rightarrow> string + 'a \<Rightarrow> api_call list \<Rightarrow> 'a api_run" where
  "ask c answer cs = (cs @ [c], answer)"

definition alias_for :: "string \<Rightarrow> string" where
  "alias_for i = ''Rethink '' @ take 8 i"

definition register_thinq1 :: "api \<Rightarrow> string \<Rightarrow> string \<Rightarrow> bool \<Rightarrow> api_call list \<Rightarrow> json api_run" where
  "register_thinq1 a i ty exists cs =
    and_then (ask Gateway (api_gateway a) cs) (\<lambda>cs registration.
      if exists then (cs, Inr registration)
      else and_then (ask (AddDevice i (alias_for i) ty False) (api_add a) cs) (\<lambda>cs _. (cs, Inr registration)))"

definition register_thinq2 :: "api \<Rightarrow> string \<Rightarrow> string \<Rightarrow> bool \<Rightarrow> bool \<Rightarrow> api_call list \<Rightarrow> json api_run" where
  "register_thinq2 a i ty exists preserve cs =
    and_then (ask PrepareNewT2Device (api_otp a) cs) (\<lambda>cs _.
      and_then (ask (Pair i) (api_pair a) cs) (\<lambda>cs registration.
        if exists then (cs, Inr registration)
        else and_then (ask (AddDevice i (alias_for i) ty preserve) (api_add a) cs) (\<lambda>cs _. (cs, Inr registration))))"

definition register_device :: "api \<Rightarrow> bool \<Rightarrow> down \<Rightarrow> string option \<Rightarrow> bool \<Rightarrow> json api_run" where
  "register_device a logged_in dev deviceType preserve =
    (if \<not> logged_in then ([], Inl ''Not logged in'')
     else
       let given = (if deviceType \<in> {None, Some []} then dn_type dev else deviceType) in
       if given \<in> {None, Some []} then ([], Inl ''Device type must be specified'')
       else
         let ty = the given; i = dn_id dev in
         and_then (ask Auth (api_auth a) []) (\<lambda>cs _.
           and_then
             (if preserve then
                and_then (ask ListDevices (api_list a) cs) (\<lambda>cs ids.
                  if dn_platform dev = Thinq1 \<and> i \<notin> set ids
                  then (cs, Inl ''Register the appliance in LG ThinQ before bridging it, or turn off preserve mode'')
                  else (cs, Inr (i \<in> set ids)))
              else and_then (ask (RemoveDevice i) (api_remove a) cs) (\<lambda>cs _. (cs, Inr False)))
             (\<lambda>cs exists.
               if dn_platform dev = Thinq1 then register_thinq1 a i ty exists cs
               else register_thinq2 a i ty exists preserve cs)))"

end
