(* ===== verification/BridgeInv.thy ===== *)
theory BridgeInv
  imports Bridge
begin

text \<open>
  The invariant of the bridge's objects and connections. \<open>m\<close> is the map of bridged devices: whatever
  is not destroyed is in it, a connection belongs to one object that is not destroyed, and what is
  done to connections keeps the contract of \<open>Registry\<close>.
\<close>

definition id_of :: "(nat \<Rightarrow> down) \<Rightarrow> nat \<Rightarrow> 'a links_scheme \<Rightarrow> string" where
  "id_of dn b s = dn_id (dn (bd_down (obj b s)))"

definition conn_ids :: "(nat \<Rightarrow> down) \<Rightarrow> 'a links_scheme \<Rightarrow> string list" where
  "conn_ids dn s = map (\<lambda>b. id_of dn b s) (conn_owner s)"

definition conn_events :: "link_event list \<Rightarrow> reg_event list" where
  "conn_events es = concat (map (\<lambda>e. case e of ConnOpen c \<Rightarrow> [Open c] | ConnDestroy c \<Rightarrow> [Shut c] | ConnSend c _ \<Rightarrow> [Use c]
    | ConnMessage c _ \<Rightarrow> [Use c] | DownSend c _ _ \<Rightarrow> [Use c] | DownForward c _ _ \<Rightarrow> [Use c] | Changed _ \<Rightarrow> []) es)"

lemma conn_events_append [simp]: "conn_events (xs @ ys) = conn_events xs @ conn_events ys"
  by (simp add: conn_events_def)

lemma conn_events_Cons [simp]: "conn_events (e # es) = (case e of ConnOpen c \<Rightarrow> [Open c] | ConnDestroy c \<Rightarrow> [Shut c] | ConnSend c _ \<Rightarrow> [Use c]
    | ConnMessage c _ \<Rightarrow> [Use c] | DownSend c _ _ \<Rightarrow> [Use c] | DownForward c _ _ \<Rightarrow> [Use c] | Changed _ \<Rightarrow> []) @ conn_events es"
  "conn_events [] = []"
  by (simp_all add: conn_events_def)

definition upstream :: "registry \<Rightarrow> 'a links_scheme \<Rightarrow> registry" where
  "upstream m s = map_comp (\<lambda>b. bd_conn (obj b s)) m"

definition obj_ok :: "(nat \<Rightarrow> down) \<Rightarrow> registry \<Rightarrow> nat list \<Rightarrow> nat \<Rightarrow> bridged \<Rightarrow> bool" where
  "obj_ok dn m owner b x \<longleftrightarrow>
    (\<forall>c. bd_conn x = Some c \<longrightarrow> c < length owner \<and> owner ! c = b \<and> bd_up x = dn_platform (dn (bd_down x))) \<and>
    (bd_destroyed x \<longrightarrow> bd_conn x = None \<and> \<not> bd_timer x \<and> \<not> bd_listening x) \<and>
    (\<not> bd_destroyed x \<longrightarrow> m (dn_id (dn (bd_down x))) = Some b)"

definition links_ok :: "(nat \<Rightarrow> down) \<Rightarrow> registry \<Rightarrow> 'a links_scheme \<Rightarrow> bool" where
  "links_ok dn m s \<longleftrightarrow>
    (\<forall>b < length (objs s). obj_ok dn m (conn_owner s) b (obj b s)) \<and>
    (\<forall>i b. m i = Some b \<longrightarrow> b < length (objs s) \<and> id_of dn b s = i) \<and>
    (\<forall>b \<in> set (conn_owner s). b < length (objs s)) \<and>
    reg_run (conn_ids dn s) Map.empty (conn_events (link_log s)) = Some (upstream m s)"

lemma links_okD:
  assumes "links_ok dn m s"
  shows "b < length (objs s) \<Longrightarrow> obj_ok dn m (conn_owner s) b (obj b s)" "m i = Some b \<Longrightarrow> b < length (objs s)"
    "m i = Some b \<Longrightarrow> id_of dn b s = i" "b \<in> set (conn_owner s) \<Longrightarrow> b < length (objs s)"
    "reg_run (conn_ids dn s) Map.empty (conn_events (link_log s)) = Some (upstream m s)"
  using assms unfolding links_ok_def by blast+

lemma obj_okD:
  assumes "obj_ok dn m owner b x"
  shows "bd_conn x = Some c \<Longrightarrow> c < length owner" "bd_conn x = Some c \<Longrightarrow> owner ! c = b"
    "bd_conn x = Some c \<Longrightarrow> bd_up x = dn_platform (dn (bd_down x))"
    "bd_destroyed x \<Longrightarrow> bd_conn x = None \<and> \<not> bd_timer x \<and> \<not> bd_listening x"
    "\<not> bd_destroyed x \<Longrightarrow> m (dn_id (dn (bd_down x))) = Some b"
  using assms unfolding obj_ok_def by blast+

text \<open>Only the three fields of \<open>links\<close> count.\<close>

lemma links_ok_cong:
  "objs s = objs t \<Longrightarrow> conn_owner s = conn_owner t \<Longrightarrow> link_log s = link_log t \<Longrightarrow> links_ok dn m s = links_ok dn m t"
  for s :: "'a links_scheme" and t :: "'b links_scheme"
  by (simp add: links_ok_def id_of_def conn_ids_def upstream_def obj_def)

lemma set_obj_fields [simp]:
  "conn_owner (set_obj b f s) = conn_owner s" "link_log (set_obj b f s) = link_log s" "links.more (set_obj b f s) = links.more s"
  "length (objs (set_obj b f s)) = length (objs s)"
  by (simp_all add: set_obj_def)

lemma obj_set_obj: "b < length (objs s) \<Longrightarrow> obj x (set_obj b f s) = (if x = b then f (obj b s) else obj x s)"
  by (simp add: obj_def set_obj_def)

lemma link_fields [simp]:
  "objs (link e s) = objs s" "conn_owner (link e s) = conn_owner s" "link_log (link e s) = link_log s @ [e]" "obj b (link e s) = obj b s"
  "links.more (link e s) = links.more s" "id_of dn b (link e s) = id_of dn b s" "conn_ids dn (link e s) = conn_ids dn s"
  "upstream m (link e s) = upstream m s"
  by (simp_all add: link_def obj_def id_of_def conn_ids_def upstream_def)

lemma ids_set_obj:
  assumes "b < length (objs s)" "bd_down (f (obj b s)) = bd_down (obj b s)"
  shows "id_of dn x (set_obj b f s) = id_of dn x s" "conn_ids dn (set_obj b f s) = conn_ids dn s"
  using assms by (simp_all add: id_of_def conn_ids_def obj_set_obj)

text \<open>An entry in the log that the registry allows.\<close>

lemma ok_link:
  assumes "links_ok dn m s" "reg_run (conn_ids dn s) (upstream m s) (conn_events [e]) = Some (upstream m s)"
  shows "links_ok dn m (link e s)"
  using assms by (simp add: links_ok_def reg_run_append)

lemma ok_changed: "links_ok dn m s \<Longrightarrow> links_ok dn m (link (Changed b) s)"
  by (rule ok_link) simp_all

lemma conn_open:
  assumes "links_ok dn m s" "b < length (objs s)" "bd_conn (obj b s) = Some c"
  shows "is_open (conn_ids dn s) c (upstream m s)" "conn_ids dn s ! c = id_of dn b s" "m (id_of dn b s) = Some b" "\<not> bd_destroyed (obj b s)"
proof -
  note o = obj_okD [OF links_okD(1) [OF assms(1,2)]]
  show nd: "\<not> bd_destroyed (obj b s)" using o(4) assms(3) by auto
  show m: "m (id_of dn b s) = Some b" using o(5) [OF nd] by (simp add: id_of_def)
  show c: "conn_ids dn s ! c = id_of dn b s" using o(1,2) [OF assms(3)] by (simp add: conn_ids_def)
  show "is_open (conn_ids dn s) c (upstream m s)"
    using o(1) [OF assms(3)] m c assms(3) by (simp add: is_open_def upstream_def map_comp_def) (simp add: conn_ids_def)
qed

lemma ok_use:
  assumes "links_ok dn m s" "b < length (objs s)" "bd_conn (obj b s) = Some c" "conn_events [e] = [Use c]"
  shows "links_ok dn m (link e s)"
  using conn_open(1) [OF assms(1-3)] by (intro ok_link assms(1)) (simp add: assms(4) del: conn_events_Cons)

text \<open>Changing what the invariant does not read.\<close>

lemma ok_tweak:
  assumes "links_ok dn m s" "b < length (objs s)"
    "bd_down (f (obj b s)) = bd_down (obj b s)" "bd_conn (f (obj b s)) = bd_conn (obj b s)" "bd_up (f (obj b s)) = bd_up (obj b s)"
    "bd_destroyed (f (obj b s)) = bd_destroyed (obj b s)"
    "bd_destroyed (obj b s) \<Longrightarrow> \<not> bd_timer (f (obj b s)) \<and> \<not> bd_listening (f (obj b s))"
  shows "links_ok dn m (set_obj b f s)"
proof -
  have "upstream m (set_obj b f s) = upstream m s"
    by (auto simp: upstream_def obj_set_obj [OF assms(2)] assms(4) map_comp_def split: option.split)
  moreover have "obj_ok dn m (conn_owner s) x (obj x (set_obj b f s))" if "x < length (objs s)" for x
    using links_okD(1) [OF assms(1) that] assms(3-7) by (auto simp: obj_set_obj [OF assms(2)] obj_ok_def)
  ultimately show ?thesis
    using assms(1) ids_set_obj [of b s f, OF assms(2,3)] by (simp add: links_ok_def)
qed

lemma map_owner:
  assumes "links_ok dn m s" "m (id_of dn b s) = Some b" "m i = Some x"
  shows "x = b \<longleftrightarrow> i = id_of dn b s"
  using links_okD(3) [OF assms(1,3)] assms(2,3) by (metis option.inject)

text \<open>Losing the connection.\<close>

lemma ok_close_conn:
  assumes "links_ok dn m s" "b < length (objs s)" "bd_conn (obj b s) = Some c"
    "bd_down (f (obj b s)) = bd_down (obj b s)" "bd_conn (f (obj b s)) = None"
    "bd_destroyed (f (obj b s)) \<Longrightarrow> \<not> bd_timer (f (obj b s)) \<and> \<not> bd_listening (f (obj b s))"
  shows "links_ok dn m (link (ConnDestroy c) (set_obj b f s))"
proof -
  let ?t = "set_obj b f s"
  note co = conn_open [OF assms(1-3)]
  note ids = ids_set_obj [of b s f, OF assms(2,4)]
  have up: "upstream m ?t = (upstream m s)(id_of dn b s := None)"
  proof
    fix i
    show "upstream m ?t i = ((upstream m s)(id_of dn b s := None)) i"
      using map_owner [OF assms(1) co(3), of i] co(3)
      by (cases "m i") (auto simp: upstream_def map_comp_def obj_set_obj [OF assms(2)] assms(5))
  qed
  have "obj_ok dn m (conn_owner s) x (obj x ?t)" if "x < length (objs s)" for x
    using links_okD(1) [OF assms(1) that] assms(4-6) co(3) by (auto simp: obj_set_obj [OF assms(2)] obj_ok_def id_of_def)
  moreover have "reg_run (conn_ids dn s) Map.empty (conn_events (link_log s @ [ConnDestroy c])) = Some (upstream m ?t)"
    using links_okD(5) [OF assms(1)] co(1,2) by (simp add: reg_run_append up)
  ultimately show ?thesis
    using assms(1) ids by (simp add: links_ok_def)
qed


text \<open>A new connection of an object that has none.\<close>

lemma ok_open_conn:
  assumes "links_ok dn m s" "b < length (objs s)" "bd_conn (obj b s) = None" "\<not> bd_destroyed (obj b s)"
    "bd_up (obj b s) = dn_platform (dn (bd_down (obj b s)))"
  shows "links_ok dn m (open_conn b s)"
proof -
  let ?c = "length (conn_owner s)" and ?f = "\<lambda>x. x\<lparr>bd_conn := Some (length (conn_owner s))\<rparr>"
  let ?t = "open_conn b s"
  have t: "objs ?t = (objs s)[b := ?f (obj b s)]" "conn_owner ?t = conn_owner s @ [b]" "link_log ?t = link_log s @ [ConnOpen ?c]"
    by (simp_all add: open_conn_def Let_def set_obj_def link_def obj_def)
  have ob: "obj x ?t = (if x = b then ?f (obj b s) else obj x s)" for x
    using assms(2) by (simp add: obj_def t)
  have id: "id_of dn x ?t = id_of dn x s" for x by (simp add: id_of_def ob)
  have own: "m (id_of dn b s) = Some b" using obj_okD(5) [OF links_okD(1) [OF assms(1,2)] assms(4)] by (simp add: id_of_def)
  have ids: "conn_ids dn ?t = conn_ids dn s @ [id_of dn b s]" by (simp add: conn_ids_def t id)
  have up: "upstream m ?t = (upstream m s)(id_of dn b s \<mapsto> ?c)"
  proof
    fix i
    show "upstream m ?t i = ((upstream m s)(id_of dn b s \<mapsto> ?c)) i"
      using map_owner [OF assms(1) own, of i] own by (cases "m i") (auto simp: upstream_def map_comp_def ob)
  qed
  have len: "length (conn_ids dn s) = ?c" by (simp add: conn_ids_def)
  have none: "upstream m s (id_of dn b s) = None" using own assms(3) by (simp add: upstream_def map_comp_def)
  have "reg_run (conn_ids dn s @ [id_of dn b s]) Map.empty (conn_events (link_log s)) = Some (upstream m s)"
    using links_okD(5) [OF assms(1)] by (rule reg_run_more)
  then have "reg_run (conn_ids dn ?t) Map.empty (conn_events (link_log ?t)) = Some (upstream m ?t)"
    using none by (simp add: ids t reg_run_append up nth_append len)
  moreover have "obj_ok dn m (conn_owner ?t) x (obj x ?t)" if "x < length (objs s)" for x
    using links_okD(1) [OF assms(1) that] assms(3-5) by (auto simp: ob t obj_ok_def nth_append)
  ultimately show ?thesis
    using assms(1,2) by (auto simp: links_ok_def id t)
qed

text \<open>A new object, under an identifier that has none.\<close>

lemma ok_new_obj:
  assumes "links_ok dn m s" "m (dn_id (dn d)) = None" "bd_down x = d" "\<not> bd_destroyed x" "bd_conn x = None"
  shows "links_ok dn (m(dn_id (dn d) \<mapsto> length (objs s))) (s\<lparr>objs := objs s @ [x]\<rparr>)"
proof -
  let ?t = "s\<lparr>objs := objs s @ [x]\<rparr>" and ?m = "m(dn_id (dn d) \<mapsto> length (objs s))" and ?n = "length (objs s)"
  have ob: "obj y ?t = (if y = ?n then x else obj y s)" if "y \<le> ?n" for y using that by (auto simp: obj_def nth_append)
  have id: "id_of dn y ?t = id_of dn y s" if "y < ?n" for y using that ob by (simp add: id_of_def)
  have ids: "conn_ids dn ?t = conn_ids dn s" using links_okD(4) [OF assms(1)] id by (simp add: conn_ids_def)
  have up: "upstream ?m ?t = upstream m s"
  proof
    fix i
    show "upstream ?m ?t i = upstream m s i"
      using links_okD(2) [OF assms(1), of i] assms(2,5) ob [of ?n]
      by (cases "m i") (auto simp: upstream_def map_comp_def ob)
  qed
  have "obj_ok dn ?m (conn_owner s) y (obj y ?t)" if "y < Suc ?n" for y
  proof (cases "y = ?n")
    case True
    then show ?thesis using ob [of ?n] assms(3-5) by (simp add: obj_ok_def)
  next
    case False
    then have y: "y < ?n" using that by simp
    then show ?thesis using links_okD(1) [OF assms(1) y] ob [of y] assms(2) False by (auto simp: obj_ok_def)
  qed
  moreover have "b < Suc ?n \<and> id_of dn b ?t = i" if "?m i = Some b" for i b
  proof (cases "i = dn_id (dn d)")
    case True
    then show ?thesis using that ob [of ?n] assms(3) by (simp add: id_of_def)
  next
    case False
    then have "m i = Some b" using that by simp
    then show ?thesis using links_okD(2,3) [OF assms(1)] id by (simp add: less_SucI)
  qed
  ultimately show ?thesis
    using assms(1) by (auto simp: links_ok_def ids up less_SucI)
qed

text \<open>A destroyed object leaves the map.\<close>

lemma ok_forget:
  assumes "links_ok dn m s" "m i = Some b" "bd_destroyed (obj b s)"
  shows "links_ok dn (m(i := None)) s"
proof -
  have b: "b < length (objs s)" using links_okD(2) [OF assms(1,2)] .
  have none: "bd_conn (obj b s) = None" using obj_okD(4) [OF links_okD(1) [OF assms(1) b] assms(3)] by blast
  have "upstream (m(i := None)) s = upstream m s"
    using assms(2) none by (auto simp: upstream_def map_comp_def)
  moreover have "obj_ok dn (m(i := None)) (conn_owner s) x (obj x s)" if "x < length (objs s)" for x
    using links_okD(1) [OF assms(1) that] assms(2,3) by (auto simp: obj_ok_def)
  ultimately show ?thesis using assms(1) by (auto simp: links_ok_def)
qed

subsection \<open>The operations of one object\<close>

text \<open>What they do not touch: the map, the other objects, and whose an object is.\<close>

definition same_objs :: "'a links_scheme \<Rightarrow> 'a links_scheme \<Rightarrow> bool" where
  "same_objs s t \<longleftrightarrow> length (objs t) = length (objs s) \<and> links.more t = links.more s \<and>
    (\<forall>b < length (objs s). bd_down (obj b t) = bd_down (obj b s) \<and> bd_up (obj b t) = bd_up (obj b s))"

lemma same_refl [simp]: "same_objs s s"
  by (simp add: same_objs_def)

lemma same_trans: "same_objs s t \<Longrightarrow> same_objs t u \<Longrightarrow> same_objs s u"
  by (simp add: same_objs_def)

lemma same_link: "same_objs s (link e s)"
  by (simp add: same_objs_def)

lemma same_set: "b < length (objs s) \<Longrightarrow> bd_down (f (obj b s)) = bd_down (obj b s) \<Longrightarrow> bd_up (f (obj b s)) = bd_up (obj b s) \<Longrightarrow> same_objs s (set_obj b f s)"
  by (simp add: same_objs_def obj_set_obj)

definition good :: "(nat \<Rightarrow> down) \<Rightarrow> registry \<Rightarrow> 'a links_scheme \<Rightarrow> 'a links_scheme \<Rightarrow> bool" where
  "good dn m s t \<longleftrightarrow> links_ok dn m t \<and> same_objs s t"

lemma goodD: "good dn m s t \<Longrightarrow> links_ok dn m t" "good dn m s t \<Longrightarrow> same_objs s t"
  "good dn m s t \<Longrightarrow> length (objs t) = length (objs s)"
  by (simp_all add: good_def same_objs_def)

lemma good_trans: "good dn m s t \<Longrightarrow> good dn m t u \<Longrightarrow> good dn m s u"
  by (auto simp: good_def intro: same_trans)

lemma good_refl: "links_ok dn m s \<Longrightarrow> good dn m s s"
  by (simp add: good_def)

lemma good_link: "good dn m s t \<Longrightarrow> links_ok dn m (link e t) \<Longrightarrow> good dn m s (link e t)"
  by (auto simp: good_def intro: same_trans same_link)

lemma good_tweak:
  assumes "links_ok dn m s" "b < length (objs s)"
    "bd_down (f (obj b s)) = bd_down (obj b s)" "bd_conn (f (obj b s)) = bd_conn (obj b s)" "bd_up (f (obj b s)) = bd_up (obj b s)"
    "bd_destroyed (f (obj b s)) = bd_destroyed (obj b s)"
    "bd_destroyed (obj b s) \<Longrightarrow> \<not> bd_timer (f (obj b s)) \<and> \<not> bd_listening (f (obj b s))"
  shows "good dn m s (set_obj b f s)"
  using ok_tweak [of dn m s b f, OF assms] same_set [of b s f, OF assms(2,3,5)] by (simp add: good_def)

lemma good_disconnect:
  assumes "links_ok dn m s" "b < length (objs s)"
  shows "good dn m s (disconnect b s)"
proof (cases "bd_conn (obj b s)")
  case None
  then show ?thesis using assms(1) by (simp add: disconnect_def good_refl)
next
  case (Some c)
  note nd = conn_open(4) [OF assms Some]
  let ?f = "\<lambda>x. x\<lparr>bd_conn := None, bd_connected := False\<rparr>"
  let ?t = "link (Changed b) (link (ConnDestroy c) (set_obj b ?f s))"
  have ok: "links_ok dn m ?t"
    using nd by (intro ok_changed ok_close_conn assms Some) simp_all
  have same: "same_objs s ?t" using assms(2) by (simp add: same_objs_def obj_set_obj)
  have nd': "\<not> bd_destroyed (obj b ?t)" using nd assms(2) by (simp add: obj_set_obj)
  have "good dn m ?t (set_obj b (\<lambda>x. x\<lparr>bd_timer := True\<rparr>) ?t)"
    using assms(2) nd' by (intro good_tweak ok) simp_all
  then have "good dn m s (set_obj b (\<lambda>x. x\<lparr>bd_timer := True\<rparr>) ?t)"
    using ok same good_trans by (auto simp: good_def intro: same_trans)
  then show ?thesis using Some nd' by (simp add: disconnect_def Let_def)
qed


lemma obj_open_conn: "b < length (objs s) \<Longrightarrow> obj x (open_conn b s) = (if x = b then (obj b s)\<lparr>bd_conn := Some (length (conn_owner s))\<rparr> else obj x s)"
  by (simp add: open_conn_def Let_def set_obj_def obj_def link_def)

lemma good_open_conn:
  assumes "links_ok dn m s" "b < length (objs s)" "bd_conn (obj b s) = None" "\<not> bd_destroyed (obj b s)"
    "bd_up (obj b s) = dn_platform (dn (bd_down (obj b s)))"
  shows "good dn m s (open_conn b s)"
  using ok_open_conn [OF assms] assms(2)
  by (simp add: good_def same_objs_def obj_open_conn) (simp add: open_conn_def Let_def link_def)

lemma good_use:
  assumes "good dn m s t" "b < length (objs s)" "bd_conn (obj b t) = Some c" "conn_events [e] = [Use c]"
  shows "good dn m s (link e t)"
  using goodD [OF assms(1)] assms(2-4) by (intro good_link assms(1) ok_use) auto

lemma good_connect:
  assumes "links_ok dn m s" "b < length (objs s)"
  shows "good dn m s (fst (connect dn env b s))"
proof (cases "bd_destroyed (obj b s) \<or> bd_conn (obj b s) \<noteq> None \<or> bd_up (obj b s) \<noteq> dn_platform (dn (bd_down (obj b s)))")
  case True
  have "good dn m s (set_obj b (\<lambda>x. x\<lparr>bd_connected := False\<rparr>) s)"
    using obj_okD(4) [OF links_okD(1) [OF assms]] by (intro good_tweak assms) simp_all
  then show ?thesis using True good_refl [OF assms(1)] assms(2)
    by (auto simp: connect_def Let_def obj_set_obj)
next
  case False
  let ?s = "set_obj b (\<lambda>x. x\<lparr>bd_connected := False\<rparr>) s" and ?c = "length (conn_owner s)"
  have g: "good dn m s ?s"
    using False by (intro good_tweak assms) simp_all
  note ob = obj_set_obj [OF assms(2)]
  have "good dn m ?s (open_conn b ?s)"
    using False assms(2) goodD(1) [OF g] by (intro good_open_conn) (simp_all add: ob)
  from good_trans [OF g this] have o: "good dn m s (open_conn b ?s)" .
  have conn: "bd_conn (obj b (open_conn b ?s)) = Some ?c" using assms(2) by (simp add: obj_open_conn)
  have "good dn m s (link (ConnSend ?c r) (open_conn b ?s))" for r
    by (rule good_use [OF o assms(2) conn]) simp
  then show ?thesis using False g o assms(2)
    by (simp add: connect_def Let_def ob obj_open_conn split: option.split)
qed

lemma good_reconnectNow:
  assumes "links_ok dn m s" "b < length (objs s)"
  shows "good dn m s (reconnectNow dn env b s)"
proof -
  obtain t r where t: "connect dn env b s = (t, r)" by (cases "connect dn env b s")
  have g: "good dn m s t" using good_connect [OF assms, of env] by (simp add: t)
  have b: "b < length (objs t)" using goodD(3) [OF g] assms(2) by simp
  show ?thesis
  proof (cases "r = Inr () \<or> bd_destroyed (obj b t)")
    case True
    then show ?thesis using g by (auto simp: reconnectNow_def t split: sum.split)
  next
    case False
    then obtain e where r: "r = Inl e" by (cases r) auto
    let ?u = "set_obj b (\<lambda>x. x\<lparr>bd_error := Some e\<rparr>) t" and ?f = "\<lambda>x. x\<lparr>bd_timer := True\<rparr>"
    have u: "good dn m t ?u" using goodD(1) [OF g] b False by (intro good_tweak) simp_all
    have bu: "b < length (objs ?u)" using b by simp
    have ou: "obj b ?u = (obj b t)\<lparr>bd_error := Some e\<rparr>" using b by (simp add: obj_set_obj)
    have "good dn m ?u (set_obj b ?f ?u)" using goodD(1) [OF u] bu False by (intro good_tweak) (simp_all add: ou)
    then have "good dn m ?u (link (Changed b) (set_obj b ?f ?u))" by (intro good_link ok_changed goodD(1))
    moreover have "good dn m ?u (disconnect b ?u)" using goodD(1) [OF u] bu by (rule good_disconnect)
    ultimately have "good dn m s (link (Changed b) (set_obj b ?f ?u))" "good dn m s (disconnect b ?u)"
      using g u good_trans by blast+
    then show ?thesis using False r by (simp add: reconnectNow_def t Let_def)
  qed
qed

lemma good_forward_failed:
  assumes "good dn m s t" "b < length (objs s)"
  shows "good dn m s (forward_failed b err t)"
proof (cases err)
  case None
  then show ?thesis using assms(1) by (simp add: forward_failed_def)
next
  case (Some e)
  let ?u = "set_obj b (\<lambda>x. x\<lparr>bd_error := Some e\<rparr>) t"
  have b: "b < length (objs t)" using goodD(3) [OF assms(1)] assms(2) by simp
  have u: "good dn m t ?u"
    using obj_okD(4) [OF links_okD(1) [OF goodD(1) [OF assms(1)] b]] goodD(1) [OF assms(1)] b by (intro good_tweak) simp_all
  have "good dn m ?u (disconnect b ?u)" using goodD(1) [OF u] b by (intro good_disconnect) simp_all
  from good_trans [OF good_trans [OF assms(1) u] this] show ?thesis by (simp add: Some forward_failed_def)
qed

lemma good_downstream:
  assumes "links_ok dn m s" "b < length (objs s)"
  shows "good dn m s (onDownstreamData env b pk s)" "good dn m s (onDownstreamMessage env b msg s)"
proof -
  have u: "good dn m s (forward_failed b err (link e s))" if "bd_conn (obj b s) = Some c" "conn_events [e] = [Use c]" for c e err
    using good_use [OF good_refl [OF assms(1)] assms(2) that] assms(2) by (rule good_forward_failed)
  then show "good dn m s (onDownstreamData env b pk s)" "good dn m s (onDownstreamMessage env b msg s)"
    using good_refl [OF assms(1)]
    by (auto simp: onDownstreamData_def onDownstreamMessage_def split: option.split intro!: u)
qed

lemma good_destroy:
  assumes "links_ok dn m s" "b < length (objs s)"
  shows "good dn m s (destroy_bridged b s)" "bd_destroyed (obj b (destroy_bridged b s))"
proof -
  let ?f = "\<lambda>x. x\<lparr>bd_destroyed := True, bd_connected := False, bd_conn := None, bd_listening := False, bd_timer := False\<rparr>"
  have same: "same_objs s (set_obj b ?f s)" using assms(2) by (intro same_set) simp_all
  show "good dn m s (destroy_bridged b s)"
  proof (cases "bd_conn (obj b s)")
    case (Some c)
    have "links_ok dn m (link (ConnDestroy c) (set_obj b ?f s))" by (intro ok_close_conn assms Some) simp_all
    then show ?thesis using Some same by (auto simp: destroy_bridged_def Let_def good_def intro: same_trans same_link)
  next
    case None
    have up: "upstream m (set_obj b ?f s) = upstream m s"
      using None by (auto simp: upstream_def map_comp_def obj_set_obj [OF assms(2)] split: option.split)
    have "obj_ok dn m (conn_owner s) x (obj x (set_obj b ?f s))" if "x < length (objs s)" for x
      using links_okD(1) [OF assms(1) that] by (auto simp: obj_set_obj [OF assms(2)] obj_ok_def)
    then have "links_ok dn m (set_obj b ?f s)"
      using assms(1) up ids_set_obj [of b s ?f, OF assms(2)] by (simp add: links_ok_def)
    then show ?thesis using None same by (simp add: destroy_bridged_def Let_def good_def)
  qed
  show "bd_destroyed (obj b (destroy_bridged b s))"
    using assms(2) by (simp add: destroy_bridged_def Let_def obj_set_obj split: option.split)
qed

lemma good_on_conn:
  assumes "links_ok dn m s"
  shows "good dn m s (on_conn dn c ev s)"
proof (cases "c < length (conn_owner s) \<and> bd_conn (obj (conn_owner s ! c) s) = Some c")
  case False
  then show ?thesis using good_refl [OF assms] by (auto simp: on_conn_def Let_def)
next
  case True
  let ?b = "conn_owner s ! c"
  have b: "?b < length (objs s)" using True links_okD(4) [OF assms] by simp
  note nd = conn_open(4) [OF assms b conjunct2 [OF True]]
  have tw: "good dn m s (link (Changed ?b) (set_obj ?b f s))"
    if "\<And>x. bd_down (f x) = bd_down x" "\<And>x. bd_conn (f x) = bd_conn x" "\<And>x. bd_up (f x) = bd_up x" "\<And>x. bd_destroyed (f x) = bd_destroyed x" for f
  proof -
    have "good dn m s (set_obj ?b f s)" using nd by (intro good_tweak assms b that) simp
    then show ?thesis by (intro good_link ok_changed goodD(1))
  qed
  have use: "good dn m s (link e s)" if "conn_events [e] = [Use c]" for e
    by (rule good_use [OF good_refl [OF assms] b conjunct2 [OF True] that])
  show ?thesis
  proof (cases ev)
    case Connected
    then show ?thesis using True by (simp add: on_conn_def Let_def tw)
  next
    case (ConnError e)
    then show ?thesis using True by (simp add: on_conn_def Let_def tw)
  next
    case ConnClosed
    then show ?thesis using True good_disconnect [OF assms b] by (simp add: on_conn_def Let_def)
  next
    case (FromCloud msg)
    then show ?thesis using True by (simp add: on_conn_def Let_def use)
  qed
qed

lemma good_reconnect_due:
  assumes "links_ok dn m s"
  shows "good dn m s (reconnect_due dn env b s)"
proof (cases "b < length (objs s) \<and> bd_timer (obj b s)")
  case True
  then have b: "b < length (objs s)" by simp
  have g: "good dn m s (set_obj b (\<lambda>x. x\<lparr>bd_timer := False\<rparr>) s)"
    using obj_okD(4) [OF links_okD(1) [OF assms b]] by (intro good_tweak assms b) simp_all
  have "good dn m (set_obj b (\<lambda>x. x\<lparr>bd_timer := False\<rparr>) s) (reconnectNow dn env b (set_obj b (\<lambda>x. x\<lparr>bd_timer := False\<rparr>) s))"
    using goodD(1) [OF g] b by (intro good_reconnectNow) simp_all
  then show ?thesis using True g good_trans by (simp add: reconnect_due_def) blast
next
  case False
  then show ?thesis using good_refl [OF assms] by (auto simp: reconnect_due_def)
qed

text \<open>A listener of every object.\<close>

lemma good_fold:
  assumes "links_ok dn m s" "\<And>t b. links_ok dn m t \<Longrightarrow> b < length (objs t) \<Longrightarrow> good dn m t (f t b)"
  shows "good dn m s (foldl f s [0..<length (objs s)])"
proof -
  have "good dn m s (foldl f s bs)" if "set bs \<subseteq> {..<length (objs s)}" for bs
    using that
  proof (induction bs rule: rev_induct)
    case Nil
    then show ?case using assms(1) by (simp add: good_refl)
  next
    case (snoc b bs)
    then have g: "good dn m s (foldl f s bs)" by simp
    have "good dn m (foldl f s bs) (f (foldl f s bs) b)"
      using assms(2) goodD [OF g] snoc.prems by simp
    then show ?case using g good_trans by fastforce
  qed
  then show ?thesis by (simp add: subset_eq)
qed

lemma good_listeners:
  assumes "links_ok dn m s"
  shows "good dn m s (down_data env d pk s)" "good dn m s (down_message env d msg s)" "good dn m s (down_close d s)"
  unfolding down_data_def down_message_def down_close_def
  by (rule good_fold [OF assms]; simp add: good_refl good_downstream good_destroy)+


subsection \<open>The bridge\<close>

definition br_ok :: "(nat \<Rightarrow> down) \<Rightarrow> bridge \<Rightarrow> bool" where
  "br_ok dn s \<longleftrightarrow> links_ok dn (map_of (br_map s)) s \<and> distinct (map fst (br_map s))"

text \<open>The operations of the links leave the bridge's own fields alone.\<close>

lemma same_more:
  assumes "links.more s = links.more (t :: bridge)"
  shows "br_map s = br_map t" "br_files s = br_files t" "br_gens s = br_gens t" "br_present s = br_present t"
    "br_queue s = br_queue t" "br_running s = br_running t" "br_intent s = br_intent t" "br_log s = br_log t" "br_names s = br_names t"
  using assms by (cases s; cases t; simp)+

lemma good_br:
  assumes "br_ok dn s" "good dn (map_of (br_map s)) s t"
  shows "br_ok dn t"
  using assms same_more(1) [of t s] by (simp add: br_ok_def good_def same_objs_def)

lemma links_ok_bridge [simp]:
  "links_ok dn m (tell e s) = links_ok dn m s" "links_ok dn m (s\<lparr>br_files := fs\<rparr>) = links_ok dn m s"
  "links_ok dn m (s\<lparr>br_map := mp\<rparr>) = links_ok dn m s" "links_ok dn m (s\<lparr>br_gens := g\<rparr>) = links_ok dn m s"
  "links_ok dn m (s\<lparr>br_intent := it\<rparr>) = links_ok dn m s" "links_ok dn m (s\<lparr>br_queue := q\<rparr>) = links_ok dn m s"
  "links_ok dn m (s\<lparr>br_running := r\<rparr>) = links_ok dn m s" "links_ok dn m (s\<lparr>br_present := p\<rparr>) = links_ok dn m s"
  "links_ok dn m (s\<lparr>br_names := n\<rparr>) = links_ok dn m s" "links_ok dn m (s\<lparr>br_loading := l\<rparr>) = links_ok dn m s"
  by (rule links_ok_cong; simp add: tell_def)+

lemma tell_fields [simp]:
  "br_map (tell e s) = br_map s" "br_files (tell e s) = br_files s" "br_gens (tell e s) = br_gens s" "br_present (tell e s) = br_present s"
  "br_queue (tell e s) = br_queue s" "br_running (tell e s) = br_running s" "br_intent (tell e s) = br_intent s"
  "br_names (tell e s) = br_names s" "objs (tell e s) = objs s" "obj b (tell e s) = obj b s" "present i (tell e s) = present i s"
  "bridged_as i (tell e s) = bridged_as i s" "br_log (tell e s) = br_log s @ [e]" "link_log (tell e s) = link_log s"
  by (simp_all add: tell_def obj_def present_def bridged_as_def)

lemma br_ok_simps [simp]:
  "br_ok dn (tell e s) = br_ok dn s" "br_ok dn (s\<lparr>br_files := fs\<rparr>) = br_ok dn s"
  "br_ok dn (s\<lparr>br_gens := g\<rparr>) = br_ok dn s" "br_ok dn (s\<lparr>br_intent := it\<rparr>) = br_ok dn s"
  "br_ok dn (s\<lparr>br_queue := q\<rparr>) = br_ok dn s" "br_ok dn (s\<lparr>br_running := r\<rparr>) = br_ok dn s"
  "br_ok dn (s\<lparr>br_present := p\<rparr>) = br_ok dn s" "br_ok dn (s\<lparr>br_names := n\<rparr>) = br_ok dn s" "br_ok dn (s\<lparr>br_loading := l\<rparr>) = br_ok dn s"
  by (simp_all add: br_ok_def)

text \<open>What stopping an appliance leaves.\<close>

lemma stop_fields:
  "br_gens (stop i s) = (br_gens s)(i := br_gens s i + 1)" "br_files (stop i s) = br_files s" "br_present (stop i s) = br_present s"
  "br_intent (stop i s) = br_intent s" "br_queue (stop i s) = br_queue s" "br_running (stop i s) = br_running s" "br_names (stop i s) = br_names s"
  "br_map (stop i s) = (if bridged_as i s = None then br_map s else AList.delete i (br_map s))" "length (objs (stop i s)) = length (objs s)"
  by (simp_all add: stop_def Let_def bridged_as_def destroy_bridged_def set_obj_def link_def tell_def split: option.split)

lemma stop_map: "map_of (br_map (stop i s)) = (map_of (br_map s))(i := None)"
proof -
  have "map_of (br_map s) = (map_of (br_map s))(i := None)" if "bridged_as i s = None"
    using that by (simp add: bridged_as_def fun_upd_idem)
  then show ?thesis by (simp add: stop_fields delete_conv')
qed

lemma ok_stop:
  assumes "br_ok dn s"
  shows "br_ok dn (stop i s)" "bridged_as i (stop i s) = None"
proof -
  show "bridged_as i (stop i s) = None" by (simp add: bridged_as_def stop_map)
  show "br_ok dn (stop i s)"
  proof (cases "bridged_as i s")
    case None
    then have "stop i s = s\<lparr>br_gens := (br_gens s)(i := br_gens s i + 1)\<rparr>" by (simp add: stop_def bridged_as_def)
    then show ?thesis using assms by simp
  next
    case (Some b)
    let ?m = "map_of (br_map s)"
    let ?s = "s\<lparr>br_gens := (br_gens s)(i := br_gens s i + 1)\<rparr>"
    let ?t = "tell (BridgeStopped i) (?s\<lparr>br_map := AList.delete i (br_map s)\<rparr>)"
    have m: "?m i = Some b" using Some by (simp add: bridged_as_def)
    have t: "links_ok dn ?m ?t" using assms by (simp add: br_ok_def)
    have b: "b < length (objs ?t)" using links_okD(2) [OF t m] .
    note d = good_destroy [OF t b]
    have stop: "stop i s = destroy_bridged b ?t" using Some by (simp add: stop_def bridged_as_def)
    have "links_ok dn (?m(i := None)) (stop i s)"
      unfolding stop by (rule ok_forget [OF goodD(1) [OF d(1)] m d(2)])
    moreover have "distinct (map fst (br_map (stop i s)))"
      using assms by (simp add: br_ok_def stop_fields distinct_delete)
    ultimately show ?thesis unfolding br_ok_def stop_map ..
  qed
qed

lemma update_keys: "distinct (map fst m) \<Longrightarrow> distinct (map fst (AList.update k v m))"
  by (rule distinct_update)

lemma ok_launch:
  assumes "br_ok dn s" "bridged_as (dn_id (dn d)) s = None"
  shows "br_ok dn (launch dn env up d s)"
proof -
  let ?i = "dn_id (dn d)" and ?b = "length (objs s)" and ?fits = "up = dn_platform (dn d)"
  let ?m = "(map_of (br_map s))(?i \<mapsto> ?b)"
  define x where "x = \<lparr>bd_up = up, bd_down = d, bd_destroyed = False, bd_connected = False, bd_error = None, bd_conn = None,
    bd_timer = False, bd_listening = ?fits\<rparr>"
  define t where "t = s\<lparr>objs := objs s @ [x]\<rparr>"
  define u where "u = new_bridged dn (be_link env) up d s"
  have t: "links_ok dn ?m t"
    unfolding t_def using assms by (intro ok_new_obj) (simp_all add: br_ok_def bridged_as_def x_def)
  have u: "u = (if ?fits then reconnectNow dn (be_link env) ?b t else t)"
    by (simp add: u_def new_bridged_def Let_def t_def x_def)
  have b: "?b < length (objs t)" by (simp add: t_def)
  have "good dn ?m t u" unfolding u using good_reconnectNow [OF t b] good_refl [OF t] by presburger
  then have g: "links_ok dn ?m u" "br_map u = br_map s"
    using same_more(1) [of u t] by (simp_all add: good_def same_objs_def t_def)
  have "launch dn env up d s = tell (BridgeStarted ?i) (u\<lparr>br_map := AList.update ?i ?b (br_map u)\<rparr>)"
    by (simp add: launch_def Let_def u_def)
  then show ?thesis
    using assms(1) g by (simp add: br_ok_def update_conv' distinct_update)
qed

lemma ok_start: "br_ok dn s \<Longrightarrow> br_ok dn (fst (start dn env d s))"
  unfolding start_def Let_def
  by (auto split: option.split sum.split simp: ok_stop intro!: ok_launch)

lemma ok_start_present: "br_ok dn s \<Longrightarrow> br_ok dn (fst (start_present dn env i s))"
  by (simp add: start_present_def ok_start split: option.split)

lemma ok_and_then:
  "br_ok dn (fst r) \<Longrightarrow> (\<And>s a. br_ok dn s \<Longrightarrow> br_ok dn (fst (f s a))) \<Longrightarrow> br_ok dn (fst (and_then r f))"
  by (cases r; cases "snd r") auto

lemma ok_then_tell: "br_ok dn (fst r) \<Longrightarrow> br_ok dn (fst (and_then r (\<lambda>s _. (tell e s, Inr x))))"
  by (rule ok_and_then) simp_all

lemma ok_setIntent: "br_ok dn s \<Longrightarrow> br_ok dn (fst (setIntent env i b s))"
  by (simp add: setIntent_def split: prod.split sum.split)

lemma ok_settle: "br_ok dn (fst r) \<Longrightarrow> br_ok dn (settle i act r)"
  by (cases r) (simp add: settle_def Let_def)

lemma ok_reconcile: "br_ok dn s \<Longrightarrow> br_ok dn (fst (reconcile dn env i s))"
  unfolding reconcile_def by (rule ok_then_tell) (simp add: ok_stop ok_start_present)

lemma ok_enable_action: "br_ok dn s \<Longrightarrow> br_ok dn (fst (enable_action dn env i s))"
  unfolding enable_action_def
  by (cases "hasSavedState env i s") (auto intro!: ok_and_then [OF ok_setIntent] ok_then_tell ok_start_present)

lemma ok_restore_action: "br_ok dn s \<Longrightarrow> br_ok dn (fst (restore_action dn env i s))"
  unfolding restore_action_def Let_def
  by (simp add: ok_then_tell ok_start_present split: prod.split sum.split bool.split)

lemma ok_renew_done: "br_ok dn s \<Longrightarrow> br_ok dn (fst (renew_done dn env i d g result s))"
  unfolding renew_done_def Let_def
  by (simp add: ok_then_tell ok_start ok_stop split: prod.split sum.split)

lemma ok_disable: "br_ok dn s \<Longrightarrow> br_ok dn (fst (disable_bridge env i s))"
  unfolding disable_bridge_def by (rule ok_and_then) (simp_all add: ok_stop ok_setIntent)

lemmas ok_actions = ok_reconcile ok_enable_action ok_restore_action ok_renew_done ok_disable

lemma ok_run_next: "br_ok dn s \<Longrightarrow> br_ok dn (run_next dn env i s)"
  unfolding run_next_def run_action_def
  by (auto split: option.split list.split action.split intro!: ok_settle ok_actions)

lemma br_ok_fold: "br_ok dn s \<Longrightarrow> (\<And>s x. br_ok dn s \<Longrightarrow> br_ok dn (f s x)) \<Longrightarrow> br_ok dn (foldl f s xs)"
  by (induction xs arbitrary: s) auto

lemma br_links: "br_ok dn s \<Longrightarrow> links_ok dn (map_of (br_map s)) s"
  by (simp add: br_ok_def)

lemma ok_bridge_do: "br_ok dn s \<Longrightarrow> br_ok dn (bridge_do dn s e)"
proof (induction dn s e rule: bridge_do.induct)
  case (1 dn s env d)
  then show ?case by (simp add: manager_new_def ok_start)
next
  case (2 dn s env d)
  let ?t = "if present (dn_id (dn d)) s = Some d then stop (dn_id (dn d)) (s\<lparr>br_present := AList.delete (dn_id (dn d)) (br_present s)\<rparr>) else s"
  have "br_ok dn ?t" using 2 by (simp add: ok_stop)
  then have "br_ok dn (down_close d ?t)" by (intro good_br [OF _ good_listeners(3)] br_links)
  then show ?case by (simp add: device_closed_def Let_def)
next
  case (6 dn s env b)
  then show ?case by (simp add: good_br [OF 6 good_reconnect_due] br_links)
qed (auto simp: enable_bridge_def serialize_def reconcileAll_def registered_now_def refreshDeviceNames_def names_loaded_def logout_def Let_def
    split: option.split prod.split sum.split
    intro: good_br [OF _ good_listeners(1)] good_br [OF _ good_listeners(2)] good_br [OF _ good_on_conn] br_links ok_run_next ok_actions
    intro!: ok_settle br_ok_fold)

end
