(* ===== verification/BridgeSafety.thy ===== *)
theory BridgeSafety
  imports BridgeInv
begin

text \<open>
  What the bridge promises over every run: one connection per appliance, an appliance that is
  switched off is off, a renewal does not undo what happened while it waited, and registration in
  preserve mode leaves the account's devices alone.
\<close>

lemma foldl_starts: "br_ok dn s \<Longrightarrow> br_ok dn (foldl (\<lambda>s d. fst (start dn env d s)) s ds)"
  by (rule br_ok_fold) (simp_all add: ok_start)

lemma ok_refresh: "br_ok dn (refreshDeviceNames env s) = br_ok dn s"
  by (simp add: refreshDeviceNames_def)

lemma ok_new_bridge: "br_ok dn (new_bridge dn env fs ds)"
  unfolding new_bridge_def Let_def ok_refresh
  by (rule foldl_starts) (simp add: br_ok_def links_ok_def upstream_def conn_ids_def)

lemma ok_bridge_run: "br_ok dn (bridge_run dn env fs ds es)"
  unfolding bridge_run_def by (rule br_ok_fold [OF ok_new_bridge]) (rule ok_bridge_do)

interpretation cloud: registry "conn_ids dn" "\<lambda>s. conn_events (link_log s)" "\<lambda>s. upstream (map_of (br_map s)) s" "br_ok dn" for dn
  by unfold_locales (simp add: br_ok_def links_okD(5))

text \<open>
  C2. One cloud connection per appliance: in every run a connection to the cloud is opened only when
  the appliance has none, is used in either direction only while it is open, and is closed once; the
  open connections are those of the listed bridged devices; and every other object is spent - it is
  destroyed, has no connection, no timer and no listener.
\<close>

theorem one_cloud_connection:
  "let s = bridge_run dn env fs ds es in
     reg_run (conn_ids dn s) Map.empty (conn_events (link_log s)) = Some (upstream (map_of (br_map s)) s) \<and>
     list_all (\<lambda>b. bridged_as (id_of dn b s) s = Some b \<or>
       (bd_destroyed (obj b s) \<and> bd_conn (obj b s) = None \<and> \<not> bd_timer (obj b s) \<and> \<not> bd_listening (obj b s))) [0..<length (objs s)]"
proof -
  let ?s = "bridge_run dn env fs ds es"
  have ok: "br_ok dn ?s" by (rule ok_bridge_run)
  have "bridged_as (id_of dn b ?s) ?s = Some b \<or>
      (bd_destroyed (obj b ?s) \<and> bd_conn (obj b ?s) = None \<and> \<not> bd_timer (obj b ?s) \<and> \<not> bd_listening (obj b ?s))"
    if "b < length (objs ?s)" for b
    using obj_okD(4,5) [OF links_okD(1) [OF br_links [OF ok] that]] by (auto simp: bridged_as_def id_of_def)
  then show ?thesis using cloud.keeps [OF ok] by (simp add: list_all_iff Let_def)
qed

subsection \<open>Switching off\<close>

lemma setEnabled_get: "setEnabled fe base i b fs = (fs', Inr u) \<Longrightarrow> getEnabled base i fs' = Some b"
  by (auto simp: setEnabled_def getEnabled_def readFile_def dest!: writeAtomically_Inr split: sum.splits)

lemma setIntent_simps:
  assumes "setIntent env i b s = (t, r)"
  shows "objs t = objs s" "br_map t = br_map s" "br_gens t = br_gens s" "br_present t = br_present s" "link_log t = link_log s"
    "br_queue t = br_queue s" "br_running t = br_running s" "conn_owner t = conn_owner s"
    "r = Inr u \<Longrightarrow> getEnabled (be_base env) i (br_files t) = Some b \<and> br_intent t i = Some b"
    "r = Inl e \<Longrightarrow> br_intent t = br_intent s"
  using assms setEnabled_get [of "be_fs env" "be_base env" i b "br_files s"]
  by (auto simp: setIntent_def split: prod.splits sum.splits)

text \<open>
  C14. Switching an appliance off: when \<open>disable\<close> returns, the choice is on disk, the appliance has no
  bridged device and no connection, its generation has moved on, and unless a router policy rules, it
  is not wanted; every other appliance keeps its bridged device. When saving the choice fails, the
  caller gets the error and bridge, connections and intentions are as they were.
\<close>

theorem disable_switches_off:
  "let s = bridge_run dn env0 fs ds es in
   case disable_bridge env i s of
     (t, Inr _) \<Rightarrow>
       getEnabled (be_base env) i (br_files t) = Some False \<and> bridged_as i t = None \<and> upstream (map_of (br_map t)) t i = None \<and>
       br_gens t i = br_gens s i + 1 \<and> \<not> wanted dn (env\<lparr>be_store := None\<rparr>) i t \<and>
       (\<lambda>j. bridged_as j t) = (\<lambda>j. bridged_as j s)(i := None)
   | (t, Inl e) \<Rightarrow> objs t = objs s \<and> br_map t = br_map s \<and> link_log t = link_log s \<and> br_intent t = br_intent s"
proof -
  let ?s = "bridge_run dn env0 fs ds es"
  obtain t r where t: "setIntent env i False ?s = (t, r)" by (cases "setIntent env i False ?s")
  note f = setIntent_simps [OF t]
  show ?thesis
  proof (cases r)
    case (Inl e)
    then show ?thesis using t f by (simp add: disable_bridge_def Let_def)
  next
    case (Inr u)
    let ?u = "tell (StatusChanged i) (stop i t)"
    have "getEnabled (be_base env) i (br_files ?u) = Some False" using f(9) [OF Inr] by (simp add: stop_fields)
    moreover have "bridged_as i ?u = None" by (simp add: bridged_as_def stop_map)
    moreover from this have "upstream (map_of (br_map ?u)) ?u i = None" by (simp add: upstream_def map_comp_def bridged_as_def)
    moreover have "br_gens ?u i = br_gens ?s i + 1" by (simp add: stop_fields f(3))
    moreover have "(\<lambda>j. bridged_as j ?u) = (\<lambda>j. bridged_as j ?s)(i := None)"
      by (rule ext) (simp add: bridged_as_def stop_map f(2))
    moreover have "disable_bridge env i ?s = (?u, Inr ())" using t Inr by (simp add: disable_bridge_def)
    ultimately show ?thesis by (simp add: Let_def wanted_def br_mode_def)
  qed
qed

subsection \<open>What the links leave alone\<close>

lemma more_disconnect: "links.more (disconnect b s) = links.more s"
  by (simp add: disconnect_def Let_def split: option.split)

lemma more_open_conn: "links.more (open_conn b s) = links.more s"
  by (simp add: open_conn_def Let_def)

lemma more_connect: "links.more (fst (connect dn env b s)) = links.more s"
  by (simp add: connect_def Let_def more_open_conn split: option.split)

lemma more_reconnectNow: "links.more (reconnectNow dn env b s) = links.more s"
proof -
  obtain t r where t: "connect dn env b s = (t, r)" by (cases "connect dn env b s")
  then have "links.more t = links.more s" using more_connect [of dn env b s] by simp
  then show ?thesis using t by (simp add: reconnectNow_def Let_def more_disconnect split: sum.split)
qed

lemma more_new_bridged: "links.more (new_bridged dn env up d s) = links.more s"
  by (simp add: new_bridged_def Let_def more_reconnectNow)

lemma more_destroy: "links.more (destroy_bridged b s) = links.more s"
  by (simp add: destroy_bridged_def Let_def split: option.split)

lemma more_on_conn: "links.more (on_conn dn c ev s) = links.more s"
  by (simp add: on_conn_def Let_def more_disconnect split: conn_event.split)

lemma more_reconnect_due: "links.more (reconnect_due dn env b s) = links.more s"
  by (simp add: reconnect_due_def more_reconnectNow)

lemma more_downstream:
  "links.more (onDownstreamData env b pk s) = links.more s" "links.more (onDownstreamMessage env b msg s) = links.more s"
  by (simp_all add: onDownstreamData_def onDownstreamMessage_def forward_failed_def more_disconnect split: option.split)

lemma more_fold: "(\<And>s b. links.more (f s b) = links.more s) \<Longrightarrow> links.more (foldl f s bs) = links.more s"
  by (induction bs arbitrary: s) simp_all

lemma more_listeners:
  "links.more (down_data env d pk s) = links.more s" "links.more (down_message env d msg s) = links.more s" "links.more (down_close d s) = links.more s"
  unfolding down_data_def down_message_def down_close_def by (rule more_fold; simp add: more_downstream more_destroy)+

lemma launch_fields:
  "br_files (launch dn env up d s) = br_files s" "br_gens (launch dn env up d s) = br_gens s" "br_present (launch dn env up d s) = br_present s"
  "br_queue (launch dn env up d s) = br_queue s" "br_running (launch dn env up d s) = br_running s" "br_intent (launch dn env up d s) = br_intent s"
  using same_more [OF more_new_bridged [of dn "be_link env" up d s]] by (simp_all add: launch_def Let_def)

text \<open>
  \<open>later\<close>: the queues are as they were, and generations only move on. Every operation on an
  appliance is such a step.
\<close>

definition later :: "bridge \<Rightarrow> bridge \<Rightarrow> bool" where
  "later s t \<longleftrightarrow> (\<forall>j. br_gens s j \<le> br_gens t j) \<and> br_running t = br_running s \<and> br_queue t = br_queue s"

lemma later_refl: "later s s"
  by (simp add: later_def)

lemma later_trans: "later s t \<Longrightarrow> later t u \<Longrightarrow> later s u"
  by (fastforce simp: later_def intro: le_trans)

lemma later_stop: "later s (stop i s)"
  by (simp add: later_def stop_fields)

lemma later_more: "links.more t = links.more s \<Longrightarrow> later s t"
  using same_more [of t s] by (simp add: later_def)

lemma later_fields [simp]:
  "later s (tell e t) = later s t" "later s (t\<lparr>br_files := fs\<rparr>) = later s t" "later s (t\<lparr>br_intent := it\<rparr>) = later s t"
  "later s (t\<lparr>br_present := p\<rparr>) = later s t" "later (s\<lparr>br_files := fs\<rparr>) t = later s t"
  by (simp_all add: later_def)

lemma start_frame: "later s (fst (start dn env d s)) \<and> br_files (fst (start dn env d s)) = br_files s"
proof -
  have "later s (launch dn env up d (stop i s))" for up i
    using later_stop [of s i] by (simp add: later_def launch_fields)
  then show ?thesis
    unfolding start_def Let_def
    by (simp add: later_refl later_stop launch_fields stop_fields split: option.split sum.split)
qed

lemma start_present_frame: "later s (fst (start_present dn env i s)) \<and> br_files (fst (start_present dn env i s)) = br_files s"
  using start_frame by (simp add: start_present_def later_refl split: option.split)

lemma later_and_then: "later s (fst r) \<Longrightarrow> (\<And>t a. later t (fst (f t a))) \<Longrightarrow> later s (fst (and_then r f))"
  by (cases r; cases "snd r") (auto intro: later_trans)

lemma later_then_tell: "later s (fst r) \<Longrightarrow> later s (fst (and_then r (\<lambda>t _. (tell e t, Inr x))))"
  by (rule later_and_then) (simp_all add: later_refl)

lemma later_setIntent: "later s (fst (setIntent env i b s))"
  by (simp add: setIntent_def later_refl split: prod.split sum.split)

lemma later_actions:
  "later s (fst (reconcile dn env i s))" "later s (fst (enable_action dn env i s))" "later s (fst (restore_action dn env i s))"
  "later s (fst (renew_done dn env i d g result s))" "later s (fst (disable_bridge env i s))"
proof -
  show "later s (fst (reconcile dn env i s))"
    unfolding reconcile_def using start_present_frame later_stop by (intro later_then_tell) simp
  show "later s (fst (enable_action dn env i s))"
    unfolding enable_action_def
    using start_present_frame by (cases "hasSavedState env i s") (auto intro!: later_and_then [OF later_setIntent] later_then_tell simp: later_refl)
  have p: "later s (fst (start_present dn env i (s\<lparr>br_files := fs\<rparr>)))" for fs
    using start_present_frame [of "s\<lparr>br_files := fs\<rparr>"] by simp
  show "later s (fst (restore_action dn env i s))"
    unfolding restore_action_def Let_def
    by (simp add: later_then_tell p later_refl split: prod.split sum.split bool.split)
  have st: "later s (stop i (s\<lparr>br_files := fs\<rparr>))" for fs
    using later_stop [of "s\<lparr>br_files := fs\<rparr>"] by simp
  have q: "later s (fst (start dn env d (stop i (s\<lparr>br_files := fs\<rparr>))))" for fs
    using later_trans [OF st] start_frame by blast
  show "later s (fst (renew_done dn env i d g result s))"
    unfolding renew_done_def Let_def
    by (simp add: later_then_tell st q later_refl split: prod.split sum.split)
  show "later s (fst (disable_bridge env i s))"
    unfolding disable_bridge_def
    by (rule later_and_then [OF later_setIntent]) (simp add: later_stop)
qed

lemma settle_files: "br_files (settle i act r) = br_files (fst r)" "br_map (settle i act r) = br_map (fst r)"
  "br_gens (settle i act r) = br_gens (fst r)" "br_running (settle i act r) = br_running (fst r)" "br_queue (settle i act r) = br_queue (fst r)"
  "objs (settle i act r) = objs (fst r)" "link_log (settle i act r) = link_log (fst r)"
  by (cases r; simp add: settle_def Let_def)+


subsection \<open>A renewal and what happens while it waits\<close>

definition not_registered :: "string \<Rightarrow> bridge_env \<times> bridge_step \<Rightarrow> bool" where
  "not_registered i e \<longleftrightarrow> (case snd e of Registered j _ \<Rightarrow> j \<noteq> i | _ \<Rightarrow> True)"

text \<open>
  \<open>moves\<close>: generations move on, a renewal of an identifier in \<open>is\<close> stays what it is, and a renewal
  never has a generation that is still to come.
\<close>

definition moves :: "string set \<Rightarrow> bridge \<Rightarrow> bridge \<Rightarrow> bool" where
  "moves is s t \<longleftrightarrow> (\<forall>j. br_gens s j \<le> br_gens t j) \<and> (\<forall>i p. i \<in> is \<longrightarrow> br_running s i = Some p \<longrightarrow> br_running t i = Some p) \<and>
    (\<forall>i p. br_running t i = Some p \<longrightarrow> br_running s i = Some p \<or> snd p \<le> br_gens t i)"

lemma later_moves: "later s t \<Longrightarrow> moves is s t"
  by (simp add: later_def moves_def)

lemma moves_trans: "moves is s t \<Longrightarrow> moves is t u \<Longrightarrow> moves is s u"
  unfolding moves_def by (meson le_trans)

lemma moves_settle: "later s (fst r) \<Longrightarrow> moves is s (settle k act r)"
  by (simp add: moves_def later_def settle_files)

lemma moves_fields [simp]:
  "moves is (s\<lparr>br_queue := q\<rparr>) t = moves is s t" "moves is s (t\<lparr>br_queue := q\<rparr>) = moves is s t"
  by (simp_all add: moves_def)

lemma moves_run_next: "moves is s (run_next dn env k s)"
proof (cases "br_running s k = None \<and> br_queue s k \<noteq> []")
  case False
  then show ?thesis by (auto simp: run_next_def moves_def split: option.split list.split)
next
  case True
  then obtain act acts where q: "br_queue s k = act # acts" by (cases "br_queue s k") auto
  let ?s = "s\<lparr>br_queue := (br_queue s)(k := acts)\<rparr>"
  have set: "moves is ?s (?s\<lparr>br_running := (br_running ?s)(k \<mapsto> (d, br_gens ?s k))\<rparr>)" for d
    using True by (auto simp: moves_def)
  have "moves is ?s (run_action dn env k act ?s)"
  proof (cases act)
    case Renew
    then show ?thesis using set
      by (auto simp: run_action_def moves_settle later_refl simp del: moves_fields split: option.split)
  qed (simp_all add: run_action_def moves_settle later_actions del: moves_fields)
  then show ?thesis using True q by (simp add: run_next_def)
qed

lemma moves_calls:
  "moves is s (refreshDeviceNames env s)" "moves is s (names_loaded result s)" "moves is s (fst (logout env s))"
  "moves is s (enable_bridge dn env k s)" "moves is s (serialize k act s)"
  by (auto simp: moves_def refreshDeviceNames_def names_loaded_def logout_def enable_bridge_def serialize_def Let_def
      split: option.split prod.split sum.split)

lemma moves_more: "links.more t = links.more s \<Longrightarrow> moves is s t"
  by (intro later_moves later_more)

lemma moves_do: "(\<And>i. i \<in> is \<Longrightarrow> not_registered i e) \<Longrightarrow> moves is s (bridge_do dn s e)"
proof (induction dn s e rule: bridge_do.induct)
  case (1 dn s env d)
  show ?case using start_frame [of "s\<lparr>br_present := p\<rparr>" for p] by (auto simp: manager_new_def later_def moves_def)
next
  case (2 dn s env d)
  have "later s (if present (dn_id (dn d)) s = Some d then stop (dn_id (dn d)) (s\<lparr>br_present := p\<rparr>) else s)" for p
    using later_stop [of "s\<lparr>br_present := p\<rparr>"] by (simp add: later_refl) (simp add: later_def)
  then show ?case
    unfolding bridge_do.simps device_closed_def Let_def
    by (intro later_moves) (rule later_trans [OF _ later_more [OF more_listeners(3)]])
next
  case (12 dn s env)
  have "moves is s (foldl (\<lambda>s i. serialize i Reconcile s) s ks)" for ks
  proof (induction ks arbitrary: s)
    case (Cons k ks)
    show ?case using moves_trans [OF moves_calls(5) Cons.IH] by simp
  qed (simp add: later_moves later_refl)
  then show ?case by (simp add: reconcileAll_def)
next
  case (14 dn s env k result)
  then have k: "k \<notin> is" by (auto simp: not_registered_def)
  show ?case
  proof (cases "br_running s k")
    case None
    then show ?thesis by (simp add: registered_now_def later_moves later_refl)
  next
    case (Some p)
    let ?s = "s\<lparr>br_running := (br_running s)(k := None)\<rparr>"
    have "moves is s ?s" using k by (auto simp: moves_def)
    moreover have "moves is ?s (settle k Renew (renew_done dn env k (fst p) (snd p) result ?s))"
      by (intro moves_settle later_actions)
    ultimately show ?thesis using Some moves_trans by (cases p) (auto simp: registered_now_def)
  qed
qed (auto simp: moves_calls moves_run_next later_moves later_actions
    intro!: moves_more more_listeners more_on_conn more_reconnect_due)

lemma moves_fold: "(\<And>i. i \<in> is \<Longrightarrow> list_all (not_registered i) es) \<Longrightarrow> moves is s (foldl (bridge_do dn) s es)"
proof (induction es arbitrary: s)
  case Nil
  then show ?case by (simp add: later_moves later_refl)
next
  case (Cons e es)
  have "moves is s (bridge_do dn s e)" using Cons.prems by (intro moves_do) simp
  moreover have "moves is (bridge_do dn s e) (foldl (bridge_do dn) (bridge_do dn s e) es)" using Cons.prems by (intro Cons.IH) simp
  ultimately show ?case using moves_trans by simp
qed

lemma running_generation: "br_running (bridge_run dn env fs ds es) i = Some (d, g) \<Longrightarrow> g \<le> br_gens (bridge_run dn env fs ds es) i"
proof -
  let ?n = "new_bridge dn env fs ds"
  have fold: "br_running (foldl (\<lambda>s d. fst (start dn env d s)) s xs) = br_running s" for s xs
    using start_frame by (induction xs arbitrary: s) (auto simp: later_def)
  have "br_running ?n = Map.empty"
    by (simp add: new_bridge_def Let_def refreshDeviceNames_def fold)
  moreover have "moves {} ?n (bridge_run dn env fs ds es)" unfolding bridge_run_def by (rule moves_fold) simp
  moreover assume "br_running (bridge_run dn env fs ds es) i = Some (d, g)"
  ultimately show ?thesis by (fastforce simp: moves_def)
qed

text \<open>
  C3. Switching off wins over a renewal: when an appliance is disabled while its renewal waits for the
  account, then whatever else happens before the account answers, the new registration is not
  stored, no bridged device changes, and the renewal's caller gets an error.
\<close>

theorem disable_beats_renewal:
  assumes "br_running (bridge_run dn env0 fs ds es) i = Some (d, g)"
    "disable_bridge env i (bridge_run dn env0 fs ds es) = (t, Inr ())"
    "list_all (not_registered i) steps"
  shows "let u = foldl (bridge_do dn) t steps; v = bridge_do dn u (env', Registered i (Inr registration)) in
    br_files v = br_files u \<and> br_map v = br_map u \<and> objs v = objs u \<and>
    (\<exists>e. Answer i Renew (Some e) \<in> set (drop (length (br_log u)) (br_log v)))"
proof -
  let ?s = "bridge_run dn env0 fs ds es"
  define u where "u = foldl (bridge_do dn) t steps"
  have g: "g \<le> br_gens ?s i" using running_generation [OF assms(1)] .
  obtain s' where s': "setIntent env i False ?s = (s', Inr ())" and t: "t = tell (StatusChanged i) (stop i s')"
    using assms(2) by (cases "setIntent env i False ?s"; cases "snd (setIntent env i False ?s)") (auto simp: disable_bridge_def)
  note f = setIntent_simps [OF s']
  have t': "br_running t i = Some (d, g)" "g < br_gens t i" using assms(1) g by (simp_all add: t f stop_fields)
  have "moves {i} t u" unfolding u_def by (rule moves_fold) (use assms(3) in simp)
  then have run: "br_running u i = Some (d, g)" and gen: "g < br_gens u i"
    using t' by (auto simp: moves_def intro: less_le_trans)
  let ?u = "u\<lparr>br_running := (br_running u)(i := None)\<rparr>"
  obtain e where "renew_done dn env' i d g (Inr registration) ?u = (?u, Inl e)"
    using gen by (auto simp: renew_done_def)
  then have v: "bridge_do dn u (env', Registered i (Inr registration)) = settle i Renew (?u, Inl e)"
    using run by (simp add: registered_now_def)
  have "Answer i Renew (Some e) \<in> set (drop (length (br_log u)) (br_log (settle i Renew (?u, Inl e))))"
    by (simp add: settle_def Let_def)
  then show ?thesis unfolding u_def [symmetric] Let_def v settle_files by auto
qed


definition demo_down :: "nat \<Rightarrow> down" where
  "demo_down = (\<lambda>_. \<lparr>dn_id = ''w'', dn_platform = Thinq2, dn_addr = None, dn_type = None\<rparr>)"

definition demo_env :: bridge_env where
  "demo_env = \<lparr>be_link = \<lparr>last_report = (\<lambda>_. None), new_throws = (\<lambda>_. None), send_throws = (\<lambda>_. None)\<rparr>,
    be_fs = \<lparr>refuses = (\<lambda>_. False), torn = (\<lambda>_. None)\<rparr>, be_base = ''/d'', be_store = None\<rparr>"

lemma demo_paths: "intentPath ''/d'' ''w'' = Inr ''/d/intent_w.json''" "devicePath ''/d'' ''w'' = Inr ''/d/device_w.json''"
  by code_simp+

lemma disable_beats_renewal_witness:
  "let t = fst (disable_bridge demo_env ''w'' (bridge_run demo_down demo_env Map.empty [0] [(demo_env, CallRenew ''w''), (demo_env, RunNext ''w'')]));
       u = foldl (bridge_do demo_down) t [(demo_env, RefreshNames)];
       v = bridge_do demo_down u (demo_env, Registered ''w'' (Inr (JStr ''new'')))
   in br_files v = br_files u \<and> br_map v = br_map u \<and> objs v = objs u \<and>
     (\<exists>e. Answer ''w'' Renew (Some e) \<in> set (drop (length (br_log u)) (br_log v)))"
proof -
  define s where "s = bridge_run demo_down demo_env Map.empty [0] [(demo_env, CallRenew ''w''), (demo_env, RunNext ''w'')]"
  have s: "br_running s ''w'' = Some (0, 0)" "br_files s = Map.empty"
    by (simp_all add: s_def bridge_run_def new_bridge_def Let_def start_def demo_down_def wanted_def br_mode_def demo_env_def
        getEnabled_def demo_paths readFile_def hasSavedState_def getDeviceState_def parsed_def refreshDeviceNames_def isLoggedIn_def
        getCredentials_def oauth2Path_def serialize_def run_next_def run_action_def present_def)
  have r: "snd (disable_bridge demo_env ''w'' s) = Inr ()"
    by (simp add: disable_bridge_def setIntent_def setEnabled_def demo_env_def demo_paths writeAtomically_def write_calls_def fs_do_def s(2))
  have t: "disable_bridge demo_env ''w'' s = (fst (disable_bridge demo_env ''w'' s), Inr ())"
    using r by (metis prod.collapse)
  show ?thesis
    using disable_beats_renewal [OF s(1) [unfolded s_def] t [unfolded s_def], of "[(demo_env, RefreshNames)]" demo_env "JStr ''new''"]
    by (simp add: not_registered_def Let_def)
qed

text \<open>
  C15. In preserve mode, which DNAT forwarding always uses, a registration never removes the appliance
  from the account, and adds it only when the account does not have it: a ThinQ 2 appliance that is
  missing from the list is added, itself and in the preserving way; a ThinQ 1 appliance never is.
\<close>

theorem preserve_mode_keeps_home:
  "list_all (\<lambda>c. case c of
       RemoveDevice _ \<Rightarrow> False
     | AddDevice i _ _ preserving \<Rightarrow> i = dn_id dev \<and> preserving \<and> dn_platform dev = Thinq2 \<and>
         (case api_list a of Inl _ \<Rightarrow> False | Inr ids \<Rightarrow> i \<notin> set ids)
     | _ \<Rightarrow> True) (fst (register_device a logged_in dev deviceType True))"
  by (cases "dn_platform dev"; cases "api_auth a"; cases "api_list a"; cases "api_gateway a"; cases "api_otp a"; cases "api_pair a"; cases "api_add a")
    (auto simp: register_device_def register_thinq1_def register_thinq2_def ask_def Let_def)

end
